(* ===== verification/JsRuntime.thy ===== *)
theory JsRuntime
  imports Prelude Complex_Main
begin

text \<open>
  The part of the JavaScript language and its standard library that the program uses:
  strings as sequences of UTF-16 code units with the functions the code calls on them,
  numbers with their integer tests, Unicode general categories used by the regular
  expressions, and values of unknown shape with their own property descriptors.

  Modelling decisions. A string is the list of its UTF-16 code units. A number is an
  integer (exact: every number the code computes with has passed
  \<open>Number.isSafeInteger\<close>, so no rounding occurs below $2^{53}$), a finite
  non-integer, an infinity or NaN; negative zero is the integer 0, which no test of the
  code distinguishes. A value is a finite tree, so the cyclic values that
  \<open>seen.has\<close> rejects do not occur. An array has its indexed own properties
  (a hole is \<open>None\<close>) and its length, and no further own properties.
\<close>

section \<open>Strings\<close>

type_synonym jsstring = "nat list"

definition js :: "string \<Rightarrow> jsstring" where
  "js s = map of_char s"

lemma js_eq_iff [simp]: "js a = js b \<longleftrightarrow> a = b"
  unfolding js_def by (rule inj_map_eq_map) (simp add: inj_on_def)

lemma length_js [simp]: "length (js s) = length s"
  by (simp add: js_def)

lemma js_Nil [simp]: "js [] = []"
  by (simp add: js_def)

lemma js_eq_Nil_iff [simp]: "js s = [] \<longleftrightarrow> s = []" "[] = js s \<longleftrightarrow> s = []"
  by (auto simp: js_def)

lemma js_append: "js (a @ b) = js a @ js b"
  by (simp add: js_def)

lemma js_inj: "inj js"
  by (rule injI) simp

definition isHighSurrogate :: "nat \<Rightarrow> bool" where
  "isHighSurrogate u \<longleftrightarrow> 0xd800 \<le> u \<and> u \<le> 0xdbff"

definition isLowSurrogate :: "nat \<Rightarrow> bool" where
  "isLowSurrogate u \<longleftrightarrow> 0xdc00 \<le> u \<and> u \<le> 0xdfff"

text \<open>Iterating a string (\<open>for (const char of value)\<close>) yields its code points; each
  is given as the code units it consists of.\<close>

fun strChars :: "jsstring \<Rightarrow> jsstring list" where
  "strChars [] = []"
| "strChars [x] = [[x]]"
| "strChars (x # y # zs) =
     (if isHighSurrogate x \<and> isLowSurrogate y then [x, y] # strChars zs
      else [x] # strChars (y # zs))"

fun codePointOf :: "jsstring \<Rightarrow> nat" where
  "codePointOf [x, y] = 0x10000 + (x - 0xd800) * 0x400 + (y - 0xdc00)"
| "codePointOf (x # _) = x"
| "codePointOf [] = 0"

definition codePoints :: "jsstring \<Rightarrow> nat list" where
  "codePoints s = map codePointOf (strChars s)"

lemma concat_strChars [simp]: "concat (strChars s) = s"
  by (induction s rule: strChars.induct) auto

lemma strChars_nonempty: "c \<in> set (strChars s) \<Longrightarrow> c \<noteq> []"
  by (induction s rule: strChars.induct) (auto split: if_splits)

text \<open>The number of UTF-8 bytes of a string: lone surrogates count as the three bytes
  of the replacement character, as \<open>TextEncoder\<close> and \<open>Buffer.byteLength\<close> do.\<close>

fun utf8ByteLength :: "jsstring \<Rightarrow> nat" where
  "utf8ByteLength [] = 0"
| "utf8ByteLength (code # rest) =
     (if code < 0x80 then 1 + utf8ByteLength rest
      else if code < 0x800 then 2 + utf8ByteLength rest
      else if isHighSurrogate code \<and> rest \<noteq> [] then
        (if isLowSurrogate (hd rest) then 4 + utf8ByteLength (tl rest)
         else 3 + utf8ByteLength rest)
      else 3 + utf8ByteLength rest)"

declare utf8ByteLength.simps(2) [simp del]

text \<open>The early-exit variant: \<open>True\<close> as soon as the count passes \<open>maxBytes\<close>.\<close>

fun utf8ByteLengthExceedsFrom :: "nat \<Rightarrow> jsstring \<Rightarrow> nat \<Rightarrow> bool" where
  "utf8ByteLengthExceedsFrom bytes [] maxBytes = False"
| "utf8ByteLengthExceedsFrom bytes (code # rest) maxBytes =
     (if code < 0x80 then
        bytes + 1 > maxBytes \<or> utf8ByteLengthExceedsFrom (bytes + 1) rest maxBytes
      else if code < 0x800 then
        bytes + 2 > maxBytes \<or> utf8ByteLengthExceedsFrom (bytes + 2) rest maxBytes
      else if isHighSurrogate code \<and> rest \<noteq> [] then
        (if isLowSurrogate (hd rest) then
           bytes + 4 > maxBytes \<or> utf8ByteLengthExceedsFrom (bytes + 4) (tl rest) maxBytes
         else bytes + 3 > maxBytes \<or> utf8ByteLengthExceedsFrom (bytes + 3) rest maxBytes)
      else bytes + 3 > maxBytes \<or> utf8ByteLengthExceedsFrom (bytes + 3) rest maxBytes)"

declare utf8ByteLengthExceedsFrom.simps(2) [simp del]

definition utf8ByteLengthExceeds :: "jsstring \<Rightarrow> nat \<Rightarrow> bool" where
  "utf8ByteLengthExceeds value maxBytes = utf8ByteLengthExceedsFrom 0 value maxBytes"

text \<open>Both loops advance by one code point and add its width; the equations below
  follow the code-point structure, so that proofs go by \<open>strChars.induct\<close>.\<close>

definition unitBytes :: "nat \<Rightarrow> nat" where
  "unitBytes code = (if code < 0x80 then 1 else if code < 0x800 then 2 else 3)"

lemma unitBytes_bounds: "1 \<le> unitBytes u" "unitBytes u \<le> 3"
  by (auto simp: unitBytes_def)

lemma utf8ByteLength_single [simp]: "utf8ByteLength [x] = unitBytes x"
  by (simp add: utf8ByteLength.simps(2) unitBytes_def)

lemma utf8ByteLength_Cons2:
  "utf8ByteLength (x # y # zs) =
     (if isHighSurrogate x \<and> isLowSurrogate y then 4 + utf8ByteLength zs
      else unitBytes x + utf8ByteLength (y # zs))"
  by (auto simp: utf8ByteLength.simps(2)[of x] unitBytes_def isHighSurrogate_def)

lemma utf8ByteLengthExceedsFrom_single:
  "utf8ByteLengthExceedsFrom b [x] m \<longleftrightarrow> b + unitBytes x > m"
  by (simp add: utf8ByteLengthExceedsFrom.simps(2) unitBytes_def)

lemma utf8ByteLengthExceedsFrom_Cons2:
  "utf8ByteLengthExceedsFrom b (x # y # zs) m \<longleftrightarrow>
     (if isHighSurrogate x \<and> isLowSurrogate y
      then b + 4 > m \<or> utf8ByteLengthExceedsFrom (b + 4) zs m
      else b + unitBytes x > m \<or> utf8ByteLengthExceedsFrom (b + unitBytes x) (y # zs) m)"
  by (auto simp: utf8ByteLengthExceedsFrom.simps(2)[of b x] unitBytes_def isHighSurrogate_def)

lemma utf8ByteLengthExceedsFrom_eq:
  "b \<le> m \<Longrightarrow> utf8ByteLengthExceedsFrom b s m \<longleftrightarrow> b + utf8ByteLength s > m"
proof (induction s arbitrary: b rule: strChars.induct)
  case (3 x y zs)
  show ?case
  proof (cases "isHighSurrogate x \<and> isLowSurrogate y")
    case True
    with 3 show ?thesis
      by (cases "b + 4 \<le> m") (simp_all add: add.assoc utf8ByteLengthExceedsFrom_Cons2 utf8ByteLength_Cons2)
  next
    case False
    with 3 show ?thesis
      by (cases "b + unitBytes x \<le> m")
        (auto simp: add.assoc utf8ByteLengthExceedsFrom_Cons2 utf8ByteLength_Cons2)
  qed
qed (simp_all add: utf8ByteLengthExceedsFrom_single)

lemma utf8ByteLengthExceeds_iff [js_simps]:
  "utf8ByteLengthExceeds s maxBytes \<longleftrightarrow> utf8ByteLength s > maxBytes"
  by (simp add: utf8ByteLengthExceeds_def utf8ByteLengthExceedsFrom_eq)

lemma utf8ByteLength_ge_units: "length s \<le> utf8ByteLength s"
proof (induction s rule: strChars.induct)
  case (3 x y zs)
  then show ?case
    using unitBytes_bounds(1)[of x] by (auto simp: utf8ByteLength_Cons2)
qed (use unitBytes_bounds in auto)

lemma utf8ByteLength_le_units: "utf8ByteLength s \<le> 3 * length s"
proof (induction s rule: strChars.induct)
  case (3 x y zs)
  then show ?case
    using unitBytes_bounds(2)[of x] by (auto simp: utf8ByteLength_Cons2)
qed (use unitBytes_bounds in auto)

lemma utf8ByteLength_strChars:
  "utf8ByteLength s = sum_list (map utf8ByteLength (strChars s))"
  by (induction s rule: strChars.induct) (auto simp: utf8ByteLength_Cons2)

lemma utf8ByteLength_Cons_le: "utf8ByteLength (x # s) \<le> unitBytes x + utf8ByteLength s"
  by (cases s; cases "tl s")
    (auto simp: utf8ByteLength_Cons2 unitBytes_def isHighSurrogate_def isLowSurrogate_def)

lemma utf8ByteLength_append_le: "utf8ByteLength (a @ b) \<le> utf8ByteLength a + utf8ByteLength b"
proof (induction a rule: strChars.induct)
  case (3 x y zs)
  then show ?case by (auto simp: utf8ByteLength_Cons2)
qed (auto simp: utf8ByteLength_Cons_le)

lemma utf8ByteLength_ascii: "list_all (\<lambda>c. c < 0x80) s \<Longrightarrow> utf8ByteLength s = length s"
  by (induction s rule: strChars.induct) (auto simp: utf8ByteLength_Cons2 unitBytes_def isHighSurrogate_def)

section \<open>Character classes\<close>

text \<open>The Unicode general categories Cc and Cf of the \<open>\p{Cc}\<close> and \<open>\p{Cf}\<close>
  classes, on code points, and the white space of \<open>\s\<close> and \<open>trim\<close>.\<close>

definition isCc :: "nat \<Rightarrow> bool" where
  "isCc c \<longleftrightarrow> c \<le> 0x1f \<or> (0x7f \<le> c \<and> c \<le> 0x9f)"

definition cfRanges :: "(nat \<times> nat) list" where
  "cfRanges =
    [(0xad, 0xad), (0x600, 0x605), (0x61c, 0x61c), (0x6dd, 0x6dd), (0x70f, 0x70f),
     (0x890, 0x891), (0x8e2, 0x8e2), (0x180e, 0x180e), (0x200b, 0x200f), (0x202a, 0x202e),
     (0x2060, 0x2064), (0x2066, 0x206f), (0xfeff, 0xfeff), (0xfff9, 0xfffb),
     (0x110bd, 0x110bd), (0x110cd, 0x110cd), (0x13430, 0x1343f), (0x1bca0, 0x1bca3),
     (0x1d173, 0x1d17a), (0xe0001, 0xe0001), (0xe0020, 0xe007f)]"

definition isCf :: "nat \<Rightarrow> bool" where
  "isCf c \<longleftrightarrow> list_ex (\<lambda>(lo, hi). lo \<le> c \<and> c \<le> hi) cfRanges"

definition isControlOrFormat :: "nat \<Rightarrow> bool" where
  "isControlOrFormat c \<longleftrightarrow> isCc c \<or> isCf c"

definition isSpace :: "nat \<Rightarrow> bool" where
  "isSpace c \<longleftrightarrow> (9 \<le> c \<and> c \<le> 13) \<or> c = 32 \<or> c = 0xa0 \<or> c = 0x1680 \<or>
     (0x2000 \<le> c \<and> c \<le> 0x200a) \<or> c = 0x2028 \<or> c = 0x2029 \<or> c = 0x202f \<or>
     c = 0x205f \<or> c = 0x3000 \<or> c = 0xfeff"

definition isDigit :: "nat \<Rightarrow> bool" where
  "isDigit c \<longleftrightarrow> 48 \<le> c \<and> c \<le> 57"

definition isUpperAZ :: "nat \<Rightarrow> bool" where
  "isUpperAZ c \<longleftrightarrow> 65 \<le> c \<and> c \<le> 90"

definition isLowerAZ :: "nat \<Rightarrow> bool" where
  "isLowerAZ c \<longleftrightarrow> 97 \<le> c \<and> c \<le> 122"

definition isAlnum :: "nat \<Rightarrow> bool" where
  "isAlnum c \<longleftrightarrow> isDigit c \<or> isUpperAZ c \<or> isLowerAZ c"

lemmas ascii_class_defs = isDigit_def isUpperAZ_def isLowerAZ_def isAlnum_def

lemma isCf_ascii [simp]: "c < 0x80 \<Longrightarrow> \<not> isCf c"
  by (simp add: isCf_def cfRanges_def)

lemma isControlOrFormat_ascii: "c < 0x80 \<Longrightarrow> isControlOrFormat c \<longleftrightarrow> c \<le> 0x1f \<or> c = 0x7f"
  by (auto simp: isControlOrFormat_def isCc_def)

text \<open>\<open>/[\p{Cc}\p{Cf}]/u.test(value)\<close>: some code point is a control or format character.\<close>

definition hasControlOrFormat :: "jsstring \<Rightarrow> bool" where
  "hasControlOrFormat s \<longleftrightarrow> list_ex isControlOrFormat (codePoints s)"

section \<open>String methods\<close>

definition trim :: "jsstring \<Rightarrow> jsstring" where
  "trim s = rev (dropWhile isSpace (rev (dropWhile isSpace s)))"

text \<open>\<open>toLowerCase\<close>. Every caller compares the result with ASCII patterns only, so the
  mapping is spelled out for the code points whose lower case contains an ASCII letter
  (A to Z, U+0130 and U+212A); other code points, whose lower case has no ASCII
  character, are left as they are.\<close>

definition lowerUnit :: "nat \<Rightarrow> jsstring" where
  "lowerUnit c = (if isUpperAZ c then [c + 32]
     else if c = 0x130 then [105, 0x307]
     else if c = 0x212a then [107] else [c])"

definition toLowerCase :: "jsstring \<Rightarrow> jsstring" where
  "toLowerCase s = concat (map lowerUnit s)"

definition startsWith :: "jsstring \<Rightarrow> jsstring \<Rightarrow> bool" where
  "startsWith s p \<longleftrightarrow> take (length p) s = p"

definition endsWith :: "jsstring \<Rightarrow> jsstring \<Rightarrow> bool" where
  "endsWith s p \<longleftrightarrow> length p \<le> length s \<and> drop (length s - length p) s = p"

text \<open>\<open>indexOf\<close> and \<open>lastIndexOf\<close> of one code unit; \<open>None\<close> stands for $-1$.\<close>

fun indexOf :: "nat \<Rightarrow> jsstring \<Rightarrow> nat option" where
  "indexOf c [] = None"
| "indexOf c (x # xs) = (if x = c then Some 0 else map_option Suc (indexOf c xs))"

definition lastIndexOf :: "nat \<Rightarrow> jsstring \<Rightarrow> nat option" where
  "lastIndexOf c s = map_option (\<lambda>i. length s - 1 - i) (indexOf c (rev s))"

text \<open>\<open>split\<close> at every occurrence of one code unit.\<close>

fun splitAt :: "nat \<Rightarrow> jsstring \<Rightarrow> jsstring list" where
  "splitAt c [] = [[]]"
| "splitAt c (x # xs) =
     (if x = c then [] # splitAt c xs
      else case splitAt c xs of [] \<Rightarrow> [[x]] | p # ps \<Rightarrow> (x # p) # ps)"

lemma splitAt_nonempty [simp]: "splitAt c s \<noteq> []"
  by (induction s) (auto split: list.splits)

lemma splitAt_no_sep: "p \<in> set (splitAt c s) \<Longrightarrow> c \<notin> set p"
  by (induction s arbitrary: p) (auto split: list.splits if_splits)

lemma splitAt_append:
  "c \<notin> set p \<Longrightarrow> splitAt c (p @ c # s) = p # splitAt c s"
  by (induction p) auto

lemma splitAt_none: "c \<notin> set p \<Longrightarrow> splitAt c p = [p]"
  by (induction p) auto

text \<open>\<open>join\<close> with one code unit, the inverse of \<open>split\<close>.\<close>

fun joinWith :: "nat \<Rightarrow> jsstring list \<Rightarrow> jsstring" where
  "joinWith c [] = []"
| "joinWith c [p] = p"
| "joinWith c (p # q # ps) = p @ c # joinWith c (q # ps)"

lemma joinWith_Cons: "ps \<noteq> [] \<Longrightarrow> joinWith c (p # ps) = p @ c # joinWith c ps"
  by (cases ps) auto

lemma joinWith_grow: "joinWith c ((x # p) # ps) = x # joinWith c (p # ps)"
  by (cases ps) auto

lemma joinWith_splitAt [simp]: "joinWith c (splitAt c s) = s"
proof (induction s)
  case (Cons x xs)
  obtain p ps where "splitAt c xs = p # ps" using splitAt_nonempty by (cases "splitAt c xs") auto
  with Cons show ?case by (auto simp: joinWith_grow)
qed simp

lemma toLowerCase_ascii_stable:
  "list_all (\<lambda>c. c < 0x80 \<and> \<not> isUpperAZ c) s \<Longrightarrow> toLowerCase s = s"
  by (induction s) (auto simp: toLowerCase_def lowerUnit_def)

lemma dropWhile_stable: "s = [] \<or> \<not> P (hd s) \<Longrightarrow> dropWhile P s = s"
  by (cases s) auto

lemma trim_stable: "list_all (\<lambda>c. \<not> isSpace c) s \<Longrightarrow> trim s = s"
proof -
  assume "list_all (\<lambda>c. \<not> isSpace c) s"
  then have "dropWhile isSpace s = s" "dropWhile isSpace (rev s) = rev s"
    by (auto simp: list_all_iff intro!: dropWhile_stable) (metis hd_in_set set_rev rev_is_Nil_conv)+
  then show "trim s = s" by (simp add: trim_def)
qed

section \<open>Decimal numerals\<close>

text \<open>\<open>String(n)\<close> for a natural number below $10^{21}$, and the value of a digit string.\<close>

fun dec :: "nat \<Rightarrow> jsstring" where
  "dec n = (if n < 10 then [48 + n] else dec (n div 10) @ [48 + n mod 10])"

declare dec.simps [simp del]

definition decValue :: "jsstring \<Rightarrow> nat" where
  "decValue s = foldl (\<lambda>v c. v * 10 + (c - 48)) 0 s"

lemma decValue_snoc: "decValue (s @ [c]) = decValue s * 10 + (c - 48)"
  by (simp add: decValue_def)

lemma decValue_dec [simp]: "decValue (dec n) = n"
proof (induction n rule: dec.induct)
  case (1 n)
  then show ?case
    by (cases "n < 10") (simp_all add: dec.simps[of n] decValue_snoc, simp add: decValue_def)
qed

lemma dec_inject [simp]: "dec a = dec b \<longleftrightarrow> a = b"
  by (metis decValue_dec)

lemma dec_digits: "c \<in> set (dec n) \<Longrightarrow> isDigit c"
proof (induction n rule: dec.induct)
  case (1 n)
  then show ?case
    by (cases "n < 10") (auto simp: dec.simps[of n] isDigit_def)
qed

lemma dec_nonempty [simp]: "dec n \<noteq> []"
  by (subst dec.simps) simp

lemma length_dec_le: "n < 10 ^ k \<Longrightarrow> length (dec n) \<le> max 1 k"
proof (induction n arbitrary: k rule: dec.induct)
  case (1 n)
  show ?case
  proof (cases "n < 10")
    case True
    then show ?thesis by (simp add: dec.simps[of n])
  next
    case False
    with "1.prems" obtain k' where k: "k = Suc k'" "k' \<noteq> 0"
      by (cases k) (auto, cases "k - 1", auto)
    have "n div 10 < 10 ^ k'" using "1.prems" k by (simp add: less_mult_imp_div_less mult.commute)
    with "1.IH"[OF False this] k show ?thesis by (simp add: dec.simps[of n] False)
  qed
qed

section \<open>Numbers\<close>

datatype jsnum = NInt int | NFrac rat | NInf bool | NNaN

definition MAX_SAFE_INTEGER :: int where
  "MAX_SAFE_INTEGER = 9007199254740991"

fun isInteger :: "jsnum \<Rightarrow> bool" where
  "isInteger (NInt _) = True"
| "isInteger _ = False"

fun isSafeInteger :: "jsnum \<Rightarrow> bool" where
  "isSafeInteger (NInt i) = (\<bar>i\<bar> \<le> MAX_SAFE_INTEGER)"
| "isSafeInteger _ = False"

fun isFinite :: "jsnum \<Rightarrow> bool" where
  "isFinite (NInt _) = True"
| "isFinite (NFrac _) = True"
| "isFinite _ = False"

section \<open>Values\<close>

datatype 'v pdesc = DataProp bool 'v | AccessorProp bool

datatype jskey = KStr jsstring | KSym nat

text \<open>Of an object that inherits from \<open>Blob.prototype\<close> the value carries its \<open>size\<close>, \<open>None\<close> when
  that is no finite number.\<close>

datatype jsproto = ObjectPrototype | NullPrototype | OtherPrototype | BlobPrototype "nat option"

text \<open>A \<open>Uint8Array\<close> and an \<open>ArrayBuffer\<close> carry whether their prototype is the
  canonical one.\<close>

datatype jsval =
    Undefined | Null | Boolean bool | Number jsnum | Str jsstring
  | BigInt int | SymbolVal nat | Func nat
  | Arr "jsval pdesc option list"
  | Obj jsproto "(jskey \<times> jsval pdesc) list"
  | Uint8Array bool "8 word list"
  | ArrayBuf bool "8 word list"

fun isDataEnumerable :: "'v pdesc \<Rightarrow> bool" where
  "isDataEnumerable (DataProp e _) = e"
| "isDataEnumerable (AccessorProp _) = False"

definition hasOnlyDataProperties :: "(jskey \<times> jsval pdesc) list \<Rightarrow> bool" where
  "hasOnlyDataProperties ps = list_all (\<lambda>(k, d). isDataEnumerable d) ps"

fun isObject :: "jsval \<Rightarrow> bool" where
  "isObject (Obj proto ps) = (proto \<in> {ObjectPrototype, NullPrototype} \<and> hasOnlyDataProperties ps)"
| "isObject _ = False"

fun hasOnlyKeys :: "jsval \<Rightarrow> string list \<Rightarrow> bool" where
  "hasOnlyKeys (Obj proto ps) allowed =
     list_all (\<lambda>(k, d). k \<in> set (map (\<lambda>a. KStr (js a)) allowed) \<and> isDataEnumerable d) ps"
| "hasOnlyKeys _ allowed = False"

fun dataValue :: "jsval pdesc option \<Rightarrow> jsval" where
  "dataValue (Some (DataProp _ v)) = v"
| "dataValue _ = Undefined"

fun ownDataValue :: "jsval \<Rightarrow> string \<Rightarrow> jsval" where
  "ownDataValue (Obj proto ps) key = dataValue (map_of ps (KStr (js key)))"
| "ownDataValue (Arr es) key =
     (if key = ''length'' then Number (NInt (int (length es))) else Undefined)"
| "ownDataValue _ key = Undefined"

fun ownArrayDataValue :: "jsval \<Rightarrow> nat \<Rightarrow> jsval" where
  "ownArrayDataValue (Arr es) i = (if i < length es then dataValue (es ! i) else Undefined)"
| "ownArrayDataValue _ i = Undefined"

fun hasOwnKey :: "jsval \<Rightarrow> string \<Rightarrow> bool" where
  "hasOwnKey (Obj proto ps) key = (map_of ps (KStr (js key)) \<noteq> None)"
| "hasOwnKey _ key = False"

text \<open>Object and array literals: every property is an enumerable data property.\<close>

definition jobj :: "(string \<times> jsval) list \<Rightarrow> jsval" where
  "jobj kvs = Obj ObjectPrototype (map (\<lambda>(k, v). (KStr (js k), DataProp True v)) kvs)"

definition jarr :: "jsval list \<Rightarrow> jsval" where
  "jarr vs = Arr (map (\<lambda>v. Some (DataProp True v)) vs)"

definition jnat :: "nat \<Rightarrow> jsval" where
  "jnat n = Number (NInt (int n))"

definition isSafeNonNegativeInteger :: "jsval \<Rightarrow> bool" where
  "isSafeNonNegativeInteger v =
     (case v of Number (NInt i) \<Rightarrow> 0 \<le> i \<and> i \<le> MAX_SAFE_INTEGER | _ \<Rightarrow> False)"

lemma isObject_jobj [simp]: "isObject (jobj kvs)"
  by (auto simp: jobj_def hasOnlyDataProperties_def list_all_iff)

lemma map_of_jobj:
  "map_of (map (\<lambda>(k, v). (KStr (js k), DataProp True v)) kvs) (KStr (js key)) =
     map_option (DataProp True) (map_of kvs key)"
  by (induction kvs) auto

lemma ownDataValue_jobj [simp]:
  "ownDataValue (jobj kvs) key = (case map_of kvs key of None \<Rightarrow> Undefined | Some v \<Rightarrow> v)"
  by (simp add: jobj_def map_of_jobj split: option.split)

lemma hasOwnKey_jobj [simp]: "hasOwnKey (jobj kvs) key \<longleftrightarrow> map_of kvs key \<noteq> None"
  by (simp add: jobj_def map_of_jobj)

lemma hasOnlyKeys_jobj [simp]:
  "hasOnlyKeys (jobj kvs) allowed \<longleftrightarrow> list_all (\<lambda>k. k \<in> set allowed) (map fst kvs)"
  by (auto simp: jobj_def list_all_iff)

lemma ownArrayDataValue_jarr [simp]:
  "ownArrayDataValue (jarr vs) i = (if i < length vs then vs ! i else Undefined)"
  by (simp add: jarr_def)

lemma isObject_jarr [simp]: "\<not> isObject (jarr vs)"
  by (simp add: jarr_def)

lemma isSafeNonNegativeInteger_jnat [simp]:
  "isSafeNonNegativeInteger (jnat n) \<longleftrightarrow> int n \<le> MAX_SAFE_INTEGER"
  by (simp add: isSafeNonNegativeInteger_def jnat_def)

lemma isSafeNonNegativeInteger_cases:
  assumes "isSafeNonNegativeInteger v"
  obtains n where "v = jnat n" and "int n \<le> MAX_SAFE_INTEGER"
proof -
  from assms obtain i where "v = Number (NInt i)" "0 \<le> i" "i \<le> MAX_SAFE_INTEGER"
    by (auto simp: isSafeNonNegativeInteger_def split: jsval.splits jsnum.splits)
  then show ?thesis using that[of "nat i"] by (simp add: jnat_def)
qed

end
