(* ===== verification/Constants.thy ===== *)
theory Constants
  imports Prelude
begin

text \<open>
  The numeric constants of \<open>src/src/shared/constants.ts\<close> that the modelled code uses,
  collected in \<open>limit_defs\<close>.
\<close>

definition PROTOCOL_VERSION :: nat where [limit_defs]: "PROTOCOL_VERSION = 10"
definition CODE_TTL_MS :: nat where [limit_defs]: "CODE_TTL_MS = 10 * 60 * 1000"
definition MAX_FILE_BYTES :: nat where [limit_defs]: "MAX_FILE_BYTES = 1024 * 1024 * 1024"
definition MAX_FILES_PER_SESSION :: nat where [limit_defs]: "MAX_FILES_PER_SESSION = 100"
definition MAX_FILE_NAME_CHARS :: nat where [limit_defs]: "MAX_FILE_NAME_CHARS = 1024"
definition MAX_MIME_CHARS :: nat where [limit_defs]: "MAX_MIME_CHARS = 255"
definition MAX_OUTPUT_NAME_ATTEMPTS :: nat where [limit_defs]: "MAX_OUTPUT_NAME_ATTEMPTS = 256"
definition CHUNK_SIZE :: nat where [limit_defs]: "CHUNK_SIZE = 16 * 1024"
definition DATA_CHANNEL_BUFFER_HIGH :: nat where [limit_defs]: "DATA_CHANNEL_BUFFER_HIGH = 8 * 1024 * 1024"
definition RECEIVE_QUEUE_MAX_BYTES :: nat where [limit_defs]: "RECEIVE_QUEUE_MAX_BYTES = DATA_CHANNEL_BUFFER_HIGH * 4"
definition RECEIVE_QUEUE_MAX_MESSAGES :: nat where [limit_defs]: "RECEIVE_QUEUE_MAX_MESSAGES = 4096"
definition CONNECT_TIMEOUT_MS :: nat where [limit_defs]: "CONNECT_TIMEOUT_MS = 45 * 1000"
definition PAKE_TIMEOUT_MS :: nat where [limit_defs]: "PAKE_TIMEOUT_MS = CONNECT_TIMEOUT_MS * 2 + 15 * 1000"
definition PAIR_TIMEOUT_MS :: nat where [limit_defs]: "PAIR_TIMEOUT_MS = 5 * 60 * 1000"
definition TRANSFER_CONTROL_TIMEOUT_MS :: nat where [limit_defs]: "TRANSFER_CONTROL_TIMEOUT_MS = 60 * 1000"
definition SIGNALING_MAX_PAYLOAD_BYTES :: nat where [limit_defs]: "SIGNALING_MAX_PAYLOAD_BYTES = 256 * 1024"
definition SIGNALING_MAX_BUFFERED_BYTES :: nat where [limit_defs]: "SIGNALING_MAX_BUFFERED_BYTES = 1024 * 1024"
definition ENCRYPTED_JSON_MAX_CHARS :: nat where [limit_defs]: "ENCRYPTED_JSON_MAX_CHARS = 192 * 1024"
definition SIGNALING_MAX_MESSAGES_PER_MINUTE :: nat where [limit_defs]: "SIGNALING_MAX_MESSAGES_PER_MINUTE = 240"
definition SIGNALING_MAX_BAD_MESSAGES :: nat where [limit_defs]: "SIGNALING_MAX_BAD_MESSAGES = 3"
definition SIGNALING_MAX_CONNECTIONS_PER_IP :: nat where [limit_defs]: "SIGNALING_MAX_CONNECTIONS_PER_IP = 32"
definition SIGNALING_MAX_WAITING_CODES :: nat where [limit_defs]: "SIGNALING_MAX_WAITING_CODES = 10000"
definition SIGNALING_MAX_SESSIONS :: nat where [limit_defs]: "SIGNALING_MAX_SESSIONS = 10000"
definition RECEIVER_MAX_PREPAIR_ATTEMPTS :: nat where [limit_defs]: "RECEIVER_MAX_PREPAIR_ATTEMPTS = 3"
definition SIGNALING_MAX_ICE_CANDIDATES_PER_PEER :: nat where [limit_defs]: "SIGNALING_MAX_ICE_CANDIDATES_PER_PEER = 512"
definition MAX_QUEUED_ICE_CANDIDATES :: nat where [limit_defs]: "MAX_QUEUED_ICE_CANDIDATES = 256"
definition MAX_BUFFERED_SIGNAL_MESSAGES :: nat where [limit_defs]: "MAX_BUFFERED_SIGNAL_MESSAGES = 300"
definition ICE_CONFIG_MAX_REQUESTS_PER_MINUTE :: nat where [limit_defs]: "ICE_CONFIG_MAX_REQUESTS_PER_MINUTE = 60"
definition TURN_REST_CREDENTIALS_MAX_ISSUES_PER_MINUTE :: nat where [limit_defs]: "TURN_REST_CREDENTIALS_MAX_ISSUES_PER_MINUTE = 20"
definition HTTP_MAX_HEADERS_COUNT :: nat where [limit_defs]: "HTTP_MAX_HEADERS_COUNT = 64"

end
