(* ===== verification/RateLimit.thy ===== *)
theory RateLimit
  imports JsRuntime Constants
begin

text \<open>
  The per-key sliding window limiter, \<open>src/src/server/rate-limit.ts\<close>. The limiter keeps at
  most \<open>maxHits + 1\<close> recent hit times per key; the lemmas show that this bounded memory
  decides exactly like the specification that remembers every hit, and that pruning is
  unobservable.
\<close>

section \<open>Input checks\<close>

definition MAX_RATE_LIMIT_RETAINED_HITS :: nat where
  "MAX_RATE_LIMIT_RETAINED_HITS = 100000"

text \<open>A number that passes the safe non-negative integer test, as a natural number.\<close>

fun safeNat :: "jsnum \<Rightarrow> nat option" where
  "safeNat (NInt i) = (if 0 \<le> i \<and> i \<le> MAX_SAFE_INTEGER then Some (nat i) else None)"
| "safeNat _ = None"

definition isSafePositiveInteger :: "jsnum \<Rightarrow> bool" where
  "isSafePositiveInteger n \<longleftrightarrow> (case safeNat n of None \<Rightarrow> False | Some k \<Rightarrow> 0 < k)"

definition isSafeBoundedHitCount :: "jsnum \<Rightarrow> bool" where
  "isSafeBoundedHitCount n \<longleftrightarrow>
     (case safeNat n of None \<Rightarrow> False | Some k \<Rightarrow> k < MAX_RATE_LIMIT_RETAINED_HITS)"

definition rateLimitInputsAllowed :: "jsnum \<Rightarrow> jsnum \<Rightarrow> jsnum \<Rightarrow> bool" where
  "rateLimitInputsAllowed now windowMs maxHits \<longleftrightarrow>
     safeNat now \<noteq> None \<and> isSafePositiveInteger windowMs \<and> isSafeBoundedHitCount maxHits"

section \<open>The limiter\<close>

text \<open>The loop over the stored times from the newest: it stops at the first time outside
  the window or when \<open>room\<close> times were taken, and \<open>None\<close> reports a malformed entry. The
  first argument is the stored list reversed.\<close>

fun collectRecent :: "jsnum list \<Rightarrow> nat \<Rightarrow> nat \<Rightarrow> nat \<Rightarrow> nat list option" where
  "collectRecent [] now windowMs room = Some []"
| "collectRecent (v # vs) now windowMs room =
     (if room = 0 then Some []
      else case safeNat v of
        None \<Rightarrow> None
      | Some time \<Rightarrow>
          if int now - int time \<ge> int windowMs then Some []
          else map_option (Cons time) (collectRecent vs now windowMs (room - 1)))"

abbreviation num :: "nat \<Rightarrow> jsnum" where
  "num n \<equiv> NInt (int n)"

definition recordFixedWindowHit ::
  "jsnum list \<Rightarrow> jsnum \<Rightarrow> jsnum \<Rightarrow> jsnum \<Rightarrow> bool \<times> jsnum list" where
  "recordFixedWindowHit values now windowMs maxHits =
     (if \<not> rateLimitInputsAllowed now windowMs maxHits then (False, [])
      else
        let t = the (safeNat now); w = the (safeNat windowMs); m = the (safeNat maxHits);
            maxRetained = m + 1 in
        case collectRecent (rev values) t w maxRetained of
          None \<Rightarrow> (False, [now])
        | Some newestFirst \<Rightarrow>
            let recent = rev newestFirst @ [t];
                kept = drop (length recent - maxRetained) recent in
            (length kept \<le> m, map num kept))"

type_synonym 'k hits = "'k \<rightharpoonup> jsnum list"

definition hitFixedWindowRateLimit ::
  "'k hits \<Rightarrow> 'k \<Rightarrow> jsnum \<Rightarrow> jsnum \<Rightarrow> jsnum \<Rightarrow> bool \<times> 'k hits" where
  "hitFixedWindowRateLimit hits key now windowMs maxHits =
     (let stored = (case hits key of None \<Rightarrow> [] | Some values \<Rightarrow> values);
          (allowed, kept) = recordFixedWindowHit stored now windowMs maxHits in
      (allowed, hits(key \<mapsto> kept)))"

definition hitIceConfigRateLimit :: "'k hits \<Rightarrow> 'k \<Rightarrow> jsnum \<Rightarrow> bool \<times> 'k hits" where
  "hitIceConfigRateLimit hits key now =
     hitFixedWindowRateLimit hits key now (num 60000) (num ICE_CONFIG_MAX_REQUESTS_PER_MINUTE)"

definition hitTurnCredentialIssueRateLimit :: "'k hits \<Rightarrow> 'k \<Rightarrow> jsnum \<Rightarrow> bool \<times> 'k hits" where
  "hitTurnCredentialIssueRateLimit hits key now =
     hitFixedWindowRateLimit hits key now (num 60000)
       (num TURN_REST_CREDENTIALS_MAX_ISSUES_PER_MINUTE)"

definition recentIn :: "nat \<Rightarrow> nat \<Rightarrow> jsnum \<Rightarrow> bool" where
  "recentIn now windowMs v \<longleftrightarrow>
     (case safeNat v of None \<Rightarrow> False | Some time \<Rightarrow> int now - int time < int windowMs)"

text \<open>The first loop finds the start of the recent suffix, the second copies it.\<close>

definition retainRecentSortedHits :: "jsnum list \<Rightarrow> nat \<Rightarrow> nat \<Rightarrow> jsnum list" where
  "retainRecentSortedHits values now windowMs =
     rev (takeWhile (recentIn now windowMs) (rev values))"

definition pruneFixedWindowRateLimits :: "'k hits \<Rightarrow> jsnum \<Rightarrow> jsnum \<Rightarrow> 'k hits" where
  "pruneFixedWindowRateLimits hits now windowMs =
     (if safeNat now = None \<or> \<not> isSafePositiveInteger windowMs then hits
      else (\<lambda>key. case hits key of
        None \<Rightarrow> None
      | Some values \<Rightarrow>
          let recent = retainRecentSortedHits values (the (safeNat now)) (the (safeNat windowMs)) in
          if recent \<noteq> [] then Some recent else None))"

section \<open>Specification\<close>

text \<open>Every hit of a key is remembered, oldest first; a hit is within the window of
  \<open>now\<close> when less than \<open>w\<close> milliseconds have passed.\<close>

definition inWindow :: "nat \<Rightarrow> nat \<Rightarrow> nat \<Rightarrow> bool" where
  "inWindow now w t \<longleftrightarrow> int now - int t < int w"

definition windowHits :: "nat list \<Rightarrow> nat \<Rightarrow> nat \<Rightarrow> nat list" where
  "windowHits ts now w = filter (inWindow now w) ts"

text \<open>What the limiter must hold for a key with history \<open>ts\<close>, from the point of view of a
  later time: it may have forgotten hits, but not the newest \<open>m + 1\<close> that any later window
  can still contain.\<close>

definition lastN :: "nat \<Rightarrow> 'a list \<Rightarrow> 'a list" where
  "lastN n xs = drop (length xs - n) xs"

lemma length_lastN [simp]: "length (lastN n xs) = min n (length xs)"
  by (auto simp: lastN_def)

lemma lastN_snoc: "lastN (Suc n) (xs @ [x]) = lastN n xs @ [x]"
  by (simp add: lastN_def)

lemma rev_take_rev: "rev (take n (rev xs)) = lastN n xs"
  by (simp add: lastN_def take_rev)

lemma lastN_lastN [simp]: "lastN n (lastN m xs) = lastN (min n m) xs"
  by (simp add: rev_take_rev[symmetric] min_def)

lemma takeWhile_map_safeNat:
  "list_all (\<lambda>t. int t \<le> MAX_SAFE_INTEGER) ts \<Longrightarrow>
   collectRecent (map num ts) now w room = Some (take room (takeWhile (inWindow now w) ts))"
  by (induction ts arbitrary: room)
    (auto simp: inWindow_def take_Cons' not_less split: nat.splits)

lemma sorted_rev_takeWhile_window:
  "sorted ts \<Longrightarrow> rev (takeWhile (inWindow now w) (rev ts)) = windowHits ts now w"
proof (induction ts rule: rev_induct)
  case (snoc t ts)
  show ?case
  proof (cases "inWindow now w t")
    case True
    with snoc show ?thesis by (simp add: windowHits_def sorted_append)
  next
    case False
    with snoc.prems have "filter (inWindow now w) ts = []"
      by (auto simp: filter_empty_conv sorted_append inWindow_def)
    with False show ?thesis by (simp add: windowHits_def)
  qed
qed (simp add: windowHits_def)

definition safeTimes :: "nat list \<Rightarrow> bool" where
  "safeTimes ts \<longleftrightarrow> list_all (\<lambda>t. int t \<le> MAX_SAFE_INTEGER) ts"

lemma safeTimes_lastN: "safeTimes ts \<Longrightarrow> safeTimes (lastN n ts)"
  by (simp add: safeTimes_def lastN_def list_all_drop)

text \<open>One call on a stored list of safe, sorted times.\<close>

lemma recordFixedWindowHit_sorted:
  assumes "safeTimes ts" "sorted ts" "int t \<le> MAX_SAFE_INTEGER"
    and "0 < w" "int w \<le> MAX_SAFE_INTEGER" "m < MAX_RATE_LIMIT_RETAINED_HITS"
  shows "recordFixedWindowHit (map num ts) (num t) (num w) (num m) =
     (let kept = lastN (Suc m) (windowHits ts t w @ [t]) in (length kept \<le> m, map num kept))"
proof -
  have "int m \<le> MAX_SAFE_INTEGER"
    using assms(6) by (simp add: MAX_RATE_LIMIT_RETAINED_HITS_def MAX_SAFE_INTEGER_def)
  then have inputs: "rateLimitInputsAllowed (num t) (num w) (num m)" "safeNat (num m) = Some m"
    using assms by (simp_all add: rateLimitInputsAllowed_def isSafePositiveInteger_def
        isSafeBoundedHitCount_def)
  have "collectRecent (rev (map num ts)) t w (Suc m)
      = Some (take (Suc m) (takeWhile (inWindow t w) (rev ts)))"
    using takeWhile_map_safeNat[of "rev ts"] assms(1) by (simp add: safeTimes_def rev_map)
  moreover have "rev (take (Suc m) (takeWhile (inWindow t w) (rev ts))) = lastN (Suc m) (windowHits ts t w)"
    using rev_take_rev[of "Suc m" "windowHits ts t w"] sorted_rev_takeWhile_window[OF assms(2), of t w]
    by (metis rev_rev_ident)
  moreover have "lastN (Suc m) (lastN (Suc m) xs @ [t]) = lastN (Suc m) (xs @ [t])" for xs
    by (simp add: lastN_snoc)
  ultimately show ?thesis
    using inputs assms(3-5) unfolding recordFixedWindowHit_def
    by (simp add: Let_def lastN_def[symmetric]) (auto simp: min_def)
qed

section \<open>Refinement\<close>

text \<open>The stored list represents a history when every later window sees the same newest
  \<open>m + 1\<close> hits in both.\<close>

definition represents :: "nat \<Rightarrow> nat \<Rightarrow> nat list \<Rightarrow> jsnum list \<Rightarrow> bool" where
  "represents w m ts stored \<longleftrightarrow>
     (\<exists>us. stored = map num us \<and> safeTimes us \<and> sorted us \<and> set us \<subseteq> set ts \<and>
       (\<forall>now. (\<forall>t\<in>set ts. t \<le> now) \<longrightarrow>
          lastN (Suc m) (windowHits us now w) = lastN (Suc m) (windowHits ts now w)))"

lemma represents_Nil [simp]: "represents w m [] []"
  by (simp add: represents_def safeTimes_def)

lemma windowHits_append [simp]: "windowHits (xs @ ys) now w = windowHits xs now w @ windowHits ys now w"
  by (simp add: windowHits_def)

lemma windowHits_later:
  assumes "now \<le> now'" shows "windowHits (windowHits ts now w) now' w = windowHits ts now' w"
  unfolding windowHits_def filter_filter
  by (rule filter_cong) (use assms in \<open>auto simp: inWindow_def\<close>)

lemma windowHits_self: "0 < w \<Longrightarrow> windowHits [t] t w = [t]"
  by (simp add: windowHits_def inWindow_def)

text \<open>Dropping hits that are older than the newest \<open>n\<close> does not change the newest \<open>n\<close>
  of any window of a sorted list.\<close>

lemma lastN_windowHits_lastN:
  "sorted xs \<Longrightarrow> lastN n (windowHits (lastN n xs) now w) = lastN n (windowHits xs now w)"
proof -
  assume "sorted xs"
  then have s: "sorted (lastN n xs)" by (simp add: lastN_def sorted_wrt_drop)
  have *: "take n (takeWhile P (take n ys)) = take n (takeWhile P ys)" for P and ys :: "nat list"
    by (induction ys arbitrary: n) (auto simp: take_Cons')
  show ?thesis
    unfolding sorted_rev_takeWhile_window[OF s, symmetric]
      sorted_rev_takeWhile_window[OF \<open>sorted xs\<close>, symmetric]
    by (simp add: rev_take_rev[symmetric] *)
qed

lemma lastN_append_cong: "lastN n a = lastN n b \<Longrightarrow> lastN n (a @ c) = lastN n (b @ c)"
proof -
  assume "lastN n a = lastN n b"
  then have "take n (rev a) = take n (rev b)"
    by (metis rev_take_rev rev_rev_ident)
  then have "take (n - length c) (rev a) = take (n - length c) (rev b)"
    by (metis diff_le_self min.absorb2 take_take min.commute)
  then show ?thesis by (simp add: rev_take_rev[symmetric])
qed

lemma lastN_length_le: "lastN (Suc m) a = lastN (Suc m) b \<Longrightarrow> Suc (length a) \<le> m \<longleftrightarrow> Suc (length b) \<le> m"
  by (drule arg_cong[where f = length]) (auto simp: min_def split: if_splits)

lemma represents_step:
  assumes rep: "represents w m ts stored" and srt: "sorted (ts @ [t])"
    and t: "int t \<le> MAX_SAFE_INTEGER"
    and lim: "0 < w" "int w \<le> MAX_SAFE_INTEGER" "m < MAX_RATE_LIMIT_RETAINED_HITS"
  shows "represents w m (ts @ [t]) (snd (recordFixedWindowHit stored (num t) (num w) (num m)))"
    and "fst (recordFixedWindowHit stored (num t) (num w) (num m))
           \<longleftrightarrow> length (windowHits (ts @ [t]) t w) \<le> m"
proof -
  from rep obtain us where us: "stored = map num us" "safeTimes us" "sorted us" "set us \<subseteq> set ts"
    and eq: "\<And>now. \<forall>x\<in>set ts. x \<le> now \<Longrightarrow>
      lastN (Suc m) (windowHits us now w) = lastN (Suc m) (windowHits ts now w)"
    by (auto simp: represents_def)
  let ?xs = "windowHits us t w @ [t]"
  have ts_le: "\<forall>x\<in>set ts. x \<le> t" using srt by (simp add: sorted_append)
  have sub: "set ?xs \<subseteq> set (ts @ [t])" using us(4) by (auto simp: windowHits_def)
  have sx: "sorted ?xs"
    using us(3) ts_le us(4) by (auto simp: sorted_append windowHits_def sorted_wrt_filter)
  have safe: "safeTimes ?xs"
    using us(2) t by (auto simp: safeTimes_def windowHits_def list_all_iff)
  have rec: "recordFixedWindowHit stored (num t) (num w) (num m)
      = (length (lastN (Suc m) ?xs) \<le> m, map num (lastN (Suc m) ?xs))"
    using recordFixedWindowHit_sorted[OF us(2,3) t lim] us(1) by (simp add: Let_def)
  show "fst (recordFixedWindowHit stored (num t) (num w) (num m))
      \<longleftrightarrow> length (windowHits (ts @ [t]) t w) \<le> m"
    using lastN_length_le[OF eq[OF ts_le]] windowHits_self[OF lim(1)] by (auto simp: rec)
  have "lastN (Suc m) (windowHits (lastN (Suc m) ?xs) now w) = lastN (Suc m) (windowHits (ts @ [t]) now w)"
    if now: "\<forall>x\<in>set (ts @ [t]). x \<le> now" for now
  proof -
    have "lastN (Suc m) (windowHits us now w @ windowHits [t] now w)
        = lastN (Suc m) (windowHits ts now w @ windowHits [t] now w)"
      by (rule lastN_append_cong) (use now in \<open>simp add: eq\<close>)
    then show ?thesis
      using now by (simp add: lastN_windowHits_lastN[OF sx] windowHits_later)
  qed
  moreover have "set (lastN (Suc m) ?xs) \<subseteq> set ?xs"
    unfolding lastN_def by (rule set_drop_subset)
  moreover have "sorted (lastN (Suc m) ?xs)"
    unfolding lastN_def using sx by (rule sorted_wrt_drop)
  ultimately show "represents w m (ts @ [t]) (snd (recordFixedWindowHit stored (num t) (num w) (num m)))"
    unfolding represents_def rec snd_conv
    using safeTimes_lastN[OF safe] sub by (intro exI[of _ "lastN (Suc m) ?xs"]) blast
qed

text \<open>Pruning at an earlier time changes neither the answer nor the list that a later hit
  leaves behind.\<close>

lemma retain_sorted:
  "safeTimes us \<Longrightarrow> sorted us \<Longrightarrow>
   retainRecentSortedHits (map num us) now w = map num (windowHits us now w)"
proof -
  assume us: "safeTimes us" "sorted us"
  have "takeWhile (recentIn now w) (map num xs) = map num (takeWhile (inWindow now w) xs)"
    if "safeTimes xs" for xs
    using that by (induction xs) (auto simp: safeTimes_def recentIn_def inWindow_def)
  from this[of "rev us"] us show ?thesis
    using sorted_rev_takeWhile_window[OF us(2), of now w]
    by (simp add: retainRecentSortedHits_def rev_map safeTimes_def)
qed

lemma record_after_retain:
  assumes rep: "represents w m ts stored" and t: "int t \<le> MAX_SAFE_INTEGER" and "now \<le> t"
    and lim: "0 < w" "int w \<le> MAX_SAFE_INTEGER" "m < MAX_RATE_LIMIT_RETAINED_HITS"
  shows "recordFixedWindowHit (retainRecentSortedHits stored now w) (num t) (num w) (num m)
       = recordFixedWindowHit stored (num t) (num w) (num m)"
proof -
  from rep obtain us where us: "stored = map num us" "safeTimes us" "sorted us"
    by (auto simp: represents_def)
  then have "safeTimes (windowHits us now w)" "sorted (windowHits us now w)"
    by (auto simp: safeTimes_def windowHits_def list_all_iff sorted_wrt_filter)
  then show ?thesis
    using us assms by (simp add: retain_sorted recordFixedWindowHit_sorted windowHits_later)
qed

section \<open>Clients of a window limiter\<close>

text \<open>The times at which a limiter let a caller through.\<close>

fun acceptedHits :: "('s \<Rightarrow> nat \<Rightarrow> bool \<times> 's) \<Rightarrow> 's \<Rightarrow> nat list \<Rightarrow> nat list" where
  "acceptedHits hit s [] = []"
| "acceptedHits hit s (t # ts) =
     (let (allowed, s') = hit s t in (if allowed then [t] else []) @ acceptedHits hit s' ts)"

definition afterHits :: "('s \<Rightarrow> nat \<Rightarrow> bool \<times> 's) \<Rightarrow> 's \<Rightarrow> nat list \<Rightarrow> 's" where
  "afterHits hit s ts = foldl (\<lambda>s t. snd (hit s t)) s ts"

lemma acceptedHits_snoc:
  "acceptedHits hit s (ts @ [t]) =
     acceptedHits hit s ts @ (if fst (hit (afterHits hit s ts) t) then [t] else [])"
  by (induction ts arbitrary: s) (auto simp: afterHits_def split: prod.splits)

lemma acceptedHits_filter_le:
  "length (filter P (acceptedHits hit s ts)) \<le> length (filter P ts)"
  by (induction ts arbitrary: s) (auto simp: le_SucI split: prod.splits)

text \<open>The interface: a limiter answers from its state alone, and its state represents the
  history of all hits.\<close>

locale window_limiter =
  fixes hit :: "'s \<Rightarrow> nat \<Rightarrow> bool \<times> 's"
    and start :: 's
    and rep :: "nat list \<Rightarrow> 's \<Rightarrow> bool"
    and w :: nat
    and m :: nat
  assumes rep_start: "rep [] start"
    and rep_hit: "rep ts s \<Longrightarrow> sorted (ts @ [t]) \<Longrightarrow> int t \<le> MAX_SAFE_INTEGER
      \<Longrightarrow> rep (ts @ [t]) (snd (hit s t))"
    and hit_allowed: "rep ts s \<Longrightarrow> sorted (ts @ [t]) \<Longrightarrow> int t \<le> MAX_SAFE_INTEGER
      \<Longrightarrow> fst (hit s t) \<longleftrightarrow> length (windowHits (ts @ [t]) t w) \<le> m"
begin

lemma rep_run: "sorted ts \<Longrightarrow> safeTimes ts \<Longrightarrow> rep ts (afterHits hit start ts)"
proof (induction ts rule: rev_induct)
  case Nil
  then show ?case by (simp add: afterHits_def rep_start)
next
  case (snoc t ts)
  then show ?case
    using rep_hit[of ts "afterHits hit start ts" t]
    by (simp add: afterHits_def safeTimes_def sorted_append)
qed

lemma run_exact:
  "sorted (ts @ [t]) \<Longrightarrow> safeTimes (ts @ [t]) \<Longrightarrow>
   fst (hit (afterHits hit start ts) t) \<longleftrightarrow> length (windowHits (ts @ [t]) t w) \<le> m"
  using hit_allowed[OF rep_run] by (simp add: safeTimes_def sorted_append)

lemma accepted_bounded:
  "sorted ts \<Longrightarrow> safeTimes ts \<Longrightarrow> \<forall>t\<in>set ts. t \<le> now \<Longrightarrow>
   length (filter (inWindow now w) (acceptedHits hit start ts)) \<le> m"
proof (induction ts rule: rev_induct)
  case (snoc t ts)
  then have IH: "length (filter (inWindow now w) (acceptedHits hit start ts)) \<le> m"
    by (simp add: safeTimes_def sorted_append)
  show ?case
  proof (cases "fst (hit (afterHits hit start ts) t)")
    case True
    then have "length (windowHits (ts @ [t]) t w) \<le> m"
      using run_exact snoc.prems by blast
    moreover have "length (filter (inWindow now w) (ts @ [t])) \<le> length (windowHits (ts @ [t]) t w)"
      unfolding windowHits_def
      by (rule length_filter_mono) (use snoc.prems in \<open>auto simp: inWindow_def\<close>)
    ultimately show ?thesis
      using acceptedHits_filter_le[of "inWindow now w" hit start "ts @ [t]"] by linarith
  next
    case False
    with IH show ?thesis by (simp add: acceptedHits_snoc)
  qed
qed simp

end

text \<open>The stored lists of \<open>recordFixedWindowHit\<close> provide the interface for every window
  and bound the input check admits.\<close>

lemma window_limiter_record:
  assumes "0 < w" "int w \<le> MAX_SAFE_INTEGER" "m < MAX_RATE_LIMIT_RETAINED_HITS"
  shows "window_limiter (\<lambda>s t. recordFixedWindowHit s (num t) (num w) (num m)) [] (represents w m) w m"
  by unfold_locales (use assms in \<open>simp_all add: represents_step\<close>)

interpretation message_limit: window_limiter
  "\<lambda>s t. recordFixedWindowHit s (num t) (num 60000) (num SIGNALING_MAX_MESSAGES_PER_MINUTE)"
  "[]" "represents 60000 SIGNALING_MAX_MESSAGES_PER_MINUTE" 60000 SIGNALING_MAX_MESSAGES_PER_MINUTE
  by (rule window_limiter_record)
    (simp_all add: MAX_SAFE_INTEGER_def MAX_RATE_LIMIT_RETAINED_HITS_def limit_defs)

interpretation turn_issue_limit: window_limiter
  "\<lambda>s t. recordFixedWindowHit s (num t) (num 60000) (num TURN_REST_CREDENTIALS_MAX_ISSUES_PER_MINUTE)"
  "[]" "represents 60000 TURN_REST_CREDENTIALS_MAX_ISSUES_PER_MINUTE"
  60000 TURN_REST_CREDENTIALS_MAX_ISSUES_PER_MINUTE
  by (rule window_limiter_record)
    (simp_all add: MAX_SAFE_INTEGER_def MAX_RATE_LIMIT_RETAINED_HITS_def limit_defs)

section \<open>Properties\<close>

text \<open>The limiter, which keeps at most \<open>maxHits + 1\<close> times, decides exactly like the
  specification that remembers every hit: after any history of hits at non-decreasing times
  a hit is allowed iff, itself included, at most \<open>maxHits\<close> hits (allowed or not) lie within
  the window that ends at it.\<close>

theorem record_hit_exact:
  assumes "sorted (ts @ [t])" and "safeTimes (ts @ [t])"
    and "0 < w" and "int w \<le> MAX_SAFE_INTEGER" and "m < MAX_RATE_LIMIT_RETAINED_HITS"
  shows "fst (recordFixedWindowHit
      (afterHits (\<lambda>s u. recordFixedWindowHit s (num u) (num w) (num m)) [] ts) (num t) (num w) (num m))
    \<longleftrightarrow> length (windowHits (ts @ [t]) t w) \<le> m"
  using window_limiter.run_exact[OF window_limiter_record[OF assms(3-5)] assms(1,2)] .

theorem record_hit_exact_witness:
  "fst (recordFixedWindowHit
      (afterHits (\<lambda>s u. recordFixedWindowHit s (num u) (num 100) (num 2)) [] [10, 50, 120])
      (num 140) (num 100) (num 2))
    \<longleftrightarrow> length (windowHits ([10, 50, 120] @ [140]) 140 100) \<le> 2"
  by (rule record_hit_exact)
    (simp_all add: safeTimes_def MAX_SAFE_INTEGER_def MAX_RATE_LIMIT_RETAINED_HITS_def)

text \<open>The periodic pruning is unobservable: for a key whose stored list represents its
  history, a hit after the pruning gets the same answer and leaves the same stored list as
  without it.\<close>

theorem prune_unobservable:
  assumes "hits key = Some stored" and "represents w m ts stored"
    and "now \<le> t" and "int t \<le> MAX_SAFE_INTEGER"
    and "0 < w" and "int w \<le> MAX_SAFE_INTEGER" and "m < MAX_RATE_LIMIT_RETAINED_HITS"
  shows "let pruned = pruneFixedWindowRateLimits hits (num now) (num w);
             direct = hitFixedWindowRateLimit hits key (num t) (num w) (num m);
             later = hitFixedWindowRateLimit pruned key (num t) (num w) (num m)
         in fst later = fst direct \<and> snd later key = snd direct key"
proof -
  have "pruneFixedWindowRateLimits hits (num now) (num w) key =
      (let recent = retainRecentSortedHits stored now w in if recent \<noteq> [] then Some recent else None)"
    using assms by (simp add: pruneFixedWindowRateLimits_def isSafePositiveInteger_def)
  moreover note record_after_retain[OF assms(2,4,3,5-7)]
  ultimately show ?thesis
    using assms(1) by (auto simp: hitFixedWindowRateLimit_def Let_def split: prod.splits if_splits)
qed

theorem prune_unobservable_witness:
  "let hits = [''1.2.3.4'' \<mapsto> map num [10, 700]];
       pruned = pruneFixedWindowRateLimits hits (num 800) (num 500);
       direct = hitFixedWindowRateLimit hits ''1.2.3.4'' (num 900) (num 500) (num 3);
       later = hitFixedWindowRateLimit pruned ''1.2.3.4'' (num 900) (num 500) (num 3)
   in fst later = fst direct \<and> snd later ''1.2.3.4'' = snd direct ''1.2.3.4''"
proof -
  have rep: "represents 500 3 [10, 700] (map num [10, 700])"
    unfolding represents_def by (intro exI[of _ "[10, 700]"]) (simp add: safeTimes_def MAX_SAFE_INTEGER_def)
  show ?thesis
    using prune_unobservable[where hits = "[''1.2.3.4'' \<mapsto> map num [10, 700]]" and key = "''1.2.3.4''"
        and now = 800 and t = 900, OF _ rep]
    by (simp add: MAX_SAFE_INTEGER_def MAX_RATE_LIMIT_RETAINED_HITS_def Let_def)
qed

end
