(* ===== verification/FileNames.thy ===== *)
theory FileNames
  imports JsRuntime Constants
begin

text \<open>
  File name sanitisation, \<open>src/src/shared/limits.ts\<close> (lines 81 to 229): \<open>safeFileName\<close>,
  \<open>safeCollisionFileName\<close> and their helpers. The lemmas show that a name that
  \<open>safeFileName\<close> leaves unchanged is portable (no separator, no control or reserved
  character, not hidden, no trailing dot or space, not a Windows device name, at most 200
  UTF-8 bytes), and that collision names are distinct and bounded.
\<close>

section \<open>Definitions\<close>

definition SAFE_FILE_NAME_BYTES :: nat where "SAFE_FILE_NAME_BYTES = 200"
definition SAFE_EXTENSION_BYTES :: nat where "SAFE_EXTENSION_BYTES = 32"
definition MAX_SAFE_FILE_NAME_INPUT_CHARS :: nat where "MAX_SAFE_FILE_NAME_INPUT_CHARS = 4096"

lemmas file_name_consts = SAFE_FILE_NAME_BYTES_def SAFE_EXTENSION_BYTES_def
  MAX_SAFE_FILE_NAME_INPUT_CHARS_def

definition isPathSeparator :: "nat \<Rightarrow> bool" where
  "isPathSeparator code \<longleftrightarrow> code = 47 \<or> code = 92"

text \<open>\<open>UNSAFE_PORTABLE_FILE_NAME_CHARS\<close>: control and format characters and
  \<open>< > : " | ? *\<close>.\<close>

definition unsafePortable :: "nat \<Rightarrow> bool" where
  "unsafePortable c \<longleftrightarrow> isControlOrFormat c \<or> c \<in> {60, 62, 58, 34, 124, 63, 42}"

text \<open>Dropping a trailing run of code units, as the backward loops and the
  \<open>/[. ]+$/\<close> replacement do.\<close>

definition stripTrailing :: "(nat \<Rightarrow> bool) \<Rightarrow> jsstring \<Rightarrow> jsstring" where
  "stripTrailing P s = rev (dropWhile P (rev s))"

definition leafName :: "jsstring \<Rightarrow> jsstring" where
  "leafName name =
     (let upto = stripTrailing isPathSeparator name in
      if upto = [] then js ''file''
      else
        let window = drop (length upto - MAX_SAFE_FILE_NAME_INPUT_CHARS) upto in
        rev (takeWhile (\<lambda>c. \<not> isPathSeparator c) (rev window)))"

definition removeUnsafe :: "jsstring \<Rightarrow> jsstring" where
  "removeUnsafe s = concat (filter (\<lambda>ch. \<not> unsafePortable (codePointOf ch)) (strChars s))"

definition isDotOrSpace :: "nat \<Rightarrow> bool" where
  "isDotOrSpace c \<longleftrightarrow> c = 46 \<or> c = 32"

definition cleanLeaf :: "jsstring \<Rightarrow> jsstring" where
  "cleanLeaf leaf = trim (stripTrailing isDotOrSpace (removeUnsafe leaf))"

definition reservedBases :: "jsstring list" where
  "reservedBases = map js [''con'', ''prn'', ''aux'', ''nul'',
     ''com1'', ''com2'', ''com3'', ''com4'', ''com5'', ''com6'', ''com7'', ''com8'', ''com9'',
     ''lpt1'', ''lpt2'', ''lpt3'', ''lpt4'', ''lpt5'', ''lpt6'', ''lpt7'', ''lpt8'', ''lpt9'']"

definition isWindowsReservedName :: "jsstring \<Rightarrow> bool" where
  "isWindowsReservedName name =
     (let beforeDot = takeWhile (\<lambda>c. c \<noteq> 46) name;
          base = stripTrailing isDotOrSpace beforeDot in
      base \<noteq> [] \<and> toLowerCase base \<in> set reservedBases)"

fun trimChars :: "jsstring list \<Rightarrow> nat \<Rightarrow> nat \<Rightarrow> jsstring" where
  "trimChars [] bytes maxBytes = []"
| "trimChars (char # chars) bytes maxBytes =
     (if bytes + utf8ByteLength char > maxBytes then []
      else char @ trimChars chars (bytes + utf8ByteLength char) maxBytes)"

definition trimToUtf8Bytes :: "jsstring \<Rightarrow> nat \<Rightarrow> jsstring" where
  "trimToUtf8Bytes value maxBytes = trimChars (strChars value) 0 maxBytes"

text \<open>The position of an inner dot: \<open>lastIndexOf(".")\<close> that is neither the first nor the
  last code unit.\<close>

definition innerDot :: "jsstring \<Rightarrow> nat option" where
  "innerDot name =
     (case lastIndexOf 46 name of
        Some dot \<Rightarrow> if dot > 0 \<and> dot < length name - 1 then Some dot else None
      | None \<Rightarrow> None)"

definition trimLongFileName :: "jsstring \<Rightarrow> nat \<Rightarrow> jsstring" where
  "trimLongFileName name maxBytes =
     (case innerDot name of
        Some dot \<Rightarrow>
          (let ext = trimToUtf8Bytes (drop dot name) (min SAFE_EXTENSION_BYTES (maxBytes - 1)) in
           trimToUtf8Bytes (take dot name) (maxBytes - utf8ByteLength ext) @ ext)
      | None \<Rightarrow> trimToUtf8Bytes name maxBytes)"

text \<open>\<open>safeFileName\<close> once its arguments are known to be a string and a byte limit.\<close>

definition safeName :: "jsstring \<Rightarrow> nat \<Rightarrow> jsstring" where
  "safeName name maxBytes =
     (let cleaned = cleanLeaf (leafName name) in
      if cleaned = [] \<or> cleaned = js ''.'' \<or> cleaned = js ''..'' then js ''file''
      else
        let visible = (if hd cleaned = 46 then 95 # tl cleaned else cleaned);
            safe = (if isWindowsReservedName visible then 95 # visible else visible) in
        if utf8ByteLength safe > maxBytes then trimLongFileName safe maxBytes else safe)"

definition assertSafeFileNameMaxBytes :: "jsnum \<Rightarrow> nat res" where
  "assertSafeFileNameMaxBytes maxBytes =
     (case maxBytes of
        NInt i \<Rightarrow> if i < 16 \<or> i > int SAFE_FILE_NAME_BYTES
                  then throw ''Safe file name byte limit is invalid.'' else ok (nat i)
      | _ \<Rightarrow> throw ''Safe file name byte limit is invalid.'')"

definition safeFileName :: "jsval \<Rightarrow> jsnum \<Rightarrow> jsstring res" where
  "safeFileName name maxBytes =
     andThen (assertSafeFileNameMaxBytes maxBytes) (\<lambda>limit.
       case name of Str s \<Rightarrow> ok (safeName s limit) | _ \<Rightarrow> throw ''File name is invalid.'')"

text \<open>The suffix \<open> (index)\<close> of a collision name.\<close>

definition collisionSuffix :: "nat \<Rightarrow> jsstring" where
  "collisionSuffix index = [32, 40] @ dec index @ [41]"

definition collisionName :: "jsstring \<Rightarrow> nat \<Rightarrow> nat \<Rightarrow> jsstring" where
  "collisionName name index maxBytes =
     (let suffix = collisionSuffix index in
      case innerDot name of
        Some dot \<Rightarrow>
          (let ext = trimToUtf8Bytes (drop dot name)
                       (min SAFE_EXTENSION_BYTES (maxBytes - utf8ByteLength suffix - 1));
               base = trimToUtf8Bytes (take dot name)
                        (max 1 (maxBytes - utf8ByteLength suffix - utf8ByteLength ext)) in
           base @ suffix @ ext)
      | None \<Rightarrow>
          trimToUtf8Bytes name (max 1 (maxBytes - utf8ByteLength suffix)) @ suffix)"

definition safeCollisionFileName :: "jsval \<Rightarrow> jsnum \<Rightarrow> jsnum \<Rightarrow> jsstring res" where
  "safeCollisionFileName name index maxBytes =
     andThen (assertSafeFileNameMaxBytes maxBytes) (\<lambda>limit.
       case name of
         Str s \<Rightarrow>
           if index = NInt 0 then
             (if utf8ByteLength s > limit then throw ''Safe file name exceeds maximum byte length.''
              else ok s)
           else (case index of
             NInt i \<Rightarrow>
               if i < 1 \<or> i \<ge> int MAX_OUTPUT_NAME_ATTEMPTS then throw ''Collision index is invalid.''
               else ok (collisionName s (nat i) limit)
           | _ \<Rightarrow> throw ''Collision index is invalid.'')
       | _ \<Rightarrow> throw ''Safe file name is invalid.'')"

section \<open>Byte lengths\<close>

lemma utf8ByteLength_trimChars:
  "bytes \<le> m \<Longrightarrow> bytes + utf8ByteLength (trimChars cs bytes m) \<le> m"
proof (induction cs bytes m rule: trimChars.induct)
  case (2 c cs bytes m)
  then show ?case
    using utf8ByteLength_append_le[of c "trimChars cs (bytes + utf8ByteLength c) m"] by auto
qed simp

lemma utf8ByteLength_trimToUtf8Bytes: "utf8ByteLength (trimToUtf8Bytes s m) \<le> m"
  using utf8ByteLength_trimChars[of 0 m] by (simp add: trimToUtf8Bytes_def)

lemma trimChars_prefix: "\<exists>rest. concat cs = trimChars cs bytes m @ rest"
  by (induction cs bytes m rule: trimChars.induct) auto

lemma trimToUtf8Bytes_prefix: "\<exists>rest. s = trimToUtf8Bytes s m @ rest"
  using trimChars_prefix[of "strChars s" 0 m] by (simp add: trimToUtf8Bytes_def)

lemma length_trimToUtf8Bytes: "length (trimToUtf8Bytes s m) \<le> length s"
  using trimToUtf8Bytes_prefix[of s m] by (metis length_append le_add1)

text \<open>A first ASCII character survives trimming to at least one byte.\<close>

lemma strChars_ascii: "c < 0x80 \<Longrightarrow> strChars (c # s) = [c] # strChars s"
  by (cases s) (auto simp: isHighSurrogate_def)

lemma codePoints_ascii: "list_all (\<lambda>c. c < 0x80) s \<Longrightarrow> codePoints s = s"
  by (induction s) (auto simp: codePoints_def strChars_ascii)

lemma hd_trimToUtf8Bytes_ascii:
  "c < 0x80 \<Longrightarrow> 1 \<le> m \<Longrightarrow> \<exists>rest. trimToUtf8Bytes (c # s) m = c # rest"
  by (simp add: trimToUtf8Bytes_def strChars_ascii unitBytes_def)

lemma utf8ByteLength_trimLong:
  "1 \<le> maxBytes \<Longrightarrow> utf8ByteLength (trimLongFileName name maxBytes) \<le> maxBytes"
proof (cases "innerDot name")
  case (Some dot)
  assume "1 \<le> maxBytes"
  let ?ext = "trimToUtf8Bytes (drop dot name) (min SAFE_EXTENSION_BYTES (maxBytes - 1))"
  let ?base = "trimToUtf8Bytes (take dot name) (maxBytes - utf8ByteLength ?ext)"
  have "utf8ByteLength ?ext \<le> maxBytes - 1"
    using utf8ByteLength_trimToUtf8Bytes[of "drop dot name" "min SAFE_EXTENSION_BYTES (maxBytes - 1)"]
    by simp
  moreover have "utf8ByteLength ?base \<le> maxBytes - utf8ByteLength ?ext"
    by (rule utf8ByteLength_trimToUtf8Bytes)
  ultimately have "utf8ByteLength ?base + utf8ByteLength ?ext \<le> maxBytes" by linarith
  with utf8ByteLength_append_le[of ?base ?ext] have "utf8ByteLength (?base @ ?ext) \<le> maxBytes"
    by (rule order_trans)
  with Some show ?thesis by (simp add: trimLongFileName_def Let_def)
qed (simp add: trimLongFileName_def utf8ByteLength_trimToUtf8Bytes)

lemma safeName_bytes: "16 \<le> maxBytes \<Longrightarrow> utf8ByteLength (safeName name maxBytes) \<le> maxBytes"
  using utf8ByteLength_trimLong[of maxBytes]
  by (auto simp: safeName_def Let_def js_def utf8ByteLength_Cons2 unitBytes_def isHighSurrogate_def)

section \<open>Names that sanitisation leaves unchanged\<close>

lemma stripTrailing_length: "length (stripTrailing P s) \<le> length s"
  by (simp add: stripTrailing_def) (metis length_dropWhile_le length_rev)

lemma trim_length: "length (trim s) \<le> length s"
proof -
  have "length (dropWhile isSpace (rev (dropWhile isSpace s))) \<le> length (rev (dropWhile isSpace s))"
    by (rule length_dropWhile_le)
  also have "\<dots> \<le> length s" by (simp add: length_dropWhile_le)
  finally show ?thesis by (simp add: trim_def)
qed

lemma dropWhile_eq_iff_length: "length (dropWhile P s) = length s \<Longrightarrow> dropWhile P s = s"
  by (metis append_Nil append_same_eq length_0_conv length_append self_append_conv2
      takeWhile_dropWhile_id add_cancel_left_left)

lemma stripTrailing_same: "length (stripTrailing P s) = length s \<Longrightarrow> stripTrailing P s = s"
  using dropWhile_eq_iff_length[of P "rev s"] by (simp add: stripTrailing_def)

lemma stripTrailing_snoc:
  "stripTrailing P (xs @ [x]) = (if P x then stripTrailing P xs else xs @ [x])"
  by (simp add: stripTrailing_def)

lemma stripTrailing_last: "stripTrailing P s = s \<Longrightarrow> s = [] \<or> \<not> P (last s)"
proof (cases s rule: rev_cases)
  case (snoc xs x)
  assume "stripTrailing P s = s"
  then have "P x \<Longrightarrow> length (stripTrailing P xs) = Suc (length xs)"
    using snoc by (simp add: stripTrailing_snoc)
  with stripTrailing_length[of P xs] snoc show ?thesis by auto
qed simp

lemma trim_same: "length (trim s) = length s \<Longrightarrow> trim s = s"
proof -
  let ?a = "dropWhile isSpace s"
  assume "length (trim s) = length s"
  then have "length (dropWhile isSpace (rev ?a)) = length s" by (simp add: trim_def)
  moreover have "length (dropWhile isSpace (rev ?a)) \<le> length ?a" "length ?a \<le> length s"
    using length_dropWhile_le[of isSpace "rev ?a"] by (simp_all add: length_dropWhile_le)
  ultimately have "?a = s" "dropWhile isSpace (rev ?a) = rev ?a"
    by (auto intro!: dropWhile_eq_iff_length)
  then show ?thesis by (simp add: trim_def)
qed

lemma length_concat_filter:
  "length (concat (filter P xss)) \<le> length (concat xss)"
  by (induction xss) auto

lemma filter_chars_same:
  "\<forall>c\<in>set xss. c \<noteq> [] \<Longrightarrow> length (concat (filter P xss)) = length (concat xss) \<Longrightarrow> list_all P xss"
proof (induction xss)
  case (Cons c cs)
  then show ?case
    using length_concat_filter[of P cs] by (cases "P c") auto
qed simp

lemma removeUnsafe_length: "length (removeUnsafe s) \<le> length s"
  using length_concat_filter[of "\<lambda>ch. \<not> unsafePortable (codePointOf ch)" "strChars s"]
  by (simp add: removeUnsafe_def)

lemma removeUnsafe_same:
  "length (removeUnsafe s) = length s \<Longrightarrow>
   removeUnsafe s = s \<and> list_all (\<lambda>c. \<not> unsafePortable c) (codePoints s)"
proof -
  let ?P = "\<lambda>ch. \<not> unsafePortable (codePointOf ch)"
  assume "length (removeUnsafe s) = length s"
  then have "list_all ?P (strChars s)"
    by (intro filter_chars_same) (auto simp: removeUnsafe_def dest: strChars_nonempty)
  then show ?thesis
    by (auto simp: removeUnsafe_def codePoints_def list_all_iff filter_id_conv)
qed

lemma cleanLeaf_length: "length (cleanLeaf s) \<le> length s"
  unfolding cleanLeaf_def
  by (meson order_trans trim_length stripTrailing_length removeUnsafe_length)

text \<open>A cleaned name of the same length is the name itself, and nothing had to be removed.\<close>

lemma cleanLeaf_same:
  assumes "length (cleanLeaf s) = length s"
  shows "cleanLeaf s = s" and "list_all (\<lambda>c. \<not> unsafePortable c) (codePoints s)"
    and "s = [] \<or> \<not> isDotOrSpace (last s)"
proof -
  let ?r = "removeUnsafe s" and ?t = "stripTrailing isDotOrSpace (removeUnsafe s)"
  have le: "length (trim ?t) \<le> length ?t" "length ?t \<le> length ?r" "length ?r \<le> length s"
    by (simp_all add: trim_length stripTrailing_length removeUnsafe_length)
  with assms have eqs: "length (trim ?t) = length ?t" "length ?t = length ?r" "length ?r = length s"
    by (simp_all add: cleanLeaf_def)
  note r = removeUnsafe_same[OF eqs(3)]
  have t: "stripTrailing isDotOrSpace s = s"
    using stripTrailing_same[OF eqs(2)] r by simp
  show "cleanLeaf s = s"
    using trim_same[OF eqs(1)] t r by (simp add: cleanLeaf_def)
  show "list_all (\<lambda>c. \<not> unsafePortable c) (codePoints s)" using r by simp
  show "s = [] \<or> \<not> isDotOrSpace (last s)" using t by (rule stripTrailing_last)
qed

lemma leafName_plain:
  assumes "list_all (\<lambda>c. \<not> isPathSeparator c) s" "s \<noteq> []" "length s \<le> 4096"
  shows "leafName s = s"
proof -
  have "stripTrailing isPathSeparator s = s"
    using assms(1,2) unfolding stripTrailing_def
    by (subst dropWhile_stable) (auto simp: list_all_iff hd_rev)
  moreover have "rev (takeWhile (\<lambda>c. \<not> isPathSeparator c) (rev s)) = s"
    using assms(1) by (subst takeWhile_eq_all_conv[THEN iffD2]) (auto simp: list_all_iff)
  ultimately show ?thesis
    using assms by (simp add: leafName_def file_name_consts)
qed

text \<open>An underscore in front survives cleaning, so the cleaned name keeps it in front.\<close>

lemma cleanLeaf_underscore: "\<exists>rest. cleanLeaf (95 # s) = 95 # rest"
proof -
  have safe: "\<not> unsafePortable 95"
    by (simp add: unsafePortable_def isControlOrFormat_ascii)
  have keep: "\<exists>rest. rev (dropWhile P (rev (95 # xs))) = 95 # rest" if "\<not> P 95" for P :: "nat \<Rightarrow> bool" and xs
    using that by (auto simp: dropWhile_append intro: exI[of _ "rev (dropWhile P (rev xs))"])
  have "removeUnsafe (95 # s) = 95 # removeUnsafe s"
    using safe by (simp add: removeUnsafe_def strChars_ascii)
  moreover obtain t where "stripTrailing isDotOrSpace (95 # removeUnsafe s) = 95 # t"
    using keep[of isDotOrSpace] by (auto simp: stripTrailing_def isDotOrSpace_def)
  moreover have "\<not> isSpace 95" by (simp add: isSpace_def)
  ultimately show ?thesis
    using keep[of isSpace t] by (simp add: cleanLeaf_def trim_def)
qed

lemma reserved_hd_letter:
  assumes "isWindowsReservedName v" shows "v \<noteq> [] \<and> hd v \<noteq> 95 \<and> hd v \<noteq> 46"
proof (cases v)
  case Nil
  with assms show ?thesis by (simp add: isWindowsReservedName_def stripTrailing_def)
next
  case (Cons x xs)
  have "x \<noteq> 95"
  proof
    assume x: "x = 95"
    have "stripTrailing isDotOrSpace (95 # takeWhile (\<lambda>c. c \<noteq> 46) xs)
        = 95 # stripTrailing isDotOrSpace (takeWhile (\<lambda>c. c \<noteq> 46) xs)"
      by (simp add: stripTrailing_def dropWhile_append isDotOrSpace_def)
    with assms Cons x show False
      by (auto simp: isWindowsReservedName_def Let_def toLowerCase_def lowerUnit_def isUpperAZ_def
          reservedBases_def js_def)
  qed
  moreover have "x \<noteq> 46"
    using assms Cons by (auto simp: isWindowsReservedName_def Let_def stripTrailing_def)
  ultimately show ?thesis using Cons by simp
qed

lemma innerDot_bounds: "innerDot s = Some d \<Longrightarrow> 0 < d \<and> d < length s"
  by (auto simp: innerDot_def split: option.splits if_splits)

lemma trimLong_length: "length (trimLongFileName s m) \<le> length s"
proof (cases "innerDot s")
  case (Some d)
  have "length (trimToUtf8Bytes (take d s) a) + length (trimToUtf8Bytes (drop d s) b) \<le> length s" for a b
  proof -
    have "length (trimToUtf8Bytes (take d s) a) \<le> d" "length (trimToUtf8Bytes (drop d s) b) \<le> length s - d"
      using length_trimToUtf8Bytes[of "take d s" a] length_trimToUtf8Bytes[of "drop d s" b] by simp_all
    with innerDot_bounds[OF Some] show ?thesis by linarith
  qed
  with Some show ?thesis by (simp add: trimLongFileName_def Let_def)
qed (simp add: trimLongFileName_def length_trimToUtf8Bytes)

lemma trimLong_underscore: "33 \<le> m \<Longrightarrow> \<exists>rest. trimLongFileName (95 # v) m = 95 # rest"
proof (cases "innerDot (95 # v)")
  case (Some d)
  assume m: "33 \<le> m"
  let ?ext = "trimToUtf8Bytes (drop d (95 # v)) (min SAFE_EXTENSION_BYTES (m - 1))"
  have "utf8ByteLength ?ext \<le> 32"
    using utf8ByteLength_trimToUtf8Bytes[of "drop d (95 # v)" "min SAFE_EXTENSION_BYTES (m - 1)"]
    by (simp add: file_name_consts)
  moreover have "take d (95 # v) = 95 # take (d - 1) v"
    using innerDot_bounds[OF Some] by (cases d) auto
  moreover have "1 \<le> m - utf8ByteLength ?ext" using calculation(1) m by linarith
  ultimately obtain r where "trimToUtf8Bytes (take d (95 # v)) (m - utf8ByteLength ?ext) = 95 # r"
    using hd_trimToUtf8Bytes_ascii[of 95 "m - utf8ByteLength ?ext" "take (d - 1) v"] by auto
  with Some show ?thesis by (simp add: trimLongFileName_def Let_def)
next
  case None
  assume "33 \<le> m"
  with None show ?thesis
    using hd_trimToUtf8Bytes_ascii[of 95 m v] by (simp add: trimLongFileName_def)
qed

lemma cleanLeaf_file: "cleanLeaf (js ''file'') = js ''file''"
  unfolding js_def cleanLeaf_def
  by (simp add: removeUnsafe_def isHighSurrogate_def unsafePortable_def isControlOrFormat_ascii)
    (simp add: stripTrailing_def isDotOrSpace_def trim_def isSpace_def)

text \<open>If sanitisation leaves a single-component name unchanged, then cleaning did nothing to
  it: the underscore that hides a leading dot or a device name would show up in front.\<close>

lemma safeName_fixpoint_clean:
  assumes fp: "safeName n m = n" and m: "33 \<le> m"
    and n: "list_all (\<lambda>c. \<not> isPathSeparator c) n" "n \<noteq> []" "length n \<le> 4096"
  shows "cleanLeaf n = n \<and> hd n \<noteq> 46 \<and> \<not> isWindowsReservedName n"
proof -
  define c where "c = cleanLeaf n"
  define v where "v = (if hd c = 46 then 95 # tl c else c)"
  define out where "out = (\<lambda>t. if utf8ByteLength t > m then trimLongFileName t m else t)"
  have leaf: "leafName n = n" using n by (rule leafName_plain)
  have front: "n = 95 # r \<Longrightarrow> hd c = 95" for r
    using cleanLeaf_underscore[of r] by (auto simp: c_def)
  have out_us: "\<exists>r. out (95 # t) = 95 # r" for t
    using trimLong_underscore[OF m] by (simp add: out_def)
  show ?thesis
  proof (cases "c = [] \<or> c = js ''.'' \<or> c = js ''..''")
    case True
    with fp leaf have "n = js ''file''" by (simp add: safeName_def c_def)
    with True show ?thesis by (auto simp: c_def cleanLeaf_file)
  next
    case False
    with fp leaf have n_out: "n = out (if isWindowsReservedName v then 95 # v else v)"
      by (simp add: safeName_def c_def[symmetric] v_def[symmetric] out_def Let_def)
    have nodot: "hd c \<noteq> 46"
    proof
      assume "hd c = 46"
      then have "\<exists>t. v = 95 # t" "\<not> isWindowsReservedName v"
        using reserved_hd_letter[of v] by (auto simp: v_def)
      with n_out out_us have "\<exists>r. n = 95 # r" by auto
      with front \<open>hd c = 46\<close> show False by auto
    qed
    then have v: "v = c" by (simp add: v_def)
    have unreserved: "\<not> isWindowsReservedName c"
    proof
      assume r: "isWindowsReservedName c"
      with n_out v out_us have "\<exists>r. n = 95 # r" by auto
      with front reserved_hd_letter[OF r] show False by auto
    qed
    have "length n \<le> length c"
      using n_out v unreserved trimLong_length[of c m] by (auto simp: out_def split: if_splits)
    then have "length (cleanLeaf n) = length n"
      using cleanLeaf_length[of n] by (simp add: c_def)
    then have "c = n" unfolding c_def by (rule cleanLeaf_same(1))
    with nodot unreserved show ?thesis by (simp add: c_def)
  qed
qed

text \<open>Names that are safe to create on every platform.\<close>

definition portableName :: "jsstring \<Rightarrow> bool" where
  "portableName n \<longleftrightarrow>
     n \<noteq> [] \<and> list_all (\<lambda>c. \<not> isPathSeparator c) n
     \<and> list_all (\<lambda>c. \<not> unsafePortable c) (codePoints n)
     \<and> hd n \<noteq> 46 \<and> \<not> isDotOrSpace (last n)
     \<and> \<not> isWindowsReservedName n \<and> utf8ByteLength n \<le> SAFE_FILE_NAME_BYTES"

lemma safeName_fixpoint_portable:
  assumes "safeName n SAFE_FILE_NAME_BYTES = n"
    and n: "list_all (\<lambda>c. \<not> isPathSeparator c) n" "n \<noteq> []" "length n \<le> 4096"
  shows "portableName n"
proof -
  have c: "cleanLeaf n = n" "hd n \<noteq> 46" "\<not> isWindowsReservedName n"
    using safeName_fixpoint_clean[OF assms(1) _ n] by (simp_all add: file_name_consts)
  moreover have "utf8ByteLength n \<le> SAFE_FILE_NAME_BYTES"
    using safeName_bytes[of SAFE_FILE_NAME_BYTES n] assms(1) by (simp add: file_name_consts)
  ultimately show ?thesis
    using n cleanLeaf_same(2,3)[of n] by (simp add: portableName_def)
qed

text \<open>Conversely a portable name is a fixed point of sanitisation unless white space other
  than a trailing blank surrounds it.\<close>

lemma removeUnsafe_stable:
  "list_all (\<lambda>c. \<not> unsafePortable c) (codePoints n) \<Longrightarrow> removeUnsafe n = n"
proof -
  assume "list_all (\<lambda>c. \<not> unsafePortable c) (codePoints n)"
  then have "filter (\<lambda>ch. \<not> unsafePortable (codePointOf ch)) (strChars n) = strChars n"
    by (auto simp: codePoints_def list_all_iff filter_id_conv)
  then show ?thesis by (simp add: removeUnsafe_def)
qed

lemma portable_fixpoint:
  assumes "portableName n" "\<not> isSpace (hd n)" "\<not> isSpace (last n)" "length n \<le> 4096"
  shows "safeName n SAFE_FILE_NAME_BYTES = n"
proof -
  have "n \<noteq> []" using assms(1) by (simp add: portableName_def)
  have "trim n = n"
    using assms(2,3) \<open>n \<noteq> []\<close> by (simp add: trim_def dropWhile_stable hd_rev)
  moreover have "stripTrailing isDotOrSpace n = n"
    using assms(1) by (simp add: stripTrailing_def dropWhile_stable hd_rev portableName_def)
  ultimately have "cleanLeaf n = n"
    using assms(1) by (simp add: cleanLeaf_def removeUnsafe_stable portableName_def)
  moreover have "leafName n = n"
    using assms(1,4) by (intro leafName_plain) (simp_all add: portableName_def)
  moreover have "n \<noteq> js ''.''" "n \<noteq> js ''..''"
    using assms(1) by (auto simp: portableName_def js_def)
  ultimately show ?thesis
    using assms(1) by (simp add: safeName_def portableName_def)
qed

section \<open>Collision names\<close>

lemma collisionSuffix_bytes: "i < 1000 \<Longrightarrow> utf8ByteLength (collisionSuffix i) \<le> 6"
proof -
  assume "i < 1000"
  then have "length (dec i) \<le> 3" using length_dec_le[of i 3] by simp
  moreover have "list_all (\<lambda>c. c < 0x80) (collisionSuffix i)"
    by (auto simp: collisionSuffix_def list_all_iff dest!: dec_digits simp: isDigit_def)
  ultimately show ?thesis by (simp add: utf8ByteLength_ascii) (simp add: collisionSuffix_def)
qed

lemma append3_bytes_le:
  "utf8ByteLength a + utf8ByteLength b + utf8ByteLength c \<le> m \<Longrightarrow> utf8ByteLength (a @ b @ c) \<le> m"
  using utf8ByteLength_append_le[of a "b @ c"] utf8ByteLength_append_le[of b c] by linarith

lemma collisionName_bytes:
  assumes "16 \<le> m" "i < MAX_OUTPUT_NAME_ATTEMPTS"
  shows "utf8ByteLength (collisionName s i m) \<le> m"
proof -
  let ?suf = "collisionSuffix i"
  have suf: "utf8ByteLength ?suf \<le> 6"
    using assms(2) by (intro collisionSuffix_bytes) (simp add: limit_defs)
  show ?thesis
  proof (cases "innerDot s")
    case None
    have "utf8ByteLength (trimToUtf8Bytes s (max 1 (m - utf8ByteLength ?suf))) \<le> max 1 (m - utf8ByteLength ?suf)"
      by (rule utf8ByteLength_trimToUtf8Bytes)
    with None suf assms(1) show ?thesis
      using append3_bytes_le[of "trimToUtf8Bytes s (max 1 (m - utf8ByteLength ?suf))" ?suf "[]" m]
      by (simp add: collisionName_def Let_def)
  next
    case (Some d)
    define ext where "ext = trimToUtf8Bytes (drop d s) (min SAFE_EXTENSION_BYTES (m - utf8ByteLength ?suf - 1))"
    define base where "base = trimToUtf8Bytes (take d s) (max 1 (m - utf8ByteLength ?suf - utf8ByteLength ext))"
    have "utf8ByteLength ext \<le> m - utf8ByteLength ?suf - 1"
      using utf8ByteLength_trimToUtf8Bytes[of "drop d s" "min SAFE_EXTENSION_BYTES (m - utf8ByteLength ?suf - 1)"]
      by (simp add: ext_def)
    moreover have "utf8ByteLength base \<le> max 1 (m - utf8ByteLength ?suf - utf8ByteLength ext)"
      unfolding base_def by (rule utf8ByteLength_trimToUtf8Bytes)
    ultimately have "utf8ByteLength base + utf8ByteLength ?suf + utf8ByteLength ext \<le> m"
      using suf assms(1) by linarith
    then have "utf8ByteLength (base @ ?suf @ ext) \<le> m" by (rule append3_bytes_le)
    with Some show ?thesis by (simp add: collisionName_def Let_def base_def ext_def)
  qed
qed

lemma takeWhile_digits_suffix:
  "takeWhile isDigit (rev (b @ [32, 40] @ dec i)) = rev (dec i)"
proof -
  have "takeWhile isDigit (rev (dec i) @ 40 # ys) = rev (dec i)" for ys
    by (subst takeWhile_append2) (auto simp: isDigit_def dest!: dec_digits)
  then show ?thesis by simp
qed

lemma collisionSuffix_inj:
  assumes "b @ collisionSuffix i = b' @ collisionSuffix j" shows "i = j"
proof -
  from assms have "b @ [32, 40] @ dec i = b' @ [32, 40] @ dec j"
    by (simp add: collisionSuffix_def flip: append_assoc)
  then have "rev (dec i) = rev (dec j)" by (metis takeWhile_digits_suffix)
  then show ?thesis by simp
qed

lemma collisionName_inj:
  assumes "39 \<le> m" "i < MAX_OUTPUT_NAME_ATTEMPTS" "j < MAX_OUTPUT_NAME_ATTEMPTS"
    and eq: "collisionName s i m = collisionName s j m"
  shows "i = j"
proof (cases "innerDot s")
  case None
  with eq show ?thesis by (auto simp: collisionName_def Let_def intro: collisionSuffix_inj)
next
  case (Some d)
  have "min SAFE_EXTENSION_BYTES (m - utf8ByteLength (collisionSuffix k) - 1) = 32"
    if "k < MAX_OUTPUT_NAME_ATTEMPTS" for k
    using collisionSuffix_bytes[of k] that assms(1) by (simp add: limit_defs file_name_consts)
  with Some eq assms(2,3) show ?thesis
    by (auto simp: collisionName_def Let_def intro: collisionSuffix_inj simp flip: append_assoc)
qed

section \<open>Evaluation\<close>

lemmas name_eval = safeName_def Let_def leafName_def cleanLeaf_def file_name_consts
  isPathSeparator_def removeUnsafe_def isHighSurrogate_def isLowSurrogate_def unsafePortable_def
  isControlOrFormat_ascii stripTrailing_def isDotOrSpace_def trim_def isSpace_def
  isWindowsReservedName_def toLowerCase_def lowerUnit_def isUpperAZ_def reservedBases_def js_def
  trimLongFileName_def innerDot_def lastIndexOf_def trimToUtf8Bytes_def unitBytes_def
  utf8ByteLength_Cons2

section \<open>Properties\<close>

text \<open>For every string \<open>safeFileName\<close> returns a name whenever the byte limit is one it
  admits (16 to 200), and the name never exceeds that many UTF-8 bytes; for any other limit
  it throws.\<close>

theorem safeFileName_total_bounded:
  "(case safeFileName (Str s) (NInt i) of
      Inr n \<Rightarrow> 16 \<le> i \<and> i \<le> 200 \<and> n = safeName s (nat i) \<and> int (utf8ByteLength n) \<le> i
    | Inl _ \<Rightarrow> i < 16 \<or> 200 < i)"
proof (cases "16 \<le> i \<and> i \<le> 200")
  case True
  then have "utf8ByteLength (safeName s (nat i)) \<le> nat i" by (intro safeName_bytes) linarith
  then have "int (utf8ByteLength (safeName s (nat i))) \<le> i" using True by linarith
  with True show ?thesis
    by (simp add: safeFileName_def assertSafeFileNameMaxBytes_def file_name_consts)
qed (auto simp: safeFileName_def assertSafeFileNameMaxBytes_def file_name_consts)

text \<open>The names tried when an output name is taken are pairwise different and fit the
  byte limit: for every base name and every two different attempt numbers below 256 the
  collision names differ and have at most 200 UTF-8 bytes.\<close>

theorem collision_names_distinct:
  assumes "i < MAX_OUTPUT_NAME_ATTEMPTS" and "j < MAX_OUTPUT_NAME_ATTEMPTS"
    and "0 < i" and "0 < j" and "i \<noteq> j"
  shows "\<exists>a b. safeCollisionFileName (Str s) (NInt (int i)) (NInt 200) = ok a
     \<and> safeCollisionFileName (Str s) (NInt (int j)) (NInt 200) = ok b
     \<and> a \<noteq> b \<and> utf8ByteLength a \<le> 200 \<and> utf8ByteLength b \<le> 200"
proof -
  have "safeCollisionFileName (Str s) (NInt (int k)) (NInt 200) = ok (collisionName s k 200)"
    if "0 < k" "k < MAX_OUTPUT_NAME_ATTEMPTS" for k
    using that by (auto simp: safeCollisionFileName_def assertSafeFileNameMaxBytes_def file_name_consts)
  then show ?thesis
    using assms collisionName_inj[of 200 i j s] collisionName_bytes[of 200] by auto
qed

theorem collision_names_distinct_witness:
  "\<exists>a b. safeCollisionFileName (Str (js ''a.txt'')) (NInt (int 1)) (NInt 200) = ok a
     \<and> safeCollisionFileName (Str (js ''a.txt'')) (NInt (int 2)) (NInt 200) = ok b
     \<and> a \<noteq> b \<and> utf8ByteLength a \<le> 200 \<and> utf8ByteLength b \<le> 200"
  by (rule collision_names_distinct) (simp_all add: limit_defs)

section \<open>Cutting after cleaning\<close>

text \<open>The texts that follow consist of lower-case letters and blanks.\<close>

abbreviation letterOrBlank :: "nat \<Rightarrow> bool" where
  "letterOrBlank c \<equiv> isLowerAZ c \<or> c = 32"

lemma trimToUtf8Bytes_ascii:
  assumes "list_all (\<lambda>c. c < 0x80) s" shows "trimToUtf8Bytes s m = take m s"
proof -
  have "trimChars (strChars s) k m = take (m - k) s" if "list_all (\<lambda>c. c < 0x80) s" "k \<le> m" for s k
    using that
    by (induction s arbitrary: k) (auto simp: strChars_ascii unitBytes_def take_Cons' Suc_diff_le)
  with assms show ?thesis by (simp add: trimToUtf8Bytes_def)
qed

lemma plain_not_reserved:
  assumes "list_all letterOrBlank s" "\<not> isDotOrSpace (last s)" "5 \<le> length s"
  shows "\<not> isWindowsReservedName s"
proof -
  have "list_all (\<lambda>c. c \<noteq> 46) s" by (rule list.pred_mono_strong[OF assms(1)]) (auto simp: isLowerAZ_def)
  then have t: "takeWhile (\<lambda>c. c \<noteq> 46) s = s" unfolding takeWhile_eq_all_conv by (simp add: list_all_iff)
  have "stripTrailing isDotOrSpace s = s"
    using assms(2,3) by (cases "s = []") (simp_all add: stripTrailing_def dropWhile_stable hd_rev)
  moreover have "toLowerCase s \<notin> set reservedBases"
  proof -
    have "list_all (\<lambda>r. length r \<le> 4) reservedBases" by (simp add: reservedBases_def)
    moreover have "toLowerCase s = s"
      using assms(1) unfolding toLowerCase_def by (induction s) (auto simp: lowerUnit_def isUpperAZ_def isLowerAZ_def)
    ultimately show ?thesis using assms(3) by (auto simp: list_all_iff)
  qed
  ultimately show ?thesis unfolding isWindowsReservedName_def t by simp
qed

lemma plain_safeName:
  assumes "list_all letterOrBlank s" "5 \<le> length s" "length (s @ replicate k 32) \<le> 4096" "hd s \<noteq> 32" "last s \<noteq> 32"
  shows "safeName (s @ replicate k 32) m = take m s"
proof -
  let ?n = "s @ replicate k 32"
  have n: "list_all letterOrBlank ?n" using assms(1) by (auto simp: list_all_iff)
  have ascii: "list_all (\<lambda>c. c < 0x80) ?n" by (rule list.pred_mono_strong[OF n]) (auto simp: isLowerAZ_def)
  have "s \<noteq> []" using assms(2) by auto
  then have "isLowerAZ (hd s)" "isLowerAZ (last s)" using assms(1,4,5) by (auto simp: list_all_iff)
  then have ends: "\<not> isSpace (hd s)" "\<not> isSpace (last s)" "\<not> isDotOrSpace (last s)" "hd s \<noteq> 46"
    by (auto simp: isLowerAZ_def isSpace_def isDotOrSpace_def)
  have "list_all (\<lambda>c. \<not> unsafePortable c) (codePoints ?n)" unfolding codePoints_ascii[OF ascii]
    by (rule list.pred_mono_strong[OF n]) (auto simp: isLowerAZ_def unsafePortable_def isControlOrFormat_ascii)
  moreover have "stripTrailing isDotOrSpace ?n = s"
    using ends(3) \<open>s \<noteq> []\<close> by (simp add: stripTrailing_def isDotOrSpace_def dropWhile_append dropWhile_stable hd_rev)
  ultimately have "cleanLeaf ?n = s" using \<open>s \<noteq> []\<close> ends
    by (simp add: cleanLeaf_def removeUnsafe_stable trim_def dropWhile_stable hd_rev)
  moreover have "list_all (\<lambda>c. \<not> isPathSeparator c) ?n"
    by (rule list.pred_mono_strong[OF n]) (auto simp: isLowerAZ_def isPathSeparator_def)
  then have "leafName ?n = ?n" using assms(3) \<open>s \<noteq> []\<close> by (intro leafName_plain) simp_all
  moreover have "indexOf 46 t = None" if "list_all letterOrBlank t" for t
    using that by (induction t) (auto simp: isLowerAZ_def)
  then have "innerDot s = None" using assms(1) by (simp add: innerDot_def lastIndexOf_def)
  then have "trimLongFileName s m = take m s" using ascii by (simp add: trimLongFileName_def trimToUtf8Bytes_ascii)
  moreover have "utf8ByteLength s = length s" using ascii by (simp add: utf8ByteLength_ascii)
  moreover note plain_not_reserved[OF assms(1) ends(3) assms(2)]
  ultimately show ?thesis using assms(2) ends(4) by (auto simp: safeName_def js_def)
qed

text \<open>Sanitising once does not always give a name that the check of the manifest accepts, whatever the byte
  limit is: names are cut after they are cleaned, so that cutting a long name behind a blank leaves a
  trailing blank, which sanitising again would remove.\<close>

lemma cut_leaves_blank:
  assumes "16 \<le> m" "m \<le> SAFE_FILE_NAME_BYTES" "list_all isLowerAZ b" "length b = m - 1" "isLowerAZ c"
  shows "safeFileName (Str (b @ [32, c])) (NInt (int m)) = ok (b @ [32])"
    "safeFileName (Str (b @ [32])) (NInt (int m)) = ok b"
proof -
  have b: "b \<noteq> []" "list_all letterOrBlank b" using assms by (auto simp: list_all_iff)
  then have ends: "hd b \<noteq> 32" "last b \<noteq> 32" using assms(3) hd_in_set[of b] last_in_set[of b] by (auto simp: isLowerAZ_def list_all_iff simp del: hd_in_set last_in_set)
  have limit: "safeFileName (Str n) (NInt (int m)) = ok (safeName n m)" for n
    using assms(1,2) by (simp add: safeFileName_def assertSafeFileNameMaxBytes_def)
  have c: "c \<noteq> 32" using assms(5) by (auto simp: isLowerAZ_def)
  show "safeFileName (Str (b @ [32, c])) (NInt (int m)) = ok (b @ [32])"
    using plain_safeName[of "b @ [32, c]" 0 m] b assms ends c by (simp add: limit file_name_consts)
  show "safeFileName (Str (b @ [32])) (NInt (int m)) = ok b"
    using plain_safeName[of b 1 m] b assms ends by (simp add: limit file_name_consts)
qed

end
