(* ===== verification/ManifestLimits.thy ===== *)
theory ManifestLimits
  imports FileNames
begin

text \<open>
  Manifest checks, \<open>src/src/shared/limits.ts\<close> (lines 11 to 79). The lemmas give an exact
  declarative characterisation of the manifests that pass and show that every file name in
  an accepted manifest is portable.
\<close>

section \<open>Definitions\<close>

text \<open>The characters of a MIME token.\<close>

definition isTokenChar :: "nat \<Rightarrow> bool" where
  "isTokenChar c \<longleftrightarrow> isAlnum c \<or> c \<in> {33, 35, 36, 37, 38, 39, 42, 43, 46, 94, 95, 96, 124, 126, 45}"

text \<open>\<open>MIME_TYPE_VALUE.test\<close>: two non-empty tokens around one slash.\<close>

definition mimeTypeValue :: "jsstring \<Rightarrow> bool" where
  "mimeTypeValue s =
     (case splitAt 47 s of
        [a, b] \<Rightarrow> a \<noteq> [] \<and> b \<noteq> [] \<and> list_all isTokenChar a \<and> list_all isTokenChar b
      | _ \<Rightarrow> False)"

definition unsafeManifestFileName :: "jsstring \<Rightarrow> bool" where
  "unsafeManifestFileName name \<longleftrightarrow>
     list_ex (\<lambda>c. isControlOrFormat c \<or> isPathSeparator c) (codePoints name)"

definition assertFileWithinLimits :: "jsval \<Rightarrow> jsval \<Rightarrow> unit res" where
  "assertFileWithinLimits name bytes =
     (case name of
        Str n \<Rightarrow>
          if n = [] \<or> length n > MAX_FILE_NAME_CHARS \<or> trim n = [] \<or> n = js ''.'' \<or> n = js ''..''
             \<or> unsafeManifestFileName n
             \<or> safeFileName (Str n) (NInt (int SAFE_FILE_NAME_BYTES)) \<noteq> ok n
          then throw ''File name is invalid.''
          else (case bytes of
            Number (NInt i) \<Rightarrow>
              if \<bar>i\<bar> > MAX_SAFE_INTEGER \<or> i < 0 \<or> i > int MAX_FILE_BYTES
              then throw ''File exceeds the 1 GiB per-file limit.'' else ok ()
          | _ \<Rightarrow> throw ''File exceeds the 1 GiB per-file limit.'')
      | _ \<Rightarrow> throw ''File name is invalid.'')"

definition assertMimeWithinLimits :: "jsval \<Rightarrow> unit res" where
  "assertMimeWithinLimits mime =
     (case mime of
        Undefined \<Rightarrow> ok ()
      | Str s \<Rightarrow> if s = [] \<or> length s > MAX_MIME_CHARS \<or> \<not> mimeTypeValue s
                 then throw ''Manifest MIME type is invalid.'' else ok ()
      | _ \<Rightarrow> throw ''Manifest MIME type is invalid.'')"

text \<open>A decimal number inside an error message.\<close>

definition decString :: "nat \<Rightarrow> string" where
  "decString n = map char_of (dec n)"

definition checkManifestFileId :: "jsval \<Rightarrow> nat list \<Rightarrow> (nat list) res" where
  "checkManifestFileId fid ids =
     (case fid of
        Undefined \<Rightarrow> ok ids
      | Number (NInt i) \<Rightarrow>
          if i < 0 \<or> i > 255 then throw ''Manifest file id is invalid.''
          else if nat i \<in> set ids
          then throw (''Duplicate file id '' @ decString (nat i) @ '' in manifest.'')
          else ok (nat i # ids)
      | _ \<Rightarrow> throw ''Manifest file id is invalid.'')"

fun numberInt :: "jsval \<Rightarrow> int" where
  "numberInt (Number (NInt i)) = i"
| "numberInt _ = 0"

text \<open>The loop over the files, with the ids seen and the running total.\<close>

fun checkManifestFiles :: "jsval list \<Rightarrow> nat list \<Rightarrow> int \<Rightarrow> int res" where
  "checkManifestFiles [] ids acc = ok acc"
| "checkManifestFiles (file # rest) ids acc =
     (if \<not> isObject file \<or> \<not> hasOnlyKeys file [''id'', ''name'', ''size'', ''mime'']
      then throw ''Manifest file entry is invalid.''
      else
        andThen (checkManifestFileId (ownDataValue file ''id'') ids) (\<lambda>ids'.
        andThen (assertFileWithinLimits (ownDataValue file ''name'') (ownDataValue file ''size'')) (\<lambda>_.
        andThen (assertMimeWithinLimits (ownDataValue file ''mime'')) (\<lambda>_.
          let nextTotal = acc + numberInt (ownDataValue file ''size'') in
          if \<bar>nextTotal\<bar> > MAX_SAFE_INTEGER then throw ''Manifest total size is invalid.''
          else checkManifestFiles rest ids' nextTotal))))"

definition assertManifestWithinLimits :: "jsval \<Rightarrow> unit res" where
  "assertManifestWithinLimits manifest =
     (if \<not> isObject manifest then throw ''Manifest is invalid.''
      else if \<not> hasOnlyKeys manifest [''files'', ''fileCount'', ''totalBytes'']
      then throw ''Manifest is invalid.''
      else
        case ownDataValue manifest ''files'' of
          Arr es \<Rightarrow>
            let fileCount = ownDataValue manifest ''fileCount'';
                expectedTotalBytes = ownDataValue manifest ''totalBytes'' in
            if \<not> isSafeNonNegativeInteger fileCount \<or> numberInt fileCount < 1
               \<or> numberInt fileCount > int MAX_FILES_PER_SESSION
            then throw ''File count must be between 1 and 100.''
            else if int (length es) \<noteq> numberInt fileCount
            then throw ''Manifest file count does not match file list.''
            else if \<not> isSafeNonNegativeInteger expectedTotalBytes
            then throw ''Manifest total size is invalid.''
            else andThen (checkManifestFiles (map dataValue es) [] 0) (\<lambda>acc.
              if acc \<noteq> numberInt expectedTotalBytes
              then throw ''Manifest total size does not match file list.'' else ok ())
        | _ \<Rightarrow> throw ''Manifest file list is invalid.'')"

text \<open>The second pass of \<open>assertTransferManifestWithinLimits\<close>: ids are present and equal to
  their position.\<close>

fun checkSequentialIds :: "jsval list \<Rightarrow> nat \<Rightarrow> unit res" where
  "checkSequentialIds [] index = ok ()"
| "checkSequentialIds (file # rest) index =
     (case ownDataValue file ''id'' of
        Number (NInt i) \<Rightarrow>
          if i < 0 \<or> i > 255 then throw ''Transfer manifest file id is required.''
          else if i \<noteq> int index
          then throw ''Transfer manifest file ids must be canonical and sequential.''
          else checkSequentialIds rest (Suc index)
      | _ \<Rightarrow> throw ''Transfer manifest file id is required.'')"

fun arrayValues :: "jsval \<Rightarrow> jsval list" where
  "arrayValues (Arr es) = map dataValue es"
| "arrayValues _ = []"

definition assertTransferManifestWithinLimits :: "jsval \<Rightarrow> unit res" where
  "assertTransferManifestWithinLimits manifest =
     andThen (assertManifestWithinLimits manifest) (\<lambda>_.
       case ownDataValue manifest ''files'' of
         Arr es \<Rightarrow> checkSequentialIds (map dataValue es) 0
       | _ \<Rightarrow> throw ''Manifest file list is invalid.'')"

section \<open>Specification\<close>

definition validFileName :: "jsval \<Rightarrow> bool" where
  "validFileName v \<longleftrightarrow> (\<exists>n. v = Str n \<and> n \<noteq> [] \<and> length n \<le> MAX_FILE_NAME_CHARS
     \<and> \<not> unsafeManifestFileName n \<and> safeName n SAFE_FILE_NAME_BYTES = n)"

definition validFileSize :: "jsval \<Rightarrow> bool" where
  "validFileSize v \<longleftrightarrow> (\<exists>i. v = jnat i \<and> i \<le> MAX_FILE_BYTES)"

definition validMime :: "jsval \<Rightarrow> bool" where
  "validMime v \<longleftrightarrow> v = Undefined \<or> (\<exists>s. v = Str s \<and> length s \<le> MAX_MIME_CHARS \<and> mimeTypeValue s)"

definition validManifestFile :: "jsval \<Rightarrow> bool" where
  "validManifestFile f \<longleftrightarrow>
     isObject f \<and> hasOnlyKeys f [''id'', ''name'', ''size'', ''mime'']
     \<and> (ownDataValue f ''id'' = Undefined \<or> (\<exists>i \<le> 255. ownDataValue f ''id'' = jnat i))
     \<and> validFileName (ownDataValue f ''name'') \<and> validFileSize (ownDataValue f ''size'')
     \<and> validMime (ownDataValue f ''mime'')"

text \<open>The ids that are present, in order, and the declared sizes.\<close>

definition manifestIds :: "jsval list \<Rightarrow> nat list" where
  "manifestIds fs = map (\<lambda>f. nat (numberInt (ownDataValue f ''id'')))
     (filter (\<lambda>f. ownDataValue f ''id'' \<noteq> Undefined) fs)"

definition fileSizeOf :: "jsval \<Rightarrow> nat" where
  "fileSizeOf f = nat (numberInt (ownDataValue f ''size''))"

definition validManifest :: "jsval \<Rightarrow> bool" where
  "validManifest v \<longleftrightarrow>
     isObject v \<and> hasOnlyKeys v [''files'', ''fileCount'', ''totalBytes'']
     \<and> (\<exists>es. ownDataValue v ''files'' = Arr es)
     \<and> (let fs = arrayValues (ownDataValue v ''files'') in
          1 \<le> length fs \<and> length fs \<le> MAX_FILES_PER_SESSION
          \<and> ownDataValue v ''fileCount'' = jnat (length fs)
          \<and> ownDataValue v ''totalBytes'' = jnat (sum_list (map fileSizeOf fs))
          \<and> list_all validManifestFile fs \<and> distinct (manifestIds fs))"

section \<open>Lemmas\<close>

lemma mimeTypeValue_nonempty: "mimeTypeValue s \<Longrightarrow> s \<noteq> []"
  by (auto simp: mimeTypeValue_def)

lemma separators_codePoints:
  "list_all (\<lambda>c. \<not> isPathSeparator c) (codePoints s) \<Longrightarrow> list_all (\<lambda>c. \<not> isPathSeparator c) s"
  by (induction s rule: strChars.induct)
    (auto simp: codePoints_def isPathSeparator_def isHighSurrogate_def isLowSurrogate_def split: if_splits)

lemma validFileName_Str:
  "validFileName (Str n) \<longleftrightarrow> n \<noteq> [] \<and> length n \<le> MAX_FILE_NAME_CHARS
     \<and> \<not> unsafeManifestFileName n \<and> safeName n SAFE_FILE_NAME_BYTES = n"
  by (simp add: validFileName_def)

lemma validFileName_portable:
  assumes "validFileName (Str n)" shows "portableName n"
proof -
  from assms have n: "n \<noteq> []" "length n \<le> MAX_FILE_NAME_CHARS" "\<not> unsafeManifestFileName n"
    "safeName n SAFE_FILE_NAME_BYTES = n"
    unfolding validFileName_Str by blast+
  have "list_all (\<lambda>c. \<not> isPathSeparator c) (codePoints n)"
    using n(3) unfolding unsafeManifestFileName_def list_ex_iff list_all_iff by blast
  then have "list_all (\<lambda>c. \<not> isPathSeparator c) n" by (rule separators_codePoints)
  moreover have "length n \<le> 4096" using n(2) by (simp add: limit_defs)
  ultimately show ?thesis using n(1,4) by (intro safeName_fixpoint_portable)
qed

lemma safeFileName_default:
  "safeFileName (Str n) (NInt (int SAFE_FILE_NAME_BYTES)) = ok (safeName n SAFE_FILE_NAME_BYTES)"
  by (simp add: safeFileName_def assertSafeFileNameMaxBytes_def file_name_consts)

text \<open>The explicit tests for a blank name, \<open>.\<close> and \<open>..\<close> are subsumed by the comparison with
  the sanitised name.\<close>

lemma safeName_file_cases:
  assumes "validFileName (Str n)" shows "trim n \<noteq> []" "n \<noteq> js ''.''" "n \<noteq> js ''..''"
proof -
  have p: "portableName n" using assms by (rule validFileName_portable)
  then show "n \<noteq> js ''.''" "n \<noteq> js ''..''" by (auto simp: portableName_def js_def)
  have n: "list_all (\<lambda>c. \<not> isPathSeparator c) n" "n \<noteq> []" "length n \<le> 4096"
    "safeName n SAFE_FILE_NAME_BYTES = n"
    using assms p by (auto simp: validFileName_def portableName_def limit_defs)
  have "cleanLeaf n = n"
    using safeName_fixpoint_clean[OF n(4) _ n(1-3)] by (simp add: file_name_consts)
  moreover have "trim (stripTrailing isDotOrSpace (removeUnsafe n)) = []" if "trim n = []"
  proof -
    have "removeUnsafe n = n" using p by (intro removeUnsafe_stable) (simp add: portableName_def)
    moreover have "stripTrailing isDotOrSpace n = n"
      using p by (simp add: stripTrailing_def dropWhile_stable hd_rev portableName_def)
    ultimately show ?thesis using that by simp
  qed
  ultimately show "trim n \<noteq> []" using n(2) by (auto simp: cleanLeaf_def)
qed

lemma validFileSize_NInt: "validFileSize (Number (NInt i)) \<longleftrightarrow> 0 \<le> i \<and> i \<le> int MAX_FILE_BYTES"
  by (auto simp: validFileSize_def jnat_def intro: exI[of _ "nat i"])

lemma validFileSize_jnat [simp]: "validFileSize (jnat n) \<longleftrightarrow> n \<le> MAX_FILE_BYTES"
  by (simp add: jnat_def validFileSize_NInt)

lemma fileNameTest_iff:
  "(n = [] \<or> length n > MAX_FILE_NAME_CHARS \<or> trim n = [] \<or> n = js ''.'' \<or> n = js ''..''
     \<or> unsafeManifestFileName n
     \<or> safeFileName (Str n) (NInt (int SAFE_FILE_NAME_BYTES)) \<noteq> ok n)
   \<longleftrightarrow> \<not> validFileName (Str n)"
  using safeName_file_cases[of n] unfolding safeFileName_default sum.inject validFileName_Str not_le[symmetric]
  by blast

lemma assertFileWithinLimits_iff:
  "assertFileWithinLimits name bytes = ok () \<longleftrightarrow> validFileName name \<and> validFileSize bytes"
proof (cases name)
  case (Str n)
  have "bytes = Number (NInt i) \<Longrightarrow> validFileSize bytes \<longleftrightarrow>
      \<not> (\<bar>i\<bar> > MAX_SAFE_INTEGER \<or> i < 0 \<or> i > int MAX_FILE_BYTES)" for i
    by (auto simp: validFileSize_NInt MAX_SAFE_INTEGER_def limit_defs)
  moreover have "validFileSize bytes \<Longrightarrow> \<exists>i. bytes = Number (NInt i)"
    by (auto simp: validFileSize_def jnat_def)
  ultimately show ?thesis
    unfolding assertFileWithinLimits_def Str jsval.case fileNameTest_iff
    by (auto split: jsval.splits jsnum.splits if_splits)
qed (auto simp: assertFileWithinLimits_def validFileName_def)

lemma assertMimeWithinLimits_iff: "assertMimeWithinLimits v = ok () \<longleftrightarrow> validMime v"
  by (cases v) (auto simp: assertMimeWithinLimits_def validMime_def dest: mimeTypeValue_nonempty)

lemma checkManifestFileId_iff:
  "checkManifestFileId v ids = ok ids' \<longleftrightarrow>
     (v = Undefined \<and> ids' = ids) \<or> (\<exists>i \<le> 255. v = jnat i \<and> i \<notin> set ids \<and> ids' = i # ids)"
proof (cases v)
  case (Number x)
  then show ?thesis
  proof (cases x)
    case (NInt i)
    have "\<exists>k \<le> 255. i = int k" if "0 \<le> i" "i \<le> 255"
      using that by (intro exI[of _ "nat i"]) simp
    with Number NInt show ?thesis
      by (auto simp: checkManifestFileId_def jnat_def)
  qed (auto simp: checkManifestFileId_def jnat_def)
qed (auto simp: checkManifestFileId_def jnat_def)

lemma validManifestFile_id:
  "validManifestFile f \<Longrightarrow> ownDataValue f ''id'' = Undefined \<or> (\<exists>i \<le> 255. ownDataValue f ''id'' = jnat i)"
  by (simp add: validManifestFile_def)

lemma validManifestFile_size: "validManifestFile f \<Longrightarrow> fileSizeOf f \<le> MAX_FILE_BYTES"
  by (auto simp: validManifestFile_def fileSizeOf_def validFileSize_def jnat_def)

lemma numberInt_size: "validManifestFile f \<Longrightarrow> numberInt (ownDataValue f ''size'') = int (fileSizeOf f)"
  by (auto simp: validManifestFile_def fileSizeOf_def validFileSize_def jnat_def)

lemma manifestIds_Cons:
  "manifestIds (f # fs) =
     (if ownDataValue f ''id'' = Undefined then manifestIds fs
      else nat (numberInt (ownDataValue f ''id'')) # manifestIds fs)"
  by (simp add: manifestIds_def)

text \<open>One iteration of the loop, as a conjunction of the checks it makes.\<close>

lemma checkManifestFiles_Cons:
  "checkManifestFiles (f # fs) ids acc = ok t \<longleftrightarrow>
     (\<exists>ids'. validManifestFile f
        \<and> checkManifestFileId (ownDataValue f ''id'') ids = ok ids'
        \<and> acc + int (fileSizeOf f) \<le> MAX_SAFE_INTEGER \<and> - MAX_SAFE_INTEGER \<le> acc + int (fileSizeOf f)
        \<and> checkManifestFiles fs ids' (acc + int (fileSizeOf f)) = ok t)"
proof -
  have valid: "validManifestFile f \<longleftrightarrow> isObject f \<and> hasOnlyKeys f [''id'', ''name'', ''size'', ''mime'']
      \<and> assertFileWithinLimits (ownDataValue f ''name'') (ownDataValue f ''size'') = ok ()
      \<and> assertMimeWithinLimits (ownDataValue f ''mime'') = ok ()"
    if "checkManifestFileId (ownDataValue f ''id'') ids = ok ids'" for ids'
    using that unfolding checkManifestFileId_iff assertFileWithinLimits_iff assertMimeWithinLimits_iff
    by (auto simp: validManifestFile_def)
  show ?thesis
    by (auto simp: Let_def valid abs_le_iff not_less numberInt_size
        dest: numberInt_size[unfolded validManifestFile_def] split: if_splits)
qed

lemma checkManifestFiles_iff:
  "0 \<le> acc \<Longrightarrow> acc + int (length fs * MAX_FILE_BYTES) \<le> MAX_SAFE_INTEGER \<Longrightarrow>
   checkManifestFiles fs ids acc = ok t \<longleftrightarrow>
     list_all validManifestFile fs \<and> distinct (manifestIds fs) \<and> set (manifestIds fs) \<inter> set ids = {}
     \<and> t = acc + int (sum_list (map fileSizeOf fs))"
proof (induction fs arbitrary: ids acc)
  case Nil
  then show ?case by (auto simp: manifestIds_def)
next
  case (Cons f fs)
  show ?case
  proof (cases "validManifestFile f")
    case False
    then show ?thesis by (simp add: checkManifestFiles_Cons del: checkManifestFiles.simps)
  next
    case True
    let ?acc = "acc + int (fileSizeOf f)"
    have sz: "fileSizeOf f \<le> MAX_FILE_BYTES" using True by (rule validManifestFile_size)
    have split: "int (length (f # fs) * MAX_FILE_BYTES) = int MAX_FILE_BYTES + int (length fs * MAX_FILE_BYTES)"
      by simp
    have acc: "0 \<le> ?acc" "?acc + int (length fs * MAX_FILE_BYTES) \<le> MAX_SAFE_INTEGER"
      using Cons.prems sz unfolding split by linarith+
    have "0 \<le> int (length fs * MAX_FILE_BYTES)" "0 \<le> MAX_SAFE_INTEGER"
      by (rule of_nat_0_le_iff) (simp add: MAX_SAFE_INTEGER_def)
    with acc have rng: "?acc \<le> MAX_SAFE_INTEGER" "- MAX_SAFE_INTEGER \<le> ?acc" by linarith+
    note IH = Cons.IH[OF acc]
    have step: "checkManifestFiles (f # fs) ids acc = ok t \<longleftrightarrow>
        (\<exists>ids'. checkManifestFileId (ownDataValue f ''id'') ids = ok ids'
           \<and> checkManifestFiles fs ids' ?acc = ok t)"
      unfolding checkManifestFiles_Cons using True rng by blast
    from validManifestFile_id[OF True] show ?thesis
    proof (elim disjE exE conjE)
      assume u: "ownDataValue f ''id'' = Undefined"
      show ?thesis
        unfolding step checkManifestFileId_iff IH using True u
        by (auto simp: manifestIds_Cons jnat_def)
    next
      fix i assume i: "i \<le> 255" "ownDataValue f ''id'' = jnat i"
      show ?thesis
        unfolding step checkManifestFileId_iff IH using True i
        by (auto simp: manifestIds_Cons jnat_def)
    qed
  qed
qed

lemma isSafeNonNegativeInteger_numberInt:
  "isSafeNonNegativeInteger v \<Longrightarrow> numberInt v = int n \<longleftrightarrow> v = jnat n"
  by (elim isSafeNonNegativeInteger_cases) (auto simp: jnat_def)

lemma manifest_total_safe:
  "list_all validManifestFile fs \<Longrightarrow> length fs \<le> MAX_FILES_PER_SESSION \<Longrightarrow>
   int (sum_list (map fileSizeOf fs)) \<le> MAX_SAFE_INTEGER"
proof -
  assume "list_all validManifestFile fs" and len: "length fs \<le> MAX_FILES_PER_SESSION"
  then have "sum_list (map fileSizeOf fs) \<le> length fs * MAX_FILE_BYTES"
    by (induction fs) (auto simp: add_mono dest: validManifestFile_size)
  also have "\<dots> \<le> 100 * MAX_FILE_BYTES" using len by (simp add: limit_defs)
  finally show ?thesis by (simp add: MAX_SAFE_INTEGER_def limit_defs)
qed

lemma assertManifestWithinLimits_iff:
  "assertManifestWithinLimits v = ok () \<longleftrightarrow> validManifest v"
proof (cases "\<exists>es. ownDataValue v ''files'' = Arr es")
  case True
  then obtain es where es: "ownDataValue v ''files'' = Arr es" by blast
  let ?fs = "map dataValue es" and ?fc = "ownDataValue v ''fileCount''" and ?tb = "ownDataValue v ''totalBytes''"
  have count: "isSafeNonNegativeInteger ?fc \<and> 1 \<le> numberInt ?fc \<and> numberInt ?fc \<le> int MAX_FILES_PER_SESSION
      \<and> int (length es) = numberInt ?fc
      \<longleftrightarrow> 1 \<le> length ?fs \<and> length ?fs \<le> MAX_FILES_PER_SESSION \<and> ?fc = jnat (length ?fs)"
    by (auto simp: MAX_SAFE_INTEGER_def limit_defs jnat_def isSafeNonNegativeInteger_def
        split: jsval.splits jsnum.splits)
  have loop: "checkManifestFiles ?fs [] 0 = ok t \<longleftrightarrow> list_all validManifestFile ?fs
      \<and> distinct (manifestIds ?fs) \<and> t = int (sum_list (map fileSizeOf ?fs))"
    if "length ?fs \<le> MAX_FILES_PER_SESSION" for t
    using checkManifestFiles_iff[of 0 ?fs "[]" t] that
    by (simp add: MAX_SAFE_INTEGER_def limit_defs)
  have "assertManifestWithinLimits v = ok () \<longleftrightarrow>
      isObject v \<and> hasOnlyKeys v [''files'', ''fileCount'', ''totalBytes'']
      \<and> (isSafeNonNegativeInteger ?fc \<and> 1 \<le> numberInt ?fc \<and> numberInt ?fc \<le> int MAX_FILES_PER_SESSION
          \<and> int (length es) = numberInt ?fc)
      \<and> isSafeNonNegativeInteger ?tb \<and> checkManifestFiles ?fs [] 0 = ok (numberInt ?tb)"
    unfolding assertManifestWithinLimits_def es by (auto simp: Let_def not_less split: if_splits)
  also have "\<dots> \<longleftrightarrow> validManifest v"
  proof (cases "length ?fs \<le> MAX_FILES_PER_SESSION")
    case len: True
    have "isSafeNonNegativeInteger ?tb \<and> checkManifestFiles ?fs [] 0 = ok (numberInt ?tb) \<longleftrightarrow>
        list_all validManifestFile ?fs \<and> distinct (manifestIds ?fs)
        \<and> ?tb = jnat (sum_list (map fileSizeOf ?fs))" (is "?l \<longleftrightarrow> ?r")
    proof
      assume ?l
      then show ?r using loop[OF len] isSafeNonNegativeInteger_numberInt by blast
    next
      assume r: ?r
      then have "isSafeNonNegativeInteger ?tb" "numberInt ?tb = int (sum_list (map fileSizeOf ?fs))"
        using manifest_total_safe[OF _ len] by (simp, simp add: jnat_def)
      with r show ?l using loop[OF len] by simp
    qed
    then show ?thesis
      unfolding count validManifest_def es arrayValues.simps Let_def by blast
  next
    case False
    then show ?thesis
      unfolding count validManifest_def es arrayValues.simps Let_def by blast
  qed
  finally show ?thesis .
next
  case False
  then show ?thesis
    by (auto simp: assertManifestWithinLimits_def validManifest_def split: jsval.splits)
qed

section \<open>Transfer manifests\<close>

text \<open>A transfer manifest is a valid manifest whose files are numbered from 0.\<close>

definition validTransferManifest :: "jsval \<Rightarrow> bool" where
  "validTransferManifest v \<longleftrightarrow> validManifest v \<and>
     (let fs = arrayValues (ownDataValue v ''files'') in
      \<forall>i < length fs. ownDataValue (fs ! i) ''id'' = jnat i)"

lemma checkSequentialIds_iff:
  "k + length fs \<le> 256 \<Longrightarrow>
   checkSequentialIds fs k = ok () \<longleftrightarrow> (\<forall>i < length fs. ownDataValue (fs ! i) ''id'' = jnat (k + i))"
proof (induction fs arbitrary: k)
  case (Cons f fs)
  have head: "checkSequentialIds (f # fs) k = ok () \<longleftrightarrow>
      ownDataValue f ''id'' = jnat k \<and> checkSequentialIds fs (Suc k) = ok ()"
    using Cons.prems by (auto simp: jnat_def split: jsval.splits jsnum.splits if_splits)
  have "(\<forall>i < length (f # fs). ownDataValue ((f # fs) ! i) ''id'' = jnat (k + i)) \<longleftrightarrow>
      ownDataValue f ''id'' = jnat k \<and> (\<forall>i < length fs. ownDataValue (fs ! i) ''id'' = jnat (Suc k + i))"
    by (auto simp: less_Suc_eq_0_disj nth_Cons split: nat.splits)
  with head Cons show ?case by simp
qed simp

lemma assertTransferManifestWithinLimits_iff:
  "assertTransferManifestWithinLimits v = ok () \<longleftrightarrow> validTransferManifest v"
proof (cases "validManifest v")
  case True
  then obtain es where es: "ownDataValue v ''files'' = Arr es" "length es \<le> 100"
    by (auto simp: validManifest_def Let_def limit_defs)
  have "assertManifestWithinLimits v = ok ()" using True assertManifestWithinLimits_iff by blast
  then have "assertTransferManifestWithinLimits v = ok () \<longleftrightarrow> checkSequentialIds (map dataValue es) 0 = ok ()"
    by (simp add: assertTransferManifestWithinLimits_def es)
  with True es show ?thesis
    using checkSequentialIds_iff[of 0 "map dataValue es"] by (simp add: validTransferManifest_def Let_def)
next
  case False
  then have "\<not> isOk (assertManifestWithinLimits v)"
    by (simp add: assertManifestWithinLimits_iff isOk_iff)
  with False show ?thesis
    by (auto simp: assertTransferManifestWithinLimits_def validTransferManifest_def isOk_iff)
qed

section \<open>Properties\<close>

text \<open>C37: a file name that passes the manifest check is portable: it has no path separator,
  no control, format or reserved character, does not start with a dot, does not end in a dot
  or blank, is not a Windows device name and has at most 200 UTF-8 bytes; and the size is at
  most 1 GiB.\<close>

theorem accepted_file_portable:
  assumes "assertFileWithinLimits (Str n) bytes = ok ()"
  shows "portableName n \<and> n \<noteq> js ''.'' \<and> n \<noteq> js ''..'' \<and> trim n \<noteq> []
     \<and> (\<exists>k. bytes = jnat k \<and> k \<le> 1073741824)"
  using assms validFileName_portable safeName_file_cases
  unfolding assertFileWithinLimits_iff validFileSize_def limit_defs by auto

lemma name_report_valid: "validFileName (Str (js ''report.pdf''))"
proof -
  have "portableName (js ''report.pdf'')"
    by (simp add: portableName_def name_eval codePoints_def)
  moreover have "\<not> isSpace (hd (js ''report.pdf''))" "\<not> isSpace (last (js ''report.pdf''))"
    by (simp_all add: js_def isSpace_def)
  ultimately have "safeName (js ''report.pdf'') SAFE_FILE_NAME_BYTES = js ''report.pdf''"
    by (intro portable_fixpoint) simp_all
  then show ?thesis
    by (simp add: validFileName_Str limit_defs unsafeManifestFileName_def codePoints_def name_eval)
qed

theorem accepted_file_portable_witness:
  "portableName (js ''report.pdf'') \<and> js ''report.pdf'' \<noteq> js ''.'' \<and> js ''report.pdf'' \<noteq> js ''..''
     \<and> trim (js ''report.pdf'') \<noteq> [] \<and> (\<exists>k. jnat 42 = jnat k \<and> k \<le> 1073741824)"
  by (rule accepted_file_portable)
    (simp add: assertFileWithinLimits_iff name_report_valid limit_defs)

text \<open>The manifest check accepts exactly the manifests of the declarative specification:
  plain records with 1 to 100 files whose count and total match, every file entry valid and
  no file id used twice. In particular the overflow test on the running total never fires on
  a manifest whose entries are valid.\<close>

theorem manifest_check_exact:
  "assertManifestWithinLimits v = ok () \<longleftrightarrow> validManifest v"
  by (rule assertManifestWithinLimits_iff)

text \<open>The transfer manifest check accepts exactly the valid manifests in which every file
  carries its own position as its id.\<close>

theorem transfer_manifest_check_exact:
  "assertTransferManifestWithinLimits v = ok () \<longleftrightarrow> validTransferManifest v"
  by (rule assertTransferManifestWithinLimits_iff)

end
