(* ===== verification/PublicManifest.thy ===== *)
theory PublicManifest
  imports ManifestLimits
begin

text \<open>
  The public manifest, \<open>src/src/shared/public-manifest.ts\<close>. The real manifest travels
  encrypted; the copy the server sees is a constant. The sender replaces its manifest by the
  constant, the server refuses every pair request that shows anything else.
\<close>

section \<open>Definitions\<close>

definition MAX_PUBLIC_TOTAL_BYTES :: nat where
  "MAX_PUBLIC_TOTAL_BYTES = MAX_FILE_BYTES * MAX_FILES_PER_SESSION"

definition encryptedName :: "nat \<Rightarrow> jsstring" where
  "encryptedName index = js ''encrypted-'' @ dec index"

definition publicFile :: "nat \<Rightarrow> jsval" where
  "publicFile index = jobj [(''id'', jnat index), (''name'', Str (encryptedName index)), (''size'', jnat MAX_FILE_BYTES)]"

definition constantPublicManifest :: jsval where
  "constantPublicManifest =
     jobj [(''files'', jarr (map publicFile [0..<MAX_FILES_PER_SESSION])),
           (''fileCount'', jnat MAX_FILES_PER_SESSION), (''totalBytes'', jnat MAX_PUBLIC_TOTAL_BYTES)]"

definition numberBetween :: "jsval \<Rightarrow> int \<Rightarrow> int \<Rightarrow> bool" where
  "numberBetween v lo hi \<longleftrightarrow> (case v of Number (NInt i) \<Rightarrow> \<bar>i\<bar> \<le> MAX_SAFE_INTEGER \<and> lo \<le> i \<and> i \<le> hi | _ \<Rightarrow> False)"

text \<open>The loop that adds up the sizes; an element that is no own data property is refused.\<close>

fun sumManifestSizes :: "jsval pdesc option list \<Rightarrow> int \<Rightarrow> int res" where
  "sumManifestSizes [] acc = ok acc"
| "sumManifestSizes (Some (DataProp e f) # rest) acc =
     (if \<not> numberBetween (ownDataValue f ''size'') 0 (int MAX_FILE_BYTES)
      then throw ''Manifest file size is invalid.''
      else let acc' = acc + numberInt (ownDataValue f ''size'') in
        if \<bar>acc'\<bar> > MAX_SAFE_INTEGER then throw ''Manifest total size is invalid.''
        else sumManifestSizes rest acc')"
| "sumManifestSizes (_ # rest) acc = throw ''Manifest file entry is invalid.''"

definition redactManifestForSignaling :: "jsval \<Rightarrow> jsval res" where
  "redactManifestForSignaling manifest =
     (let fileCount = ownDataValue manifest ''fileCount'';
          totalBytes = ownDataValue manifest ''totalBytes'' in
      case ownDataValue manifest ''files'' of
        Arr es \<Rightarrow>
          if \<not> numberBetween fileCount 1 (int MAX_FILES_PER_SESSION)
             \<or> int (length es) \<noteq> numberInt fileCount
             \<or> \<not> numberBetween totalBytes 0 (int MAX_PUBLIC_TOTAL_BYTES)
          then throw ''Manifest is invalid.''
          else andThen (sumManifestSizes es 0) (\<lambda>actualTotalBytes.
            if actualTotalBytes \<noteq> numberInt totalBytes then throw ''Manifest is invalid.''
            else ok constantPublicManifest)
      | _ \<Rightarrow> throw ''Manifest is invalid.'')"

fun isDataProp :: "'v pdesc \<Rightarrow> bool" where
  "isDataProp (DataProp _ _) = True"
| "isDataProp (AccessorProp _) = False"

fun hasOnlyOwnDataKeys :: "jsval \<Rightarrow> string list \<Rightarrow> bool" where
  "hasOnlyOwnDataKeys (Obj proto ps) expectedKeys =
     (list_all (\<lambda>(k, d). \<exists>s. k = KStr s) ps \<and> length ps = length expectedKeys
      \<and> list_all (\<lambda>(k, d). k \<in> set (map (\<lambda>a. KStr (js a)) expectedKeys) \<and> isDataProp d) ps)"
| "hasOnlyOwnDataKeys _ expectedKeys = False"

definition publicFileIsRedacted :: "jsval \<Rightarrow> nat \<Rightarrow> bool" where
  "publicFileIsRedacted f index \<longleftrightarrow>
     hasOnlyOwnDataKeys f [''id'', ''name'', ''size''] \<and> ownDataValue f ''id'' = jnat index
     \<and> ownDataValue f ''name'' = Str (encryptedName index)
     \<and> ownDataValue f ''size'' = jnat MAX_FILE_BYTES \<and> ownDataValue f ''mime'' = Undefined"

fun publicFilesAreRedacted :: "jsval pdesc option list \<Rightarrow> nat \<Rightarrow> bool" where
  "publicFilesAreRedacted [] index = True"
| "publicFilesAreRedacted (Some (DataProp e f) # rest) index =
     (publicFileIsRedacted f index \<and> publicFilesAreRedacted rest (Suc index))"
| "publicFilesAreRedacted (_ # rest) index = False"

definition publicPairRequestManifestIsRedacted :: "jsval \<Rightarrow> bool" where
  "publicPairRequestManifestIsRedacted manifest \<longleftrightarrow>
     hasOnlyOwnDataKeys manifest [''files'', ''fileCount'', ''totalBytes'']
     \<and> (case ownDataValue manifest ''files'' of
          Arr es \<Rightarrow>
            ownDataValue manifest ''fileCount'' = jnat MAX_FILES_PER_SESSION
            \<and> int (length es) = numberInt (ownDataValue manifest ''fileCount'')
            \<and> ownDataValue manifest ''totalBytes'' = jnat MAX_PUBLIC_TOTAL_BYTES
            \<and> publicFilesAreRedacted es 0
        | _ \<Rightarrow> False)"

section \<open>Lemmas\<close>

text \<open>What a manifest says: the values of the three fields and, for each file, of the fields a
  peer reads.\<close>

definition fileContents :: "jsval \<Rightarrow> jsval list" where
  "fileContents f = map (ownDataValue f) [''id'', ''name'', ''size'', ''mime'']"

definition manifestContents :: "jsval \<Rightarrow> jsval list list \<times> jsval \<times> jsval" where
  "manifestContents m = (map fileContents (arrayValues (ownDataValue m ''files'')),
     ownDataValue m ''fileCount'', ownDataValue m ''totalBytes'')"

lemma jobj_values:
  "ownDataValue (jobj ((k, v) # kvs)) key = (if key = k then v else ownDataValue (jobj kvs) key)"
  "ownDataValue (jobj []) key = Undefined"
  by (auto simp: jobj_def)

lemma jobj_shape:
  "hasOnlyOwnDataKeys (jobj kvs) keys \<longleftrightarrow> length kvs = length keys \<and> list_all (\<lambda>(k, v). k \<in> set keys) kvs"
  "hasOnlyKeys (jobj kvs) keys \<longleftrightarrow> list_all (\<lambda>(k, v). k \<in> set keys) kvs"
  by (auto simp: jobj_def list_all_iff)

lemma publicFile_redacted: "publicFileIsRedacted (publicFile i) i"
  by (simp add: publicFileIsRedacted_def publicFile_def jobj_values jobj_shape)

lemma publicFilesAreRedacted_append:
  "publicFilesAreRedacted (xs @ ys) i \<longleftrightarrow> publicFilesAreRedacted xs i \<and> publicFilesAreRedacted ys (i + length xs)"
  by (induction xs i rule: publicFilesAreRedacted.induct) auto

lemma publicFiles_redacted:
  "publicFilesAreRedacted (map (\<lambda>v. Some (DataProp True v)) (map publicFile [0..<n])) 0"
  by (induction n) (simp_all add: publicFilesAreRedacted_append publicFile_redacted)

lemma redacted_fileContents: "publicFileIsRedacted f i \<Longrightarrow> fileContents f = fileContents (publicFile i)"
  by (simp add: publicFileIsRedacted_def fileContents_def publicFile_def jobj_values)

lemma redacted_contents:
  "publicFilesAreRedacted es i \<Longrightarrow>
     map fileContents (map dataValue es) = map (\<lambda>k. fileContents (publicFile k)) [i..<i + length es]"
proof (induction es i rule: publicFilesAreRedacted.induct)
  case (2 e f rest i)
  then have "fileContents f = fileContents (publicFile i)" using redacted_fileContents by simp
  moreover have "[i..<i + length (Some (DataProp e f) # rest)] = i # [Suc i..<Suc i + length rest]"
    by (simp only: upt_conv_Cons list.size add_Suc_right less_add_Suc1 if_True add_0_right add_Suc plus_nat.add_0)
  ultimately show ?case using 2 by simp
qed auto

lemma arrayValues_jarr [simp]: "arrayValues (jarr vs) = vs"
  by (simp add: jarr_def comp_def)

lemma constant_fields:
  "ownDataValue constantPublicManifest ''files'' = jarr (map publicFile [0..<MAX_FILES_PER_SESSION])"
  "ownDataValue constantPublicManifest ''fileCount'' = jnat MAX_FILES_PER_SESSION"
  "ownDataValue constantPublicManifest ''totalBytes'' = jnat MAX_PUBLIC_TOTAL_BYTES"
  by (simp_all add: constantPublicManifest_def jobj_values)

lemma constant_redacted: "publicPairRequestManifestIsRedacted constantPublicManifest"
  unfolding publicPairRequestManifestIsRedacted_def constant_fields
  using publicFiles_redacted[of MAX_FILES_PER_SESSION]
  by (simp add: constantPublicManifest_def jobj_shape jarr_def jnat_def)

text \<open>The names of the constant manifest are portable, so it is a valid manifest.\<close>

definition plainNameUnit :: "nat \<Rightarrow> bool" where
  "plainNameUnit c \<longleftrightarrow> isDigit c \<or> isLowerAZ c \<or> c = 45"

lemma plainNameUnit_safe:
  assumes "plainNameUnit c"
  shows "c < 0x80" "\<not> unsafePortable c" "\<not> isControlOrFormat c" "\<not> isPathSeparator c" "\<not> isDotOrSpace c" "\<not> isSpace c" "c \<noteq> 46"
  using assms isControlOrFormat_ascii[of c]
  by (auto simp: plainNameUnit_def ascii_class_defs unsafePortable_def isPathSeparator_def isDotOrSpace_def isSpace_def)

lemma encryptedName_units: "list_all plainNameUnit (encryptedName i)"
  using dec_digits by (auto simp: encryptedName_def js_def plainNameUnit_def isLowerAZ_def list_all_iff)

lemma reservedBases_short: "b \<in> set reservedBases \<Longrightarrow> length b \<le> 4"
  by (auto simp: reservedBases_def js_def)

lemma encryptedName_not_reserved: "\<not> isWindowsReservedName (encryptedName i)"
proof -
  have tw: "takeWhile (\<lambda>c. c \<noteq> 46) (encryptedName i) = encryptedName i"
    using encryptedName_units[of i] plainNameUnit_safe(7) by (auto simp: list_all_iff takeWhile_eq_all_conv)
  have ne: "encryptedName i \<noteq> []" by (simp add: encryptedName_def js_def)
  then have "plainNameUnit (last (encryptedName i))" using encryptedName_units[of i] by (simp add: list_all_iff)
  then have st: "stripTrailing isDotOrSpace (encryptedName i) = encryptedName i"
    using plainNameUnit_safe(5) ne by (simp add: stripTrailing_def dropWhile_stable hd_rev)
  have "list_all (\<lambda>c. c < 0x80 \<and> \<not> isUpperAZ c) (encryptedName i)"
    using encryptedName_units[of i] by (auto simp: list_all_iff plainNameUnit_def ascii_class_defs)
  then have lc: "toLowerCase (encryptedName i) = encryptedName i" by (rule toLowerCase_ascii_stable)
  have "\<not> length (encryptedName i) \<le> 4" by (simp add: encryptedName_def js_def)
  then have "encryptedName i \<notin> set reservedBases" using reservedBases_short by blast
  then show ?thesis unfolding isWindowsReservedName_def Let_def tw st lc by blast
qed

lemma encryptedName_valid:
  assumes "i < 100" shows "validFileName (Str (encryptedName i))"
proof -
  note u = encryptedName_units[of i]
  have ascii: "list_all (\<lambda>c. c < 0x80) (encryptedName i)" using u plainNameUnit_safe(1) by (auto simp: list_all_iff)
  have ne: "encryptedName i \<noteq> []" "hd (encryptedName i) = 101" by (simp_all add: encryptedName_def js_def)
  have len: "length (encryptedName i) \<le> 12" using length_dec_le[of i 2] assms by (simp add: encryptedName_def js_def)
  have lst: "plainNameUnit (last (encryptedName i))" using u ne(1) by (simp add: list_all_iff)
  have port: "portableName (encryptedName i)"
    unfolding portableName_def using u ne ascii len lst plainNameUnit_safe encryptedName_not_reserved[of i]
    by (simp add: codePoints_ascii utf8ByteLength_ascii file_name_consts) (auto simp: list_all_iff)
  have "safeName (encryptedName i) SAFE_FILE_NAME_BYTES = encryptedName i"
    using port ne lst len plainNameUnit_safe(6) by (intro portable_fixpoint) (simp_all add: isSpace_def)
  moreover have "\<not> unsafeManifestFileName (encryptedName i)"
    using u plainNameUnit_safe(3,4) by (auto simp: unsafeManifestFileName_def codePoints_ascii[OF ascii] list_ex_iff list_all_iff)
  ultimately show ?thesis using ne len by (simp add: validFileName_Str limit_defs)
qed

lemma publicFile_valid: "i < 100 \<Longrightarrow> validManifestFile (publicFile i)"
  using encryptedName_valid[of i]
  by (auto simp: validManifestFile_def publicFile_def jobj_values jobj_shape validMime_def intro: exI[of _ i])

lemma publicFile_fields [simp]:
  "ownDataValue (publicFile i) ''id'' = jnat i" "fileSizeOf (publicFile i) = MAX_FILE_BYTES"
  by (simp_all add: publicFile_def jobj_values fileSizeOf_def jnat_def)

lemma manifestIds_publicFiles: "manifestIds (map publicFile is) = is"
  by (induction "is") (simp_all add: manifestIds_def jnat_def)

lemma constant_valid: "validManifest constantPublicManifest"
proof -
  have "ownDataValue constantPublicManifest ''files'' = Arr (map (\<lambda>v. Some (DataProp True v)) (map publicFile [0..<MAX_FILES_PER_SESSION]))"
    by (simp add: constant_fields jarr_def)
  moreover have "list_all validManifestFile (map publicFile [0..<MAX_FILES_PER_SESSION])"
    using publicFile_valid by (simp add: list_all_iff limit_defs)
  moreover have "sum_list (map fileSizeOf (map publicFile [0..<MAX_FILES_PER_SESSION])) = MAX_PUBLIC_TOTAL_BYTES"
    by (simp add: comp_def sum_list_triv MAX_PUBLIC_TOTAL_BYTES_def)
  moreover have "isObject constantPublicManifest" "hasOnlyKeys constantPublicManifest [''files'', ''fileCount'', ''totalBytes'']"
    by (simp_all add: constantPublicManifest_def jobj_shape)
  ultimately show ?thesis
    unfolding validManifest_def Let_def constant_fields arrayValues_jarr manifestIds_publicFiles
    by (simp add: jarr_def limit_defs)
qed

lemma validManifestFile_element:
  assumes "validManifestFile (dataValue e)" shows "\<exists>en f. e = Some (DataProp en f) \<and> validManifestFile f"
  using assms by (cases e rule: dataValue.cases) (auto simp: validManifestFile_def)

lemma sumManifestSizes_valid:
  assumes "list_all validManifestFile (map dataValue es)" "0 \<le> acc"
    "acc + int (sum_list (map fileSizeOf (map dataValue es))) \<le> MAX_SAFE_INTEGER"
  shows "sumManifestSizes es acc = ok (acc + int (sum_list (map fileSizeOf (map dataValue es))))"
  using assms
proof (induction es arbitrary: acc)
  case (Cons e es)
  then obtain en f where e: "e = Some (DataProp en f)" "validManifestFile f"
    using validManifestFile_element[of e] by auto
  let ?S = "sum_list (map fileSizeOf (map dataValue es))"
  have sz: "numberInt (ownDataValue f ''size'') = int (fileSizeOf f)" "numberBetween (ownDataValue f ''size'') 0 (int MAX_FILE_BYTES)"
    using e(2) numberInt_size[of f] by (auto simp: validManifestFile_def numberBetween_def validFileSize_def jnat_def MAX_SAFE_INTEGER_def limit_defs)
  have b: "0 \<le> acc + int (fileSizeOf f)" "acc + int (fileSizeOf f) + int ?S \<le> MAX_SAFE_INTEGER"
    using Cons.prems(2,3) e by simp_all
  have "\<bar>acc + int (fileSizeOf f)\<bar> \<le> MAX_SAFE_INTEGER" using b by linarith
  with Cons.IH[OF _ b] Cons.prems e sz show ?case by (simp add: Let_def)
qed simp

lemma redact_valid:
  assumes "validManifest m" shows "redactManifestForSignaling m = ok constantPublicManifest"
proof -
  from assms obtain es where es: "ownDataValue m ''files'' = Arr es" by (auto simp: validManifest_def)
  let ?fs = "map dataValue es"
  have v: "1 \<le> length es" "length es \<le> MAX_FILES_PER_SESSION" "list_all validManifestFile ?fs"
    "ownDataValue m ''fileCount'' = jnat (length es)" "ownDataValue m ''totalBytes'' = jnat (sum_list (map fileSizeOf ?fs))"
    using assms unfolding validManifest_def es arrayValues.simps Let_def length_map by blast+
  have "sum_list (map fileSizeOf ?fs) \<le> length ?fs * MAX_FILE_BYTES"
    using v(3) by (induction es) (auto simp: add_mono dest: validManifestFile_size)
  also have "\<dots> \<le> MAX_FILES_PER_SESSION * MAX_FILE_BYTES" using v(2) by simp
  finally have tot: "sum_list (map fileSizeOf ?fs) \<le> MAX_PUBLIC_TOTAL_BYTES" by (simp add: MAX_PUBLIC_TOTAL_BYTES_def mult.commute)
  then have safe: "int (sum_list (map fileSizeOf ?fs)) \<le> MAX_SAFE_INTEGER"
    by (simp add: MAX_PUBLIC_TOTAL_BYTES_def MAX_SAFE_INTEGER_def limit_defs)
  have "numberBetween (jnat (length es)) 1 (int MAX_FILES_PER_SESSION)"
    using v(1,2) by (simp add: numberBetween_def jnat_def MAX_SAFE_INTEGER_def limit_defs)
  moreover have "numberBetween (jnat (sum_list (map fileSizeOf ?fs))) 0 (int MAX_PUBLIC_TOTAL_BYTES)"
    using tot safe by (simp add: numberBetween_def jnat_def)
  moreover have "sumManifestSizes es 0 = ok (int (sum_list (map fileSizeOf ?fs)))"
    using sumManifestSizes_valid[OF v(3), of 0] safe by simp
  ultimately show ?thesis
    unfolding redactManifestForSignaling_def es v(4,5) by (simp add: Let_def jnat_def)
qed

section \<open>Properties\<close>

lemma redacted_same:
  assumes red: "publicPairRequestManifestIsRedacted m" shows "manifestContents m = manifestContents constantPublicManifest"
proof -
  from red obtain es where es: "ownDataValue m ''files'' = Arr es"
    unfolding publicPairRequestManifestIsRedacted_def by (auto split: jsval.splits)
  with red have f: "ownDataValue m ''fileCount'' = jnat MAX_FILES_PER_SESSION"
    "ownDataValue m ''totalBytes'' = jnat MAX_PUBLIC_TOTAL_BYTES" "publicFilesAreRedacted es 0"
    "length es = MAX_FILES_PER_SESSION"
    by (auto simp: publicPairRequestManifestIsRedacted_def jnat_def)
  from redacted_contents[OF f(3)] f es show "manifestContents m = manifestContents constantPublicManifest"
    by (simp add: manifestContents_def constant_fields comp_def)
qed

definition nullPrototypeManifest :: jsval where
  "nullPrototypeManifest = Obj NullPrototype
     [(KStr (js ''totalBytes''), DataProp False (jnat MAX_PUBLIC_TOTAL_BYTES)),
      (KStr (js ''files''), DataProp True (jarr (map publicFile [0..<MAX_FILES_PER_SESSION]))),
      (KStr (js ''fileCount''), DataProp True (jnat MAX_FILES_PER_SESSION))]"

lemma null_redacted: "publicPairRequestManifestIsRedacted nullPrototypeManifest"
  using publicFiles_redacted[of MAX_FILES_PER_SESSION]
  by (simp add: publicPairRequestManifestIsRedacted_def nullPrototypeManifest_def jarr_def jnat_def)

text \<open>A manifest of one file.\<close>

definition reportManifest :: jsval where
  "reportManifest = jobj [(''files'', jarr [jobj [(''id'', jnat 0), (''name'', Str (js ''report.pdf'')), (''size'', jnat 42)]]),
     (''fileCount'', jnat 1), (''totalBytes'', jnat 42)]"

lemma report_valid: "validManifest reportManifest"
proof -
  have "validManifestFile (jobj [(''id'', jnat 0), (''name'', Str (js ''report.pdf'')), (''size'', jnat 42)])"
    using name_report_valid by (simp add: validManifestFile_def validFileSize_def limit_defs validMime_def) (auto simp: jnat_def intro: exI[of _ 42])
  then show ?thesis
    by (simp add: validManifest_def reportManifest_def jarr_def Let_def limit_defs fileSizeOf_def) (simp add: manifestIds_def jnat_def)
qed



end
