(* ===== verification/Wordlist.thy ===== *)
theory Wordlist
  imports JsRuntime
begin

text \<open>
  Receive codes, \<open>src/src/shared/wordlist.ts\<close>: normalisation, parsing and generation of
  codes \<open><digits>-<word>-<word>\<close>. The BIP-39 word list is a parameter (it comes from a
  package), and so is the source of random 32-bit words: the n-th call of
  \<open>crypto.getRandomValues\<close> yields \<open>rnd n\<close>, and the operations thread the number of calls made.
  The two sampling loops need not end on every source, so they are partial functions:
  \<open>None\<close> is a loop that never returns.
\<close>

section \<open>Definitions\<close>

definition RENDEZVOUS_DIGITS :: nat where [limit_defs]: "RENDEZVOUS_DIGITS = 8"
definition GENERATED_RENDEZVOUS_DIGITS :: nat where [limit_defs]: "GENERATED_RENDEZVOUS_DIGITS = 12"
definition MAX_CODE_INPUT_BYTES :: nat where [limit_defs]: "MAX_CODE_INPUT_BYTES = 256"
definition GENERATED_RENDEZVOUS_CHUNK_DIGITS :: nat where [limit_defs]: "GENERATED_RENDEZVOUS_CHUNK_DIGITS = 6"
definition RENDEZVOUS_CHUNK_SPACE :: nat where [limit_defs]: "RENDEZVOUS_CHUNK_SPACE = 10 ^ 6"

definition codeInputUtf8ByteLengthExceeds :: "jsstring \<Rightarrow> bool" where
  "codeInputUtf8ByteLengthExceeds value = utf8ByteLengthExceeds value MAX_CODE_INPUT_BYTES"

fun normalizeCode :: "jsval \<Rightarrow> jsstring" where
  "normalizeCode (Str code) =
     (if codeInputUtf8ByteLengthExceeds code then [] else toLowerCase (trim code))"
| "normalizeCode _ = []"

definition rendezvousPattern :: "jsstring \<Rightarrow> bool" where
  "rendezvousPattern s \<longleftrightarrow>
     list_all isDigit s \<and> (length s = RENDEZVOUS_DIGITS \<or> length s = GENERATED_RENDEZVOUS_DIGITS)"

fun isValidRendezvous :: "jsval \<Rightarrow> bool" where
  "isValidRendezvous (Str s) = rendezvousPattern s"
| "isValidRendezvous _ = False"

record ParsedCode =
  handle :: jsstring
  rendezvous :: jsstring
  secret :: jsstring

definition wordPattern :: "jsstring \<Rightarrow> bool" where
  "wordPattern s \<longleftrightarrow> s \<noteq> [] \<and> list_all isLowerAZ s"

abbreviation dash :: nat where "dash \<equiv> 45"

text \<open>The three groups of the code pattern: none contains a dash, so they are the parts
  between the dashes.\<close>

definition codePatternGroups :: "jsstring \<Rightarrow> (jsstring \<times> jsstring \<times> jsstring) option" where
  "codePatternGroups s =
     (case splitAt dash s of
        [r, a, b] \<Rightarrow> if rendezvousPattern r \<and> wordPattern a \<and> wordPattern b then Some (r, a, b) else None
      | _ \<Rightarrow> None)"

definition parseCode :: "jsstring list \<Rightarrow> jsval \<Rightarrow> ParsedCode option" where
  "parseCode wordlist code =
     (let normalized = normalizeCode code in
      case codePatternGroups normalized of
        None \<Rightarrow> None
      | Some (r, wordA, wordB) \<Rightarrow>
          if wordA = wordB then None
          else if wordA \<notin> set wordlist \<or> wordB \<notin> set wordlist then None
          else Some \<lparr>handle = normalized, rendezvous = r, secret = wordA @ [dash] @ wordB\<rparr>)"

definition isValidCode :: "jsstring list \<Rightarrow> jsval \<Rightarrow> bool" where
  "isValidCode wordlist code \<longleftrightarrow> parseCode wordlist code \<noteq> None"

text \<open>Rejection sampling.\<close>

definition samplingLimit :: "nat \<Rightarrow> nat" where
  "samplingLimit n = (0x100000000 div n) * n"

partial_function (option) sampleBelow :: "(nat \<Rightarrow> nat) \<Rightarrow> nat \<Rightarrow> nat \<Rightarrow> (nat \<times> nat) option" where
  [code]: "sampleBelow rnd n pos =
     (if rnd pos < samplingLimit n then Some (rnd pos mod n, Suc pos)
      else sampleBelow rnd n (Suc pos))"

definition randomIndex :: "(nat \<Rightarrow> nat) \<Rightarrow> nat \<Rightarrow> nat \<Rightarrow> (nat \<times> nat) res option" where
  "randomIndex rnd n pos =
     (if n < 1 then Some (throw ''Random index bound must be a positive integer.'')
      else map_option Inr (sampleBelow rnd n pos))"

definition padStart :: "nat \<Rightarrow> jsstring \<Rightarrow> jsstring" where
  "padStart n s = replicate (n - length s) 48 @ s"

definition randomNameplateChunk :: "(nat \<Rightarrow> nat) \<Rightarrow> nat \<Rightarrow> (jsstring \<times> nat) option" where
  "randomNameplateChunk rnd pos =
     (case sampleBelow rnd RENDEZVOUS_CHUNK_SPACE pos of
        None \<Rightarrow> None
      | Some (i, pos') \<Rightarrow> Some (padStart GENERATED_RENDEZVOUS_CHUNK_DIGITS (dec i), pos'))"

definition randomNameplate :: "(nat \<Rightarrow> nat) \<Rightarrow> nat \<Rightarrow> (jsstring \<times> nat) option" where
  "randomNameplate rnd pos =
     (case randomNameplateChunk rnd pos of
        None \<Rightarrow> None
      | Some (a, pos') \<Rightarrow>
          (case randomNameplateChunk rnd pos' of
             None \<Rightarrow> None
           | Some (b, pos'') \<Rightarrow> Some (a @ b, pos'')))"

partial_function (option) randomWordExcept ::
  "jsstring list \<Rightarrow> (nat \<Rightarrow> nat) \<Rightarrow> jsstring \<Rightarrow> nat \<Rightarrow> (jsstring \<times> nat) option" where
  [code]: "randomWordExcept wordlist rnd disallowed pos =
     (case sampleBelow rnd (length wordlist) pos of
        None \<Rightarrow> None
      | Some (i, pos') \<Rightarrow>
          if wordlist ! i \<noteq> disallowed then Some (wordlist ! i, pos')
          else randomWordExcept wordlist rnd disallowed pos')"

definition generateCode :: "jsstring list \<Rightarrow> (nat \<Rightarrow> nat) \<Rightarrow> nat \<Rightarrow> (jsstring \<times> nat) res option" where
  "generateCode wordlist rnd pos =
     (case randomIndex rnd (length wordlist) pos of
        None \<Rightarrow> None
      | Some (Inl e) \<Rightarrow> Some (Inl e)
      | Some (Inr (i, pos1)) \<Rightarrow>
          (case randomWordExcept wordlist rnd (wordlist ! i) pos1 of
             None \<Rightarrow> None
           | Some (wordB, pos2) \<Rightarrow>
               (case randomNameplate rnd pos2 of
                  None \<Rightarrow> None
                | Some (plate, pos3) \<Rightarrow>
                    Some (ok (plate @ [dash] @ wordlist ! i @ [dash] @ wordB, pos3)))))"

section \<open>Hypotheses on the parameters\<close>

text \<open>What the code relies on: the words are short words over \<open>a\<close> to \<open>z\<close>, at least two
  and at most $2^{32}$ of them, no word listed twice (BIP-39: 2048 distinct words of three to
  eight letters).\<close>

definition bip39Like :: "jsstring list \<Rightarrow> bool" where
  "bip39Like wordlist \<longleftrightarrow>
     2 \<le> length wordlist \<and> length wordlist \<le> 0x100000000 \<and> distinct wordlist
     \<and> list_all (\<lambda>w. wordPattern w \<and> length w \<le> 100) wordlist"

text \<open>The random source yields 32-bit words, and every one of them again and again.\<close>

definition fairSource :: "(nat \<Rightarrow> nat) \<Rightarrow> bool" where
  "fairSource rnd \<longleftrightarrow>
     (\<forall>pos. rnd pos < 0x100000000) \<and> (\<forall>v < 0x100000000. \<forall>pos. \<exists>q \<ge> pos. rnd q = v)"

section \<open>Parsing\<close>

text \<open>Code units that a code consists of; they survive normalisation.\<close>

definition codeUnit :: "nat \<Rightarrow> bool" where
  "codeUnit c \<longleftrightarrow> isDigit c \<or> isLowerAZ c \<or> c = dash"

lemma codeUnit_plain: "codeUnit c \<Longrightarrow> c < 0x80 \<and> \<not> isUpperAZ c \<and> \<not> isSpace c"
  by (auto simp: codeUnit_def ascii_class_defs isSpace_def)

lemma pattern_no_dash:
  "list_all isDigit s \<Longrightarrow> dash \<notin> set s" "list_all isLowerAZ s \<Longrightarrow> dash \<notin> set s"
  by (auto simp: list_all_iff ascii_class_defs)

lemma normalizeCode_plain:
  assumes "list_all codeUnit s" "length s \<le> 256"
  shows "normalizeCode (Str s) = s"
proof -
  have plain: "list_all (\<lambda>c. c < 0x80 \<and> \<not> isUpperAZ c) s" "list_all (\<lambda>c. \<not> isSpace c) s" "list_all (\<lambda>c. c < 0x80) s"
    using assms(1) codeUnit_plain by (auto simp: list_all_iff)
  then have "\<not> codeInputUtf8ByteLengthExceeds s"
    using assms(2) by (simp add: codeInputUtf8ByteLengthExceeds_def utf8ByteLengthExceeds_iff utf8ByteLength_ascii limit_defs)
  with plain show ?thesis by (simp add: trim_stable toLowerCase_ascii_stable)
qed

lemma codePatternGroups_iff:
  "codePatternGroups s = Some (r, a, b) \<longleftrightarrow>
     s = r @ [dash] @ a @ [dash] @ b \<and> rendezvousPattern r \<and> wordPattern a \<and> wordPattern b"
proof
  assume L: "codePatternGroups s = Some (r, a, b)"
  then have "splitAt dash s = [r, a, b]" "rendezvousPattern r \<and> wordPattern a \<and> wordPattern b"
    by (auto simp: codePatternGroups_def split: list.splits if_splits)
  then show "s = r @ [dash] @ a @ [dash] @ b \<and> rendezvousPattern r \<and> wordPattern a \<and> wordPattern b"
    using joinWith_splitAt[of dash s] by simp
next
  assume R: "s = r @ [dash] @ a @ [dash] @ b \<and> rendezvousPattern r \<and> wordPattern a \<and> wordPattern b"
  then have "dash \<notin> set r" "dash \<notin> set a" "dash \<notin> set b"
    using pattern_no_dash by (auto simp: rendezvousPattern_def wordPattern_def)
  with R show "codePatternGroups s = Some (r, a, b)"
    by (simp add: codePatternGroups_def splitAt_append splitAt_none)
qed

lemma groups_codeUnits:
  "rendezvousPattern r \<Longrightarrow> wordPattern a \<Longrightarrow> wordPattern b \<Longrightarrow> list_all codeUnit (r @ [dash] @ a @ [dash] @ b)"
  by (auto simp: rendezvousPattern_def wordPattern_def list_all_iff codeUnit_def)

lemma parseCode_plain:
  assumes "rendezvousPattern r" "wordPattern a" "wordPattern b" "a \<noteq> b" "a \<in> set ws" "b \<in> set ws"
    "length r + length a + length b + 2 \<le> 256"
  shows "parseCode ws (Str (r @ [dash] @ a @ [dash] @ b)) =
     Some \<lparr>handle = r @ [dash] @ a @ [dash] @ b, rendezvous = r, secret = a @ [dash] @ b\<rparr>"
proof -
  have n: "normalizeCode (Str (r @ [dash] @ a @ [dash] @ b)) = r @ [dash] @ a @ [dash] @ b"
    using assms groups_codeUnits by (intro normalizeCode_plain) auto
  have g: "codePatternGroups (r @ [dash] @ a @ [dash] @ b) = Some (r, a, b)"
    using assms by (simp only: codePatternGroups_iff simp_thms)
  show ?thesis
    unfolding parseCode_def Let_def n g using assms by simp
qed

section \<open>Sampling\<close>

lemma sampleBelow_step: "rnd pos < samplingLimit n \<Longrightarrow> sampleBelow rnd n pos = Some (rnd pos mod n, Suc pos)"
  "\<not> rnd pos < samplingLimit n \<Longrightarrow> sampleBelow rnd n pos = sampleBelow rnd n (Suc pos)"
  by (simp_all add: sampleBelow.simps)

text \<open>Once an acceptable value lies ahead, the loop returns, at that value or before.\<close>

lemma sampleBelow_returns:
  assumes "pos \<le> q" "rnd q < samplingLimit n"
  shows "\<exists>q'. pos \<le> q' \<and> q' \<le> q \<and> sampleBelow rnd n pos = Some (rnd q' mod n, Suc q')"
  using assms
proof (induction "q - pos" arbitrary: pos)
  case 0
  then show ?case by (auto simp: sampleBelow_step)
next
  case (Suc k)
  show ?case
  proof (cases "rnd pos < samplingLimit n")
    case True
    with Suc.prems show ?thesis by (auto simp: sampleBelow_step intro!: exI[of _ pos])
  next
    case False
    with Suc.prems have "pos \<noteq> q" by auto
    have "k = q - Suc pos" "Suc pos \<le> q" using Suc.prems(1) Suc.hyps(2) \<open>pos \<noteq> q\<close> by linarith+
    with Suc.prems(2) obtain q' where "Suc pos \<le> q'" "q' \<le> q" "sampleBelow rnd n (Suc pos) = Some (rnd q' mod n, Suc q')"
      using Suc.hyps(1)[of "Suc pos"] by auto
    with False show ?thesis by (auto simp: sampleBelow_step intro: Suc_leD)
  qed
qed

lemma samplingLimit_le: "samplingLimit n \<le> 0x100000000"
  by (simp add: samplingLimit_def)

lemma samplingLimit_ge: "0 < n \<Longrightarrow> n \<le> 0x100000000 \<Longrightarrow> n \<le> samplingLimit n"
proof -
  assume n: "0 < n" "n \<le> 0x100000000"
  then have "1 \<le> 0x100000000 div n" using div_le_mono[of n "0x100000000" n] by simp
  then show ?thesis by (simp add: samplingLimit_def)
qed

lemma sampleBelow_fair:
  assumes "fairSource rnd" "0 < n" "n \<le> 0x100000000"
  shows "\<exists>i pos'. sampleBelow rnd n pos = Some (i, pos') \<and> i < n"
proof -
  have "(0::nat) < 0x100000000" by simp
  with assms(1) obtain q where q: "pos \<le> q" "rnd q = 0" unfolding fairSource_def by blast
  have "rnd q < samplingLimit n" using q samplingLimit_ge[OF assms(2,3)] assms(2) by simp
  from sampleBelow_returns[of pos q rnd n, OF q(1) this] assms(2) show ?thesis by auto
qed

text \<open>Two samples differ sooner or later.\<close>

lemma randomWordExcept_returns:
  assumes "pos \<le> q" "rnd q < samplingLimit (length ws)" "ws ! (rnd q mod length ws) \<noteq> d" "ws \<noteq> []"
  shows "\<exists>i pos'. randomWordExcept ws rnd d pos = Some (ws ! i, pos') \<and> i < length ws \<and> ws ! i \<noteq> d"
  using assms
proof (induction "q - pos" arbitrary: pos rule: less_induct)
  case less
  from sampleBelow_returns[of pos q rnd "length ws", OF less.prems(1,2)] obtain q' where
    q': "pos \<le> q'" "q' \<le> q" "sampleBelow rnd (length ws) pos = Some (rnd q' mod length ws, Suc q')" by auto
  have lt: "rnd q' mod length ws < length ws" using less.prems(4) by simp
  show ?case
  proof (cases "ws ! (rnd q' mod length ws) = d")
    case True
    with q' less.prems(3) have "q' \<noteq> q" by auto
    with q' less.hyps[of "Suc q'"] less.prems True show ?thesis
      by (auto simp: randomWordExcept.simps[of ws rnd d pos])
  next
    case False
    with q' lt show ?thesis by (auto simp: randomWordExcept.simps[of ws rnd d pos])
  qed
qed

lemma randomWordExcept_fair:
  assumes "bip39Like ws" "fairSource rnd" "i < length ws"
  shows "\<exists>j pos'. randomWordExcept ws rnd (ws ! i) pos = Some (ws ! j, pos') \<and> j < length ws \<and> ws ! j \<noteq> ws ! i"
proof -
  define k where "k = (if i = 0 then 1 else (0::nat))"
  have len: "2 \<le> length ws" "length ws \<le> 0x100000000" "distinct ws" using assms(1) by (auto simp: bip39Like_def)
  have "k < length ws" "k \<noteq> i" using len assms(3) by (auto simp: k_def)
  then have k: "k < length ws" "ws ! k \<noteq> ws ! i" "length ws \<le> 0x100000000" "0 < length ws"
    using len assms(3) nth_eq_iff_index_eq[of ws k i] by auto
  have "k < 0x100000000" using k by linarith
  with assms(2) obtain q where q: "pos \<le> q" "rnd q = k" unfolding fairSource_def by blast
  have "rnd q < samplingLimit (length ws)" using q k samplingLimit_ge[of "length ws"] by linarith
  with q k randomWordExcept_returns[of pos q rnd ws "ws ! i"] show ?thesis by auto
qed

lemma padStart_dec: "i < 10 ^ 6 \<Longrightarrow> length (padStart 6 (dec i)) = 6 \<and> list_all isDigit (padStart 6 (dec i))"
  using length_dec_le[of i 6] dec_digits by (auto simp: padStart_def list_all_iff isDigit_def)

lemma randomNameplateChunk_fair:
  assumes "fairSource rnd"
  shows "\<exists>p pos'. randomNameplateChunk rnd pos = Some (p, pos') \<and> length p = 6 \<and> list_all isDigit p"
  using sampleBelow_fair[OF assms, of RENDEZVOUS_CHUNK_SPACE pos] padStart_dec
  by (auto simp: randomNameplateChunk_def limit_defs)

lemma randomNameplate_fair:
  assumes "fairSource rnd"
  shows "\<exists>p pos'. randomNameplate rnd pos = Some (p, pos') \<and> length p = 12 \<and> list_all isDigit p"
proof -
  obtain a p1 where a: "randomNameplateChunk rnd pos = Some (a, p1)" "length a = 6" "list_all isDigit a"
    using randomNameplateChunk_fair[OF assms, of pos] by blast
  obtain b p2 where "randomNameplateChunk rnd p1 = Some (b, p2)" "length b = 6" "list_all isDigit b"
    using randomNameplateChunk_fair[OF assms, of p1] by blast
  with a show ?thesis by (simp add: randomNameplate_def)
qed

section \<open>Properties\<close>

text \<open>C38: With a word list of short lower-case words and a random source that yields 32-bit values
  and every one of them again and again, code generation returns, and parsing the generated code
  gives it back: the handle is the code, the rendezvous part has twelve digits, the secret consists of
  two different words of the list.\<close>

theorem generated_code_parses:
  assumes ws: "bip39Like ws" and rnd: "fairSource rnd"
  shows "\<exists>r a b pos'. generateCode ws rnd pos = Some (ok (r @ [dash] @ a @ [dash] @ b, pos'))
     \<and> length r = 12 \<and> a \<noteq> b \<and> {a, b} \<subseteq> set ws
     \<and> parseCode ws (Str (r @ [dash] @ a @ [dash] @ b)) =
         Some \<lparr>handle = r @ [dash] @ a @ [dash] @ b, rendezvous = r, secret = a @ [dash] @ b\<rparr>"
proof -
  have n: "0 < length ws" "length ws \<le> 0x100000000" using ws by (auto simp: bip39Like_def)
  obtain i p1 where i: "sampleBelow rnd (length ws) pos = Some (i, p1)" "i < length ws"
    using sampleBelow_fair[OF rnd n] by blast
  obtain j p2 where j: "randomWordExcept ws rnd (ws ! i) p1 = Some (ws ! j, p2)" "j < length ws" "ws ! j \<noteq> ws ! i"
    using randomWordExcept_fair[OF ws rnd i(2)] by blast
  obtain r p3 where r: "randomNameplate rnd p2 = Some (r, p3)" "length r = 12" "list_all isDigit r"
    using randomNameplate_fair[OF rnd] by blast
  have w: "wordPattern (ws ! i)" "wordPattern (ws ! j)" "length (ws ! i) \<le> 100" "length (ws ! j) \<le> 100"
    using ws i(2) j(2) by (auto simp: bip39Like_def list_all_length)
  have g: "generateCode ws rnd pos = Some (ok (r @ [dash] @ ws ! i @ [dash] @ ws ! j, p3))"
    using i j r n by (simp add: generateCode_def randomIndex_def)
  have "parseCode ws (Str (r @ [dash] @ ws ! i @ [dash] @ ws ! j)) =
      Some \<lparr>handle = r @ [dash] @ ws ! i @ [dash] @ ws ! j, rendezvous = r, secret = ws ! i @ [dash] @ ws ! j\<rparr>"
    using r w i j by (intro parseCode_plain) (auto simp: rendezvousPattern_def limit_defs)
  with g r j i show ?thesis by (metis empty_subsetI insert_subset nth_mem)
qed

lemma fairSource_counter: "fairSource (\<lambda>n. n mod 0x100000000)"
  unfolding fairSource_def
proof (intro conjI allI impI)
  fix v pos :: nat
  assume v: "v < 0x100000000"
  have "pos \<le> v + pos * 0x100000000" "(v + pos * 0x100000000) mod 0x100000000 = v" using v by simp_all
  then show "\<exists>q\<ge>pos. q mod 0x100000000 = v" by blast
qed simp

theorem generated_code_parses_witness:
  "\<exists>r a b pos'. generateCode [js ''abandon'', js ''zoo''] (\<lambda>n. n mod 0x100000000) 0
       = Some (ok (r @ [dash] @ a @ [dash] @ b, pos')) \<and> length r = 12 \<and> a \<noteq> b"
proof -
  have "bip39Like [js ''abandon'', js ''zoo'']"
    by (simp add: bip39Like_def wordPattern_def js_def isLowerAZ_def)
  from generated_code_parses[OF this fairSource_counter, of 0] show ?thesis by blast
qed

text \<open>Rejection sampling is unbiased: for a bound \<open>n\<close> every residue has the same number
  of accepted 32-bit values, and more than half of the values are accepted.\<close>

theorem sampling_uniform:
  assumes n: "0 < n" "n \<le> 0x100000000" and r: "r < n"
  shows "card {v. v < samplingLimit n \<and> v mod n = r} = 0x100000000 div n
     \<and> 0x100000000 < 2 * samplingLimit n"
proof -
  define k where "k = 0x100000000 div n"
  have "{v. v < k * n \<and> v mod n = r} = (\<lambda>t. t * n + r) ` {..<k}" (is "?A = ?B")
  proof (intro equalityI subsetI)
    fix v assume "v \<in> ?A"
    then have "v = (v div n) * n + r" "v div n < k" by (auto simp: less_mult_imp_div_less)
    then show "v \<in> ?B" by blast
  next
    fix v assume "v \<in> ?B"
    then obtain t where t: "v = t * n + r" "t < k" by auto
    then have "t * n + n \<le> k * n" using mult_le_mono1[of "Suc t" k n] by simp
    with t r show "v \<in> ?A" by simp
  qed
  moreover have "inj_on (\<lambda>t. t * n + r) {..<k}" using n by (auto simp: inj_on_def)
  ultimately have "card {v. v < k * n \<and> v mod n = r} = k" by (simp add: card_image)
  moreover have "0x100000000 < 2 * (k * n)"
  proof -
    have "0x100000000 = k * n + 0x100000000 mod n" by (simp add: k_def)
    moreover have "0x100000000 mod n < n" using n by simp
    moreover have "n \<le> k * n" using samplingLimit_ge[OF n] by (simp add: samplingLimit_def k_def)
    ultimately show ?thesis by linarith
  qed
  ultimately show ?thesis by (simp add: samplingLimit_def k_def)
qed

theorem sampling_uniform_witness:
  "card {v. v < samplingLimit 2048 \<and> v mod 2048 = 5} = 2097152"
  using sampling_uniform[of 2048 5] by simp

text \<open>A code that parses is canonical: the handle is the rendezvous part and the secret
  joined by a dash, and parsing the handle again gives the same result, however the input was
  capitalised or padded.\<close>

theorem parsed_code_canonical:
  assumes p: "parseCode ws c = Some p" and w: "list_all (\<lambda>w. length w \<le> 100) ws"
  shows "handle p = rendezvous p @ [dash] @ secret p \<and> rendezvousPattern (rendezvous p)
     \<and> parseCode ws (Str (handle p)) = Some p"
proof -
  from p obtain r a b where g: "codePatternGroups (normalizeCode c) = Some (r, a, b)" and ab: "a \<noteq> b" "a \<in> set ws" "b \<in> set ws"
    and peq: "p = \<lparr>handle = normalizeCode c, rendezvous = r, secret = a @ [dash] @ b\<rparr>"
    by (auto simp: parseCode_def Let_def split: option.splits prod.splits if_splits)
  from g have n: "normalizeCode c = r @ [dash] @ a @ [dash] @ b" "rendezvousPattern r" "wordPattern a" "wordPattern b"
    by (simp_all only: codePatternGroups_iff)
  have "length r \<le> 12" "length a \<le> 100" "length b \<le> 100"
    using n w ab by (auto simp: rendezvousPattern_def limit_defs list_all_iff)
  then have "parseCode ws (Str (normalizeCode c)) = Some p"
    unfolding n(1) using n ab peq by (subst parseCode_plain) auto
  with n peq show ?thesis by simp
qed

theorem parsed_code_canonical_witness:
  "rendezvousPattern (js ''12345678'')
   \<and> parseCode [js ''abandon'', js ''zoo''] (Str (js ''12345678-zoo-abandon''))
     = Some \<lparr>handle = js ''12345678-zoo-abandon'', rendezvous = js ''12345678'', secret = js ''zoo-abandon''\<rparr>"
  using parsed_code_canonical[of "[js ''abandon'', js ''zoo'']" "Str (js '' 12345678-Zoo-abandon'')"
      "\<lparr>handle = js ''12345678-zoo-abandon'', rendezvous = js ''12345678'', secret = js ''zoo-abandon''\<rparr>"]
  by (simp add: parseCode_def Let_def utf8ByteLength.simps(2) codeInputUtf8ByteLengthExceeds_def utf8ByteLengthExceeds_iff limit_defs js_def
      toLowerCase_def lowerUnit_def trim_def ascii_class_defs isSpace_def codePatternGroups_def rendezvousPattern_def wordPattern_def)

end
