(* ===== verification/Authority.thy ===== *)
theory Authority
  imports JsRuntime
begin

text \<open>
  Host names, authorities and the signaling server URL: \<open>src/src/shared/authority.ts\<close> and
  \<open>src/src/shared/server-url.ts\<close>. The WHATWG URL parser of the platform (\<open>new URL\<close>) is the
  parameter \<open>url\<close>: it maps a string to the parts of the parsed URL, or to \<open>None\<close> when the
  constructor throws.
\<close>

section \<open>Definitions\<close>

record UrlParts =
  protocol :: jsstring
  urlUsername :: jsstring
  urlPassword :: jsstring
  hostname :: jsstring
  urlPort :: jsstring
  pathname :: jsstring
  urlSearch :: jsstring
  urlHash :: jsstring
  href :: jsstring
  origin :: jsstring

type_synonym urlParser = "jsstring \<Rightarrow> UrlParts option"

text \<open>Matching with the flag \<open>i\<close> folds ASCII letters only.\<close>

definition asciiFold :: "jsstring \<Rightarrow> jsstring" where
  "asciiFold s = map (\<lambda>c. if isUpperAZ c then c + 32 else c) s"

definition MAX_AUTHORITY_CHARS :: nat where
  "MAX_AUTHORITY_CHARS = 255"

definition unsafeAuthorityChar :: "nat \<Rightarrow> bool" where
  "unsafeAuthorityChar c \<longleftrightarrow> isControlOrFormat c \<or> isSpace c \<or> c \<in> {44, 47, 92, 64}"

record ParsedAuthority =
  authorityName :: jsstring
  authorityPort :: "jsstring option"

definition hostLabel :: "jsstring \<Rightarrow> bool" where
  "hostLabel label \<longleftrightarrow> 0 < length label \<and> length label \<le> 63
     \<and> list_all (\<lambda>c. isAlnum c \<or> c = 45) label
     \<and> \<not> startsWith label [45] \<and> \<not> endsWith label [45]"

definition isValidHostname :: "jsstring \<Rightarrow> bool" where
  "isValidHostname host \<longleftrightarrow>
     \<not> (length host = 0 \<or> length host > 253 \<or> host = [46] \<or> endsWith host [46])
     \<and> list_all hostLabel (splitAt 46 host)"

definition digits :: "jsstring \<Rightarrow> bool" where
  "digits s \<longleftrightarrow> s \<noteq> [] \<and> list_all isDigit s"

definition hexDigits :: "jsstring \<Rightarrow> bool" where
  "hexDigits s \<longleftrightarrow> s \<noteq> [] \<and> list_all (\<lambda>c. isDigit c \<or> (97 \<le> c \<and> c \<le> 102) \<or> (65 \<le> c \<and> c \<le> 70)) s"

definition isAmbiguousNumericHost :: "jsstring \<Rightarrow> bool" where
  "isAmbiguousNumericHost host \<longleftrightarrow>
     digits host
     \<or> (let parts = splitAt 46 host in 2 \<le> length parts \<and> length parts \<le> 4 \<and> list_all digits parts)
     \<or> (asciiFold (take 2 host) = js ''0x'' \<and> hexDigits (drop 2 host))"

text \<open>A decimal octet without leading zeros.\<close>

definition ipv4Part :: "jsstring \<Rightarrow> bool" where
  "ipv4Part part \<longleftrightarrow> (part = [48] \<or> (digits part \<and> length part \<le> 3 \<and> hd part \<noteq> 48)) \<and> decValue part \<le> 255"

definition isStrictDottedIpv4 :: "jsstring \<Rightarrow> bool" where
  "isStrictDottedIpv4 host \<longleftrightarrow>
     (let parts = splitAt 46 host in length parts = 4 \<and> list_all ipv4Part parts)"

definition bracketedHostname :: "UrlParts option \<Rightarrow> bool" where
  "bracketedHostname r =
     (case r of
        None \<Rightarrow> False
      | Some parsed \<Rightarrow> startsWith (hostname parsed) [91] \<and> endsWith (hostname parsed) [93]
          \<and> 58 \<in> set (hostname parsed))"

definition isRawIpv6Address :: "urlParser \<Rightarrow> jsstring \<Rightarrow> bool" where
  "isRawIpv6Address url host \<longleftrightarrow>
     58 \<in> set host \<and> 91 \<notin> set host \<and> 93 \<notin> set host
     \<and> bracketedHostname (url (js ''http://['' @ host @ js '']''))"

definition isValidBracketedIpv6 :: "urlParser \<Rightarrow> jsstring \<Rightarrow> bool" where
  "isValidBracketedIpv6 url host = bracketedHostname (url (js ''http://'' @ host))"

definition isValidHostNameOrIp :: "urlParser \<Rightarrow> jsstring \<Rightarrow> bool" where
  "isValidHostNameOrIp url host \<longleftrightarrow>
     (if host = [] \<or> length host > 253 then False
      else if isStrictDottedIpv4 host \<or> isRawIpv6Address url host then True
      else if 58 \<in> set host \<or> 91 \<in> set host \<or> 93 \<in> set host then False
      else if isAmbiguousNumericHost host then False
      else isValidHostname host)"

text \<open>The group of \<open>/^\[(.*)\]$/\<close>: \<open>.\<close> matches no line terminator.\<close>

definition unbracket :: "jsstring \<Rightarrow> jsstring option" where
  "unbracket s =
     (if 2 \<le> length s \<and> hd s = 91 \<and> last s = 93
         \<and> list_all (\<lambda>c. c \<notin> {10, 13, 0x2028, 0x2029}) (butlast (tl s))
      then Some (butlast (tl s)) else None)"

definition isValidOriginHostname :: "urlParser \<Rightarrow> jsstring \<Rightarrow> bool" where
  "isValidOriginHostname url host \<longleftrightarrow>
     (if length host = 0 \<or> length host > MAX_AUTHORITY_CHARS then False
      else case unbracket host of
        Some inner \<Rightarrow> isRawIpv6Address url inner
      | None \<Rightarrow> isValidHostNameOrIp url host)"

definition isValidPort :: "jsstring \<Rightarrow> bool" where
  "isValidPort p \<longleftrightarrow> digits p \<and> length p \<le> 5 \<and> 1 \<le> decValue p \<and> decValue p \<le> 65535"

definition authorityInputAllowed :: "jsstring \<Rightarrow> bool" where
  "authorityInputAllowed authority \<longleftrightarrow>
     0 < length authority \<and> length authority \<le> MAX_AUTHORITY_CHARS
     \<and> \<not> list_ex unsafeAuthorityChar (codePoints authority)"

definition splitAuthority :: "jsstring \<Rightarrow> ParsedAuthority option" where
  "splitAuthority authority =
     (if \<not> authorityInputAllowed authority then None
      else if startsWith authority [91] then
        (case indexOf 93 authority of
           None \<Rightarrow> None
         | Some close \<Rightarrow>
             if close \<le> 1 then None
             else
               let n = take (Suc close) authority; rest = drop (Suc close) authority in
               if rest = [] then Some \<lparr>authorityName = n, authorityPort = None\<rparr>
               else if \<not> startsWith rest [58] \<or> \<not> isValidPort (drop 1 rest) then None
               else Some \<lparr>authorityName = n, authorityPort = Some (drop 1 rest)\<rparr>)
      else
        (case indexOf 58 authority of
           None \<Rightarrow> Some \<lparr>authorityName = authority, authorityPort = None\<rparr>
         | Some firstColon \<Rightarrow>
             if lastIndexOf 58 authority \<noteq> Some firstColon then None
             else if \<not> isValidPort (drop (Suc firstColon) authority) then None
             else Some \<lparr>authorityName = take firstColon authority, authorityPort = Some (drop (Suc firstColon) authority)\<rparr>))"

definition isValidAuthority :: "urlParser \<Rightarrow> jsstring \<Rightarrow> bool" where
  "isValidAuthority url authority \<longleftrightarrow>
     authorityInputAllowed authority
     \<and> (case splitAuthority authority of
          None \<Rightarrow> False
        | Some parsed \<Rightarrow>
            if startsWith (authorityName parsed) [91] \<and> endsWith (authorityName parsed) [93]
            then isValidBracketedIpv6 url (authorityName parsed)
            else isValidHostNameOrIp url (authorityName parsed))"

definition isLoopbackAuthority :: "jsstring \<Rightarrow> bool" where
  "isLoopbackAuthority authority =
     (case splitAuthority authority of
        None \<Rightarrow> False
      | Some parsed \<Rightarrow>
          (let lower = toLowerCase (authorityName parsed);
               host = (case unbracket lower of Some inner \<Rightarrow> inner | None \<Rightarrow> lower) in
           host = js ''localhost'' \<or> host = js ''::1''
           \<or> (let parts = splitAt 46 host in
                length parts = 4 \<and> parts ! 0 = js ''127'' \<and> list_all ipv4Part parts)))"

definition MAX_SIGNALING_SERVER_URL_BYTES :: nat where
  "MAX_SIGNALING_SERVER_URL_BYTES = 2048"

definition rawWebSocketAuthority :: "jsstring \<Rightarrow> jsstring option" where
  "rawWebSocketAuthority s =
     (let upTo = takeWhile (\<lambda>c. c \<notin> {47, 63, 35}) in
      if asciiFold (take 5 s) = js ''ws://'' then Some (upTo (drop 5 s))
      else if asciiFold (take 6 s) = js ''wss://'' then Some (upTo (drop 6 s))
      else None)"

definition normalizeSignalingServerUrl :: "urlParser \<Rightarrow> jsval \<Rightarrow> jsstring res" where
  "normalizeSignalingServerUrl url raw =
     (case raw of
        Str r \<Rightarrow>
          if utf8ByteLengthExceeds r MAX_SIGNALING_SERVER_URL_BYTES
          then throw ''Signaling server URL must be at most 2048 bytes.''
          else
            let trimmed = trim r in
            if length trimmed = 0 then throw ''Signaling server URL is required.''
            else if hasControlOrFormat trimmed
            then throw ''Signaling server URL must not contain control or format characters.''
            else
              let authority = rawWebSocketAuthority trimmed in
              (case url trimmed of
                 None \<Rightarrow> throw ''Signaling server URL must be a valid ws:// or wss:// URL.''
               | Some u \<Rightarrow>
                   if protocol u \<noteq> js ''ws:'' \<and> protocol u \<noteq> js ''wss:''
                   then throw ''Signaling server URL must use ws:// or wss://.''
                   else if urlUsername u \<noteq> [] \<or> urlPassword u \<noteq> []
                   then throw ''Signaling server URL must not include credentials.''
                   else if urlSearch u \<noteq> [] then throw ''Signaling server URL must not include a query string.''
                   else if urlHash u \<noteq> [] then throw ''Signaling server URL must not include a fragment.''
                   else if pathname u \<noteq> js ''/v1/ws'' then throw ''Signaling server URL path must be /v1/ws.''
                   else
                     (case authority of
                        None \<Rightarrow> throw ''Signaling server URL must include a valid hostname or IP address.''
                      | Some a \<Rightarrow>
                          if a = [] \<or> \<not> isValidAuthority url a
                          then throw ''Signaling server URL must include a valid hostname or IP address.''
                          else if protocol u = js ''ws:'' \<and> \<not> isLoopbackAuthority a
                          then throw ''Plain ws:// signaling is only allowed for localhost. Use wss:// for remote signaling servers.''
                          else ok (href u)))
      | _ \<Rightarrow> throw ''Signaling server URL must be at most 2048 bytes.'')"

section \<open>Lemmas\<close>

lemma indexOf_Some:
  "indexOf c s = Some i \<Longrightarrow> i < length s \<and> s ! i = c \<and> c \<notin> set (take i s)"
  by (induction s arbitrary: i) (auto split: if_splits)

lemma indexOf_None: "indexOf c s = None \<longleftrightarrow> c \<notin> set s"
  by (induction s) auto

lemma take_drop_nth: "i < length s \<Longrightarrow> s = take i s @ s ! i # drop (Suc i) s"
  by (simp add: id_take_nth_drop)

lemma startsWith_one: "startsWith s [c] \<longleftrightarrow> s \<noteq> [] \<and> hd s = c"
  by (cases s) (auto simp: startsWith_def)

text \<open>The text an authority is made of.\<close>

definition authorityText :: "ParsedAuthority \<Rightarrow> jsstring" where
  "authorityText p = authorityName p @ (case authorityPort p of None \<Rightarrow> [] | Some q \<Rightarrow> 58 # q)"

lemma splitAuthority_text:
  assumes "splitAuthority a = Some p"
  shows "authorityText p = a" "\<forall>q. authorityPort p = Some q \<longrightarrow> isValidPort q"
proof -
  have "authorityText p = a \<and> (\<forall>q. authorityPort p = Some q \<longrightarrow> isValidPort q)"
  proof (cases "startsWith a [91]")
    case True
    with assms obtain close where c: "indexOf 93 a = Some close" "\<not> close \<le> 1"
      by (auto simp: splitAuthority_def split: if_splits option.splits)
    let ?rest = "drop (Suc close) a"
    show ?thesis
    proof (cases "?rest = []")
      case rest: True
      have "take (Suc close) a @ ?rest = a" by (rule append_take_drop_id)
      then have "take (Suc close) a = a" using rest by (metis append_Nil2)
      moreover have "p = \<lparr>authorityName = take (Suc close) a, authorityPort = None\<rparr>"
        using assms True c rest by (auto simp: splitAuthority_def Let_def split: if_splits)
      ultimately show ?thesis by (simp add: authorityText_def)
    next
      case rest: False
      with assms True c have p: "p = \<lparr>authorityName = take (Suc close) a, authorityPort = Some (drop 1 ?rest)\<rparr>"
        "startsWith ?rest [58]" "isValidPort (drop 1 ?rest)"
        by (auto simp: splitAuthority_def Let_def simp del: drop_drop split: if_splits)
      have "?rest = 58 # drop 1 ?rest" using p(2) by (cases ?rest) (auto simp: startsWith_one)
      then have "take (Suc close) a @ 58 # drop 1 ?rest = a" by (metis append_take_drop_id)
      with p show ?thesis by (simp add: authorityText_def del: drop_drop)
    qed
  next
    case False
    show ?thesis
    proof (cases "indexOf 58 a")
      case None
      with False assms show ?thesis by (auto simp: splitAuthority_def authorityText_def split: if_splits)
    next
      case (Some i)
      with False assms have p: "p = \<lparr>authorityName = take i a, authorityPort = Some (drop (Suc i) a)\<rparr>"
        "isValidPort (drop (Suc i) a)"
        by (auto simp: splitAuthority_def split: if_splits)
      with indexOf_Some[OF Some] take_drop_nth[of i a] show ?thesis by (simp add: authorityText_def)
    qed
  qed
  then show "authorityText p = a" "\<forall>q. authorityPort p = Some q \<longrightarrow> isValidPort q" by blast+
qed

section \<open>Properties\<close>

text \<open>Splitting an authority loses nothing: name and port put together are the authority,
  and a port that is returned is a decimal number between 1 and 65535.\<close>

theorem authority_split_lossless:
  assumes "splitAuthority a = Some p"
  shows "a = authorityName p @ (case authorityPort p of None \<Rightarrow> [] | Some q \<Rightarrow> 58 # q)
     \<and> (\<forall>q. authorityPort p = Some q \<longrightarrow> digits q \<and> 1 \<le> decValue q \<and> decValue q \<le> 65535)"
  using splitAuthority_text[OF assms] by (auto simp: authorityText_def isValidPort_def)

lemma example_authority:
  "splitAuthority (js ''[::1]:8787'') = Some \<lparr>authorityName = js ''[::1]'', authorityPort = Some (js ''8787'')\<rparr>"
  by (simp add: splitAuthority_def authorityInputAllowed_def js_def codePoints_def isHighSurrogate_def
      unsafeAuthorityChar_def isControlOrFormat_ascii isSpace_def startsWith_def MAX_AUTHORITY_CHARS_def
      isValidPort_def digits_def isDigit_def decValue_def)

theorem authority_split_lossless_witness:
  "js ''[::1]:8787'' = js ''[::1]'' @ 58 # js ''8787'' \<and> digits (js ''8787'')"
  using authority_split_lossless[OF example_authority] by simp

text \<open>A signaling server URL that is accepted uses \<open>ws:\<close> or \<open>wss:\<close>, carries no
  credentials, query or fragment, and has the path \<open>/v1/ws\<close>; the authority written in it is
  valid, and is a loopback authority when the scheme is the unencrypted \<open>ws:\<close>.\<close>

theorem accepted_server_url:
  assumes "normalizeSignalingServerUrl url (Str r) = ok out"
  shows "\<exists>u a. url (trim r) = Some u \<and> out = href u \<and> rawWebSocketAuthority (trim r) = Some a
     \<and> isValidAuthority url a \<and> (protocol u = js ''wss:'' \<or> protocol u = js ''ws:'' \<and> isLoopbackAuthority a)
     \<and> urlUsername u = [] \<and> urlPassword u = [] \<and> urlSearch u = [] \<and> urlHash u = [] \<and> pathname u = js ''/v1/ws''"
  using assms by (auto simp: normalizeSignalingServerUrl_def Let_def split: if_splits option.splits)

definition exampleUrl :: urlParser where
  "exampleUrl s = Some \<lparr>protocol = js ''ws:'', urlUsername = [], urlPassword = [], hostname = js ''localhost'',
     urlPort = [], pathname = js ''/v1/ws'', urlSearch = [], urlHash = [], href = s, origin = []\<rparr>"

lemmas authority_eval = authorityInputAllowed_def js_def codePoints_def isHighSurrogate_def isAlnum_def
  unsafeAuthorityChar_def isControlOrFormat_ascii isSpace_def startsWith_def endsWith_def MAX_AUTHORITY_CHARS_def

lemma example_localhost:
  "splitAuthority (js ''localhost'') = Some \<lparr>authorityName = js ''localhost'', authorityPort = None\<rparr>"
  by (simp add: splitAuthority_def authority_eval)

lemma example_server_url:
  "normalizeSignalingServerUrl exampleUrl (Str (js ''ws://localhost/v1/ws'')) = ok (js ''ws://localhost/v1/ws'')"
proof -
  have t: "trim (js ''ws://localhost/v1/ws'') = js ''ws://localhost/v1/ws''"
    by (simp add: trim_def js_def isSpace_def)
  have h: "\<not> hasControlOrFormat (js ''ws://localhost/v1/ws'')"
    by (simp add: hasControlOrFormat_def authority_eval)
  have b: "\<not> utf8ByteLengthExceeds (js ''ws://localhost/v1/ws'') MAX_SIGNALING_SERVER_URL_BYTES"
    unfolding utf8ByteLengthExceeds_iff
    by (subst utf8ByteLength_ascii) (simp_all add: js_def MAX_SIGNALING_SERVER_URL_BYTES_def)
  have a: "rawWebSocketAuthority (js ''ws://localhost/v1/ws'') = Some (js ''localhost'')"
    by (simp add: rawWebSocketAuthority_def js_def asciiFold_def isUpperAZ_def)
  have l: "isLoopbackAuthority (js ''localhost'')"
    unfolding isLoopbackAuthority_def example_localhost
    by (simp add: js_def toLowerCase_def lowerUnit_def isUpperAZ_def unbracket_def)
  have v: "isValidAuthority exampleUrl (js ''localhost'')"
    unfolding isValidAuthority_def example_localhost isValidHostNameOrIp_def
    by (simp add: authority_eval isStrictDottedIpv4_def isRawIpv6Address_def isAmbiguousNumericHost_def digits_def
        isDigit_def isUpperAZ_def isLowerAZ_def asciiFold_def isValidHostname_def hostLabel_def)
  have ne: "length (js ''ws://localhost/v1/ws'') \<noteq> 0" "js ''localhost'' \<noteq> []" by (simp_all add: js_def)
  show ?thesis
    unfolding normalizeSignalingServerUrl_def jsval.case t Let_def a using h b l v ne by (simp add: exampleUrl_def)
qed

theorem accepted_server_url_witness:
  "rawWebSocketAuthority (trim (js ''ws://localhost/v1/ws'')) = Some (js ''localhost'') \<and> isLoopbackAuthority (js ''localhost'')"
proof -
  have a: "rawWebSocketAuthority (trim (js ''ws://localhost/v1/ws'')) = Some (js ''localhost'')"
    by (simp add: rawWebSocketAuthority_def js_def asciiFold_def isUpperAZ_def trim_def isSpace_def)
  with accepted_server_url[OF example_server_url] show ?thesis by (auto simp: exampleUrl_def)
qed

end
