(* ===== verification/Protocol.thy ===== *)
theory Protocol
  imports JsRuntime
begin

text \<open>
  The message types of the signaling protocol, \<open>src/src/shared/messages.ts\<close> (lines 5 to 60):
  roles, error codes, client and server messages. The six messages that are relayed between
  the peers of a session share their shape in both directions and are one datatype. The
  public manifest of a pair request stays an unknown value: the server runs its own checks
  on it.
\<close>

datatype Role = Sender | Receiver

datatype SignalKind = Offer | Answer | Candidate

datatype RelayBody =
    Pake jsstring
  | Confirm jsstring
  | PairRequest jsval jsstring
  | PairAccept jsstring
  | PairReject jsstring
  | Signal SignalKind jsstring

datatype ClientMessage =
    Register jsstring nat
  | Connect jsstring nat
  | Relay jsstring RelayBody
  | Bye "jsstring option" "jsstring option"

datatype ErrorCode =
    code_taken | code_not_found | expired | rate_limited | bad_protocol | bad_message
  | session_not_found | peer_unavailable | transfer_rejected

datatype ServerMessage =
    Registered jsstring nat
  | PeerJoined jsstring
  | Relayed jsstring RelayBody
  | PeerLeft jsstring string
  | IceConfig jsval
  | ErrorMessage ErrorCode string

fun signalingErrorDisplayMessage :: "ErrorCode \<Rightarrow> string" where
  "signalingErrorDisplayMessage code_taken = ''That receive code is already waiting for a sender.''"
| "signalingErrorDisplayMessage code_not_found = ''No receiver is waiting for that code.''"
| "signalingErrorDisplayMessage expired = ''Receive code expired.''"
| "signalingErrorDisplayMessage rate_limited = ''Too many signaling attempts. Try again shortly.''"
| "signalingErrorDisplayMessage bad_protocol = ''The signaling protocol is not compatible.''"
| "signalingErrorDisplayMessage bad_message = ''The signaling server rejected a protocol message.''"
| "signalingErrorDisplayMessage session_not_found = ''Session is no longer active.''"
| "signalingErrorDisplayMessage peer_unavailable = ''Peer is no longer connected.''"
| "signalingErrorDisplayMessage transfer_rejected = ''Transfer rejected.''"

end
