(* ===== verification/Messages.thy ===== *)
theory Messages
  imports Protocol Constants ManifestLimits Authority Wordlist
begin

text \<open>
  Validation of signaling messages, \<open>src/src/shared/messages.ts\<close>. The
  validators run on unknown JavaScript values; \<open>clientMessageOf\<close> reads the message out of a
  value that passed. The parsing and printing of frames is in the theories \<open>Json\<close>, \<open>Utf8\<close> and \<open>Serialize\<close>; the URL
  parser is a parameter.
\<close>

section \<open>Limits\<close>

definition MAX_SID_CHARS :: nat where [limit_defs]: "MAX_SID_CHARS = 128"
definition MAX_PAKE_BYTES :: nat where [limit_defs]: "MAX_PAKE_BYTES = 4096"
definition MAX_REASON_CHARS :: nat where [limit_defs]: "MAX_REASON_CHARS = 1000"
definition MAX_SDP_BYTES :: nat where [limit_defs]: "MAX_SDP_BYTES = 128 * 1024"
definition MAX_CANDIDATE_BYTES :: nat where [limit_defs]: "MAX_CANDIDATE_BYTES = 4096"
definition MAX_ICE_TOKEN_BYTES :: nat where [limit_defs]: "MAX_ICE_TOKEN_BYTES = 256"
definition MAX_ERROR_MESSAGE_CHARS :: nat where [limit_defs]: "MAX_ERROR_MESSAGE_CHARS = 1000"
definition MAX_ICE_SERVERS :: nat where [limit_defs]: "MAX_ICE_SERVERS = 16"
definition MAX_ICE_URLS_PER_SERVER :: nat where [limit_defs]: "MAX_ICE_URLS_PER_SERVER = 8"
definition MAX_ICE_URL_CHARS :: nat where [limit_defs]: "MAX_ICE_URL_CHARS = 512"
definition MAX_ICE_USERNAME_CHARS :: nat where [limit_defs]: "MAX_ICE_USERNAME_CHARS = 1024"
definition MAX_ICE_CREDENTIAL_CHARS :: nat where [limit_defs]: "MAX_ICE_CREDENTIAL_CHARS = 1024"
definition HMAC_SHA256_BYTES :: nat where [limit_defs]: "HMAC_SHA256_BYTES = 32"
definition MIN_ENCRYPTED_JSON_BASE64_CHARS :: nat where [limit_defs]: "MIN_ENCRYPTED_JSON_BASE64_CHARS = 20"
definition MAX_SIGNALING_JSON_DEPTH :: nat where [limit_defs]: "MAX_SIGNALING_JSON_DEPTH = 32"
definition MAX_SIGNALING_JSON_NODES :: int where [limit_defs]: "MAX_SIGNALING_JSON_NODES = 10000"

section \<open>String predicates\<close>

fun strLength :: "jsval \<Rightarrow> nat" where
  "strLength (Str s) = length s"
| "strLength _ = 0"

fun isBoundedString :: "jsval \<Rightarrow> nat \<Rightarrow> bool" where
  "isBoundedString (Str s) maxChars = (length s \<le> maxChars)"
| "isBoundedString _ maxChars = False"

fun unsafeText :: "jsval \<Rightarrow> bool" where
  "unsafeText (Str s) = hasControlOrFormat s"
| "unsafeText _ = False"

definition isSafeBoundedString :: "jsval \<Rightarrow> nat \<Rightarrow> bool" where
  "isSafeBoundedString v maxChars \<longleftrightarrow> isBoundedString v maxChars \<and> \<not> unsafeText v"

definition isSafeNonEmptyBoundedString :: "jsval \<Rightarrow> nat \<Rightarrow> bool" where
  "isSafeNonEmptyBoundedString v maxChars \<longleftrightarrow> isSafeBoundedString v maxChars \<and> strLength v > 0"

fun isSafeTokenString :: "jsval \<Rightarrow> nat \<Rightarrow> bool" where
  "isSafeTokenString (Str s) maxChars =
     (length s > 0 \<and> length s \<le> maxChars \<and> list_all (\<lambda>c. 33 \<le> c \<and> c \<le> 126) s)"
| "isSafeTokenString _ maxChars = False"

fun isByteBoundedString :: "jsval \<Rightarrow> nat \<Rightarrow> bool" where
  "isByteBoundedString (Str s) maxBytes = (utf8ByteLength s \<le> maxBytes)"
| "isByteBoundedString _ maxBytes = False"

definition isNonEmptyByteBoundedString :: "jsval \<Rightarrow> nat \<Rightarrow> bool" where
  "isNonEmptyByteBoundedString v maxBytes \<longleftrightarrow> isByteBoundedString v maxBytes \<and> strLength v > 0"

definition isSafeByteBoundedString :: "jsval \<Rightarrow> nat \<Rightarrow> bool" where
  "isSafeByteBoundedString v maxBytes \<longleftrightarrow> isByteBoundedString v maxBytes \<and> \<not> unsafeText v"

definition isSafeNonEmptyByteBoundedString :: "jsval \<Rightarrow> nat \<Rightarrow> bool" where
  "isSafeNonEmptyByteBoundedString v maxBytes \<longleftrightarrow> isSafeByteBoundedString v maxBytes \<and> strLength v > 0"

fun isSessionId :: "jsval \<Rightarrow> bool" where
  "isSessionId (Str s) =
     (length s > 0 \<and> length s \<le> MAX_SID_CHARS \<and> list_all (\<lambda>c. isAlnum c \<or> c = 95 \<or> c = 45) s)"
| "isSessionId _ = False"

fun isMimeType :: "jsval \<Rightarrow> bool" where
  "isMimeType (Str s) = (length s > 0 \<and> length s \<le> MAX_MIME_CHARS \<and> mimeTypeValue s)"
| "isMimeType _ = False"

definition optionalSessionId :: "jsval \<Rightarrow> bool" where
  "optionalSessionId v \<longleftrightarrow> v = Undefined \<or> isSessionId v"

definition optionalSafeReason :: "jsval \<Rightarrow> bool" where
  "optionalSafeReason v \<longleftrightarrow> v = Undefined \<or> isSafeBoundedString v MAX_REASON_CHARS"

definition isPairRejectReason :: "jsval \<Rightarrow> bool" where
  "isPairRejectReason v \<longleftrightarrow> v = Str (js ''user_declined'')"

definition isSignalKind :: "jsval \<Rightarrow> bool" where
  "isSignalKind v \<longleftrightarrow> v = Str (js ''offer'') \<or> v = Str (js ''answer'') \<or> v = Str (js ''candidate'')"

definition isProtocolSupported :: "nat \<Rightarrow> bool" where
  "isProtocolSupported version \<longleftrightarrow> version = PROTOCOL_VERSION"

section \<open>Base64\<close>

definition isBase64Char :: "nat \<Rightarrow> bool" where
  "isBase64Char c \<longleftrightarrow> isAlnum c \<or> c = 43 \<or> c = 47"

text \<open>\<open>CANONICAL_BASE64\<close>: quadruples, the last of which may be padded.\<close>

fun canonicalBase64 :: "jsstring \<Rightarrow> bool" where
  "canonicalBase64 [] = True"
| "canonicalBase64 [a, b, c, d] =
     (isBase64Char a \<and> isBase64Char b
      \<and> (isBase64Char c \<and> isBase64Char d \<or> c = 61 \<and> d = 61 \<or> isBase64Char c \<and> d = 61))"
| "canonicalBase64 (a # b # c # d # rest) =
     (isBase64Char a \<and> isBase64Char b \<and> isBase64Char c \<and> isBase64Char d \<and> canonicalBase64 rest)"
| "canonicalBase64 _ = False"

definition base64Index :: "nat \<Rightarrow> int" where
  "base64Index code =
     (if 65 \<le> code \<and> code \<le> 90 then int code - 65
      else if 97 \<le> code \<and> code \<le> 122 then int code - 71
      else if 48 \<le> code \<and> code \<le> 57 then int code + 4
      else if code = 43 then 62
      else if code = 47 then 63
      else -1)"

definition hasCanonicalBase64Padding :: "jsstring \<Rightarrow> bool" where
  "hasCanonicalBase64Padding s =
     (if endsWith s [61, 61] then base64Index (s ! (length s - 3)) mod 16 = 0
      else if endsWith s [61] then base64Index (s ! (length s - 2)) mod 4 = 0
      else True)"

definition base64DecodedByteLength :: "jsstring \<Rightarrow> int" where
  "base64DecodedByteLength s =
     (let padding = (if endsWith s [61, 61] then 2 else if endsWith s [61] then 1 else 0) in
      int (length s div 4) * 3 - padding)"

fun isBase64EncodedBytes :: "jsval \<Rightarrow> nat \<Rightarrow> bool" where
  "isBase64EncodedBytes (Str s) decodedBytes =
     (length s mod 4 = 0 \<and> canonicalBase64 s \<and> hasCanonicalBase64Padding s
      \<and> base64DecodedByteLength s = int decodedBytes)"
| "isBase64EncodedBytes _ decodedBytes = False"

fun isBoundedCanonicalBase64 :: "jsval \<Rightarrow> nat \<Rightarrow> nat \<Rightarrow> bool" where
  "isBoundedCanonicalBase64 (Str s) minChars maxChars =
     (length s \<ge> minChars \<and> length s \<le> maxChars \<and> length s mod 4 = 0
      \<and> canonicalBase64 s \<and> hasCanonicalBase64Padding s)"
| "isBoundedCanonicalBase64 _ minChars maxChars = False"

section \<open>Manifests\<close>

definition isOptionalUint8 :: "jsval \<Rightarrow> bool" where
  "isOptionalUint8 v \<longleftrightarrow> v = Undefined \<or> (case v of Number (NInt i) \<Rightarrow> 0 \<le> i \<and> i \<le> 255 | _ \<Rightarrow> False)"

fun isSafeManifestFileName :: "jsval \<Rightarrow> bool" where
  "isSafeManifestFileName (Str s) =
     (isSafeNonEmptyBoundedString (Str s) MAX_FILE_NAME_CHARS \<and> length (trim s) > 0
      \<and> s \<noteq> js ''.'' \<and> s \<noteq> js ''..'' \<and> \<not> list_ex isPathSeparator s)"
| "isSafeManifestFileName _ = False"

definition isManifestFile :: "jsval \<Rightarrow> bool" where
  "isManifestFile f \<longleftrightarrow>
     f \<noteq> Undefined \<and> isObject f \<and> hasOnlyKeys f [''id'', ''name'', ''size'', ''mime'']
     \<and> isOptionalUint8 (ownDataValue f ''id'') \<and> isSafeManifestFileName (ownDataValue f ''name'')
     \<and> isSafeNonNegativeInteger (ownDataValue f ''size'')
     \<and> numberInt (ownDataValue f ''size'') \<le> int MAX_FILE_BYTES
     \<and> (ownDataValue f ''mime'' = Undefined \<or> isMimeType (ownDataValue f ''mime''))"

text \<open>The loop of \<open>isManifest\<close>: the ids seen and the running total; \<open>None\<close> when it returns
  false.\<close>

fun scanManifestFiles :: "jsval list \<Rightarrow> int list \<Rightarrow> int \<Rightarrow> int option" where
  "scanManifestFiles [] ids acc = Some acc"
| "scanManifestFiles (f # rest) ids acc =
     (let fid = ownDataValue f ''id'';
          acc' = acc + numberInt (ownDataValue f ''size'') in
      if \<not> isManifestFile f then None
      else if fid \<noteq> Undefined \<and> numberInt fid \<in> set ids then None
      else if \<bar>acc'\<bar> > MAX_SAFE_INTEGER then None
      else scanManifestFiles rest (if fid \<noteq> Undefined then numberInt fid # ids else ids) acc')"

definition isManifest :: "jsval \<Rightarrow> bool" where
  "isManifest v \<longleftrightarrow>
     (let fileCount = ownDataValue v ''fileCount''; expectedTotalBytes = ownDataValue v ''totalBytes'' in
      isObject v \<and> hasOnlyKeys v [''files'', ''fileCount'', ''totalBytes'']
      \<and> (case ownDataValue v ''files'' of
           Arr es \<Rightarrow>
             isSafeNonNegativeInteger fileCount \<and> 1 \<le> numberInt fileCount
             \<and> numberInt fileCount \<le> int MAX_FILES_PER_SESSION \<and> numberInt fileCount = int (length es)
             \<and> isSafeNonNegativeInteger expectedTotalBytes
             \<and> scanManifestFiles (map dataValue es) [] 0 = Some (numberInt expectedTotalBytes)
         | _ \<Rightarrow> False))"

section \<open>ICE servers and candidates\<close>

text \<open>The group of \<open>/^(?:stun|stuns|turn|turns):([^?]+)(?:\?transport=(?:udp|tcp))?$/i\<close>.\<close>

definition iceUrlAuthority :: "jsstring \<Rightarrow> jsstring option" where
  "iceUrlAuthority u =
     (case indexOf 58 u of
        None \<Rightarrow> None
      | Some i \<Rightarrow>
          (let scheme = asciiFold (take i u); rest = drop (Suc i) u;
               auth = takeWhile (\<lambda>c. c \<noteq> 63) rest; query = dropWhile (\<lambda>c. c \<noteq> 63) rest in
           if scheme \<in> set (map js [''stun'', ''stuns'', ''turn'', ''turns'']) \<and> auth \<noteq> []
              \<and> (query = [] \<or> asciiFold query \<in> set (map js [''?transport=udp'', ''?transport=tcp'']))
           then Some auth else None))"

fun isIceUrl :: "urlParser \<Rightarrow> jsval \<Rightarrow> bool" where
  "isIceUrl url (Str u) =
     (isSafeBoundedString (Str u) MAX_ICE_URL_CHARS
      \<and> (case iceUrlAuthority u of None \<Rightarrow> False | Some a \<Rightarrow> isValidAuthority url a))"
| "isIceUrl url _ = False"

fun isTurnUrl :: "jsval \<Rightarrow> bool" where
  "isTurnUrl (Str u) \<longleftrightarrow> asciiFold (take 5 u) = js ''turn:'' \<or> asciiFold (take 6 u) = js ''turns:''"
| "isTurnUrl _ \<longleftrightarrow> False"

definition ownDataArrayValues :: "jsval pdesc option list \<Rightarrow> jsval list option" where
  "ownDataArrayValues es =
     (let vs = map dataValue es in if Undefined \<in> set vs then None else Some vs)"

definition isIceServer :: "urlParser \<Rightarrow> jsval \<Rightarrow> bool" where
  "isIceServer url v \<longleftrightarrow>
     isObject v \<and> hasOnlyKeys v [''urls'', ''username'', ''credential'', ''credentialType'']
     \<and> (let urls = ownDataValue v ''urls''; uname = ownDataValue v ''username'';
            credential = ownDataValue v ''credential''; credentialType = ownDataValue v ''credentialType'';
            urlList = (case urls of Str u \<Rightarrow> Some [urls] | Arr es \<Rightarrow> ownDataArrayValues es | _ \<Rightarrow> None);
            hasNoCredential = (uname = Undefined \<and> credential = Undefined);
            hasCompleteCredential = (isSafeNonEmptyBoundedString uname MAX_ICE_USERNAME_CHARS
              \<and> isSafeNonEmptyBoundedString credential MAX_ICE_CREDENTIAL_CHARS) in
        case urlList of
          None \<Rightarrow> False
        | Some us \<Rightarrow>
            us \<noteq> [] \<and> length us \<le> MAX_ICE_URLS_PER_SERVER \<and> list_all (isIceUrl url) us
            \<and> (hasNoCredential \<or> hasCompleteCredential)
            \<and> (\<not> list_ex isTurnUrl us \<or> hasCompleteCredential)
            \<and> (credentialType = Undefined \<or> credentialType = Str (js ''password'') \<and> hasCompleteCredential))"

definition isIceServers :: "urlParser \<Rightarrow> jsval \<Rightarrow> bool" where
  "isIceServers url v =
     (case v of
        Arr es \<Rightarrow> es \<noteq> [] \<and> length es \<le> MAX_ICE_SERVERS
          \<and> list_all (\<lambda>item. item \<noteq> Undefined \<and> isIceServer url item) (map dataValue es)
      | _ \<Rightarrow> False)"

definition isIceCandidateInit :: "jsval \<Rightarrow> bool" where
  "isIceCandidateInit v \<longleftrightarrow>
     isObject v \<and> hasOnlyKeys v [''candidate'', ''sdpMid'', ''sdpMLineIndex'', ''usernameFragment'']
     \<and> (let sdpMid = ownDataValue v ''sdpMid''; sdpMLineIndex = ownDataValue v ''sdpMLineIndex'';
            usernameFragment = ownDataValue v ''usernameFragment'';
            hasSdpMid = (sdpMid \<noteq> Null \<and> sdpMid \<noteq> Undefined);
            hasSdpMLineIndex = (sdpMLineIndex \<noteq> Null \<and> sdpMLineIndex \<noteq> Undefined) in
        isSafeNonEmptyByteBoundedString (ownDataValue v ''candidate'') MAX_CANDIDATE_BYTES
        \<and> (hasSdpMid \<or> hasSdpMLineIndex)
        \<and> (\<not> hasSdpMid \<or> isSafeTokenString sdpMid MAX_ICE_TOKEN_BYTES)
        \<and> (sdpMLineIndex = Null \<or> sdpMLineIndex = Undefined
            \<or> (case sdpMLineIndex of Number (NInt i) \<Rightarrow> 0 \<le> i \<and> i \<le> 65535 | _ \<Rightarrow> False))
        \<and> (usernameFragment = Undefined \<or> usernameFragment = Null
            \<or> isSafeTokenString usernameFragment MAX_ICE_TOKEN_BYTES))"

definition isSignalPayload :: "jsval \<Rightarrow> bool" where
  "isSignalPayload v \<longleftrightarrow>
     isObject v
     \<and> (let kind = ownDataValue v ''kind''; auth = isBase64EncodedBytes (ownDataValue v ''auth'') HMAC_SHA256_BYTES in
        if kind = Str (js ''offer'') \<or> kind = Str (js ''answer'') then
          hasOnlyKeys v [''kind'', ''sdp'', ''auth''] \<and> isNonEmptyByteBoundedString (ownDataValue v ''sdp'') MAX_SDP_BYTES \<and> auth
        else if kind = Str (js ''candidate'') then
          hasOnlyKeys v [''kind'', ''candidate'', ''auth''] \<and> isIceCandidateInit (ownDataValue v ''candidate'') \<and> auth
        else False)"

section \<open>Messages\<close>

text \<open>The cases that \<open>isClientMessage\<close> and \<open>isServerMessage\<close> share, spelled out in both
  functions of the source.\<close>

definition isRelayMessageOfType :: "string \<Rightarrow> jsval \<Rightarrow> bool" where
  "isRelayMessageOfType t v =
     (if t = ''pake'' then
        hasOnlyKeys v [''type'', ''sid'', ''data''] \<and> isSessionId (ownDataValue v ''sid'')
        \<and> isNonEmptyByteBoundedString (ownDataValue v ''data'') MAX_PAKE_BYTES
      else if t = ''confirm'' then
        hasOnlyKeys v [''type'', ''sid'', ''tag''] \<and> isSessionId (ownDataValue v ''sid'')
        \<and> isBase64EncodedBytes (ownDataValue v ''tag'') HMAC_SHA256_BYTES
      else if t = ''pair-request'' then
        hasOnlyKeys v [''type'', ''sid'', ''manifest'', ''sealedManifest''] \<and> isSessionId (ownDataValue v ''sid'')
        \<and> isManifest (ownDataValue v ''manifest'')
        \<and> isBoundedCanonicalBase64 (ownDataValue v ''sealedManifest'') MIN_ENCRYPTED_JSON_BASE64_CHARS ENCRYPTED_JSON_MAX_CHARS
      else if t = ''pair-accept'' then
        hasOnlyKeys v [''type'', ''sid'', ''auth''] \<and> isSessionId (ownDataValue v ''sid'')
        \<and> isBase64EncodedBytes (ownDataValue v ''auth'') HMAC_SHA256_BYTES
      else if t = ''pair-reject'' then
        hasOnlyKeys v [''type'', ''sid'', ''reason'', ''auth''] \<and> isSessionId (ownDataValue v ''sid'')
        \<and> isBase64EncodedBytes (ownDataValue v ''auth'') HMAC_SHA256_BYTES \<and> isPairRejectReason (ownDataValue v ''reason'')
      else if t = ''signal'' then
        hasOnlyKeys v [''type'', ''sid'', ''kind'', ''sealedSignal''] \<and> isSessionId (ownDataValue v ''sid'')
        \<and> isSignalKind (ownDataValue v ''kind'')
        \<and> isBoundedCanonicalBase64 (ownDataValue v ''sealedSignal'') MIN_ENCRYPTED_JSON_BASE64_CHARS ENCRYPTED_JSON_MAX_CHARS
      else False)"

definition relayTypes :: "string list" where
  "relayTypes = [''pake'', ''confirm'', ''pair-request'', ''pair-accept'', ''pair-reject'', ''signal'']"

text \<open>The type of a message, as one of the names the switch statements compare with.\<close>

definition messageTypeIn :: "string list \<Rightarrow> jsval \<Rightarrow> string option" where
  "messageTypeIn ts v =
     (if isObject v then find (\<lambda>t. ownDataValue v ''type'' = Str (js t)) ts else None)"

definition isClientMessage :: "jsval \<Rightarrow> bool" where
  "isClientMessage v =
     (case messageTypeIn ([''register'', ''connect''] @ relayTypes @ [''bye'']) v of
        None \<Rightarrow> False
      | Some t \<Rightarrow>
          if t = ''register'' \<or> t = ''connect'' then
            hasOnlyKeys v [''type'', ''role'', ''code'', ''protocolVersion'']
            \<and> ownDataValue v ''role'' = Str (js (if t = ''register'' then ''receiver'' else ''sender''))
            \<and> isValidRendezvous (ownDataValue v ''code'')
            \<and> isSafeNonNegativeInteger (ownDataValue v ''protocolVersion'')
          else if t = ''bye'' then
            hasOnlyKeys v [''type'', ''sid'', ''reason''] \<and> optionalSessionId (ownDataValue v ''sid'')
            \<and> optionalSafeReason (ownDataValue v ''reason'')
          else isRelayMessageOfType t v)"

definition errorCodeName :: "ErrorCode \<Rightarrow> string" where
  "errorCodeName e =
     (case e of
        code_taken \<Rightarrow> ''code_taken'' | code_not_found \<Rightarrow> ''code_not_found'' | expired \<Rightarrow> ''expired''
      | rate_limited \<Rightarrow> ''rate_limited'' | bad_protocol \<Rightarrow> ''bad_protocol'' | bad_message \<Rightarrow> ''bad_message''
      | session_not_found \<Rightarrow> ''session_not_found'' | peer_unavailable \<Rightarrow> ''peer_unavailable''
      | transfer_rejected \<Rightarrow> ''transfer_rejected'')"

definition ERROR_CODES :: "ErrorCode list" where
  "ERROR_CODES = [code_taken, code_not_found, expired, rate_limited, bad_protocol, bad_message,
     session_not_found, peer_unavailable, transfer_rejected]"

definition isErrorCode :: "jsval \<Rightarrow> bool" where
  "isErrorCode v \<longleftrightarrow> v \<in> set (map (\<lambda>e. Str (js (errorCodeName e))) ERROR_CODES)"

definition isServerMessage :: "urlParser \<Rightarrow> jsval \<Rightarrow> bool" where
  "isServerMessage url v =
     (case messageTypeIn ([''registered'', ''peer-joined''] @ relayTypes @ [''peer-left'', ''ice-config'', ''error'']) v of
        None \<Rightarrow> False
      | Some t \<Rightarrow>
          if t = ''registered'' then
            hasOnlyKeys v [''type'', ''code'', ''expiresInSec''] \<and> isValidRendezvous (ownDataValue v ''code'')
            \<and> isSafeNonNegativeInteger (ownDataValue v ''expiresInSec'')
          else if t = ''peer-joined'' then
            hasOnlyKeys v [''type'', ''sid''] \<and> isSessionId (ownDataValue v ''sid'')
          else if t = ''peer-left'' then
            hasOnlyKeys v [''type'', ''sid'', ''reason''] \<and> isSessionId (ownDataValue v ''sid'')
            \<and> optionalSafeReason (ownDataValue v ''reason'')
          else if t = ''ice-config'' then
            hasOnlyKeys v [''type'', ''iceServers''] \<and> isIceServers url (ownDataValue v ''iceServers'')
          else if t = ''error'' then
            hasOnlyKeys v [''type'', ''code'', ''message''] \<and> isErrorCode (ownDataValue v ''code'')
            \<and> isSafeNonEmptyBoundedString (ownDataValue v ''message'') MAX_ERROR_MESSAGE_CHARS
          else isRelayMessageOfType t v)"

section \<open>Reading a validated message\<close>

fun strValue :: "jsval \<Rightarrow> jsstring" where
  "strValue (Str s) = s"
| "strValue _ = []"

fun strOption :: "jsval \<Rightarrow> jsstring option" where
  "strOption (Str s) = Some s"
| "strOption _ = None"

definition signalKindOf :: "jsval \<Rightarrow> SignalKind" where
  "signalKindOf v = (if v = Str (js ''offer'') then Offer else if v = Str (js ''answer'') then Answer else Candidate)"

text \<open>The fields the server reads from a message it accepted, by type.\<close>

definition relayBodyOf :: "string \<Rightarrow> jsval \<Rightarrow> RelayBody" where
  "relayBodyOf t v =
     (if t = ''pake'' then Pake (strValue (ownDataValue v ''data''))
      else if t = ''confirm'' then Confirm (strValue (ownDataValue v ''tag''))
      else if t = ''pair-request'' then PairRequest (ownDataValue v ''manifest'') (strValue (ownDataValue v ''sealedManifest''))
      else if t = ''pair-accept'' then PairAccept (strValue (ownDataValue v ''auth''))
      else if t = ''pair-reject'' then PairReject (strValue (ownDataValue v ''auth''))
      else Signal (signalKindOf (ownDataValue v ''kind'')) (strValue (ownDataValue v ''sealedSignal'')))"

definition clientMessageOf :: "jsval \<Rightarrow> ClientMessage option" where
  "clientMessageOf v =
     (if \<not> isClientMessage v then None
      else case messageTypeIn ([''register'', ''connect''] @ relayTypes @ [''bye'']) v of
        None \<Rightarrow> None
      | Some t \<Rightarrow>
          Some
            (if t = ''register'' then
               Register (strValue (ownDataValue v ''code'')) (nat (numberInt (ownDataValue v ''protocolVersion'')))
             else if t = ''connect'' then
               Connect (strValue (ownDataValue v ''code'')) (nat (numberInt (ownDataValue v ''protocolVersion'')))
             else if t = ''bye'' then
               Bye (strOption (ownDataValue v ''sid'')) (strOption (ownDataValue v ''reason''))
             else Relay (strValue (ownDataValue v ''sid'')) (relayBodyOf t v)))"

end
