(* ===== verification/RelayPolicy.thy ===== *)
theory RelayPolicy
  imports Protocol Constants
begin

text \<open>
  The relay policy of a session, \<open>src/src/server/policy.ts\<close>: which peer may send which
  message in which phase, and how a relayed message advances the phase. The session flags
  are a record; the lemmas relate them to the trace of relayed messages: the flags say
  exactly which messages were relayed, so the order of the pairing protocol is enforced.
\<close>

section \<open>Definitions\<close>

type_synonym peerId = jsstring

record RelayPolicySession =
  sid :: jsstring
  sender :: peerId
  receiver :: peerId
  senderPakeSeen :: bool
  receiverPakeSeen :: bool
  senderConfirmed :: bool
  receiverConfirmed :: bool
  pairRequested :: bool
  pairDecided :: bool
  offerSeen :: bool
  answerSeen :: bool
  senderCandidateCount :: nat
  receiverCandidateCount :: nat

definition sessionPeerId :: "'a RelayPolicySession_scheme \<Rightarrow> peerId \<Rightarrow> Role option" where
  "sessionPeerId s p =
     (if p = [] then None
      else if sender s = p then Some Sender
      else if receiver s = p then Some Receiver
      else None)"

fun otherSessionPeerId :: "Role \<Rightarrow> Role" where
  "otherSessionPeerId Sender = Receiver"
| "otherSessionPeerId Receiver = Sender"

definition relayAllowedForRole :: "'a RelayPolicySession_scheme \<Rightarrow> peerId \<Rightarrow> RelayBody \<Rightarrow> bool" where
  "relayAllowedForRole s p m =
     (case sessionPeerId s p of
        None \<Rightarrow> False
      | Some r \<Rightarrow>
          (case m of
             PairRequest _ _ \<Rightarrow> r = Sender
           | PairAccept _ \<Rightarrow> r \<noteq> Sender
           | PairReject _ \<Rightarrow> r \<noteq> Sender
           | Signal Offer _ \<Rightarrow> r = Sender
           | Signal Answer _ \<Rightarrow> r \<noteq> Sender
           | Signal Candidate _ \<Rightarrow> True
           | Pake _ \<Rightarrow> True
           | Confirm _ \<Rightarrow> True))"

definition candidateCountForPeer :: "'a RelayPolicySession_scheme \<Rightarrow> Role \<Rightarrow> nat" where
  "candidateCountForPeer s r = (if r = Sender then senderCandidateCount s else receiverCandidateCount s)"

definition relayAllowedForPhase :: "'a RelayPolicySession_scheme \<Rightarrow> peerId \<Rightarrow> RelayBody \<Rightarrow> bool" where
  "relayAllowedForPhase s p m =
     (case sessionPeerId s p of
        None \<Rightarrow> False
      | Some r \<Rightarrow>
          (case m of
             Pake _ \<Rightarrow> \<not> pairRequested s \<and> \<not> pairDecided s
               \<and> (if r = Sender then \<not> senderPakeSeen s else \<not> receiverPakeSeen s)
           | Confirm _ \<Rightarrow> senderPakeSeen s \<and> receiverPakeSeen s \<and> \<not> pairRequested s \<and> \<not> pairDecided s
               \<and> (if r = Sender then \<not> senderConfirmed s else \<not> receiverConfirmed s)
           | PairRequest _ _ \<Rightarrow> senderConfirmed s \<and> receiverConfirmed s \<and> \<not> pairRequested s \<and> \<not> pairDecided s
           | PairAccept _ \<Rightarrow> pairRequested s \<and> \<not> pairDecided s
           | PairReject _ \<Rightarrow> pairRequested s \<and> \<not> pairDecided s
           | Signal k _ \<Rightarrow> pairDecided s \<and>
               (case k of
                  Offer \<Rightarrow> \<not> offerSeen s
                | Answer \<Rightarrow> offerSeen s \<and> \<not> answerSeen s
                | Candidate \<Rightarrow> offerSeen s
                    \<and> candidateCountForPeer s r < SIGNALING_MAX_ICE_CANDIDATES_PER_PEER)))"

definition setCandidateCount :: "'a RelayPolicySession_scheme \<Rightarrow> Role \<Rightarrow> nat \<Rightarrow> 'a RelayPolicySession_scheme" where
  "setCandidateCount s r count =
     (if count > SIGNALING_MAX_ICE_CANDIDATES_PER_PEER then s
      else if r = Sender then s\<lparr>senderCandidateCount := count\<rparr>
      else s\<lparr>receiverCandidateCount := count\<rparr>)"

definition applyRelayPhase :: "'a RelayPolicySession_scheme \<Rightarrow> peerId \<Rightarrow> RelayBody \<Rightarrow> 'a RelayPolicySession_scheme" where
  "applyRelayPhase s p m =
     (case sessionPeerId s p of
        None \<Rightarrow> s
      | Some r \<Rightarrow>
          (case m of
             Pake _ \<Rightarrow> if r = Sender then s\<lparr>senderPakeSeen := True\<rparr> else s\<lparr>receiverPakeSeen := True\<rparr>
           | Confirm _ \<Rightarrow> if r = Sender then s\<lparr>senderConfirmed := True\<rparr> else s\<lparr>receiverConfirmed := True\<rparr>
           | PairRequest _ _ \<Rightarrow> s\<lparr>pairRequested := True\<rparr>
           | PairAccept _ \<Rightarrow> s\<lparr>pairDecided := True\<rparr>
           | PairReject _ \<Rightarrow> s
           | Signal Offer _ \<Rightarrow> s\<lparr>offerSeen := True\<rparr>
           | Signal Answer _ \<Rightarrow> s\<lparr>answerSeen := True\<rparr>
           | Signal Candidate _ \<Rightarrow> setCandidateCount s r (candidateCountForPeer s r + 1)))"

definition sessionHasConfirmedPake :: "'a RelayPolicySession_scheme \<Rightarrow> bool" where
  "sessionHasConfirmedPake s \<longleftrightarrow> senderConfirmed s \<and> receiverConfirmed s"

definition sessionBeforePairAcceptance :: "'a RelayPolicySession_scheme \<Rightarrow> bool" where
  "sessionBeforePairAcceptance s \<longleftrightarrow> \<not> pairDecided s"

definition receiverCanRetryPrePair :: "'a RelayPolicySession_scheme \<Rightarrow> peerId \<Rightarrow> bool" where
  "receiverCanRetryPrePair s p \<longleftrightarrow> receiver s = p \<and> sessionBeforePairAcceptance s"

definition senderDisconnectCanRestoreReceiver :: "'a RelayPolicySession_scheme \<Rightarrow> peerId \<Rightarrow> bool" where
  "senderDisconnectCanRestoreReceiver s p \<longleftrightarrow> sender s = p \<and> sessionBeforePairAcceptance s"

section \<open>The flags follow the protocol order\<close>

definition phaseInv :: "'a RelayPolicySession_scheme \<Rightarrow> bool" where
  "phaseInv s \<longleftrightarrow>
     (senderConfirmed s \<or> receiverConfirmed s \<longrightarrow> senderPakeSeen s \<and> receiverPakeSeen s)
     \<and> (pairRequested s \<longrightarrow> senderConfirmed s \<and> receiverConfirmed s)
     \<and> (pairDecided s \<longrightarrow> pairRequested s)
     \<and> (offerSeen s \<longrightarrow> pairDecided s)
     \<and> (answerSeen s \<longrightarrow> offerSeen s)
     \<and> (0 < senderCandidateCount s \<or> 0 < receiverCandidateCount s \<longrightarrow> offerSeen s)
     \<and> senderCandidateCount s \<le> SIGNALING_MAX_ICE_CANDIDATES_PER_PEER
     \<and> receiverCandidateCount s \<le> SIGNALING_MAX_ICE_CANDIDATES_PER_PEER"

lemmas policy_defs = relayAllowedForRole_def relayAllowedForPhase_def applyRelayPhase_def
  candidateCountForPeer_def setCandidateCount_def

lemma applyRelayPhase_frame [simp]:
  "sid (applyRelayPhase s p m) = sid s" "sender (applyRelayPhase s p m) = sender s"
  "receiver (applyRelayPhase s p m) = receiver s"
  "RelayPolicySession.more (applyRelayPhase s p m) = RelayPolicySession.more s"
  by (auto simp: policy_defs split: option.splits RelayBody.splits SignalKind.splits)

lemma applyRelayPhase_phaseInv [inv_intros]:
  "phaseInv s \<Longrightarrow> relayAllowedForPhase s p m \<Longrightarrow> phaseInv (applyRelayPhase s p m)"
  by (auto simp: phaseInv_def policy_defs split: option.splits RelayBody.splits SignalKind.splits if_splits)

section \<open>Traces of relayed messages\<close>

text \<open>A message is relayed when role and phase allow it; a trace is relayed when each message
  is, from the state its predecessors leave.\<close>

definition relayAllowed :: "'a RelayPolicySession_scheme \<Rightarrow> peerId \<Rightarrow> RelayBody \<Rightarrow> bool" where
  "relayAllowed s p m \<longleftrightarrow> relayAllowedForRole s p m \<and> relayAllowedForPhase s p m"

fun relayTrace :: "'a RelayPolicySession_scheme \<Rightarrow> (peerId \<times> RelayBody) list \<Rightarrow> 'a RelayPolicySession_scheme option" where
  "relayTrace s [] = Some s"
| "relayTrace s ((p, m) # tr) =
     (if relayAllowed s p m then relayTrace (applyRelayPhase s p m) tr else None)"

definition freshSession :: "'a RelayPolicySession_scheme \<Rightarrow> bool" where
  "freshSession s \<longleftrightarrow> sender s \<noteq> [] \<and> receiver s \<noteq> [] \<and> sender s \<noteq> receiver s
     \<and> \<not> senderPakeSeen s \<and> \<not> receiverPakeSeen s \<and> \<not> senderConfirmed s \<and> \<not> receiverConfirmed s
     \<and> \<not> pairRequested s \<and> \<not> pairDecided s \<and> \<not> offerSeen s \<and> \<not> answerSeen s
     \<and> senderCandidateCount s = 0 \<and> receiverCandidateCount s = 0"

text \<open>What a trace contains.\<close>

fun isPake :: "RelayBody \<Rightarrow> bool" where "isPake (Pake _) = True" | "isPake _ = False"
fun isConfirm :: "RelayBody \<Rightarrow> bool" where "isConfirm (Confirm _) = True" | "isConfirm _ = False"
fun isPairRequest :: "RelayBody \<Rightarrow> bool" where "isPairRequest (PairRequest _ _) = True" | "isPairRequest _ = False"
fun isPairAccept :: "RelayBody \<Rightarrow> bool" where "isPairAccept (PairAccept _) = True" | "isPairAccept _ = False"
fun isSignal :: "SignalKind \<Rightarrow> RelayBody \<Rightarrow> bool" where "isSignal k (Signal k' _) = (k = k')" | "isSignal k _ = False"

definition occurrences :: "(RelayBody \<Rightarrow> bool) \<Rightarrow> peerId \<Rightarrow> (peerId \<times> RelayBody) list \<Rightarrow> nat" where
  "occurrences P p tr = length (filter (\<lambda>(q, m). q = p \<and> P m) tr)"

lemma occurrences_simps [simp]:
  "occurrences P p [] = 0"
  "occurrences P p (tr @ [(q, m)]) = occurrences P p tr + (if q = p \<and> P m then 1 else 0)"
  by (simp_all add: occurrences_def)

text \<open>The state after a trace records exactly what the trace contains: each handshake
  message at most once per peer, and the candidate counters count.\<close>

definition recorded :: "'a RelayPolicySession_scheme \<Rightarrow> (peerId \<times> RelayBody) list \<Rightarrow> bool" where
  "recorded s tr \<longleftrightarrow>
     occurrences isPake (sender s) tr = of_bool (senderPakeSeen s)
     \<and> occurrences isPake (receiver s) tr = of_bool (receiverPakeSeen s)
     \<and> occurrences isConfirm (sender s) tr = of_bool (senderConfirmed s)
     \<and> occurrences isConfirm (receiver s) tr = of_bool (receiverConfirmed s)
     \<and> occurrences isPairRequest (sender s) tr = of_bool (pairRequested s)
     \<and> occurrences isPairRequest (receiver s) tr = 0
     \<and> occurrences isPairAccept (receiver s) tr = of_bool (pairDecided s)
     \<and> occurrences isPairAccept (sender s) tr = 0
     \<and> occurrences (isSignal Offer) (sender s) tr = of_bool (offerSeen s)
     \<and> occurrences (isSignal Offer) (receiver s) tr = 0
     \<and> occurrences (isSignal Answer) (receiver s) tr = of_bool (answerSeen s)
     \<and> occurrences (isSignal Answer) (sender s) tr = 0
     \<and> occurrences (isSignal Candidate) (sender s) tr = senderCandidateCount s
     \<and> occurrences (isSignal Candidate) (receiver s) tr = receiverCandidateCount s"

lemma relayTrace_snoc:
  "relayTrace s (tr @ [(p, m)]) =
     (case relayTrace s tr of
        None \<Rightarrow> None
      | Some s' \<Rightarrow> if relayAllowed s' p m then Some (applyRelayPhase s' p m) else None)"
  by (induction s tr rule: relayTrace.induct) auto

lemma sessionPeerId_cases:
  assumes "relayAllowed s p m"
  obtains "p = sender s" "p \<noteq> []" "sessionPeerId s p = Some Sender"
    | "p = receiver s" "p \<noteq> []" "sender s \<noteq> receiver s" "sessionPeerId s p = Some Receiver"
  using assms by (auto simp: relayAllowed_def relayAllowedForRole_def sessionPeerId_def split: if_splits)

lemma recorded_step:
  assumes rec: "recorded s tr" and al: "relayAllowed s p m" and ne: "sender s \<noteq> receiver s"
  shows "recorded (applyRelayPhase s p m) (tr @ [(p, m)])"
  using al
proof (cases rule: sessionPeerId_cases)
  case 1
  show ?thesis
  proof (cases m)
    case (Signal k d)
    with 1 rec al ne show ?thesis
      by (cases k) (simp_all add: recorded_def relayAllowed_def policy_defs)
  qed (use 1 rec al ne in \<open>simp_all add: recorded_def relayAllowed_def policy_defs\<close>)
next
  case 2
  show ?thesis
  proof (cases m)
    case (Signal k d)
    with 2 rec al ne show ?thesis
      by (cases k) (simp_all add: recorded_def relayAllowed_def policy_defs)
  qed (use 2 rec al ne in \<open>simp_all add: recorded_def relayAllowed_def policy_defs\<close>)
qed

lemma relayTrace_recorded:
  assumes "freshSession s" "relayTrace s tr = Some s'"
  shows "recorded s' tr \<and> phaseInv s' \<and> sender s' = sender s \<and> receiver s' = receiver s"
  using assms(2)
proof (induction tr arbitrary: s' rule: rev_induct)
  case Nil
  with assms(1) show ?case by (auto simp: freshSession_def recorded_def phaseInv_def)
next
  case (snoc pm tr)
  obtain p m where pm: "pm = (p, m)" by (cases pm)
  with snoc.prems obtain s1 where s1: "relayTrace s tr = Some s1" "relayAllowed s1 p m" "s' = applyRelayPhase s1 p m"
    by (auto simp: relayTrace_snoc split: option.splits if_splits)
  with snoc.IH[of s1] assms(1) pm show ?case
    using recorded_step[of s1 tr p m] by (auto simp: freshSession_def relayAllowed_def intro: applyRelayPhase_phaseInv)
qed

lemma relayTrace_split:
  "relayTrace s (xs @ ys) = (case relayTrace s xs of None \<Rightarrow> None | Some s' \<Rightarrow> relayTrace s' ys)"
  by (induction s xs rule: relayTrace.induct) auto

text \<open>What must have been relayed before a message, by whom.\<close>

fun handshakeBefore :: "peerId \<Rightarrow> peerId \<Rightarrow> (peerId \<times> RelayBody) list \<Rightarrow> peerId \<Rightarrow> RelayBody \<Rightarrow> bool" where
  "handshakeBefore a b pre p (Pake _) = (p = a \<or> p = b)"
| "handshakeBefore a b pre p (Confirm _) =
     ((p = a \<or> p = b) \<and> occurrences isPake a pre = 1 \<and> occurrences isPake b pre = 1)"
| "handshakeBefore a b pre p (PairRequest _ _) =
     (p = a \<and> occurrences isConfirm a pre = 1 \<and> occurrences isConfirm b pre = 1)"
| "handshakeBefore a b pre p (PairAccept _) = (p = b \<and> occurrences isPairRequest a pre = 1)"
| "handshakeBefore a b pre p (PairReject _) = (p = b \<and> occurrences isPairRequest a pre = 1)"
| "handshakeBefore a b pre p (Signal Offer _) = (p = a \<and> occurrences isPairAccept b pre = 1)"
| "handshakeBefore a b pre p (Signal Answer _) =
     (p = b \<and> occurrences isPairAccept b pre = 1 \<and> occurrences (isSignal Offer) a pre = 1)"
| "handshakeBefore a b pre p (Signal Candidate _) =
     ((p = a \<or> p = b) \<and> occurrences isPairAccept b pre = 1 \<and> occurrences (isSignal Offer) a pre = 1)"

lemma allowed_handshakeBefore:
  assumes "recorded s pre" "phaseInv s" "relayAllowed s p m"
  shows "handshakeBefore (sender s) (receiver s) pre p m"
  using assms(3)
proof (cases rule: sessionPeerId_cases)
  case 1
  with assms show ?thesis
    by (cases "(sender s, receiver s, pre, p, m)" rule: handshakeBefore.cases)
      (simp_all add: recorded_def relayAllowed_def policy_defs phaseInv_def)
next
  case 2
  with assms show ?thesis
    by (cases "(sender s, receiver s, pre, p, m)" rule: handshakeBefore.cases)
      (simp_all add: recorded_def relayAllowed_def policy_defs phaseInv_def)
qed

section \<open>Properties\<close>

text \<open>C17: In a trace the server relays from a fresh session, every message comes after the
  messages it depends on, from the right peers: a confirmation after both PAKE messages, the
  pair request (from the sender) after both confirmations, the decision (from the receiver)
  after the pair request, the offer (from the sender) after the acceptance, the answer (from
  the receiver) and every candidate after the acceptance and the offer. No signaling is relayed
  before the receiver accepted, and nothing before both sides confirmed the shared code.\<close>

theorem relay_order:
  assumes fresh: "freshSession s" and tr: "relayTrace s (pre @ (p, m) # post) = Some s'"
  shows "handshakeBefore (sender s) (receiver s) pre p m"
proof -
  from tr obtain s1 where s1: "relayTrace s pre = Some s1" "relayAllowed s1 p m"
    by (auto simp: relayTrace_split split: option.splits if_splits)
  with relayTrace_recorded[OF fresh s1(1)] allowed_handshakeBefore[of s1 pre p m]
  show ?thesis by simp
qed

definition exampleSession :: RelayPolicySession where
  "exampleSession = \<lparr>sid = [0], sender = [1], receiver = [2], senderPakeSeen = False,
     receiverPakeSeen = False, senderConfirmed = False, receiverConfirmed = False, pairRequested = False,
     pairDecided = False, offerSeen = False, answerSeen = False, senderCandidateCount = 0,
     receiverCandidateCount = 0\<rparr>"

definition exampleHandshake :: "(peerId \<times> RelayBody) list" where
  "exampleHandshake =
     [([2], Pake []), ([1], Pake []), ([1], Confirm []), ([2], Confirm []),
      ([1], PairRequest Undefined []), ([2], PairAccept []), ([1], Signal Offer [])]"

lemma example_fresh: "freshSession exampleSession" "sender exampleSession = [1]" "receiver exampleSession = [2]"
  by (simp_all add: freshSession_def exampleSession_def)

lemma example_relayed: "relayTrace exampleSession exampleHandshake \<noteq> None"
  by code_simp

theorem relay_order_witness:
  "handshakeBefore [1] [2] (take 6 exampleHandshake) [1] (Signal Offer [])"
proof -
  obtain s' where "relayTrace exampleSession exampleHandshake = Some s'" using example_relayed by blast
  moreover have "exampleHandshake = take 6 exampleHandshake @ ([1], Signal Offer []) # []"
    by (simp add: exampleHandshake_def)
  ultimately have "relayTrace exampleSession (take 6 exampleHandshake @ ([1], Signal Offer []) # []) = Some s'" by simp
  from relay_order[OF example_fresh(1) this] show ?thesis by (simp only: example_fresh)
qed

text \<open>In a relayed trace each peer's PAKE message, confirmation, pair request, acceptance,
  offer and answer occur at most once (the wrong role's not at all), and neither peer gets more
  than 512 candidates through; the counters of the session are these numbers of occurrences.\<close>

theorem relay_at_most_once:
  assumes fresh: "freshSession s" and tr: "relayTrace s tr = Some s'" and p: "p = sender s \<or> p = receiver s"
    and P: "P \<in> {isPake, isConfirm, isPairRequest, isPairAccept, isSignal Offer, isSignal Answer}"
  shows "occurrences P p tr \<le> 1 \<and> occurrences (isSignal Candidate) p tr \<le> 512"
proof -
  have r: "recorded s' tr" "phaseInv s'" "sender s' = sender s" "receiver s' = receiver s"
    using relayTrace_recorded[OF fresh tr] by blast+
  have c: "occurrences (isSignal Candidate) p tr \<le> 512"
    using r p by (elim disjE) (simp_all add: recorded_def phaseInv_def limit_defs)
  from p have "occurrences P p tr \<le> 1"
  proof
    assume "p = sender s"
    with r P show ?thesis by (elim insertE emptyE) (simp_all add: recorded_def)
  next
    assume "p = receiver s"
    with r P show ?thesis by (elim insertE emptyE) (simp_all add: recorded_def)
  qed
  with c show ?thesis by blast
qed

theorem relay_at_most_once_witness:
  "occurrences isPake [2] exampleHandshake \<le> 1 \<and> occurrences (isSignal Candidate) [2] exampleHandshake \<le> 512"
proof -
  obtain s' where "relayTrace exampleSession exampleHandshake = Some s'" using example_relayed by blast
  from relay_at_most_once[OF example_fresh(1) this, of "[2]" isPake] show ?thesis by (simp add: example_fresh)
qed

end
