(* ===== verification/ServerParts.thy ===== *)
theory ServerParts
  imports Protocol Constants RateLimit
begin

text \<open>
  The small decision modules of the server: capacity limits (\<open>src/src/server/capacity.ts\<close>),
  WebSocket close reasons (\<open>close-reason.ts\<close>), the attempts a receive code allows
  (\<open>prepair-attempts.ts\<close>), session expiry (\<open>session-expiry.ts\<close>), availability of a waiting
  receiver (\<open>waiting.ts\<close>) and the back-pressure test of a socket
  (\<open>src/src/shared/signaling-backpressure.ts\<close>). Numbers are JavaScript numbers where the code
  tests for non-integers.
\<close>

section \<open>Capacity\<close>

definition safeBelow :: "jsnum \<Rightarrow> jsnum \<Rightarrow> bool" where
  "safeBelow a b \<longleftrightarrow> (case (safeNat a, safeNat b) of (Some x, Some y) \<Rightarrow> x < y | _ \<Rightarrow> False)"

definition canRegisterWaitingCode :: "jsnum \<Rightarrow> jsnum \<Rightarrow> bool \<Rightarrow> bool" where
  "canRegisterWaitingCode waitingCodes maxWaitingCodes replacingOwnCode \<longleftrightarrow>
     replacingOwnCode \<or> safeBelow waitingCodes maxWaitingCodes"

definition canCreateSession :: "jsnum \<Rightarrow> jsnum \<Rightarrow> bool" where
  "canCreateSession activeSessions maxSessions \<longleftrightarrow> safeBelow activeSessions maxSessions"

definition staticFileWithinLimit :: "jsnum \<Rightarrow> jsnum \<Rightarrow> bool" where
  "staticFileWithinLimit bytes maxBytes \<longleftrightarrow>
     (case (safeNat bytes, safeNat maxBytes) of (Some x, Some y) \<Rightarrow> x \<le> y | _ \<Rightarrow> False)"

section \<open>Close reasons\<close>

definition MAX_CLOSE_REASON_BYTES :: nat where
  "MAX_CLOSE_REASON_BYTES = 123"

definition unsafeCloseReasonCode :: "nat \<Rightarrow> bool" where
  "unsafeCloseReasonCode code \<longleftrightarrow> code \<le> 0x1f \<or> code = 0x7f \<or> (0x202a \<le> code \<and> code \<le> 0x202e)
     \<or> (0x2066 \<le> code \<and> code \<le> 0x2069)"

definition closeReasonChar :: "jsstring \<Rightarrow> jsstring" where
  "closeReasonChar c = (if c = [] \<or> unsafeCloseReasonCode (codePointOf c) then [32] else c)"

fun closeReasonChars :: "jsstring list \<Rightarrow> nat \<Rightarrow> jsstring" where
  "closeReasonChars [] bytes = []"
| "closeReasonChars (c # cs) bytes =
     (let clean = closeReasonChar c; len = utf8ByteLength clean in
      if bytes + len > MAX_CLOSE_REASON_BYTES then []
      else clean @ closeReasonChars cs (bytes + len))"

definition websocketCloseReason :: "jsval \<Rightarrow> jsstring res" where
  "websocketCloseReason reason =
     (case reason of
        Str s \<Rightarrow> ok (closeReasonChars (strChars s) 0)
      | _ \<Rightarrow> throw ''WebSocket close reason must be a string.'')"

section \<open>Attempts before pairing\<close>

definition initialPrePairAttempts :: nat where
  "initialPrePairAttempts = RECEIVER_MAX_PREPAIR_ATTEMPTS"

definition isValidRemainingPrePairAttempts :: "nat \<Rightarrow> bool" where
  "isValidRemainingPrePairAttempts remaining \<longleftrightarrow> 0 < remaining \<and> remaining \<le> RECEIVER_MAX_PREPAIR_ATTEMPTS"

definition consumePrePairAttempt :: "nat \<Rightarrow> nat res" where
  "consumePrePairAttempt remaining =
     (if \<not> isValidRemainingPrePairAttempts remaining then throw ''No pre-pair attempts remain.''
      else ok (remaining - 1))"

definition canRestorePrePairCode :: "nat \<Rightarrow> bool" where
  "canRestorePrePairCode remaining = isValidRemainingPrePairAttempts remaining"

section \<open>Expiry\<close>

text \<open>Times are milliseconds as \<open>Date.now\<close> gives them: finite, so the checks for
  infinite times pass.\<close>

definition initialSessionExpiresAt :: "nat \<Rightarrow> nat" where
  "initialSessionExpiresAt now = now + PAKE_TIMEOUT_MS"

definition nextSessionExpiresAt :: "nat \<Rightarrow> nat \<Rightarrow> RelayBody \<Rightarrow> nat" where
  "nextSessionExpiresAt current now m =
     (case m of
        PairRequest _ _ \<Rightarrow> now + PAIR_TIMEOUT_MS
      | PairAccept _ \<Rightarrow> now + PAIR_TIMEOUT_MS
      | _ \<Rightarrow> current)"

definition remainingExpirySeconds :: "nat \<Rightarrow> nat \<Rightarrow> nat" where
  "remainingExpirySeconds expiresAt now = nat (max 0 ((int expiresAt - int now) div 1000))"

section \<open>Sockets\<close>

datatype ReadyState = CONNECTING | OPEN | CLOSING | CLOSED

definition waitingReceiverAvailable :: "nat \<Rightarrow> nat \<Rightarrow> ReadyState \<Rightarrow> bool" where
  "waitingReceiverAvailable expiresAt now st \<longleftrightarrow> now < expiresAt \<and> st = OPEN"

text \<open>The buffered amount of a socket is read from the WebSocket library: \<open>None\<close> when the
  getter throws.\<close>

fun finiteLeq :: "jsnum \<Rightarrow> jsnum \<Rightarrow> bool" where
  "finiteLeq (NInt a) (NInt b) = (a \<le> b)"
| "finiteLeq (NInt a) (NFrac b) = (of_int a \<le> b)"
| "finiteLeq (NFrac a) (NInt b) = (a \<le> of_int b)"
| "finiteLeq (NFrac a) (NFrac b) = (a \<le> b)"
| "finiteLeq _ _ = False"

definition signalingBackpressureExceeded :: "jsval option \<Rightarrow> jsval \<Rightarrow> bool" where
  "signalingBackpressureExceeded bufferedAmount maxBufferedBytes =
     (case maxBufferedBytes of
        Number m \<Rightarrow>
          if \<not> isFinite m \<or> \<not> finiteLeq (NInt 0) m then True
          else (case bufferedAmount of
                  Some (Number b) \<Rightarrow> \<not> isFinite b \<or> \<not> finiteLeq b m
                | _ \<Rightarrow> True)
      | _ \<Rightarrow> True)"

section \<open>Lemmas\<close>

lemma safeNat_int [simp]: "int n \<le> MAX_SAFE_INTEGER \<Longrightarrow> safeNat (NInt (int n)) = Some n"
  by simp

lemma safeBelow_imp_less: "safeBelow (NInt (int a)) (NInt (int b)) \<Longrightarrow> a < b"
  by (auto simp: safeBelow_def split: if_splits)

lemma consumePrePairAttempt_ok:
  "consumePrePairAttempt n = ok k \<longleftrightarrow> 0 < n \<and> n \<le> 3 \<and> k = n - 1"
  by (auto simp: consumePrePairAttempt_def isValidRemainingPrePairAttempts_def limit_defs)

lemma canRestorePrePairCode_iff: "canRestorePrePairCode n \<longleftrightarrow> 0 < n \<and> n \<le> 3"
  by (simp add: canRestorePrePairCode_def isValidRemainingPrePairAttempts_def limit_defs)

lemma closeReasonChars_bytes:
  "bytes \<le> 123 \<Longrightarrow> bytes + utf8ByteLength (closeReasonChars cs bytes) \<le> 123"
proof (induction cs arbitrary: bytes)
  case (Cons c cs)
  show ?case
  proof (cases "bytes + utf8ByteLength (closeReasonChar c) > 123")
    case True with Cons.prems show ?thesis by (simp add: MAX_CLOSE_REASON_BYTES_def Let_def)
  next
    case False
    with Cons.IH[of "bytes + utf8ByteLength (closeReasonChar c)"]
      utf8ByteLength_append_le[of "closeReasonChar c" "closeReasonChars cs (bytes + utf8ByteLength (closeReasonChar c))"]
    show ?thesis by (simp add: MAX_CLOSE_REASON_BYTES_def Let_def)
  qed
qed simp

lemma closeReasonChars_identity:
  assumes "list_all (\<lambda>c. \<not> unsafeCloseReasonCode (codePointOf c) \<and> c \<noteq> []) cs"
    "bytes + sum_list (map utf8ByteLength cs) \<le> 123"
  shows "closeReasonChars cs bytes = concat cs"
  using assms
  by (induction cs arbitrary: bytes) (simp_all add: closeReasonChar_def MAX_CLOSE_REASON_BYTES_def Let_def)

section \<open>Properties\<close>

text \<open>A close reason never exceeds the 123 bytes a WebSocket close frame can carry, and a
  reason that fits and has no control or bidirectional-override character is passed unchanged.\<close>

theorem close_reason_fits:
  "\<exists>r. websocketCloseReason (Str s) = ok r \<and> utf8ByteLength r \<le> 123
     \<and> (utf8ByteLength s \<le> 123 \<and> list_all (\<lambda>c. \<not> unsafeCloseReasonCode c) (codePoints s) \<longrightarrow> r = s)"
proof -
  have "r = s" if "r = closeReasonChars (strChars s) 0" "utf8ByteLength s \<le> 123"
    "list_all (\<lambda>c. \<not> unsafeCloseReasonCode c) (codePoints s)" for r
  proof -
    have "list_all (\<lambda>c. \<not> unsafeCloseReasonCode (codePointOf c) \<and> c \<noteq> []) (strChars s)"
      using that(3) strChars_nonempty by (auto simp: codePoints_def list_all_iff)
    then show ?thesis
      using closeReasonChars_identity[of "strChars s" 0] that utf8ByteLength_strChars[of s] by simp
  qed
  then show ?thesis using closeReasonChars_bytes[of 0 "strChars s"] by (simp add: websocketCloseReason_def)
qed

theorem close_reason_fits_witness:
  "websocketCloseReason (Str (js ''closed'')) = ok (js ''closed'')"
  using close_reason_fits[of "js ''closed''"]
  by (simp add: websocketCloseReason_def js_def codePoints_def utf8ByteLength_Cons2 unitBytes_def
      isHighSurrogate_def unsafeCloseReasonCode_def closeReasonChar_def Let_def MAX_CLOSE_REASON_BYTES_def)

end
