(* ===== verification/SignalingServer.thy ===== *)
theory SignalingServer
  imports Messages RelayPolicy ServerParts PublicManifest "HOL-Library.AList"
begin

text \<open>
  The signaling server, \<open>src/src/server/index.ts\<close>: connections, registration of receive
  codes, pairing, relaying, expiry and clean-up. \<open>Server\<close> holds the module's maps; a peer
  object lives in the heap \<open>peers\<close> under its id, and sessions and waiting codes refer to peers
  by id. The maps \<open>codes\<close> and \<open>sessions\<close> are association lists in insertion order.

  The WebSocket library is the record \<open>Env\<close>: the outcome of the n-th call into it is read
  from \<open>sendOutcome\<close>, \<open>closeResult\<close>, \<open>terminateResult\<close> and \<open>pingThrows\<close>. A send can fail,
  which cleans the peer up, which sends to its partner, and so on; the helpers take the send
  function as an argument and \<open>send\<close> closes the recursion on fuel. \<open>aborted\<close> is set when the
  fuel runs out or an exception would leave a handler; the theory ServerInvariant shows
  that this never happens. The clock is read once per event. \<open>created\<close> and \<open>history\<close> only
  record what happened.
\<close>

section \<open>State\<close>

record Peer =
  readyState :: ReadyState
  ip :: jsstring
  role :: "Role option"
  peerSid :: "jsstring option"
  peerCode :: "jsstring option"
  badMessages :: nat
  messageTimes :: "jsnum list"
  idleTimer :: bool
  closeTimer :: bool
  awaitingHeartbeatPong :: bool
  connectionReleased :: bool

record WaitingCode =
  waitingKey :: jsstring
  waitingReceiver :: peerId
  waitingExpiresAt :: nat
  waitingAttempts :: nat

record Session = RelayPolicySession +
  sessionCode :: jsstring
  codeExpiresAt :: nat
  sessionExpiresAt :: nat
  remainingAttempts :: nat

datatype SendOutcome = BufferFull | SendThrows | BufferFullAfter | Delivered

record Env =
  sendOutcome :: "nat \<Rightarrow> SendOutcome"
  closeResult :: "nat \<Rightarrow> ReadyState option"
  terminateResult :: "nat \<Rightarrow> ReadyState"
  pingThrows :: "nat \<Rightarrow> bool"
  turnRest :: bool
  iceServersValue :: jsval

datatype Wire = Frame ServerMessage | CloseFrame nat jsstring

datatype HistoryEntry = RegisteredCode peerId jsstring | ClaimedCode peerId jsstring

record Server =
  peers :: "peerId \<Rightarrow> Peer"
  created :: "peerId list"
  connected :: "peerId list"
  codes :: "(jsstring \<times> WaitingCode) list"
  sessions :: "(jsstring \<times> Session) list"
  rateLimits :: "jsstring hits"
  iceHttpRateLimits :: "jsstring hits"
  staticHttpRateLimits :: "jsstring hits"
  websocketConnectionRateLimits :: "jsstring hits"
  turnIssueRateLimits :: "jsstring hits"
  activeConnections :: "jsstring \<rightharpoonup> nat"
  shutdownStarted :: bool
  wire :: "(peerId \<times> Wire) list"
  calls :: nat
  clock :: nat
  history :: "HistoryEntry list"
  aborted :: bool

definition updPeer :: "peerId \<Rightarrow> (Peer \<Rightarrow> Peer) \<Rightarrow> Server \<Rightarrow> Server" where
  "updPeer p f S = S\<lparr>peers := (peers S)(p := f (peers S p))\<rparr>"

definition codesGet :: "Server \<Rightarrow> jsstring \<Rightarrow> WaitingCode option" where
  "codesGet S k = map_of (codes S) k"

definition codesSet :: "jsstring \<Rightarrow> WaitingCode \<Rightarrow> Server \<Rightarrow> Server" where
  "codesSet k w S = S\<lparr>codes := AList.update k w (codes S)\<rparr>"

definition codesDelete :: "jsstring \<Rightarrow> Server \<Rightarrow> Server" where
  "codesDelete k S = S\<lparr>codes := AList.delete k (codes S)\<rparr>"

definition sessionsGet :: "Server \<Rightarrow> jsstring \<Rightarrow> Session option" where
  "sessionsGet S k = map_of (sessions S) k"

definition sessionsSet :: "jsstring \<Rightarrow> Session \<Rightarrow> Server \<Rightarrow> Server" where
  "sessionsSet k s S = S\<lparr>sessions := AList.update k s (sessions S)\<rparr>"

definition sessionsDelete :: "jsstring \<Rightarrow> Server \<Rightarrow> Server" where
  "sessionsDelete k S = S\<lparr>sessions := AList.delete k (sessions S)\<rparr>"

definition waitingCodeOwnedBy :: "WaitingCode option \<Rightarrow> peerId \<Rightarrow> bool" where
  "waitingCodeOwnedBy entry p = (case entry of None \<Rightarrow> False | Some w \<Rightarrow> waitingReceiver w = p)"

section \<open>Connections and sockets\<close>

definition addActiveConnection :: "peerId \<Rightarrow> Server \<Rightarrow> Server" where
  "addActiveConnection p S =
     (let x = ip (peers S p); n = (case activeConnections S x of None \<Rightarrow> 0 | Some n \<Rightarrow> n) in
      S\<lparr>activeConnections := (activeConnections S)(x \<mapsto> n + 1)\<rparr>)"

definition clearIdleTimer :: "peerId \<Rightarrow> Server \<Rightarrow> Server" where
  "clearIdleTimer p S = updPeer p (\<lambda>q. q\<lparr>idleTimer := False\<rparr>) S"

definition clearCloseTimer :: "peerId \<Rightarrow> Server \<Rightarrow> Server" where
  "clearCloseTimer p S = updPeer p (\<lambda>q. q\<lparr>closeTimer := False\<rparr>) S"

definition releaseActiveConnection :: "bool \<Rightarrow> peerId \<Rightarrow> Server \<Rightarrow> Server" where
  "releaseActiveConnection keepCloseTimer p S =
     (if connectionReleased (peers S p) then S
      else
        let S1 = updPeer p (\<lambda>q. q\<lparr>connectionReleased := True\<rparr>) S;
            S2 = S1\<lparr>connected := filter (\<lambda>q. q \<noteq> p) (connected S1)\<rparr>;
            S3 = clearIdleTimer p S2;
            S4 = (if keepCloseTimer then S3 else clearCloseTimer p S3);
            x = ip (peers S4 p);
            n = (case activeConnections S4 x of None \<Rightarrow> 0 | Some n \<Rightarrow> n) in
        S4\<lparr>activeConnections :=
             (if n \<le> 1 then (activeConnections S4)(x := None) else (activeConnections S4)(x \<mapsto> n - 1))\<rparr>)"

definition clearPeerSessionState :: "peerId \<Rightarrow> Server \<Rightarrow> Server" where
  "clearPeerSessionState p S = updPeer p (\<lambda>q. q\<lparr>peerSid := None, peerCode := None, role := None\<rparr>) S"

definition wireCloseReason :: "nat \<Rightarrow> string \<Rightarrow> string" where
  "wireCloseReason code reason =
     (if code = 1001 then ''server shutdown'' else if code = 1008 then ''policy violation'' else ''closed'')"

definition scheduleCloseTermination :: "peerId \<Rightarrow> Server \<Rightarrow> Server" where
  "scheduleCloseTermination p S =
     (if closeTimer (peers S p) then S else updPeer p (\<lambda>q. q\<lparr>closeTimer := True\<rparr>) S)"

definition wsTerminate :: "Env \<Rightarrow> peerId \<Rightarrow> Server \<Rightarrow> Server" where
  "wsTerminate env p S =
     (updPeer p (\<lambda>q. q\<lparr>readyState := terminateResult env (calls S)\<rparr>) S)\<lparr>calls := Suc (calls S)\<rparr>"

definition closePeerWithCode :: "Env \<Rightarrow> peerId \<Rightarrow> nat \<Rightarrow> string \<Rightarrow> Server \<Rightarrow> Server" where
  "closePeerWithCode env p code reason S =
     (if readyState (peers S p) \<in> {OPEN, CONNECTING, CLOSING} then
        (case (websocketCloseReason (Str (js (wireCloseReason code reason))), closeResult env (calls S)) of
           (Inr r, Some st) \<Rightarrow>
             scheduleCloseTermination p
               ((updPeer p (\<lambda>q. q\<lparr>readyState := st\<rparr>) S)
                  \<lparr>calls := Suc (calls S), wire := wire S @ [(p, CloseFrame code r)]\<rparr>)
         | _ \<Rightarrow> wsTerminate env p (S\<lparr>calls := Suc (calls S)\<rparr>))
      else S)"

definition closePeer :: "Env \<Rightarrow> peerId \<Rightarrow> string \<Rightarrow> Server \<Rightarrow> Server" where
  "closePeer env p reason S = closePeerWithCode env p 1000 reason S"

definition closePeerAndRelease :: "Env \<Rightarrow> peerId \<Rightarrow> string \<Rightarrow> Server \<Rightarrow> Server" where
  "closePeerAndRelease env p reason S = releaseActiveConnection True p (closePeer env p reason S)"

definition closePeerWithCodeAndRelease :: "Env \<Rightarrow> peerId \<Rightarrow> nat \<Rightarrow> string \<Rightarrow> Server \<Rightarrow> Server" where
  "closePeerWithCodeAndRelease env p code reason S =
     releaseActiveConnection True p (closePeerWithCode env p code reason S)"

section \<open>Ending and restoring sessions\<close>

text \<open>Each operation takes the send function it uses.\<close>

type_synonym sendFun = "peerId \<Rightarrow> ServerMessage \<Rightarrow> Server \<Rightarrow> Server \<times> bool"

definition peerLeftReason :: "string \<Rightarrow> string" where
  "peerLeftReason reason =
     (if reason \<in> {''complete'', ''cancelled'', ''bye''} then reason else ''closed'')"

definition notifyPeerLeft :: "sendFun \<Rightarrow> Session \<Rightarrow> peerId option \<Rightarrow> string \<Rightarrow> Server \<Rightarrow> Server" where
  "notifyPeerLeft tell s leaving reason S =
     fold (\<lambda>p S. if leaving = Some p then S else fst (tell p (PeerLeft (sid s) (peerLeftReason reason)) S))
       [sender s, receiver s] S"

definition sessionMember :: "Session \<Rightarrow> Role \<Rightarrow> peerId" where
  "sessionMember s r = (case r of Sender \<Rightarrow> sender s | Receiver \<Rightarrow> receiver s)"

definition endSession :: "Env \<Rightarrow> sendFun \<Rightarrow> Session \<Rightarrow> string \<Rightarrow> Role option \<Rightarrow> Server \<Rightarrow> Server" where
  "endSession env tell s reason leavingPeerId S =
     (let S1 = sessionsDelete (sid s) S;
          leaving = map_option (sessionMember s) leavingPeerId;
          remaining = map_option (\<lambda>r. sessionMember s (otherSessionPeerId r)) leavingPeerId;
          S2 = notifyPeerLeft tell s leaving reason S1;
          S3 = clearPeerSessionState (receiver s) (clearPeerSessionState (sender s) S2) in
      case remaining of None \<Rightarrow> S3 | Some p \<Rightarrow> closePeerAndRelease env p reason S3)"

definition closeSessionPeers :: "Env \<Rightarrow> Session \<Rightarrow> string \<Rightarrow> Server \<Rightarrow> Server" where
  "closeSessionPeers env s reason S =
     closePeerAndRelease env (receiver s) reason
      (closePeerAndRelease env (sender s) reason
       (clearPeerSessionState (receiver s)
        (clearPeerSessionState (sender s) (sessionsDelete (sid s) S))))"

definition expireReceiverAfterPrePairAttempts :: "Env \<Rightarrow> sendFun \<Rightarrow> Session \<Rightarrow> WaitingCode option \<Rightarrow> Server \<Rightarrow> Server" where
  "expireReceiverAfterPrePairAttempts env tell s existing S =
     (let S1 = (case existing of None \<Rightarrow> S | Some w \<Rightarrow> codesDelete (waitingKey w) S);
          S2 = notifyPeerLeft tell s (Some (sender s)) ''too many invalid pairing attempts'' S1;
          S3 = clearPeerSessionState (receiver s) (clearPeerSessionState (sender s) S2);
          S4 = fst (tell (receiver s) (ErrorMessage expired ''Receive code expired after too many invalid pairing attempts.'') S3) in
      closePeerAndRelease env (receiver s) ''too many invalid pairing attempts''
       (closePeerAndRelease env (sender s) ''too many invalid pairing attempts'' S4))"

definition sendRestoredRegistration :: "Env \<Rightarrow> sendFun \<Rightarrow> Session \<Rightarrow> nat \<Rightarrow> Server \<Rightarrow> Server" where
  "sendRestoredRegistration env tell s expiresAt S =
     (let (S1, delivered) = tell (receiver s) (Registered (sessionCode s) (remainingExpirySeconds expiresAt (clock S))) S in
      if delivered then S1
      else
        let S2 = (if waitingCodeOwnedBy (codesGet S1 (sessionCode s)) (receiver s)
                  then codesDelete (sessionCode s) S1 else S1) in
        closePeerAndRelease env (receiver s) ''receiver unavailable'' (clearPeerSessionState (receiver s) S2))"

text \<open>The receiver goes back to waiting: no session id, role and code as registered.\<close>

definition resetReceiver :: "Session \<Rightarrow> Server \<Rightarrow> Server" where
  "resetReceiver s S =
     updPeer (receiver s) (\<lambda>q. q\<lparr>peerSid := None, role := Some Receiver, peerCode := Some (sessionCode s)\<rparr>)
       (clearPeerSessionState (sender s) S)"

definition restoreWaitingReceiver :: "Env \<Rightarrow> sendFun \<Rightarrow> Session \<Rightarrow> string \<Rightarrow> bool \<Rightarrow> Server \<Rightarrow> Server" where
  "restoreWaitingReceiver env tell s reason notifyReceiver S =
     (case codesGet S (sessionCode s) of
        Some existing \<Rightarrow>
          (let S1 = sessionsDelete (sid s) S in
           if waitingReceiver existing = receiver s then
             let S2 = resetReceiver s S1;
                 existing' = existing\<lparr>waitingAttempts := min (waitingAttempts existing) (remainingAttempts s)\<rparr>;
                 S3 = codesSet (sessionCode s) existing' S2 in
             if \<not> canRestorePrePairCode (waitingAttempts existing')
             then expireReceiverAfterPrePairAttempts env tell s (Some existing') S3
             else
               let S4 = (if notifyReceiver then notifyPeerLeft tell s (Some (sender s)) reason S3 else S3);
                   S5 = closePeerAndRelease env (sender s) reason S4 in
               sendRestoredRegistration env tell s (waitingExpiresAt existing) S5
           else
             closeSessionPeers env s ''rendezvous conflict'' (notifyPeerLeft tell s None ''rendezvous_conflict'' S1))
      | None \<Rightarrow>
          (let S1 = resetReceiver s (sessionsDelete (sid s) S) in
           if \<not> canRestorePrePairCode (remainingAttempts s)
           then expireReceiverAfterPrePairAttempts env tell s None S1
           else
             let S2 = codesSet (sessionCode s)
                        \<lparr>waitingKey = sessionCode s, waitingReceiver = receiver s,
                         waitingExpiresAt = codeExpiresAt s, waitingAttempts = remainingAttempts s\<rparr> S1;
                 S3 = (if notifyReceiver then notifyPeerLeft tell s (Some (sender s)) reason S2 else S2);
                 S4 = closePeerAndRelease env (sender s) reason S3 in
             sendRestoredRegistration env tell s (codeExpiresAt s) S4))"

definition cleanupPeer :: "Env \<Rightarrow> sendFun \<Rightarrow> peerId \<Rightarrow> string \<Rightarrow> Server \<Rightarrow> Server" where
  "cleanupPeer env tell p reason S =
     (let S1 = (case peerCode (peers S p) of
                  Some c \<Rightarrow> if waitingCodeOwnedBy (codesGet S c) p then codesDelete c S else S
                | None \<Rightarrow> S) in
      case peerSid (peers S1 p) of
        None \<Rightarrow> S1
      | Some k \<Rightarrow>
          (case sessionsGet S1 k of
             None \<Rightarrow> S1
           | Some s \<Rightarrow>
               if senderDisconnectCanRestoreReceiver s p
               then restoreWaitingReceiver env tell s ''disconnected'' True S1
               else (case sessionPeerId s p of
                       None \<Rightarrow> S1
                     | Some r \<Rightarrow> endSession env tell s reason (Some r) S1)))"

definition closePeerForSendFailure :: "Env \<Rightarrow> sendFun \<Rightarrow> peerId \<Rightarrow> string \<Rightarrow> Server \<Rightarrow> Server" where
  "closePeerForSendFailure env tell p reason S = closePeerAndRelease env p reason (cleanupPeer env tell p reason S)"

text \<open>The send function: the nested clean-up uses one unit of fuel less.\<close>

definition transmit :: "peerId \<Rightarrow> ServerMessage \<Rightarrow> Server \<Rightarrow> Server" where
  "transmit p m S = S\<lparr>wire := wire S @ [(p, Frame m)]\<rparr>"

primrec send :: "Env \<Rightarrow> nat \<Rightarrow> sendFun" where
  "send env 0 = (\<lambda>p m S. (S\<lparr>aborted := True\<rparr>, False))"
| "send env (Suc fuel) = (\<lambda>p m S.
     if readyState (peers S p) \<noteq> OPEN then (S, False)
     else
       let S1 = S\<lparr>calls := Suc (calls S)\<rparr> in
       (case sendOutcome env (calls S) of
          BufferFull \<Rightarrow> (closePeerForSendFailure env (send env fuel) p ''signaling backpressure'' S1, False)
        | SendThrows \<Rightarrow> (closePeerForSendFailure env (send env fuel) p ''send_error'' S1, False)
        | BufferFullAfter \<Rightarrow>
            (closePeerForSendFailure env (send env fuel) p ''signaling backpressure'' (transmit p m S1), False)
        | Delivered \<Rightarrow> (transmit p m S1, True)))"

text \<open>A nested clean-up first deletes a session, so one unit of fuel per session is enough.\<close>

definition sendMessage :: "Env \<Rightarrow> sendFun" where
  "sendMessage env p m S = send env (Suc (length (sessions S))) p m S"

definition fail :: "Env \<Rightarrow> peerId \<Rightarrow> ErrorCode \<Rightarrow> string \<Rightarrow> Server \<Rightarrow> Server" where
  "fail env p code message S = fst (sendMessage env p (ErrorMessage code message) S)"

end
