(* ===== verification/ServerHandlers.thy ===== *)
theory ServerHandlers
  imports SignalingServer
begin

text \<open>
  The handlers of the signaling server, \<open>src/src/server/index.ts\<close>: registration, connection,
  relaying, retries, malformed messages, rate limits, heartbeats, the expiry sweep and
  shutdown, and the events that run them. A handler that creates a session gets the fresh
  session id (\<open>nanoid\<close>) as an argument; the value of a message event is the parsed text
  frame.
\<close>

section \<open>Rate limits\<close>

definition hitRateLimit :: "Env \<Rightarrow> peerId \<Rightarrow> Server \<Rightarrow> Server \<times> bool" where
  "hitRateLimit env p S =
     (let (allowed, hits) = hitFixedWindowRateLimit (rateLimits S) (ip (peers S p)) (num (clock S)) (num 60000) (num 60);
          S1 = S\<lparr>rateLimits := hits\<rparr> in
      if allowed then (S1, True)
      else (fail env p rate_limited ''Too many attempts. Try again shortly.'' S1, False))"

definition hitMessageLimit :: "Env \<Rightarrow> peerId \<Rightarrow> Server \<Rightarrow> Server \<times> bool" where
  "hitMessageLimit env p S =
     (let (allowed, hits) = recordFixedWindowHit (messageTimes (peers S p)) (num (clock S)) (num 60000)
            (num SIGNALING_MAX_MESSAGES_PER_MINUTE);
          S1 = updPeer p (\<lambda>q. q\<lparr>messageTimes := hits\<rparr>) S in
      if allowed then (S1, True)
      else
        (closePeerWithCodeAndRelease env p 1008 ''signaling message rate limit''
           (fail env p rate_limited ''Too many signaling messages. Try again shortly.'' S1), False))"

section \<open>Malformed messages\<close>

definition rejectMalformedPrePairSenderMessage :: "Env \<Rightarrow> peerId \<Rightarrow> string \<Rightarrow> Server \<Rightarrow> Server \<times> bool" where
  "rejectMalformedPrePairSenderMessage env p message S =
     (case Option.bind (peerSid (peers S p)) (sessionsGet S) of
        None \<Rightarrow> (S, False)
      | Some s \<Rightarrow>
          if \<not> senderDisconnectCanRestoreReceiver s p then (S, False)
          else (restoreWaitingReceiver env (sendMessage env) s ''invalid sender pre-pair message'' True
                  (fail env p bad_message message S), True))"

definition badMessage :: "Env \<Rightarrow> peerId \<Rightarrow> string \<Rightarrow> Server \<Rightarrow> Server" where
  "badMessage env p message S =
     (let (S1, handled) = rejectMalformedPrePairSenderMessage env p message S in
      if handled then S1
      else
        let S2 = updPeer p (\<lambda>q. q\<lparr>badMessages := badMessages q + 1\<rparr>) S1;
            S3 = fail env p bad_message message S2 in
        if badMessages (peers S3 p) \<ge> SIGNALING_MAX_BAD_MESSAGES
        then closePeerWithCodeAndRelease env p 1008 ''too many malformed messages'' S3
        else S3)"

section \<open>Registering and connecting\<close>

definition peerBecomes :: "peerId \<Rightarrow> Role \<Rightarrow> jsstring \<Rightarrow> Server \<Rightarrow> Server" where
  "peerBecomes p r code S = clearIdleTimer p (updPeer p (\<lambda>q. q\<lparr>role := Some r, peerCode := Some code\<rparr>) S)"

definition dropWaitingCode :: "Env \<Rightarrow> jsstring \<Rightarrow> peerId \<Rightarrow> string \<Rightarrow> string \<Rightarrow> Server \<Rightarrow> Server" where
  "dropWaitingCode env code r message reason S =
     closePeerAndRelease env r reason
       (fail env r expired message (clearPeerSessionState r (codesDelete code S)))"

definition registerCode :: "Env \<Rightarrow> peerId \<Rightarrow> jsstring \<Rightarrow> Server \<Rightarrow> Server" where
  "registerCode env p code S =
     (let existingCode = codesGet S code; now = clock S in
      case existingCode of
        Some existing \<Rightarrow>
          if waitingCodeOwnedBy existingCode p then
            (if \<not> waitingReceiverAvailable (waitingExpiresAt existing) now (readyState (peers S p))
             then dropWaitingCode env code p ''Code expired before a sender connected.'' ''expired'' S
             else fst (sendMessage env p (Registered code (remainingExpirySeconds (waitingExpiresAt existing) now))
                         (peerBecomes p Receiver code S)))
          else fail env p code_taken ''That code is already waiting for a sender.'' S
      | None \<Rightarrow>
          (let replacingPreviousOwnCode =
                 (case peerCode (peers S p) of
                    None \<Rightarrow> False
                  | Some c \<Rightarrow> c \<noteq> code \<and> waitingCodeOwnedBy (codesGet S c) p) in
           if \<not> canRegisterWaitingCode (num (length (codes S))) (num SIGNALING_MAX_WAITING_CODES) replacingPreviousOwnCode
           then fail env p rate_limited ''Signaling server is at capacity. Try again shortly.'' S
           else
             let S1 = (case peerCode (peers S p) of
                         Some c \<Rightarrow> if replacingPreviousOwnCode then codesDelete c S else S
                       | None \<Rightarrow> S);
                 S2 = peerBecomes p Receiver code S1;
                 S3 = codesSet code \<lparr>waitingKey = code, waitingReceiver = p, waitingExpiresAt = now + CODE_TTL_MS,
                                     waitingAttempts = initialPrePairAttempts\<rparr> S2;
                 S4 = S3\<lparr>history := history S3 @ [RegisteredCode p code]\<rparr> in
             fst (sendMessage env p (Registered code (CODE_TTL_MS div 1000)) S4)))"

definition register :: "Env \<Rightarrow> peerId \<Rightarrow> jsstring \<Rightarrow> nat \<Rightarrow> Server \<Rightarrow> Server" where
  "register env p rawCode version S0 =
     (let (S, allowed) = hitRateLimit env p S0 in
      if \<not> allowed then S
      else if peerSid (peers S p) \<noteq> None then fail env p bad_message ''Peer is already paired.'' S
      else if role (peers S p) = Some Sender then fail env p bad_message ''Peer is already registered as a sender.'' S
      else if \<not> isProtocolSupported version then fail env p bad_protocol ''Only protocolVersion 10 is supported.'' S
      else
        let code = normalizeCode (Str rawCode) in
        if \<not> isValidRendezvous (Str code) then fail env p bad_message ''Rendezvous id is invalid.'' S
        else registerCode env p code S)"

definition newSession :: "jsstring \<Rightarrow> jsstring \<Rightarrow> WaitingCode \<Rightarrow> peerId \<Rightarrow> nat \<Rightarrow> nat \<Rightarrow> Session" where
  "newSession k code waiting p remaining now =
     \<lparr>sid = k, sender = p, receiver = waitingReceiver waiting, senderPakeSeen = False, receiverPakeSeen = False,
      senderConfirmed = False, receiverConfirmed = False, pairRequested = False, pairDecided = False,
      offerSeen = False, answerSeen = False, senderCandidateCount = 0, receiverCandidateCount = 0,
      sessionCode = code, codeExpiresAt = waitingExpiresAt waiting, sessionExpiresAt = initialSessionExpiresAt now,
      remainingAttempts = remaining\<rparr>"

text \<open>Taking the waiting code and pairing the two peers.\<close>

definition claimCode :: "Env \<Rightarrow> peerId \<Rightarrow> jsstring \<Rightarrow> WaitingCode \<Rightarrow> nat \<Rightarrow> jsstring \<Rightarrow> Server \<Rightarrow> Server" where
  "claimCode env p code waiting remaining newSid S =
     (let r = waitingReceiver waiting;
          S1 = codesDelete code S;
          S2 = (case peerCode (peers S1 p) of
                  Some c \<Rightarrow> if waitingCodeOwnedBy (codesGet S1 c) p then codesDelete c S1 else S1
                | None \<Rightarrow> S1);
          S3 = peerBecomes p Sender code (updPeer p (\<lambda>q. q\<lparr>peerSid := Some newSid\<rparr>) S2);
          S4 = updPeer r (\<lambda>q. q\<lparr>peerSid := Some newSid\<rparr>) S3;
          s = newSession newSid code waiting p remaining (clock S);
          S5 = sessionsSet newSid s S4;
          S6 = S5\<lparr>history := history S5 @ [ClaimedCode r code]\<rparr>;
          (S7, toReceiver) = sendMessage env r (PeerJoined newSid) S6 in
      if \<not> toReceiver then
        fail env p peer_unavailable ''Receiver is no longer connected.''
          (closePeerAndRelease env r ''receiver unavailable''
            (clearPeerSessionState r (clearPeerSessionState p (sessionsDelete newSid S7))))
      else
        let (S8, toSender) = sendMessage env p (PeerJoined newSid) S7 in
        if \<not> toSender then restoreWaitingReceiver env (sendMessage env) s ''sender unavailable'' True S8 else S8)"

definition connectCode :: "Env \<Rightarrow> peerId \<Rightarrow> jsstring \<Rightarrow> jsstring \<Rightarrow> Server \<Rightarrow> Server" where
  "connectCode env p code newSid S =
     (case codesGet S code of
        None \<Rightarrow> fail env p code_not_found ''No receiver is waiting for that code.'' S
      | Some waiting \<Rightarrow>
          let r = waitingReceiver waiting in
          if \<not> waitingReceiverAvailable (waitingExpiresAt waiting) (clock S) (readyState (peers S r)) then
            fail env p code_not_found ''No receiver is waiting for that code.''
              (dropWaitingCode env code r ''Code expired before a sender connected.'' ''expired'' S)
          else if \<not> canRestorePrePairCode (waitingAttempts waiting) then
            fail env p code_not_found ''No receiver is waiting for that code.''
              (dropWaitingCode env code r ''Receive code expired after too many invalid pairing attempts.''
                ''too many invalid pairing attempts'' S)
          else if r = p then badMessage env p ''Cannot connect to your own receiver code.'' S
          else if \<not> canCreateSession (num (length (sessions S))) (num SIGNALING_MAX_SESSIONS)
          then fail env p rate_limited ''Signaling server is at capacity. Try again shortly.'' S
          else (case consumePrePairAttempt (waitingAttempts waiting) of
                  Inl e \<Rightarrow> S\<lparr>aborted := True\<rparr>
                | Inr remaining \<Rightarrow> claimCode env p code waiting remaining newSid S))"

definition connect :: "Env \<Rightarrow> peerId \<Rightarrow> jsstring \<Rightarrow> nat \<Rightarrow> jsstring \<Rightarrow> Server \<Rightarrow> Server" where
  "connect env p rawCode version newSid S0 =
     (let (S, allowed) = hitRateLimit env p S0 in
      if \<not> allowed then S
      else if peerSid (peers S p) \<noteq> None then fail env p bad_message ''Peer is already paired.'' S
      else if role (peers S p) = Some Receiver then fail env p bad_message ''Peer is already registered as a receiver.'' S
      else if \<not> isProtocolSupported version then fail env p bad_protocol ''Only protocolVersion 10 is supported.'' S
      else
        let code = normalizeCode (Str rawCode) in
        if \<not> isValidRendezvous (Str code) then fail env p bad_message ''Rendezvous id is invalid.'' S
        else connectCode env p code newSid S)"

section \<open>Relaying\<close>

definition rejectRelayMessage :: "Env \<Rightarrow> Session \<Rightarrow> peerId \<Rightarrow> string \<Rightarrow> Server \<Rightarrow> Server" where
  "rejectRelayMessage env s p message S =
     (if senderDisconnectCanRestoreReceiver s p then
        restoreWaitingReceiver env (sendMessage env) s ''invalid sender pre-pair message'' True
          (fail env p bad_message message S)
      else badMessage env p message S)"

definition relayDeliveryFailed :: "Env \<Rightarrow> Session \<Rightarrow> peerId \<Rightarrow> peerId \<Rightarrow> string \<Rightarrow> bool \<Rightarrow> Server \<Rightarrow> Server" where
  "relayDeliveryFailed env s p target reason restoreReceiverOnSenderFailure S =
     (let S1 = fail env p peer_unavailable ''Peer is no longer connected.'' S;
          targetPeerId = sessionPeerId s target in
      if restoreReceiverOnSenderFailure \<and> targetPeerId = Some Sender \<and> sessionBeforePairAcceptance s
      then restoreWaitingReceiver env (sendMessage env) s reason True S1
      else endSession env (sendMessage env) s reason targetPeerId S1)"

datatype SendIceConfigResult = Sent | RateLimited | SendFailed

definition sendIceConfig :: "Env \<Rightarrow> peerId \<Rightarrow> Server \<Rightarrow> Server \<times> SendIceConfigResult" where
  "sendIceConfig env p S =
     (let (allowed, hits) =
            (if turnRest env
             then hitTurnCredentialIssueRateLimit (turnIssueRateLimits S) (ip (peers S p)) (num (clock S))
             else (True, turnIssueRateLimits S));
          S1 = S\<lparr>turnIssueRateLimits := hits\<rparr> in
      if \<not> allowed then (S1, RateLimited)
      else
        let (S2, delivered) = sendMessage env p (IceConfig (iceServersValue env)) S1 in
        (S2, if delivered then Sent else SendFailed))"

definition closeSessionForTurnRateLimit :: "Env \<Rightarrow> Session \<Rightarrow> Server \<Rightarrow> Server" where
  "closeSessionForTurnRateLimit env s S =
     closeSessionPeers env s ''turn credential rate limit''
       (fail env (receiver s) rate_limited ''TURN credential issuance is rate limited. Try again shortly.''
         (fail env (sender s) rate_limited ''TURN credential issuance is rate limited. Try again shortly.'' S))"

definition advanceSession :: "peerId \<Rightarrow> RelayBody \<Rightarrow> nat \<Rightarrow> Session \<Rightarrow> Session" where
  "advanceSession p m now s =
     (let s' = applyRelayPhase s p m in s'\<lparr>sessionExpiresAt := nextSessionExpiresAt (sessionExpiresAt s') now m\<rparr>)"

definition recordRelayed :: "Session \<Rightarrow> peerId \<Rightarrow> RelayBody \<Rightarrow> Server \<Rightarrow> Server" where
  "recordRelayed s p m S =
     S\<lparr>sessions := AList.map_entry (sid s) (advanceSession p m (clock S)) (sessions S)\<rparr>"

definition relayAccept :: "Env \<Rightarrow> Session \<Rightarrow> peerId \<Rightarrow> peerId \<Rightarrow> RelayBody \<Rightarrow> Server \<Rightarrow> Server" where
  "relayAccept env s p target m S =
     (let (S1, senderIce) = sendIceConfig env (sender s) S in
      case senderIce of
        RateLimited \<Rightarrow> closeSessionForTurnRateLimit env s S1
      | SendFailed \<Rightarrow> relayDeliveryFailed env s p target ''peer unavailable'' True S1
      | Sent \<Rightarrow>
          (let (S2, delivered) = sendMessage env target (Relayed (sid s) m) S1 in
           if \<not> delivered then relayDeliveryFailed env s p target ''peer unavailable'' True S2
           else
             let (S3, receiverIce) = sendIceConfig env (receiver s) S2 in
             case receiverIce of
               RateLimited \<Rightarrow> closeSessionForTurnRateLimit env s S3
             | SendFailed \<Rightarrow> closeSessionPeers env s ''receiver unavailable'' S3
             | Sent \<Rightarrow> recordRelayed s p m S3))"

fun isPairReject :: "RelayBody \<Rightarrow> bool" where
  "isPairReject (PairReject _) = True"
| "isPairReject _ = False"

definition relayForward :: "Env \<Rightarrow> Session \<Rightarrow> peerId \<Rightarrow> peerId \<Rightarrow> RelayBody \<Rightarrow> Server \<Rightarrow> Server" where
  "relayForward env s p target m S =
     (let terminalReject = isPairReject m;
          reason = (if terminalReject then ''pair rejected'' else ''peer unavailable'') in
      if readyState (peers S target) \<noteq> OPEN
      then relayDeliveryFailed env s p target reason (\<not> terminalReject) S
      else if isPairAccept m then relayAccept env s p target m S
      else
        let (S1, delivered) = sendMessage env target (Relayed (sid s) m) S in
        if \<not> delivered then relayDeliveryFailed env s p target reason (\<not> terminalReject) S1
        else
          let S2 = recordRelayed s p m S1 in
          if terminalReject then closeSessionPeers env s ''pair rejected'' (sessionsDelete (sid s) S2) else S2)"

fun pairRequestManifest :: "RelayBody \<Rightarrow> jsval option" where
  "pairRequestManifest (PairRequest manifest _) = Some manifest"
| "pairRequestManifest _ = None"

definition manifestWithinLimits :: "jsval \<Rightarrow> bool" where
  "manifestWithinLimits manifest = isOk (assertManifestWithinLimits manifest)"

definition relay :: "Env \<Rightarrow> peerId \<Rightarrow> jsstring \<Rightarrow> RelayBody \<Rightarrow> Server \<Rightarrow> Server" where
  "relay env p k m S =
     (case sessionsGet S k of
        None \<Rightarrow> fail env p session_not_found ''Session is no longer active.'' S
      | Some s \<Rightarrow>
          if sender s \<noteq> p \<and> receiver s \<noteq> p then fail env p session_not_found ''Session is no longer active.'' S
          else if \<exists>manifest \<in> set_option (pairRequestManifest m). \<not> manifestWithinLimits manifest
          then rejectRelayMessage env s p ''Manifest exceeds transfer limits.'' S
          else if \<exists>manifest \<in> set_option (pairRequestManifest m). \<not> publicPairRequestManifestIsRedacted manifest
          then rejectRelayMessage env s p ''Pair request manifest must be redacted.'' S
          else if \<not> relayAllowedForRole s p m
          then rejectRelayMessage env s p ''Message is not valid for this peer role.'' S
          else if \<not> relayAllowedForPhase s p m
          then rejectRelayMessage env s p ''Message is not valid in this session phase.'' S
          else relayForward env s p (if sender s = p then receiver s else sender s) m S)"

section \<open>Leaving and retrying\<close>

definition peerVisibleByeReason :: "jsstring option \<Rightarrow> string" where
  "peerVisibleByeReason reason =
     (if reason = Some (js ''complete'') then ''complete''
      else if reason = Some (js ''cancelled'') then ''cancelled'' else ''bye'')"

definition retryReceiver :: "Env \<Rightarrow> peerId \<Rightarrow> Server \<Rightarrow> Server \<times> bool" where
  "retryReceiver env p S =
     (case peerSid (peers S p) of
        None \<Rightarrow>
          (case peerCode (peers S p) of
             None \<Rightarrow> (S, False)
           | Some code \<Rightarrow>
               (case codesGet S code of
                  None \<Rightarrow> (S, False)
                | Some waiting \<Rightarrow>
                    if waitingReceiver waiting \<noteq> p then (S, False)
                    else if \<not> waitingReceiverAvailable (waitingExpiresAt waiting) (clock S) (readyState (peers S p))
                    then (dropWaitingCode env code p ''Code expired before a sender connected.'' ''expired'' S, True)
                    else (fst (sendMessage env p
                            (Registered code (remainingExpirySeconds (waitingExpiresAt waiting) (clock S))) S), True)))
      | Some k \<Rightarrow>
          (case sessionsGet S k of
             None \<Rightarrow> (S, False)
           | Some s \<Rightarrow>
               if \<not> receiverCanRetryPrePair s p then (S, False)
               else (restoreWaitingReceiver env (sendMessage env) s ''receiver retry'' False S, True)))"

definition handleMessage :: "Env \<Rightarrow> peerId \<Rightarrow> ClientMessage \<Rightarrow> jsstring \<Rightarrow> Server \<Rightarrow> Server" where
  "handleMessage env p m newSid S =
     (case m of
        Register code version \<Rightarrow> register env p code version S
      | Connect code version \<Rightarrow> connect env p code version newSid S
      | Relay k body \<Rightarrow> relay env p k body S
      | Bye k reason \<Rightarrow>
          (let (S1, retried) = (if reason = Some (js ''prepair_retry'') then retryReceiver env p S else (S, False)) in
           if retried then S1
           else closePeerAndRelease env p ''bye'' (cleanupPeer env (sendMessage env) p (peerVisibleByeReason reason) S1)))"

section \<open>Events\<close>

definition peerAcceptsClientMessages :: "Server \<Rightarrow> peerId \<Rightarrow> bool" where
  "peerAcceptsClientMessages S p \<longleftrightarrow>
     readyState (peers S p) = OPEN \<and> \<not> closeTimer (peers S p) \<and> \<not> connectionReleased (peers S p)"

definition onMessage :: "Env \<Rightarrow> peerId \<Rightarrow> jsval \<Rightarrow> jsstring \<Rightarrow> Server \<Rightarrow> Server" where
  "onMessage env p parsed newSid S =
     (if \<not> peerAcceptsClientMessages S p then S
      else
        let (S1, allowed) = hitMessageLimit env p S in
        if \<not> allowed then S1
        else case clientMessageOf parsed of
          None \<Rightarrow> badMessage env p ''Malformed signaling message.'' S1
        | Some m \<Rightarrow> handleMessage env p m newSid S1)"

definition newPeer :: "jsstring \<Rightarrow> Peer" where
  "newPeer x = \<lparr>readyState = OPEN, ip = x, role = None, peerSid = None, peerCode = None, badMessages = 0,
     messageTimes = [], idleTimer = False, closeTimer = False, awaitingHeartbeatPong = False,
     connectionReleased = False\<rparr>"

definition onConnection :: "Env \<Rightarrow> peerId \<Rightarrow> jsstring \<Rightarrow> Server \<Rightarrow> Server" where
  "onConnection env p x S =
     (let S1 = S\<lparr>peers := (peers S)(p := newPeer x), created := created S @ [p], connected := connected S @ [p]\<rparr>;
          S2 = addActiveConnection p S1 in
      if (case activeConnections S2 x of None \<Rightarrow> 0 | Some n \<Rightarrow> n) > SIGNALING_MAX_CONNECTIONS_PER_IP
      then closePeerWithCodeAndRelease env p 1008 ''connection limit''
             (fail env p rate_limited ''Too many concurrent signaling connections.'' S2)
      else updPeer p (\<lambda>q. q\<lparr>idleTimer := True\<rparr>) S2)"

definition onClose :: "Env \<Rightarrow> peerId \<Rightarrow> Server \<Rightarrow> Server" where
  "onClose env p S =
     cleanupPeer env (sendMessage env) p ''disconnected''
       (releaseActiveConnection False p (updPeer p (\<lambda>q. q\<lparr>readyState := CLOSED\<rparr>) S))"

definition onError :: "Env \<Rightarrow> peerId \<Rightarrow> Server \<Rightarrow> Server" where
  "onError env p S = releaseActiveConnection False p (cleanupPeer env (sendMessage env) p ''socket_error'' S)"

definition onPong :: "peerId \<Rightarrow> Server \<Rightarrow> Server" where
  "onPong p S = updPeer p (\<lambda>q. q\<lparr>awaitingHeartbeatPong := False\<rparr>) S"

definition onIdleTimeout :: "Env \<Rightarrow> peerId \<Rightarrow> Server \<Rightarrow> Server" where
  "onIdleTimeout env p S =
     (if idleTimer (peers S p) \<and> role (peers S p) = None \<and> peerSid (peers S p) = None \<and> peerCode (peers S p) = None
      then closePeerWithCodeAndRelease env p 1008 ''idle signaling connection'' S else S)"

definition onCloseTimeout :: "Env \<Rightarrow> peerId \<Rightarrow> Server \<Rightarrow> Server" where
  "onCloseTimeout env p S =
     (if \<not> closeTimer (peers S p) then S
      else
        let S1 = updPeer p (\<lambda>q. q\<lparr>closeTimer := False\<rparr>) S in
        if readyState (peers S1 p) \<noteq> CLOSED then wsTerminate env p S1 else S1)"

definition dropDeadPeer :: "Env \<Rightarrow> peerId \<Rightarrow> string \<Rightarrow> Server \<Rightarrow> Server" where
  "dropDeadPeer env p reason S =
     wsTerminate env p (releaseActiveConnection False p (cleanupPeer env (sendMessage env) p reason S))"

definition heartbeatPeer :: "Env \<Rightarrow> peerId \<Rightarrow> Server \<Rightarrow> Server" where
  "heartbeatPeer env p S =
     (if readyState (peers S p) \<noteq> OPEN then S
      else if awaitingHeartbeatPong (peers S p) then dropDeadPeer env p ''heartbeat_timeout'' S
      else
        let S1 = (updPeer p (\<lambda>q. q\<lparr>awaitingHeartbeatPong := True\<rparr>) S)\<lparr>calls := Suc (calls S)\<rparr> in
        if pingThrows env (calls S) then dropDeadPeer env p ''heartbeat_error'' S1 else S1)"

text \<open>Iterating a live map: a peer that an earlier iteration removed is not visited.\<close>

definition heartbeat :: "Env \<Rightarrow> Server \<Rightarrow> Server" where
  "heartbeat env S = fold (\<lambda>p S. if p \<in> set (connected S) then heartbeatPeer env p S else S) (connected S) S"

definition sweepCode :: "Env \<Rightarrow> jsstring \<Rightarrow> Server \<Rightarrow> Server" where
  "sweepCode env k S =
     (case codesGet S k of
        None \<Rightarrow> S
      | Some entry \<Rightarrow>
          if waitingExpiresAt entry \<le> clock S then
            codesDelete k
              (closePeerAndRelease env (waitingReceiver entry) ''expired''
                (clearPeerSessionState (waitingReceiver entry)
                  (fail env (waitingReceiver entry) expired ''Code expired before a sender connected.'' S)))
          else S)"

definition sweepSession :: "Env \<Rightarrow> jsstring \<Rightarrow> Server \<Rightarrow> Server" where
  "sweepSession env k S =
     (case sessionsGet S k of
        None \<Rightarrow> S
      | Some s \<Rightarrow>
          if sessionExpiresAt s \<le> clock S then
            (if sessionBeforePairAcceptance s \<and> codeExpiresAt s > clock S \<and> readyState (peers S (receiver s)) = OPEN
             then restoreWaitingReceiver env (sendMessage env) s ''expired'' True S
             else closeSessionPeers env s ''expired''
                    (sessionsDelete k (notifyPeerLeft (sendMessage env) s None ''expired'' S)))
          else S)"

definition pruneRateLimits :: "Server \<Rightarrow> Server" where
  "pruneRateLimits S =
     (let prune = (\<lambda>h. pruneFixedWindowRateLimits h (num (clock S)) (num 60000)) in
      S\<lparr>rateLimits := prune (rateLimits S), iceHttpRateLimits := prune (iceHttpRateLimits S),
        staticHttpRateLimits := prune (staticHttpRateLimits S),
        websocketConnectionRateLimits := prune (websocketConnectionRateLimits S),
        turnIssueRateLimits := prune (turnIssueRateLimits S)\<rparr>)"

definition expirySweep :: "Env \<Rightarrow> Server \<Rightarrow> Server" where
  "expirySweep env S =
     (let S1 = fold (sweepCode env) (map fst (codes S)) S in
      pruneRateLimits (fold (sweepSession env) (map fst (sessions S1)) S1))"

definition closeWebSocketForShutdown :: "Env \<Rightarrow> peerId \<Rightarrow> Server \<Rightarrow> Server" where
  "closeWebSocketForShutdown env p S =
     (if p \<in> set (connected S) then closePeerWithCode env p 1001 ''server shutdown'' S
      else case closeResult env (calls S) of
        Some st \<Rightarrow> (updPeer p (\<lambda>q. q\<lparr>readyState := st\<rparr>) S)\<lparr>calls := Suc (calls S)\<rparr>
      | None \<Rightarrow> wsTerminate env p (S\<lparr>calls := Suc (calls S)\<rparr>))"

definition shutdown :: "Env \<Rightarrow> peerId list \<Rightarrow> Server \<Rightarrow> Server" where
  "shutdown env clients S =
     (if shutdownStarted S then S
      else fold (closeWebSocketForShutdown env) clients (S\<lparr>shutdownStarted := True\<rparr>))"

text \<open>\<open>SocketMoves\<close> is the library changing the state of a socket on its own.\<close>

datatype Event =
    Connection peerId jsstring
  | Message peerId jsval jsstring
  | SocketClosed peerId
  | SocketError peerId
  | Pong peerId
  | IdleTimeout peerId
  | CloseTimeout peerId
  | Heartbeat
  | ExpirySweep
  | SocketMoves peerId ReadyState
  | Shutdown "peerId list"

definition handleEvent :: "Env \<Rightarrow> Event \<Rightarrow> Server \<Rightarrow> Server" where
  "handleEvent env e S =
     (case e of
        Connection p x \<Rightarrow> onConnection env p x S
      | Message p v newSid \<Rightarrow> onMessage env p v newSid S
      | SocketClosed p \<Rightarrow> onClose env p S
      | SocketError p \<Rightarrow> onError env p S
      | Pong p \<Rightarrow> onPong p S
      | IdleTimeout p \<Rightarrow> onIdleTimeout env p S
      | CloseTimeout p \<Rightarrow> onCloseTimeout env p S
      | Heartbeat \<Rightarrow> if shutdownStarted S then S else heartbeat env S
      | ExpirySweep \<Rightarrow> if shutdownStarted S then S else expirySweep env S
      | SocketMoves p st \<Rightarrow> updPeer p (\<lambda>q. q\<lparr>readyState := st\<rparr>) S
      | Shutdown clients \<Rightarrow> shutdown env clients S)"

definition step :: "Env \<Rightarrow> nat \<Rightarrow> Event \<Rightarrow> Server \<Rightarrow> Server" where
  "step env now e S = handleEvent env e (S\<lparr>clock := now\<rparr>)"

definition initialServer :: Server where
  "initialServer =
     \<lparr>peers = (\<lambda>_. (newPeer [])\<lparr>readyState := CLOSED, connectionReleased := True\<rparr>), created = [], connected = [],
      codes = [], sessions = [], rateLimits = Map.empty, iceHttpRateLimits = Map.empty,
      staticHttpRateLimits = Map.empty, websocketConnectionRateLimits = Map.empty,
      turnIssueRateLimits = Map.empty, activeConnections = Map.empty, shutdownStarted = False, wire = [],
      calls = 0, clock = 0, history = [], aborted = False\<rparr>"

text \<open>What the handlers rely on: ids from \<open>nanoid\<close> are fresh and not empty, events name
  sockets that exist, and a socket that left \<open>OPEN\<close> does not come back.\<close>

definition admissible :: "Event \<Rightarrow> Server \<Rightarrow> bool" where
  "admissible e S \<longleftrightarrow>
     (case e of
        Connection p x \<Rightarrow> p \<noteq> [] \<and> p \<notin> set (created S)
      | Message p v newSid \<Rightarrow> p \<in> set (created S) \<and> newSid \<noteq> [] \<and> newSid \<notin> fst ` set (sessions S)
      | SocketMoves p st \<Rightarrow> p \<in> set (created S) \<and> (st = OPEN \<longrightarrow> readyState (peers S p) = OPEN)
      | SocketClosed p \<Rightarrow> p \<in> set (created S)
      | SocketError p \<Rightarrow> p \<in> set (created S)
      | _ \<Rightarrow> True)"

text \<open>The library's part of the contract: a socket that was closed or terminated is not open.\<close>

definition wsContract :: "Env \<Rightarrow> bool" where
  "wsContract env \<longleftrightarrow> (\<forall>n. closeResult env n \<noteq> Some OPEN) \<and> (\<forall>n. terminateResult env n \<noteq> OPEN)"

inductive reachable :: "Env \<Rightarrow> Server \<Rightarrow> bool" for env where
  init: "reachable env initialServer"
| event: "reachable env S \<Longrightarrow> admissible e S \<Longrightarrow> reachable env (step env now e S)"

end
