(* ===== verification/ServerWire.thy ===== *)
theory ServerWire
  imports ServerHandlers
begin

text \<open>
  What the signaling server puts on the wire: frames are only appended, and a session's
  messages are forwarded by the relay handler alone. The clean-up operations are covered once,
  for any send function that transmits nothing but its own message besides notices (locale
  \<open>frame_sender\<close>).
\<close>

fun isRelayed :: "Wire \<Rightarrow> bool" where
  "isRelayed (Frame (Relayed _ _)) = True"
| "isRelayed _ = False"

text \<open>From \<open>S\<close> to \<open>S'\<close> frames were appended, and the relayed ones among them are in \<open>A\<close>.\<close>

definition adds :: "(peerId \<times> Wire) set \<Rightarrow> Server \<Rightarrow> Server \<Rightarrow> bool" where
  "adds A S S' \<longleftrightarrow> (\<exists>new. wire S' = wire S @ new \<and> (\<forall>x \<in> set new. isRelayed (snd x) \<longrightarrow> x \<in> A))"

lemma adds_same: "wire S' = wire S \<Longrightarrow> adds A S S'"
  by (simp add: adds_def)

lemma adds_trans [trans]: "adds A S S' \<Longrightarrow> adds A S' S'' \<Longrightarrow> adds A S S''"
  by (fastforce simp: adds_def)

lemma adds_mono: "adds A S S' \<Longrightarrow> A \<subseteq> B \<Longrightarrow> adds B S S'"
  by (fastforce simp: adds_def)

lemma adds_none: "adds {} S S' \<Longrightarrow> adds A S S'"
  by (erule adds_mono) simp

lemma adds_after: "adds A T S' \<Longrightarrow> wire T = wire S \<Longrightarrow> adds A S S'"
  by (simp add: adds_def)

lemma adds_then: "adds A S T \<Longrightarrow> wire S' = wire T \<Longrightarrow> adds A S S'"
  by (simp add: adds_def)

lemma wire_simps [simp]:
  "wire (updPeer p f S) = wire S" "wire (codesSet k w S) = wire S" "wire (codesDelete k S) = wire S"
  "wire (sessionsSet k s S) = wire S" "wire (sessionsDelete k S) = wire S" "wire (clearPeerSessionState p S) = wire S"
  "wire (clearIdleTimer p S) = wire S" "wire (clearCloseTimer p S) = wire S" "wire (releaseActiveConnection b p S) = wire S"
  "wire (wsTerminate env p S) = wire S" "wire (scheduleCloseTermination p S) = wire S" "wire (resetReceiver s S) = wire S"
  "wire (peerBecomes p r c S) = wire S" "wire (recordRelayed s p m S) = wire S" "wire (addActiveConnection p S) = wire S"
  by (simp_all add: updPeer_def codesSet_def codesDelete_def sessionsSet_def sessionsDelete_def clearPeerSessionState_def
      clearIdleTimer_def clearCloseTimer_def releaseActiveConnection_def wsTerminate_def scheduleCloseTermination_def
      resetReceiver_def peerBecomes_def recordRelayed_def addActiveConnection_def Let_def)

lemma close_adds:
  "adds A S (closePeerWithCode env p c r S)" "adds A S (closePeerAndRelease env p r S)"
  "adds A S (closePeerWithCodeAndRelease env p c r S)"
proof -
  have one: "adds A S (closePeerWithCode env p c r S)" for c r
    by (auto simp: closePeerWithCode_def adds_def split: sum.split option.split)
  show "adds A S (closePeerWithCode env p c r S)" "adds A S (closePeerAndRelease env p r S)"
    "adds A S (closePeerWithCodeAndRelease env p c r S)"
    using one by (simp_all add: closePeerAndRelease_def closePeer_def closePeerWithCodeAndRelease_def adds_def)
qed

section \<open>Clean-up\<close>

locale frame_sender =
  fixes env :: Env and tell :: sendFun
  assumes tell_adds: "adds {(p, Frame m)} S (fst (tell p m S))"
begin

lemma notice_adds: "\<not> isRelayed (Frame m) \<Longrightarrow> adds A S (fst (tell p m S))"
  using tell_adds[of p m S] by (fastforce simp: adds_def)

lemma notify_adds: "adds A S (notifyPeerLeft tell s q x S)"
  unfolding notifyPeerLeft_def by (auto intro: notice_adds adds_same adds_trans[OF notice_adds notice_adds])

lemma endSession_adds: "adds A S (endSession env tell s x l S)"
proof -
  have "adds A S (notifyPeerLeft tell s q x (sessionsDelete (sid s) S))" for q
    by (rule adds_after[OF notify_adds]) simp
  then have "adds A S (clearPeerSessionState (receiver s) (clearPeerSessionState (sender s)
      (notifyPeerLeft tell s q x (sessionsDelete (sid s) S))))" for q
    by (rule adds_then) simp
  then show ?thesis
    by (auto simp: endSession_def Let_def split: option.split intro: adds_trans[OF _ close_adds(2)])
qed

lemma closeSession_adds: "adds A S (closeSessionPeers env s x S)"
  unfolding closeSessionPeers_def
  by (intro adds_trans[OF _ close_adds(2)] adds_same) simp

lemma expireReceiver_adds: "adds A S (expireReceiverAfterPrePairAttempts env tell s w S)"
proof -
  define S1 where "S1 = (case w of None \<Rightarrow> S | Some w \<Rightarrow> codesDelete (waitingKey w) S)"
  define S2 where "S2 = notifyPeerLeft tell s (Some (sender s)) ''too many invalid pairing attempts'' S1"
  define S3 where "S3 = clearPeerSessionState (receiver s) (clearPeerSessionState (sender s) S2)"
  have "adds A S S1" by (rule adds_same) (simp add: S1_def split: option.split)
  also have "adds A S1 S2" unfolding S2_def by (rule notify_adds)
  also have "adds A S2 S3" by (rule adds_same) (simp add: S3_def)
  finally have s3: "adds A S S3" .
  have "adds A S (fst (tell (receiver s) (ErrorMessage expired ''Receive code expired after too many invalid pairing attempts.'') S3))"
    by (rule adds_trans[OF s3 notice_adds]) simp
  then show ?thesis
    unfolding expireReceiverAfterPrePairAttempts_def Let_def S1_def[symmetric] S2_def[symmetric] S3_def[symmetric]
    by (intro adds_trans[OF _ close_adds(2)])
qed

lemma sendRestored_adds: "adds A S (sendRestoredRegistration env tell s t S)"
proof -
  obtain S1 d where t: "tell (receiver s) (Registered (sessionCode s) (remainingExpirySeconds t (clock S))) S = (S1, d)" by fastforce
  have "adds A S S1"
    using notice_adds[of "Registered (sessionCode s) (remainingExpirySeconds t (clock S))" A S "receiver s"] t by simp
  moreover have "adds A S1 (closePeerAndRelease env (receiver s) y (clearPeerSessionState (receiver s)
      (if c then codesDelete (sessionCode s) S1 else S1)))" for c y
    by (rule adds_after[OF close_adds(2)]) simp
  ultimately show ?thesis
    using adds_trans by (simp add: sendRestoredRegistration_def t Let_def)
qed

lemma finish_adds:
  assumes "adds A S T"
  shows "adds A S (sendRestoredRegistration env tell s t (closePeerAndRelease env p x (if b then notifyPeerLeft tell s q x T else T)))"
proof -
  have "adds A S (if b then notifyPeerLeft tell s q x T else T)" using assms adds_trans[OF assms notify_adds] by simp
  then show ?thesis by (intro adds_trans[OF adds_trans[OF _ close_adds(2)] sendRestored_adds])
qed

lemma restore_adds: "adds A S (restoreWaitingReceiver env tell s x b S)"
proof (cases "codesGet S (sessionCode s)")
  case None
  define T where "T = resetReceiver s (sessionsDelete (sid s) S)"
  have "adds A S T" "adds A S (codesSet k w T)" for k w by (simp_all add: T_def adds_same)
  then show ?thesis
    using adds_trans[OF _ expireReceiver_adds] finish_adds by (simp add: restoreWaitingReceiver_def None Let_def T_def[symmetric])
next
  case (Some w)
  define T where "T = resetReceiver s (sessionsDelete (sid s) S)"
  have set: "adds A S (codesSet k w T)" for k w by (simp add: T_def adds_same)
  have "adds A S (notifyPeerLeft tell s None y (sessionsDelete (sid s) S))" for y
    by (rule adds_after[OF notify_adds]) simp
  then have clash: "adds A S (closeSessionPeers env s z (notifyPeerLeft tell s None y (sessionsDelete (sid s) S)))" for y z
    by (rule adds_trans) (rule closeSession_adds)
  show ?thesis
    using clash adds_trans[OF set expireReceiver_adds] finish_adds[OF set]
    by (simp add: restoreWaitingReceiver_def Some Let_def T_def[symmetric])
qed

lemma cleanup_adds: "adds A S (cleanupPeer env tell p x S)"
proof -
  define S1 where "S1 = (case peerCode (peers S p) of
      Some c \<Rightarrow> if waitingCodeOwnedBy (codesGet S c) p then codesDelete c S else S | None \<Rightarrow> S)"
  have "adds A S S1" by (rule adds_same) (simp add: S1_def split: option.split)
  then show ?thesis
    unfolding cleanupPeer_def Let_def S1_def[symmetric]
    using adds_trans[OF _ restore_adds] adds_trans[OF _ endSession_adds] by (simp split: option.split)
qed

lemma sendFailure_adds: "adds A S (closePeerForSendFailure env tell p x S)"
  unfolding closePeerForSendFailure_def by (rule adds_trans[OF cleanup_adds close_adds(2)])

end

lemma transmit_adds: "adds {(p, Frame m)} S (transmit p m (S\<lparr>calls := n\<rparr>))"
  by (simp add: adds_def transmit_def)

lemma send_frames: "frame_sender (send env n)"
proof (induction n)
  case 0
  show ?case by unfold_locales (simp add: adds_same)
next
  case (Suc n)
  show ?case
  proof unfold_locales
    fix p :: peerId and m and S :: Server
    let ?A = "{(p, Frame m)}" and ?S1 = "S\<lparr>calls := Suc (calls S)\<rparr>"
    note fin = frame_sender.sendFailure_adds[OF Suc.IH, where A = ?A and p = p]
    have "adds ?A S (closePeerForSendFailure env (send env n) p x ?S1)" for x
      by (rule adds_trans[OF adds_same fin]) simp
    moreover have "adds ?A S (closePeerForSendFailure env (send env n) p x (transmit p m ?S1))" for x
      by (rule adds_trans[OF transmit_adds fin])
    ultimately show "adds ?A S (fst (send env (Suc n) p m S))"
      by (auto simp: Let_def adds_same transmit_adds split: SendOutcome.split)
  qed
qed

interpretation srvw: frame_sender env "sendMessage env" for env
  by unfold_locales (simp only: sendMessage_def frame_sender.tell_adds[OF send_frames])

section \<open>Handlers\<close>

lemma fail_adds: "adds A S (fail env p c x S)"
  unfolding fail_def by (rule srvw.notice_adds) simp

lemma badMessage_adds: "adds A S (badMessage env p x S)"
proof -
  have r: "adds A S (restoreWaitingReceiver env (sendMessage env) s y b (fail env p c z S))" for s y b c z
    by (rule adds_trans[OF fail_adds srvw.restore_adds])
  then have s1: "adds A S (fst (rejectMalformedPrePairSenderMessage env p x S))"
    by (auto simp: rejectMalformedPrePairSenderMessage_def adds_same split: option.split)
  let ?T = "updPeer p (\<lambda>q. q\<lparr>badMessages := badMessages q + 1\<rparr>) (fst (rejectMalformedPrePairSenderMessage env p x S))"
  have s2: "adds A S (fail env p bad_message x ?T)"
    by (rule adds_trans[OF adds_then[OF s1] fail_adds]) simp
  from s1 s2 adds_trans[OF s2 close_adds(3)] show ?thesis
    by (simp add: badMessage_def split_beta Let_def)
qed

lemma dropWaitingCode_adds: "adds A S (dropWaitingCode env c r x y S)"
  unfolding dropWaitingCode_def
  by (rule adds_trans[OF adds_after[OF fail_adds] close_adds(2)]) simp

lemma registerCode_adds: "adds A S (registerCode env p c S)"
proof -
  have told: "adds A S (fst (sendMessage env p (Registered x n) T))" if "wire T = wire S" for x n T
    by (rule adds_after[OF srvw.notice_adds]) (simp_all add: that)
  show ?thesis
    unfolding registerCode_def Let_def
    by (auto intro!: dropWaitingCode_adds fail_adds told split: option.split)
qed

lemma hitRateLimit_adds: "adds A S (fst (hitRateLimit env p S))"
  unfolding hitRateLimit_def by (auto simp: split_beta Let_def intro: adds_same adds_after[OF fail_adds])

lemma register_adds: "adds A S (register env p c v S)"
proof -
  obtain S1 al where h: "hitRateLimit env p S = (S1, al)" by fastforce
  have s1: "adds A S S1" using hitRateLimit_adds[of A S env p] h by simp
  show ?thesis
    using s1 adds_trans[OF s1 fail_adds] adds_trans[OF s1 registerCode_adds] by (simp add: register_def h Let_def)
qed

lemma claimCode_adds: "adds A S (claimCode env p c w n k S)"
proof -
  let ?m = "PeerJoined k" and ?r = "waitingReceiver w"
  have told: "adds A T (fst (sendMessage env q ?m T))" for q T by (rule srvw.notice_adds) simp
  have main: "adds A S (let (S7, toReceiver) = sendMessage env ?r ?m S6 in
      if \<not> toReceiver then
        fail env p peer_unavailable ''Receiver is no longer connected.''
          (closePeerAndRelease env ?r ''receiver unavailable''
            (clearPeerSessionState ?r (clearPeerSessionState p (sessionsDelete k S7))))
      else
        let (S8, toSender) = sendMessage env p ?m S7 in
        if \<not> toSender then restoreWaitingReceiver env (sendMessage env) s ''sender unavailable'' True S8 else S8)"
    if w6: "wire S6 = wire S" for S6 s
  proof -
    obtain S7 d where t7: "sendMessage env ?r ?m S6 = (S7, d)" by fastforce
    obtain S8 d' where t8: "sendMessage env p ?m S7 = (S8, d')" by fastforce
    have s7: "adds A S S7" using adds_after[OF told w6, of ?r] t7 by simp
    have s8: "adds A S S8" using adds_trans[OF s7 told, of p] t8 by simp
    have "adds A S (fail env p e x (closePeerAndRelease env ?r y (clearPeerSessionState ?r (clearPeerSessionState p (sessionsDelete k S7)))))" for e x y
      by (rule adds_trans[OF adds_trans[OF adds_then[OF s7] close_adds(2)] fail_adds]) simp
    then show ?thesis using s8 adds_trans[OF s8 srvw.restore_adds] by (simp add: t7 t8)
  qed
  show ?thesis
    unfolding claimCode_def Let_def[of "waitingReceiver w"] Let_def[of "codesDelete _ _"] Let_def[of "newSession _ _ _ _ _ _"]
      Let_def[of "sessionsSet _ _ _"] Let_def[of "updPeer _ _ _"] Let_def[of "peerBecomes _ _ _ _"]
    unfolding Let_def[of "case_option _ _ _"] Let_def[of "history_update _ _"]
    by (rule main) (simp split: option.split)
qed

lemma connect_adds: "adds A S (connect env p c v k S)"
proof -
  obtain S1 al where h: "hitRateLimit env p S = (S1, al)" by fastforce
  have s1: "adds A S S1" using hitRateLimit_adds[of A S env p] h by simp
  have cc: "adds A S1 (connectCode env p x k S1)" for x
    unfolding connectCode_def Let_def
    by (auto intro!: fail_adds badMessage_adds claimCode_adds adds_trans[OF dropWaitingCode_adds fail_adds]
        simp: adds_same split: option.split sum.split)
  show ?thesis
    using s1 adds_trans[OF s1 fail_adds] adds_trans[OF s1 cc] by (simp add: connect_def h Let_def)
qed

section \<open>Relaying\<close>

lemma rejectRelay_adds: "adds A S (rejectRelayMessage env s p x S)"
  unfolding rejectRelayMessage_def using adds_trans[OF fail_adds srvw.restore_adds] badMessage_adds by simp

lemma deliveryFailed_adds: "adds A S (relayDeliveryFailed env s p q x b S)"
  unfolding relayDeliveryFailed_def Let_def
  using adds_trans[OF fail_adds srvw.restore_adds] adds_trans[OF fail_adds srvw.endSession_adds] by simp

lemma iceConfig_adds: "adds A S (fst (sendIceConfig env p S))"
  unfolding sendIceConfig_def
  by (auto simp: split_beta Let_def intro: adds_same adds_after[OF srvw.notice_adds])

lemma turnLimit_adds: "adds A S (closeSessionForTurnRateLimit env s S)"
  unfolding closeSessionForTurnRateLimit_def
  by (rule adds_trans[OF adds_trans[OF fail_adds fail_adds] srvw.closeSession_adds])

lemma relayAccept_adds:
  assumes A: "(q, Frame (Relayed (sid s) m)) \<in> A"
  shows "adds A S (relayAccept env s p q m S)"
proof -
  obtain S1 r1 where t1: "sendIceConfig env (sender s) S = (S1, r1)" by fastforce
  obtain S2 d where t2: "sendMessage env q (Relayed (sid s) m) S1 = (S2, d)" by fastforce
  obtain S3 r3 where t3: "sendIceConfig env (receiver s) S2 = (S3, r3)" by fastforce
  have s1: "adds A S S1" using iceConfig_adds[of A S env "sender s"] t1 by simp
  have "adds A S1 S2" using adds_mono[OF srvw.tell_adds, where env1 = env and m1 = "Relayed (sid s) m" and p1 = q] A t2 by (metis empty_subsetI fst_conv insert_subset)
  then have s2: "adds A S S2" by (rule adds_trans[OF s1])
  then have s3: "adds A S S3" using adds_trans[OF s2 iceConfig_adds, of env "receiver s"] t3 by simp
  show ?thesis
    using s3 adds_then[OF s3] adds_trans[OF s1 turnLimit_adds] adds_trans[OF s3 turnLimit_adds] adds_trans[OF s1 deliveryFailed_adds]
      adds_trans[OF s2 deliveryFailed_adds] adds_trans[OF s3 srvw.closeSession_adds]
    by (simp add: relayAccept_def t1 t2 t3 split: SendIceConfigResult.split)
qed

lemma relayForward_adds:
  assumes A: "(q, Frame (Relayed (sid s) m)) \<in> A"
  shows "adds A S (relayForward env s p q m S)"
proof -
  obtain S1 d where t1: "sendMessage env q (Relayed (sid s) m) S = (S1, d)" by fastforce
  have s1: "adds A S S1" using adds_mono[OF srvw.tell_adds, where env1 = env and m1 = "Relayed (sid s) m" and p1 = q] A t1 by (metis empty_subsetI fst_conv insert_subset)
  have s2: "adds A S (recordRelayed s p m S1)" by (rule adds_then[OF s1]) simp
  have s3: "adds A S (closeSessionPeers env s x (sessionsDelete (sid s) (recordRelayed s p m S1)))" for x
    by (rule adds_trans[OF adds_then[OF s2] srvw.closeSession_adds]) simp
  show ?thesis
    unfolding relayForward_def Let_def
    using s2 s3 relayAccept_adds[OF A] deliveryFailed_adds adds_trans[OF s1 deliveryFailed_adds] by (simp add: t1)
qed

text \<open>The frames a relay message may put on the wire: its body, to the other peer of the
  session.\<close>

definition relayFrames :: "Server \<Rightarrow> peerId \<Rightarrow> jsstring \<Rightarrow> RelayBody \<Rightarrow> (peerId \<times> Wire) set" where
  "relayFrames S p k m =
     {(q, Frame (Relayed (sid s) m)) | q s. sessionsGet S k = Some s \<and> relayAllowed s p m
        \<and> (p = sender s \<and> q = receiver s \<or> p = receiver s \<and> q = sender s)}"

lemma relay_adds: "adds (relayFrames S p k m) S (relay env p k m S)"
proof (cases "sessionsGet S k")
  case None then show ?thesis by (simp add: relay_def fail_adds)
next
  case (Some s)
  let ?q = "if sender s = p then receiver s else sender s"
  have "adds (relayFrames S p k m) S (relayForward env s p ?q m S)"
    if "sender s = p \<or> receiver s = p" "relayAllowedForRole s p m" "relayAllowedForPhase s p m"
    using that Some by (intro relayForward_adds) (auto simp: relayFrames_def relayAllowed_def)
  then show ?thesis using fail_adds rejectRelay_adds by (auto simp: relay_def Some)
qed

section \<open>Events\<close>

lemma retry_adds: "adds A S (fst (retryReceiver env p S))"
  unfolding retryReceiver_def
  by (auto simp: adds_same split: option.split intro!: dropWaitingCode_adds srvw.notice_adds srvw.restore_adds)

definition messageFrames :: "Server \<Rightarrow> peerId \<Rightarrow> ClientMessage \<Rightarrow> (peerId \<times> Wire) set" where
  "messageFrames S p m = (case m of Relay k b \<Rightarrow> relayFrames S p k b | _ \<Rightarrow> {})"

lemma handleMessage_adds: "adds (messageFrames S p m) S (handleMessage env p m n S)"
proof (cases m)
  case (Bye k r)
  define R where "R = (if r = Some (js ''prepair_retry'') then retryReceiver env p S else (S, False))"
  have s1: "adds {} S (fst R)" using retry_adds adds_same[of S S] by (simp add: R_def)
  have "adds {} S (closePeerAndRelease env p x (cleanupPeer env (sendMessage env) p y (fst R)))" for x y
    by (rule adds_trans[OF adds_trans[OF s1 srvw.cleanup_adds] close_adds(2)])
  with s1 Bye show ?thesis by (simp add: handleMessage_def messageFrames_def R_def[symmetric] split_beta Let_def)
qed (simp_all add: handleMessage_def messageFrames_def register_adds connect_adds relay_adds)

lemma onMessage_adds:
  "adds (case clientMessageOf v of None \<Rightarrow> {} | Some m \<Rightarrow> messageFrames S p m) S (onMessage env p v n S)"
proof -
  let ?A = "case clientMessageOf v of None \<Rightarrow> {} | Some m \<Rightarrow> messageFrames S p m"
  define h where "h = recordFixedWindowHit (messageTimes (peers S p)) (num (clock S)) (num 60000) (num SIGNALING_MAX_MESSAGES_PER_MINUTE)"
  let ?S1 = "updPeer p (\<lambda>q. q\<lparr>messageTimes := snd h\<rparr>) S"
  have eq: "hitMessageLimit env p S = (if fst h then (?S1, True)
      else (closePeerWithCodeAndRelease env p 1008 ''signaling message rate limit''
           (fail env p rate_limited ''Too many signaling messages. Try again shortly.'' ?S1), False))"
    by (simp add: hitMessageLimit_def h_def split_beta Let_def)
  have limited: "adds A S (closePeerWithCodeAndRelease env p c x (fail env p e y ?S1))" for A c x e y
    by (rule adds_trans[OF adds_after[OF fail_adds] close_adds(3)]) simp
  have frames: "messageFrames ?S1 p m = messageFrames S p m" for m
    by (auto simp: messageFrames_def relayFrames_def sessionsGet_def updPeer_def split: ClientMessage.split)
  have "adds (messageFrames ?S1 p m) S (handleMessage env p m n ?S1)" for m
    by (rule adds_after[OF handleMessage_adds]) simp
  then have "adds (messageFrames S p m) S (handleMessage env p m n ?S1)" for m by (simp only: frames)
  moreover have "adds A S (badMessage env p x ?S1)" for A x by (rule adds_after[OF badMessage_adds]) simp
  ultimately show ?thesis
    unfolding onMessage_def eq Let_def using limited by (simp add: adds_same split: option.split)
qed

lemma fold_adds: "(\<And>x S. adds A S (g x S)) \<Longrightarrow> adds A S (fold g xs S)"
  by (induction xs arbitrary: S) (auto simp: adds_same intro: adds_trans)

lemma dropDeadPeer_adds: "adds A S (dropDeadPeer env p x S)"
  unfolding dropDeadPeer_def by (rule adds_then[OF srvw.cleanup_adds]) simp

lemma heartbeat_adds: "adds A S (heartbeat env S)"
proof -
  have "adds A S (heartbeatPeer env p S)" for p S
  proof -
    have "adds A S (dropDeadPeer env p x ((updPeer p f S)\<lparr>calls := n\<rparr>))" for x f n by (rule adds_after[OF dropDeadPeer_adds]) simp
    then show ?thesis unfolding heartbeatPeer_def Let_def using dropDeadPeer_adds by (simp add: adds_same)
  qed
  then show ?thesis unfolding heartbeat_def by (intro fold_adds) (simp add: adds_same)
qed

lemma expirySweep_adds: "adds A S (expirySweep env S)"
proof -
  have code: "adds A S (sweepCode env k S)" for k S
  proof -
    have "adds A S (codesDelete k (closePeerAndRelease env q x (clearPeerSessionState q (fail env q c y S))))" for q x c y
      by (rule adds_then[OF adds_trans[OF adds_then[OF fail_adds] close_adds(2)]]) simp_all
    then show ?thesis by (simp add: sweepCode_def adds_same split: option.split)
  qed
  have session: "adds A S (sweepSession env k S)" for k S
  proof -
    have "adds A S (closeSessionPeers env s x (sessionsDelete k (notifyPeerLeft (sendMessage env) s q y S)))" for s x q y
      by (rule adds_trans[OF adds_then[OF srvw.notify_adds] srvw.closeSession_adds]) simp
    then show ?thesis by (simp add: sweepSession_def srvw.restore_adds adds_same split: option.split)
  qed
  have prune: "wire (pruneRateLimits T) = wire T" for T by (simp add: pruneRateLimits_def Let_def)
  show ?thesis
    unfolding expirySweep_def Let_def by (rule adds_then[OF adds_trans[OF fold_adds[OF code] fold_adds[OF session]] prune])
qed

lemma shutdown_adds: "adds A S (shutdown env cs S)"
proof -
  have "adds A S (closeWebSocketForShutdown env p S)" for p S
    unfolding closeWebSocketForShutdown_def using close_adds(1) by (auto simp: adds_same split: option.split)
  then have "adds A (S\<lparr>shutdownStarted := True\<rparr>) (fold (closeWebSocketForShutdown env) cs (S\<lparr>shutdownStarted := True\<rparr>))" by (rule fold_adds)
  then show ?thesis unfolding shutdown_def by (simp add: adds_same adds_after)
qed

definition eventFrames :: "Server \<Rightarrow> Event \<Rightarrow> (peerId \<times> Wire) set" where
  "eventFrames S e =
     (case e of
        Message p v n \<Rightarrow> (case clientMessageOf v of None \<Rightarrow> {} | Some m \<Rightarrow> messageFrames S p m)
      | _ \<Rightarrow> {})"

lemma onConnection_adds: "adds A S (onConnection env p x S)"
proof -
  have "adds A S (closePeerWithCodeAndRelease env p c r (fail env p e m T))" if "wire T = wire S" for c r e m T
    by (rule adds_trans[OF adds_after[OF fail_adds that] close_adds(3)])
  then show ?thesis unfolding onConnection_def Let_def by (simp add: adds_same)
qed

lemma step_adds: "adds (eventFrames S e) S (step env now e S)"
proof -
  let ?S = "S\<lparr>clock := now\<rparr>"
  have frames: "messageFrames ?S p m = messageFrames S p m" for p m
    by (auto simp: messageFrames_def relayFrames_def sessionsGet_def split: ClientMessage.split)
  have "adds (eventFrames S e) ?S (handleEvent env e ?S)"
  proof (cases e)
    case (Message p v n)
    then show ?thesis
      using onMessage_adds[where v = v and S = ?S and p = p and env = env and n = n] by (simp add: handleEvent_def eventFrames_def frames cong: option.case_cong)
  next
    case (SocketClosed p)
    have "adds {} ?S (onClose env p ?S)" unfolding onClose_def by (rule adds_after[OF srvw.cleanup_adds]) simp
    then show ?thesis using SocketClosed by (simp add: handleEvent_def eventFrames_def)
  next
    case (SocketError p)
    have "adds {} ?S (onError env p ?S)" unfolding onError_def by (rule adds_then[OF srvw.cleanup_adds]) simp
    then show ?thesis using SocketError by (simp add: handleEvent_def eventFrames_def)
  qed (simp_all add: handleEvent_def eventFrames_def onConnection_adds heartbeat_adds expirySweep_adds shutdown_adds adds_same
      onPong_def onIdleTimeout_def onCloseTimeout_def close_adds Let_def)
  then show ?thesis unfolding step_def by (rule adds_after) simp
qed

end
