(* ===== verification/ServerInvariant.thy ===== *)
theory ServerInvariant
  imports ServerHandlers
begin

text \<open>
  The invariant of the signaling server and its preservation by the operations that end,
  restore and clean up sessions, for any send function that keeps the invariant (locale
  \<open>message_sender\<close>); the server's own \<open>send\<close> interprets the locale, by induction on its fuel.
\<close>

section \<open>Association lists\<close>

lemma set_update:
  "distinct (map fst al) \<Longrightarrow> set (AList.update k v al) = insert (k, v) {x \<in> set al. fst x \<noteq> k}"
  by (induction al) (auto simp: image_iff)

lemma length_update: "length (AList.update k v al) = (if k \<in> fst ` set al then length al else Suc (length al))"
  by (induction al) auto

lemma set_delete [simp]: "set (AList.delete k al) = {x \<in> set al. fst x \<noteq> k}"
  by (auto simp: AList.delete_eq)

lemma map_of_mem: "map_of al k = Some v \<Longrightarrow> (k, v) \<in> set al"
  by (rule map_of_SomeD)

lemma mem_map_of: "distinct (map fst al) \<Longrightarrow> (k, v) \<in> set al \<Longrightarrow> map_of al k = Some v"
  by simp

lemma distinct_delete: "distinct (map fst al) \<Longrightarrow> distinct (map fst (AList.delete k al))"
  by (simp add: AList.delete_eq distinct_map_filter)

lemma distinct_map_update:
  assumes "distinct (map fst al)" "distinct (map f (map snd al))" "f v \<notin> f ` snd ` {x \<in> set al. fst x \<noteq> k}"
  shows "distinct (map f (map snd (AList.update k v al)))"
  using assms
proof (induction al)
  case (Cons x al)
  obtain a b where x: "x = (a, b)" by (cases x)
  show ?case
  proof (cases "a = k")
    case True
    then have "\<forall>y \<in> set al. fst y \<noteq> k" using Cons.prems(1) x by (auto simp: image_iff)
    then have "f v \<notin> f ` snd ` set al" using Cons.prems(3) x by (auto simp: image_iff) (metis fst_conv)
    then show ?thesis using True x Cons.prems(2) by auto
  next
    case False
    have sub: "insert x {y \<in> set al. fst y \<noteq> k} \<subseteq> {y \<in> set (x # al). fst y \<noteq> k}" using False x by auto
    have "f v \<notin> f ` snd ` insert x {y \<in> set al. fst y \<noteq> k}"
      using Cons.prems(3) sub by (meson image_mono subsetD)
    then have "f v \<noteq> f b" "f v \<notin> f ` snd ` {y \<in> set al. fst y \<noteq> k}" using x by simp_all
    then show ?thesis using False x Cons set_update[of al k v] by (auto simp: image_iff)
  qed
qed simp

section \<open>The invariant\<close>

definition member :: "Session \<Rightarrow> peerId \<Rightarrow> bool" where
  "member s p \<longleftrightarrow> p = sender s \<or> p = receiver s"

definition inSessions :: "Server \<Rightarrow> peerId \<Rightarrow> bool" where
  "inSessions S p \<longleftrightarrow> (\<exists>(k, s) \<in> set (sessions S). member s p)"

definition inCodes :: "Server \<Rightarrow> peerId \<Rightarrow> bool" where
  "inCodes S p \<longleftrightarrow> (\<exists>(k, w) \<in> set (codes S). waitingReceiver w = p)"

text \<open>A receiver in the table of codes knows its code and is not paired, or its socket is no
  longer open.\<close>

definition waits :: "Server \<Rightarrow> jsstring \<Rightarrow> peerId \<Rightarrow> bool" where
  "waits S k p \<longleftrightarrow>
     peerCode (peers S p) = Some k \<and> peerSid (peers S p) = None \<and> role (peers S p) = Some Receiver
     \<or> readyState (peers S p) \<noteq> OPEN"

definition sessionOk :: "Server \<Rightarrow> jsstring \<Rightarrow> Session \<Rightarrow> bool" where
  "sessionOk S k s \<longleftrightarrow>
     sid s = k \<and> sender s \<noteq> receiver s \<and> {sender s, receiver s} \<subseteq> set (created S)
     \<and> phaseInv s \<and> remainingAttempts s \<le> 2
     \<and> peerSid (peers S (sender s)) = Some k \<and> peerSid (peers S (receiver s)) = Some k"

definition codeOk :: "Server \<Rightarrow> jsstring \<Rightarrow> WaitingCode \<Rightarrow> bool" where
  "codeOk S k w \<longleftrightarrow>
     waitingKey w = k \<and> 1 \<le> waitingAttempts w \<and> waitingAttempts w \<le> 3
     \<and> waitingReceiver w \<in> set (created S) \<and> \<not> inSessions S (waitingReceiver w) \<and> waits S k (waitingReceiver w)"

definition refInv :: "Server \<Rightarrow> bool" where
  "refInv S \<longleftrightarrow>
     distinct (map fst (sessions S)) \<and> distinct (map fst (codes S))
     \<and> distinct (map waitingReceiver (map snd (codes S)))
     \<and> [] \<notin> set (created S)
     \<and> (\<forall>(k, s) \<in> set (sessions S). sessionOk S k s)
     \<and> (\<forall>(k, w) \<in> set (codes S). codeOk S k w)"

text \<open>The connection count of an address is the number of its live connections.\<close>

definition connInv :: "Server \<Rightarrow> bool" where
  "connInv S \<longleftrightarrow>
     distinct (connected S)
     \<and> (\<forall>p. p \<in> set (connected S) \<longleftrightarrow> p \<in> set (created S) \<and> \<not> connectionReleased (peers S p))
     \<and> (\<forall>p. p \<notin> set (created S) \<longrightarrow> connectionReleased (peers S p) \<and> readyState (peers S p) \<noteq> OPEN)
     \<and> (\<forall>x. activeConnections S x =
          (let n = length (filter (\<lambda>p. ip (peers S p) = x) (connected S)) in if n = 0 then None else Some n))"

definition serverInv :: "Server \<Rightarrow> bool" where
  "serverInv S \<longleftrightarrow> refInv S \<and> connInv S"

text \<open>The attempts that remain for a receiver's registration of a code, wherever they are
  kept.\<close>

type_synonym token = "peerId \<times> jsstring \<times> nat"

definition sessionToken :: "Session \<Rightarrow> token" where
  "sessionToken s = (receiver s, sessionCode s, remainingAttempts s)"

definition tokens :: "Server \<Rightarrow> token set" where
  "tokens S = (\<lambda>(k, w). (waitingReceiver w, k, waitingAttempts w)) ` set (codes S)
     \<union> (\<lambda>(k, s). sessionToken s) ` set (sessions S)"

definition tokensLe :: "token set \<Rightarrow> token set \<Rightarrow> bool" where
  "tokensLe A B \<longleftrightarrow> (\<forall>(r, c, a) \<in> A. \<exists>b \<ge> a. (r, c, b) \<in> B)"

text \<open>What a clean-up may do: sessions and connections only end, no attempts are gained except those of \<open>X\<close>,
  closed sockets stay closed.\<close>

definition clean :: "token set \<Rightarrow> Server \<Rightarrow> Server \<Rightarrow> bool" where
  "clean X S S' \<longleftrightarrow>
     (\<exists>P. sessions S' = filter P (sessions S)) \<and> tokensLe (tokens S') (tokens S \<union> X)
     \<and> created S' = created S \<and> history S' = history S \<and> clock S' = clock S \<and> aborted S' = aborted S
     \<and> set (connected S') \<subseteq> set (connected S)
     \<and> (\<forall>p. readyState (peers S p) \<noteq> OPEN \<longrightarrow> readyState (peers S' p) \<noteq> OPEN)
     \<and> (\<forall>p. ip (peers S' p) = ip (peers S p))"

text \<open>A session object a handler holds: the table contains it or none of its peers.\<close>

definition captured :: "Server \<Rightarrow> Session \<Rightarrow> bool" where
  "captured S s \<longleftrightarrow>
     sender s \<noteq> receiver s \<and> {sender s, receiver s} \<subseteq> set (created S) \<and> remainingAttempts s \<le> 2
     \<and> (\<forall>(k, t) \<in> set (sessions S). k = sid s \<or> member t (sender s) \<or> member t (receiver s) \<longrightarrow> k = sid s \<and> t = s)
     \<and> \<not> inCodes S (sender s)
     \<and> (\<forall>(k, w) \<in> set (codes S). waitingReceiver w = receiver s \<longrightarrow> k = sessionCode s)"

section \<open>Clean steps compose\<close>

lemma tokensLe_refl [simp]: "tokensLe A (A \<union> X)"
  by (auto simp: tokensLe_def)

lemma tokensLe_trans:
  assumes "tokensLe A (B \<union> X)" "tokensLe B (C \<union> X)" shows "tokensLe A (C \<union> X)"
  unfolding tokensLe_def
proof clarify
  fix r c a assume "(r, c, a) \<in> A"
  with assms(1) obtain b where b: "a \<le> b" "(r, c, b) \<in> B \<union> X" unfolding tokensLe_def by blast
  show "\<exists>b\<ge>a. (r, c, b) \<in> C \<union> X"
  proof (cases "(r, c, b) \<in> B")
    case True
    with assms(2) obtain b' where "b \<le> b'" "(r, c, b') \<in> C \<union> X" unfolding tokensLe_def by blast
    with b show ?thesis by (meson order_trans)
  next
    case False
    with b show ?thesis by blast
  qed
qed

lemma clean_refl [simp, intro]: "clean X S S"
  by (auto simp: clean_def intro!: exI[of _ "\<lambda>_. True"])

lemma clean_trans [trans]: "clean X S S' \<Longrightarrow> clean X S' S'' \<Longrightarrow> clean X S S''"
proof -
  assume a: "clean X S S'" and b: "clean X S' S''"
  then obtain P Q where "sessions S' = filter P (sessions S)" "sessions S'' = filter Q (sessions S')"
    by (auto simp: clean_def)
  then have "sessions S'' = filter (\<lambda>x. P x \<and> Q x) (sessions S)" by (simp add: conj_commute)
  moreover have "tokensLe (tokens S'') (tokens S \<union> X)"
    using a b tokensLe_trans by (auto simp: clean_def)
  ultimately show "clean X S S''" using a b unfolding clean_def by auto
qed

lemma clean_weaken: "clean X S S' \<Longrightarrow> X \<subseteq> Y \<Longrightarrow> clean Y S S'"
proof -
  assume a: "clean X S S'" and sub: "X \<subseteq> Y"
  have "tokensLe (tokens S') (tokens S \<union> Y)"
    using a sub unfolding clean_def tokensLe_def by blast
  with a show "clean Y S S'" unfolding clean_def by blast
qed

lemma clean_absorb: "clean X S S' \<Longrightarrow> X \<subseteq> tokens S \<Longrightarrow> clean {} S S'"
  by (simp add: clean_def Un_absorb2)

lemma cleanD:
  assumes "clean X S S'"
  shows "set (sessions S') \<subseteq> set (sessions S)" "length (sessions S') \<le> length (sessions S)"
    "created S' = created S" "history S' = history S" "clock S' = clock S" "aborted S' = aborted S"
    "ip (peers S' p) = ip (peers S p)"
    "readyState (peers S p) \<noteq> OPEN \<Longrightarrow> readyState (peers S' p) \<noteq> OPEN"
    "set (connected S') \<subseteq> set (connected S)"
  using assms by (auto simp: clean_def)

lemma tokens_cases:
  assumes "(r, c, a) \<in> tokens S"
  obtains k w where "(k, w) \<in> set (codes S)" "r = waitingReceiver w" "c = k" "a = waitingAttempts w"
    | k s where "(k, s) \<in> set (sessions S)" "r = receiver s" "c = sessionCode s" "a = remainingAttempts s"
  using assms by (auto simp: tokens_def sessionToken_def)

lemma captured_clean:
  assumes cap: "captured S s" and cl: "clean {sessionToken s} S S'"
  shows "captured S' s"
proof -
  have ne: "sender s \<noteq> receiver s" using cap by (simp add: captured_def)
  have sess: "\<forall>(k, t) \<in> set (sessions S'). k = sid s \<or> member t (sender s) \<or> member t (receiver s) \<longrightarrow> k = sid s \<and> t = s"
    using cap cleanD(1)[OF cl] unfolding captured_def by blast
  have tok: "\<exists>b. (waitingReceiver w, k, b) \<in> tokens S \<union> {sessionToken s}" if "(k, w) \<in> set (codes S')" for k w
  proof -
    have "(waitingReceiver w, k, waitingAttempts w) \<in> tokens S'" using that by (force simp: tokens_def)
    then show ?thesis using cl unfolding clean_def tokensLe_def by blast
  qed
  have own: "(waitingReceiver w \<noteq> sender s) \<and> (waitingReceiver w = receiver s \<longrightarrow> k = sessionCode s)"
    if mem: "(k, w) \<in> set (codes S')" for k w
  proof -
    from tok[OF mem] obtain b where b: "(waitingReceiver w, k, b) \<in> tokens S \<or> (waitingReceiver w, k, b) = sessionToken s" by blast
    then show ?thesis
    proof
      assume "(waitingReceiver w, k, b) = sessionToken s"
      then show ?thesis using ne by (auto simp: sessionToken_def)
    next
      assume "(waitingReceiver w, k, b) \<in> tokens S"
      then show ?thesis
      proof (cases rule: tokens_cases)
        case (1 k' w')
        then show ?thesis using cap by (fastforce simp: captured_def inCodes_def)
      next
        case (2 k' t)
        then have "waitingReceiver w \<in> {sender s, receiver s} \<longrightarrow> t = s"
          using cap by (fastforce simp: captured_def member_def)
        with 2 ne show ?thesis by auto
      qed
    qed
  qed
  then have "\<not> inCodes S' (sender s)" "\<forall>(k, w) \<in> set (codes S'). waitingReceiver w = receiver s \<longrightarrow> k = sessionCode s"
    by (auto simp: inCodes_def)
  with sess cap cleanD(3)[OF cl] show ?thesis by (simp add: captured_def)
qed

lemma refInv_session:
  "refInv S \<Longrightarrow> (k, s) \<in> set (sessions S) \<Longrightarrow> sessionOk S k s"
  by (auto simp: refInv_def)

lemma refInv_code: "refInv S \<Longrightarrow> (k, w) \<in> set (codes S) \<Longrightarrow> codeOk S k w"
  by (auto simp: refInv_def)

text \<open>A peer takes part in one session at most.\<close>

lemma session_unique:
  assumes "refInv S" "(k, s) \<in> set (sessions S)" "(k', t) \<in> set (sessions S)" "member s p" "member t p"
  shows "k = k' \<and> s = t"
proof -
  have "peerSid (peers S p) = Some k" "peerSid (peers S p) = Some k'"
    using assms refInv_session by (fastforce simp: sessionOk_def member_def)+
  then have "k = k'" by simp
  moreover have "distinct (map fst (sessions S))" using assms(1) by (simp add: refInv_def)
  ultimately show ?thesis using assms(2,3) by (metis mem_map_of option.inject)
qed

lemma captured_live:
  assumes "refInv S" "(k, s) \<in> set (sessions S)"
  shows "captured S s"
proof -
  have ok: "sessionOk S k s" using assms by (rule refInv_session)
  have d: "distinct (map fst (sessions S))" using assms(1) by (simp add: refInv_def)
  have u: "k' = sid s \<and> t = s" if "(k', t) \<in> set (sessions S)" "k' = sid s \<or> member t (sender s) \<or> member t (receiver s)" for k' t
    using that(2)
  proof (elim disjE)
    assume "k' = sid s"
    with ok that(1) assms(2) d show ?thesis by (metis mem_map_of option.inject sessionOk_def)
  next
    assume "member t (sender s)"
    with session_unique[OF assms that(1)] ok show ?thesis by (auto simp: member_def sessionOk_def)
  next
    assume "member t (receiver s)"
    with session_unique[OF assms that(1)] ok show ?thesis by (auto simp: member_def sessionOk_def)
  qed
  have c: "waitingReceiver w \<noteq> sender s \<and> waitingReceiver w \<noteq> receiver s" if "(k', w) \<in> set (codes S)" for k' w
    using refInv_code[OF assms(1) that] assms(2) by (fastforce simp: codeOk_def inSessions_def member_def)
  have c1: "\<not> inCodes S (sender s)" using c by (auto simp: inCodes_def)
  have c2: "\<forall>(k', w) \<in> set (codes S). waitingReceiver w = receiver s \<longrightarrow> k' = sessionCode s" using c by auto
  have u': "\<forall>(k', t) \<in> set (sessions S). k' = sid s \<or> member t (sender s) \<or> member t (receiver s) \<longrightarrow> k' = sid s \<and> t = s"
    using u by blast
  show ?thesis using ok u' c1 c2 by (simp add: captured_def sessionOk_def)
qed

lemma live_token: "(k, s) \<in> set (sessions S) \<Longrightarrow> sessionToken s \<in> tokens S"
  by (force simp: tokens_def)

section \<open>Steps that keep the links\<close>

text \<open>Operations on sockets, timers and logs do not touch the tables or what a peer is linked
  to.\<close>

definition quiet :: "Server \<Rightarrow> Server \<Rightarrow> bool" where
  "quiet S S' \<longleftrightarrow>
     sessions S' = sessions S \<and> codes S' = codes S \<and> created S' = created S
     \<and> set (connected S') \<subseteq> set (connected S) \<and> history S' = history S \<and> clock S' = clock S \<and> aborted S' = aborted S
     \<and> (\<forall>p. peerSid (peers S' p) = peerSid (peers S p) \<and> peerCode (peers S' p) = peerCode (peers S p)
          \<and> role (peers S' p) = role (peers S p) \<and> ip (peers S' p) = ip (peers S p)
          \<and> (readyState (peers S p) \<noteq> OPEN \<longrightarrow> readyState (peers S' p) \<noteq> OPEN))"

definition sameConn :: "Server \<Rightarrow> Server \<Rightarrow> bool" where
  "sameConn S S' \<longleftrightarrow>
     connected S' = connected S \<and> created S' = created S \<and> activeConnections S' = activeConnections S
     \<and> (\<forall>p. connectionReleased (peers S' p) = connectionReleased (peers S p) \<and> ip (peers S' p) = ip (peers S p)
          \<and> (readyState (peers S p) \<noteq> OPEN \<longrightarrow> readyState (peers S' p) \<noteq> OPEN))"

lemma quiet_refl [simp, intro]: "quiet S S"
  by (simp add: quiet_def)

lemma quiet_trans [trans]: "quiet S S' \<Longrightarrow> quiet S' S'' \<Longrightarrow> quiet S S''"
  unfolding quiet_def by (intro conjI allI) (auto dest: subsetD)

lemma sameConn_trans [trans]: "sameConn S S' \<Longrightarrow> sameConn S' S'' \<Longrightarrow> sameConn S S''"
  by (simp add: sameConn_def)

lemma sameConn_connInv: "sameConn S S' \<Longrightarrow> connInv S \<Longrightarrow> connInv S'"
  by (simp add: sameConn_def connInv_def)

lemma quiet_inSessions: "quiet S S' \<Longrightarrow> inSessions S' p = inSessions S p"
  by (simp add: quiet_def inSessions_def)

lemma quiet_refInv: "quiet S S' \<Longrightarrow> refInv S \<Longrightarrow> refInv S'"
  unfolding refInv_def sessionOk_def codeOk_def waits_def
  by (auto simp: quiet_def quiet_inSessions inSessions_def)

lemma quiet_clean: "quiet S S' \<Longrightarrow> clean X S S'"
  by (auto simp: quiet_def clean_def tokens_def intro!: exI[of _ "\<lambda>_. True"])

lemma updPeer_simps [simp]:
  "sessions (updPeer p f S) = sessions S" "codes (updPeer p f S) = codes S" "created (updPeer p f S) = created S"
  "history (updPeer p f S) = history S" "clock (updPeer p f S) = clock S" "aborted (updPeer p f S) = aborted S"
  "connected (updPeer p f S) = connected S" "activeConnections (updPeer p f S) = activeConnections S"
  "peers (updPeer p f S) q = (if q = p then f (peers S p) else peers S q)"
  "calls (updPeer p f S) = calls S" "wire (updPeer p f S) = wire S" "rateLimits (updPeer p f S) = rateLimits S"
  "turnIssueRateLimits (updPeer p f S) = turnIssueRateLimits S"
  by (auto simp: updPeer_def)

lemma wsContractD:
  "wsContract env \<Longrightarrow> closeResult env n = Some st \<Longrightarrow> st \<noteq> OPEN"
  "wsContract env \<Longrightarrow> terminateResult env n \<noteq> OPEN"
  by (auto simp: wsContract_def)

lemma wsTerminate_quiet:
  assumes "wsContract env"
  shows "quiet S (wsTerminate env p S)" "sameConn S (wsTerminate env p S)" "readyState (peers (wsTerminate env p S) p) \<noteq> OPEN"
  using wsContractD(2)[OF assms] by (auto simp: wsTerminate_def quiet_def sameConn_def)

lemma calls_quiet: "quiet S (S\<lparr>calls := n\<rparr>)" "sameConn S (S\<lparr>calls := n\<rparr>)"
  by (simp_all add: quiet_def sameConn_def)

lemma closePeerWithCode_quiet:
  assumes "wsContract env"
  shows "quiet S (closePeerWithCode env p c r S)" "sameConn S (closePeerWithCode env p c r S)"
    "readyState (peers (closePeerWithCode env p c r S) p) \<noteq> OPEN"
proof -
  let ?S = "closePeerWithCode env p c r S"
  consider (no) "?S = S" "readyState (peers S p) \<noteq> OPEN"
    | (kill) "?S = wsTerminate env p (S\<lparr>calls := Suc (calls S)\<rparr>)"
    | (close) t st where "closeResult env (calls S) = Some st"
      "?S = scheduleCloseTermination p ((updPeer p (\<lambda>q. q\<lparr>readyState := st\<rparr>) S)
              \<lparr>calls := Suc (calls S), wire := wire S @ [(p, CloseFrame c t)]\<rparr>)"
  proof (cases "readyState (peers S p) \<in> {OPEN, CONNECTING, CLOSING}")
    case False
    with no show ?thesis by (auto simp: closePeerWithCode_def)
  next
    case True
    then show ?thesis
      using kill close
      by (cases "closeResult env (calls S)"; cases "websocketCloseReason (Str (js (wireCloseReason c r)))")
        (simp_all only: closePeerWithCode_def if_True prod.case sum.case option.case)
  qed
  then have "quiet S ?S \<and> sameConn S ?S \<and> readyState (peers ?S p) \<noteq> OPEN"
  proof cases
    case no
    then show ?thesis by (simp add: sameConn_def)
  next
    case kill
    then show ?thesis
      using wsTerminate_quiet[OF assms, where S = "S\<lparr>calls := Suc (calls S)\<rparr>" and p = p] calls_quiet[of S "Suc (calls S)"]
        quiet_trans sameConn_trans by metis
  next
    case (close t st)
    then show ?thesis
      using wsContractD(1)[OF assms close(1)] by (auto simp: quiet_def sameConn_def scheduleCloseTermination_def)
  qed
  then show "quiet S ?S" "sameConn S ?S" "readyState (peers ?S p) \<noteq> OPEN" by blast+
qed

text \<open>Releasing a connection takes it out of the count of its address.\<close>

lemma release_quiet:
  "quiet S (releaseActiveConnection keep p S)"
  "readyState (peers (releaseActiveConnection keep p S) q) = readyState (peers S q)"
  by (auto simp: releaseActiveConnection_def clearIdleTimer_def clearCloseTimer_def Let_def quiet_def)

lemma filter_remove_count:
  assumes "distinct xs" "p \<in> set xs"
  shows "length (filter Q (filter (\<lambda>q. q \<noteq> p) xs)) = length (filter Q xs) - (if Q p then 1 else 0)"
  using assms
proof (induction xs)
  case (Cons x xs)
  then show ?case
  proof (cases "x = p")
    case True
    with Cons.prems have "filter (\<lambda>q. q \<noteq> p) xs = xs" by (auto intro: filter_True)
    with True show ?thesis by simp
  next
    case False
    with Cons have IH: "length (filter Q (filter (\<lambda>q. q \<noteq> p) xs)) = length (filter Q xs) - (if Q p then 1 else 0)" by simp
    have "Q p \<Longrightarrow> 1 \<le> length (filter Q xs)"
      using Cons.prems False by (auto simp: filter_empty_conv Suc_le_eq)
    with IH False show ?thesis by (cases "Q p"; cases "Q x") auto
  qed
qed simp

lemma release_connInv:
  assumes "connInv S" shows "connInv (releaseActiveConnection keep p S)"
proof (cases "connectionReleased (peers S p)")
  case True then show ?thesis using assms by (simp add: releaseActiveConnection_def)
next
  case False
  let ?S = "releaseActiveConnection keep p S"
  have pc: "p \<in> set (connected S)" and d: "distinct (connected S)"
    using assms False by (auto simp: connInv_def)
  have conn: "connected ?S = filter (\<lambda>q. q \<noteq> p) (connected S)" "created ?S = created S"
    using False by (simp_all add: releaseActiveConnection_def clearIdleTimer_def clearCloseTimer_def Let_def)
  have ps: "ip (peers ?S q) = ip (peers S q)" "connectionReleased (peers ?S q) = (connectionReleased (peers S q) \<or> q = p)" for q
    using False by (auto simp: releaseActiveConnection_def clearIdleTimer_def clearCloseTimer_def Let_def)
  let ?count = "\<lambda>T x. length (filter (\<lambda>q. ip (peers T q) = x) (connected T))"
  have cnt: "?count ?S x = ?count S x - (if ip (peers S p) = x then 1 else 0)" for x
    unfolding conn ps by (rule filter_remove_count[OF d pc])
  have act: "activeConnections S x = (let n = ?count S x in if n = 0 then None else Some n)" for x
    using assms by (simp add: connInv_def)
  have upd: "activeConnections ?S = (let x = ip (peers S p); n = (case activeConnections S x of None \<Rightarrow> 0 | Some n \<Rightarrow> n) in
      if n \<le> 1 then (activeConnections S)(x := None) else (activeConnections S)(x \<mapsto> n - 1))"
    using False by (simp add: releaseActiveConnection_def clearIdleTimer_def clearCloseTimer_def Let_def)
  have pos: "0 < ?count S (ip (peers S p))" using pc by (auto simp: filter_empty_conv)
  have "activeConnections ?S x = (let n = ?count ?S x in if n = 0 then None else Some n)" for x
  proof (cases "x = ip (peers S p)")
    case True
    have some: "activeConnections S x = Some (?count S x)" using act[of x] pos True by (simp only: Let_def) simp
    have "activeConnections ?S x = (if ?count S x \<le> 1 then None else Some (?count S x - 1))"
      unfolding upd Let_def True[symmetric] some by simp
    then show ?thesis unfolding cnt using True by (simp add: Let_def)
  next
    case other: False
    have "activeConnections ?S x = activeConnections S x"
      unfolding upd using other by (simp add: Let_def)
    then show ?thesis unfolding cnt using other act[of x] by simp
  qed
  moreover have "q \<in> set (connected ?S) \<longleftrightarrow> q \<in> set (created ?S) \<and> \<not> connectionReleased (peers ?S q)" for q
    using assms by (auto simp: conn ps connInv_def)
  ultimately show ?thesis
    using assms d by (auto simp: connInv_def conn ps release_quiet)
qed

definition safe :: "token set \<Rightarrow> Server \<Rightarrow> Server \<Rightarrow> bool" where
  "safe X S S' \<longleftrightarrow> serverInv S' \<and> clean X S S'"

lemma safe_trans [trans]: "safe X S S' \<Longrightarrow> safe X S' S'' \<Longrightarrow> safe X S S''"
  by (auto simp: safe_def intro: clean_trans)

lemma safe_refl: "serverInv S \<Longrightarrow> safe X S S"
  by (simp add: safe_def)

lemma closePeer_safe:
  assumes "wsContract env" "serverInv S"
  shows "safe X S (closePeerWithCodeAndRelease env p c r S)" "safe X S (closePeerAndRelease env p r S)"
    "quiet S (closePeerWithCodeAndRelease env p c r S)" "quiet S (closePeerAndRelease env p r S)"
    "readyState (peers (closePeerWithCodeAndRelease env p c r S) p) \<noteq> OPEN"
    "readyState (peers (closePeerAndRelease env p r S) p) \<noteq> OPEN"
proof -
  have q: "quiet S (closePeerWithCodeAndRelease env p c r S)" for c r
    unfolding closePeerWithCodeAndRelease_def using closePeerWithCode_quiet(1)[OF assms(1)] release_quiet(1) by (rule quiet_trans)
  have i: "serverInv (closePeerWithCodeAndRelease env p c r S)" for c r
    using assms(2) q[of c r] quiet_refInv sameConn_connInv[OF closePeerWithCode_quiet(2)[OF assms(1)]] release_connInv
    by (auto simp: serverInv_def closePeerWithCodeAndRelease_def)
  have o: "readyState (peers (closePeerWithCodeAndRelease env p c r S) p) \<noteq> OPEN" for c r
    using closePeerWithCode_quiet(3)[OF assms(1)] by (simp add: closePeerWithCodeAndRelease_def release_quiet)
  have eq: "closePeerAndRelease env p r S = closePeerWithCodeAndRelease env p 1000 r S" for r
    by (simp add: closePeerAndRelease_def closePeer_def closePeerWithCodeAndRelease_def)
  show "safe X S (closePeerWithCodeAndRelease env p c r S)" "safe X S (closePeerAndRelease env p r S)"
    "quiet S (closePeerWithCodeAndRelease env p c r S)" "quiet S (closePeerAndRelease env p r S)"
    "readyState (peers (closePeerWithCodeAndRelease env p c r S) p) \<noteq> OPEN"
    "readyState (peers (closePeerAndRelease env p r S) p) \<noteq> OPEN"
    unfolding eq using q i o quiet_clean by (auto simp: safe_def)
qed

lemma release_safe: "serverInv S \<Longrightarrow> safe X S (releaseActiveConnection keep p S)"
  using release_quiet(1)[of S keep p] release_connInv[of S keep p] quiet_refInv quiet_clean unfolding safe_def serverInv_def by blast

lemma quiet_safe: "serverInv S \<Longrightarrow> quiet S S' \<Longrightarrow> sameConn S S' \<Longrightarrow> safe X S S'"
  using quiet_refInv sameConn_connInv quiet_clean by (auto simp: safe_def serverInv_def)

section \<open>Steps on the tables\<close>

lemma tokensLe_subset: "A \<subseteq> B \<Longrightarrow> tokensLe A (B \<union> X)"
  unfolding tokensLe_def by blast

lemma tokens_mono:
  "set (sessions S') \<subseteq> set (sessions S) \<Longrightarrow> set (codes S') \<subseteq> set (codes S) \<Longrightarrow> tokens S' \<subseteq> tokens S"
  unfolding tokens_def by blast

lemma table_simps [simp]:
  "sessions (sessionsDelete k S) = AList.delete k (sessions S)" "codes (sessionsDelete k S) = codes S"
  "peers (sessionsDelete k S) = peers S" "created (sessionsDelete k S) = created S"
  "clock (sessionsDelete k S) = clock S" "history (sessionsDelete k S) = history S"
  "codes (codesDelete k S) = AList.delete k (codes S)" "sessions (codesDelete k S) = sessions S"
  "peers (codesDelete k S) = peers S" "created (codesDelete k S) = created S"
  "clock (codesDelete k S) = clock S" "history (codesDelete k S) = history S"
  "codes (codesSet k w S) = AList.update k w (codes S)" "sessions (codesSet k w S) = sessions S"
  "peers (codesSet k w S) = peers S" "created (codesSet k w S) = created S"
  "clock (codesSet k w S) = clock S" "history (codesSet k w S) = history S"
  by (simp_all add: sessionsDelete_def codesDelete_def codesSet_def)

lemma table_sameConn:
  "sameConn S (sessionsDelete k S)" "sameConn S (codesDelete k S)" "sameConn S (codesSet k w S)"
  "sameConn S (clearPeerSessionState p S)"
  by (auto simp: sameConn_def sessionsDelete_def codesDelete_def codesSet_def clearPeerSessionState_def)

lemma inSessions_delete: "inSessions (sessionsDelete k S) p \<Longrightarrow> inSessions S p"
  by (auto simp: inSessions_def)

lemma sessionsDelete_safe:
  assumes "serverInv S" shows "safe X S (sessionsDelete k S)"
proof -
  have r: "refInv S" and c: "connInv S" using assms by (simp_all add: serverInv_def)
  have "refInv (sessionsDelete k S)"
    unfolding refInv_def
  proof (intro conjI)
    show "\<forall>(k', w) \<in> set (codes (sessionsDelete k S)). codeOk (sessionsDelete k S) k' w"
      using refInv_code[OF r] inSessions_delete by (fastforce simp: codeOk_def waits_def)
    show "\<forall>(k', s) \<in> set (sessions (sessionsDelete k S)). sessionOk (sessionsDelete k S) k' s"
      using refInv_session[OF r] by (fastforce simp: sessionOk_def)
  qed (use r distinct_delete in \<open>auto simp: refInv_def\<close>)
  moreover have "clean X S (sessionsDelete k S)"
    using tokensLe_subset[OF tokens_mono[of "sessionsDelete k S" S], of X]
    by (auto simp: clean_def AList.delete_eq sessionsDelete_def)
  ultimately show ?thesis using sameConn_connInv[OF table_sameConn(1) c] by (simp add: safe_def serverInv_def)
qed

lemma distinct_receivers_delete:
  "distinct (map f (map snd al)) \<Longrightarrow> distinct (map f (map snd (AList.delete k al)))"
  by (induction al) (auto simp: AList.delete_eq)

lemma codesDelete_safe:
  assumes "serverInv S" shows "safe X S (codesDelete k S)"
proof -
  have r: "refInv S" and c: "connInv S" using assms by (simp_all add: serverInv_def)
  have i: "inSessions (codesDelete k S) p = inSessions S p" for p by (simp add: inSessions_def)
  have "refInv (codesDelete k S)"
    unfolding refInv_def
  proof (intro conjI)
    show "\<forall>(k', w) \<in> set (codes (codesDelete k S)). codeOk (codesDelete k S) k' w"
      using refInv_code[OF r] by (fastforce simp: codeOk_def waits_def i)
    show "\<forall>(k', s) \<in> set (sessions (codesDelete k S)). sessionOk (codesDelete k S) k' s"
      using refInv_session[OF r] by (fastforce simp: sessionOk_def)
    show "distinct (map waitingReceiver (map snd (codes (codesDelete k S))))"
      using r distinct_receivers_delete[of waitingReceiver "codes S" k] by (simp add: refInv_def)
  qed (use r distinct_delete in \<open>auto simp: refInv_def\<close>)
  moreover have "clean X S (codesDelete k S)"
    using tokensLe_subset[OF tokens_mono[of "codesDelete k S" S], of X]
    by (auto simp: clean_def codesDelete_def intro!: exI[of _ "\<lambda>_. True"])
  ultimately show ?thesis using sameConn_connInv[OF table_sameConn(2) c] by (simp add: safe_def serverInv_def)
qed

lemma clear_simps [simp]:
  "sessions (clearPeerSessionState p S) = sessions S" "codes (clearPeerSessionState p S) = codes S"
  "created (clearPeerSessionState p S) = created S" "clock (clearPeerSessionState p S) = clock S"
  "readyState (peers (clearPeerSessionState p S) q) = readyState (peers S q)"
  "peerSid (peers (clearPeerSessionState p S) q) = (if q = p then None else peerSid (peers S q))"
  "peerCode (peers (clearPeerSessionState p S) q) = (if q = p then None else peerCode (peers S q))"
  "role (peers (clearPeerSessionState p S) q) = (if q = p then None else role (peers S q))"
  by (simp_all add: clearPeerSessionState_def)

lemma clear_clean: "clean X S (clearPeerSessionState p S)"
  by (auto simp: clean_def tokens_def clearPeerSessionState_def intro!: exI[of _ "\<lambda>_. True"])

text \<open>A peer that is not paired may be cleared unless it waits on an open socket.\<close>

lemma clear_safe:
  assumes "serverInv S" "\<not> inSessions S p" "inCodes S p \<longrightarrow> readyState (peers S p) \<noteq> OPEN"
  shows "safe X S (clearPeerSessionState p S)"
proof -
  have r: "refInv S" and c: "connInv S" using assms by (simp_all add: serverInv_def)
  let ?S = "clearPeerSessionState p S"
  have i: "inSessions ?S q = inSessions S q" for q by (simp add: inSessions_def)
  have "refInv ?S"
    unfolding refInv_def
  proof (intro conjI)
    show "\<forall>(k, w) \<in> set (codes ?S). codeOk ?S k w"
    proof clarsimp
      fix k w assume m: "(k, w) \<in> set (codes S)"
      have "waitingReceiver w = p \<Longrightarrow> readyState (peers S p) \<noteq> OPEN" using m assms(3) by (auto simp: inCodes_def)
      with refInv_code[OF r m] show "codeOk ?S k w" by (auto simp: codeOk_def waits_def i)
    qed
    show "\<forall>(k, s) \<in> set (sessions ?S). sessionOk ?S k s"
    proof clarsimp
      fix k s assume m: "(k, s) \<in> set (sessions S)"
      have "sender s \<noteq> p" "receiver s \<noteq> p" using m assms(2) by (auto simp: inSessions_def member_def)
      with refInv_session[OF r m] show "sessionOk ?S k s" by (auto simp: sessionOk_def)
    qed
  qed (use r in \<open>auto simp: refInv_def\<close>)
  then show ?thesis using sameConn_connInv[OF table_sameConn(4) c] clear_clean by (simp add: safe_def serverInv_def)
qed

text \<open>Clearing a peer's links and closing a socket touch different fields.\<close>

lemma updPeer_commute:
  "(\<And>q. f (g q) = g (f q)) \<Longrightarrow> updPeer p f (updPeer r g S) = updPeer r g (updPeer p f S)"
  by (auto simp: updPeer_def fun_eq_iff)

lemma closePeerWithCode_clear:
  "closePeerWithCode env p c r (clearPeerSessionState q S) = clearPeerSessionState q (closePeerWithCode env p c r S)"
proof -
  have sel: "readyState (peers (clearPeerSessionState q S) p) = readyState (peers S p)"
    "calls (clearPeerSessionState q S) = calls S" "wire (clearPeerSessionState q S) = wire S" for S
    by (auto simp: clearPeerSessionState_def)
  have st: "scheduleCloseTermination p (clearPeerSessionState q S) = clearPeerSessionState q (scheduleCloseTermination p S)" for S
    by (auto simp: scheduleCloseTermination_def clearPeerSessionState_def updPeer_def fun_eq_iff)
  have tm: "wsTerminate env p (clearPeerSessionState q S) = clearPeerSessionState q (wsTerminate env p S)" for S
    by (auto simp: wsTerminate_def clearPeerSessionState_def updPeer_def fun_eq_iff)
  have up: "(updPeer p (\<lambda>x. x\<lparr>readyState := u\<rparr>) (clearPeerSessionState q S))\<lparr>calls := n, wire := v\<rparr>
      = clearPeerSessionState q ((updPeer p (\<lambda>x. x\<lparr>readyState := u\<rparr>) S)\<lparr>calls := n, wire := v\<rparr>)" for S u n v
    by (auto simp: clearPeerSessionState_def updPeer_def fun_eq_iff)
  have cl: "(clearPeerSessionState q S)\<lparr>calls := n\<rparr> = clearPeerSessionState q (S\<lparr>calls := n\<rparr>)" for S n
    by (simp add: clearPeerSessionState_def updPeer_def)
  show ?thesis
    unfolding closePeerWithCode_def sel up cl
    by (auto simp: st tm split: sum.splits option.splits)
qed

lemma release_clear:
  "releaseActiveConnection keep p (clearPeerSessionState q S) = clearPeerSessionState q (releaseActiveConnection keep p S)"
proof -
  have sel: "connectionReleased (peers (clearPeerSessionState q S) p) = connectionReleased (peers S p)"
    "ip (peers (clearPeerSessionState q S) p) = ip (peers S p)"
    "connected (clearPeerSessionState q S) = connected S" "activeConnections (clearPeerSessionState q S) = activeConnections S" for S
    by (auto simp: clearPeerSessionState_def)
  have up: "updPeer p (\<lambda>x. x\<lparr>connectionReleased := True\<rparr>) (clearPeerSessionState q S)
      = clearPeerSessionState q (updPeer p (\<lambda>x. x\<lparr>connectionReleased := True\<rparr>) S)"
    "updPeer p (\<lambda>x. x\<lparr>idleTimer := False\<rparr>) (clearPeerSessionState q S)
      = clearPeerSessionState q (updPeer p (\<lambda>x. x\<lparr>idleTimer := False\<rparr>) S)"
    "updPeer p (\<lambda>x. x\<lparr>closeTimer := False\<rparr>) (clearPeerSessionState q S)
      = clearPeerSessionState q (updPeer p (\<lambda>x. x\<lparr>closeTimer := False\<rparr>) S)" for S
    unfolding clearPeerSessionState_def by (rule updPeer_commute, simp)+
  have conn: "(clearPeerSessionState q S)\<lparr>connected := c\<rparr> = clearPeerSessionState q (S\<lparr>connected := c\<rparr>)"
    "(clearPeerSessionState q S)\<lparr>activeConnections := a\<rparr> = clearPeerSessionState q (S\<lparr>activeConnections := a\<rparr>)" for S c a
    by (simp_all add: clearPeerSessionState_def updPeer_def)
  show ?thesis
    unfolding releaseActiveConnection_def clearIdleTimer_def clearCloseTimer_def Let_def
    by (cases keep) (simp_all only: sel up conn if_True if_False if_distrib[of "clearPeerSessionState q"])
qed

lemma closePeer_clear:
  "closePeerAndRelease env p r (clearPeerSessionState q S) = clearPeerSessionState q (closePeerAndRelease env p r S)"
  by (simp add: closePeerAndRelease_def closePeer_def closePeerWithCode_clear release_clear)

section \<open>Detached sessions\<close>

text \<open>A captured session that is no longer in the table.\<close>

definition detached :: "Server \<Rightarrow> Session \<Rightarrow> bool" where
  "detached S s \<longleftrightarrow> captured S s \<and> sid s \<notin> fst ` set (sessions S)"

lemma detached_delete: "captured S s \<Longrightarrow> detached (sessionsDelete (sid s) S) s"
  by (auto simp: detached_def captured_def inCodes_def)

lemma detached_clean:
  "detached S s \<Longrightarrow> clean {sessionToken s} S S' \<Longrightarrow> detached S' s"
  using captured_clean cleanD(1) unfolding detached_def by (meson image_mono subsetD)

lemma detached_safe: "detached S s \<Longrightarrow> safe {sessionToken s} S S' \<Longrightarrow> detached S' s"
  by (simp add: safe_def detached_clean)

lemma detached_safe0: "detached S s \<Longrightarrow> safe {} S S' \<Longrightarrow> detached S' s"
  using clean_weaken[of "{}"] by (auto simp: safe_def intro: detached_clean)

lemma safe_weaken: "safe {} S S' \<Longrightarrow> safe X S S'"
  by (auto simp: safe_def intro: clean_weaken)

lemma detached_free:
  assumes "detached S s" shows "\<not> inSessions S (sender s)" "\<not> inSessions S (receiver s)" "\<not> inCodes S (sender s)"
proof -
  have no: "\<not> member t (sender s) \<and> \<not> member t (receiver s)" if "(k, t) \<in> set (sessions S)" for k t
  proof -
    have "k \<noteq> sid s" using that assms by (force simp: detached_def)
    moreover have "\<forall>(k, t) \<in> set (sessions S). k = sid s \<or> member t (sender s) \<or> member t (receiver s) \<longrightarrow> k = sid s \<and> t = s"
      using assms by (simp add: detached_def captured_def)
    ultimately show ?thesis using that by blast
  qed
  show "\<not> inSessions S (sender s)" "\<not> inSessions S (receiver s)" using no unfolding inSessions_def by blast+
  show "\<not> inCodes S (sender s)" using assms by (simp add: detached_def captured_def)
qed

text \<open>A peer that owns nothing keeps owning nothing.\<close>

lemma free_clean:
  assumes "clean {} S S'" "\<not> inSessions S p" "\<not> inCodes S p"
  shows "\<not> inCodes S' p"
proof
  assume "inCodes S' p"
  then obtain k w where "(k, w) \<in> set (codes S')" "waitingReceiver w = p" by (auto simp: inCodes_def)
  then have "(p, k, waitingAttempts w) \<in> tokens S'" by (force simp: tokens_def)
  with assms(1) obtain b where "(p, k, b) \<in> tokens S" unfolding clean_def tokensLe_def by blast
  then show False
    by (cases rule: tokens_cases) (use assms in \<open>force simp: inCodes_def inSessions_def member_def\<close>)+
qed

lemma close_open:
  assumes "wsContract env" "serverInv S" "readyState (peers S p) \<noteq> OPEN"
  shows "readyState (peers (closePeerAndRelease env q r S) p) \<noteq> OPEN"
  using closePeer_safe(4)[OF assms(1,2)] assms(3) by (auto simp: quiet_def)

lemma closeSessionPeers_safe:
  assumes "wsContract env" "serverInv S" "captured S s"
  shows "safe {} S (closeSessionPeers env s reason S)"
proof -
  define S1 where "S1 = sessionsDelete (sid s) S"
  define S2 where "S2 = closePeerAndRelease env (receiver s) reason (closePeerAndRelease env (sender s) reason S1)"
  have eq: "closeSessionPeers env s reason S = clearPeerSessionState (receiver s) (clearPeerSessionState (sender s) S2)"
    by (simp add: closeSessionPeers_def S1_def S2_def closePeer_clear)
  have s1: "safe {} S S1" unfolding S1_def by (rule sessionsDelete_safe[OF assms(2)])
  have s2: "safe {} S1 S2"
    unfolding S2_def using closePeer_safe(2)[OF assms(1)] s1 safe_trans by (meson safe_def)
  have i1: "serverInv (closePeerAndRelease env (sender s) reason S1)" using closePeer_safe(2)[OF assms(1)] s1 by (auto simp: safe_def)
  have open2: "readyState (peers S2 (receiver s)) \<noteq> OPEN"
    unfolding S2_def by (rule closePeer_safe(6)[OF assms(1) i1])
  have d: "detached S2 s"
    using detached_safe0[OF detached_delete[OF assms(3)]] s2 by (simp add: S1_def)
  have s3: "safe {} S2 (clearPeerSessionState (sender s) S2)"
    using detached_free[OF d] s2 by (intro clear_safe) (auto simp: safe_def)
  have "detached (clearPeerSessionState (sender s) S2) s" using detached_safe0[OF d s3] .
  then have s4: "safe {} (clearPeerSessionState (sender s) S2) (clearPeerSessionState (receiver s) (clearPeerSessionState (sender s) S2))"
    using detached_free open2 s3 by (intro clear_safe) (auto simp: safe_def)
  show ?thesis unfolding eq using s1 s2 s3 s4 safe_trans by meson
qed

section \<open>Putting a receiver back\<close>

lemma resetReceiver_simps [simp]:
  "sessions (resetReceiver s S) = sessions S" "codes (resetReceiver s S) = codes S" "created (resetReceiver s S) = created S"
  "clock (resetReceiver s S) = clock S" "readyState (peers (resetReceiver s S) q) = readyState (peers S q)"
  by (simp_all add: resetReceiver_def)

lemma resetReceiver_link:
  "sender s \<noteq> receiver s \<Longrightarrow> peerSid (peers (resetReceiver s S) (receiver s)) = None"
  "peerCode (peers (resetReceiver s S) (receiver s)) = Some (sessionCode s)"
  "role (peers (resetReceiver s S) (receiver s)) = Some Receiver"
  by (simp_all add: resetReceiver_def)

lemma resetReceiver_safe:
  assumes "serverInv S" "detached S s" shows "safe X S (resetReceiver s S)"
proof -
  have s1: "safe X S (clearPeerSessionState (sender s) S)"
    using detached_free[OF assms(2)] assms(1) by (intro clear_safe) auto
  let ?T = "clearPeerSessionState (sender s) S"
  let ?S = "resetReceiver s S"
  have r: "refInv ?T" and c: "connInv ?T" using s1 by (simp_all add: safe_def serverInv_def)
  have d: "\<not> inSessions ?T (receiver s)" using detached_free[OF assms(2)] by (simp add: inSessions_def)
  have i: "inSessions ?S q = inSessions ?T q" for q by (simp add: inSessions_def)
  have key: "\<forall>(k, w) \<in> set (codes S). waitingReceiver w = receiver s \<longrightarrow> k = sessionCode s" and ne: "sender s \<noteq> receiver s"
    using assms(2) by (simp_all add: detached_def captured_def)
  have "refInv ?S"
    unfolding refInv_def
  proof (intro conjI)
    show "\<forall>(k, w) \<in> set (codes ?S). codeOk ?S k w"
    proof clarsimp
      fix k w assume m: "(k, w) \<in> set (codes S)"
      then have ok: "codeOk ?T k w" using refInv_code[OF r] by simp
      show "codeOk ?S k w"
      proof (cases "waitingReceiver w = receiver s")
        case True
        then have "k = sessionCode s" using key m by blast
        with True ok ne show ?thesis by (simp add: codeOk_def waits_def i resetReceiver_link)
      next
        case False
        then show ?thesis using ok by (simp add: codeOk_def waits_def i) (simp add: resetReceiver_def)
      qed
    qed
    show "\<forall>(k, t) \<in> set (sessions ?S). sessionOk ?S k t"
    proof clarsimp
      fix k t assume m: "(k, t) \<in> set (sessions S)"
      then have ok: "sessionOk ?T k t" using refInv_session[OF r] by simp
      have "sender t \<noteq> receiver s" "receiver t \<noteq> receiver s" using d m by (auto simp: inSessions_def member_def)
      with ok show "sessionOk ?S k t" by (simp add: sessionOk_def) (simp add: resetReceiver_def)
    qed
  qed (use r in \<open>auto simp: refInv_def\<close>)
  moreover have "sameConn ?T ?S" by (simp add: sameConn_def resetReceiver_def)
  moreover have "clean X ?T ?S"
    by (auto simp: clean_def tokens_def resetReceiver_def clearPeerSessionState_def intro!: exI[of _ "\<lambda>_. True"])
  ultimately have "safe X ?T ?S" using sameConn_connInv c by (auto simp: safe_def serverInv_def)
  with s1 show ?thesis by (rule safe_trans)
qed

lemma captured_entry:
  "captured S s \<Longrightarrow> codesGet S (sessionCode s) = None \<Longrightarrow> \<not> inCodes S (receiver s)"
proof
  assume cap: "captured S s" and none: "codesGet S (sessionCode s) = None" and "inCodes S (receiver s)"
  then obtain k w where m: "(k, w) \<in> set (codes S)" "waitingReceiver w = receiver s" by (auto simp: inCodes_def)
  with cap have "k = sessionCode s" by (auto simp: captured_def)
  with m(1) have "sessionCode s \<in> fst ` set (codes S)" by force
  with none show False by (simp add: codesGet_def map_of_eq_None_iff)
qed

text \<open>Putting a code with the session's attempts into the table, under a free key or in place of
  the receiver's own entry.\<close>

lemma codesSet_safe:
  assumes i: "serverInv S" and d: "detached S s"
    and link: "waits S (sessionCode s) (receiver s)"
    and key: "codesGet S (sessionCode s) = None \<or> (\<exists>old. codesGet S (sessionCode s) = Some old \<and> waitingReceiver old = receiver s)"
    and w: "waitingKey w = sessionCode s" "waitingReceiver w = receiver s" "1 \<le> waitingAttempts w"
      "waitingAttempts w \<le> remainingAttempts s"
  shows "safe {sessionToken s} S (codesSet (sessionCode s) w S)"
proof -
  let ?S = "codesSet (sessionCode s) w S" and ?k = "sessionCode s"
  have r: "refInv S" and c: "connInv S" using i by (simp_all add: serverInv_def)
  have cap: "captured S s" and cr: "receiver s \<in> set (created S)" and rem: "remainingAttempts s \<le> 2"
    using d by (auto simp: detached_def captured_def)
  have dist: "distinct (map fst (codes S))" using r by (simp add: refInv_def)
  note set = set_update[OF dist, of ?k w]
  have others: "waitingReceiver w' \<noteq> receiver s" if "(k', w') \<in> set (codes S)" "k' \<noteq> ?k" for k' w'
    using cap that unfolding captured_def by blast
  have ins: "inSessions ?S q = inSessions S q" for q by (simp add: inSessions_def)
  have "refInv ?S"
    unfolding refInv_def
  proof (intro conjI)
    show "distinct (map fst (codes ?S))" using dist by (simp add: distinct_update)
    show "distinct (map waitingReceiver (map snd (codes ?S)))"
      unfolding table_simps using r w(2) others
      by (intro distinct_map_update[OF dist]) (auto simp: refInv_def, metis)
    show "\<forall>(k, w) \<in> set (codes ?S). codeOk ?S k w"
      using refInv_code[OF r] w rem cr link detached_free(2)[OF d] by (auto simp: set codeOk_def waits_def ins)
    show "\<forall>(k, t) \<in> set (sessions ?S). sessionOk ?S k t"
      using refInv_session[OF r] by (auto simp: sessionOk_def)
  qed (use r in \<open>auto simp: refInv_def\<close>)
  moreover have "tokensLe (tokens ?S) (tokens S \<union> {sessionToken s})"
    unfolding tokensLe_def
  proof clarify
    fix x y a assume "(x, y, a) \<in> tokens ?S"
    then show "\<exists>b\<ge>a. (x, y, b) \<in> tokens S \<union> {sessionToken s}"
    proof (cases rule: tokens_cases)
      case (1 k' w')
      then have "(k', w') \<in> set (codes S) \<or> (k', w') = (?k, w)" by (auto simp: set)
      then show ?thesis
      proof
        assume "(k', w') \<in> set (codes S)"
        then have "(x, y, a) \<in> tokens S" using 1 by (force simp: tokens_def)
        then show ?thesis by blast
      next
        assume "(k', w') = (?k, w)"
        then show ?thesis using 1 w by (auto simp: sessionToken_def)
      qed
    next
      case (2 k' t)
      then have "(x, y, a) \<in> tokens S" by (force simp: tokens_def sessionToken_def)
      then show ?thesis by blast
    qed
  qed
  ultimately show ?thesis
    using sameConn_connInv[OF table_sameConn(3) c, of ?k w]
    by (auto simp: safe_def serverInv_def clean_def codesSet_def intro!: exI[of _ "\<lambda>_. True"])
qed

section \<open>Clean-up with an abstract send function\<close>

text \<open>What the operations need of the function they send with: it keeps the invariant, is
  clean, and when it fails the socket is no longer open. \<open>room\<close> bounds the number of sessions
  for which this holds.\<close>

locale message_sender =
  fixes env :: Env and tell :: sendFun and room :: "nat \<Rightarrow> bool"
  assumes room_mono: "i \<le> j \<Longrightarrow> room j \<Longrightarrow> room i"
    and tell_safe: "wsContract env \<Longrightarrow> serverInv S \<Longrightarrow> room (length (sessions S)) \<Longrightarrow> safe {} S (fst (tell p m S))"
    and tell_false: "wsContract env \<Longrightarrow> serverInv S \<Longrightarrow> room (length (sessions S)) \<Longrightarrow> \<not> snd (tell p m S) \<Longrightarrow>
      readyState (peers (fst (tell p m S)) p) \<noteq> OPEN"
begin

definition roomy :: "Server \<Rightarrow> bool" where
  "roomy S \<longleftrightarrow> serverInv S \<and> room (length (sessions S))"

lemma roomyI: "safe X S S' \<Longrightarrow> roomy S \<Longrightarrow> roomy S'"
  using room_mono[of "length (sessions S')" "length (sessions S)"] cleanD(2)[of X S S'] by (auto simp: roomy_def safe_def)

lemma tell_step: "wsContract env \<Longrightarrow> roomy S \<Longrightarrow> safe X S (fst (tell p m S))"
  by (auto simp: roomy_def intro: safe_weaken tell_safe)

lemma notify_safe:
  assumes "wsContract env" "roomy S"
  shows "safe X S (notifyPeerLeft tell s leaving reason S)"
proof -
  define one where "one = (\<lambda>p S. if leaving = Some p then S else fst (tell p (PeerLeft (sid s) (peerLeftReason reason)) S))"
  have step: "safe X T (one p T)" if "roomy T" for p T
    using that tell_step[OF assms(1) that] safe_refl by (auto simp: roomy_def one_def)
  have s1: "safe X S (one (sender s) S)" by (rule step[OF assms(2)])
  have s2: "safe X (one (sender s) S) (one (receiver s) (one (sender s) S))"
    by (rule step[OF roomyI[OF s1 assms(2)]])
  have "notifyPeerLeft tell s leaving reason S = one (receiver s) (one (sender s) S)"
    by (simp add: notifyPeerLeft_def one_def)
  with safe_trans[OF s1 s2] show ?thesis by simp
qed

lemma endSession_safe:
  assumes ws: "wsContract env" and i: "serverInv S" and cap: "captured S s"
    and room: "room (length (sessions (sessionsDelete (sid s) S)))"
    and lv: "leaving \<noteq> Some Sender \<longrightarrow> inCodes S (receiver s) \<longrightarrow> readyState (peers S (receiver s)) \<noteq> OPEN"
  shows "safe {} S (endSession env tell s reason leaving S)"
proof -
  define S1 where "S1 = sessionsDelete (sid s) S"
  define S2 where "S2 = notifyPeerLeft tell s (map_option (sessionMember s) leaving) reason S1"
  define S3 where "S3 = (case map_option (\<lambda>r. sessionMember s (otherSessionPeerId r)) leaving of
      None \<Rightarrow> S2 | Some p \<Rightarrow> closePeerAndRelease env p reason S2)"
  have eq: "endSession env tell s reason leaving S = clearPeerSessionState (receiver s) (clearPeerSessionState (sender s) S3)"
    by (auto simp: endSession_def S1_def S2_def S3_def closePeer_clear Let_def split: option.splits)
  have s1: "safe {} S S1" unfolding S1_def by (rule sessionsDelete_safe[OF i])
  have r1: "roomy S1" using s1 room by (simp add: roomy_def safe_def S1_def)
  have s2: "safe {} S1 S2" unfolding S2_def by (rule notify_safe[OF ws r1])
  have s3: "safe {} S2 S3"
    using closePeer_safe(2)[OF ws] s2 safe_refl by (auto simp: S3_def safe_def split: option.splits)
  have d: "detached S3 s"
    using detached_safe0[OF detached_delete[OF cap]] safe_trans[OF s2 s3] by (simp add: S1_def)
  have "readyState (peers S3 (receiver s)) \<noteq> OPEN" if "inCodes S3 (receiver s)"
  proof (cases "leaving = Some Sender")
    case True
    then have "S3 = closePeerAndRelease env (receiver s) reason S2" by (simp add: S3_def sessionMember_def)
    then show ?thesis using closePeer_safe(6)[OF ws] s2 by (auto simp: safe_def)
  next
    case False
    have cl: "clean {} S1 S3" using safe_trans[OF s2 s3] by (simp add: safe_def)
    have "\<not> inSessions S1 (receiver s)" using detached_free(2)[OF detached_delete[OF cap]] by (simp add: S1_def)
    with free_clean[OF cl] that have "inCodes S1 (receiver s)" by blast
    then have "readyState (peers S1 (receiver s)) \<noteq> OPEN" using lv False by (simp add: S1_def inCodes_def)
    with cleanD(8)[OF cl] show ?thesis by blast
  qed
  then have ro: "inCodes S3 (receiver s) \<longrightarrow> readyState (peers S3 (receiver s)) \<noteq> OPEN" by blast
  have c1: "safe {} S3 (clearPeerSessionState (sender s) S3)"
    using detached_free[OF d] s3 by (intro clear_safe) (auto simp: safe_def)
  have "safe {} (clearPeerSessionState (sender s) S3) (clearPeerSessionState (receiver s) (clearPeerSessionState (sender s) S3))"
    using detached_free[OF d] c1 ro by (intro clear_safe) (auto simp: safe_def inSessions_def inCodes_def)
  with c1 s1 s2 s3 show ?thesis unfolding eq using safe_trans by meson
qed

lemma expireReceiver_safe:
  assumes ws: "wsContract env" and r: "roomy S" and d: "detached S s" and c: "\<not> inCodes S (receiver s)"
  shows "safe {} S (expireReceiverAfterPrePairAttempts env tell s None S)"
proof -
  define S2 where "S2 = notifyPeerLeft tell s (Some (sender s)) ''too many invalid pairing attempts'' S"
  define S3 where "S3 = clearPeerSessionState (receiver s) (clearPeerSessionState (sender s) S2)"
  define S4 where "S4 = fst (tell (receiver s) (ErrorMessage expired ''Receive code expired after too many invalid pairing attempts.'') S3)"
  have s2: "safe {} S S2" unfolding S2_def by (rule notify_safe[OF ws r])
  have d2: "detached S2 s" by (rule detached_safe0[OF d s2])
  have c2: "\<not> inCodes S2 (receiver s)" using free_clean[of S S2] s2 detached_free(2)[OF d] c by (simp add: safe_def)
  have c1: "safe {} S2 (clearPeerSessionState (sender s) S2)"
    using detached_free[OF d2] s2 by (intro clear_safe) (auto simp: safe_def)
  have "safe {} (clearPeerSessionState (sender s) S2) S3"
    unfolding S3_def using detached_free[OF d2] c1 c2 by (intro clear_safe) (auto simp: safe_def inSessions_def inCodes_def)
  with c1 have s3: "safe {} S2 S3" by (rule safe_trans)
  have "roomy S3" using roomyI[OF safe_trans[OF s2 s3] r] .
  then have s4: "safe {} S3 S4" unfolding S4_def by (rule tell_step[OF ws])
  have s5: "safe {} S4 (closePeerAndRelease env (sender s) x S4)" for x using closePeer_safe(2)[OF ws] s4 by (auto simp: safe_def)
  then have s6: "safe {} (closePeerAndRelease env (sender s) x S4)
      (closePeerAndRelease env (receiver s) y (closePeerAndRelease env (sender s) x S4))" for x y
    using closePeer_safe(2)[OF ws] by (auto simp: safe_def)
  show ?thesis
    unfolding expireReceiverAfterPrePairAttempts_def Let_def option.case S2_def[symmetric] S3_def[symmetric] S4_def[symmetric]
    using s2 s3 s4 s5 s6 safe_trans by meson
qed

lemma sendRestored_safe:
  assumes ws: "wsContract env" and r: "roomy S" and d: "detached S s"
  shows "safe {} S (sendRestoredRegistration env tell s t S)"
proof -
  define m where "m = Registered (sessionCode s) (remainingExpirySeconds t (clock S))"
  define S1 where "S1 = fst (tell (receiver s) m S)"
  define S2 where "S2 = (if waitingCodeOwnedBy (codesGet S1 (sessionCode s)) (receiver s) then codesDelete (sessionCode s) S1 else S1)"
  have eq: "sendRestoredRegistration env tell s t S = (if snd (tell (receiver s) m S) then S1
      else closePeerAndRelease env (receiver s) ''receiver unavailable'' (clearPeerSessionState (receiver s) S2))"
    by (simp add: sendRestoredRegistration_def m_def[symmetric] S1_def S2_def split_beta Let_def)
  have s1: "safe {} S S1" unfolding S1_def by (rule tell_step[OF ws r])
  show ?thesis
  proof (cases "snd (tell (receiver s) m S)")
    case True then show ?thesis unfolding eq using s1 by simp
  next
    case False
    have closed: "readyState (peers S1 (receiver s)) \<noteq> OPEN"
      unfolding S1_def using tell_false[OF ws _ _ False] r by (simp add: roomy_def)
    have s2: "safe {} S1 S2" using s1 codesDelete_safe safe_refl by (auto simp: S2_def safe_def)
    have "readyState (peers S2 (receiver s)) \<noteq> OPEN" using closed cleanD(8) s2 by (auto simp: safe_def)
    moreover have "\<not> inSessions S2 (receiver s)" using detached_free(2)[OF detached_safe0[OF d safe_trans[OF s1 s2]]] .
    ultimately have s3: "safe {} S2 (clearPeerSessionState (receiver s) S2)"
      using s2 by (intro clear_safe) (auto simp: safe_def)
    then have "safe {} (clearPeerSessionState (receiver s) S2)
        (closePeerAndRelease env (receiver s) x (clearPeerSessionState (receiver s) S2))" for x
      using closePeer_safe(2)[OF ws] by (auto simp: safe_def)
    from safe_trans[OF safe_trans[OF safe_trans[OF s1 s2] s3] this] False show ?thesis unfolding eq by simp
  qed
qed

end

end
