(* ===== verification/ServerCleanup.thy ===== *)
theory ServerCleanup
  imports ServerInvariant
begin

text \<open>
  Restoring a receiver and cleaning up a peer keep the invariant, for any message sender; by
  induction on its fuel the server's \<open>send\<close> is a message sender, and \<open>sendMessage\<close> is one
  without a bound on the number of sessions: the fuel it gives \<open>send\<close> always suffices.
\<close>

lemma safe_absorb: "safe X S S' \<Longrightarrow> X \<subseteq> tokens S \<Longrightarrow> safe {} S S'"
  by (auto simp: safe_def intro: clean_absorb)

lemma codesDelete_codesSet: "codesDelete k (codesSet k w S) = codesDelete k S"
  by (simp add: codesDelete_def codesSet_def AList.delete_update_same)

lemma expire_Some:
  "expireReceiverAfterPrePairAttempts env tell s (Some w) S =
     expireReceiverAfterPrePairAttempts env tell s None (codesDelete (waitingKey w) S)"
  by (simp add: expireReceiverAfterPrePairAttempts_def Let_def)

lemma length_delete_less: "k \<in> fst ` set al \<Longrightarrow> length (AList.delete k al) < length al"
  unfolding AList.delete_eq by (auto intro: length_filter_less)

lemma codesGet_resetReceiver [simp]: "codesGet (resetReceiver s S) = codesGet S"
  by (simp add: codesGet_def fun_eq_iff)

lemma codesGet_sessionsDelete [simp]: "codesGet (sessionsDelete k S) = codesGet S"
  by (simp add: codesGet_def fun_eq_iff)

context message_sender
begin

text \<open>The end of a restoration: tell the receiver, close the sender, register again.\<close>

definition finishRestore :: "Session \<Rightarrow> string \<Rightarrow> bool \<Rightarrow> nat \<Rightarrow> Server \<Rightarrow> Server" where
  "finishRestore s reason notifyReceiver t S =
     (let S4 = (if notifyReceiver then notifyPeerLeft tell s (Some (sender s)) reason S else S) in
      sendRestoredRegistration env tell s t (closePeerAndRelease env (sender s) reason S4))"

lemma finishRestore_safe:
  assumes ws: "wsContract env" and r: "roomy S" and d: "detached S s"
  shows "safe {} S (finishRestore s reason b t S)"
proof -
  define S4 where "S4 = (if b then notifyPeerLeft tell s (Some (sender s)) reason S else S)"
  define S5 where "S5 = closePeerAndRelease env (sender s) reason S4"
  have s4: "safe {} S S4" using notify_safe[OF ws r] safe_refl r by (auto simp: S4_def roomy_def)
  have s5: "safe {} S4 S5" unfolding S5_def using closePeer_safe(2)[OF ws] s4 by (auto simp: safe_def)
  have s45: "safe {} S S5" using safe_trans[OF s4 s5] .
  have "safe {} S5 (sendRestoredRegistration env tell s t S5)"
    by (rule sendRestored_safe[OF ws roomyI[OF s45 r] detached_safe0[OF d s45]])
  from safe_trans[OF s45 this] show ?thesis by (simp add: finishRestore_def S4_def S5_def Let_def)
qed

text \<open>Restoring once a code with the right attempts is known.\<close>

lemma restore_with_code:
  assumes ws: "wsContract env" and r: "roomy S" and d: "detached S s"
    and key: "codesGet S (sessionCode s) = None \<or> (\<exists>old. codesGet S (sessionCode s) = Some old \<and> waitingReceiver old = receiver s)"
    and w: "waitingKey w = sessionCode s" "waitingReceiver w = receiver s" "waitingAttempts w \<le> remainingAttempts s"
  shows "safe {sessionToken s} S
     (if \<not> canRestorePrePairCode (waitingAttempts w)
      then expireReceiverAfterPrePairAttempts env tell s None (codesDelete (sessionCode s) (resetReceiver s S))
      else finishRestore s reason b t (codesSet (sessionCode s) w (resetReceiver s S)))"
proof -
  define S1 where "S1 = resetReceiver s S"
  have i: "serverInv S" using r by (simp add: roomy_def)
  have s1: "safe {} S S1" unfolding S1_def by (rule resetReceiver_safe[OF i d])
  have d1: "detached S1 s" by (rule detached_safe0[OF d s1])
  have i1: "serverInv S1" using s1 by (simp add: safe_def)
  show ?thesis
  proof (cases "canRestorePrePairCode (waitingAttempts w)")
    case False
    define S2 where "S2 = codesDelete (sessionCode s) S1"
    have s2: "safe {} S1 S2" unfolding S2_def by (rule codesDelete_safe[OF i1])
    have s12: "safe {} S S2" by (rule safe_trans[OF s1 s2])
    have d2: "detached S2 s" by (rule detached_safe0[OF d s12])
    have "codesGet S2 (sessionCode s) = None" by (simp add: S2_def codesGet_def AList.delete_conv)
    then have c: "\<not> inCodes S2 (receiver s)" using d2 captured_entry by (auto simp: detached_def)
    have "safe {} S (expireReceiverAfterPrePairAttempts env tell s None S2)"
      by (rule safe_trans[OF s12 expireReceiver_safe[OF ws roomyI[OF s12 r] d2 c]])
    with False show ?thesis using safe_weaken by (simp add: S1_def S2_def)
  next
    case True
    define S2 where "S2 = codesSet (sessionCode s) w S1"
    have ne: "sender s \<noteq> receiver s" using d by (simp add: detached_def captured_def)
    have "waits S1 (sessionCode s) (receiver s)" using ne by (simp add: S1_def waits_def resetReceiver_link)
    moreover have "1 \<le> waitingAttempts w" using True by (simp add: canRestorePrePairCode_iff)
    ultimately have s2: "safe {sessionToken s} S1 S2"
      unfolding S2_def using key w by (intro codesSet_safe[OF i1 d1]) (auto simp: S1_def)
    have s12: "safe {sessionToken s} S S2" by (rule safe_trans[OF safe_weaken[OF s1] s2])
    have "safe {} S2 (finishRestore s reason b t S2)"
      by (rule finishRestore_safe[OF ws roomyI[OF s12 r] detached_safe[OF d s12]])
    from safe_trans[OF s12 safe_weaken[OF this]] True show ?thesis by (simp add: S1_def S2_def)
  qed
qed

lemma restoreWaitingReceiver_safe:
  assumes ws: "wsContract env" and i: "serverInv S" and cap: "captured S s"
    and room: "room (length (sessions (sessionsDelete (sid s) S)))"
  shows "safe {sessionToken s} S (restoreWaitingReceiver env tell s reason b S)"
proof -
  define S0 where "S0 = sessionsDelete (sid s) S"
  have s0: "safe {} S S0" unfolding S0_def by (rule sessionsDelete_safe[OF i])
  have i0: "serverInv S0" using s0 by (simp add: safe_def)
  have d0: "detached S0 s" unfolding S0_def by (rule detached_delete[OF cap])
  have r0: "roomy S0" using room i0 by (simp add: roomy_def S0_def)
  have get: "codesGet S0 = codesGet S" by (simp add: S0_def)
  have goal: "safe {sessionToken s} S T" if "safe {sessionToken s} S0 T" for T
    by (rule safe_trans[OF safe_weaken[OF s0] that])
  show ?thesis
  proof (cases "codesGet S (sessionCode s)")
    case None
    let ?w = "\<lparr>waitingKey = sessionCode s, waitingReceiver = receiver s, waitingExpiresAt = codeExpiresAt s,
        waitingAttempts = remainingAttempts s\<rparr>"
    have del: "codesDelete (sessionCode s) (resetReceiver s S0) = resetReceiver s S0"
      using None by (simp add: codesDelete_def codesGet_def S0_def AList.delete_notin_dom map_of_eq_None_iff)
    have "restoreWaitingReceiver env tell s reason b S =
       (if \<not> canRestorePrePairCode (waitingAttempts ?w)
        then expireReceiverAfterPrePairAttempts env tell s None (codesDelete (sessionCode s) (resetReceiver s S0))
        else finishRestore s reason b (codeExpiresAt s) (codesSet (sessionCode s) ?w (resetReceiver s S0)))"
      unfolding del by (simp add: restoreWaitingReceiver_def None finishRestore_def Let_def S0_def)
    with restore_with_code[OF ws r0 d0, of ?w reason b "codeExpiresAt s"] goal None get show ?thesis by simp
  next
    case (Some existing)
    have ok: "codeOk S (sessionCode s) existing"
      using refInv_code[of S] i map_of_mem[of "codes S" "sessionCode s" existing] Some by (simp add: codesGet_def serverInv_def)
    show ?thesis
    proof (cases "waitingReceiver existing = receiver s")
      case True
      let ?w = "existing\<lparr>waitingAttempts := min (waitingAttempts existing) (remainingAttempts s)\<rparr>"
      have key: "waitingKey ?w = sessionCode s" using ok by (simp add: codeOk_def)
      have "restoreWaitingReceiver env tell s reason b S =
         (if \<not> canRestorePrePairCode (waitingAttempts ?w)
          then expireReceiverAfterPrePairAttempts env tell s None (codesDelete (sessionCode s) (resetReceiver s S0))
          else finishRestore s reason b (waitingExpiresAt existing) (codesSet (sessionCode s) ?w (resetReceiver s S0)))"
        using True key
        by (simp add: restoreWaitingReceiver_def Some finishRestore_def Let_def S0_def expire_Some codesDelete_codesSet)
      with restore_with_code[OF ws r0 d0, of ?w reason b "waitingExpiresAt existing"] goal Some get key True show ?thesis by simp
    next
      case False
      define S2 where "S2 = notifyPeerLeft tell s None ''rendezvous_conflict'' S0"
      have s2: "safe {} S0 S2" unfolding S2_def by (rule notify_safe[OF ws r0])
      have "captured S2 s" using detached_safe0[OF d0 s2] by (simp add: detached_def)
      then have "safe {} S2 (closeSessionPeers env s ''rendezvous conflict'' S2)"
        using closeSessionPeers_safe[OF ws] s2 by (simp add: safe_def)
      from safe_weaken[OF safe_trans[OF s2 this]] False show ?thesis
        by (intro goal) (simp add: restoreWaitingReceiver_def Some Let_def S2_def S0_def)
    qed
  qed
qed

lemma cleanupPeer_safe:
  assumes ws: "wsContract env" and i: "serverInv S" and room: "\<And>n. n < length (sessions S) \<Longrightarrow> room n"
  shows "safe {} S (cleanupPeer env tell p reason S)"
proof -
  define S1 where "S1 = (case peerCode (peers S p) of
      Some c \<Rightarrow> if waitingCodeOwnedBy (codesGet S c) p then codesDelete c S else S | None \<Rightarrow> S)"
  have s1: "safe {} S S1" using codesDelete_safe[OF i] safe_refl[OF i] by (auto simp: S1_def split: option.splits)
  have i1: "serverInv S1" using s1 by (simp add: safe_def)
  have len: "length (sessions S1) = length (sessions S)" by (auto simp: S1_def split: option.splits)
  show ?thesis
  proof (cases "Option.bind (peerSid (peers S1 p)) (sessionsGet S1)")
    case None
    then have "cleanupPeer env tell p reason S = S1"
      by (auto simp: cleanupPeer_def S1_def[symmetric] Let_def split: option.splits)
    with s1 show ?thesis by simp
  next
    case (Some s)
    then obtain k where k: "peerSid (peers S1 p) = Some k" "sessionsGet S1 k = Some s" by (auto simp: bind_eq_Some_conv)
    then have live: "(k, s) \<in> set (sessions S1)" by (simp add: sessionsGet_def map_of_mem)
    have r1: "refInv S1" using i1 by (simp add: serverInv_def)
    have sid: "sid s = k" using refInv_session[OF r1 live] by (simp add: sessionOk_def)
    have cap: "captured S1 s" by (rule captured_live[OF r1 live])
    have "k \<in> fst ` set (sessions S1)" using live by force
    then have "length (sessions (sessionsDelete (sid s) S1)) < length (sessions S)"
      unfolding sid len[symmetric] by (simp add: length_delete_less)
    then have room': "room (length (sessions (sessionsDelete (sid s) S1)))" by (rule room)
    have no: "\<not> inCodes S1 (receiver s)"
      using refInv_code[OF r1] live by (fastforce simp: inCodes_def codeOk_def inSessions_def member_def)
    have tok: "{sessionToken s} \<subseteq> tokens S1" using live_token[OF live] by simp
    have restore: "safe {} S1 (restoreWaitingReceiver env tell s x y S1)" for x y
      by (rule safe_absorb[OF restoreWaitingReceiver_safe[OF ws i1 cap room'] tok])
    have endS: "safe {} S1 (endSession env tell s x y S1)" for x y
      using no by (intro endSession_safe[OF ws i1 cap room']) blast
    have "safe {} S1 (cleanupPeer env tell p reason S)"
      using restore endS safe_refl[OF i1] k
      by (auto simp: cleanupPeer_def S1_def[symmetric] Let_def split: option.splits)
    with s1 show ?thesis by (rule safe_trans)
  qed
qed

lemma closePeerForSendFailure_safe:
  assumes ws: "wsContract env" and i: "serverInv S" and room: "\<And>n. n < length (sessions S) \<Longrightarrow> room n"
  shows "safe {} S (closePeerForSendFailure env tell p reason S)"
    "readyState (peers (closePeerForSendFailure env tell p reason S) p) \<noteq> OPEN"
proof -
  have c: "safe {} S (cleanupPeer env tell p reason S)" by (rule cleanupPeer_safe[OF ws i room])
  then have i': "serverInv (cleanupPeer env tell p reason S)" by (simp add: safe_def)
  show "safe {} S (closePeerForSendFailure env tell p reason S)"
    unfolding closePeerForSendFailure_def by (rule safe_trans[OF c closePeer_safe(2)[OF ws i']])
  show "readyState (peers (closePeerForSendFailure env tell p reason S) p) \<noteq> OPEN"
    unfolding closePeerForSendFailure_def by (rule closePeer_safe(6)[OF ws i'])
qed

end

section \<open>The server's send function\<close>

lemma log_quiet:
  "quiet S (S\<lparr>calls := n\<rparr>)" "sameConn S (S\<lparr>calls := n\<rparr>)"
  "quiet S (transmit p m (S\<lparr>calls := n\<rparr>))" "sameConn S (transmit p m (S\<lparr>calls := n\<rparr>))"
  by (simp_all add: quiet_def sameConn_def transmit_def)

lemma send_step:
  assumes tell: "message_sender env (send env n) (\<lambda>k. k < n)"
    and ws: "wsContract env" and i: "serverInv S" and room: "length (sessions S) < Suc n"
  shows "safe {} S (fst (send env (Suc n) p m S))"
    "\<not> snd (send env (Suc n) p m S) \<Longrightarrow> readyState (peers (fst (send env (Suc n) p m S)) p) \<noteq> OPEN"
proof -
  define S1 where "S1 = S\<lparr>calls := Suc (calls S)\<rparr>"
  define S2 where "S2 = transmit p m S1"
  have s1: "safe {} S S1" unfolding S1_def by (rule quiet_safe[OF i log_quiet(1,2)])
  have s2: "safe {} S S2" unfolding S2_def S1_def by (rule quiet_safe[OF i log_quiet(3,4)])
  have len: "length (sessions S1) \<le> n" "length (sessions S2) \<le> n" using room by (simp_all add: S1_def S2_def transmit_def)
  have f1: "safe {} S (closePeerForSendFailure env (send env n) p x S1)"
    "readyState (peers (closePeerForSendFailure env (send env n) p x S1) p) \<noteq> OPEN" for x
    using message_sender.closePeerForSendFailure_safe[OF tell ws, of S1] s1 len(1) safe_trans[OF s1] by (auto simp: safe_def)
  have f2: "safe {} S (closePeerForSendFailure env (send env n) p x S2)"
    "readyState (peers (closePeerForSendFailure env (send env n) p x S2) p) \<noteq> OPEN" for x
    using message_sender.closePeerForSendFailure_safe[OF tell ws, of S2] s2 len(2) safe_trans[OF s2] by (auto simp: safe_def)
  have eq: "send env (Suc n) p m S = (if readyState (peers S p) \<noteq> OPEN then (S, False)
     else case sendOutcome env (calls S) of
          BufferFull \<Rightarrow> (closePeerForSendFailure env (send env n) p ''signaling backpressure'' S1, False)
        | SendThrows \<Rightarrow> (closePeerForSendFailure env (send env n) p ''send_error'' S1, False)
        | BufferFullAfter \<Rightarrow> (closePeerForSendFailure env (send env n) p ''signaling backpressure'' S2, False)
        | Delivered \<Rightarrow> (S2, True))"
    unfolding S2_def S1_def send.simps Let_def by (rule refl)
  show "safe {} S (fst (send env (Suc n) p m S))"
    unfolding eq using f1 f2 s2 safe_refl[OF i] by (auto split: SendOutcome.splits)
  show "readyState (peers (fst (send env (Suc n) p m S)) p) \<noteq> OPEN" if "\<not> snd (send env (Suc n) p m S)"
    using that f1 f2 unfolding eq by (auto split: SendOutcome.splits if_splits)
qed

lemma send_sender: "message_sender env (send env n) (\<lambda>k. k < n)"
proof (induction n)
  case 0
  show ?case by unfold_locales auto
next
  case (Suc n)
  show ?case by unfold_locales (auto dest: send_step[OF Suc.IH] simp del: send.simps)
qed

interpretation srv: message_sender env "sendMessage env" "\<lambda>_. True" for env
proof unfold_locales
  fix S p m
  assume a: "wsContract env" "serverInv S"
  show "safe {} S (fst (sendMessage env p m S))"
    unfolding sendMessage_def by (rule message_sender.tell_safe[OF send_sender a]) simp
  assume "\<not> snd (sendMessage env p m S)"
  then show "readyState (peers (fst (sendMessage env p m S)) p) \<noteq> OPEN"
    unfolding sendMessage_def by (intro message_sender.tell_false[OF send_sender a]) simp_all
qed simp

end
