(* ===== verification/ServerSafety.thy ===== *)
theory ServerSafety
  imports ServerCleanup
begin

text \<open>
  Every event of the signaling server keeps the full invariant: links between peers, sessions
  and codes, the connection counts, the attempt budget of each registration and the capacity
  bounds. The properties of reachable states follow.
\<close>

section \<open>Budget and capacity\<close>

definition claims :: "Server \<Rightarrow> peerId \<Rightarrow> jsstring \<Rightarrow> nat" where
  "claims S r c = length (filter (\<lambda>h. h = ClaimedCode r c) (history S))"

definition registrations :: "Server \<Rightarrow> peerId \<Rightarrow> jsstring \<Rightarrow> nat" where
  "registrations S r c = length (filter (\<lambda>h. h = RegisteredCode r c) (history S))"

text \<open>Every claim used up one of the three attempts of a registration; those that remain are
  accounted for.\<close>

definition budgetInv :: "Server \<Rightarrow> bool" where
  "budgetInv S \<longleftrightarrow>
     (\<forall>r c. claims S r c \<le> 3 * registrations S r c)
     \<and> (\<forall>(r, c, a) \<in> tokens S. claims S r c + a \<le> 3 * registrations S r c)"

definition capacityInv :: "Server \<Rightarrow> bool" where
  "capacityInv S \<longleftrightarrow>
     length (sessions S) \<le> SIGNALING_MAX_SESSIONS
     \<and> length (codes S) + length (sessions S) \<le> SIGNALING_MAX_WAITING_CODES + SIGNALING_MAX_SESSIONS"

definition liveConnections :: "Server \<Rightarrow> jsstring \<Rightarrow> nat" where
  "liveConnections S x = length (filter (\<lambda>p. ip (peers S p) = x) (connected S))"

definition fullInv :: "Server \<Rightarrow> bool" where
  "fullInv S \<longleftrightarrow> serverInv S \<and> budgetInv S \<and> capacityInv S
     \<and> (\<forall>x. liveConnections S x \<le> SIGNALING_MAX_CONNECTIONS_PER_IP) \<and> \<not> aborted S"

lemma code_unique:
  assumes "refInv S" "(k, v) \<in> set (codes S)" "(k', w) \<in> set (codes S)" "waitingReceiver v = waitingReceiver w"
  shows "k = k' \<and> v = w"
proof -
  have "inj_on (waitingReceiver \<circ> snd) (set (codes S))" using assms(1) by (simp add: refInv_def distinct_map)
  from inj_onD[OF this, of "(k, v)" "(k', w)"] assms(2-4) show ?thesis by simp
qed

lemma session_receivers_distinct:
  assumes "refInv S" shows "distinct (map (receiver \<circ> snd) (sessions S))"
proof -
  have "inj_on (receiver \<circ> snd) (set (sessions S))"
    by (rule inj_onI) (use session_unique[OF assms] in \<open>force simp: member_def\<close>)
  moreover have "distinct (sessions S)" using assms by (auto simp: refInv_def distinct_map)
  ultimately show ?thesis by (simp add: distinct_map)
qed

lemma owners_card:
  assumes "refInv S" shows "card (fst ` tokens S) = length (codes S) + length (sessions S)"
proof -
  let ?cs = "map (waitingReceiver \<circ> snd) (codes S)" and ?ss = "map (receiver \<circ> snd) (sessions S)"
  have eq: "fst ` tokens S = set ?cs \<union> set ?ss"
    unfolding tokens_def sessionToken_def by (auto simp: image_iff) force+
  have "distinct ?cs" using assms by (simp add: refInv_def)
  then have c: "card (set ?cs) = length (codes S)" by (simp only: distinct_card length_map)
  have s: "card (set ?ss) = length (sessions S)"
    using session_receivers_distinct[OF assms] by (simp only: distinct_card length_map)
  have disj: "set ?cs \<inter> set ?ss = {}"
    using refInv_code[OF assms] by (fastforce simp: codeOk_def inSessions_def member_def)
  show ?thesis unfolding eq using c s card_Un_disjoint[OF _ _ disj] by simp
qed

lemma tokensLe_owners: "tokensLe A B \<Longrightarrow> fst ` A \<subseteq> fst ` B"
  unfolding tokensLe_def by force

lemma finite_tokens: "finite (tokens S)"
  by (simp add: tokens_def)

lemma tokensLe_budget:
  assumes "budgetInv S" "tokensLe (tokens S') (tokens S)" "history S' = history S"
  shows "budgetInv S'"
proof -
  have h: "claims S' = claims S" "registrations S' = registrations S"
    using assms(3) by (simp_all add: claims_def registrations_def fun_eq_iff)
  have "claims S r c + a \<le> 3 * registrations S r c" if "(r, c, a) \<in> tokens S'" for r c a
  proof -
    from assms(2) that obtain b where b: "a \<le> b" "(r, c, b) \<in> tokens S" unfolding tokensLe_def by blast
    then have "claims S r c + b \<le> 3 * registrations S r c" using assms(1) unfolding budgetInv_def by blast
    with b show ?thesis by simp
  qed
  with assms(1) h show ?thesis by (auto simp: budgetInv_def)
qed

lemma liveConnections_mono:
  assumes "set (connected S') \<subseteq> set (connected S)" "distinct (connected S')" "distinct (connected S)"
    "\<And>p. p \<in> set (connected S') \<Longrightarrow> ip (peers S' p) = ip (peers S p)"
  shows "liveConnections S' x \<le> liveConnections S x"
proof -
  have "liveConnections S' x = card (set (filter (\<lambda>p. ip (peers S' p) = x) (connected S')))"
    "liveConnections S x = card (set (filter (\<lambda>p. ip (peers S p) = x) (connected S)))"
    using assms(2,3) by (simp_all only: liveConnections_def distinct_card distinct_filter)
  moreover have "set (filter (\<lambda>p. ip (peers S' p) = x) (connected S')) \<subseteq> set (filter (\<lambda>p. ip (peers S p) = x) (connected S))"
    using assms(1,4) by auto
  ultimately show ?thesis using card_mono[OF finite_set] by metis
qed

lemma safe_parts:
  assumes s: "safe {} S S'" and i: "serverInv S"
  shows "budgetInv S \<Longrightarrow> budgetInv S'" "capacityInv S \<Longrightarrow> capacityInv S'" "liveConnections S' x \<le> liveConnections S x"
    "aborted S' = aborted S" "serverInv S'"
proof -
  have cl: "clean {} S S'" and i': "serverInv S'" using s by (simp_all add: safe_def)
  have le: "tokensLe (tokens S') (tokens S)" using cl by (simp add: clean_def)
  have "card (fst ` tokens S') \<le> card (fst ` tokens S)"
    by (rule card_mono) (simp_all add: finite_tokens tokensLe_owners[OF le])
  then have "length (codes S') + length (sessions S') \<le> length (codes S) + length (sessions S)"
    using owners_card i i' by (simp add: serverInv_def)
  then show "capacityInv S \<Longrightarrow> capacityInv S'" using cleanD(2)[OF cl] by (simp add: capacityInv_def)
  show "liveConnections S' x \<le> liveConnections S x"
    using cleanD(7,9)[OF cl] i i' by (intro liveConnections_mono) (auto simp: serverInv_def connInv_def)
  show "budgetInv S \<Longrightarrow> budgetInv S'" using tokensLe_budget[OF _ le] cleanD(4)[OF cl] by simp
  show "aborted S' = aborted S" "serverInv S'" using cleanD(6)[OF cl] i' by simp_all
qed

lemma safe_full:
  assumes s: "safe {} S S'" and f: "fullInv S" shows "fullInv S'"
  using safe_parts[OF s] f unfolding fullInv_def by (meson order_trans)

section \<open>Handlers on a live session\<close>

lemma fail_safe: "wsContract env \<Longrightarrow> serverInv S \<Longrightarrow> safe {} S (fail env p c m S)"
  unfolding fail_def by (rule srv.tell_safe) simp_all

lemma sendMessage_safe: "wsContract env \<Longrightarrow> serverInv S \<Longrightarrow> safe {} S (fst (sendMessage env p m S))"
  by (rule srv.tell_safe) simp_all

lemma sendMessage_failed:
  "wsContract env \<Longrightarrow> serverInv S \<Longrightarrow> \<not> snd (sendMessage env p m S) \<Longrightarrow> readyState (peers (fst (sendMessage env p m S)) p) \<noteq> OPEN"
  by (rule srv.tell_false) simp_all

lemma captured_later:
  assumes "serverInv S" "(k, s) \<in> set (sessions S)" "safe {} S S1"
  shows "captured S1 s" "{sessionToken s} \<subseteq> tokens S"
proof -
  have "captured S s" using captured_live assms(1,2) by (simp add: serverInv_def)
  moreover have "clean {sessionToken s} S S1" using assms(3) clean_weaken[of "{}"] by (auto simp: safe_def)
  ultimately show "captured S1 s" by (rule captured_clean)
  show "{sessionToken s} \<subseteq> tokens S" using live_token[OF assms(2)] by simp
qed

lemma restore_later:
  assumes ws: "wsContract env" and i: "serverInv S" and live: "(k, s) \<in> set (sessions S)" and s1: "safe {} S S1"
  shows "safe {} S (restoreWaitingReceiver env (sendMessage env) s reason b S1)"
proof -
  have "safe {sessionToken s} S1 (restoreWaitingReceiver env (sendMessage env) s reason b S1)"
    using captured_later(1)[OF i live s1] s1 by (intro srv.restoreWaitingReceiver_safe[OF ws]) (simp_all add: safe_def)
  from safe_trans[OF safe_weaken[OF s1] this] show ?thesis
    by (rule safe_absorb) (rule captured_later(2)[OF i live s1])
qed

lemma end_later:
  assumes ws: "wsContract env" and i: "serverInv S" and live: "(k, s) \<in> set (sessions S)" and s1: "safe {} S S1"
    and lv: "leaving \<noteq> Some Sender \<longrightarrow> inCodes S1 (receiver s) \<longrightarrow> readyState (peers S1 (receiver s)) \<noteq> OPEN"
  shows "safe {} S (endSession env (sendMessage env) s reason leaving S1)"
  using captured_later(1)[OF i live s1] s1 lv
  by (intro safe_trans[OF s1] srv.endSession_safe[OF ws]) (simp_all add: safe_def)

lemma closeSession_later:
  assumes ws: "wsContract env" and i: "serverInv S" and live: "(k, s) \<in> set (sessions S)" and s1: "safe {} S S1"
  shows "safe {} S (closeSessionPeers env s reason S1)"
  using captured_later(1)[OF i live s1] s1
  by (intro safe_trans[OF s1] closeSessionPeers_safe[OF ws]) (simp_all add: safe_def)

lemma sessionsGet_mem: "sessionsGet S k = Some s \<Longrightarrow> (k, s) \<in> set (sessions S)"
  by (simp add: sessionsGet_def map_of_mem)

lemma codesGet_mem: "codesGet S k = Some w \<Longrightarrow> (k, w) \<in> set (codes S)"
  by (simp add: codesGet_def map_of_mem)

lemma updPeer_safe:
  assumes "serverInv S"
    "peerSid (f (peers S p)) = peerSid (peers S p)" "peerCode (f (peers S p)) = peerCode (peers S p)"
    "role (f (peers S p)) = role (peers S p)" "ip (f (peers S p)) = ip (peers S p)"
    "connectionReleased (f (peers S p)) = connectionReleased (peers S p)"
    "readyState (peers S p) \<noteq> OPEN \<Longrightarrow> readyState (f (peers S p)) \<noteq> OPEN"
  shows "safe X S (updPeer p f S)"
  using assms by (intro quiet_safe) (auto simp: quiet_def sameConn_def)

lemma cleanup_safe: "wsContract env \<Longrightarrow> serverInv S \<Longrightarrow> safe {} S (cleanupPeer env (sendMessage env) p reason S)"
  by (rule srv.cleanupPeer_safe) simp_all

lemma badMessage_safe:
  assumes ws: "wsContract env" and i: "serverInv S"
  shows "safe {} S (badMessage env p message S)"
proof -
  define S2 where "S2 = updPeer p (\<lambda>q. q\<lparr>badMessages := badMessages q + 1\<rparr>) S"
  define S3 where "S3 = fail env p bad_message message S2"
  have s2: "safe {} S S2" unfolding S2_def using i by (intro updPeer_safe) simp_all
  have s3: "safe {} S S3" unfolding S3_def using safe_trans[OF s2] fail_safe[OF ws] s2 by (simp add: safe_def)
  have s4: "safe {} S (closePeerWithCodeAndRelease env p 1008 x S3)" for x
    using safe_trans[OF s3] closePeer_safe(1)[OF ws] s3 by (simp add: safe_def)
  show ?thesis
  proof (cases "snd (rejectMalformedPrePairSenderMessage env p message S)")
    case False
    then have "fst (rejectMalformedPrePairSenderMessage env p message S) = S"
      by (auto simp: rejectMalformedPrePairSenderMessage_def split: option.splits if_splits)
    with False s3 s4 show ?thesis by (simp add: badMessage_def split_beta Let_def S2_def S3_def)
  next
    case True
    then obtain s where s: "Option.bind (peerSid (peers S p)) (sessionsGet S) = Some s"
      "fst (rejectMalformedPrePairSenderMessage env p message S) =
         restoreWaitingReceiver env (sendMessage env) s ''invalid sender pre-pair message'' True (fail env p bad_message message S)"
      by (auto simp: rejectMalformedPrePairSenderMessage_def split: option.splits if_splits)
    then obtain k where "(k, s) \<in> set (sessions S)" using sessionsGet_mem by (auto simp: bind_eq_Some_conv)
    from restore_later[OF ws i this fail_safe[OF ws i]] s(2) True show ?thesis
      by (simp add: badMessage_def split_beta Let_def)
  qed
qed

lemma dropWaitingCode_safe:
  assumes ws: "wsContract env" and i: "serverInv S" and w: "codesGet S code = Some w" "waitingReceiver w = r"
  shows "safe {} S (dropWaitingCode env code r message reason S)"
proof -
  define S1 where "S1 = codesDelete code S"
  define S2 where "S2 = clearPeerSessionState r S1"
  have ref: "refInv S" using i by (simp add: serverInv_def)
  have s1: "safe {} S S1" unfolding S1_def by (rule codesDelete_safe[OF i])
  have mem: "(code, w) \<in> set (codes S)" using w(1) by (rule codesGet_mem)
  have "\<not> inSessions S1 r" using refInv_code[OF ref mem] w(2) by (simp add: codeOk_def S1_def inSessions_def)
  moreover have "\<not> inCodes S1 r"
  proof
    assume "inCodes S1 r"
    then obtain k v where v: "(k, v) \<in> set (codes S)" "k \<noteq> code" "waitingReceiver v = r" by (auto simp: inCodes_def S1_def)
    with code_unique[OF ref v(1) mem] w(2) show False by simp
  qed
  ultimately have s2: "safe {} S1 S2" unfolding S2_def using s1 by (intro clear_safe) (auto simp: safe_def)
  define S3 where "S3 = fail env r expired message S2"
  have s3: "safe {} S2 S3" unfolding S3_def using fail_safe[OF ws] s2 by (simp add: safe_def)
  have s4: "safe {} S3 (closePeerAndRelease env r reason S3)" using closePeer_safe(2)[OF ws] s3 by (simp add: safe_def)
  from safe_trans[OF safe_trans[OF safe_trans[OF s1 s2] s3] s4] show ?thesis
    by (simp add: dropWaitingCode_def S1_def S2_def S3_def)
qed

section \<open>Relaying\<close>

lemma sendIceConfig_safe:
  assumes ws: "wsContract env" and i: "serverInv S"
  shows "safe {} S (fst (sendIceConfig env p S))"
    "snd (sendIceConfig env p S) = SendFailed \<Longrightarrow> readyState (peers (fst (sendIceConfig env p S)) p) \<noteq> OPEN"
proof -
  define h where "h = (if turnRest env then hitTurnCredentialIssueRateLimit (turnIssueRateLimits S) (ip (peers S p)) (num (clock S))
     else (True, turnIssueRateLimits S))"
  define S1 where "S1 = S\<lparr>turnIssueRateLimits := snd h\<rparr>"
  have s1: "safe {} S S1" unfolding S1_def by (rule quiet_safe[OF i]) (simp_all add: quiet_def sameConn_def)
  then have i1: "serverInv S1" by (simp add: safe_def)
  have eq: "sendIceConfig env p S = (if \<not> fst h then (S1, RateLimited)
     else (fst (sendMessage env p (IceConfig (iceServersValue env)) S1),
           if snd (sendMessage env p (IceConfig (iceServersValue env)) S1) then Sent else SendFailed))"
    by (simp add: sendIceConfig_def h_def S1_def split_beta Let_def)
  show "safe {} S (fst (sendIceConfig env p S))"
    using s1 safe_trans[OF s1 sendMessage_safe[OF ws i1]] by (simp add: eq)
  show "readyState (peers (fst (sendIceConfig env p S)) p) \<noteq> OPEN" if "snd (sendIceConfig env p S) = SendFailed"
    using that sendMessage_failed[OF ws i1] by (simp add: eq split: if_splits)
qed

lemma safe_closed: "safe X S S' \<Longrightarrow> readyState (peers S p) \<noteq> OPEN \<Longrightarrow> readyState (peers S' p) \<noteq> OPEN"
  using cleanD(8)[of X S S' p] by (simp add: safe_def)

lemma live_ids:
  assumes "serverInv S" "(k, s) \<in> set (sessions S)"
  shows "sender s \<noteq> []" "receiver s \<noteq> []" "sender s \<noteq> receiver s" "sid s = k" "phaseInv s"
  using refInv_session[of S k s] assms by (auto simp: sessionOk_def serverInv_def refInv_def)

text \<open>In the following lemmas \<open>S0\<close> is the state in which the handler looked the session up, and
  \<open>S\<close> the state it has got to by sending.\<close>

lemma deliveryFailed_safe:
  assumes ws: "wsContract env" and i0: "serverInv S0" and live: "(k, s) \<in> set (sessions S0)"
    and s1: "safe {} S0 S" and t: "target = sender s \<or> target = receiver s" and closed: "readyState (peers S target) \<noteq> OPEN"
  shows "safe {} S0 (relayDeliveryFailed env s p target reason b S)"
proof -
  define S1 where "S1 = fail env p peer_unavailable ''Peer is no longer connected.'' S"
  have i: "serverInv S" using s1 by (simp add: safe_def)
  have f: "safe {} S S1" unfolding S1_def by (rule fail_safe[OF ws i])
  have s2: "safe {} S0 S1" by (rule safe_trans[OF s1 f])
  have lv: "sessionPeerId s target \<noteq> Some Sender \<longrightarrow> readyState (peers S1 (receiver s)) \<noteq> OPEN"
    using t safe_closed[OF f closed] live_ids[OF i0 live] by (auto simp: sessionPeerId_def)
  have "safe {} S0 (restoreWaitingReceiver env (sendMessage env) s reason True S1)"
    by (rule restore_later[OF ws i0 live s2])
  moreover have "safe {} S0 (endSession env (sendMessage env) s reason (sessionPeerId s target) S1)"
    by (rule end_later[OF ws i0 live s2]) (use lv in blast)
  ultimately show ?thesis by (simp add: relayDeliveryFailed_def S1_def Let_def)
qed

lemma turnRateLimited_safe:
  assumes ws: "wsContract env" and i0: "serverInv S0" and live: "(k, s) \<in> set (sessions S0)" and s1: "safe {} S0 S"
  shows "safe {} S0 (closeSessionForTurnRateLimit env s S)"
proof -
  define S1 where "S1 = fail env (sender s) rate_limited ''TURN credential issuance is rate limited. Try again shortly.'' S"
  have s2: "safe {} S0 S1" unfolding S1_def using safe_trans[OF s1] fail_safe[OF ws] s1 by (simp add: safe_def)
  have s3: "safe {} S0 (fail env (receiver s) rate_limited ''TURN credential issuance is rate limited. Try again shortly.'' S1)"
    using safe_trans[OF s2] fail_safe[OF ws] s2 by (simp add: safe_def)
  from closeSession_later[OF ws i0 live s3] show ?thesis by (simp add: closeSessionForTurnRateLimit_def S1_def)
qed

lemma rejectRelay_safe:
  assumes ws: "wsContract env" and i: "serverInv S" and live: "(k, s) \<in> set (sessions S)"
  shows "safe {} S (rejectRelayMessage env s p message S)"
  using restore_later[OF ws i live fail_safe[OF ws i]] badMessage_safe[OF ws i] by (simp add: rejectRelayMessage_def)

lemma map_entry_eq:
  "distinct (map fst al) \<Longrightarrow> AList.map_entry k f al = map (\<lambda>(k', v). (k', if k' = k then f v else v)) al"
proof (induction al)
  case (Cons x al)
  then show ?case
  proof (cases "fst x = k")
    case True
    then have "\<forall>y \<in> set al. fst y \<noteq> k" using Cons.prems by (auto simp: image_iff)
    then have "map (\<lambda>(k', v). (k', if k' = k then f v else v)) al = al" by (auto intro!: map_idI)
    with True show ?thesis by (cases x) simp
  qed (auto split: prod.splits)
qed simp

lemma advance_simps [simp]:
  "sid (advanceSession p m t s) = sid s" "sender (advanceSession p m t s) = sender s"
  "receiver (advanceSession p m t s) = receiver s" "sessionCode (advanceSession p m t s) = sessionCode s"
  "remainingAttempts (advanceSession p m t s) = remainingAttempts s"
proof -
  have "RelayPolicySession.more (applyRelayPhase s p m) = RelayPolicySession.more s" by simp
  then have "sessionCode (applyRelayPhase s p m) = sessionCode s" "remainingAttempts (applyRelayPhase s p m) = remainingAttempts s"
    by (cases s; cases "applyRelayPhase s p m"; simp)+
  then show "sid (advanceSession p m t s) = sid s" "sender (advanceSession p m t s) = sender s"
    "receiver (advanceSession p m t s) = receiver s" "sessionCode (advanceSession p m t s) = sessionCode s"
    "remainingAttempts (advanceSession p m t s) = remainingAttempts s"
    by (simp_all add: advanceSession_def Let_def)
qed

lemma phaseInv_expiry: "phaseInv (s\<lparr>sessionExpiresAt := x\<rparr>) = phaseInv s"
  by (simp add: phaseInv_def)

lemma recordRelayed_full:
  assumes f: "fullInv S" and cap: "captured S s" and al: "relayAllowedForPhase s p m"
  shows "fullInv (recordRelayed s p m S)"
proof -
  let ?S = "recordRelayed s p m S" and ?f = "advanceSession p m (clock S)"
  let ?g = "\<lambda>(k', v). (k', if k' = sid s then ?f v else v)"
  have i: "serverInv S" and ref: "refInv S" using f by (auto simp: fullInv_def serverInv_def)
  have sess: "sessions ?S = map ?g (sessions S)"
    using map_entry_eq[of "sessions S" "sid s" ?f] ref by (simp add: recordRelayed_def refInv_def)
  have other: "codes ?S = codes S" "peers ?S = peers S" "created ?S = created S" "history ?S = history S"
    "connected ?S = connected S" "activeConnections ?S = activeConnections S" "aborted ?S = aborted S"
    by (simp_all add: recordRelayed_def)
  have keys: "map fst (sessions ?S) = map fst (sessions S)" unfolding sess by (simp add: split_beta comp_def)
  have mem: "member (snd (?g x)) q = member (snd x) q" for x q by (simp add: split_beta member_def)
  have ins: "inSessions ?S q = inSessions S q" for q
    unfolding inSessions_def sess set_map using mem by (simp add: split_beta)
  have tok: "tokens ?S = tokens S"
    unfolding tokens_def other sess set_map image_image
    by (rule arg_cong2[of _ _ _ _ "(\<union>)"], rule refl, rule image_cong) (auto simp: sessionToken_def)
  have "refInv ?S"
    unfolding refInv_def other keys
  proof (intro conjI)
    show "\<forall>(k, w) \<in> set (codes S). codeOk ?S k w"
      using refInv_code[OF ref] by (auto simp: codeOk_def waits_def ins other)
    show "\<forall>(k, t) \<in> set (sessions ?S). sessionOk ?S k t"
    proof clarify
      fix k t assume "(k, t) \<in> set (sessions ?S)"
      then obtain t0 where t0: "(k, t0) \<in> set (sessions S)" "t = (if k = sid s then ?f t0 else t0)" by (auto simp: sess)
      have ok: "sessionOk S k t0" by (rule refInv_session[OF ref t0(1)])
      show "sessionOk ?S k t"
      proof (cases "k = sid s")
        case True
        then have "t0 = s" using cap t0(1) unfolding captured_def by blast
        then have "phaseInv (?f t0)" using ok al applyRelayPhase_phaseInv
          by (auto simp: advanceSession_def Let_def phaseInv_expiry sessionOk_def)
        with ok t0(2) True show ?thesis by (simp add: sessionOk_def other)
      next
        case False with ok t0(2) show ?thesis by (simp add: sessionOk_def other)
      qed
    qed
  qed (use ref in \<open>auto simp: refInv_def\<close>)
  moreover have "connInv ?S" using i by (simp add: serverInv_def connInv_def other)
  moreover have "budgetInv ?S" using f tok by (simp add: fullInv_def budgetInv_def claims_def registrations_def other)
  moreover have "capacityInv ?S" using f by (simp add: fullInv_def capacityInv_def sess other)
  ultimately show ?thesis using f by (simp add: fullInv_def serverInv_def liveConnections_def other)
qed

lemma sessionsDelete_recordRelayed: "sessionsDelete (sid s) (recordRelayed s p m S) = sessionsDelete (sid s) S"
proof -
  have "AList.delete k (AList.map_entry k f al) = AList.delete k al" for k f and al :: "(jsstring \<times> Session) list"
    by (induction al) (auto simp: AList.delete_eq)
  then show ?thesis by (simp add: recordRelayed_def sessionsDelete_def)
qed

lemma relayAccept_full:
  assumes ws: "wsContract env" and f: "fullInv S" and live: "(k, s) \<in> set (sessions S)"
    and al: "relayAllowedForPhase s p m"
  shows "fullInv (relayAccept env s p (sender s) m S)"
proof -
  have i: "serverInv S" using f by (simp add: fullInv_def)
  obtain S1 r1 where ice1: "sendIceConfig env (sender s) S = (S1, r1)" by fastforce
  obtain S2 d where tell: "sendMessage env (sender s) (Relayed (sid s) m) S1 = (S2, d)" by fastforce
  obtain S3 r2 where ice2: "sendIceConfig env (receiver s) S2 = (S3, r2)" by fastforce
  have s1: "safe {} S S1" and n1: "r1 = SendFailed \<Longrightarrow> readyState (peers S1 (sender s)) \<noteq> OPEN"
    using sendIceConfig_safe[OF ws i, of "sender s"] ice1 by auto
  then have i1: "serverInv S1" by (simp add: safe_def)
  have t: "safe {} S1 S2" and nd: "\<not> d \<Longrightarrow> readyState (peers S2 (sender s)) \<noteq> OPEN"
    using sendMessage_safe[OF ws i1, of "sender s" "Relayed (sid s) m"] sendMessage_failed[OF ws i1, of "sender s" "Relayed (sid s) m"] tell by auto
  have s2: "safe {} S S2" by (rule safe_trans[OF s1 t])
  then have i2: "serverInv S2" by (simp add: safe_def)
  have s3: "safe {} S S3" using safe_trans[OF s2] sendIceConfig_safe(1)[OF ws i2, of "receiver s"] ice2 by simp
  note tl = turnRateLimited_safe[OF ws i live]
  have d1: "r1 = SendFailed \<Longrightarrow> safe {} S (relayDeliveryFailed env s p (sender s) x b S1)" for x b
    using deliveryFailed_safe[OF ws i live s1 _ n1] by blast
  have d2: "\<not> d \<Longrightarrow> safe {} S (relayDeliveryFailed env s p (sender s) x b S2)" for x b
    using deliveryFailed_safe[OF ws i live s2 _ nd] by blast
  have rec: "fullInv (recordRelayed s p m S3)"
    by (rule recordRelayed_full[OF safe_full[OF s3 f] captured_later(1)[OF i live s3] al])
  show ?thesis
  proof (cases r1)
    case RateLimited
    then show ?thesis using safe_full[OF tl[OF s1] f] by (simp add: relayAccept_def ice1)
  next
    case SendFailed
    then show ?thesis using safe_full[OF d1 f] by (simp add: relayAccept_def ice1)
  next
    case Sent
    show ?thesis
    proof (cases d)
      case False
      then show ?thesis using Sent safe_full[OF d2 f] by (simp add: relayAccept_def ice1 tell)
    next
      case True
      then show ?thesis
        using Sent safe_full[OF tl[OF s3] f] safe_full[OF closeSession_later[OF ws i live s3] f] rec
        by (cases r2) (simp_all add: relayAccept_def ice1 tell ice2)
    qed
  qed
qed

lemma relayForward_full:
  assumes ws: "wsContract env" and f: "fullInv S" and live: "(k, s) \<in> set (sessions S)"
    and role: "relayAllowedForRole s p m" and al: "relayAllowedForPhase s p m" and p: "p = sender s \<or> p = receiver s"
  shows "fullInv (relayForward env s p (if sender s = p then receiver s else sender s) m S)"
proof -
  let ?t = "if sender s = p then receiver s else sender s"
  have i: "serverInv S" using f by (simp add: fullInv_def)
  note ids = live_ids[OF i live]
  have t: "?t = sender s \<or> ?t = receiver s" by simp
  have down: "readyState (peers S ?t) \<noteq> OPEN \<Longrightarrow> fullInv (relayDeliveryFailed env s p ?t x b S)" for x b
    using safe_full[OF deliveryFailed_safe[OF ws i live safe_refl[OF i] t] f] by blast
  have acc: "fullInv (relayAccept env s p ?t m S)" if "isPairAccept m"
  proof -
    have "sender s \<noteq> p" using role that ids p by (cases m) (auto simp: relayAllowedForRole_def sessionPeerId_def)
    then show ?thesis using relayAccept_full[OF ws f live al] by simp
  qed
  obtain S1 d where tell: "sendMessage env ?t (Relayed (sid s) m) S = (S1, d)" by fastforce
  have s1: "safe {} S S1" and nd: "\<not> d \<Longrightarrow> readyState (peers S1 ?t) \<noteq> OPEN"
    using sendMessage_safe[OF ws i, of ?t "Relayed (sid s) m"] sendMessage_failed[OF ws i, of ?t "Relayed (sid s) m"] tell by auto
  have undelivered: "\<not> d \<Longrightarrow> fullInv (relayDeliveryFailed env s p ?t x b S1)" for x b
    using safe_full[OF deliveryFailed_safe[OF ws i live s1 t nd] f] by blast
  have cap: "captured S1 s" by (rule captured_later(1)[OF i live s1])
  have rec: "fullInv (recordRelayed s p m S1)" by (rule recordRelayed_full[OF safe_full[OF s1 f] cap al])
  have del: "safe {} S (sessionsDelete (sid s) S1)" using safe_trans[OF s1] sessionsDelete_safe s1 by (simp add: safe_def)
  have rej: "fullInv (closeSessionPeers env s x (sessionsDelete (sid s) (recordRelayed s p m S1)))" for x
    unfolding sessionsDelete_recordRelayed by (rule safe_full[OF closeSession_later[OF ws i live del] f])
  show ?thesis
    using down acc undelivered rec rej by (simp add: relayForward_def tell Let_def)
qed

lemma relay_full:
  assumes ws: "wsContract env" and f: "fullInv S"
  shows "fullInv (relay env p k m S)"
proof -
  have i: "serverInv S" using f by (simp add: fullInv_def)
  have fl: "fullInv (fail env p c x S)" for c x by (rule safe_full[OF fail_safe[OF ws i] f])
  show ?thesis
  proof (cases "sessionsGet S k")
    case None then show ?thesis using fl by (simp add: relay_def)
  next
    case (Some s)
    have live: "(k, s) \<in> set (sessions S)" using Some by (rule sessionsGet_mem)
    have rej: "fullInv (rejectRelayMessage env s p x S)" for x by (rule safe_full[OF rejectRelay_safe[OF ws i live] f])
    show ?thesis
      using fl rej relayForward_full[OF ws f live, of p m] by (auto simp: relay_def Some)
  qed
qed

end
