(* ===== verification/ServerPairing.thy ===== *)
theory ServerPairing
  imports ServerSafety
begin

text \<open>
  Registering a code and connecting to it keep the full invariant of the signaling server: a
  registration brings three attempts for its receiver, and a connection uses one of them up.
\<close>

section \<open>Registering\<close>

lemma not_inSessions: "serverInv S \<Longrightarrow> peerSid (peers S p) = None \<Longrightarrow> \<not> inSessions S p"
  using refInv_session[of S] by (fastforce simp: inSessions_def member_def sessionOk_def serverInv_def)

lemma open_waiter:
  assumes "serverInv S" "readyState (peers S p) = OPEN" "(k, w) \<in> set (codes S)" "waitingReceiver w = p"
  shows "peerCode (peers S p) = Some k" "role (peers S p) = Some Receiver" "peerSid (peers S p) = None"
  using refInv_code[of S k w] assms by (auto simp: serverInv_def codeOk_def waits_def)

lemma becomes_simps [simp]:
  "sessions (peerBecomes p r c S) = sessions S" "codes (peerBecomes p r c S) = codes S" "created (peerBecomes p r c S) = created S"
  "history (peerBecomes p r c S) = history S" "clock (peerBecomes p r c S) = clock S" "aborted (peerBecomes p r c S) = aborted S"
  "connected (peerBecomes p r c S) = connected S" "activeConnections (peerBecomes p r c S) = activeConnections S"
  "peerSid (peers (peerBecomes p r c S) q) = peerSid (peers S q)" "ip (peers (peerBecomes p r c S) q) = ip (peers S q)"
  "readyState (peers (peerBecomes p r c S) q) = readyState (peers S q)"
  "connectionReleased (peers (peerBecomes p r c S) q) = connectionReleased (peers S q)"
  "peerCode (peers (peerBecomes p r c S) q) = (if q = p then Some c else peerCode (peers S q))"
  "role (peers (peerBecomes p r c S) q) = (if q = p then Some r else role (peers S q))"
  by (simp_all add: peerBecomes_def clearIdleTimer_def)

definition registeredState :: "peerId \<Rightarrow> jsstring \<Rightarrow> Server \<Rightarrow> Server" where
  "registeredState p code S =
     (let S3 = codesSet code \<lparr>waitingKey = code, waitingReceiver = p, waitingExpiresAt = clock S + CODE_TTL_MS,
                waitingAttempts = initialPrePairAttempts\<rparr> (peerBecomes p Receiver code S) in
      S3\<lparr>history := history S3 @ [RegisteredCode p code]\<rparr>)"

lemma registered_full:
  assumes f: "fullInv S" and p: "p \<in> set (created S)" "peerSid (peers S p) = None" "\<not> inCodes S p"
    and new: "codesGet S code = None"
    and cap: "length (codes S) + length (sessions S) < SIGNALING_MAX_WAITING_CODES + SIGNALING_MAX_SESSIONS"
  shows "fullInv (registeredState p code S)"
proof -
  let ?S = "registeredState p code S"
  let ?w = "\<lparr>waitingKey = code, waitingReceiver = p, waitingExpiresAt = clock S + CODE_TTL_MS, waitingAttempts = 3\<rparr>"
  have i: "serverInv S" and ref: "refInv S" using f by (auto simp: fullInv_def serverInv_def)
  have free: "\<not> inSessions S p" by (rule not_inSessions[OF i p(2)])
  have key: "code \<notin> fst ` set (codes S)" using new by (simp add: codesGet_def map_of_eq_None_iff)
  have cs: "codes ?S = codes S @ [(code, ?w)]"
    using update_new[OF key] by (simp add: registeredState_def Let_def initialPrePairAttempts_def limit_defs)
  have ss: "sessions ?S = sessions S" "created ?S = created S" "connected ?S = connected S" "aborted ?S = aborted S"
    "activeConnections ?S = activeConnections S" "history ?S = history S @ [RegisteredCode p code]"
    by (simp_all add: registeredState_def Let_def codesSet_def)
  have ps: "peerSid (peers ?S q) = peerSid (peers S q)" "ip (peers ?S q) = ip (peers S q)" "readyState (peers ?S q) = readyState (peers S q)"
    "connectionReleased (peers ?S q) = connectionReleased (peers S q)"
    "peerCode (peers ?S q) = (if q = p then Some code else peerCode (peers S q))"
    "role (peers ?S q) = (if q = p then Some Receiver else role (peers S q))" for q
    by (simp_all add: registeredState_def Let_def)
  have ins: "inSessions ?S q = inSessions S q" for q by (simp add: inSessions_def ss)
  have rp: "waitingReceiver w \<noteq> p" if "(k, w) \<in> set (codes S)" for k w using that p(3) by (auto simp: inCodes_def)
  have "refInv ?S"
    unfolding refInv_def
  proof (intro conjI)
    show "distinct (map fst (codes ?S))" using ref key by (simp add: cs refInv_def)
    have "p \<notin> waitingReceiver ` snd ` set (codes S)" using rp by force
    then show "distinct (map waitingReceiver (map snd (codes ?S)))" using ref by (simp add: cs refInv_def image_image)
    show "\<forall>(k, w) \<in> set (codes ?S). codeOk ?S k w"
      using refInv_code[OF ref] rp free p by (auto simp: cs codeOk_def waits_def ins ps ss)
    show "\<forall>(k, t) \<in> set (sessions ?S). sessionOk ?S k t"
      using refInv_session[OF ref] by (auto simp: ss sessionOk_def ps)
  qed (use ref in \<open>auto simp: refInv_def ss\<close>)
  moreover have "connInv ?S" using i by (simp add: serverInv_def connInv_def ss ps)
  moreover have "budgetInv ?S"
  proof -
    have tok: "tokens ?S = insert (p, code, 3) (tokens S)" by (auto simp: tokens_def cs ss)
    have h: "claims ?S r c = claims S r c" "registrations ?S r c = registrations S r c + (if r = p \<and> c = code then 1 else 0)" for r c
      by (auto simp: claims_def registrations_def ss)
    have b: "claims S r c \<le> 3 * registrations S r c" for r c using f by (simp add: fullInv_def budgetInv_def)
    have t: "claims S r c + a \<le> 3 * registrations S r c" if "(r, c, a) \<in> tokens S" for r c a
      using f that unfolding fullInv_def budgetInv_def by blast
    have "claims ?S r c + a \<le> 3 * registrations ?S r c" if "(r, c, a) \<in> tokens ?S" for r c a
      using that t[of r c a] b[of r c] by (auto simp: tok h)
    moreover have "claims ?S r c \<le> 3 * registrations ?S r c" for r c using b[of r c] by (simp add: h)
    ultimately show ?thesis unfolding budgetInv_def by blast
  qed
  moreover have "capacityInv ?S" using f cap by (simp add: fullInv_def capacityInv_def cs ss)
  ultimately show ?thesis using f by (simp add: fullInv_def serverInv_def liveConnections_def ss ps)
qed

lemma becomes_safe:
  assumes "serverInv S" "peerCode (peers S p) = Some c" "role (peers S p) = Some r"
  shows "safe X S (peerBecomes p r c S)"
  using assms by (intro quiet_safe) (auto simp: quiet_def sameConn_def)

lemma codesDelete_mem: "inCodes (codesDelete k S) p \<longleftrightarrow> (\<exists>(k', w) \<in> set (codes S). k' \<noteq> k \<and> waitingReceiver w = p)"
  by (auto simp: inCodes_def)

lemma length_codesDelete: "length (codes (codesDelete k S)) \<le> length (codes S)"
  by (simp add: AList.length_delete_le)

lemma owned_entry: "waitingCodeOwnedBy (codesGet S c) p \<Longrightarrow> \<exists>w. codesGet S c = Some w \<and> waitingReceiver w = p"
  by (auto simp: waitingCodeOwnedBy_def split: option.splits)

lemma registerCode_full:
  assumes ws: "wsContract env" and f: "fullInv S" and p: "p \<in> set (created S)" "readyState (peers S p) = OPEN" "peerSid (peers S p) = None"
  shows "fullInv (registerCode env p code S)"
proof (cases "codesGet S code")
  case (Some existing)
  have i: "serverInv S" using f by (simp add: fullInv_def)
  have mem: "(code, existing) \<in> set (codes S)" by (rule codesGet_mem[OF Some])
  have fl: "fullInv (fail env p c x S)" for c x by (rule safe_full[OF fail_safe[OF ws i] f])
  have drop: "waitingReceiver existing = p \<Longrightarrow> fullInv (dropWaitingCode env code p x y S)" for x y
    using safe_full[OF dropWaitingCode_safe[OF ws i Some] f] by blast
  have again: "fullInv (fst (sendMessage env p m (peerBecomes p Receiver code S)))" if "waitingReceiver existing = p" for m
  proof -
    have s1: "safe {} S (peerBecomes p Receiver code S)"
      using open_waiter[OF i p(2) mem that] by (intro becomes_safe[OF i])
    then show ?thesis using safe_full[OF safe_trans[OF s1 sendMessage_safe[OF ws]] f] by (simp add: safe_def)
  qed
  show ?thesis using fl drop again by (auto simp: registerCode_def Some waitingCodeOwnedBy_def Let_def)
next
  case None
  have i: "serverInv S" using f by (simp add: fullInv_def)
  have fl: "fullInv (fail env p c x S)" for c x by (rule safe_full[OF fail_safe[OF ws i] f])
  define repl where "repl = (case peerCode (peers S p) of None \<Rightarrow> False | Some c \<Rightarrow> c \<noteq> code \<and> waitingCodeOwnedBy (codesGet S c) p)"
  define S1 where "S1 = (case peerCode (peers S p) of Some c \<Rightarrow> if repl then codesDelete c S else S | None \<Rightarrow> S)"
  have s1: "safe {} S S1" using codesDelete_safe[OF i] safe_refl[OF i] by (auto simp: S1_def split: option.splits)
  have f1: "fullInv S1" by (rule safe_full[OF s1 f])
  have fields: "sessions S1 = sessions S" "peers S1 = peers S" "created S1 = created S" "clock S1 = clock S"
    by (auto simp: S1_def split: option.splits)
  have free: "\<not> inCodes S1 p"
  proof
    assume "inCodes S1 p"
    then obtain k w where w: "(k, w) \<in> set (codes S1)" "waitingReceiver w = p" by (auto simp: inCodes_def)
    then have mem: "(k, w) \<in> set (codes S)" by (auto simp: S1_def split: option.splits if_splits)
    have pc: "peerCode (peers S p) = Some k" by (rule open_waiter(1)[OF i p(2) mem w(2)])
    have get: "codesGet S k = Some w" using mem i by (simp add: codesGet_def serverInv_def refInv_def)
    then have "k \<noteq> code" using None by auto
    then have "repl" using pc get w(2) by (simp add: repl_def waitingCodeOwnedBy_def)
    with w pc show False by (simp add: S1_def)
  qed
  have new: "codesGet S1 code = None"
    using None by (auto simp: S1_def codesGet_def AList.delete_conv split: option.splits)
  have room: "length (codes S1) + length (sessions S1) < SIGNALING_MAX_WAITING_CODES + SIGNALING_MAX_SESSIONS"
    if can: "canRegisterWaitingCode (num (length (codes S))) (num SIGNALING_MAX_WAITING_CODES) repl"
  proof (cases repl)
    case True
    then obtain c where c: "peerCode (peers S p) = Some c" "waitingCodeOwnedBy (codesGet S c) p" by (auto simp: repl_def split: option.splits)
    then have "c \<in> fst ` set (codes S)" using owned_entry codesGet_mem by (metis fst_conv image_eqI)
    then have "length (codes S1) < length (codes S)" using True c by (simp add: S1_def length_delete_less)
    then show ?thesis using f by (simp add: fields fullInv_def capacityInv_def)
  next
    case False
    then have "length (codes S) < SIGNALING_MAX_WAITING_CODES" "S1 = S"
      using can safeBelow_imp_less by (auto simp: canRegisterWaitingCode_def S1_def split: option.splits)
    then show ?thesis using f by (simp add: fullInv_def capacityInv_def)
  qed
  have reg: "fullInv (registeredState p code S1)" if "canRegisterWaitingCode (num (length (codes S))) (num SIGNALING_MAX_WAITING_CODES) repl"
    using p by (intro registered_full[OF f1 _ _ free new room[OF that]]) (simp_all add: fields)
  have fin: "fullInv (fst (sendMessage env p m (registeredState p code S1)))"
    if "canRegisterWaitingCode (num (length (codes S))) (num SIGNALING_MAX_WAITING_CODES) repl" for m
    using safe_full[OF sendMessage_safe[OF ws] reg[OF that]] reg[OF that] by (simp add: fullInv_def)
  have eq: "registerCode env p code S = (if \<not> canRegisterWaitingCode (num (length (codes S))) (num SIGNALING_MAX_WAITING_CODES) repl
      then fail env p rate_limited ''Signaling server is at capacity. Try again shortly.'' S
      else fst (sendMessage env p (Registered code (CODE_TTL_MS div 1000)) (registeredState p code S1)))"
    unfolding registerCode_def None option.case Let_def repl_def[symmetric] S1_def[symmetric] registeredState_def fields(4) by (rule refl)
  show ?thesis unfolding eq using fl fin by simp
qed

lemma hitRateLimit_full:
  assumes ws: "wsContract env" and f: "fullInv S"
  shows "fullInv (fst (hitRateLimit env p S))"
    "snd (hitRateLimit env p S) \<Longrightarrow> \<exists>h. fst (hitRateLimit env p S) = S\<lparr>rateLimits := h\<rparr>"
proof -
  define h where "h = hitFixedWindowRateLimit (rateLimits S) (ip (peers S p)) (num (clock S)) (num 60000) (num 60)"
  define S1 where "S1 = S\<lparr>rateLimits := snd h\<rparr>"
  have i: "serverInv S" using f by (simp add: fullInv_def)
  have s1: "safe {} S S1" unfolding S1_def by (rule quiet_safe[OF i]) (simp_all add: quiet_def sameConn_def)
  then have i1: "serverInv S1" by (simp add: safe_def)
  have eq: "hitRateLimit env p S = (if fst h then (S1, True) else (fail env p rate_limited ''Too many attempts. Try again shortly.'' S1, False))"
    by (simp add: hitRateLimit_def h_def S1_def split_beta Let_def)
  show "fullInv (fst (hitRateLimit env p S))"
    unfolding eq using safe_full[OF s1 f] safe_full[OF safe_trans[OF s1 fail_safe[OF ws i1]] f] by simp
  show "\<exists>h. fst (hitRateLimit env p S) = S\<lparr>rateLimits := h\<rparr>" if "snd (hitRateLimit env p S)"
    using that unfolding eq S1_def by (auto split: if_splits)
qed

lemma register_full:
  assumes ws: "wsContract env" and f: "fullInv S" and p: "p \<in> set (created S)" "readyState (peers S p) = OPEN"
  shows "fullInv (register env p rawCode version S)"
proof -
  obtain S1 al where h: "hitRateLimit env p S = (S1, al)" by fastforce
  have f1: "fullInv S1" using hitRateLimit_full(1)[OF ws f, of p] h by simp
  then have i1: "serverInv S1" by (simp add: fullInv_def)
  have fl: "fullInv (fail env p c x S1)" for c x by (rule safe_full[OF fail_safe[OF ws i1] f1])
  have reg: "fullInv (registerCode env p c S1)" if "al" "peerSid (peers S1 p) = None" for c
    using hitRateLimit_full(2)[OF ws f, of p] h p that by (intro registerCode_full[OF ws f1]) auto
  show ?thesis using f1 fl reg by (simp add: register_def h Let_def)
qed

section \<open>Connecting\<close>

text \<open>The state after a code was taken: the session is in the table.\<close>

definition claimedState :: "peerId \<Rightarrow> jsstring \<Rightarrow> WaitingCode \<Rightarrow> nat \<Rightarrow> jsstring \<Rightarrow> Server \<Rightarrow> Server" where
  "claimedState p code waiting remaining newSid S =
     (let r = waitingReceiver waiting;
          S1 = codesDelete code S;
          S2 = (case peerCode (peers S1 p) of
                  Some c \<Rightarrow> if waitingCodeOwnedBy (codesGet S1 c) p then codesDelete c S1 else S1
                | None \<Rightarrow> S1);
          S3 = peerBecomes p Sender code (updPeer p (\<lambda>q. q\<lparr>peerSid := Some newSid\<rparr>) S2);
          S4 = updPeer r (\<lambda>q. q\<lparr>peerSid := Some newSid\<rparr>) S3;
          s = newSession newSid code waiting p remaining (clock S);
          S5 = sessionsSet newSid s S4 in
      S5\<lparr>history := history S5 @ [ClaimedCode r code]\<rparr>)"

lemma newSession_simps [simp]:
  "sid (newSession k c w p n t) = k" "sender (newSession k c w p n t) = p" "receiver (newSession k c w p n t) = waitingReceiver w"
  "sessionCode (newSession k c w p n t) = c" "remainingAttempts (newSession k c w p n t) = n"
  "phaseInv (newSession k c w p n t)"
  by (simp_all add: newSession_def phaseInv_def)

lemma claimed_full:
  assumes f: "fullInv S" and p: "p \<in> set (created S)" "readyState (peers S p) = OPEN" "peerSid (peers S p) = None" "role (peers S p) \<noteq> Some Receiver"
    and w: "codesGet S code = Some w" "waitingReceiver w \<noteq> p" "waitingAttempts w = Suc n" and new: "newSid \<notin> fst ` set (sessions S)"
    and cap: "length (sessions S) < SIGNALING_MAX_SESSIONS"
  shows "fullInv (claimedState p code w n newSid S)"
    "(newSid, newSession newSid code w p n (clock S))
       \<in> set (sessions (claimedState p code w n newSid S))"
proof -
  let ?S = "claimedState p code w n newSid S" and ?r = "waitingReceiver w"
  let ?s = "newSession newSid code w p n (clock S)"
  have i: "serverInv S" and ref: "refInv S" using f by (auto simp: fullInv_def serverInv_def)
  have mem: "(code, w) \<in> set (codes S)" by (rule codesGet_mem[OF w(1)])
  have wok: "codeOk S code w" by (rule refInv_code[OF ref mem])
  have pfree: "\<not> inSessions S p" by (rule not_inSessions[OF i p(3)])
  have pcodes: "waitingReceiver v \<noteq> p" if "(k, v) \<in> set (codes S)" for k v
    using open_waiter(2)[OF i p(2) that] p(4) by blast
  have rcodes: "waitingReceiver v \<noteq> ?r" if "(k, v) \<in> set (codes S)" "k \<noteq> code" for k v
    using code_unique[OF ref that(1) mem] that(2) by blast
  have rfree: "\<not> inSessions S ?r" using wok by (simp add: codeOk_def)
  have notown: "\<not> waitingCodeOwnedBy (codesGet (codesDelete code S) c) p" for c
  proof
    assume "waitingCodeOwnedBy (codesGet (codesDelete code S) c) p"
    then obtain v where "codesGet (codesDelete code S) c = Some v" "waitingReceiver v = p" using owned_entry by blast
    then have "(c, v) \<in> set (codes S)" "waitingReceiver v = p" using codesGet_mem[of "codesDelete code S" c v] by auto
    with pcodes show False by blast
  qed
  have cs: "codes ?S = AList.delete code (codes S)" "sessions ?S = sessions S @ [(newSid, ?s)]" "created ?S = created S"
    "connected ?S = connected S" "aborted ?S = aborted S" "activeConnections ?S = activeConnections S"
    "history ?S = history S @ [ClaimedCode ?r code]"
    using notown update_new[OF new]
    by (auto simp: claimedState_def Let_def sessionsSet_def codesDelete_def split: option.splits)
  have ps: "peerSid (peers ?S q) = (if q = p \<or> q = ?r then Some newSid else peerSid (peers S q))"
    "ip (peers ?S q) = ip (peers S q)" "readyState (peers ?S q) = readyState (peers S q)"
    "connectionReleased (peers ?S q) = connectionReleased (peers S q)"
    "q \<noteq> p \<Longrightarrow> peerCode (peers ?S q) = peerCode (peers S q)" "q \<noteq> p \<Longrightarrow> role (peers ?S q) = role (peers S q)" for q
    using notown by (auto simp: claimedState_def Let_def sessionsSet_def split: option.splits)
  have ins: "inSessions ?S q \<longleftrightarrow> inSessions S q \<or> q = p \<or> q = ?r" for q
    by (auto simp: inSessions_def cs member_def)
  show inn: "(newSid, ?s) \<in> set (sessions ?S)" by (simp add: cs)
  have "refInv ?S"
    unfolding refInv_def
  proof (intro conjI)
    show "distinct (map fst (sessions ?S))" using ref new by (simp add: cs refInv_def)
    show "distinct (map fst (codes ?S))" using ref distinct_delete[of "codes S" code] by (simp add: cs refInv_def)
    show "distinct (map waitingReceiver (map snd (codes ?S)))"
      unfolding cs by (rule distinct_receivers_delete) (use ref in \<open>simp add: refInv_def\<close>)
    show "[] \<notin> set (created ?S)" using ref by (simp add: cs refInv_def)
    show "\<forall>(k, t) \<in> set (sessions ?S). sessionOk ?S k t"
    proof clarify
      fix k t assume "(k, t) \<in> set (sessions ?S)"
      then consider "(k, t) \<in> set (sessions S)" | "k = newSid" "t = ?s" by (auto simp: cs)
      then show "sessionOk ?S k t"
      proof cases
        case 1
        then have "sender t \<noteq> p" "sender t \<noteq> ?r" "receiver t \<noteq> p" "receiver t \<noteq> ?r"
          using pfree rfree by (auto simp: inSessions_def member_def)
        with refInv_session[OF ref 1] show ?thesis by (simp add: sessionOk_def ps cs)
      next
        case 2
        with wok p w(2,3) show ?thesis by (simp add: sessionOk_def ps cs codeOk_def)
      qed
    qed
    show "\<forall>(k, v) \<in> set (codes ?S). codeOk ?S k v"
    proof clarify
      fix k v assume "(k, v) \<in> set (codes ?S)"
      then have v: "(k, v) \<in> set (codes S)" "k \<noteq> code" by (simp_all add: cs)
      from refInv_code[OF ref v(1)] pcodes[OF v(1)] rcodes[OF v] show "codeOk ?S k v"
        by (simp add: cs codeOk_def waits_def ins ps)
    qed
  qed
  moreover have "connInv ?S" using i by (simp add: serverInv_def connInv_def cs ps)
  moreover have "budgetInv ?S"
  proof -
    have t: "claims S r c + a \<le> 3 * registrations S r c" if "(r, c, a) \<in> tokens S" for r c a
      using f that unfolding fullInv_def budgetInv_def by blast
    have b: "claims S r c \<le> 3 * registrations S r c" for r c using f by (simp add: fullInv_def budgetInv_def)
    have h: "registrations ?S r c = registrations S r c" "claims ?S r c = claims S r c + (if r = ?r \<and> c = code then 1 else 0)" for r c
      by (auto simp: claims_def registrations_def cs)
    have own: "(?r, code, waitingAttempts w) \<in> tokens S" using mem by (force simp: tokens_def)
    have tok: "(r, c, a) = (?r, code, n) \<or> (r, c, a) \<in> tokens S \<and> r \<noteq> ?r" if "(r, c, a) \<in> tokens ?S" for r c a
      using that
    proof (cases rule: tokens_cases)
      case (1 k v)
      then have "(k, v) \<in> set (codes S)" "k \<noteq> code" by (simp_all add: cs)
      with 1 rcodes show ?thesis by (force simp: tokens_def)
    next
      case (2 k t)
      then consider "(k, t) \<in> set (sessions S)" | "t = ?s" by (auto simp: cs)
      then show ?thesis
      proof cases
        case 1
        then have "receiver t \<noteq> ?r" using rfree by (auto simp: inSessions_def member_def)
        with 1 2 show ?thesis by (force simp: tokens_def sessionToken_def)
      next
        case (2) with \<open>r = receiver t\<close> \<open>c = sessionCode t\<close> \<open>a = remainingAttempts t\<close> show ?thesis by simp
      qed
    qed
    have "claims ?S r c + a \<le> 3 * registrations ?S r c" if "(r, c, a) \<in> tokens ?S" for r c a
      using tok[OF that] t[OF own] t[of r c a] w(3) by (auto simp: h)
    moreover have "claims ?S r c \<le> 3 * registrations ?S r c" for r c using b[of r c] t[OF own] w(3) by (auto simp: h)
    ultimately show ?thesis unfolding budgetInv_def by blast
  qed
  moreover have "capacityInv ?S"
  proof -
    have "length (codes ?S) < length (codes S)" using mem length_delete_less[of code "codes S"] by (force simp: cs)
    then show ?thesis using f cap by (simp add: fullInv_def capacityInv_def cs)
  qed
  ultimately show "fullInv ?S" using f by (simp add: fullInv_def serverInv_def liveConnections_def cs ps)
qed

lemma claimCode_full:
  assumes ws: "wsContract env" and f: "fullInv S"
    and p: "p \<in> set (created S)" "readyState (peers S p) = OPEN" "peerSid (peers S p) = None" "role (peers S p) \<noteq> Some Receiver"
    and w: "codesGet S code = Some w" "waitingReceiver w \<noteq> p" "waitingAttempts w = Suc n" and new: "newSid \<notin> fst ` set (sessions S)"
    and cap: "length (sessions S) < SIGNALING_MAX_SESSIONS"
  shows "fullInv (claimCode env p code w n newSid S)"
proof -
  let ?r = "waitingReceiver w" and ?m = "PeerJoined newSid"
  define s where "s = newSession newSid code w p n (clock S)"
  define S6 where "S6 = claimedState p code w n newSid S"
  obtain S7 d where t7: "sendMessage env ?r ?m S6 = (S7, d)" by fastforce
  obtain S8 d' where t8: "sendMessage env p ?m S7 = (S8, d')" by fastforce
  have f6: "fullInv S6" and live: "(newSid, s) \<in> set (sessions S6)"
    using claimed_full[OF f p w new cap] by (simp_all add: S6_def s_def)
  then have i6: "serverInv S6" by (simp add: fullInv_def)
  have s7: "safe {} S6 S7" and nd: "\<not> d \<Longrightarrow> readyState (peers S7 ?r) \<noteq> OPEN"
    using sendMessage_safe[OF ws i6, of ?r ?m] sendMessage_failed[OF ws i6, of ?r ?m] t7 by auto
  then have i7: "serverInv S7" by (simp add: safe_def)
  have s8: "safe {} S6 S8" using safe_trans[OF s7] sendMessage_safe[OF ws i7, of p ?m] t8 by simp
  have undelivered: "safe {} S6 (fail env p c x (closePeerAndRelease env ?r y
      (clearPeerSessionState ?r (clearPeerSessionState p (sessionsDelete newSid S7)))))" if "\<not> d" for c x y
  proof -
    define T where "T = sessionsDelete newSid S7"
    have cap7: "captured S7 s" by (rule captured_later(1)[OF i6 live s7])
    have "safe {} S7 T" unfolding T_def by (rule sessionsDelete_safe[OF i7])
    then have sT: "safe {} S6 T" by (rule safe_trans[OF s7])
    then have iT: "serverInv T" by (simp add: safe_def)
    have det: "detached T s" using detached_delete[OF cap7] by (simp add: T_def s_def)
    note free = detached_free[OF det]
    have s1: "safe {} T (clearPeerSessionState p T)" using free by (intro clear_safe[OF iT]) (simp_all add: s_def)
    have rT: "readyState (peers T ?r) \<noteq> OPEN" using nd[OF that] by (simp add: T_def)
    have s2: "safe {} (clearPeerSessionState p T) (clearPeerSessionState ?r (clearPeerSessionState p T))"
      using s1 free rT by (intro clear_safe) (simp_all add: s_def safe_def inSessions_def)
    let ?U = "clearPeerSessionState ?r (clearPeerSessionState p T)"
    have sU: "safe {} S6 ?U" using safe_trans[OF sT safe_trans[OF s1 s2]] .
    then have iU: "serverInv ?U" by (simp add: safe_def)
    have sC: "safe {} S6 (closePeerAndRelease env ?r y ?U)" by (rule safe_trans[OF sU closePeer_safe(2)[OF ws iU]])
    then have "serverInv (closePeerAndRelease env ?r y ?U)" by (simp add: safe_def)
    from safe_trans[OF sC fail_safe[OF ws this]] show ?thesis by (simp add: T_def)
  qed
  have "claimCode env p code w n newSid S = (let (S7, toReceiver) = sendMessage env ?r ?m S6 in
      if \<not> toReceiver then
        fail env p peer_unavailable ''Receiver is no longer connected.''
          (closePeerAndRelease env ?r ''receiver unavailable''
            (clearPeerSessionState ?r (clearPeerSessionState p (sessionsDelete newSid S7))))
      else
        let (S8, toSender) = sendMessage env p ?m S7 in
        if \<not> toSender then restoreWaitingReceiver env (sendMessage env) s ''sender unavailable'' True S8 else S8)"
    unfolding claimCode_def claimedState_def S6_def s_def Let_def by (rule refl)
  then show ?thesis
    using safe_full[OF undelivered f6] safe_full[OF restore_later[OF ws i6 live s8] f6] safe_full[OF s8 f6]
    by (simp add: t7 t8 Let_def)
qed

lemma connectCode_full:
  assumes ws: "wsContract env" and f: "fullInv S"
    and p: "p \<in> set (created S)" "readyState (peers S p) = OPEN" "peerSid (peers S p) = None" "role (peers S p) \<noteq> Some Receiver"
    and new: "newSid \<notin> fst ` set (sessions S)"
  shows "fullInv (connectCode env p code newSid S)"
proof (cases "codesGet S code")
  case None
  then show ?thesis using safe_full[OF fail_safe[OF ws] f] f by (simp add: connectCode_def fullInv_def)
next
  case (Some w)
  have i: "serverInv S" using f by (simp add: fullInv_def)
  have ok: "codeOk S code w" using refInv_code codesGet_mem[OF Some] i by (simp add: serverInv_def)
  have drop: "fullInv (fail env p c x (dropWaitingCode env code (waitingReceiver w) y z S))" for c x y z
  proof -
    have d: "safe {} S (dropWaitingCode env code (waitingReceiver w) y z S)" by (rule dropWaitingCode_safe[OF ws i Some refl])
    then have "serverInv (dropWaitingCode env code (waitingReceiver w) y z S)" by (simp add: safe_def)
    from safe_full[OF safe_trans[OF d fail_safe[OF ws this]] f] show ?thesis .
  qed
  have fl: "fullInv (fail env p c x S)" for c x by (rule safe_full[OF fail_safe[OF ws i] f])
  have bad: "fullInv (badMessage env p x S)" for x by (rule safe_full[OF badMessage_safe[OF ws i] f])
  have claim: "fullInv (claimCode env p code w n newSid S)"
    if "waitingReceiver w \<noteq> p" "canCreateSession (num (length (sessions S))) (num SIGNALING_MAX_SESSIONS)" "waitingAttempts w = Suc n" for n
    using that safeBelow_imp_less
    by (intro claimCode_full[OF ws f p Some _ _ new]) (auto simp: canCreateSession_def)
  obtain n where n: "waitingAttempts w = Suc n" "consumePrePairAttempt (waitingAttempts w) = Inr n"
    using ok consumePrePairAttempt_ok[of "waitingAttempts w" "waitingAttempts w - 1"]
    by (cases "waitingAttempts w") (auto simp: codeOk_def)
  show ?thesis
    using drop fl bad claim[OF _ _ n(1)] n(2) by (simp add: connectCode_def Some Let_def)
qed

lemma connect_full:
  assumes ws: "wsContract env" and f: "fullInv S" and p: "p \<in> set (created S)" "readyState (peers S p) = OPEN"
    and new: "newSid \<notin> fst ` set (sessions S)"
  shows "fullInv (connect env p rawCode version newSid S)"
proof -
  obtain S1 al where h: "hitRateLimit env p S = (S1, al)" by fastforce
  have f1: "fullInv S1" using hitRateLimit_full(1)[OF ws f, of p] h by simp
  then have i1: "serverInv S1" by (simp add: fullInv_def)
  have fl: "fullInv (fail env p c x S1)" for c x by (rule safe_full[OF fail_safe[OF ws i1] f1])
  have con: "fullInv (connectCode env p c newSid S1)" if "al" "peerSid (peers S1 p) = None" "role (peers S1 p) \<noteq> Some Receiver" for c
    using hitRateLimit_full(2)[OF ws f, of p] h p new that by (intro connectCode_full[OF ws f1]) auto
  show ?thesis using f1 fl con by (simp add: connect_def h Let_def)
qed

end
