(* ===== verification/ServerReach.thy ===== *)
theory ServerReach
  imports ServerPairing
begin

text \<open>
  Every event of the signaling server keeps the full invariant, so every reachable state has
  it. The properties of the server follow.
\<close>

section \<open>Message events\<close>

lemma safe_fullD: "safe {} S S' \<Longrightarrow> fullInv S \<Longrightarrow> fullInv S' \<and> serverInv S'"
  using safe_full by (auto simp: safe_def)

lemma retryReceiver_safe:
  assumes ws: "wsContract env" and i: "serverInv S"
  shows "safe {} S (fst (retryReceiver env p S))"
proof (cases "peerSid (peers S p)")
  case None
  have "safe {} S (dropWaitingCode env c p x y S)" if "codesGet S c = Some w" "waitingReceiver w = p" for c w x y
    by (rule dropWaitingCode_safe[OF ws i that])
  then show ?thesis
    using None safe_refl[OF i] sendMessage_safe[OF ws i] by (auto simp: retryReceiver_def split: option.splits)
next
  case (Some k)
  have "safe {} S (restoreWaitingReceiver env (sendMessage env) s x b S)" if "sessionsGet S k = Some s" for s x b
    by (rule restore_later[OF ws i sessionsGet_mem[OF that] safe_refl[OF i]])
  then show ?thesis using Some safe_refl[OF i] by (auto simp: retryReceiver_def split: option.splits)
qed

lemma bye_safe:
  assumes ws: "wsContract env" and i: "serverInv S"
  shows "safe {} S (handleMessage env p (Bye k reason) newSid S)"
proof -
  define R where "R = (if reason = Some (js ''prepair_retry'') then retryReceiver env p S else (S, False))"
  have s1: "safe {} S (fst R)" using retryReceiver_safe[OF ws i] safe_refl[OF i] by (simp add: R_def)
  then have i1: "serverInv (fst R)" by (simp add: safe_def)
  define T where "T = cleanupPeer env (sendMessage env) p (peerVisibleByeReason reason) (fst R)"
  have s2: "safe {} S T" unfolding T_def by (rule safe_trans[OF s1 cleanup_safe[OF ws i1]])
  then have "safe {} S (closePeerAndRelease env p x T)" for x using safe_trans[OF s2 closePeer_safe(2)[OF ws]] by (simp add: safe_def)
  with s1 show ?thesis by (simp add: handleMessage_def R_def[symmetric] T_def split_beta Let_def)
qed

lemma handleMessage_full:
  assumes ws: "wsContract env" and f: "fullInv S" and p: "p \<in> set (created S)" "readyState (peers S p) = OPEN"
    and new: "newSid \<notin> fst ` set (sessions S)"
  shows "fullInv (handleMessage env p m newSid S)"
proof (cases m)
  case (Register c v) then show ?thesis using register_full[OF ws f p] by (simp add: handleMessage_def)
next
  case (Connect c v) then show ?thesis using connect_full[OF ws f p new] by (simp add: handleMessage_def)
next
  case (Relay k b) then show ?thesis using relay_full[OF ws f] by (simp add: handleMessage_def)
next
  case (Bye k r) then show ?thesis using safe_full[OF bye_safe[OF ws] f] f by (simp add: fullInv_def)
qed

lemma hitMessageLimit_safe:
  assumes ws: "wsContract env" and i: "serverInv S"
  shows "safe {} S (fst (hitMessageLimit env p S))"
    "snd (hitMessageLimit env p S) \<Longrightarrow> \<exists>h. fst (hitMessageLimit env p S) = updPeer p (\<lambda>q. q\<lparr>messageTimes := h\<rparr>) S"
proof -
  define h where "h = recordFixedWindowHit (messageTimes (peers S p)) (num (clock S)) (num 60000) (num SIGNALING_MAX_MESSAGES_PER_MINUTE)"
  define S1 where "S1 = updPeer p (\<lambda>q. q\<lparr>messageTimes := snd h\<rparr>) S"
  have s1: "safe {} S S1" unfolding S1_def using i by (intro updPeer_safe) simp_all
  then have i1: "serverInv S1" by (simp add: safe_def)
  let ?F = "fail env p rate_limited ''Too many signaling messages. Try again shortly.'' S1"
  have s2: "safe {} S ?F" by (rule safe_trans[OF s1 fail_safe[OF ws i1]])
  then have s3: "safe {} S (closePeerWithCodeAndRelease env p 1008 ''signaling message rate limit'' ?F)"
    using safe_trans[OF s2 closePeer_safe(1)[OF ws]] by (simp add: safe_def)
  have eq: "hitMessageLimit env p S = (if fst h then (S1, True) else (closePeerWithCodeAndRelease env p 1008 ''signaling message rate limit'' ?F, False))"
    by (simp add: hitMessageLimit_def h_def S1_def split_beta Let_def)
  show "safe {} S (fst (hitMessageLimit env p S))" unfolding eq using s1 s3 by simp
  show "\<exists>h. fst (hitMessageLimit env p S) = updPeer p (\<lambda>q. q\<lparr>messageTimes := h\<rparr>) S" if "snd (hitMessageLimit env p S)"
    using that unfolding eq S1_def by (auto split: if_splits)
qed

lemma onMessage_full:
  assumes ws: "wsContract env" and f: "fullInv S" and p: "p \<in> set (created S)" and new: "newSid \<notin> fst ` set (sessions S)"
  shows "fullInv (onMessage env p v newSid S)"
proof -
  have i: "serverInv S" using f by (simp add: fullInv_def)
  obtain S1 al where h: "hitMessageLimit env p S = (S1, al)" by fastforce
  have f1: "fullInv S1" using safe_full[OF hitMessageLimit_safe(1)[OF ws i] f, of p] h by simp
  then have i1: "serverInv S1" by (simp add: fullInv_def)
  have bad: "fullInv (badMessage env p x S1)" for x by (rule safe_full[OF badMessage_safe[OF ws i1] f1])
  have msg: "fullInv (handleMessage env p m newSid S1)" if "al" "readyState (peers S p) = OPEN" for m
    using hitMessageLimit_safe(2)[OF ws i, of p] h p new that by (intro handleMessage_full[OF ws f1]) auto
  show ?thesis
    using f f1 bad msg by (simp add: onMessage_def h peerAcceptsClientMessages_def Let_def split: option.split)
qed

section \<open>Connections\<close>

lemma accepted_parts:
  fixes x :: jsstring
  assumes f: "fullInv S" and p: "p \<noteq> []" "p \<notin> set (created S)"
  defines "S2 \<equiv> addActiveConnection p (S\<lparr>peers := (peers S)(p := newPeer x), created := created S @ [p], connected := connected S @ [p]\<rparr>)"
  shows "serverInv S2" "budgetInv S2" "capacityInv S2" "\<not> aborted S2" "connected S2 = connected S @ [p]"
    "liveConnections S2 y = liveConnections S y + (if y = x then 1 else 0)"
    "(case activeConnections S2 x of None \<Rightarrow> 0 | Some n \<Rightarrow> n) = liveConnections S x + 1"
    "q \<noteq> p \<Longrightarrow> ip (peers S2 q) = ip (peers S q)"
proof -
  have i: "connInv S" and ref: "refInv S" using f by (auto simp: fullInv_def serverInv_def)
  have eqs: "sessions S2 = sessions S" "codes S2 = codes S" "created S2 = created S @ [p]" "history S2 = history S"
    "peers S2 = (peers S)(p := newPeer x)" "aborted S2 = aborted S"
    by (simp_all add: S2_def addActiveConnection_def Let_def)
  show conn: "connected S2 = connected S @ [p]" by (simp add: S2_def addActiveConnection_def Let_def)
  have pc: "p \<notin> set (connected S)" using p i by (auto simp: connInv_def)
  have cnt: "length (filter (\<lambda>q. ip (peers S2 q) = y) (connected S2)) = liveConnections S y + (if y = x then 1 else 0)" for y
  proof -
    have "filter (\<lambda>q. ip (peers S2 q) = y) (connected S) = filter (\<lambda>q. ip (peers S q) = y) (connected S)"
      using pc by (intro filter_cong) (auto simp: eqs)
    then show ?thesis by (simp add: conn liveConnections_def eqs newPeer_def)
  qed
  then show "liveConnections S2 y = liveConnections S y + (if y = x then 1 else 0)" by (simp add: liveConnections_def)
  have act: "activeConnections S y = (let n = liveConnections S y in if n = 0 then None else Some n)" for y
    using i unfolding connInv_def liveConnections_def by blast
  have act2: "activeConnections S2 y = (if y = x then Some (liveConnections S x + 1) else activeConnections S y)" for y
    using act[of x] by (simp add: S2_def addActiveConnection_def Let_def newPeer_def)
  then show "(case activeConnections S2 x of None \<Rightarrow> 0 | Some n \<Rightarrow> n) = liveConnections S x + 1" by simp
  have "connInv S2"
    unfolding connInv_def cnt act2
  proof (intro conjI allI)
    show "(if y = x then Some (liveConnections S x + 1) else activeConnections S y) =
      (let n = liveConnections S y + (if y = x then 1 else 0) in if n = 0 then None else Some n)" for y
      using act[of y] by (simp add: Let_def)
  qed (use i pc p in \<open>auto simp: connInv_def conn eqs newPeer_def\<close>)
  moreover have "refInv S2"
    unfolding refInv_def
  proof (intro conjI)
    have ins: "inSessions S2 q = inSessions S q" for q by (simp add: inSessions_def eqs)
    show "\<forall>(k, t) \<in> set (sessions S2). sessionOk S2 k t"
    proof clarify
      fix k t assume "(k, t) \<in> set (sessions S2)"
      then have ok: "sessionOk S k t" using refInv_session[OF ref] by (simp add: eqs)
      then have "sender t \<noteq> p" "receiver t \<noteq> p" using p by (auto simp: sessionOk_def)
      with ok show "sessionOk S2 k t" by (simp add: sessionOk_def eqs)
    qed
    show "\<forall>(k, w) \<in> set (codes S2). codeOk S2 k w"
    proof clarify
      fix k w assume "(k, w) \<in> set (codes S2)"
      then have ok: "codeOk S k w" using refInv_code[OF ref] by (simp add: eqs)
      then have "waitingReceiver w \<noteq> p" using p by (auto simp: codeOk_def)
      with ok show "codeOk S2 k w" by (simp add: codeOk_def waits_def ins eqs)
    qed
  qed (use ref p in \<open>auto simp: refInv_def eqs\<close>)
  ultimately show "serverInv S2" by (simp add: serverInv_def)
  show "budgetInv S2" using f by (simp add: fullInv_def budgetInv_def claims_def registrations_def tokens_def eqs)
  show "capacityInv S2" using f by (simp add: fullInv_def capacityInv_def eqs)
  show "\<not> aborted S2" using f by (simp add: fullInv_def eqs)
  show "q \<noteq> p \<Longrightarrow> ip (peers S2 q) = ip (peers S q)" by (simp add: eqs)
qed

lemma released_gone: "connInv S \<Longrightarrow> p \<notin> set (connected (releaseActiveConnection keep p S))"
  by (auto simp: connInv_def releaseActiveConnection_def Let_def clearIdleTimer_def clearCloseTimer_def)

lemma onConnection_full:
  assumes ws: "wsContract env" and f: "fullInv S" and p: "p \<noteq> []" "p \<notin> set (created S)"
  shows "fullInv (onConnection env p x S)"
proof -
  define S2 where "S2 = addActiveConnection p (S\<lparr>peers := (peers S)(p := newPeer x), created := created S @ [p], connected := connected S @ [p]\<rparr>)"
  note parts = accepted_parts[OF f p, where x = x, folded S2_def]
  have live: "liveConnections S y \<le> SIGNALING_MAX_CONNECTIONS_PER_IP" for y using f by (simp add: fullInv_def)
  have idle: "fullInv (updPeer p (\<lambda>q. q\<lparr>idleTimer := True\<rparr>) S2)" if "liveConnections S x + 1 \<le> SIGNALING_MAX_CONNECTIONS_PER_IP"
  proof -
    have "fullInv S2" using parts that live by (simp add: fullInv_def)
    moreover have "safe {} S2 (updPeer p (\<lambda>q. q\<lparr>idleTimer := True\<rparr>) S2)" using parts(1) by (intro updPeer_safe) simp_all
    ultimately show ?thesis using safe_full by blast
  qed
  have refused: "fullInv (closePeerWithCodeAndRelease env p c r (fail env p e m S2))" for c r e m
  proof -
    let ?T = "closePeerWithCode env p c r (fail env p e m S2)"
    let ?U = "releaseActiveConnection True p ?T"
    have s3: "safe {} S2 (fail env p e m S2)" by (rule fail_safe[OF ws parts(1)])
    then have i3: "serverInv (fail env p e m S2)" by (simp add: safe_def)
    have s4: "safe {} S2 ?U" using safe_trans[OF s3 closePeer_safe(1)[OF ws i3]] by (simp add: closePeerWithCodeAndRelease_def)
    have "connInv ?T" using i3 sameConn_connInv[OF closePeerWithCode_quiet(2)[OF ws]] by (simp add: serverInv_def)
    then have gone: "p \<notin> set (connected ?U)" by (rule released_gone)
    have cl: "clean {} S2 ?U" and iU: "serverInv ?U" using s4 by (simp_all add: safe_def)
    have "liveConnections ?U y \<le> liveConnections S y" for y
    proof (rule liveConnections_mono)
      show "set (connected ?U) \<subseteq> set (connected S)" using cleanD(9)[OF cl] gone parts(5) by auto
      show "distinct (connected ?U)" "distinct (connected S)" using iU f by (simp_all add: serverInv_def fullInv_def connInv_def)
      show "ip (peers ?U q) = ip (peers S q)" if "q \<in> set (connected ?U)" for q
        using that gone cleanD(7)[OF cl] parts(8)[of q] by auto
    qed
    then have "\<forall>y. liveConnections ?U y \<le> SIGNALING_MAX_CONNECTIONS_PER_IP" using live by (meson order_trans)
    then show ?thesis
      using safe_parts[OF s4 parts(1)] parts(2-4) by (simp add: fullInv_def closePeerWithCodeAndRelease_def)
  qed
  show ?thesis
    using idle refused parts(7) by (simp add: onConnection_def S2_def[symmetric] Let_def not_less)
qed

section \<open>Sockets and timers\<close>

lemma safe_then: "safe X S S' \<Longrightarrow> (serverInv S' \<Longrightarrow> safe X S' S'') \<Longrightarrow> safe X S S''"
  using safe_trans by (auto simp: safe_def)

lemma fold_safe:
  assumes "\<And>x S. serverInv S \<Longrightarrow> safe {} S (g x S)" "serverInv S"
  shows "safe {} S (fold g xs S)"
  using assms(2) by (induction xs arbitrary: S) (auto intro: safe_refl safe_then[OF assms(1)])

lemma moved_safe: "serverInv S \<Longrightarrow> (st = OPEN \<longrightarrow> readyState (peers S p) = OPEN) \<Longrightarrow> safe X S (updPeer p (\<lambda>q. q\<lparr>readyState := st\<rparr>) S)"
  by (intro updPeer_safe) auto

lemma terminate_safe: "wsContract env \<Longrightarrow> serverInv S \<Longrightarrow> safe X S (wsTerminate env p S)"
  using wsTerminate_quiet by (intro quiet_safe) auto

lemma calls_safe: "serverInv S \<Longrightarrow> safe X S (S\<lparr>calls := n\<rparr>)"
  using calls_quiet by (intro quiet_safe) auto

lemma closed_events_safe:
  assumes ws: "wsContract env" and i: "serverInv S"
  shows "safe {} S (onClose env p S)" "safe {} S (onError env p S)" "safe {} S (onPong p S)"
    "safe {} S (onIdleTimeout env p S)" "safe {} S (onCloseTimeout env p S)" "safe {} S (dropDeadPeer env p reason S)"
proof -
  have "safe {} S (releaseActiveConnection False p (updPeer p (\<lambda>q. q\<lparr>readyState := CLOSED\<rparr>) S))"
    by (rule safe_then[OF moved_safe[OF i, of CLOSED p]]) (simp_all add: release_safe)
  then show "safe {} S (onClose env p S)" unfolding onClose_def by (rule safe_then) (rule cleanup_safe[OF ws])
  show "safe {} S (onError env p S)"
    unfolding onError_def by (rule safe_then[OF cleanup_safe[OF ws i]]) (rule release_safe)
  show "safe {} S (onPong p S)" unfolding onPong_def using i by (intro updPeer_safe) simp_all
  show "safe {} S (onIdleTimeout env p S)"
    unfolding onIdleTimeout_def using closePeer_safe(1)[OF ws i] safe_refl[OF i] by simp
  have s1: "safe {} S (updPeer p (\<lambda>q. q\<lparr>closeTimer := False\<rparr>) S)" using i by (intro updPeer_safe) simp_all
  show "safe {} S (onCloseTimeout env p S)"
    unfolding onCloseTimeout_def Let_def using s1 safe_refl[OF i] safe_then[OF s1 terminate_safe[OF ws]] by simp
  have "safe {} S (releaseActiveConnection False p (cleanupPeer env (sendMessage env) p reason S))"
    by (rule safe_then[OF cleanup_safe[OF ws i]]) (rule release_safe)
  then show "safe {} S (dropDeadPeer env p reason S)" unfolding dropDeadPeer_def by (rule safe_then) (rule terminate_safe[OF ws])
qed

lemma heartbeat_safe:
  assumes ws: "wsContract env" and i: "serverInv S"
  shows "safe {} S (heartbeat env S)"
proof -
  have one: "safe {} S (heartbeatPeer env p S)" if i: "serverInv S" for p S
  proof -
    define S1 where "S1 = (updPeer p (\<lambda>q. q\<lparr>awaitingHeartbeatPong := True\<rparr>) S)\<lparr>calls := Suc (calls S)\<rparr>"
    have s1: "safe {} S S1" unfolding S1_def using i by (intro quiet_safe) (simp_all add: quiet_def sameConn_def)
    show ?thesis
      unfolding heartbeatPeer_def S1_def[symmetric] Let_def
      using s1 safe_refl[OF i] closed_events_safe(6)[OF ws i] safe_then[OF s1 closed_events_safe(6)[OF ws]] by simp
  qed
  show ?thesis
    unfolding heartbeat_def by (rule fold_safe[OF _ i]) (use one safe_refl in auto)
qed

section \<open>The expiry sweep\<close>

lemma sweepCode_safe:
  assumes ws: "wsContract env" and i: "serverInv S"
  shows "safe {} S (sweepCode env k S)"
proof (cases "codesGet S k")
  case None then show ?thesis using safe_refl[OF i] by (simp add: sweepCode_def)
next
  case (Some w)
  let ?r = "waitingReceiver w"
  have swept: "safe {} S (codesDelete k (closePeerAndRelease env ?r y (clearPeerSessionState ?r (fail env ?r c x S))))" for c x y
  proof -
    have free: "\<not> inSessions S ?r" using refInv_code codesGet_mem[OF Some] i by (fastforce simp: serverInv_def codeOk_def)
    have s1: "safe {} S (fail env ?r c x S)" by (rule fail_safe[OF ws i])
    let ?T = "closePeerAndRelease env ?r y (fail env ?r c x S)"
    have i1: "serverInv (fail env ?r c x S)" using s1 by (simp add: safe_def)
    have s2: "safe {} S ?T" by (rule safe_trans[OF s1 closePeer_safe(2)[OF ws i1]])
    then have "\<not> inSessions ?T ?r" using free cleanD(1)[of "{}" S ?T] by (auto simp: safe_def inSessions_def)
    then have s3: "safe {} S (clearPeerSessionState ?r ?T)"
      by (intro safe_then[OF s2 clear_safe]) (simp_all add: closePeer_safe(6)[OF ws i1])
    then show ?thesis unfolding closePeer_clear by (rule safe_then) (rule codesDelete_safe)
  qed
  show ?thesis unfolding sweepCode_def Some option.case using swept safe_refl[OF i] by simp
qed

lemma sweepSession_safe:
  assumes ws: "wsContract env" and i: "serverInv S"
  shows "safe {} S (sweepSession env k S)"
proof (cases "sessionsGet S k")
  case None then show ?thesis using safe_refl[OF i] by (simp add: sweepSession_def)
next
  case (Some s)
  have live: "(k, s) \<in> set (sessions S)" by (rule sessionsGet_mem[OF Some])
  have s1: "safe {} S (notifyPeerLeft (sendMessage env) s q x S)" for q x
    using i by (intro srv.notify_safe[OF ws]) (simp add: srv.roomy_def)
  have "safe {} S (sessionsDelete k (notifyPeerLeft (sendMessage env) s q x S))" for q x
    by (rule safe_then[OF s1]) (rule sessionsDelete_safe)
  from closeSession_later[OF ws i live this] restore_later[OF ws i live safe_refl[OF i]] safe_refl[OF i]
  show ?thesis by (simp add: sweepSession_def Some)
qed

lemma expirySweep_safe:
  assumes ws: "wsContract env" and i: "serverInv S"
  shows "safe {} S (expirySweep env S)"
proof -
  have p: "safe {} T (pruneRateLimits T)" if "serverInv T" for T
    using that by (intro quiet_safe) (simp_all add: pruneRateLimits_def quiet_def sameConn_def)
  show ?thesis
    unfolding expirySweep_def Let_def
    by (rule safe_then[OF safe_then[OF fold_safe[OF sweepCode_safe[OF ws] i] fold_safe[OF sweepSession_safe[OF ws]]] p])
qed

lemma shutdown_safe:
  assumes ws: "wsContract env" and i: "serverInv S"
  shows "safe {} S (shutdown env clients S)"
proof -
  have one: "safe {} S (closeWebSocketForShutdown env p S)" if i: "serverInv S" for p S
  proof -
    have "safe {} S (closePeerWithCode env p c r S)" for c r
      using closePeerWithCode_quiet[OF ws] by (intro quiet_safe[OF i]) auto
    moreover have "safe {} S ((updPeer p (\<lambda>q. q\<lparr>readyState := st\<rparr>) S)\<lparr>calls := Suc (calls S)\<rparr>)"
      if "closeResult env (calls S) = Some st" for st
      using wsContractD(1)[OF ws that] by (intro safe_then[OF moved_safe[OF i] calls_safe]) auto
    moreover have "safe {} S (wsTerminate env p (S\<lparr>calls := Suc (calls S)\<rparr>))"
      by (rule safe_then[OF calls_safe[OF i] terminate_safe[OF ws]])
    ultimately show ?thesis by (simp add: closeWebSocketForShutdown_def split: option.split)
  qed
  have s1: "safe {} S (S\<lparr>shutdownStarted := True\<rparr>)" by (rule quiet_safe[OF i]) (simp_all add: quiet_def sameConn_def)
  have "safe {} S (fold (closeWebSocketForShutdown env) clients (S\<lparr>shutdownStarted := True\<rparr>))"
    by (rule safe_then[OF s1]) (rule fold_safe[OF one])
  then show ?thesis unfolding shutdown_def using safe_refl[OF i] by simp
qed

section \<open>Reachable states\<close>

lemma inSessions_clock: "inSessions (S\<lparr>clock := t\<rparr>) p = inSessions S p"
  by (simp add: inSessions_def)

lemma fullInv_clock: "fullInv (S\<lparr>clock := t\<rparr>) = fullInv S"
  by (simp add: fullInv_def serverInv_def refInv_def connInv_def codeOk_def sessionOk_def waits_def inSessions_clock budgetInv_def
      capacityInv_def claims_def registrations_def tokens_def liveConnections_def)

lemma step_full:
  assumes ws: "wsContract env" and f: "fullInv S" and a: "admissible e S"
  shows "fullInv (step env now e S)"
proof -
  let ?S = "S\<lparr>clock := now\<rparr>"
  have f': "fullInv ?S" using f by (simp add: fullInv_clock)
  then have i: "serverInv ?S" by (simp add: fullInv_def)
  note safes = closed_events_safe[OF ws i] heartbeat_safe[OF ws i] expirySweep_safe[OF ws i] shutdown_safe[OF ws i] safe_refl[OF i]
  show ?thesis
  proof (cases e)
    case (Connection p x)
    then show ?thesis using onConnection_full[OF ws f'] a by (simp add: step_def handleEvent_def admissible_def)
  next
    case (Message p v k)
    then show ?thesis using onMessage_full[OF ws f'] a by (simp add: step_def handleEvent_def admissible_def)
  next
    case (SocketMoves p st)
    then have "safe {} ?S (updPeer p (\<lambda>q. q\<lparr>readyState := st\<rparr>) ?S)" using a by (intro moved_safe[OF i]) (simp add: admissible_def)
    then show ?thesis using SocketMoves safe_full[OF _ f'] by (simp add: step_def handleEvent_def)
  qed (use safe_full[OF _ f'] safes in \<open>simp_all add: step_def handleEvent_def\<close>)
qed

lemma initial_full: "fullInv initialServer"
  by (simp add: initialServer_def fullInv_def serverInv_def refInv_def connInv_def newPeer_def budgetInv_def capacityInv_def
      claims_def tokens_def liveConnections_def)

lemma reachable_full:
  assumes "reachable env S" "wsContract env" shows "fullInv S"
  using assms by (induction rule: reachable.induct) (auto intro: initial_full step_full)

end
