(* ===== verification/ServerTrace.thy ===== *)
theory ServerTrace
  imports ServerReach
begin

text \<open>
  A concrete run of the signaling server, at which the properties of reachable states are
  instantiated: two peers connect, one registers a code and the other connects to it, so that
  a session is in the table.
\<close>

definition traceEnv :: Env where
  "traceEnv = \<lparr>sendOutcome = (\<lambda>_. Delivered), closeResult = (\<lambda>_. Some CLOSING), terminateResult = (\<lambda>_. CLOSED),
     pingThrows = (\<lambda>_. False), turnRest = False, iceServersValue = Null\<rparr>"

definition traceCode :: jsstring where
  "traceCode = replicate 8 49"

definition introMessage :: "string \<Rightarrow> string \<Rightarrow> jsval" where
  "introMessage t r = jobj [(''type'', Str (js t)), (''role'', Str (js r)), (''code'', Str traceCode),
     (''protocolVersion'', Number (NInt 10))]"

abbreviation "receiverId \<equiv> [2::nat]"
abbreviation "senderId \<equiv> [3::nat]"
abbreviation "traceSid \<equiv> [65::nat]"
abbreviation "traceIp \<equiv> [5::nat]"

lemma trace_contract: "wsContract traceEnv"
  by (simp add: wsContract_def traceEnv_def)

lemma trace_messages:
  "clientMessageOf (introMessage ''register'' ''receiver'') = Some (Register traceCode 10)"
  "clientMessageOf (introMessage ''connect'' ''sender'') = Some (Connect traceCode 10)"
  by code_simp+

lemma trace_code: "normalizeCode (Str traceCode) = traceCode" "isValidRendezvous (Str traceCode)"
proof -
  show "normalizeCode (Str traceCode) = traceCode"
    by (rule normalizeCode_plain) (simp_all add: traceCode_def codeUnit_def isDigit_def list_all_iff)
  show "isValidRendezvous (Str traceCode)"
    by (simp add: traceCode_def rendezvousPattern_def isDigit_def list_all_iff limit_defs)
qed

text \<open>The states of the run.\<close>

definition joined :: Server where
  "joined = step traceEnv 0 (Connection senderId traceIp) (step traceEnv 0 (Connection receiverId traceIp) initialServer)"

definition registered :: Server where
  "registered = step traceEnv 0 (Message receiverId (introMessage ''register'' ''receiver'') [9]) joined"

definition paired :: Server where
  "paired = step traceEnv 0 (Message senderId (introMessage ''connect'' ''sender'') traceSid) registered"

lemma joined_state:
  "joined = initialServer\<lparr>peers := (peers initialServer)
       (receiverId := (newPeer traceIp)\<lparr>idleTimer := True\<rparr>, senderId := (newPeer traceIp)\<lparr>idleTimer := True\<rparr>),
     created := [receiverId, senderId], connected := [receiverId, senderId], activeConnections := [traceIp \<mapsto> 2]\<rparr>"
  by (simp add: joined_def step_def handleEvent_def onConnection_def initialServer_def addActiveConnection_def newPeer_def
      updPeer_def Let_def limit_defs numeral_2_eq_2)

lemma trace_send:
  "readyState (peers S p) = OPEN \<Longrightarrow> sendMessage traceEnv p m S = (transmit p m (S\<lparr>calls := Suc (calls S)\<rparr>), True)"
  by (simp add: sendMessage_def traceEnv_def Let_def)

lemma trace_hits:
  "recordFixedWindowHit [] (NInt 0) (NInt 60000) (NInt 60) = (True, [NInt 0])"
  "recordFixedWindowHit [] (NInt 0) (NInt 60000) (NInt 240) = (True, [NInt 0])"
  "recordFixedWindowHit [NInt 0] (NInt 0) (NInt 60000) (NInt 60) = (True, [NInt 0, NInt 0])"
  "recordFixedWindowHit [NInt 0] (NInt 0) (NInt 60000) (NInt 240) = (True, [NInt 0, NInt 0])"
  by (simp_all add: recordFixedWindowHit_def rateLimitInputsAllowed_def isSafePositiveInteger_def isSafeBoundedHitCount_def
      MAX_RATE_LIMIT_RETAINED_HITS_def MAX_SAFE_INTEGER_def Let_def)

lemmas trace_defs = step_def handleEvent_def onMessage_def hitMessageLimit_def handleMessage_def peerAcceptsClientMessages_def
  hitRateLimit_def hitFixedWindowRateLimit_def updPeer_def trace_messages trace_code trace_hits Let_def
  isProtocolSupported_def peerBecomes_def clearIdleTimer_def

lemma registered_state:
  "registered = initialServer\<lparr>peers := (peers initialServer)
       (receiverId := (newPeer traceIp)\<lparr>role := Some Receiver, peerCode := Some traceCode, messageTimes := [NInt 0]\<rparr>,
        senderId := (newPeer traceIp)\<lparr>idleTimer := True\<rparr>),
     created := [receiverId, senderId], connected := [receiverId, senderId], activeConnections := [traceIp \<mapsto> 2],
     codes := [(traceCode, \<lparr>waitingKey = traceCode, waitingReceiver = receiverId, waitingExpiresAt = 600000, waitingAttempts = 3\<rparr>)],
     rateLimits := [traceIp \<mapsto> [NInt 0]], wire := [(receiverId, Frame (Registered traceCode 600))], calls := 1,
     history := [RegisteredCode receiverId traceCode]\<rparr>"
  by (simp add: registered_def joined_state initialServer_def newPeer_def trace_defs register_def registerCode_def codesGet_def
      codesSet_def canRegisterWaitingCode_def safeBelow_def initialPrePairAttempts_def trace_send transmit_def MAX_SAFE_INTEGER_def
      limit_defs fun_upd_twist del: normalizeCode.simps isValidRendezvous.simps)

lemma paired_state:
  "sessions paired = [(traceSid, newSession traceSid traceCode
     \<lparr>waitingKey = traceCode, waitingReceiver = receiverId, waitingExpiresAt = 600000, waitingAttempts = 3\<rparr> senderId 2 0)]"
  "codes paired = []" "history paired = [RegisteredCode receiverId traceCode, ClaimedCode receiverId traceCode]"
  "created paired = [receiverId, senderId]" "connected paired = [receiverId, senderId]" "activeConnections paired = [traceIp \<mapsto> 2]"
  "peerSid (peers paired receiverId) = Some traceSid" "peerSid (peers paired senderId) = Some traceSid"
  "ip (peers paired receiverId) = traceIp" "ip (peers paired senderId) = traceIp"
  "readyState (peers paired receiverId) = OPEN" "readyState (peers paired senderId) = OPEN" "messageTimes (peers paired senderId) = [NInt 0]"
  "\<not> closeTimer (peers paired senderId)" "\<not> connectionReleased (peers paired senderId)"
  by (simp_all add: paired_def registered_state initialServer_def newPeer_def trace_defs connect_def connectCode_def claimCode_def
      codesGet_def codesDelete_def sessionsSet_def canCreateSession_def safeBelow_def waitingReceiverAvailable_def
      canRestorePrePairCode_iff consumePrePairAttempt_def isValidRemainingPrePairAttempts_def trace_send transmit_def
      MAX_SAFE_INTEGER_def limit_defs fun_upd_twist del: normalizeCode.simps isValidRendezvous.simps)

lemma trace_reachable: "reachable traceEnv joined" "reachable traceEnv registered" "reachable traceEnv paired"
proof -
  show j: "reachable traceEnv joined"
    unfolding joined_def
    by (intro reachable.intros) (simp_all add: admissible_def step_def handleEvent_def onConnection_def initialServer_def
        addActiveConnection_def newPeer_def updPeer_def Let_def limit_defs)
  show r: "reachable traceEnv registered"
    unfolding registered_def by (rule reachable.event[OF j]) (simp add: admissible_def joined_state initialServer_def)
  show "reachable traceEnv paired"
    unfolding paired_def by (rule reachable.event[OF r]) (simp add: admissible_def registered_state initialServer_def)
qed

text \<open>The sender's PAKE message.\<close>

definition pakeMessage :: jsval where
  "pakeMessage = jobj [(''type'', Str (js ''pake'')), (''sid'', Str traceSid), (''data'', Str (js ''x''))]"

lemma pake_message: "clientMessageOf pakeMessage = Some (Relay traceSid (Pake (js ''x'')))"
  by code_simp

lemma relayed_wire:
  "wire (step traceEnv 0 (Message senderId pakeMessage [66]) paired) = wire paired @ [(receiverId, Frame (Relayed traceSid (Pake (js ''x''))))]"
  by (simp add: trace_defs paired_state pake_message relay_def sessionsGet_def relayForward_def trace_send transmit_def
      recordRelayed_def newSession_def policy_defs sessionPeerId_def limit_defs)

end
