(* ===== verification/ServerProperties.thy ===== *)
theory ServerProperties
  imports ServerWire ServerTrace
begin

text \<open>
  The properties of the signaling server that hold in every reachable state, each instantiated
  at the concrete run of \<open>ServerTrace\<close>.
\<close>

section \<open>Properties\<close>

text \<open>C7: In every reachable state a peer takes part in at most one session, the two peers of a
  session are different and know its id, and no peer of a session waits in the table of codes.\<close>

theorem peer_in_one_session:
  assumes "reachable env S" "wsContract env" "(k, s) \<in> set (sessions S)" "p \<in> {sender s, receiver s}"
  shows "sender s \<noteq> receiver s \<and> sid s = k \<and> peerSid (peers S p) = Some k
     \<and> (\<forall>(k', t) \<in> set (sessions S). p = sender t \<or> p = receiver t \<longrightarrow> k' = k \<and> t = s)
     \<and> (\<forall>(c, w) \<in> set (codes S). waitingReceiver w \<noteq> p)"
proof -
  have ref: "refInv S" using reachable_full[OF assms(1,2)] by (simp add: fullInv_def serverInv_def)
  have ok: "sessionOk S k s" using refInv_session[OF ref assms(3)] .
  have m: "member s p" using assms(4) by (auto simp: member_def)
  have "k' = k \<and> t = s" if "(k', t) \<in> set (sessions S)" "p = sender t \<or> p = receiver t" for k' t
    using session_unique[OF ref that(1) assms(3) _ m] that(2) by (simp add: member_def)
  moreover have "waitingReceiver w \<noteq> p" if "(c, w) \<in> set (codes S)" for c w
    using refInv_code[OF ref that] assms(3) m by (auto simp: codeOk_def inSessions_def)
  ultimately show ?thesis using ok assms(4) by (auto simp: sessionOk_def)
qed

theorem peer_in_one_session_witness:
  "peerSid (peers paired senderId) = Some traceSid \<and> length (sessions paired) = 1"
  using peer_in_one_session[OF trace_reachable(3) trace_contract, of traceSid "snd (hd (sessions paired))" senderId]
  by (simp add: paired_state)

text \<open>C2: In every reachable state the receive code of a registration has been claimed at most
  three times: senders get at most three attempts at the code for each time its receiver
  registers it, however connections fail, retry, time out or are restored in between.\<close>

theorem guess_budget:
  assumes "reachable env S" "wsContract env"
  shows "claims S r c \<le> RECEIVER_MAX_PREPAIR_ATTEMPTS * registrations S r c"
  using reachable_full[OF assms] by (simp add: fullInv_def budgetInv_def limit_defs)

theorem guess_budget_witness:
  "claims paired receiverId traceCode = 1 \<and> claims paired receiverId traceCode \<le> 3 * registrations paired receiverId traceCode"
  using guess_budget[OF trace_reachable(3) trace_contract, of receiverId traceCode]
  by (simp add: claims_def paired_state limit_defs)

text \<open>C29: The tables of the server stay bounded: at most 10,000 sessions, and at most 20,000
  waiting codes and sessions together.\<close>

theorem server_capacity:
  assumes "reachable env S" "wsContract env"
  shows "length (sessions S) \<le> SIGNALING_MAX_SESSIONS
     \<and> length (codes S) + length (sessions S) \<le> SIGNALING_MAX_WAITING_CODES + SIGNALING_MAX_SESSIONS"
  using reachable_full[OF assms] by (simp add: fullInv_def capacityInv_def)

theorem server_capacity_witness: "length (sessions paired) \<le> 10000"
  using server_capacity[OF trace_reachable(3) trace_contract] by (simp add: limit_defs)

text \<open>C30: The connection count the server keeps for an address is exactly the number of its
  connections that were accepted and not released, and never exceeds 32.\<close>

theorem connection_count_exact:
  assumes "reachable env S" "wsContract env"
  shows "(case activeConnections S x of None \<Rightarrow> 0 | Some n \<Rightarrow> n) =
       card {p \<in> set (created S). \<not> connectionReleased (peers S p) \<and> ip (peers S p) = x}
     \<and> (case activeConnections S x of None \<Rightarrow> 0 | Some n \<Rightarrow> n) \<le> SIGNALING_MAX_CONNECTIONS_PER_IP"
proof -
  have f: "fullInv S" by (rule reachable_full[OF assms])
  then have i: "connInv S" by (simp add: fullInv_def serverInv_def)
  then have "activeConnections S x = (let n = liveConnections S x in if n = 0 then None else Some n)"
    unfolding connInv_def liveConnections_def by blast
  then have act: "(case activeConnections S x of None \<Rightarrow> 0 | Some n \<Rightarrow> n) = liveConnections S x" by (simp add: Let_def)
  have "liveConnections S x = card (set (filter (\<lambda>p. ip (peers S p) = x) (connected S)))"
    using i by (simp only: connInv_def liveConnections_def distinct_card distinct_filter)
  also have "set (filter (\<lambda>p. ip (peers S p) = x) (connected S)) =
      {p \<in> set (created S). \<not> connectionReleased (peers S p) \<and> ip (peers S p) = x}"
    using i by (auto simp: connInv_def)
  finally show ?thesis using act f unfolding fullInv_def by metis
qed

theorem connection_count_exact_witness:
  "card {p \<in> {receiverId, senderId}. \<not> connectionReleased (peers paired p) \<and> ip (peers paired p) = traceIp} = 2"
  using connection_count_exact[OF trace_reachable(3) trace_contract, of traceIp]
  by (simp add: paired_state insert_commute)

text \<open>C16: The server never gets stuck in nested clean-ups (a send that fails cleans up its peer,
  which sends notices that may fail in turn): every event completes, whichever sends fail, and
  no handler runs into the exception of an attempt that does not remain.\<close>

theorem every_event_completes:
  assumes "reachable env S" "wsContract env" "admissible e S"
  shows "\<not> aborted (step env now e S)"
  using reachable_full[OF reachable.event[OF assms(1,3)] assms(2)] by (simp add: fullInv_def)

theorem every_event_completes_witness: "\<not> aborted (step traceEnv 1000000 ExpirySweep paired)"
  by (rule every_event_completes[OF trace_reachable(3) trace_contract]) (simp add: admissible_def)

text \<open>Every session of a reachable state is in a phase of the protocol: a confirmation was
  relayed only after both PAKE messages, the pair request only after both confirmations, the
  decision only after the request, the answer only after the offer, ICE candidates only within
  their number, and at most two further attempts remain.\<close>

theorem sessions_in_phase:
  assumes "reachable env S" "wsContract env" "(k, s) \<in> set (sessions S)"
  shows "phaseInv s \<and> remainingAttempts s < RECEIVER_MAX_PREPAIR_ATTEMPTS"
  using reachable_full[OF assms(1,2)] refInv_session[of S k s] assms(3)
  by (simp add: fullInv_def serverInv_def sessionOk_def limit_defs)

theorem sessions_in_phase_witness: "phaseInv (snd (hd (sessions paired)))"
  using sessions_in_phase[OF trace_reachable(3) trace_contract, of traceSid "snd (hd (sessions paired))"]
  by (simp add: paired_state)

text \<open>C3: The server forwards a session's messages to the other peer of that session only: a
  relayed frame that an event puts on the wire carries the body of the message just received,
  its sender is a peer of the session named in it that may send it in this phase, and the frame
  goes to the other peer of that session. Frames already on the wire stay.\<close>

theorem relayed_to_partner_only:
  assumes "reachable env S" "wsContract env"
    "(q, Frame (Relayed k m)) \<in> set (drop (length (wire S)) (wire (step env now e S)))"
  shows "take (length (wire S)) (wire (step env now e S)) = wire S
     \<and> (\<exists>p v n s. e = Message p v n \<and> clientMessageOf v = Some (Relay k m) \<and> sessionsGet S k = Some s
          \<and> relayAllowed s p m \<and> p \<noteq> q \<and> {p, q} = {sender s, receiver s})"
proof -
  obtain new where new: "wire (step env now e S) = wire S @ new" "\<forall>x \<in> set new. isRelayed (snd x) \<longrightarrow> x \<in> eventFrames S e"
    using step_adds[of S e env now] by (auto simp: adds_def)
  with assms(3) have "(q, Frame (Relayed k m)) \<in> eventFrames S e" by fastforce
  then obtain p v n k' s where e: "e = Message p v n" "clientMessageOf v = Some (Relay k' m)" "sessionsGet S k' = Some s"
    "relayAllowed s p m" "k = sid s" "p = sender s \<and> q = receiver s \<or> p = receiver s \<and> q = sender s"
    by (auto simp: eventFrames_def messageFrames_def relayFrames_def split: Event.splits option.splits ClientMessage.splits)
  have "sessionOk S k' s"
    using refInv_session[OF _ sessionsGet_mem[OF e(3)]] reachable_full[OF assms(1,2)] by (simp add: fullInv_def serverInv_def)
  with e new(1) show ?thesis by (auto simp: sessionOk_def)
qed

theorem relayed_to_partner_only_witness:
  "\<exists>p v n s. Message senderId pakeMessage [66] = Message p v n \<and> sessionsGet paired traceSid = Some s
     \<and> relayAllowed s p (Pake (js ''x'')) \<and> p \<noteq> receiverId \<and> {p, receiverId} = {sender s, receiver s}"
  using relayed_to_partner_only[OF trace_reachable(3) trace_contract, of receiverId traceSid "Pake (js ''x'')" 0 "Message senderId pakeMessage [66]"]
  by (simp add: relayed_wire)

end
