(* ===== verification/Utf8.thy ===== *)
theory Utf8
  imports JsRuntime
begin

text \<open>
  UTF-8: \<open>TextEncoder.encode\<close> and \<open>new TextDecoder("utf-8", { fatal: true }).decode\<close>, which the
  program uses on every sealed payload and on binary signaling frames. A lone surrogate is
  encoded as the replacement character; the decoder refuses every ill-formed sequence and
  drops a leading byte order mark.
\<close>

section \<open>Definitions\<close>

definition isSurrogate :: "nat \<Rightarrow> bool" where
  "isSurrogate c \<longleftrightarrow> 0xd800 \<le> c \<and> c \<le> 0xdfff"

definition encodeCodePoint :: "nat \<Rightarrow> nat list" where
  "encodeCodePoint c =
     (if c < 0x80 then [c]
      else if c < 0x800 then [192 + c div 64, 128 + c mod 64]
      else if c < 0x10000 then [224 + c div 4096, 128 + c div 64 mod 64, 128 + c mod 64]
      else [240 + c div 262144, 128 + c div 4096 mod 64, 128 + c div 64 mod 64, 128 + c mod 64])"

definition scalarValue :: "nat \<Rightarrow> nat" where
  "scalarValue c = (if isSurrogate c then 0xfffd else c)"

definition utf8Codes :: "jsstring \<Rightarrow> nat list" where
  "utf8Codes s = concat (map (\<lambda>ch. encodeCodePoint (scalarValue (codePointOf ch))) (strChars s))"

definition utf8Encode :: "jsstring \<Rightarrow> 8 word list" where
  "utf8Encode s = map of_nat (utf8Codes s)"

definition codeUnits :: "nat \<Rightarrow> jsstring" where
  "codeUnits c = (if c < 0x10000 then [c] else [0xd800 + (c - 0x10000) div 0x400, 0xdc00 + (c - 0x10000) mod 0x400])"

definition isTrail :: "nat \<Rightarrow> bool" where
  "isTrail b \<longleftrightarrow> 128 \<le> b \<and> b < 192"

fun utf8Decode :: "nat list \<Rightarrow> jsstring option" where
  "utf8Decode [] = Some []"
| "utf8Decode (b # r) =
     (if b < 0x80 then map_option ((#) b) (utf8Decode r)
      else if 0xc2 \<le> b \<and> b \<le> 0xdf then
        (case r of
           b1 # r1 \<Rightarrow>
             if isTrail b1 then map_option ((@) (codeUnits ((b - 192) * 64 + (b1 - 128)))) (utf8Decode r1) else None
         | _ \<Rightarrow> None)
      else if 0xe0 \<le> b \<and> b \<le> 0xef then
        (case r of
           b1 # b2 # r2 \<Rightarrow>
             (let c = (b - 224) * 4096 + (b1 - 128) * 64 + (b2 - 128) in
              if isTrail b1 \<and> isTrail b2 \<and> 0x800 \<le> c \<and> \<not> isSurrogate c
              then map_option ((@) (codeUnits c)) (utf8Decode r2) else None)
         | _ \<Rightarrow> None)
      else if 0xf0 \<le> b \<and> b \<le> 0xf4 then
        (case r of
           b1 # b2 # b3 # r3 \<Rightarrow>
             (let c = (b - 240) * 262144 + (b1 - 128) * 4096 + (b2 - 128) * 64 + (b3 - 128) in
              if isTrail b1 \<and> isTrail b2 \<and> isTrail b3 \<and> 0x10000 \<le> c \<and> c < 0x110000
              then map_option ((@) (codeUnits c)) (utf8Decode r3) else None)
         | _ \<Rightarrow> None)
      else None)"

declare utf8Decode.simps(2) [simp del]

definition dropByteOrderMark :: "nat list \<Rightarrow> nat list" where
  "dropByteOrderMark bs = (if take 3 bs = [0xef, 0xbb, 0xbf] then drop 3 bs else bs)"

definition fatalUtf8 :: "8 word list \<Rightarrow> jsstring option" where
  "fatalUtf8 bs = utf8Decode (dropByteOrderMark (map unat bs))"

section \<open>Encoding\<close>

text \<open>A well-formed string: 16-bit code units, every surrogate in a pair.\<close>

definition wellFormed :: "jsstring \<Rightarrow> bool" where
  "wellFormed s \<longleftrightarrow> list_all (\<lambda>ch. case ch of [c] \<Rightarrow> \<not> isSurrogate c \<and> c < 0x10000 | _ \<Rightarrow> True) (strChars s)"

lemma encode_bytes: "c < 0x110000 \<Longrightarrow> b \<in> set (encodeCodePoint c) \<Longrightarrow> b < 256"
  by (auto simp: encodeCodePoint_def split: if_splits)

lemma strChars_cases:
  assumes "ch \<in> set (strChars s)"
  shows "(\<exists>c. ch = [c]) \<or> (\<exists>x y. ch = [x, y] \<and> isHighSurrogate x \<and> isLowSurrogate y)"
  using assms by (induction s rule: strChars.induct) (auto split: if_splits)

lemma pair_scalar:
  assumes "isHighSurrogate x" "isLowSurrogate y"
  shows "0x10000 \<le> codePointOf [x, y]" "codePointOf [x, y] < 0x110000" "codeUnits (codePointOf [x, y]) = [x, y]"
proof -
  obtain a where a: "x = 0xd800 + a" "a < 0x400" using assms(1) unfolding isHighSurrogate_def by (auto simp: le_iff_add)
  obtain b where b: "y = 0xdc00 + b" "b < 0x400" using assms(2) unfolding isLowSurrogate_def by (auto simp: le_iff_add)
  show "0x10000 \<le> codePointOf [x, y]" "codePointOf [x, y] < 0x110000" "codeUnits (codePointOf [x, y]) = [x, y]"
    using a b by (simp_all add: codeUnits_def)
qed

lemma scalar_below:
  assumes "ch \<in> set (strChars s)" "list_all (\<lambda>c. c < 0x10000) s"
  shows "scalarValue (codePointOf ch) < 0x110000"
proof -
  have "set ch \<subseteq> set s" using assms(1) concat_strChars[of s] by (metis UN_I set_concat subsetI)
  with strChars_cases[OF assms(1)] assms(2) show ?thesis
    by (auto simp: scalarValue_def pair_scalar list_all_iff simp del: codePointOf.simps(1)) (fastforce)+
qed

lemma length_scalar:
  "ch \<in> set (strChars s) \<Longrightarrow> list_all (\<lambda>c. c < 0x10000) s \<Longrightarrow>
     length (encodeCodePoint (scalarValue (codePointOf ch))) = utf8ByteLength ch"
proof -
  assume a: "ch \<in> set (strChars s)" "list_all (\<lambda>c. c < 0x10000) s"
  have "set ch \<subseteq> set s" using a(1) concat_strChars[of s] by (metis UN_I set_concat subsetI)
  with strChars_cases[OF a(1)] a(2) show ?thesis
    using pair_scalar
    by (fastforce simp: utf8ByteLength_Cons2 list_all_iff scalarValue_def isSurrogate_def encodeCodePoint_def unitBytes_def simp del: codePointOf.simps(1))
qed

text \<open>The byte count of the program is the length of the encoding.\<close>

lemma length_utf8Encode:
  assumes "list_all (\<lambda>c. c < 0x10000) s" shows "length (utf8Encode s) = utf8ByteLength s"
proof -
  have "map (length \<circ> (\<lambda>ch. encodeCodePoint (scalarValue (codePointOf ch)))) (strChars s) = map utf8ByteLength (strChars s)"
    using length_scalar[OF _ assms] by simp
  then have "sum_list (map (length \<circ> (\<lambda>ch. encodeCodePoint (scalarValue (codePointOf ch)))) (strChars s)) = sum_list (map utf8ByteLength (strChars s))"
    by (rule arg_cong)
  then show ?thesis unfolding utf8Encode_def utf8Codes_def length_map length_concat map_map utf8ByteLength_strChars[of s] .
qed

section \<open>Decoding an encoding\<close>

lemma digits64:
  fixes c :: nat
  shows "c div 4096 * 4096 + c div 64 mod 64 * 64 + c mod 64 = c"
    and "c div 262144 * 262144 + c div 4096 mod 64 * 4096 + c div 64 mod 64 * 64 + c mod 64 = c"
proof -
  define q p where "q = c div 64" and "p = q div 64"
  have e: "c div 64 = q" "c div 4096 = p" "c div 262144 = p div 64" by (simp_all add: p_def q_def div_mult2_eq[symmetric])
  have "p div 64 * 64 + p mod 64 = p" "p * 64 + q mod 64 = q" "q * 64 + c mod 64 = c"
    unfolding p_def q_def by (rule div_mult_mod_eq)+
  then show "c div 4096 * 4096 + c div 64 mod 64 * 64 + c mod 64 = c"
    "c div 262144 * 262144 + c div 4096 mod 64 * 4096 + c div 64 mod 64 * 64 + c mod 64 = c"
    unfolding e by linarith+
qed

lemma decode_point:
  assumes "c < 0x110000" "\<not> isSurrogate c"
  shows "utf8Decode (encodeCodePoint c @ r) = map_option ((@) (codeUnits c)) (utf8Decode r)"
proof -
  have trail: "isTrail (128 + n mod 64)" for n by (simp add: isTrail_def)
  consider "c < 0x80" | "0x80 \<le> c" "c < 0x800" | "0x800 \<le> c" "c < 0x10000" | "0x10000 \<le> c" by linarith
  then show ?thesis
  proof cases
    case 1 then show ?thesis by (cases "utf8Decode r") (simp_all add: encodeCodePoint_def codeUnits_def utf8Decode.simps(2))
  next
    case 2
    then have "2 \<le> c div 64" "c div 64 < 32" by linarith+
    with 2 trail show ?thesis by (simp add: encodeCodePoint_def utf8Decode.simps(2))
  next
    case 3
    have "c div 4096 * 4096 + c div 64 mod 64 * 64 + c mod 64 = c" by (rule digits64)
    moreover have "c div 4096 < 16" using 3 by linarith
    ultimately show ?thesis using 3 trail assms(2) by (simp add: encodeCodePoint_def utf8Decode.simps(2) Let_def)
  next
    case 4
    have "c div 262144 * 262144 + c div 4096 mod 64 * 4096 + c div 64 mod 64 * 64 + c mod 64 = c" by (rule digits64)
    moreover have "c div 262144 < 5" using assms(1) by linarith
    ultimately show ?thesis using 4 trail assms(1) by (simp add: encodeCodePoint_def utf8Decode.simps(2) Let_def)
  qed
qed

lemma wellFormed_point:
  assumes "wellFormed s" "ch \<in> set (strChars s)"
  shows "codePointOf ch < 0x110000" "\<not> isSurrogate (codePointOf ch)" "codeUnits (codePointOf ch) = ch"
proof -
  have w: "case ch of [c] \<Rightarrow> \<not> isSurrogate c \<and> c < 0x10000 | _ \<Rightarrow> True" using assms by (auto simp: wellFormed_def list_all_iff)
  from strChars_cases[OF assms(2)]
  have "codePointOf ch < 0x110000 \<and> \<not> isSurrogate (codePointOf ch) \<and> codeUnits (codePointOf ch) = ch"
  proof
    assume "\<exists>c. ch = [c]"
    with w show ?thesis by (auto simp: codeUnits_def)
  next
    assume "\<exists>x y. ch = [x, y] \<and> isHighSurrogate x \<and> isLowSurrogate y"
    then obtain x y where "ch = [x, y]" "isHighSurrogate x" "isLowSurrogate y" by blast
    with pair_scalar[of x y] show ?thesis by (auto simp: isSurrogate_def simp del: codePointOf.simps(1))
  qed
  then show "codePointOf ch < 0x110000" "\<not> isSurrogate (codePointOf ch)" "codeUnits (codePointOf ch) = ch" by blast+
qed

lemma decode_codes:
  assumes "\<And>ch. ch \<in> set chs \<Longrightarrow> codePointOf ch < 0x110000 \<and> \<not> isSurrogate (codePointOf ch) \<and> codeUnits (codePointOf ch) = ch"
  shows "utf8Decode (concat (map (\<lambda>ch. encodeCodePoint (scalarValue (codePointOf ch))) chs)) = Some (concat chs)"
  using assms by (induction chs) (simp_all add: decode_point scalarValue_def)

lemma wellFormed_units: "wellFormed s \<Longrightarrow> list_all (\<lambda>c. c < 0x10000) s"
proof (induction s rule: strChars.induct)
  case (3 x y zs)
  then show ?case
    by (cases "isHighSurrogate x \<and> isLowSurrogate y") (auto simp: wellFormed_def isHighSurrogate_def isLowSurrogate_def)
qed (auto simp: wellFormed_def)

lemma unat_codes: "list_all (\<lambda>c. c < 0x10000) s \<Longrightarrow> map unat (utf8Encode s) = utf8Codes s"
  using scalar_below encode_bytes
  by (auto simp: utf8Encode_def utf8Codes_def o_def unat_of_nat intro!: map_idI) (metis mod_less)

text \<open>A well-formed string keeps its characters in front of any other.\<close>

lemma strChars_append: "wellFormed a \<Longrightarrow> strChars (a @ b) = strChars a @ strChars b"
proof (induction a rule: strChars.induct)
  case (2 x)
  then have "\<not> isHighSurrogate x" by (auto simp: wellFormed_def isSurrogate_def isHighSurrogate_def)
  then show ?case by (cases b) auto
next
  case (3 x y zs)
  then show ?case by (cases "isHighSurrogate x \<and> isLowSurrogate y") (auto simp: wellFormed_def)
qed simp

lemma wellFormed_append: "wellFormed a \<Longrightarrow> wellFormed b \<Longrightarrow> wellFormed (a @ b)"
  by (simp add: strChars_append wellFormed_def)

lemma utf8ByteLength_append: "wellFormed a \<Longrightarrow> utf8ByteLength (a @ b) = utf8ByteLength a + utf8ByteLength b"
  by (simp add: strChars_append utf8ByteLength_strChars[of "a @ b"] utf8ByteLength_strChars[of a] utf8ByteLength_strChars[of b])

lemma wellFormed_Nil [simp]: "wellFormed []"
  by (simp add: wellFormed_def)

lemma wellFormed_ascii: "list_all (\<lambda>c. c < 0x80) s \<Longrightarrow> wellFormed s"
  by (induction s rule: strChars.induct) (auto simp: wellFormed_def isSurrogate_def isHighSurrogate_def)

lemma wellFormed_concat: "list_all wellFormed ss \<Longrightarrow> wellFormed (concat ss)"
  by (induction ss) (simp_all add: wellFormed_append)

lemma wellFormed_Cons: "c < 0x80 \<Longrightarrow> wellFormed s \<Longrightarrow> wellFormed (c # s)"
  using wellFormed_append[of "[c]" s] wellFormed_ascii[of "[c]"] by simp

lemma wellFormed_joinWith: "c < 0x80 \<Longrightarrow> list_all wellFormed ss \<Longrightarrow> wellFormed (joinWith c ss)"
  by (induction c ss rule: joinWith.induct) (simp_all add: wellFormed_append wellFormed_Cons)

lemma encode_mark:
  assumes "take 3 (encodeCodePoint c @ r) = [0xef, 0xbb, 0xbf]" "c < 0x110000"
  shows "c = 0xfeff"
proof -
  have "\<not> c < 0x80" using assms by (auto simp: encodeCodePoint_def)
  moreover have "\<not> (\<not> c < 0x80 \<and> c < 0x800)" using assms(1) by (auto simp: encodeCodePoint_def)
  moreover have "\<not> 0x10000 \<le> c" using assms(1) by (auto simp: encodeCodePoint_def)
  ultimately have "c div 4096 = 15" "c div 64 mod 64 = 59" "c mod 64 = 63" using assms(1) by (simp_all add: encodeCodePoint_def)
  moreover have "c div 4096 * 4096 + c div 64 mod 64 * 64 + c mod 64 = c" by (rule digits64)
  ultimately show ?thesis by simp
qed

lemma codes_mark:
  assumes "wellFormed s" "take 3 (utf8Codes s) = [0xef, 0xbb, 0xbf]"
  shows "take 1 s = [0xfeff]"
proof (cases "strChars s")
  case Nil then show ?thesis using assms(2) by (simp add: utf8Codes_def)
next
  case (Cons ch chs)
  note p = wellFormed_point[OF assms(1), of ch]
  have "codePointOf ch = 0xfeff"
    using assms(2) Cons p by (intro encode_mark) (auto simp: utf8Codes_def scalarValue_def)
  with p(3) Cons have "ch = [0xfeff]" by (simp add: codeUnits_def)
  moreover have "s = ch @ concat chs" using Cons concat_strChars[of s] by simp
  ultimately show ?thesis by simp
qed

text \<open>What the encoder writes for a well-formed string that does not start with a byte order
  mark, the fatal decoder reads back.\<close>

lemma fatalUtf8_utf8Encode:
  assumes "wellFormed s" "take 1 s \<noteq> [0xfeff]"
  shows "fatalUtf8 (utf8Encode s) = Some s"
proof -
  have u: "map unat (utf8Encode s) = utf8Codes s" using unat_codes wellFormed_units assms(1) by blast
  have d: "utf8Decode (utf8Codes s) = Some s"
    unfolding utf8Codes_def using decode_codes[of "strChars s"] wellFormed_point[OF assms(1)] by simp
  have "dropByteOrderMark (utf8Codes s) = utf8Codes s"
    using codes_mark[OF assms(1)] assms(2) by (auto simp: dropByteOrderMark_def)
  with u d show ?thesis by (simp add: fatalUtf8_def)
qed

end
