(* ===== verification/Json.thy ===== *)
theory Json
  imports Utf8
begin

text \<open>
  JSON text: \<open>JSON.stringify\<close> of a string, \<open>String(n)\<close> of a number and \<open>JSON.parse\<close>, on UTF-16
  strings and on the values of \<open>JsRuntime\<close>. Integers are written and read exactly; the text of
  another number and the value of another numeral are the two functions of a \<open>NumberFormat\<close>.
  The parser runs on fuel; twice the length of the text is enough, because every nested call
  reads a character first.
\<close>

section \<open>Strings\<close>

definition hexDigit :: "nat \<Rightarrow> nat" where
  "hexDigit n = (if n < 10 then 48 + n else 87 + n)"

definition hex4 :: "nat \<Rightarrow> jsstring" where
  "hex4 c = [hexDigit (c div 4096 mod 16), hexDigit (c div 256 mod 16), hexDigit (c div 16 mod 16), hexDigit (c mod 16)]"

definition escapeLetter :: "nat \<Rightarrow> nat option" where
  "escapeLetter c =
     (if c = 34 then Some 34 else if c = 92 then Some 92 else if c = 8 then Some 98 else if c = 12 then Some 102
      else if c = 10 then Some 110 else if c = 13 then Some 114 else if c = 9 then Some 116 else None)"

text \<open>One code point: the short escapes, \<open>\u\<close> escapes for the other control characters and
  for lone surrogates, and the character itself.\<close>

definition jsonEscape :: "jsstring \<Rightarrow> jsstring" where
  "jsonEscape ch =
     (case ch of
        [c] \<Rightarrow>
          (case escapeLetter c of
             Some e \<Rightarrow> [92, e]
           | None \<Rightarrow> if c \<le> 0x1f \<or> (0xd800 \<le> c \<and> c \<le> 0xdfff) then [92, 117] @ hex4 c else [c])
      | _ \<Rightarrow> ch)"

definition jsonQuote :: "jsstring \<Rightarrow> jsstring" where
  "jsonQuote s = 34 # concat (map jsonEscape (strChars s)) @ [34]"

definition hexValue :: "nat \<Rightarrow> nat option" where
  "hexValue c =
     (if 48 \<le> c \<and> c \<le> 57 then Some (c - 48) else if 97 \<le> c \<and> c \<le> 102 then Some (c - 87)
      else if 65 \<le> c \<and> c \<le> 70 then Some (c - 55) else None)"

definition hex4Value :: "nat \<Rightarrow> nat \<Rightarrow> nat \<Rightarrow> nat \<Rightarrow> nat option" where
  "hex4Value a b c d =
     (case (hexValue a, hexValue b, hexValue c, hexValue d) of
        (Some x, Some y, Some z, Some w) \<Rightarrow> Some (x * 4096 + y * 256 + z * 16 + w)
      | _ \<Rightarrow> None)"

definition unescapeLetter :: "nat \<Rightarrow> nat option" where
  "unescapeLetter e =
     (if e = 34 then Some 34 else if e = 92 then Some 92 else if e = 47 then Some 47 else if e = 98 then Some 8
      else if e = 102 then Some 12 else if e = 110 then Some 10 else if e = 114 then Some 13 else if e = 116 then Some 9
      else None)"

abbreviation consFst :: "'a \<Rightarrow> ('a list \<times> 'b) option \<Rightarrow> ('a list \<times> 'b) option" where
  "consFst x r \<equiv> map_option (\<lambda>(xs, rest). (x # xs, rest)) r"

text \<open>The body of a string literal up to the closing quote, and the text that follows.\<close>

fun jsonBody :: "jsstring \<Rightarrow> (jsstring \<times> jsstring) option" where
  "jsonBody [] = None"
| "jsonBody (c # r) =
     (if c = 34 then Some ([], r)
      else if c = 92 then
        (case r of
           [] \<Rightarrow> None
         | e # r1 \<Rightarrow>
             if e = 117 then
               (case r1 of
                  a # b # x # d # r2 \<Rightarrow> (case hex4Value a b x d of None \<Rightarrow> None | Some u \<Rightarrow> consFst u (jsonBody r2))
                | _ \<Rightarrow> None)
             else (case unescapeLetter e of None \<Rightarrow> None | Some u \<Rightarrow> consFst u (jsonBody r1)))
      else if c < 0x20 then None
      else consFst c (jsonBody r))"

declare jsonBody.simps(2) [simp del]

section \<open>Numbers\<close>

record NumberFormat =
  otherText :: "jsnum \<Rightarrow> jsstring"
  otherValue :: "jsstring \<Rightarrow> jsnum"

definition intText :: "int \<Rightarrow> jsstring" where
  "intText i = (if i < 0 then 45 # dec (nat (- i)) else dec (nat i))"

text \<open>\<open>String(n)\<close>: integers below $10^{21}$ in decimal notation.\<close>

definition numberText :: "NumberFormat \<Rightarrow> jsnum \<Rightarrow> jsstring" where
  "numberText nf n = (case n of NInt i \<Rightarrow> if \<bar>i\<bar> < 10 ^ 21 then intText i else otherText nf n | _ \<Rightarrow> otherText nf n)"

definition wholeDigits :: "jsstring \<Rightarrow> bool" where
  "wholeDigits d \<longleftrightarrow> d \<noteq> [] \<and> list_all isDigit d \<and> (d = [48] \<or> hd d \<noteq> 48)"

definition unsigned :: "jsstring \<Rightarrow> jsstring" where
  "unsigned t = (if startsWith t [45] then tl t else t)"

definition intTokenValue :: "jsstring \<Rightarrow> int" where
  "intTokenValue t = (if startsWith t [45] then - int (decValue (tl t)) else int (decValue t))"

definition exponentPart :: "jsstring \<Rightarrow> bool" where
  "exponentPart r \<longleftrightarrow>
     r = [] \<or> (hd r \<in> {69, 101}
       \<and> (let d = (if tl r \<noteq> [] \<and> hd (tl r) \<in> {43, 45} then tl (tl r) else tl r) in d \<noteq> [] \<and> list_all isDigit d))"

definition jsonNumberToken :: "jsstring \<Rightarrow> bool" where
  "jsonNumberToken t \<longleftrightarrow>
     (let u = unsigned t; w = takeWhile isDigit u; r = dropWhile isDigit u in
      wholeDigits w
      \<and> (if startsWith r [46] then takeWhile isDigit (tl r) \<noteq> [] \<and> exponentPart (dropWhile isDigit (tl r))
         else exponentPart r))"

definition jsonNumber :: "NumberFormat \<Rightarrow> jsstring \<Rightarrow> jsnum option" where
  "jsonNumber nf t =
     (if wholeDigits (unsigned t) \<and> \<bar>intTokenValue t\<bar> \<le> MAX_SAFE_INTEGER then Some (NInt (intTokenValue t))
      else if jsonNumberToken t then Some (otherValue nf t)
      else None)"

definition numberChar :: "nat \<Rightarrow> bool" where
  "numberChar c \<longleftrightarrow> isDigit c \<or> c \<in> {43, 45, 46, 69, 101}"

section \<open>Values\<close>

definition skipWs :: "jsstring \<Rightarrow> jsstring" where
  "skipWs s = dropWhile (\<lambda>c. c \<in> {9, 10, 13, 32}) s"

text \<open>The order of own keys: array indices in ascending order first, then the other keys in
  the order of creation; a repeated key keeps its place and gets the new value.\<close>

definition isIndexKey :: "jsstring \<Rightarrow> bool" where
  "isIndexKey k \<longleftrightarrow> wholeDigits k \<and> decValue k < 4294967295"

definition ownKeyOrder :: "(jsstring \<times> 'v) list \<Rightarrow> (jsstring \<times> 'v) list" where
  "ownKeyOrder kvs =
     sort_key (\<lambda>(k, v). decValue k) (filter (\<lambda>(k, v). isIndexKey k) kvs) @ filter (\<lambda>(k, v). \<not> isIndexKey k) kvs"

definition objectFrom :: "(jsstring \<times> jsval) list \<Rightarrow> jsval" where
  "objectFrom kvs =
     Obj ObjectPrototype
       (map (\<lambda>(k, v). (KStr k, DataProp True v)) (ownKeyOrder (fold (\<lambda>(k, v). AList.update k v) kvs [])))"

definition jsonScalar :: "NumberFormat \<Rightarrow> jsstring \<Rightarrow> (jsval \<times> jsstring) option" where
  "jsonScalar nf s =
     (if startsWith s (js ''null'') then Some (Null, drop 4 s)
      else if startsWith s (js ''true'') then Some (Boolean True, drop 4 s)
      else if startsWith s (js ''false'') then Some (Boolean False, drop 5 s)
      else map_option (\<lambda>n. (Number n, dropWhile numberChar s)) (jsonNumber nf (takeWhile numberChar s)))"

fun jsonValue :: "NumberFormat \<Rightarrow> nat \<Rightarrow> jsstring \<Rightarrow> (jsval \<times> jsstring) option"
and jsonElements :: "NumberFormat \<Rightarrow> nat \<Rightarrow> jsstring \<Rightarrow> (jsval list \<times> jsstring) option"
and jsonMembers :: "NumberFormat \<Rightarrow> nat \<Rightarrow> jsstring \<Rightarrow> ((jsstring \<times> jsval) list \<times> jsstring) option" where
  "jsonValue nf 0 s = None"
| "jsonValue nf (Suc n) s =
     (case skipWs s of
        [] \<Rightarrow> None
      | c # r \<Rightarrow>
          if c = 34 then map_option (\<lambda>(t, rest). (Str t, rest)) (jsonBody r)
          else if c = 91 then
            (if startsWith (skipWs r) [93] then Some (jarr [], tl (skipWs r))
             else map_option (\<lambda>(vs, rest). (jarr vs, rest)) (jsonElements nf n r))
          else if c = 123 then
            (if startsWith (skipWs r) [125] then Some (objectFrom [], tl (skipWs r))
             else map_option (\<lambda>(kvs, rest). (objectFrom kvs, rest)) (jsonMembers nf n r))
          else jsonScalar nf (c # r))"
| "jsonElements nf 0 s = None"
| "jsonElements nf (Suc n) s =
     (case jsonValue nf n s of
        None \<Rightarrow> None
      | Some (v, r) \<Rightarrow>
          (case skipWs r of
             [] \<Rightarrow> None
           | c # r1 \<Rightarrow>
               if c = 44 then consFst v (jsonElements nf n r1) else if c = 93 then Some ([v], r1) else None))"
| "jsonMembers nf 0 s = None"
| "jsonMembers nf (Suc n) s =
     (if \<not> startsWith (skipWs s) [34] then None
      else case jsonBody (tl (skipWs s)) of
        None \<Rightarrow> None
      | Some (k, r) \<Rightarrow>
          if \<not> startsWith (skipWs r) [58] then None
          else case jsonValue nf n (tl (skipWs r)) of
            None \<Rightarrow> None
          | Some (v, r1) \<Rightarrow>
              (case skipWs r1 of
                 [] \<Rightarrow> None
               | c # r2 \<Rightarrow>
                   if c = 44 then consFst (k, v) (jsonMembers nf n r2)
                   else if c = 125 then Some ([(k, v)], r2) else None))"

definition jsonParse :: "NumberFormat \<Rightarrow> jsstring \<Rightarrow> jsval option" where
  "jsonParse nf s =
     (case jsonValue nf (Suc (2 * length s)) s of
        None \<Rightarrow> None
      | Some (v, rest) \<Rightarrow> if skipWs rest = [] then Some v else None)"

section \<open>Strings come back\<close>

lemma hexValue_hexDigit [simp]: "n < 16 \<Longrightarrow> hexValue (hexDigit n) = Some n"
  by (auto simp: hexValue_def hexDigit_def)

lemma hex4_digits:
  fixes c :: nat
  assumes "c < 65536"
  shows "c div 4096 mod 16 * 4096 + c div 256 mod 16 * 256 + c div 16 mod 16 * 16 + c mod 16 = c"
proof -
  define q where "q = c div 16"
  define p where "p = q div 16"
  have a: "c div 256 = p" "c div 4096 = p div 16" by (simp_all add: p_def q_def div_mult2_eq[symmetric])
  have "p div 16 < 16" using assms by (simp add: p_def q_def less_mult_imp_div_less)
  then have b: "p div 16 mod 16 = p div 16" by simp
  have "p div 16 * 16 + p mod 16 = p" "p * 16 + q mod 16 = q" "q * 16 + c mod 16 = c"
    unfolding p_def q_def by (rule div_mult_mod_eq)+
  then show ?thesis unfolding a b q_def[symmetric] by linarith
qed

lemma hex4Value_hex4 [simp]: "c < 65536 \<Longrightarrow> hex4 c = [x, y, z, w] \<Longrightarrow> hex4Value x y z w = Some c"
  using hex4_digits[of c] by (auto simp: hex4_def hex4Value_def)

lemma hex4_shape: "\<exists>x y z w. hex4 c = [x, y, z, w]"
  by (simp add: hex4_def)

lemma jsonBody_hex4:
  assumes "c < 65536" shows "jsonBody ([92, 117] @ hex4 c @ r) = consFst c (jsonBody r)"
proof -
  obtain x y z w where h: "hex4 c = [x, y, z, w]" using hex4_shape by blast
  then have "hex4Value x y z w = Some c" by (rule hex4Value_hex4[OF assms])
  then show ?thesis by (simp add: h jsonBody.simps(2))
qed

lemma unescape_escape: "escapeLetter c = Some e \<Longrightarrow> unescapeLetter e = Some c \<and> e \<noteq> 117"
  by (auto simp: escapeLetter_def unescapeLetter_def split: if_splits)

lemma jsonBody_unit:
  assumes "c < 65536" shows "jsonBody (jsonEscape [c] @ r) = consFst c (jsonBody r)"
proof (cases "escapeLetter c")
  case (Some e)
  with unescape_escape[OF Some] show ?thesis by (simp add: jsonEscape_def jsonBody.simps(2))
next
  case None
  then have "c \<noteq> 34" "c \<noteq> 92" by (auto simp: escapeLetter_def split: if_splits)
  with None jsonBody_hex4[OF assms, of r] show ?thesis
    by (auto simp: jsonEscape_def jsonBody.simps(2)[of c])
qed

lemma jsonEscape_pair: "jsonEscape [x, y] = [x, y]"
  by (simp add: jsonEscape_def)

lemma jsonBody_pair:
  "isHighSurrogate x \<Longrightarrow> isLowSurrogate y \<Longrightarrow> jsonBody (x # y # r) = consFst x (consFst y (jsonBody r))"
  by (simp add: jsonBody.simps(2) isHighSurrogate_def isLowSurrogate_def)

definition utf16 :: "jsstring \<Rightarrow> bool" where
  "utf16 s \<longleftrightarrow> list_all (\<lambda>c. c < 65536) s"

lemma jsonBody_escaped:
  "utf16 s \<Longrightarrow> jsonBody (concat (map jsonEscape (strChars s)) @ 34 # r) = Some (s, r)"
proof (induction s rule: strChars.induct)
  case 1 show ?case by (simp add: jsonBody.simps(2))
next
  case (2 x) then show ?case by (simp add: utf16_def jsonBody_unit) (simp add: jsonBody.simps(2))
next
  case (3 x y zs)
  then show ?case
    by (auto simp: utf16_def jsonBody_unit jsonBody_pair jsonEscape_pair simp del: append_Cons append.append_Cons)
      (simp_all add: jsonBody_pair)
qed

section \<open>Numbers come back\<close>

lemma wholeDigits_dec: "wholeDigits (dec n)"
proof (induction n rule: dec.induct)
  case (1 n)
  show ?case
  proof (cases "n < 10")
    case True
    then show ?thesis by (auto simp: dec.simps[of n] wholeDigits_def isDigit_def)
  next
    case False
    then have w: "wholeDigits (dec (n div 10))" using 1 by simp
    have "dec (n div 10) \<noteq> [48]"
    proof
      assume "dec (n div 10) = [48]"
      then have "decValue (dec (n div 10)) = 0" by (simp add: decValue_def)
      then show False using False by simp
    qed
    with w have "hd (dec (n div 10)) \<noteq> 48" by (simp add: wholeDigits_def)
    moreover have "n mod 10 < 10" by simp
    ultimately show ?thesis
      using w False by (simp add: dec.simps[of n] wholeDigits_def isDigit_def)
  qed
qed

lemma dec_no_minus: "\<not> startsWith (dec n) [45]"
proof -
  have "hd (dec n) \<in> set (dec n)" by simp
  then have "isDigit (hd (dec n))" by (rule dec_digits)
  then show ?thesis by (cases "dec n") (auto simp: startsWith_def isDigit_def)
qed

lemma startsWith_Cons [simp]: "startsWith (c # r) [d] \<longleftrightarrow> c = d"
  by (simp add: startsWith_def)

lemma startsWith_Nil [simp]: "\<not> startsWith [] (d # p)"
  by (simp add: startsWith_def)

lemma intText_token: "wholeDigits (unsigned (intText i))" "intTokenValue (intText i) = i" "list_all numberChar (intText i)" "intText i \<noteq> []"
  using wholeDigits_dec dec_no_minus dec_digits
  by (auto simp: intText_def unsigned_def intTokenValue_def numberChar_def list_all_iff)

lemma jsonNumber_intText: "\<bar>i\<bar> \<le> MAX_SAFE_INTEGER \<Longrightarrow> jsonNumber nf (intText i) = Some (NInt i)"
  by (simp add: jsonNumber_def intText_token)

text \<open>What may follow a value in a JSON text.\<close>

definition delimited :: "jsstring \<Rightarrow> bool" where
  "delimited r \<longleftrightarrow> r = [] \<or> hd r \<in> {44, 93, 125}"

lemma takeWhile_delimited:
  assumes "list_all numberChar t" "delimited r"
  shows "takeWhile numberChar (t @ r) = t" "dropWhile numberChar (t @ r) = r"
proof -
  have "r = [] \<or> \<not> numberChar (hd r)" using assms(2) by (auto simp: delimited_def numberChar_def isDigit_def)
  with assms(1) show "takeWhile numberChar (t @ r) = t" "dropWhile numberChar (t @ r) = r"
    by (cases r; auto simp: list_all_iff takeWhile_append dropWhile_append)+
qed

lemma jsonScalar_int:
  assumes "\<bar>i\<bar> \<le> MAX_SAFE_INTEGER" "delimited r"
  shows "jsonScalar nf (intText i @ r) = Some (Number (NInt i), r)"
proof -
  obtain c t where ct: "intText i = c # t" "numberChar c" using intText_token(3,4)[of i] by (cases "intText i") auto
  have "\<not> startsWith (intText i @ r) (js ''null'')" "\<not> startsWith (intText i @ r) (js ''true'')" "\<not> startsWith (intText i @ r) (js ''false'')"
    using ct by (auto simp: startsWith_def js_def numberChar_def isDigit_def)
  then show ?thesis
    using takeWhile_delimited[OF intText_token(3) assms(2)] jsonNumber_intText[OF assms(1)] by (simp add: jsonScalar_def)
qed

section \<open>The text of a value\<close>

text \<open>What \<open>JSON.stringify\<close> leaves out of an object and writes as \<open>null\<close> in an array. (A \<open>bigint\<close>
  is treated so by the serializer of the signaling messages and refused by that of encrypted
  payloads.)\<close>

fun jsonOmitted :: "jsval \<Rightarrow> bool" where
  "jsonOmitted Undefined = True"
| "jsonOmitted (Func _) = True"
| "jsonOmitted (SymbolVal _) = True"
| "jsonOmitted (BigInt _) = True"
| "jsonOmitted _ = False"

definition hasSymbolKey :: "(jskey \<times> jsval pdesc) list \<Rightarrow> bool" where
  "hasSymbolKey ps \<longleftrightarrow> list_ex (\<lambda>(k, d). case k of KSym _ \<Rightarrow> True | KStr _ \<Rightarrow> False) ps"

text \<open>Sizes of the parts of a value, for functions that recurse through its elements and
  members.\<close>

abbreviation elementsSize :: "jsval pdesc option list \<Rightarrow> nat" where
  "elementsSize es \<equiv> size_list (size_option (size_pdesc size)) es"

abbreviation membersSize :: "(jskey \<times> jsval pdesc) list \<Rightarrow> nat" where
  "membersSize ps \<equiv> size_list (size_prod (\<lambda>_. 0) (size_pdesc size)) ps"

function (sequential) jsonText :: "NumberFormat \<Rightarrow> jsval \<Rightarrow> jsstring"
and elementTexts :: "NumberFormat \<Rightarrow> jsval pdesc option list \<Rightarrow> jsstring list"
and memberTexts :: "NumberFormat \<Rightarrow> (jskey \<times> jsval pdesc) list \<Rightarrow> jsstring list" where
  "jsonText nf Null = js ''null''"
| "jsonText nf (Boolean b) = (if b then js ''true'' else js ''false'')"
| "jsonText nf (Number n) = numberText nf n"
| "jsonText nf (Str s) = jsonQuote s"
| "jsonText nf (Arr es) = 91 # joinWith 44 (elementTexts nf es) @ [93]"
| "jsonText nf (Obj proto ps) = 123 # joinWith 44 (memberTexts nf ps) @ [125]"
| "jsonText nf _ = []"
| "elementTexts nf [] = []"
| "elementTexts nf (Some (DataProp e v) # es) =
     (if jsonOmitted v then js ''null'' else jsonText nf v) # elementTexts nf es"
| "elementTexts nf (_ # es) = elementTexts nf es"
| "memberTexts nf [] = []"
| "memberTexts nf ((KStr k, DataProp e v) # ps) =
     (if \<not> e \<or> jsonOmitted v then memberTexts nf ps
      else (jsonQuote k @ 58 # jsonText nf v) # memberTexts nf ps)"
| "memberTexts nf (_ # ps) = memberTexts nf ps"
  by pat_completeness auto
termination
  by (relation "measure (case_sum (\<lambda>(nf, v). size v) (case_sum (\<lambda>(nf, es). elementsSize es) (\<lambda>(nf, ps). membersSize ps)))") auto

text \<open>JSON data: the values that survive the way through a text.\<close>

datatype json = JNull | JBool bool | JInt int | JStr jsstring | JArr "json list" | JObj "(jsstring \<times> json) list"

fun toVal :: "json \<Rightarrow> jsval" where
  "toVal JNull = Null"
| "toVal (JBool b) = Boolean b"
| "toVal (JInt i) = Number (NInt i)"
| "toVal (JStr s) = Str s"
| "toVal (JArr xs) = jarr (map toVal xs)"
| "toVal (JObj kvs) = Obj ObjectPrototype (map (\<lambda>(k, j). (KStr k, DataProp True (toVal j))) kvs)"

fun wfJson :: "json \<Rightarrow> bool" where
  "wfJson (JInt i) = (\<bar>i\<bar> \<le> MAX_SAFE_INTEGER)"
| "wfJson (JStr s) = utf16 s"
| "wfJson (JArr xs) = list_all wfJson xs"
| "wfJson (JObj kvs) =
     (distinct (map fst kvs) \<and> ownKeyOrder kvs = kvs \<and> list_all (\<lambda>(k, j). utf16 k \<and> wfJson j) kvs)"
| "wfJson _ = True"

section \<open>Parsing a text gives the value back\<close>

lemma toVal_kept [simp]: "\<not> jsonOmitted (toVal j)"
  by (cases j) (simp_all add: jarr_def)

lemma elementTexts_data [simp]:
  "elementTexts nf (map (\<lambda>v. Some (DataProp True v)) (map toVal xs)) = map (\<lambda>j. jsonText nf (toVal j)) xs"
  by (induction xs) simp_all

lemma memberTexts_data [simp]:
  "memberTexts nf (map (\<lambda>(k, j). (KStr k, DataProp True (toVal j))) kvs) = map (\<lambda>(k, j). jsonQuote k @ 58 # jsonText nf (toVal j)) kvs"
  by (induction kvs) auto

lemma text_simps [simp]:
  "jsonText nf (toVal (JArr xs)) = 91 # joinWith 44 (map (\<lambda>j. jsonText nf (toVal j)) xs) @ [93]"
  "jsonText nf (toVal (JObj kvs)) = 123 # joinWith 44 (map (\<lambda>(k, j). jsonQuote k @ 58 # jsonText nf (toVal j)) kvs) @ [125]"
  using elementTexts_data[of nf xs] by (simp_all add: jarr_def)

lemma data_shape:
  "hasOnlyDataProperties (map (\<lambda>(k, j). (KStr k, DataProp True (toVal j))) kvs)"
  "\<not> hasSymbolKey (map (\<lambda>(k, j). (KStr k, DataProp True (toVal j))) kvs)"
  by (auto simp: hasOnlyDataProperties_def hasSymbolKey_def list_all_iff list_ex_iff)

lemma data_toJSON:
  "js ''toJSON'' \<notin> fst ` set kvs \<Longrightarrow>
     \<not> hasOwnKey (Obj proto (map (\<lambda>(k, j). (KStr k, DataProp True (toVal j))) kvs)) ''toJSON''"
  by (induction kvs) auto

lemma numberText_safe: "\<bar>i\<bar> \<le> MAX_SAFE_INTEGER \<Longrightarrow> numberText nf (NInt i) = intText i"
  by (simp add: numberText_def MAX_SAFE_INTEGER_def)

lemma skipWs_start [simp]: "c \<notin> {9, 10, 13, 32} \<Longrightarrow> skipWs (c # r) = c # r"
  by (simp add: skipWs_def)

lemma numberChar_start: "numberChar c \<Longrightarrow> c \<notin> {9, 10, 13, 32, 34, 91, 93, 123, 125}"
  by (auto simp: numberChar_def isDigit_def)

text \<open>The first character of a text is no white space, and only an array or object starts with
  its bracket.\<close>

lemma text_start:
  assumes "wfJson j"
  shows "\<exists>c t. jsonText nf (toVal j) = c # t \<and> c \<notin> {9, 10, 13, 32, 93, 125}"
proof (cases j)
  case (JInt i)
  then obtain c t where "intText i = c # t" "numberChar c" using intText_token(3,4)[of i] by (cases "intText i") auto
  with JInt assms numberChar_start[of c] show ?thesis by (simp add: numberText_safe)
qed (auto simp: js_def jsonQuote_def jarr_def)

lemma scalar_value:
  assumes "c \<notin> {9, 10, 13, 32, 34, 91, 123}"
  shows "jsonValue nf (Suc n) (c # r) = jsonScalar nf (c # r)"
  using assms by simp

lemma literal_values:
  "jsonValue nf (Suc n) (js ''null'' @ r) = Some (Null, r)"
  "jsonValue nf (Suc n) (js ''true'' @ r) = Some (Boolean True, r)"
  "jsonValue nf (Suc n) (js ''false'' @ r) = Some (Boolean False, r)"
  by (simp_all add: js_def jsonScalar_def startsWith_def)

lemma int_value:
  assumes "\<bar>i\<bar> \<le> MAX_SAFE_INTEGER" "delimited r"
  shows "jsonValue nf (Suc n) (intText i @ r) = Some (Number (NInt i), r)"
proof -
  obtain c t where ct: "intText i = c # t" "numberChar c" using intText_token(3,4)[of i] by (cases "intText i") auto
  then have "jsonValue nf (Suc n) (intText i @ r) = jsonScalar nf (intText i @ r)"
    using numberChar_start[of c] scalar_value[of c] by simp
  then show ?thesis by (simp add: jsonScalar_int[OF assms])
qed

lemma quoted_value: "utf16 s \<Longrightarrow> jsonValue nf (Suc n) (jsonQuote s @ r) = Some (Str s, r)"
  using jsonBody_escaped[of s r] by (simp add: jsonQuote_def)

abbreviation textOf :: "NumberFormat \<Rightarrow> json \<Rightarrow> jsstring" where
  "textOf nf j \<equiv> jsonText nf (toVal j)"

definition parsesBack :: "NumberFormat \<Rightarrow> json \<Rightarrow> bool" where
  "parsesBack nf j \<longleftrightarrow>
     (\<forall>n r. delimited r \<longrightarrow> 2 * length (textOf nf j) \<le> n \<longrightarrow> jsonValue nf n (textOf nf j @ r) = Some (toVal j, r))"

lemma delimitedI [simp]: "delimited (44 # r)" "delimited (93 # r)" "delimited (125 # r)" "delimited []"
  by (simp_all add: delimited_def)

lemma parse_elements:
  assumes "xs \<noteq> []" "list_all (parsesBack nf) xs" "list_all wfJson xs" "2 * length (joinWith 44 (map (textOf nf) xs)) < n"
  shows "jsonElements nf n (joinWith 44 (map (textOf nf) xs) @ 93 # r) = Some (map toVal xs, r)"
  using assms
proof (induction xs arbitrary: n)
  case (Cons x xs)
  obtain m where n: "n = Suc m" using Cons.prems(4) by (cases n) auto
  have p: "parsesBack nf x" using Cons.prems(2) by simp
  show ?case
  proof (cases "xs = []")
    case True
    then have "jsonValue nf m (textOf nf x @ 93 # r) = Some (toVal x, 93 # r)"
      using p Cons.prems(4) n by (simp add: parsesBack_def)
    with True n show ?thesis by simp
  next
    case False
    let ?rest = "joinWith 44 (map (textOf nf) xs)"
    have j: "joinWith 44 (map (textOf nf) (x # xs)) = textOf nf x @ 44 # ?rest" using False by (simp add: joinWith_Cons)
    have "jsonValue nf m (textOf nf x @ 44 # ?rest @ 93 # r) = Some (toVal x, 44 # ?rest @ 93 # r)"
      using p Cons.prems(4) n j by (simp add: parsesBack_def)
    moreover have "jsonElements nf m (?rest @ 93 # r) = Some (map toVal xs, r)"
      using Cons.IH[of m] Cons.prems n j False by simp
    ultimately show ?thesis using n j by simp
  qed
qed simp

lemma parse_members:
  assumes "kvs \<noteq> []" "list_all (\<lambda>(k, j). parsesBack nf j \<and> utf16 k) kvs"
    "2 * length (joinWith 44 (map (\<lambda>(k, j). jsonQuote k @ 58 # textOf nf j) kvs)) < n"
  shows "jsonMembers nf n (joinWith 44 (map (\<lambda>(k, j). jsonQuote k @ 58 # textOf nf j) kvs) @ 125 # r) =
     Some (map (\<lambda>(k, j). (k, toVal j)) kvs, r)"
  using assms
proof (induction kvs arbitrary: n)
  case (Cons kx kvs)
  obtain k x where kx: "kx = (k, x)" by (cases kx)
  obtain m where n: "n = Suc m" using Cons.prems(3) by (cases n) auto
  have p: "parsesBack nf x" "utf16 k" using Cons.prems(2) kx by simp_all
  have q: "startsWith (skipWs (jsonQuote k @ t)) [34]" "jsonBody (tl (skipWs (jsonQuote k @ t))) = Some (k, t)" for t
    using jsonBody_escaped[OF p(2), of t] by (simp_all add: jsonQuote_def)
  have lq: "2 \<le> length (jsonQuote k)" by (simp add: jsonQuote_def)
  show ?case
  proof (cases "kvs = []")
    case True
    then have "jsonValue nf m (textOf nf x @ 125 # r) = Some (toVal x, 125 # r)"
      using p(1) Cons.prems(3) n kx by (simp add: parsesBack_def)
    with True n kx q[of "58 # textOf nf x @ 125 # r"] show ?thesis by simp
  next
    case False
    let ?rest = "joinWith 44 (map (\<lambda>(k, j). jsonQuote k @ 58 # textOf nf j) kvs)"
    have j: "joinWith 44 (map (\<lambda>(k, j). jsonQuote k @ 58 # textOf nf j) (kx # kvs)) = jsonQuote k @ 58 # textOf nf x @ 44 # ?rest"
      using False kx by (simp add: joinWith_Cons)
    have "jsonValue nf m (textOf nf x @ 44 # ?rest @ 125 # r) = Some (toVal x, 44 # ?rest @ 125 # r)"
      using p(1) Cons.prems(3) n unfolding j by (simp add: parsesBack_def)
    moreover have "jsonMembers nf m (?rest @ 125 # r) = Some (map (\<lambda>(k, j). (k, toVal j)) kvs, r)"
      using Cons.prems n False unfolding j by (intro Cons.IH) simp_all
    ultimately show ?thesis unfolding j using n kx q[of "58 # textOf nf x @ 44 # ?rest @ 125 # r"] by simp
  qed
qed simp

lemma objectFrom_data:
  assumes "distinct (map fst kvs)" "ownKeyOrder kvs = kvs"
  shows "objectFrom (map (\<lambda>(k, j). (k, toVal j)) kvs) = toVal (JObj kvs)"
proof -
  let ?f = "\<lambda>(k, j). (k, toVal j)"
  have keys: "map fst (map ?f kvs) = map fst kvs" by (induction kvs) auto
  have "fold (\<lambda>(k, v). AList.update k v) (map ?f kvs) [] = map ?f kvs"
  proof -
    have "distinct (map fst ([] @ map ?f kvs))" unfolding append_Nil keys by (rule assms(1))
    from fold_update_new[OF this] show ?thesis by (simp only: append_Nil)
  qed
  moreover have "ownKeyOrder (map ?f kvs) = map ?f (ownKeyOrder kvs)"
  proof -
    have "filter (\<lambda>(k, v). isIndexKey k) (map ?f kvs) = map ?f (filter (\<lambda>(k, v). isIndexKey k) kvs)"
      "filter (\<lambda>(k, v). \<not> isIndexKey k) (map ?f kvs) = map ?f (filter (\<lambda>(k, v). \<not> isIndexKey k) kvs)"
      by (induction kvs) auto
    moreover have "sort_key (\<lambda>(k, v). decValue k) (map ?f l) = map ?f (sort_key (\<lambda>(k, v). decValue k) l)" for l :: "(jsstring \<times> json) list"
    proof (induction l)
      case (Cons x l)
      have "insort_key (\<lambda>(k, v). decValue k) (?f x) (map ?f l') = map ?f (insort_key (\<lambda>(k, v). decValue k) x l')" for l'
        by (induction l') (auto split: prod.splits)
      with Cons show ?case by simp
    qed simp
    ultimately show ?thesis by (simp add: ownKeyOrder_def)
  qed
  ultimately show ?thesis using assms(2) by (simp add: objectFrom_def) (simp add: split_beta comp_def)
qed

lemma text_length: "wfJson j \<Longrightarrow> textOf nf j \<noteq> []"
  using text_start[of j nf] by auto

lemma array_back:
  assumes "list_all (parsesBack nf) xs" "list_all wfJson xs"
  shows "parsesBack nf (JArr xs)"
  unfolding parsesBack_def
proof (intro allI impI)
  fix n r
  assume n: "2 * length (textOf nf (JArr xs)) \<le> n"
  then obtain m where m: "n = Suc m" unfolding text_simps by (cases n) auto
  show "jsonValue nf n (textOf nf (JArr xs) @ r) = Some (toVal (JArr xs), r)"
  proof (cases xs)
    case Nil then show ?thesis using m by (simp add: jarr_def)
  next
    case (Cons x ys)
    let ?t = "joinWith 44 (map (textOf nf) xs)"
    obtain c t where c: "?t @ 93 # r = c # t" "c \<notin> {9, 10, 13, 32, 93, 125}"
      using text_start[of x nf] assms(2) Cons by (cases ys) (auto simp: joinWith_Cons)
    have "2 * length ?t < m" using n m unfolding text_simps by simp
    then have "jsonElements nf m (?t @ 93 # r) = Some (map toVal xs, r)"
      using Cons by (intro parse_elements assms) simp
    then have "jsonValue nf (Suc m) (91 # ?t @ 93 # r) = Some (jarr (map toVal xs), r)"
      unfolding c(1) using c(2) by simp
    then show ?thesis unfolding m text_simps by simp
  qed
qed

lemma object_back:
  assumes "list_all (\<lambda>(k, j). parsesBack nf j \<and> utf16 k) kvs" "wfJson (JObj kvs)"
  shows "parsesBack nf (JObj kvs)"
  unfolding parsesBack_def
proof (intro allI impI)
  fix n r
  assume n: "2 * length (textOf nf (JObj kvs)) \<le> n"
  then obtain m where m: "n = Suc m" unfolding text_simps by (cases n) auto
  have d: "objectFrom (map (\<lambda>(k, j). (k, toVal j)) kvs) = toVal (JObj kvs)"
    using objectFrom_data assms(2) by simp
  show "jsonValue nf n (textOf nf (JObj kvs) @ r) = Some (toVal (JObj kvs), r)"
  proof (cases kvs)
    case Nil then show ?thesis using m d by simp
  next
    case (Cons x ys)
    let ?t = "joinWith 44 (map (\<lambda>(k, j). jsonQuote k @ 58 # textOf nf j) kvs)"
    obtain t where c: "?t @ 125 # r = 34 # t"
      using Cons by (cases x; cases ys) (auto simp: joinWith_Cons jsonQuote_def)
    have "2 * length ?t < m" using n m unfolding text_simps by simp
    then have "jsonMembers nf m (?t @ 125 # r) = Some (map (\<lambda>(k, j). (k, toVal j)) kvs, r)"
      using Cons by (intro parse_members assms(1)) simp
    then have "jsonValue nf (Suc m) (123 # ?t @ 125 # r) = Some (toVal (JObj kvs), r)"
      unfolding c d[symmetric] by simp
    with m show ?thesis by (simp del: toVal.simps)
  qed
qed

lemma parsesBackI:
  assumes "textOf nf j \<noteq> []" "\<And>n r. delimited r \<Longrightarrow> jsonValue nf (Suc n) (textOf nf j @ r) = Some (toVal j, r)"
  shows "parsesBack nf j"
  unfolding parsesBack_def
proof (intro allI impI)
  fix n r
  assume "delimited r" "2 * length (textOf nf j) \<le> n"
  then obtain m where "n = Suc m" using assms(1) by (cases n) auto
  then show "jsonValue nf n (textOf nf j @ r) = Some (toVal j, r)" using assms(2)[OF \<open>delimited r\<close>] by blast
qed

lemma parse_text: "wfJson j \<Longrightarrow> parsesBack nf j"
proof (induction j)
  case (JArr xs)
  then show ?case by (intro array_back) (auto simp: list_all_iff)
next
  case (JObj kvs)
  then show ?case by (intro object_back) (fastforce simp: list_all_iff)+
next
  case (JInt i)
  then show ?case by (intro parsesBackI) (simp_all add: numberText_safe int_value intText_token del: jsonValue.simps)
next
  case JNull
  show ?case by (rule parsesBackI) (simp_all add: literal_values del: jsonValue.simps)
next
  case (JBool b)
  show ?case by (rule parsesBackI) (simp_all add: literal_values del: jsonValue.simps)
next
  case (JStr s)
  then show ?case by (intro parsesBackI) (simp_all add: quoted_value del: jsonValue.simps, simp add: jsonQuote_def)
qed

lemma jsonParse_text:
  assumes "wfJson j" shows "jsonParse nf (textOf nf j) = Some (toVal j)"
proof -
  have "delimited []" "2 * length (textOf nf j) \<le> Suc (2 * length (textOf nf j))" by simp_all
  with parse_text[OF assms, of nf] have "jsonValue nf (Suc (2 * length (textOf nf j))) (textOf nf j @ []) = Some (toVal j, [])"
    unfolding parsesBack_def by blast
  then show ?thesis unfolding jsonParse_def append_Nil2 by (simp add: skipWs_def)
qed

section \<open>JSON texts are well-formed Unicode\<close>

lemma hexDigit_ascii: "n < 16 \<Longrightarrow> hexDigit n < 0x80"
  by (simp add: hexDigit_def)

lemma wellFormed_escape:
  assumes "ch \<in> set (strChars s)" "utf16 s" shows "wellFormed (jsonEscape ch)"
proof -
  have "set ch \<subseteq> set s" using assms(1) concat_strChars[of s] by (metis UN_I set_concat subsetI)
  from strChars_cases[OF assms(1)] show ?thesis
  proof
    assume "\<exists>c. ch = [c]"
    then obtain c where c: "ch = [c]" by blast
    then have lt: "c < 65536" using \<open>set ch \<subseteq> set s\<close> assms(2) by (auto simp: utf16_def list_all_iff)
    have hex: "list_all (\<lambda>d. d < 0x80) (hex4 c)" by (simp add: hex4_def hexDigit_ascii)
    show ?thesis
    proof (cases "escapeLetter c")
      case (Some e)
      then have "e < 0x80" by (auto simp: escapeLetter_def split: if_splits)
      with Some c show ?thesis by (simp add: jsonEscape_def wellFormed_ascii)
    next
      case None
      have "list_all (\<lambda>d. d < 0x80) ([92, 117] @ hex4 c)" using hex by simp
      then have "wellFormed ([92, 117] @ hex4 c)" by (rule wellFormed_ascii)
      with None c lt show ?thesis by (auto simp: jsonEscape_def wellFormed_def isSurrogate_def)
    qed
  next
    assume "\<exists>x y. ch = [x, y] \<and> isHighSurrogate x \<and> isLowSurrogate y"
    then show ?thesis by (auto simp: jsonEscape_pair wellFormed_def)
  qed
qed

lemma wellFormed_quote: "utf16 s \<Longrightarrow> wellFormed (jsonQuote s)"
  using wellFormed_escape[of _ s]
  by (auto simp: jsonQuote_def list_all_iff intro!: wellFormed_Cons wellFormed_append wellFormed_concat wellFormed_ascii[of "[34]"])

lemma intText_ascii: "list_all (\<lambda>c. c < 0x80) (intText i)"
  using intText_token(3)[of i] by (auto simp: list_all_iff numberChar_def isDigit_def)

lemma wellFormed_text: "wfJson j \<Longrightarrow> wellFormed (textOf nf j)"
proof (induction j)
  case (JInt i) then show ?case using wellFormed_ascii[OF intText_ascii, of i] by (simp add: numberText_safe)
next
  case (JArr xs)
  then show ?case
    unfolding text_simps
    by (intro wellFormed_Cons wellFormed_append wellFormed_joinWith) (auto simp: list_all_iff wellFormed_ascii)
next
  case (JObj kvs)
  then have "list_all wellFormed (map (\<lambda>(k, j). jsonQuote k @ 58 # textOf nf j) kvs)"
    by (fastforce simp: list_all_iff intro!: wellFormed_append wellFormed_quote wellFormed_Cons)
  then show ?case
    unfolding text_simps by (intro wellFormed_Cons wellFormed_append wellFormed_joinWith) (simp_all add: wellFormed_ascii)
qed (auto simp: js_def wellFormed_ascii wellFormed_quote)

text \<open>A text also survives the way through its UTF-8 bytes.\<close>

lemma fatalUtf8_text:
  assumes "wfJson j" shows "fatalUtf8 (utf8Encode (textOf nf j)) = Some (textOf nf j)"
proof -
  have "take 1 (textOf nf j) \<noteq> [0xfeff]"
  proof (cases j)
    case (JInt i) then show ?thesis using intText_ascii[of i] assms by (cases "intText i") (auto simp: numberText_safe)
  qed (auto simp: js_def jsonQuote_def jarr_def)
  then show ?thesis using fatalUtf8_utf8Encode wellFormed_text[OF assms] by blast
qed

text \<open>The same for any value whose strings are UTF-16, when the format writes numbers in ASCII.\<close>

function (sequential) utf16Val :: "jsval \<Rightarrow> bool"
and utf16Elements :: "jsval pdesc option list \<Rightarrow> bool"
and utf16Members :: "(jskey \<times> jsval pdesc) list \<Rightarrow> bool" where
  "utf16Val (Str s) = utf16 s"
| "utf16Val (Arr es) = utf16Elements es"
| "utf16Val (Obj proto ps) = utf16Members ps"
| "utf16Val _ = True"
| "utf16Elements [] = True"
| "utf16Elements (Some (DataProp e v) # es) = (utf16Val v \<and> utf16Elements es)"
| "utf16Elements (_ # es) = utf16Elements es"
| "utf16Members [] = True"
| "utf16Members ((KStr k, DataProp e v) # ps) = (utf16 k \<and> utf16Val v \<and> utf16Members ps)"
| "utf16Members (_ # ps) = utf16Members ps"
  by pat_completeness auto
termination
  by (relation "measure (case_sum size (case_sum (\<lambda>es. elementsSize es) (\<lambda>ps. membersSize ps)))") auto

definition asciiNumbers :: "NumberFormat \<Rightarrow> bool" where
  "asciiNumbers nf \<longleftrightarrow> (\<forall>n. list_all (\<lambda>c. c < 0x80) (otherText nf n))"

lemma numberText_ascii: "asciiNumbers nf \<Longrightarrow> list_all (\<lambda>c. c < 0x80) (numberText nf n)"
  using intText_ascii by (auto simp: numberText_def asciiNumbers_def split: jsnum.splits)

lemma utf16Elements_data: "list_all (\<lambda>j. utf16Val (toVal j)) xs \<Longrightarrow> utf16Elements (map (\<lambda>v. Some (DataProp True v)) (map toVal xs))"
  by (induction xs) simp_all

lemma utf16Members_data:
  "list_all (\<lambda>(k, j). utf16 k \<and> utf16Val (toVal j)) kvs \<Longrightarrow> utf16Members (map (\<lambda>(k, j). (KStr k, DataProp True (toVal j))) kvs)"
  by (induction kvs) auto

lemma utf16_data: "wfJson j \<Longrightarrow> utf16Val (toVal j)"
proof (induction j)
  case (JArr xs)
  then show ?case using utf16Elements_data[of xs] by (simp add: jarr_def list_all_iff)
next
  case (JObj kvs)
  then have "list_all (\<lambda>(k, j). utf16 k \<and> utf16Val (toVal j)) kvs" by (fastforce simp: list_all_iff)
  then show ?case using utf16Members_data[of kvs] by simp
qed auto

lemma text_wellFormed:
  shows "asciiNumbers nf \<Longrightarrow> utf16Val v \<Longrightarrow> wellFormed (jsonText nf v)"
    and "asciiNumbers nf \<Longrightarrow> utf16Elements es \<Longrightarrow> list_all wellFormed (elementTexts nf es)"
    and "asciiNumbers nf \<Longrightarrow> utf16Members ps \<Longrightarrow> list_all wellFormed (memberTexts nf ps)"
  by (induction nf v and nf es and nf ps rule: jsonText_elementTexts_memberTexts.induct)
    (auto simp: wellFormed_ascii numberText_ascii wellFormed_quote js_def
      intro!: wellFormed_Cons wellFormed_append wellFormed_joinWith)

lemma bytes_joinWith:
  assumes "c < 0x80" "list_all wellFormed ts"
  shows "utf8ByteLength (joinWith c ts) = sum_list (map utf8ByteLength ts) + (length ts - 1)"
  using assms
proof (induction c ts rule: joinWith.induct)
  case (3 c p q ps)
  have "utf8ByteLength ([c] @ joinWith c (q # ps)) = 1 + utf8ByteLength (joinWith c (q # ps))"
    using 3(2) utf8ByteLength_append[OF wellFormed_ascii, of "[c]"] by (simp add: unitBytes_def)
  with 3 show ?case by (simp add: utf8ByteLength_append)
qed simp_all

end
