(* ===== verification/Base64.thy ===== *)
theory Base64
  imports Messages
begin

text \<open>
  Base64 as the program uses it: \<open>Buffer.toString("base64")\<close> and \<open>Buffer.from(_, "base64")\<close>
  (equivalently \<open>btoa\<close> and \<open>atob\<close>), and the strict wrappers \<open>bytesToBase64\<close> and
  \<open>base64ToBytes\<close> of \<open>src/src/shared/security.ts\<close>. The validators of
  \<open>src/src/shared/messages.ts\<close> accept exactly the encodings.
\<close>

section \<open>Definitions\<close>

definition base64Char :: "nat \<Rightarrow> nat" where
  "base64Char i =
     (if i < 26 then 65 + i else if i < 52 then 71 + i else if i < 62 then i - 4 else if i = 62 then 43 else 47)"

fun base64Encode :: "8 word list \<Rightarrow> jsstring" where
  "base64Encode [] = []"
| "base64Encode [a] = [base64Char (unat a div 4), base64Char (unat a mod 4 * 16), 61, 61]"
| "base64Encode [a, b] =
     [base64Char (unat a div 4), base64Char (unat a mod 4 * 16 + unat b div 16), base64Char (unat b mod 16 * 4), 61]"
| "base64Encode (a # b # c # rest) =
     base64Char (unat a div 4) # base64Char (unat a mod 4 * 16 + unat b div 16)
     # base64Char (unat b mod 16 * 4 + unat c div 64) # base64Char (unat c mod 64) # base64Encode rest"

definition sextet :: "nat \<Rightarrow> nat" where
  "sextet c = nat (base64Index c)"

definition byte1 :: "nat \<Rightarrow> nat \<Rightarrow> 8 word" where
  "byte1 a b = of_nat (sextet a * 4 + sextet b div 16)"

definition byte2 :: "nat \<Rightarrow> nat \<Rightarrow> 8 word" where
  "byte2 b c = of_nat (sextet b mod 16 * 16 + sextet c div 4)"

definition byte3 :: "nat \<Rightarrow> nat \<Rightarrow> 8 word" where
  "byte3 c d = of_nat (sextet c mod 4 * 64 + sextet d)"

fun base64Decode :: "jsstring \<Rightarrow> 8 word list" where
  "base64Decode (a # b # c # d # rest) =
     (if c = 61 then [byte1 a b]
      else if d = 61 then [byte1 a b, byte2 b c]
      else byte1 a b # byte2 b c # byte3 c d # base64Decode rest)"
| "base64Decode _ = []"

definition isCanonicalBase64 :: "jsstring \<Rightarrow> bool" where
  "isCanonicalBase64 s \<longleftrightarrow> length s \<noteq> 0 \<and> length s mod 4 = 0 \<and> canonicalBase64 s \<and> hasCanonicalBase64Padding s"

fun canonicalUint8ArrayByteLength :: "jsval \<Rightarrow> string \<Rightarrow> nat res" where
  "canonicalUint8ArrayByteLength (Uint8Array canonical bs) message =
     (if canonical then ok (length bs) else throw message)"
| "canonicalUint8ArrayByteLength _ message = throw message"

fun bytesOf :: "jsval \<Rightarrow> 8 word list" where
  "bytesOf (Uint8Array canonical bs) = bs"
| "bytesOf _ = []"

definition bytesToBase64 :: "jsval \<Rightarrow> jsstring res" where
  "bytesToBase64 bytes =
     andThen (canonicalUint8ArrayByteLength bytes ''Invalid binary payload.'') (\<lambda>_. ok (base64Encode (bytesOf bytes)))"

fun base64ToBytes :: "jsval \<Rightarrow> 8 word list res" where
  "base64ToBytes (Str s) =
     (if length s > ENCRYPTED_JSON_MAX_CHARS then throw ''Invalid base64 payload.''
      else if \<not> isCanonicalBase64 s then throw ''Invalid base64 payload.''
      else ok (base64Decode s))"
| "base64ToBytes _ = throw ''Invalid base64 payload.''"

definition base64EncodedLength :: "nat \<Rightarrow> nat" where
  "base64EncodedLength byteLength = (byteLength + 2) div 3 * 4"

section \<open>Characters\<close>

lemma unat_byte: "unat (b :: 8 word) < 256"
  using unsigned_less[where w = b and 'a = nat] by simp

lemma isBase64Char_base64Char [simp]: "i < 64 \<Longrightarrow> isBase64Char (base64Char i)"
  by (auto simp: isBase64Char_def base64Char_def ascii_class_defs)

lemma base64Char_not_pad [simp]: "i < 64 \<Longrightarrow> base64Char i \<noteq> 61"
  by (auto simp: base64Char_def)

lemma isBase64Char_not_pad: "isBase64Char c \<Longrightarrow> c \<noteq> 61"
  by (auto simp: isBase64Char_def ascii_class_defs)

lemma base64Index_base64Char [simp]: "i < 64 \<Longrightarrow> base64Index (base64Char i) = int i"
  by (auto simp: base64Index_def base64Char_def)

lemma sextet_base64Char [simp]: "i < 64 \<Longrightarrow> sextet (base64Char i) = i"
  by (simp add: sextet_def)

lemma base64Index_sextet: "isBase64Char c \<Longrightarrow> base64Index c = int (sextet c)"
  by (auto simp: sextet_def base64Index_def isBase64Char_def ascii_class_defs)

lemma base64Char_sextet: "isBase64Char c \<Longrightarrow> base64Char (sextet c) = c" "isBase64Char c \<Longrightarrow> sextet c < 64"
  by (auto simp: sextet_def base64Index_def base64Char_def isBase64Char_def ascii_class_defs)

text \<open>Splitting a number into quotient and remainder of a power of two.\<close>

lemma split_divmod: "r < d \<Longrightarrow> (q * d + r) div d = q" "r < d \<Longrightarrow> (q * d + r) mod d = (r::nat)"
  by simp_all

lemma byte_decode:
  fixes a b c :: "8 word"
  shows "byte1 (base64Char (unat a div 4)) (base64Char (unat a mod 4 * 16 + unat b div 16)) = a"
    "byte1 (base64Char (unat a div 4)) (base64Char (unat a mod 4 * 16)) = a"
    "byte2 (base64Char (unat a mod 4 * 16 + unat b div 16)) (base64Char (unat b mod 16 * 4 + unat c div 64)) = b"
    "byte2 (base64Char (unat a mod 4 * 16 + unat b div 16)) (base64Char (unat b mod 16 * 4)) = b"
    "byte3 (base64Char (unat b mod 16 * 4 + unat c div 64)) (base64Char (unat c mod 64)) = c"
proof -
  have q: "unat a div 4 < 64" "unat b div 16 < 16" "unat c div 64 < 4"
    using unat_byte[of a] unat_byte[of b] unat_byte[of c] by (simp_all add: less_mult_imp_div_less)
  have m: "unat a mod 4 < 4" "unat b mod 16 < 16" "unat c mod 64 < 64" by simp_all
  have s: "unat a mod 4 * 16 + unat b div 16 < 64" "unat b mod 16 * 4 + unat c div 64 < 64"
    "unat a mod 4 * 16 < 64" "unat b mod 16 * 4 < 64"
    using q m by linarith+
  show "byte1 (base64Char (unat a div 4)) (base64Char (unat a mod 4 * 16 + unat b div 16)) = a"
    using q s by (simp add: byte1_def split_divmod)
  show "byte1 (base64Char (unat a div 4)) (base64Char (unat a mod 4 * 16)) = a"
    using q s by (simp add: byte1_def)
  show "byte2 (base64Char (unat a mod 4 * 16 + unat b div 16)) (base64Char (unat b mod 16 * 4 + unat c div 64)) = b"
    using q s by (simp add: byte2_def split_divmod)
  show "byte2 (base64Char (unat a mod 4 * 16 + unat b div 16)) (base64Char (unat b mod 16 * 4)) = b"
    using q s by (simp add: byte2_def split_divmod)
  show "byte3 (base64Char (unat b mod 16 * 4 + unat c div 64)) (base64Char (unat c mod 64)) = c"
    using q s m by (simp add: byte3_def split_divmod)
qed

lemma small_byte: "n < 256 \<Longrightarrow> unat (of_nat n :: 8 word) = n"
  by (simp add: unat_of_nat)

lemma sextet_sums:
  fixes a b c :: "8 word"
  shows "unat a div 4 < 64" "unat a mod 4 * 16 + unat b div 16 < 64" "unat b mod 16 * 4 + unat c div 64 < 64"
    "unat c mod 64 < 64" "unat a mod 4 * 16 < 64" "unat b mod 16 * 4 < 64"
proof -
  have "unat a div 4 < 64" "unat b div 16 < 16" "unat c div 64 < 4"
    using unat_byte[of a] unat_byte[of b] unat_byte[of c] by (simp_all add: less_mult_imp_div_less)
  moreover have "unat a mod 4 < 4" "unat b mod 16 < 16" by simp_all
  ultimately show "unat a div 4 < 64" "unat a mod 4 * 16 + unat b div 16 < 64" "unat b mod 16 * 4 + unat c div 64 < 64"
    "unat c mod 64 < 64" "unat a mod 4 * 16 < 64" "unat b mod 16 * 4 < 64"
    by (linarith | simp)+
qed

lemma byte_encode:
  assumes "isBase64Char a" "isBase64Char b"
  shows "unat (byte1 a b) div 4 = sextet a" "unat (byte1 a b) mod 4 = sextet b div 16"
    "unat (byte2 a b) div 16 = sextet a mod 16" "unat (byte2 a b) mod 16 = sextet b div 4"
    "unat (byte3 a b) div 64 = sextet a mod 4" "unat (byte3 a b) mod 64 = sextet b"
proof -
  have s: "sextet a < 64" "sextet b < 64" using assms base64Char_sextet(2) by blast+
  then have "sextet b div 16 < 4" "sextet b div 4 < 16" by (simp_all add: less_mult_imp_div_less)
  moreover have "unat (byte1 a b) = sextet a * 4 + sextet b div 16" "unat (byte2 a b) = sextet a mod 16 * 16 + sextet b div 4"
    "unat (byte3 a b) = sextet a mod 4 * 64 + sextet b"
  proof -
    have "sextet a mod 16 \<le> 15" "sextet a mod 4 \<le> 3" by (simp_all add: less_Suc_eq_le[symmetric])
    with s have "sextet a * 4 + sextet b div 16 < 256" "sextet a mod 16 * 16 + sextet b div 4 < 256" "sextet a mod 4 * 64 + sextet b < 256"
      using calculation by linarith+
    then show "unat (byte1 a b) = sextet a * 4 + sextet b div 16" "unat (byte2 a b) = sextet a mod 16 * 16 + sextet b div 4"
      "unat (byte3 a b) = sextet a mod 4 * 64 + sextet b"
      unfolding byte1_def byte2_def byte3_def by (simp_all only: small_byte)
  qed
  ultimately show "unat (byte1 a b) div 4 = sextet a" "unat (byte1 a b) mod 4 = sextet b div 16"
    "unat (byte2 a b) div 16 = sextet a mod 16" "unat (byte2 a b) mod 16 = sextet b div 4"
    "unat (byte3 a b) div 64 = sextet a mod 4" "unat (byte3 a b) mod 64 = sextet b"
    using s by (simp_all add: split_divmod)
qed

section \<open>Round trips\<close>

lemma base64Decode_Encode [simp]: "base64Decode (base64Encode bs) = bs"
  by (induction bs rule: base64Encode.induct) (simp_all add: byte_decode sextet_sums)

lemma canonicalBase64_Cons4:
  "rest \<noteq> [] \<Longrightarrow> canonicalBase64 (a # b # c # d # rest) \<longleftrightarrow>
     isBase64Char a \<and> isBase64Char b \<and> isBase64Char c \<and> isBase64Char d \<and> canonicalBase64 rest"
  by (cases rest) simp_all

lemma base64Encode_eq_Nil [simp]: "base64Encode bs = [] \<longleftrightarrow> bs = []"
  by (cases bs rule: base64Encode.cases) simp_all

lemma canonicalBase64_Encode [simp]: "canonicalBase64 (base64Encode bs)"
proof (induction bs rule: base64Encode.induct)
  case (4 a b c rest)
  then show ?case by (cases "rest = []") (simp_all add: canonicalBase64_Cons4 sextet_sums)
qed (simp_all add: sextet_sums)

lemma length_base64Encode: "length (base64Encode bs) = base64EncodedLength (length bs)"
proof (induction bs rule: base64Encode.induct)
  case (4 a b c rest)
  have "(5 + length rest) div 3 = Suc ((2 + length rest) div 3)" by linarith
  with 4 show ?case by (simp add: base64EncodedLength_def)
qed (simp_all add: base64EncodedLength_def)

lemma endsWith_Cons4:
  assumes "rest \<noteq> []" "length rest mod 4 = 0" "length p \<le> 2"
  shows "endsWith (a # b # c # d # rest) p = endsWith rest p"
proof -
  have "4 \<le> length rest" using assms(1,2) by (cases "length rest < 4") auto
  with assms(3) show ?thesis by (auto simp: endsWith_def Suc_diff_le)
qed

lemma padding_Cons4:
  assumes "rest \<noteq> []" "length rest mod 4 = 0"
  shows "hasCanonicalBase64Padding (a # b # c # d # rest) = hasCanonicalBase64Padding rest"
proof -
  have "4 \<le> length rest" using assms by (cases "length rest < 4") auto
  then have "(a # b # c # d # rest) ! (length (a # b # c # d # rest) - 3) = rest ! (length rest - 3)"
    "(a # b # c # d # rest) ! (length (a # b # c # d # rest) - 2) = rest ! (length rest - 2)"
    using assms(1) by (simp_all add: nth_Cons' numeral_eq_Suc)
  then show ?thesis using endsWith_Cons4[OF assms] by (simp add: hasCanonicalBase64Padding_def)
qed

lemma padding_quad:
  "hasCanonicalBase64Padding [a, b, c, d] =
     (if c = 61 \<and> d = 61 then base64Index b mod 16 = 0 else if d = 61 then base64Index c mod 4 = 0 else True)"
  by (simp add: hasCanonicalBase64Padding_def endsWith_def)

lemma length_Encode_mod [simp]: "length (base64Encode bs) mod 4 = 0"
  by (simp add: length_base64Encode base64EncodedLength_def)

lemma padding_Encode [simp]: "hasCanonicalBase64Padding (base64Encode bs)"
proof (induction bs rule: base64Encode.induct)
  case 1 show ?case by (simp add: hasCanonicalBase64Padding_def endsWith_def)
next
  case (2 a) then show ?case by (simp add: padding_quad sextet_sums)
next
  case (3 a b) then show ?case by (simp add: padding_quad sextet_sums)
next
  case (4 a b c rest)
  then show ?case by (cases "rest = []") (simp_all add: padding_quad padding_Cons4 sextet_sums)
qed

lemma base64Encode_Decode:
  "canonicalBase64 s \<Longrightarrow> hasCanonicalBase64Padding s \<Longrightarrow> length s mod 4 = 0 \<Longrightarrow> base64Encode (base64Decode s) = s"
proof (induction s rule: base64Decode.induct)
  case (1 a b c d rest)
  show ?case
  proof (cases "rest = []")
    case False
    with 1 have ch: "isBase64Char a" "isBase64Char b" "isBase64Char c" "isBase64Char d" "canonicalBase64 rest" "length rest mod 4 = 0"
      by (simp_all add: canonicalBase64_Cons4)
    have np: "c \<noteq> 61" "d \<noteq> 61" using ch isBase64Char_not_pad by blast+
    have "base64Encode (base64Decode rest) = rest" using 1 np ch False padding_Cons4[of rest a b c d] by simp
    with ch np show ?thesis by (simp add: byte_encode base64Char_sextet)
  next
    case True
    with 1 have ab: "isBase64Char a" "isBase64Char b" and cd: "isBase64Char c \<and> isBase64Char d \<or> c = 61 \<and> d = 61 \<or> isBase64Char c \<and> d = 61"
      and pad: "hasCanonicalBase64Padding [a, b, c, d]" by simp_all
    from cd consider (full) "isBase64Char c" "isBase64Char d" | (two) "c = 61" "d = 61" | (one) "isBase64Char c" "d = 61" by blast
    then show ?thesis
    proof cases
      case full
      then have "c \<noteq> 61" "d \<noteq> 61" using isBase64Char_not_pad by blast+
      with full ab True show ?thesis by (simp add: byte_encode base64Char_sextet)
    next
      case two
      with pad ab have "int (sextet b) mod 16 = 0" by (simp add: padding_quad base64Index_sextet)
      then have "sextet b mod 16 = 0" by presburger
      then have "sextet b div 16 * 16 = sextet b" by auto
      with two ab True show ?thesis by (simp add: byte_encode base64Char_sextet)
    next
      case one
      then have "c \<noteq> 61" using isBase64Char_not_pad by blast
      with pad one ab have "int (sextet c) mod 4 = 0" by (simp add: padding_quad base64Index_sextet)
      then have "sextet c mod 4 = 0" by presburger
      then have "sextet c div 4 * 4 = sextet c" by auto
      with one ab True \<open>c \<noteq> 61\<close> show ?thesis by (simp add: byte_encode base64Char_sextet)
    qed
  qed
qed simp_all

lemma decodedLength_Cons4:
  assumes "rest \<noteq> []" "length rest mod 4 = 0"
  shows "base64DecodedByteLength (a # b # c # d # rest) = 3 + base64DecodedByteLength rest"
  using assms by (simp add: base64DecodedByteLength_def endsWith_Cons4 Let_def)

lemma decodedLength_Encode [simp]: "base64DecodedByteLength (base64Encode bs) = int (length bs)"
proof (induction bs rule: base64Encode.induct)
  case (4 a b c rest)
  then show ?case
  proof (cases "rest = []")
    case True
    then show ?thesis by (simp add: base64DecodedByteLength_def endsWith_def sextet_sums)
  qed (simp add: decodedLength_Cons4)
qed (simp_all add: base64DecodedByteLength_def endsWith_def sextet_sums)

lemma base64Decode_eq_Nil: "s \<noteq> [] \<Longrightarrow> length s mod 4 = 0 \<Longrightarrow> base64Decode s \<noteq> []"
  by (cases s rule: base64Decode.cases) auto

section \<open>Properties\<close>

text \<open>Decoding is exactly the inverse of encoding: a text decodes to \<open>bs\<close> precisely when it
  is the encoding of \<open>bs\<close>, which is not empty and fits the size limit. So every accepted text is
  the only text for its bytes.\<close>

theorem base64_exact:
  "base64ToBytes (Str s) = ok bs \<longleftrightarrow>
     bs \<noteq> [] \<and> length s \<le> ENCRYPTED_JSON_MAX_CHARS \<and> bytesToBase64 (Uint8Array True bs) = ok s"
proof
  assume "base64ToBytes (Str s) = ok bs"
  then have s: "length s \<le> ENCRYPTED_JSON_MAX_CHARS" "isCanonicalBase64 s" "bs = base64Decode s" by (auto split: if_splits)
  then have "base64Encode bs = s" by (simp add: isCanonicalBase64_def base64Encode_Decode)
  with s show "bs \<noteq> [] \<and> length s \<le> ENCRYPTED_JSON_MAX_CHARS \<and> bytesToBase64 (Uint8Array True bs) = ok s"
    using base64Decode_eq_Nil[of s] by (auto simp: isCanonicalBase64_def bytesToBase64_def)
next
  assume "bs \<noteq> [] \<and> length s \<le> ENCRYPTED_JSON_MAX_CHARS \<and> bytesToBase64 (Uint8Array True bs) = ok s"
  then show "base64ToBytes (Str s) = ok bs" by (auto simp: bytesToBase64_def isCanonicalBase64_def)
qed

text \<open>The validator of message fields accepts exactly the base64 encodings of the given
  number of bytes.\<close>

theorem base64_field_exact:
  "isBase64EncodedBytes (Str s) n \<longleftrightarrow> (\<exists>bs. length bs = n \<and> bytesToBase64 (Uint8Array True bs) = ok s)"
proof
  assume "isBase64EncodedBytes (Str s) n"
  then have e: "base64Encode (base64Decode s) = s" "base64DecodedByteLength s = int n" by (simp_all add: base64Encode_Decode)
  then have "length (base64Decode s) = n" by (metis decodedLength_Encode of_nat_eq_iff)
  with e show "\<exists>bs. length bs = n \<and> bytesToBase64 (Uint8Array True bs) = ok s"
    by (intro exI[of _ "base64Decode s"]) (simp add: bytesToBase64_def)
qed (auto simp: bytesToBase64_def)

end
