(* ===== verification/Chunks.thy ===== *)
theory Chunks
  imports JsRuntime Constants
begin

text \<open>
  Bulk chunk frames, \<open>src/src/shared/chunks.ts\<close>: a one-byte file id, a big-endian
  32-bit chunk sequence number, a big-endian 32-bit payload length and the payload.
  The lemmas show that encoding and decoding are inverse to each other on exactly the
  frames the encoder accepts.
\<close>

definition AES_GCM_TAG_BYTES :: nat where
  [limit_defs]: "AES_GCM_TAG_BYTES = 16"

definition SEALED_CHUNK_SIZE :: nat where
  "SEALED_CHUNK_SIZE = CHUNK_SIZE + AES_GCM_TAG_BYTES"

record ChunkFrame =
  fileId :: nat
  chunkSeq :: nat
  payload :: "8 word list"

section \<open>DataView fields\<close>

text \<open>\<open>setUint8\<close> and \<open>setUint32(_, _, false)\<close> store a number modulo $2^8$ and $2^{32}$,
  most significant byte first.\<close>

definition uint8Bytes :: "nat \<Rightarrow> 8 word list" where
  "uint8Bytes n = [of_nat n]"

definition uint32Bytes :: "nat \<Rightarrow> 8 word list" where
  "uint32Bytes n =
     [of_nat (n div 16777216), of_nat (n div 65536), of_nat (n div 256), of_nat n]"

fun bytesValue :: "8 word list \<Rightarrow> nat" where
  "bytesValue [] = 0"
| "bytesValue (b # bs) = unat b * 256 ^ length bs + bytesValue bs"

lemma length_uint32Bytes [simp]: "length (uint32Bytes n) = 4"
  by (simp add: uint32Bytes_def)

lemma unat_byte_less: "unat (b :: 8 word) < 256"
  using unsigned_less[where w = b and 'a = nat] by simp

lemma unat_of_nat_byte [simp]: "unat (of_nat n :: 8 word) = n mod 256"
  by (simp add: unat_of_nat)

lemma uint32Bytes_divs:
  "uint32Bytes n =
     [of_nat (n div 256 div 256 div 256), of_nat (n div 256 div 256), of_nat (n div 256), of_nat n]"
  by (simp add: uint32Bytes_def div_mult2_eq[symmetric])

lemma bytesValue_horner:
  "bytesValue [a, b, c, d] = ((unat a * 256 + unat b) * 256 + unat c) * 256 + unat d"
  by (simp add: algebra_simps)

lemma bytesValue_uint32Bytes [simp]:
  assumes "n < 4294967296" shows "bytesValue (uint32Bytes n) = n"
proof -
  have "n div 256 div 256 div 256 < 256"
    using assms by (simp add: div_mult2_eq[symmetric] less_mult_imp_div_less)
  then have "n div 256 div 256 div 256 mod 256 = n div 256 div 256 div 256"
    by (rule mod_less)
  then show ?thesis
    unfolding uint32Bytes_divs bytesValue_horner unat_of_nat_byte by (simp only: div_mult_mod_eq)
qed

lemma bytesValue_bound: "bytesValue bs < 256 ^ length bs"
proof (induction bs)
  case (Cons b bs)
  have "unat b < 256" by (rule unat_byte_less)
  then have "(unat b + 1) * 256 ^ length bs \<le> 256 * 256 ^ length bs"
    by (intro mult_le_mono1) simp
  then have "unat b * 256 ^ length bs + 256 ^ length bs \<le> 256 ^ length (b # bs)"
    by (simp only: distrib_right mult_1 length_Cons power_Suc)
  with Cons.IH have "unat b * 256 ^ length bs + bytesValue bs < 256 ^ length (b # bs)"
    by linarith
  then show ?case by simp
qed simp

lemma uint32Bytes_bytesValue:
  assumes "length bs = 4" shows "uint32Bytes (bytesValue bs) = bs"
proof -
  from assms obtain a b c d where bs: "bs = [a, b, c, d]"
    by (auto simp: length_Suc_conv eval_nat_numeral)
  have u: "unat a < 256" "unat b < 256" "unat c < 256" "unat d < 256"
    by (rule unat_byte_less)+
  define x where "x = unat a * 256 + unat b"
  define y where "y = x * 256 + unat c"
  define n where "n = y * 256 + unat d"
  have "n div 256 = y" "n mod 256 = unat d"
    using u by (simp_all add: n_def)
  moreover have "y div 256 = x" "y mod 256 = unat c"
    using u by (simp_all add: y_def)
  moreover have "x div 256 = unat a" "x mod 256 = unat b"
    using u by (simp_all add: x_def)
  ultimately have "map unat (uint32Bytes n) = map unat bs"
    using u bs by (simp add: uint32Bytes_divs)
  then have "uint32Bytes n = bs"
    by (rule injD[OF inj_mapI, rotated]) (simp add: inj_on_def word_unat_eq_iff)
  moreover have "bytesValue bs = n"
    by (simp only: bs bytesValue_horner n_def y_def x_def)
  ultimately show ?thesis by simp
qed

section \<open>Encoding and decoding\<close>

text \<open>\<open>Number.isInteger(n)\<close> together with a range check.\<close>

fun integerIn :: "jsnum \<Rightarrow> int \<Rightarrow> int \<Rightarrow> bool" where
  "integerIn (NInt i) lo hi = (lo \<le> i \<and> i \<le> hi)"
| "integerIn _ lo hi = False"

fun numNat :: "jsnum \<Rightarrow> nat" where
  "numNat (NInt i) = nat i"
| "numNat _ = 0"

definition assertUint8Array :: "jsval \<Rightarrow> string \<Rightarrow> nat res" where
  "assertUint8Array value label =
     (case value of
        Uint8Array canonical bs \<Rightarrow>
          if \<not> canonical then throw (label @ '' must be a Uint8Array'')
          else if int (length bs) > MAX_SAFE_INTEGER then throw (label @ '' must be a Uint8Array'')
          else ok (length bs)
      | _ \<Rightarrow> throw (label @ '' must be a Uint8Array''))"

fun binaryBytes :: "jsval \<Rightarrow> 8 word list" where
  "binaryBytes (Uint8Array _ bs) = bs"
| "binaryBytes (ArrayBuf _ bs) = bs"
| "binaryBytes _ = []"

definition encodeChunk :: "jsnum \<Rightarrow> jsnum \<Rightarrow> jsval \<Rightarrow> jsval res" where
  "encodeChunk fid seq data =
     (if \<not> integerIn fid 0 255 then throw ''fileId must fit in uint8''
      else if \<not> integerIn seq 0 0xffffffff then throw ''chunkSeq must fit in uint32''
      else andThen (assertUint8Array data ''payload'') (\<lambda>payloadByteLength.
        if payloadByteLength > SEALED_CHUNK_SIZE then throw ''payload exceeds chunk frame size''
        else ok (ArrayBuf True
          (uint8Bytes (numNat fid) @ uint32Bytes (numNat seq)
             @ uint32Bytes payloadByteLength @ binaryBytes data))))"

definition chunkFrameBytes :: "jsval \<Rightarrow> (8 word list) res" where
  "chunkFrameBytes input =
     (case input of
        Uint8Array canonical bs \<Rightarrow>
          andThen (assertUint8Array input ''chunk frame'') (\<lambda>_. ok bs)
      | ArrayBuf True bs \<Rightarrow> ok bs
      | _ \<Rightarrow> throw ''chunk frame must be an ArrayBuffer or Uint8Array'')"

definition decodeChunk :: "jsval \<Rightarrow> ChunkFrame res" where
  "decodeChunk input =
     andThen (chunkFrameBytes input) (\<lambda>bytes.
       let byteLength = length bytes in
       if byteLength < 9 then throw ''chunk frame is too small''
       else
         let fid = bytesValue (take 1 bytes);
             seq = bytesValue (take 4 (drop 1 bytes));
             payloadLen = bytesValue (take 4 (drop 5 bytes)) in
         if payloadLen \<noteq> byteLength - 9 then throw ''chunk payload length mismatch''
         else if payloadLen > SEALED_CHUNK_SIZE then throw ''chunk payload exceeds maximum size''
         else ok \<lparr>fileId = fid, chunkSeq = seq, payload = drop 9 bytes\<rparr>)"

section \<open>Round trips\<close>

text \<open>The frames the encoder accepts.\<close>

definition validFrame :: "ChunkFrame \<Rightarrow> bool" where
  "validFrame f \<longleftrightarrow> fileId f \<le> 255 \<and> chunkSeq f \<le> 0xffffffff
     \<and> length (payload f) \<le> SEALED_CHUNK_SIZE"

definition encodeFrame :: "ChunkFrame \<Rightarrow> jsval res" where
  "encodeFrame f = encodeChunk (NInt (int (fileId f))) (NInt (int (chunkSeq f)))
     (Uint8Array True (payload f))"

lemma sealedChunkSize_value: "SEALED_CHUNK_SIZE = 16400"
  by (simp add: SEALED_CHUNK_SIZE_def AES_GCM_TAG_BYTES_def limit_defs)

definition frameBytes :: "ChunkFrame \<Rightarrow> 8 word list" where
  "frameBytes f = uint8Bytes (fileId f) @ uint32Bytes (chunkSeq f)
     @ uint32Bytes (length (payload f)) @ payload f"

lemma encodeFrame_valid:
  "validFrame f \<Longrightarrow> encodeFrame f = ok (ArrayBuf True (frameBytes f))"
  by (auto simp: encodeFrame_def encodeChunk_def validFrame_def assertUint8Array_def
      frameBytes_def MAX_SAFE_INTEGER_def sealedChunkSize_value)

lemma encodeFrame_ok_iff: "isOk (encodeFrame f) \<longleftrightarrow> validFrame f"
  by (auto simp: encodeFrame_def encodeChunk_def validFrame_def assertUint8Array_def
      isOk_andThen MAX_SAFE_INTEGER_def sealedChunkSize_value)

lemma frameBytes_fields:
  "length (frameBytes f) = 9 + length (payload f)"
  "take 1 (frameBytes f) = uint8Bytes (fileId f)"
  "take 4 (drop 1 (frameBytes f)) = uint32Bytes (chunkSeq f)"
  "take 4 (drop 5 (frameBytes f)) = uint32Bytes (length (payload f))"
  "drop 9 (frameBytes f) = payload f"
  by (simp_all add: frameBytes_def uint8Bytes_def uint32Bytes_def)

lemma decode_frameBytes:
  "validFrame f \<Longrightarrow> decodeChunk (ArrayBuf True (frameBytes f)) = ok f"
  unfolding decodeChunk_def chunkFrameBytes_def
  by (simp add: frameBytes_fields validFrame_def sealedChunkSize_value uint8Bytes_def Let_def
      del: One_nat_def)

lemma decode_view:
  assumes "validFrame f" shows "decodeChunk (Uint8Array True (frameBytes f)) = ok f"
proof -
  have "int (length (frameBytes f)) \<le> MAX_SAFE_INTEGER"
    using assms by (simp add: frameBytes_fields validFrame_def sealedChunkSize_value MAX_SAFE_INTEGER_def)
  then have "chunkFrameBytes (Uint8Array True (frameBytes f)) = chunkFrameBytes (ArrayBuf True (frameBytes f))"
    by (simp add: chunkFrameBytes_def assertUint8Array_def)
  then have "decodeChunk (Uint8Array True (frameBytes f)) = decodeChunk (ArrayBuf True (frameBytes f))"
    by (simp only: decodeChunk_def)
  with decode_frameBytes[OF assms] show ?thesis by simp
qed

text \<open>A decoded buffer is the encoding of the frame it decodes to, so no two buffers
  decode to the same frame.\<close>

lemma decodeChunk_bytes:
  assumes "chunkFrameBytes input = ok bytes" and "decodeChunk input = ok f"
  shows "validFrame f" and "bytes = frameBytes f"
proof -
  let ?id = "bytesValue (take 1 bytes)" and ?seq = "bytesValue (take 4 (drop 1 bytes))"
    and ?len = "bytesValue (take 4 (drop 5 bytes))"
  from assms have len: "9 \<le> length bytes" "?len = length bytes - 9" "?len \<le> SEALED_CHUNK_SIZE"
    and f: "f = \<lparr>fileId = ?id, chunkSeq = ?seq, payload = drop 9 bytes\<rparr>"
    by (auto simp: decodeChunk_def Let_def split: if_splits)
  have "?id < 256 ^ length (take 1 bytes)" "?seq < 256 ^ length (take 4 (drop 1 bytes))"
    by (rule bytesValue_bound)+
  with len f show "validFrame f" by (simp add: validFrame_def)
  have seq: "uint32Bytes ?seq = take 4 (drop 1 bytes)" and pl: "uint32Bytes ?len = take 4 (drop 5 bytes)"
    using len(1) by (simp_all add: uint32Bytes_bytesValue)
  have id: "uint8Bytes ?id = take 1 bytes"
    using len(1) by (cases bytes) (simp_all add: uint8Bytes_def)
  have "take 9 bytes = take 1 bytes @ take 4 (drop 1 bytes) @ take 4 (drop 5 bytes)"
    using take_add[of 1 8 bytes] take_add[of 4 4 "drop 1 bytes"] by simp
  then have "bytes = take 1 bytes @ take 4 (drop 1 bytes) @ take 4 (drop 5 bytes) @ drop 9 bytes"
    by (metis append.assoc append_take_drop_id)
  then show "bytes = frameBytes f"
    using f len id seq pl by (simp add: frameBytes_def)
qed

section \<open>Properties\<close>

text \<open>C39: a frame is accepted by the encoder exactly when its fields fit their widths and
  the payload fits a sealed chunk; what the encoder produces decodes, from the buffer or
  from a view of it, to the frame that was encoded.\<close>

theorem chunk_encode_decode:
  "(if validFrame f
    then \<exists>buf. encodeFrame f = ok (ArrayBuf True buf) \<and> length buf = 9 + length (payload f)
           \<and> decodeChunk (ArrayBuf True buf) = ok f \<and> decodeChunk (Uint8Array True buf) = ok f
    else \<not> isOk (encodeFrame f))"
  by (auto simp: encodeFrame_valid decode_frameBytes decode_view frameBytes_fields encodeFrame_ok_iff)

text \<open>The frame format is canonical: whenever a buffer decodes, the decoded frame is
  valid and encoding it gives back the same buffer, so two different buffers never decode
  to the same frame.\<close>

theorem chunk_decode_encode:
  assumes "decodeChunk (ArrayBuf True buf) = ok f"
  shows "validFrame f \<and> encodeFrame f = ok (ArrayBuf True buf)"
proof -
  have "chunkFrameBytes (ArrayBuf True buf) = ok buf"
    by (simp add: chunkFrameBytes_def)
  from decodeChunk_bytes[OF this assms] show ?thesis
    by (simp add: encodeFrame_valid)
qed

theorem chunk_decode_encode_witness:
  "validFrame \<lparr>fileId = 7, chunkSeq = 258, payload = [65]\<rparr> \<and>
   encodeFrame \<lparr>fileId = 7, chunkSeq = 258, payload = [65]\<rparr>
     = ok (ArrayBuf True [7, 0, 0, 1, 2, 0, 0, 0, 1, 65])"
  by (rule chunk_decode_encode)
    (simp add: decodeChunk_def chunkFrameBytes_def Let_def sealedChunkSize_value)

end
