(* ===== verification/SealedJson.thy ===== *)
theory SealedJson
  imports Json Base64 Chunks
begin

text \<open>
  The JSON texts that \<open>src/src/shared/security.ts\<close> encrypts: the preflight that accounts the
  bytes of a value before anything is written (\<open>visitJsonValue\<close> and the functions it calls), the
  writer (\<open>stringifyPreflightedJsonValue\<close>), and the padding of manifests and WebRTC signals to
  fixed sizes. As in \<open>Serialize\<close>, values are finite trees and the \<open>seen\<close> set is left out.
\<close>

section \<open>Limits\<close>

definition MAX_ENCRYPTED_JSON_PLAINTEXT_BYTES :: nat where
  [limit_defs]: "MAX_ENCRYPTED_JSON_PLAINTEXT_BYTES = ENCRYPTED_JSON_MAX_CHARS div 4 * 3 - 12 - AES_GCM_TAG_BYTES"
definition MANIFEST_PADDING_BUCKET_BYTES :: nat where [limit_defs]: "MANIFEST_PADDING_BUCKET_BYTES = 4096"
definition SIGNAL_PADDING_BUCKET_BYTES :: nat where [limit_defs]: "SIGNAL_PADDING_BUCKET_BYTES = 4096"
definition MAX_ENCRYPTED_JSON_DEPTH :: nat where [limit_defs]: "MAX_ENCRYPTED_JSON_DEPTH = 32"
definition MAX_ENCRYPTED_JSON_NODES :: nat where [limit_defs]: "MAX_ENCRYPTED_JSON_NODES = 10000"

abbreviation payloadTooLarge :: string where
  "payloadTooLarge \<equiv> ''Encrypted payload is too large.''"

abbreviation payloadNotSerializable :: string where
  "payloadNotSerializable \<equiv> ''Encrypted payload is not JSON serializable.''"

section \<open>The preflight\<close>

record JsonBudget =
  remainingBytes :: int
  budgetNodes :: int

definition accountJsonBytes :: "JsonBudget \<Rightarrow> nat \<Rightarrow> JsonBudget res" where
  "accountJsonBytes budget bytes =
     (let budget = budget\<lparr>remainingBytes := remainingBytes budget - int bytes\<rparr> in
      if remainingBytes budget < 0 then throw payloadTooLarge else ok budget)"

definition jsonCharBytes :: "jsstring \<Rightarrow> nat" where
  "jsonCharBytes ch =
     (let codePoint = codePointOf ch in
      if ch \<in> {[34], [92], [8], [12], [10], [13], [9]} then 2
      else if codePoint \<le> 0x1f \<or> (codePoint \<ge> 0xd800 \<and> codePoint \<le> 0xdfff) then 6
      else if codePoint \<le> 0x7f then 1
      else if codePoint \<le> 0x7ff then 2
      else if codePoint \<le> 0xffff then 3
      else 4)"

fun accountJsonChars :: "jsstring list \<Rightarrow> JsonBudget \<Rightarrow> JsonBudget res" where
  "accountJsonChars [] budget = ok budget"
| "accountJsonChars (ch # chs) budget = andThen (accountJsonBytes budget (jsonCharBytes ch)) (accountJsonChars chs)"

definition accountJsonStringBytes :: "jsstring \<Rightarrow> JsonBudget \<Rightarrow> JsonBudget res" where
  "accountJsonStringBytes value budget = andThen (accountJsonBytes budget 2) (accountJsonChars (strChars value))"

fun jsonArrayValueSerializesAsNull :: "jsval \<Rightarrow> bool" where
  "jsonArrayValueSerializesAsNull Undefined = True"
| "jsonArrayValueSerializesAsNull (Func _) = True"
| "jsonArrayValueSerializesAsNull (SymbolVal _) = True"
| "jsonArrayValueSerializesAsNull _ = False"

abbreviation jsonObjectPropertyIsOmitted :: "jsval \<Rightarrow> bool" where
  "jsonObjectPropertyIsOmitted \<equiv> jsonArrayValueSerializesAsNull"

abbreviation accountIf :: "bool \<Rightarrow> JsonBudget \<Rightarrow> JsonBudget res" where
  "accountIf needed budget \<equiv> (if needed then accountJsonBytes budget 1 else ok budget)"

function (sequential) visitJsonValue :: "NumberFormat \<Rightarrow> jsval \<Rightarrow> JsonBudget \<Rightarrow> nat \<Rightarrow> JsonBudget res"
and visitJsonObject :: "NumberFormat \<Rightarrow> jsval \<Rightarrow> JsonBudget \<Rightarrow> nat \<Rightarrow> JsonBudget res"
and visitJsonArray :: "NumberFormat \<Rightarrow> jsval pdesc option list \<Rightarrow> nat \<Rightarrow> JsonBudget \<Rightarrow> nat \<Rightarrow> JsonBudget res"
and visitJsonRecord :: "NumberFormat \<Rightarrow> (jskey \<times> jsval pdesc) list \<Rightarrow> nat \<Rightarrow> JsonBudget \<Rightarrow> nat \<Rightarrow> JsonBudget res" where
  "visitJsonValue nf value budget depth =
     (let budget = budget\<lparr>budgetNodes := budgetNodes budget - 1\<rparr> in
      if budgetNodes budget < 0 \<or> depth > MAX_ENCRYPTED_JSON_DEPTH then throw payloadTooLarge
      else case value of
        Null \<Rightarrow> accountJsonBytes budget 4
      | Str s \<Rightarrow> accountJsonStringBytes s budget
      | Number n \<Rightarrow>
          if \<not> isFinite n then throw payloadNotSerializable
          else accountJsonBytes budget (length (numberText nf n))
      | Boolean b \<Rightarrow> accountJsonBytes budget (if b then 4 else 5)
      | Undefined \<Rightarrow> throw payloadNotSerializable
      | BigInt _ \<Rightarrow> throw payloadNotSerializable
      | SymbolVal _ \<Rightarrow> throw payloadNotSerializable
      | Func _ \<Rightarrow> throw payloadNotSerializable
      | _ \<Rightarrow> visitJsonObject nf value budget depth)"
| "visitJsonObject nf value budget depth =
     (if hasOwnKey value ''toJSON'' then throw payloadNotSerializable
      else case value of
        Arr es \<Rightarrow>
          if length es > MAX_ENCRYPTED_JSON_NODES then throw payloadTooLarge
          else (case accountJsonBytes budget 2 of
              Inl e \<Rightarrow> Inl e
            | Inr budget \<Rightarrow> visitJsonArray nf es 0 budget depth)
      | Obj proto ps \<Rightarrow>
          if \<not> isObject value then throw payloadNotSerializable
          else if hasSymbolKey ps then throw payloadNotSerializable
          else (case accountJsonBytes budget 2 of
              Inl e \<Rightarrow> Inl e
            | Inr budget \<Rightarrow> visitJsonRecord nf ps 0 budget depth)
      | _ \<Rightarrow> throw payloadNotSerializable)"
| "visitJsonArray nf [] index budget depth = ok budget"
| "visitJsonArray nf (Some (DataProp e v) # es) index budget depth =
     (case accountIf (index > 0) budget of
        Inl e \<Rightarrow> Inl e
      | Inr budget \<Rightarrow>
          (case (if jsonArrayValueSerializesAsNull v then accountJsonBytes budget 4
                 else visitJsonValue nf v budget (Suc depth)) of
             Inl e \<Rightarrow> Inl e
           | Inr budget \<Rightarrow> visitJsonArray nf es (Suc index) budget depth))"
| "visitJsonArray nf (_ # es) index budget depth =
     andThen (accountIf (index > 0) budget) (\<lambda>_. throw payloadNotSerializable)"
| "visitJsonRecord nf [] propertyCount budget depth = ok budget"
| "visitJsonRecord nf ((KStr k, DataProp e v) # ps) propertyCount budget depth =
     (if \<not> e \<or> jsonObjectPropertyIsOmitted v then visitJsonRecord nf ps propertyCount budget depth
      else case andThen (accountIf (propertyCount > 0) budget)
                  (\<lambda>budget. andThen (accountJsonStringBytes k budget) (\<lambda>budget. accountJsonBytes budget 1)) of
        Inl err \<Rightarrow> Inl err
      | Inr budget \<Rightarrow>
          (case visitJsonValue nf v budget (Suc depth) of
             Inl err \<Rightarrow> Inl err
           | Inr budget \<Rightarrow> visitJsonRecord nf ps (Suc propertyCount) budget depth))"
| "visitJsonRecord nf ((KStr k, AccessorProp e) # ps) propertyCount budget depth =
     (if \<not> e then visitJsonRecord nf ps propertyCount budget depth else throw payloadNotSerializable)"
| "visitJsonRecord nf (_ # ps) propertyCount budget depth = visitJsonRecord nf ps propertyCount budget depth"
  by pat_completeness auto
termination
  by (relation "measure (case_sum (case_sum (\<lambda>(nf, v, b, d). 2 * size v + 1) (\<lambda>(nf, v, b, d). 2 * size v))
        (case_sum (\<lambda>(nf, es, i, b, d). 2 * elementsSize es) (\<lambda>(nf, ps, i, b, d). 2 * membersSize ps)))") auto

declare visitJsonValue.simps [simp del] visitJsonObject.simps [simp del]

definition assertJsonValueWithinEncryptionBounds :: "NumberFormat \<Rightarrow> jsval \<Rightarrow> JsonBudget res" where
  "assertJsonValueWithinEncryptionBounds nf value =
     visitJsonValue nf value
       \<lparr>remainingBytes = int MAX_ENCRYPTED_JSON_PLAINTEXT_BYTES, budgetNodes = int MAX_ENCRYPTED_JSON_NODES\<rparr> 0"

section \<open>The writer\<close>

function (sequential) stringifyPreflightedJsonValue :: "NumberFormat \<Rightarrow> jsval \<Rightarrow> jsstring res"
and stringifyPreflightedJsonArray :: "NumberFormat \<Rightarrow> jsval pdesc option list \<Rightarrow> jsstring list res"
and stringifyPreflightedJsonRecord :: "NumberFormat \<Rightarrow> (jskey \<times> jsval pdesc) list \<Rightarrow> jsstring list res" where
  "stringifyPreflightedJsonValue nf Null = ok (js ''null'')"
| "stringifyPreflightedJsonValue nf (Str s) = ok (jsonQuote s)"
| "stringifyPreflightedJsonValue nf (Number n) =
     (if \<not> isFinite n then throw payloadNotSerializable else ok (numberText nf n))"
| "stringifyPreflightedJsonValue nf (Boolean b) = ok (if b then js ''true'' else js ''false'')"
| "stringifyPreflightedJsonValue nf (Arr es) =
     andThen (stringifyPreflightedJsonArray nf es) (\<lambda>out. ok (91 # joinWith 44 out @ [93]))"
| "stringifyPreflightedJsonValue nf (Obj proto ps) =
     (if \<not> isObject (Obj proto ps) then throw payloadNotSerializable
      else if hasSymbolKey ps then throw payloadNotSerializable
      else andThen (stringifyPreflightedJsonRecord nf ps) (\<lambda>out. ok (123 # joinWith 44 out @ [125])))"
| "stringifyPreflightedJsonValue nf _ = throw payloadNotSerializable"
| "stringifyPreflightedJsonArray nf [] = ok []"
| "stringifyPreflightedJsonArray nf (Some (DataProp e v) # es) =
     (case (if jsonArrayValueSerializesAsNull v then ok (js ''null'') else stringifyPreflightedJsonValue nf v) of
        Inl err \<Rightarrow> Inl err
      | Inr t \<Rightarrow> andThen (stringifyPreflightedJsonArray nf es) (\<lambda>out. ok (t # out)))"
| "stringifyPreflightedJsonArray nf (_ # es) = throw payloadNotSerializable"
| "stringifyPreflightedJsonRecord nf [] = ok []"
| "stringifyPreflightedJsonRecord nf ((KStr k, DataProp e v) # ps) =
     (if \<not> e \<or> jsonObjectPropertyIsOmitted v then stringifyPreflightedJsonRecord nf ps
      else case stringifyPreflightedJsonValue nf v of
        Inl err \<Rightarrow> Inl err
      | Inr t \<Rightarrow> andThen (stringifyPreflightedJsonRecord nf ps) (\<lambda>out. ok ((jsonQuote k @ 58 # t) # out)))"
| "stringifyPreflightedJsonRecord nf (_ # ps) = stringifyPreflightedJsonRecord nf ps"
  by pat_completeness auto
termination
  by (relation "measure (case_sum (\<lambda>(nf, v). size v) (case_sum (\<lambda>(nf, es). elementsSize es) (\<lambda>(nf, ps). membersSize ps)))") auto

text \<open>\<open>stringifyJsonValue\<close> of the security module.\<close>

definition stringifySealedJsonValue :: "NumberFormat \<Rightarrow> jsval \<Rightarrow> jsstring res" where
  "stringifySealedJsonValue nf value =
     andThen (assertJsonValueWithinEncryptionBounds nf value) (\<lambda>_.
     andThen (stringifyPreflightedJsonValue nf value) (\<lambda>serialized.
       if length (utf8Encode serialized) > MAX_ENCRYPTED_JSON_PLAINTEXT_BYTES then throw payloadTooLarge else ok serialized))"

section \<open>Padding\<close>

definition manifestPaddingTargetBytes :: "nat \<Rightarrow> nat res" where
  "manifestPaddingTargetBytes byteLength =
     (if byteLength > MAX_ENCRYPTED_JSON_PLAINTEXT_BYTES then throw payloadTooLarge
      else let bucketed = (byteLength + (MANIFEST_PADDING_BUCKET_BYTES - 1)) div MANIFEST_PADDING_BUCKET_BYTES * MANIFEST_PADDING_BUCKET_BYTES in
        ok (min (max bucketed MANIFEST_PADDING_BUCKET_BYTES) MAX_ENCRYPTED_JSON_PLAINTEXT_BYTES))"

definition signalPaddingTargetBytes :: "nat \<Rightarrow> nat res" where
  "signalPaddingTargetBytes byteLength =
     (if byteLength > MAX_ENCRYPTED_JSON_PLAINTEXT_BYTES then throw payloadTooLarge
      else let bucketed = (byteLength + (SIGNAL_PADDING_BUCKET_BYTES - 1)) div SIGNAL_PADDING_BUCKET_BYTES * SIGNAL_PADDING_BUCKET_BYTES in
        ok (min (max bucketed SIGNAL_PADDING_BUCKET_BYTES) MAX_ENCRYPTED_JSON_PLAINTEXT_BYTES))"

definition paddedManifestWrapper :: "NumberFormat \<Rightarrow> jsval \<Rightarrow> jsval res" where
  "paddedManifestWrapper nf manifest =
     andThen (stringifySealedJsonValue nf (jobj [(''t'', Str (js ''pair-manifest'')), (''manifest'', manifest), (''pad'', Str [])])) (\<lambda>base.
     andThen (manifestPaddingTargetBytes (length (utf8Encode base))) (\<lambda>target.
       ok (jobj [(''t'', Str (js ''pair-manifest'')), (''manifest'', manifest),
                 (''pad'', Str (replicate (target - length (utf8Encode base)) 65))])))"

definition paddedSignalWrapper :: "NumberFormat \<Rightarrow> jsval \<Rightarrow> jsval res" where
  "paddedSignalWrapper nf signal =
     andThen (stringifySealedJsonValue nf (jobj [(''t'', Str (js ''webrtc-signal'')), (''signal'', signal), (''pad'', Str [])])) (\<lambda>base.
     andThen (signalPaddingTargetBytes (length (utf8Encode base))) (\<lambda>target.
       ok (jobj [(''t'', Str (js ''webrtc-signal'')), (''signal'', signal),
                 (''pad'', Str (replicate (target - length (utf8Encode base)) 65))])))"

section \<open>The preflight counts the bytes of the text\<close>

definition paid :: "JsonBudget \<Rightarrow> nat \<Rightarrow> JsonBudget \<Rightarrow> bool" where
  "paid b n b' \<longleftrightarrow> remainingBytes b' = remainingBytes b - int n \<and> (0 \<le> remainingBytes b \<longrightarrow> 0 \<le> remainingBytes b')"

lemma paid_trans: "paid a m b \<Longrightarrow> paid b n c \<Longrightarrow> paid a (m + n) c"
  by (auto simp: paid_def)

lemma paid_refl [simp]: "paid b 0 b' \<longleftrightarrow> remainingBytes b' = remainingBytes b"
  by (auto simp: paid_def)

lemma account_ok: "accountJsonBytes b n = ok b' \<longleftrightarrow> int n \<le> remainingBytes b \<and> b' = b\<lparr>remainingBytes := remainingBytes b - int n\<rparr>"
  by (auto simp: accountJsonBytes_def Let_def)

lemma account_paid: "accountJsonBytes b n = ok b' \<Longrightarrow> paid b n b'"
  by (auto simp: account_ok paid_def)

lemma accountIf_paid: "accountIf c b = ok b' \<Longrightarrow> paid b (if c then 1 else 0) b'"
  by (auto simp: account_paid split: if_splits)

lemma escape_bytes:
  assumes "ch \<in> set (strChars s)" "utf16 s" shows "jsonCharBytes ch = utf8ByteLength (jsonEscape ch)"
proof -
  have "set ch \<subseteq> set s" using assms(1) concat_strChars[of s] by (metis UN_I set_concat subsetI)
  from strChars_cases[OF assms(1)] show ?thesis
  proof
    assume "\<exists>c. ch = [c]"
    then obtain c where c: "ch = [c]" by blast
    then have lt: "c < 65536" using \<open>set ch \<subseteq> set s\<close> assms(2) by (auto simp: utf16_def list_all_iff)
    show ?thesis
    proof (cases "escapeLetter c")
      case (Some e)
      then have "e < 0x80" "ch \<in> {[34], [92], [8], [12], [10], [13], [9]}" using c by (auto simp: escapeLetter_def split: if_splits)
      with Some c show ?thesis by (simp add: jsonCharBytes_def jsonEscape_def utf8ByteLength_ascii)
    next
      case None
      then have n: "c \<notin> {34, 92, 8, 12, 10, 13, 9}" by (auto simp: escapeLetter_def split: if_splits)
      have "utf8ByteLength ([92, 117] @ hex4 c) = 6" by (subst utf8ByteLength_ascii) (simp_all add: hex4_def hexDigit_ascii)
      with None n c lt show ?thesis by (auto simp: jsonCharBytes_def jsonEscape_def unitBytes_def)
    qed
  next
    assume "\<exists>x y. ch = [x, y] \<and> isHighSurrogate x \<and> isLowSurrogate y"
    then obtain x y where "ch = [x, y]" "isHighSurrogate x" "isLowSurrogate y" by blast
    with pair_scalar[of x y] show ?thesis
      by (simp add: jsonCharBytes_def jsonEscape_pair utf8ByteLength_Cons2 del: codePointOf.simps(1))
  qed
qed

lemma chars_paid: "accountJsonChars chs b = ok b' \<Longrightarrow> paid b (sum_list (map jsonCharBytes chs)) b'"
  by (induction chs arbitrary: b) (fastforce dest: account_paid intro: paid_trans)+

lemma bytes_concat: "list_all wellFormed ss \<Longrightarrow> utf8ByteLength (concat ss) = sum_list (map utf8ByteLength ss)"
  by (induction ss) (simp_all add: utf8ByteLength_append)

lemma ascii_bytes: "c < 0x80 \<Longrightarrow> utf8ByteLength (c # s) = 1 + utf8ByteLength s"
  using utf8ByteLength_append[OF wellFormed_ascii, of "[c]" s] by (simp add: unitBytes_def)

lemma quote_bytes:
  assumes "utf16 s" shows "utf8ByteLength (jsonQuote s) = 2 + sum_list (map jsonCharBytes (strChars s))"
proof -
  let ?e = "map jsonEscape (strChars s)"
  have w: "list_all wellFormed ?e" using wellFormed_escape[OF _ assms] by (auto simp: list_all_iff)
  have "utf8ByteLength (concat ?e @ [34]) = utf8ByteLength (concat ?e) + 1"
    using utf8ByteLength_append[OF wellFormed_concat[OF w]] by (simp add: unitBytes_def)
  moreover have "map jsonCharBytes (strChars s) = map utf8ByteLength ?e" using escape_bytes[OF _ assms] by simp
  ultimately show ?thesis unfolding jsonQuote_def by (simp only: ascii_bytes bytes_concat[OF w])
qed

lemma string_paid: "accountJsonStringBytes s b = ok b' \<Longrightarrow> utf16 s \<Longrightarrow> paid b (utf8ByteLength (jsonQuote s)) b'"
  unfolding accountJsonStringBytes_def andThen_eq_Inr quote_bytes
  using paid_trans[OF account_paid chars_paid] by blast

text \<open>Bytes of a sequence of texts with the commas between them, after \<open>i\<close> others.\<close>

definition listBytes :: "nat \<Rightarrow> jsstring list \<Rightarrow> nat" where
  "listBytes i ts = sum_list (map utf8ByteLength ts) + (if i > 0 then length ts else length ts - 1)"

lemma listBytes_simps [simp]:
  "listBytes i [] = 0"
  "listBytes i (t # ts) = (if i > 0 then 1 else 0) + utf8ByteLength t + listBytes (Suc i) ts"
  by (simp_all add: listBytes_def)

lemma bytes_bracketed:
  "list_all wellFormed ts \<Longrightarrow> c < 0x80 \<Longrightarrow> d < 0x80 \<Longrightarrow> utf8ByteLength (c # joinWith 44 ts @ [d]) = 2 + listBytes 0 ts"
  using utf8ByteLength_append[OF wellFormed_joinWith, of 44 ts "[d]"]
  by (simp add: ascii_bytes bytes_joinWith listBytes_def unitBytes_def)

lemma literal_bytes [simp]:
  "utf8ByteLength (js ''null'') = 4" "utf8ByteLength (js ''true'') = 4" "utf8ByteLength (js ''false'') = 5"
  by (simp_all add: js_def utf8ByteLength_ascii)

lemma omitted_null: "jsonArrayValueSerializesAsNull v \<Longrightarrow> jsonOmitted v"
  by (cases v) simp_all

abbreviation countedAs :: "NumberFormat \<Rightarrow> jsval \<Rightarrow> JsonBudget \<Rightarrow> JsonBudget \<Rightarrow> bool" where
  "countedAs nf v b b' \<equiv> \<not> jsonOmitted v \<and> stringifyPreflightedJsonValue nf v = ok (jsonText nf v)
     \<and> paid b (utf8ByteLength (jsonText nf v)) b'"

lemma preflight_exact:
  assumes nf: "asciiNumbers nf"
  shows "visitJsonValue nf v b d = ok b' \<Longrightarrow> utf16Val v \<Longrightarrow> countedAs nf v b b'"
    and "visitJsonObject nf v b d = ok b' \<Longrightarrow> utf16Val v \<Longrightarrow> countedAs nf v b b'"
    and "visitJsonArray nf es i b d = ok b' \<Longrightarrow> utf16Elements es \<Longrightarrow>
      stringifyPreflightedJsonArray nf es = ok (elementTexts nf es) \<and> paid b (listBytes i (elementTexts nf es)) b'"
    and "visitJsonRecord nf ps i b d = ok b' \<Longrightarrow> utf16Members ps \<Longrightarrow>
      stringifyPreflightedJsonRecord nf ps = ok (memberTexts nf ps) \<and> paid b (listBytes i (memberTexts nf ps)) b'"
  using nf
proof (induction nf v b d and nf v b d and nf es i b d and nf ps i b d arbitrary: b' and b' and b' and b'
    rule: visitJsonValue_visitJsonObject_visitJsonArray_visitJsonRecord.induct)
  case (1 nf v b d)
  let ?b = "b\<lparr>budgetNodes := budgetNodes b - 1\<rparr>"
  have p: "paid b n b' \<longleftrightarrow> paid ?b n b'" for n by (simp add: paid_def)
  have "\<not> (budgetNodes ?b < 0 \<or> d > MAX_ENCRYPTED_JSON_DEPTH)" using 1(5) by (auto simp: visitJsonValue.simps[of nf v b d] Let_def split: if_splits)
  then show ?case
    using 1 numberText_ascii[OF 1(7)]
    by (cases v) (auto simp: visitJsonValue.simps[of nf _ b d] Let_def p account_paid string_paid utf8ByteLength_ascii
        split: if_splits dest: account_paid)
next
  case (2 nf v b d)
  note t = text_wellFormed(2,3)[OF 2(5)]
  show ?case
  proof (cases v)
    case (Arr es)
    then obtain b1 where b1: "accountJsonBytes b 2 = ok b1" "visitJsonArray nf es 0 b1 d = ok b'" "\<not> length es > MAX_ENCRYPTED_JSON_NODES"
      using 2(3) by (auto simp: visitJsonObject.simps[of nf _ b d] split: if_splits sum.splits)
    have "stringifyPreflightedJsonArray nf es = ok (elementTexts nf es) \<and> paid b1 (listBytes 0 (elementTexts nf es)) b'"
      using 2(1)[OF _ Arr b1(3,1,2) _ 2(5)] 2(4) Arr by simp
    with paid_trans[OF account_paid[OF b1(1)]] show ?thesis using Arr t(1)[of es] 2(4) by (auto simp: bytes_bracketed)
  next
    case (Obj proto ps)
    then obtain b1 where b1: "accountJsonBytes b 2 = ok b1" "visitJsonRecord nf ps 0 b1 d = ok b'"
      "\<not> hasOwnKey v ''toJSON''" "isObject v" "\<not> hasSymbolKey ps"
      using 2(3) by (auto simp: visitJsonObject.simps[of nf _ b d] simp del: isObject.simps hasOwnKey.simps split: if_splits sum.splits)
    have "stringifyPreflightedJsonRecord nf ps = ok (memberTexts nf ps) \<and> paid b1 (listBytes 0 (memberTexts nf ps)) b'"
      using 2(2)[OF b1(3) Obj _ b1(5,1,2) _ 2(5)] 2(4) Obj b1(4) by simp
    with paid_trans[OF account_paid[OF b1(1)]] show ?thesis using Obj b1(4,5) t(2)[of ps] 2(4) by (auto simp: bytes_bracketed)
  qed (use 2(3) in \<open>auto simp: visitJsonObject.simps[of nf _ b d] split: if_splits\<close>)
next
  case (4 nf e v es i b d)
  obtain b1 b2 where b: "accountIf (i > 0) b = ok b1"
    "(if jsonArrayValueSerializesAsNull v then accountJsonBytes b1 4 else visitJsonValue nf v b1 (Suc d)) = ok b2"
    "visitJsonArray nf es (Suc i) b2 d = ok b'"
    using 4(3) by (auto split: sum.splits)
  let ?t = "if jsonOmitted v then js ''null'' else jsonText nf v"
  have t: "(if jsonArrayValueSerializesAsNull v then ok (js ''null'') else stringifyPreflightedJsonValue nf v) = ok ?t"
    "paid b1 (utf8ByteLength ?t) b2"
    using b(2) 4(1)[OF b(1), of b2] 4(4,5) omitted_null[of v] by (auto dest: account_paid split: if_splits)
  have r: "stringifyPreflightedJsonArray nf es = ok (elementTexts nf es) \<and> paid b2 (listBytes (Suc i) (elementTexts nf es)) b'"
    using 4(2)[OF b(1) b(2) b(3)] 4(4,5) by simp
  show ?case using t(1) r paid_trans[OF paid_trans[OF accountIf_paid[OF b(1)] t(2)]] by simp
next
  case (7 nf k e v ps i b d)
  show ?case
  proof (cases "\<not> e \<or> jsonObjectPropertyIsOmitted v")
    case True
    then show ?thesis using 7(1)[OF True] 7(4-6) omitted_null[of v] by auto
  next
    case False
    then obtain b0 b1 b2 b3 where b: "accountIf (i > 0) b = ok b0" "accountJsonStringBytes k b0 = ok b1" "accountJsonBytes b1 1 = ok b2"
      "visitJsonValue nf v b2 (Suc d) = ok b3" "visitJsonRecord nf ps (Suc i) b3 d = ok b'"
      using 7(4) by (auto split: sum.splits)
    have e: "andThen (accountIf (i > 0) b) (\<lambda>budget. andThen (accountJsonStringBytes k budget) (\<lambda>budget. accountJsonBytes budget 1)) = ok b2"
      using b(1-3) by simp
    have v: "countedAs nf v b2 b3" using 7(2)[OF False e b(4)] 7(5,6) by simp
    have r: "stringifyPreflightedJsonRecord nf ps = ok (memberTexts nf ps) \<and> paid b3 (listBytes (Suc i) (memberTexts nf ps)) b'"
      using 7(3)[OF False e b(4,5)] 7(5,6) by simp
    have k: "utf16 k" using 7(5) by simp
    have "utf8ByteLength (jsonQuote k @ 58 # jsonText nf v) = utf8ByteLength (jsonQuote k) + 1 + utf8ByteLength (jsonText nf v)"
      by (simp add: utf8ByteLength_append[OF wellFormed_quote[OF k]] ascii_bytes)
    moreover have "paid b ((if i > 0 then 1 else 0) + utf8ByteLength (jsonQuote k) + 1 + utf8ByteLength (jsonText nf v)
        + listBytes (Suc i) (memberTexts nf ps)) b'"
      using v r by (intro paid_trans[OF paid_trans[OF paid_trans[OF paid_trans[OF accountIf_paid[OF b(1)] string_paid[OF b(2) k]] account_paid[OF b(3)]]]]) auto
    ultimately show ?thesis using False v r by (simp add: add.assoc)
  qed
qed (auto split: if_splits)

section \<open>When the preflight succeeds\<close>

fun sealNodes :: "json \<Rightarrow> nat" where
  "sealNodes (JArr xs) = Suc (sum_list (map sealNodes xs))"
| "sealNodes (JObj kvs) = Suc (sum_list (map (\<lambda>(k, j). sealNodes j) kvs))"
| "sealNodes _ = 1"

fun sealFits :: "nat \<Rightarrow> json \<Rightarrow> bool" where
  "sealFits d (JArr xs) =
     (d \<le> MAX_ENCRYPTED_JSON_DEPTH \<and> length xs \<le> MAX_ENCRYPTED_JSON_NODES \<and> list_all (sealFits (Suc d)) xs)"
| "sealFits d (JObj kvs) =
     (d \<le> MAX_ENCRYPTED_JSON_DEPTH \<and> list_all (\<lambda>(k, j). k \<noteq> js ''toJSON'' \<and> sealFits (Suc d) j) kvs)"
| "sealFits d _ = (d \<le> MAX_ENCRYPTED_JSON_DEPTH)"

abbreviation pay :: "nat \<Rightarrow> nat \<Rightarrow> JsonBudget \<Rightarrow> JsonBudget" where
  "pay nodes n b \<equiv> b\<lparr>remainingBytes := remainingBytes b - int n, budgetNodes := budgetNodes b - int nodes\<rparr>"

definition visitsOk :: "NumberFormat \<Rightarrow> nat \<Rightarrow> json \<Rightarrow> bool" where
  "visitsOk nf d j \<longleftrightarrow> (\<forall>b. int (sealNodes j) \<le> budgetNodes b \<longrightarrow> int (utf8ByteLength (textOf nf j)) \<le> remainingBytes b
     \<longrightarrow> visitJsonValue nf (toVal j) b d = ok (pay (sealNodes j) (utf8ByteLength (textOf nf j)) b))"

lemma chars_ok: "int (sum_list (map jsonCharBytes chs)) \<le> remainingBytes b \<Longrightarrow>
    accountJsonChars chs b = ok (b\<lparr>remainingBytes := remainingBytes b - int (sum_list (map jsonCharBytes chs))\<rparr>)"
proof (induction chs arbitrary: b)
  case (Cons ch chs)
  let ?b = "b\<lparr>remainingBytes := remainingBytes b - int (jsonCharBytes ch)\<rparr>"
  have "accountJsonBytes b (jsonCharBytes ch) = ok ?b" using Cons.prems by (simp add: account_ok)
  with Cons.IH[of ?b] Cons.prems show ?case by (simp add: algebra_simps)
qed simp

lemma string_ok:
  assumes "utf16 s" "int (utf8ByteLength (jsonQuote s)) \<le> remainingBytes b"
  shows "accountJsonStringBytes s b = ok (b\<lparr>remainingBytes := remainingBytes b - int (utf8ByteLength (jsonQuote s))\<rparr>)"
proof -
  let ?n = "sum_list (map jsonCharBytes (strChars s))" and ?b = "b\<lparr>remainingBytes := remainingBytes b - 2\<rparr>"
  have "accountJsonBytes b 2 = ok ?b" using assms by (simp add: account_ok quote_bytes)
  moreover have "accountJsonChars (strChars s) ?b = ok (?b\<lparr>remainingBytes := remainingBytes ?b - int ?n\<rparr>)"
    using assms by (intro chars_ok) (simp add: quote_bytes)
  ultimately show ?thesis using quote_bytes[OF assms(1)] by (simp add: accountJsonStringBytes_def algebra_simps del: andThen_eq_Inr)
qed

lemma accountIf_ok: "int (if c then 1 else 0) \<le> remainingBytes b \<Longrightarrow>
    accountIf c b = ok (b\<lparr>remainingBytes := remainingBytes b - int (if c then 1 else 0)\<rparr>)"
  by (auto simp: account_ok)

lemma null_data [simp]: "\<not> jsonArrayValueSerializesAsNull (toVal j)"
  using omitted_null toVal_kept by blast

lemma elements_visited:
  assumes "list_all (visitsOk nf (Suc d)) xs" "int (sum_list (map sealNodes xs)) \<le> budgetNodes b"
    "int (listBytes i (map (textOf nf) xs)) \<le> remainingBytes b"
  shows "visitJsonArray nf (map (\<lambda>v. Some (DataProp True v)) (map toVal xs)) i b d =
     ok (pay (sum_list (map sealNodes xs)) (listBytes i (map (textOf nf) xs)) b)"
  using assms
proof (induction xs arbitrary: i b)
  case (Cons x xs)
  let ?c = "(if i > 0 then 1 else 0) :: nat" and ?t = "textOf nf x"
  let ?b1 = "b\<lparr>remainingBytes := remainingBytes b - int ?c\<rparr>"
  let ?b2 = "pay (sealNodes x) (utf8ByteLength ?t) ?b1"
  have "accountIf (i > 0) b = ok ?b1" using Cons.prems(3) by (intro accountIf_ok) simp
  moreover have "visitJsonValue nf (toVal x) ?b1 (Suc d) = ok ?b2" using Cons.prems by (simp add: visitsOk_def)
  moreover have "visitJsonArray nf (map (\<lambda>v. Some (DataProp True v)) (map toVal xs)) (Suc i) ?b2 d =
      ok (pay (sum_list (map sealNodes xs)) (listBytes (Suc i) (map (textOf nf) xs)) ?b2)"
    using Cons.prems by (intro Cons.IH) simp_all
  ultimately show ?case by (simp add: algebra_simps)
qed simp

lemma members_visited:
  assumes "list_all (\<lambda>(k, j). utf16 k \<and> visitsOk nf (Suc d) j) kvs" "int (sum_list (map (\<lambda>(k, j). sealNodes j) kvs)) \<le> budgetNodes b"
    "int (listBytes i (map (\<lambda>(k, j). jsonQuote k @ 58 # textOf nf j) kvs)) \<le> remainingBytes b"
  shows "visitJsonRecord nf (map (\<lambda>(k, j). (KStr k, DataProp True (toVal j))) kvs) i b d =
     ok (pay (sum_list (map (\<lambda>(k, j). sealNodes j) kvs)) (listBytes i (map (\<lambda>(k, j). jsonQuote k @ 58 # textOf nf j) kvs)) b)"
  using assms
proof (induction kvs arbitrary: i b)
  case (Cons kx kvs)
  obtain k x where kx: "kx = (k, x)" by (cases kx)
  let ?c = "(if i > 0 then 1 else 0) :: nat" and ?q = "utf8ByteLength (jsonQuote k)"
  have k: "utf16 k" using Cons.prems(1) kx by simp
  have t: "utf8ByteLength (jsonQuote k @ 58 # textOf nf x) = ?q + 1 + utf8ByteLength (textOf nf x)"
    by (simp add: utf8ByteLength_append[OF wellFormed_quote[OF k]] ascii_bytes)
  let ?b0 = "b\<lparr>remainingBytes := remainingBytes b - int ?c\<rparr>"
  let ?b1 = "?b0\<lparr>remainingBytes := remainingBytes ?b0 - int ?q\<rparr>"
  let ?b2 = "?b1\<lparr>remainingBytes := remainingBytes ?b1 - 1\<rparr>"
  let ?b3 = "pay (sealNodes x) (utf8ByteLength (textOf nf x)) ?b2"
  have "accountIf (i > 0) b = ok ?b0" using Cons.prems(3) by (intro accountIf_ok) simp
  moreover have "accountJsonStringBytes k ?b0 = ok ?b1" using Cons.prems(3) kx t by (intro string_ok[OF k]) simp
  moreover have "accountJsonBytes ?b1 1 = ok ?b2" using Cons.prems(3) kx t by (simp add: account_ok)
  moreover have "visitJsonValue nf (toVal x) ?b2 (Suc d) = ok ?b3" using Cons.prems kx t by (simp add: visitsOk_def)
  moreover have "visitJsonRecord nf (map (\<lambda>(k, j). (KStr k, DataProp True (toVal j))) kvs) (Suc i) ?b3 d =
      ok (pay (sum_list (map (\<lambda>(k, j). sealNodes j) kvs)) (listBytes (Suc i) (map (\<lambda>(k, j). jsonQuote k @ 58 # textOf nf j) kvs)) ?b3)"
    using Cons.prems kx t by (intro Cons.IH) simp_all
  ultimately show ?case using kx t by (simp add: algebra_simps)
qed simp

lemma budget_swap: "b\<lparr>budgetNodes := x, remainingBytes := y\<rparr> = b\<lparr>remainingBytes := y, budgetNodes := x\<rparr>"
  by simp

lemma jarr_data: "toVal (JArr xs) = Arr (map (\<lambda>v. Some (DataProp True v)) (map toVal xs))"
  by (simp add: jarr_def)

lemma array_visited:
  assumes "list_all (visitsOk nf (Suc d)) xs" "sealFits d (JArr xs)" "list_all (\<lambda>j. wellFormed (textOf nf j)) xs"
  shows "visitsOk nf d (JArr xs)"
  unfolding visitsOk_def
proof (intro allI impI)
  fix b :: JsonBudget
  let ?ts = "map (textOf nf) xs" and ?n = "sum_list (map sealNodes xs)" and ?b = "pay 1 2 b"
  assume b: "int (sealNodes (JArr xs)) \<le> budgetNodes b" "int (utf8ByteLength (textOf nf (JArr xs))) \<le> remainingBytes b"
  have t: "utf8ByteLength (textOf nf (JArr xs)) = 2 + listBytes 0 ?ts"
    unfolding text_simps using assms(3) by (intro bytes_bracketed) (simp_all add: list_all_iff)
  have v: "visitJsonArray nf (map (\<lambda>v. Some (DataProp True v)) (map toVal xs)) 0 ?b d = ok (pay ?n (listBytes 0 ?ts) ?b)"
    using b t by (intro elements_visited[OF assms(1)]) simp_all
  show "visitJsonValue nf (toVal (JArr xs)) b d = ok (pay (sealNodes (JArr xs)) (utf8ByteLength (textOf nf (JArr xs))) b)"
    unfolding t unfolding jarr_data visitJsonValue.simps[of nf "Arr _"] visitJsonObject.simps[of nf "Arr _"]
    using b t v assms(2) by (simp add: Let_def accountJsonBytes_def budget_swap algebra_simps)
qed

lemma object_visited:
  assumes "list_all (\<lambda>(k, j). utf16 k \<and> visitsOk nf (Suc d) j) kvs" "sealFits d (JObj kvs)" "wellFormed (textOf nf (JObj kvs))"
    "list_all (\<lambda>(k, j). wellFormed (textOf nf j)) kvs"
  shows "visitsOk nf d (JObj kvs)"
  unfolding visitsOk_def
proof (intro allI impI)
  fix b :: JsonBudget
  let ?ts = "map (\<lambda>(k, j). jsonQuote k @ 58 # textOf nf j) kvs" and ?n = "sum_list (map (\<lambda>(k, j). sealNodes j) kvs)" and ?b = "pay 1 2 b"
  let ?ps = "map (\<lambda>(k, j). (KStr k, DataProp True (toVal j))) kvs"
  assume b: "int (sealNodes (JObj kvs)) \<le> budgetNodes b" "int (utf8ByteLength (textOf nf (JObj kvs))) \<le> remainingBytes b"
  have "list_all wellFormed ?ts"
    using assms(1,4) by (fastforce simp: list_all_iff intro!: wellFormed_append wellFormed_quote wellFormed_Cons)
  then have t: "utf8ByteLength (textOf nf (JObj kvs)) = 2 + listBytes 0 ?ts"
    unfolding text_simps by (intro bytes_bracketed) simp_all
  have v: "visitJsonRecord nf ?ps 0 ?b d = ok (pay ?n (listBytes 0 ?ts) ?b)"
    using b t by (intro members_visited[OF assms(1)]) simp_all
  have k: "js ''toJSON'' \<notin> fst ` set kvs" using assms(2) by (fastforce simp: list_all_iff)
  show "visitJsonValue nf (toVal (JObj kvs)) b d = ok (pay (sealNodes (JObj kvs)) (utf8ByteLength (textOf nf (JObj kvs))) b)"
    unfolding t unfolding toVal.simps visitJsonValue.simps[of nf "Obj _ _"] visitJsonObject.simps[of nf "Obj _ _"]
    using b t v assms(2) data_shape[of kvs] data_toJSON[OF k]
    by (simp add: Let_def accountJsonBytes_def budget_swap algebra_simps del: hasOwnKey.simps)
qed

lemma value_visited: "wfJson j \<Longrightarrow> sealFits d j \<Longrightarrow> visitsOk nf d j"
proof (induction j arbitrary: d)
  case (JArr xs)
  then show ?case by (intro array_visited) (auto simp: list_all_iff wellFormed_text)
next
  case (JObj kvs)
  then have "list_all (\<lambda>(k, j). utf16 k \<and> visitsOk nf (Suc d) j) kvs" by (fastforce simp: list_all_iff)
  moreover have "list_all (\<lambda>(k, j). wellFormed (textOf nf j)) kvs"
    using JObj.prems(1) by (auto simp: list_all_iff wellFormed_text split: prod.splits)
  ultimately show ?case using JObj.prems wellFormed_text[OF JObj.prems(1)] by (intro object_visited)
next
  case (JInt i)
  then show ?case
    using intText_ascii[of i]
    by (simp add: visitsOk_def visitJsonValue.simps Let_def numberText_safe utf8ByteLength_ascii accountJsonBytes_def)
next
  case (JStr s)
  then show ?case by (simp add: visitsOk_def visitJsonValue.simps Let_def string_ok)
qed (auto simp: visitsOk_def visitJsonValue.simps Let_def accountJsonBytes_def)

section \<open>The text that is sealed\<close>

lemma bounds_exact:
  assumes "asciiNumbers nf" "utf16Val v" "assertJsonValueWithinEncryptionBounds nf v = ok b"
  shows "\<not> jsonOmitted v" "stringifyPreflightedJsonValue nf v = ok (jsonText nf v)"
    "remainingBytes b = int MAX_ENCRYPTED_JSON_PLAINTEXT_BYTES - int (utf8ByteLength (jsonText nf v))"
    "utf8ByteLength (jsonText nf v) \<le> MAX_ENCRYPTED_JSON_PLAINTEXT_BYTES"
  using preflight_exact(1)[OF assms(1) assms(3)[unfolded assertJsonValueWithinEncryptionBounds_def] assms(2)]
  by (auto simp: paid_def)

lemma length_text_bytes: "asciiNumbers nf \<Longrightarrow> utf16Val v \<Longrightarrow> length (utf8Encode (jsonText nf v)) = utf8ByteLength (jsonText nf v)"
  using length_utf8Encode wellFormed_units text_wellFormed(1) by blast

lemma sealed_eq:
  assumes "asciiNumbers nf" "utf16Val v"
  shows "stringifySealedJsonValue nf v = andThen (assertJsonValueWithinEncryptionBounds nf v) (\<lambda>_. ok (jsonText nf v))"
proof (cases "assertJsonValueWithinEncryptionBounds nf v")
  case (Inr b)
  note e = bounds_exact[OF assms Inr]
  show ?thesis using e(2,4) length_text_bytes[OF assms] Inr by (simp add: stringifySealedJsonValue_def)
qed (simp add: stringifySealedJsonValue_def)

lemma data_sealed:
  assumes "wfJson j" "sealFits 0 j" "sealNodes j \<le> MAX_ENCRYPTED_JSON_NODES"
    "utf8ByteLength (textOf nf j) \<le> MAX_ENCRYPTED_JSON_PLAINTEXT_BYTES"
  shows "\<exists>b. assertJsonValueWithinEncryptionBounds nf (toVal j) = ok b"
  using value_visited[OF assms(1,2), of nf] assms(3,4)
  by (auto simp: visitsOk_def assertJsonValueWithinEncryptionBounds_def)

section \<open>Padded wrappers\<close>

abbreviation wrapper :: "string \<Rightarrow> string \<Rightarrow> jsval \<Rightarrow> jsstring \<Rightarrow> jsval" where
  "wrapper tag field v pad \<equiv> jobj [(''t'', Str (js tag)), (field, v), (''pad'', Str pad)]"

lemma visit_last_member:
  "visitJsonRecord nf (ps @ [(KStr k, DataProp True (Str p))]) i b d =
     andThen (visitJsonRecord nf (ps @ [(KStr k, DataProp True (Str []))]) i b d) (accountJsonChars (strChars p))"
proof (induction ps arbitrary: i b)
  case Nil
  have s: "accountJsonStringBytes p b = andThen (accountJsonStringBytes [] b) (accountJsonChars (strChars p))" for b
    by (simp add: accountJsonStringBytes_def andThen_def split: sum.splits)
  show ?case by (auto simp: visitJsonValue.simps Let_def s andThen_def split: sum.splits)
next
  case (Cons x ps)
  obtain key desc where x: "x = (key, desc)" by (cases x)
  show ?case
  proof (cases key)
    case (KStr n)
    with Cons x show ?thesis by (cases desc) (auto simp: andThen_def split: sum.splits)
  next
    case (KSym n)
    with Cons x show ?thesis by simp
  qed
qed

lemma visit_wrapper:
  "visitJsonValue nf (wrapper tag field v p) b d = andThen (visitJsonValue nf (wrapper tag field v []) b d) (accountJsonChars (strChars p))"
proof -
  let ?ps = "[(KStr (js ''t''), DataProp True (Str (js tag))), (KStr (js field), DataProp True v)]"
  have w: "wrapper tag field v q = Obj ObjectPrototype (?ps @ [(KStr (js ''pad''), DataProp True (Str q))])" for q by (simp add: jobj_def)
  have o: "hasOnlyDataProperties (?ps @ [(KStr (js ''pad''), DataProp True (Str q))])"
    "\<not> hasSymbolKey (?ps @ [(KStr (js ''pad''), DataProp True (Str q))])"
    "hasOwnKey (Obj ObjectPrototype (?ps @ [(KStr (js ''pad''), DataProp True (Str q))])) ''toJSON'' \<longleftrightarrow> field = ''toJSON''" for q
    by (auto simp: hasOnlyDataProperties_def hasSymbolKey_def)
  show ?thesis
    unfolding w visitJsonValue.simps[of nf "Obj _ _"] visitJsonObject.simps[of nf "Obj _ _"]
    by (auto simp: Let_def o visit_last_member[of nf _ _ p] simp del: visitJsonRecord.simps append.simps hasOwnKey.simps split: sum.splits)
qed

lemma quote_pad: "jsonQuote (replicate n 65) = 34 # replicate n 65 @ [34]"
proof -
  have "strChars (replicate n 65) = replicate n [65]"
  proof (induction n)
    case (Suc n) then show ?case by (cases n) (auto simp: isHighSurrogate_def)
  qed simp
  moreover have "concat (replicate n [65]) = replicate n (65::nat)" by (induction n) simp_all
  ultimately show ?thesis by (simp add: jsonQuote_def jsonEscape_def escapeLetter_def map_replicate_const)
qed

lemma utf16_js [simp]: "utf16 (js s)"
proof -
  have "of_char c < (65536 :: nat)" for c by (rule less_trans[OF nat_of_char_less_256]) simp
  then show ?thesis by (simp add: utf16_def js_def list_all_iff)
qed

lemma wrapper_utf16: "utf16Val (wrapper tag field v p) \<longleftrightarrow> utf16Val v \<and> utf16 p"
  by (auto simp: jobj_def)

lemma wrapper_bytes:
  assumes "asciiNumbers nf" "utf16Val v"
  shows "utf8ByteLength (jsonText nf (wrapper tag field v (replicate n 65))) = utf8ByteLength (jsonText nf (wrapper tag field v [])) + n"
proof -
  let ?m = "\<lambda>p. memberTexts nf [(KStr (js ''t''), DataProp True (Str (js tag))), (KStr (js field), DataProp True v), (KStr (js ''pad''), DataProp True (Str p))]"
  have w: "list_all wellFormed (?m p)" if "utf16 p" for p
    by (rule text_wellFormed(3)[OF assms(1)]) (simp add: assms(2) that)
  have u: "utf16 (replicate n 65)" "utf16 []" by (simp_all add: utf16_def list_all_iff)
  have "list_all (\<lambda>c. c < 0x80) (jsonQuote (replicate n 65))" "jsonQuote [] = [34, 34]"
    using quote_pad[of 0] by (simp_all add: quote_pad list_all_iff)
  then have p: "utf8ByteLength (jsonQuote (replicate n 65)) = utf8ByteLength (jsonQuote []) + n"
    by (simp add: utf8ByteLength_ascii quote_pad)
  have "utf8ByteLength (jsonQuote (js ''pad'') @ 58 # jsonQuote q) = utf8ByteLength (jsonQuote (js ''pad'')) + 1 + utf8ByteLength (jsonQuote q)" for q
    by (simp add: utf8ByteLength_append[OF wellFormed_quote] ascii_bytes)
  then have "listBytes 0 (?m (replicate n 65)) = listBytes 0 (?m []) + n" using p by simp
  then have "utf8ByteLength (123 # joinWith 44 (?m (replicate n 65)) @ [125]) = utf8ByteLength (123 # joinWith 44 (?m []) @ [125]) + n"
    using bytes_bracketed[OF w[OF u(1)], of 123 125] bytes_bracketed[OF w[OF u(2)], of 123 125] by simp
  then show ?thesis by (simp add: jobj_def)
qed

lemma padding_target:
  assumes "manifestPaddingTargetBytes n = ok t"
  shows "n \<le> t" "t \<le> MAX_ENCRYPTED_JSON_PLAINTEXT_BYTES" "4096 dvd t \<or> t = MAX_ENCRYPTED_JSON_PLAINTEXT_BYTES" "0 < t"
proof -
  let ?b = "(n + 4095) div 4096 * 4096"
  have t: "n \<le> MAX_ENCRYPTED_JSON_PLAINTEXT_BYTES" "t = min (max ?b 4096) MAX_ENCRYPTED_JSON_PLAINTEXT_BYTES"
    using assms by (auto simp: manifestPaddingTargetBytes_def MANIFEST_PADDING_BUCKET_BYTES_def Let_def split: if_splits)
  have "n \<le> ?b" by linarith
  with t show "n \<le> t" "t \<le> MAX_ENCRYPTED_JSON_PLAINTEXT_BYTES" "4096 dvd t \<or> t = MAX_ENCRYPTED_JSON_PLAINTEXT_BYTES" "0 < t"
    by (auto simp: min_def max_def limit_defs)
qed

lemma signal_padding: "signalPaddingTargetBytes = manifestPaddingTargetBytes"
  by (simp add: fun_eq_iff signalPaddingTargetBytes_def manifestPaddingTargetBytes_def SIGNAL_PADDING_BUCKET_BYTES_def MANIFEST_PADDING_BUCKET_BYTES_def)

text \<open>The padded wrapper passes the preflight again, and its text has the target size.\<close>

lemma padded_accepted:
  assumes "asciiNumbers nf" "utf16Val v" "stringifySealedJsonValue nf (wrapper tag field v []) = ok base"
    "manifestPaddingTargetBytes (length (utf8Encode base)) = ok target"
  defines "w \<equiv> wrapper tag field v (replicate (target - length (utf8Encode base)) 65)"
  shows "stringifySealedJsonValue nf w = ok (jsonText nf w)" "utf8ByteLength (jsonText nf w) = target" "utf16Val w"
proof -
  let ?w0 = "wrapper tag field v []" and ?n = "target - length (utf8Encode base)"
  have u: "utf16Val ?w0" "utf16Val w" using assms(2) unfolding w_def wrapper_utf16 by (simp_all add: utf16_def list_all_iff)
  obtain b where b: "assertJsonValueWithinEncryptionBounds nf ?w0 = ok b" and base: "base = jsonText nf ?w0"
    using assms(3) unfolding sealed_eq[OF assms(1) u(1)] by auto
  note e = bounds_exact[OF assms(1) u(1) b]
  have l: "length (utf8Encode base) = utf8ByteLength (jsonText nf ?w0)" unfolding base by (rule length_text_bytes[OF assms(1) u(1)])
  note t = padding_target[OF assms(4)]
  show bytes: "utf8ByteLength (jsonText nf w) = target"
    unfolding w_def wrapper_bytes[OF assms(1,2)] using t(1) l by simp
  have "sum_list (map jsonCharBytes (strChars (replicate ?n 65))) = ?n"
    using quote_bytes[of "replicate ?n 65"] quote_pad[of ?n] utf8ByteLength_ascii[of "34 # replicate ?n 65 @ [34]"]
    by (simp add: utf16_def list_all_iff)
  then have "\<exists>b'. accountJsonChars (strChars (replicate ?n 65)) b = ok b'"
    using chars_ok[of "strChars (replicate ?n 65)" b] e(3,4) t(1,2) l by auto
  then have "\<exists>b'. assertJsonValueWithinEncryptionBounds nf w = ok b'"
    using b unfolding assertJsonValueWithinEncryptionBounds_def w_def visit_wrapper[of nf tag field v "replicate ?n 65"] by simp
  then show "stringifySealedJsonValue nf w = ok (jsonText nf w)" unfolding sealed_eq[OF assms(1) u(2)] by auto
  show "utf16Val w" by (rule u(2))
qed

end
