(* ===== verification/Sealing.thy ===== *)
theory Sealing
  imports SealedJson
begin

text \<open>
  Sealing and opening of payloads, \<open>src/src/shared/security.ts\<close>: AES-GCM over JSON texts and file
  chunks, the session keys and their destruction. WebCrypto, the hash library and CPace are not
  part of the repository; they are the fields of a \<open>Crypto\<close> record, and what the program relies
  on is stated as predicates on it. A random nonce is an argument of the operation that draws it.
\<close>

type_synonym bytes = "8 word list"

section \<open>Parameters\<close>

text \<open>\<open>aesGcmEncrypt key iv additionalData plaintext\<close> appends the tag to the ciphertext;
  \<open>aesGcmDecrypt\<close> rejects when the tag does not match. \<open>hkdfSha256 ikm salt info length\<close>.
  \<open>cpaceInit entropy PRS sid CI\<close> gives the secret scalar and the public share;
  \<open>cpaceDerive initiator ephemeralSecret ownShare peerShare ownAD peerAD sid\<close> throws on an invalid
  share.\<close>

record Crypto =
  aesGcmEncrypt :: "bytes \<Rightarrow> bytes \<Rightarrow> bytes \<Rightarrow> bytes \<Rightarrow> bytes"
  aesGcmDecrypt :: "bytes \<Rightarrow> bytes \<Rightarrow> bytes \<Rightarrow> bytes \<Rightarrow> bytes option"
  hkdfSha256 :: "bytes \<Rightarrow> bytes \<Rightarrow> bytes \<Rightarrow> nat \<Rightarrow> bytes"
  hmacSha256 :: "bytes \<Rightarrow> bytes \<Rightarrow> bytes"
  sha256 :: "bytes \<Rightarrow> bytes"
  cpaceInit :: "bytes \<Rightarrow> bytes \<Rightarrow> bytes \<Rightarrow> bytes \<Rightarrow> bytes \<times> bytes"
  cpaceDerive :: "bool \<Rightarrow> bytes \<Rightarrow> bytes \<Rightarrow> bytes \<Rightarrow> bytes \<Rightarrow> bytes \<Rightarrow> bytes \<Rightarrow> bytes option"

text \<open>AES-GCM: the ciphertext is 16 bytes longer than the plaintext, and exactly the encryption
  of a plaintext decrypts to it.\<close>

definition aeadLaws :: "Crypto \<Rightarrow> bool" where
  "aeadLaws C \<longleftrightarrow>
     (\<forall>k iv aad p. length (aesGcmEncrypt C k iv aad p) = length p + 16)
     \<and> (\<forall>k iv aad p c. aesGcmDecrypt C k iv aad c = Some p \<longleftrightarrow> c = aesGcmEncrypt C k iv aad p)"

definition hashLaws :: "Crypto \<Rightarrow> bool" where
  "hashLaws C \<longleftrightarrow>
     (\<forall>k m. length (hmacSha256 C k m) = 32) \<and> (\<forall>m. length (sha256 C m) = 32)
     \<and> (\<forall>ikm salt info n. length (hkdfSha256 C ikm salt info n) = n)"

section \<open>Keys\<close>

datatype KeyUsage = Encrypt | Decrypt

record CryptoKey =
  keyBytes :: bytes
  keyUsages :: "KeyUsage list"

definition importAesKey :: "bytes \<Rightarrow> KeyUsage list \<Rightarrow> CryptoKey" where
  "importAesKey raw usages = \<lparr>keyBytes = raw, keyUsages = usages\<rparr>"

text \<open>\<open>crypto.subtle.encrypt\<close> and \<open>crypto.subtle.decrypt\<close> with a key of the wrong usage reject.\<close>

definition subtleEncrypt :: "Crypto \<Rightarrow> CryptoKey \<Rightarrow> bytes \<Rightarrow> bytes \<Rightarrow> bytes \<Rightarrow> bytes res" where
  "subtleEncrypt C key iv aad plaintext =
     (if Encrypt \<in> set (keyUsages key) then ok (aesGcmEncrypt C (keyBytes key) iv aad plaintext) else throw ''InvalidAccessError'')"

definition subtleDecrypt :: "Crypto \<Rightarrow> CryptoKey \<Rightarrow> bytes \<Rightarrow> bytes \<Rightarrow> bytes \<Rightarrow> bytes res" where
  "subtleDecrypt C key iv aad ciphertext =
     (if Decrypt \<in> set (keyUsages key) then
        (case aesGcmDecrypt C (keyBytes key) iv aad ciphertext of None \<Rightarrow> throw ''OperationError'' | Some p \<Rightarrow> ok p)
      else throw ''InvalidAccessError'')"

text \<open>The session keys object. A field holds the own data property of that name (\<open>Undefined\<close>
  or \<open>None\<close> when there is none); a key field is \<open>Some\<close> for an instance of \<open>CryptoKey\<close>.\<close>

record SessionKeys =
  keysSid :: jsval
  keysRole :: jsval
  keysVersion :: jsval
  keysSas :: jsval
  keysDestroyed :: jsval
  keysSignalAuthKey :: jsval
  keysManifestKey :: "CryptoKey option"
  keysControlSendKey :: "CryptoKey option"
  keysControlRecvKey :: "CryptoKey option"
  keysBulkSendKey :: "CryptoKey option"
  keysBulkRecvKey :: "CryptoKey option"

record ActiveAeadSessionKeys =
  activeSid :: jsstring
  manifestKey :: CryptoKey
  controlSendKey :: CryptoKey
  controlRecvKey :: CryptoKey
  bulkSendKey :: CryptoKey
  bulkRecvKey :: CryptoKey

definition MAX_PAKE_CONTEXT_CHARS :: nat where [limit_defs]: "MAX_PAKE_CONTEXT_CHARS = 256"

fun assertPakeSid :: "jsval \<Rightarrow> jsstring res" where
  "assertPakeSid (Str sid) =
     (if length sid = 0 \<or> length sid > MAX_PAKE_CONTEXT_CHARS \<or> \<not> list_all (\<lambda>c. isAlnum c \<or> c = 95 \<or> c = 45) sid
      then throw ''PAKE session id is invalid.'' else ok sid)"
| "assertPakeSid _ = throw ''PAKE session id is invalid.''"

fun assertCryptoKey :: "CryptoKey option \<Rightarrow> CryptoKey res" where
  "assertCryptoKey (Some key) = ok key"
| "assertCryptoKey None = throw ''Session keys have been wiped.''"

definition activeSessionKeys :: "SessionKeys option \<Rightarrow> ActiveAeadSessionKeys res" where
  "activeSessionKeys keys =
     (case keys of
        None \<Rightarrow> throw ''Session keys have been wiped.''
      | Some keys \<Rightarrow>
          if keysDestroyed keys \<noteq> Boolean False then throw ''Session keys have been wiped.''
          else andThen (assertPakeSid (keysSid keys)) (\<lambda>sid.
            andThen (assertCryptoKey (keysManifestKey keys)) (\<lambda>mk.
            andThen (assertCryptoKey (keysControlSendKey keys)) (\<lambda>cs.
            andThen (assertCryptoKey (keysControlRecvKey keys)) (\<lambda>cr.
            andThen (assertCryptoKey (keysBulkSendKey keys)) (\<lambda>bs.
            andThen (assertCryptoKey (keysBulkRecvKey keys)) (\<lambda>br.
              ok \<lparr>activeSid = sid, manifestKey = mk, controlSendKey = cs, controlRecvKey = cr, bulkSendKey = bs, bulkRecvKey = br\<rparr>)))))))"

text \<open>\<open>fillOwnBytes\<close> on a property that holds a byte array.\<close>

fun zeroed :: "jsval \<Rightarrow> jsval" where
  "zeroed (Uint8Array canonical bs) = Uint8Array canonical (replicate (length bs) 0)"
| "zeroed v = v"

definition wipeSessionKeys :: "SessionKeys option \<Rightarrow> SessionKeys option" where
  "wipeSessionKeys keys =
     (case keys of
        None \<Rightarrow> None
      | Some keys \<Rightarrow>
          if keysDestroyed keys = Boolean True then Some keys
          else Some (keys\<lparr>keysSignalAuthKey := zeroed (keysSignalAuthKey keys),
                 keysManifestKey := None, keysControlSendKey := None, keysControlRecvKey := None,
                 keysBulkSendKey := None, keysBulkRecvKey := None, keysDestroyed := Boolean True\<rparr>))"

section \<open>Sealed JSON\<close>

definition sealJson :: "Crypto \<Rightarrow> NumberFormat \<Rightarrow> bytes \<Rightarrow> CryptoKey \<Rightarrow> jsval \<Rightarrow> bytes \<Rightarrow> jsstring res" where
  "sealJson C nf nonce key value aad =
     andThen (stringifySealedJsonValue nf value) (\<lambda>serialized.
       let plaintext = utf8Encode serialized;
           sealedByteLength = length nonce + length plaintext + AES_GCM_TAG_BYTES in
       if base64EncodedLength sealedByteLength > ENCRYPTED_JSON_MAX_CHARS then throw payloadTooLarge
       else andThen (subtleEncrypt C key nonce aad plaintext) (\<lambda>ciphertext.
         andThen (bytesToBase64 (Uint8Array True (nonce @ ciphertext))) (\<lambda>encoded.
           if length encoded > ENCRYPTED_JSON_MAX_CHARS then throw payloadTooLarge else ok encoded)))"

definition openJson :: "Crypto \<Rightarrow> NumberFormat \<Rightarrow> CryptoKey \<Rightarrow> jsval \<Rightarrow> bytes \<Rightarrow> jsval res" where
  "openJson C nf key sealed aad =
     (case sealed of
        Str s \<Rightarrow>
          if length s > ENCRYPTED_JSON_MAX_CHARS then throw payloadTooLarge
          else andThen (base64ToBytes (Str s)) (\<lambda>raw.
            if length raw < 13 then throw ''Encrypted payload is too small.''
            else case subtleDecrypt C key (take 12 raw) aad (drop 12 raw) of
              Inl _ \<Rightarrow> throw ''Encrypted payload decrypt failed.''
            | Inr plaintext \<Rightarrow>
                (case Option.bind (fatalUtf8 plaintext) (jsonParse nf) of
                   None \<Rightarrow> throw ''Encrypted payload is not valid JSON.''
                 | Some v \<Rightarrow> ok v))
      | _ \<Rightarrow> throw ''Encrypted payload must be a text frame.'')"

definition manifestAad :: "jsstring \<Rightarrow> bytes" where
  "manifestAad sid = utf8Encode (js ''manifest:'' @ sid)"

definition controlAad :: "jsstring \<Rightarrow> bytes" where
  "controlAad sid = utf8Encode (js ''control:'' @ sid)"

definition sealManifest :: "Crypto \<Rightarrow> NumberFormat \<Rightarrow> bytes \<Rightarrow> SessionKeys option \<Rightarrow> jsval \<Rightarrow> jsstring res" where
  "sealManifest C nf nonce keys manifest =
     andThen (activeSessionKeys keys) (\<lambda>active.
     andThen (paddedManifestWrapper nf manifest) (\<lambda>w.
       sealJson C nf nonce (manifestKey active) w (manifestAad (activeSid active))))"

fun isStr :: "jsval \<Rightarrow> bool" where
  "isStr (Str _) = True"
| "isStr _ = False"

text \<open>The checks that \<open>openManifest\<close> and \<open>openSignal\<close> share.\<close>

definition openWrapper :: "string \<Rightarrow> string \<Rightarrow> string \<Rightarrow> jsval \<Rightarrow> jsval res" where
  "openWrapper tag field message opened =
     (if \<not> isObject opened \<or> \<not> hasOnlyKeys opened [''t'', field, ''pad''] \<or> ownDataValue opened ''t'' \<noteq> Str (js tag)
         \<or> \<not> hasOwnKey opened field \<or> (hasOwnKey opened ''pad'' \<and> \<not> isStr (ownDataValue opened ''pad''))
      then throw message else ok (ownDataValue opened field))"

definition openManifest :: "Crypto \<Rightarrow> NumberFormat \<Rightarrow> SessionKeys option \<Rightarrow> jsval \<Rightarrow> jsval res" where
  "openManifest C nf keys sealed =
     andThen (activeSessionKeys keys) (\<lambda>active.
     andThen (openJson C nf (manifestKey active) sealed (manifestAad (activeSid active)))
       (openWrapper ''pair-manifest'' ''manifest'' ''Encrypted manifest wrapper is invalid.''))"

definition sealControl :: "Crypto \<Rightarrow> NumberFormat \<Rightarrow> bytes \<Rightarrow> SessionKeys option \<Rightarrow> jsval \<Rightarrow> jsstring res" where
  "sealControl C nf nonce keys message =
     andThen (activeSessionKeys keys) (\<lambda>active.
       sealJson C nf nonce (controlSendKey active) message (controlAad (activeSid active)))"

definition openControl :: "Crypto \<Rightarrow> NumberFormat \<Rightarrow> SessionKeys option \<Rightarrow> jsval \<Rightarrow> jsval res" where
  "openControl C nf keys sealed =
     andThen (activeSessionKeys keys) (\<lambda>active.
       openJson C nf (controlRecvKey active) sealed (controlAad (activeSid active)))"

section \<open>Sealed chunks\<close>

definition MAX_BULK_SEALED_BYTES :: nat where [limit_defs]: "MAX_BULK_SEALED_BYTES = CHUNK_SIZE + AES_GCM_TAG_BYTES"

definition assertChunkAddress :: "jsnum \<Rightarrow> jsnum \<Rightarrow> unit res" where
  "assertChunkAddress fid seq =
     (if \<not> integerIn fid 0 255 then throw ''fileId must fit in uint8''
      else if \<not> integerIn seq 0 0xffffffff then throw ''chunkSeq must fit in uint32''
      else ok ())"

definition binaryPayloadByteLength :: "jsval \<Rightarrow> nat res" where
  "binaryPayloadByteLength value = canonicalUint8ArrayByteLength value ''Bulk payload must be binary.''"

definition chunkNonce :: "nat \<Rightarrow> nat \<Rightarrow> bytes" where
  "chunkNonce fid seq = uint8Bytes fid @ replicate 7 0 @ uint32Bytes seq"

definition chunkAad :: "nat \<Rightarrow> nat \<Rightarrow> bytes" where
  "chunkAad fid seq = uint8Bytes fid @ uint32Bytes seq"

definition sealBulk :: "Crypto \<Rightarrow> SessionKeys option \<Rightarrow> jsnum \<Rightarrow> jsnum \<Rightarrow> jsval \<Rightarrow> bytes res" where
  "sealBulk C keys fid seq data =
     andThen (activeSessionKeys keys) (\<lambda>active.
     andThen (assertChunkAddress fid seq) (\<lambda>_.
     andThen (binaryPayloadByteLength data) (\<lambda>n.
       if n > CHUNK_SIZE then throw ''Bulk payload exceeds maximum chunk size.''
       else subtleEncrypt C (bulkSendKey active) (chunkNonce (numNat fid) (numNat seq))
              (chunkAad (numNat fid) (numNat seq)) (bytesOf data))))"

definition openBulk :: "Crypto \<Rightarrow> SessionKeys option \<Rightarrow> jsnum \<Rightarrow> jsnum \<Rightarrow> jsval \<Rightarrow> bytes res" where
  "openBulk C keys fid seq sealedPayload =
     andThen (activeSessionKeys keys) (\<lambda>active.
     andThen (assertChunkAddress fid seq) (\<lambda>_.
     andThen (binaryPayloadByteLength sealedPayload) (\<lambda>n.
       if n > MAX_BULK_SEALED_BYTES then throw ''Encrypted bulk payload exceeds maximum chunk size.''
       else case subtleDecrypt C (bulkRecvKey active) (chunkNonce (numNat fid) (numNat seq))
              (chunkAad (numNat fid) (numNat seq)) (bytesOf sealedPayload) of
            Inl _ \<Rightarrow> throw ''Encrypted bulk chunk decrypt failed.''
          | Inr plaintext \<Rightarrow> ok plaintext)))"

section \<open>Keys that belong together\<close>

definition pairedKey :: "CryptoKey \<Rightarrow> CryptoKey \<Rightarrow> bool" where
  "pairedKey s r \<longleftrightarrow> keyBytes s = keyBytes r \<and> Encrypt \<in> set (keyUsages s) \<and> Decrypt \<in> set (keyUsages r)"

text \<open>The keys of a sender and of its receiver: the manifest travels one way, control messages
  and chunks both ways.\<close>

definition matchedKeys :: "SessionKeys option \<Rightarrow> SessionKeys option \<Rightarrow> bool" where
  "matchedKeys s r \<longleftrightarrow>
     (case (activeSessionKeys s, activeSessionKeys r) of
        (Inr a, Inr b) \<Rightarrow>
          activeSid a = activeSid b \<and> pairedKey (manifestKey a) (manifestKey b)
          \<and> pairedKey (controlSendKey a) (controlRecvKey b) \<and> pairedKey (controlSendKey b) (controlRecvKey a)
          \<and> pairedKey (bulkSendKey a) (bulkRecvKey b) \<and> pairedKey (bulkSendKey b) (bulkRecvKey a)
      | _ \<Rightarrow> False)"

lemma matchedE:
  assumes "matchedKeys s r"
  obtains a b where "activeSessionKeys s = ok a" "activeSessionKeys r = ok b" "activeSid a = activeSid b"
    "pairedKey (manifestKey a) (manifestKey b)" "pairedKey (controlSendKey a) (controlRecvKey b)"
    "pairedKey (controlSendKey b) (controlRecvKey a)" "pairedKey (bulkSendKey a) (bulkRecvKey b)"
    "pairedKey (bulkSendKey b) (bulkRecvKey a)"
  using assms by (auto simp: matchedKeys_def split: sum.splits)

section \<open>Opening what was sealed\<close>

lemma aeadD:
  assumes "aeadLaws C"
  shows "length (aesGcmEncrypt C k iv aad p) = length p + 16"
    "aesGcmDecrypt C k iv aad c = Some p \<longleftrightarrow> c = aesGcmEncrypt C k iv aad p"
  using assms by (auto simp: aeadLaws_def)

lemma subtle_inverse:
  assumes "aeadLaws C" "pairedKey s r"
  shows "subtleDecrypt C r iv aad c = ok p \<longleftrightarrow> subtleEncrypt C s iv aad p = ok c"
proof -
  have "subtleDecrypt C r iv aad c = ok p \<longleftrightarrow> aesGcmDecrypt C (keyBytes r) iv aad c = Some p"
    using assms(2) by (auto simp: subtleDecrypt_def pairedKey_def split: option.splits)
  also have "\<dots> \<longleftrightarrow> subtleEncrypt C s iv aad p = ok c"
    unfolding aeadD(2)[OF assms(1)] using assms(2) by (auto simp: subtleEncrypt_def pairedKey_def)
  finally show ?thesis .
qed

lemma seal_ok:
  assumes "aeadLaws C" "asciiNumbers nf" "utf16Val v" "stringifySealedJsonValue nf v = ok t" "length nonce = 12"
    "subtleEncrypt C key nonce aad (utf8Encode t) = ok c"
  shows "sealJson C nf nonce key v aad = ok (base64Encode (nonce @ c))"
    "length (base64Encode (nonce @ c)) = base64EncodedLength (28 + utf8ByteLength t)"
    "length (base64Encode (nonce @ c)) \<le> ENCRYPTED_JSON_MAX_CHARS"
proof -
  obtain b where b: "assertJsonValueWithinEncryptionBounds nf v = ok b" and t: "t = jsonText nf v"
    using assms(4) unfolding sealed_eq[OF assms(2,3)] by auto
  have l: "length (utf8Encode t) = utf8ByteLength t" unfolding t by (rule length_text_bytes[OF assms(2,3)])
  have m: "utf8ByteLength t \<le> MAX_ENCRYPTED_JSON_PLAINTEXT_BYTES" using bounds_exact(4)[OF assms(2,3) b] t by simp
  have c: "length c = utf8ByteLength t + 16" using assms(6) aeadD(1)[OF assms(1)] l by (auto simp: subtleEncrypt_def split: if_splits)
  then show e: "length (base64Encode (nonce @ c)) = base64EncodedLength (28 + utf8ByteLength t)"
    using assms(5) by (simp add: length_base64Encode add_ac)
  have "utf8ByteLength t \<le> 147428" using m by (simp add: limit_defs)
  then have "(28 + utf8ByteLength t + 2) div 3 \<le> 147458 div 3" by (intro div_le_mono) simp
  then have "base64EncodedLength (28 + utf8ByteLength t) \<le> 196608" by (simp add: base64EncodedLength_def)
  then show f: "length (base64Encode (nonce @ c)) \<le> ENCRYPTED_JSON_MAX_CHARS" using e by (simp add: limit_defs)
  show "sealJson C nf nonce key v aad = ok (base64Encode (nonce @ c))"
    using assms(4-6) e f l by (simp add: sealJson_def Let_def bytesToBase64_def AES_GCM_TAG_BYTES_def add_ac)
qed

lemma base64_back: "bs \<noteq> [] \<Longrightarrow> length (base64Encode bs) \<le> ENCRYPTED_JSON_MAX_CHARS \<Longrightarrow> base64ToBytes (Str (base64Encode bs)) = ok bs"
  by (simp add: isCanonicalBase64_def)

text \<open>The opener accepts exactly the sealed payloads: a text opens to a value if and only if it is
  the encoding of a nonce and of the encryption of UTF-8 bytes that parse to the value.\<close>

lemma open_iff:
  assumes "aeadLaws C" "pairedKey s r"
  shows "openJson C nf r (Str t) aad = ok v \<longleftrightarrow>
    (\<exists>nonce p c. length nonce = 12 \<and> subtleEncrypt C s nonce aad p = ok c \<and> t = base64Encode (nonce @ c)
      \<and> length t \<le> ENCRYPTED_JSON_MAX_CHARS \<and> Option.bind (fatalUtf8 p) (jsonParse nf) = Some v)"
    (is "?l \<longleftrightarrow> (\<exists>nonce p c. ?r nonce p c)")
proof
  assume ?l
  then obtain raw p where o: "length t \<le> ENCRYPTED_JSON_MAX_CHARS" "base64ToBytes (Str t) = ok raw" "\<not> length raw < 13"
    "subtleDecrypt C r (take 12 raw) aad (drop 12 raw) = ok p" "Option.bind (fatalUtf8 p) (jsonParse nf) = Some v"
    by (auto simp: openJson_def split: if_splits sum.splits option.splits simp del: base64ToBytes.simps)
  have "t = base64Encode raw" using o(2) by (auto simp: isCanonicalBase64_def base64Encode_Decode split: if_splits)
  with o have "?r (take 12 raw) p (drop 12 raw)" using subtle_inverse[OF assms] by simp
  then show "\<exists>nonce p c. ?r nonce p c" by blast
next
  assume "\<exists>nonce p c. ?r nonce p c"
  then obtain nonce p c where x: "?r nonce p c" by blast
  have "length c = length p + 16" using x aeadD(1)[OF assms(1)] by (auto simp: subtleEncrypt_def split: if_splits)
  with x have ne: "nonce @ c \<noteq> []" "\<not> length (nonce @ c) < 13" by auto
  then have "base64ToBytes (Str t) = ok (nonce @ c)" using x base64_back[OF ne(1)] by blast
  moreover have "subtleDecrypt C r nonce aad c = ok p" using x subtle_inverse[OF assms] by blast
  ultimately show ?l using x ne(2) by (auto simp: openJson_def simp del: base64ToBytes.simps)
qed

lemma open_data:
  assumes "aeadLaws C" "pairedKey s r" "wfJson j" "length nonce = 12"
    "subtleEncrypt C s nonce aad (utf8Encode (textOf nf j)) = ok c" "length (base64Encode (nonce @ c)) \<le> ENCRYPTED_JSON_MAX_CHARS"
  shows "openJson C nf r (Str (base64Encode (nonce @ c))) aad = ok (toVal j)"
  unfolding open_iff[OF assms(1,2)]
  using assms(3-6) fatalUtf8_text[OF assms(3), of nf] jsonParse_text[OF assms(3), of nf]
  by (intro exI[of _ nonce] exI[of _ "utf8Encode (textOf nf j)"] exI[of _ c]) simp

lemma paired_encrypts: "pairedKey s r \<Longrightarrow> \<exists>c. subtleEncrypt C s iv aad p = ok c"
  by (simp add: pairedKey_def subtleEncrypt_def)

lemma seal_data:
  assumes "aeadLaws C" "asciiNumbers nf" "pairedKey s r" "wfJson j" "length nonce = 12"
    "stringifySealedJsonValue nf (toVal j) = ok (textOf nf j)"
  obtains t where "sealJson C nf nonce s (toVal j) aad = ok t" "length t = base64EncodedLength (28 + utf8ByteLength (textOf nf j))"
    "openJson C nf r (Str t) aad = ok (toVal j)"
proof -
  obtain c where c: "subtleEncrypt C s nonce aad (utf8Encode (textOf nf j)) = ok c" using paired_encrypts[OF assms(3)] by blast
  note o = seal_ok[OF assms(1,2) utf16_data[OF assms(4)] assms(6,5) c]
  show thesis using that o open_data[OF assms(1,3,4,5) c o(3)] by blast
qed

section \<open>Wrapped payloads\<close>

abbreviation wrapperJson :: "string \<Rightarrow> string \<Rightarrow> json \<Rightarrow> jsstring \<Rightarrow> json" where
  "wrapperJson tag field j pad \<equiv> JObj [(js ''t'', JStr (js tag)), (js field, j), (js ''pad'', JStr pad)]"

lemma wrapper_data: "toVal (wrapperJson tag field j pad) = wrapper tag field (toVal j) pad"
  by (simp add: jobj_def)

lemma field_keys: "\<not> isIndexKey (js ''t'')" "\<not> isIndexKey (js ''pad'')" "\<not> isIndexKey (js ''manifest'')" "\<not> isIndexKey (js ''signal'')"
  by (simp_all add: isIndexKey_def wholeDigits_def js_def isDigit_def)

lemma wrapper_wf:
  assumes "wfJson j" "utf16 pad" "field \<in> {''manifest'', ''signal''}"
  shows "wfJson (wrapperJson tag field j pad)"
  using assms by (auto simp: ownKeyOrder_def field_keys)

lemma wrapper_opened:
  assumes "field \<in> {''manifest'', ''signal''}" shows "openWrapper tag field msg (wrapper tag field v pad) = ok v"
proof -
  have "hasOnlyKeys (wrapper tag field v pad) [''t'', field, ''pad'']" by (auto simp: jobj_def)
  moreover have "hasOwnKey (wrapper tag field v pad) field" by (auto simp: jobj_def)
  ultimately show ?thesis using assms by (auto simp: openWrapper_def)
qed

text \<open>The common part of \<open>sealManifest\<close> and \<open>sealSignal\<close>: a padded wrapper of JSON data is sealed,
  has the size of its bucket, and opens to the data.\<close>

lemma padded_sealed:
  assumes "aeadLaws C" "asciiNumbers nf" "pairedKey s r" "wfJson j" "length nonce = 12" "field \<in> {''manifest'', ''signal''}"
    "stringifySealedJsonValue nf (wrapper tag field (toVal j) []) = ok base"
    "manifestPaddingTargetBytes (length (utf8Encode base)) = ok target"
  obtains t w where "w = wrapper tag field (toVal j) (replicate (target - length (utf8Encode base)) 65)"
    "sealJson C nf nonce s w aad = ok t" "length t = base64EncodedLength (28 + target)"
    "openJson C nf r (Str t) aad = ok w"
proof -
  let ?p = "replicate (target - length (utf8Encode base)) 65"
  let ?w = "wrapper tag field (toVal j) ?p"
  note a = padded_accepted[OF assms(2) utf16_data[OF assms(4)] assms(7,8)]
  have wf: "wfJson (wrapperJson tag field j ?p)" using assms(4,6) by (intro wrapper_wf) (simp_all add: utf16_def list_all_iff)
  obtain t where "sealJson C nf nonce s (toVal (wrapperJson tag field j ?p)) aad = ok t"
    "length t = base64EncodedLength (28 + utf8ByteLength (textOf nf (wrapperJson tag field j ?p)))"
    "openJson C nf r (Str t) aad = ok (toVal (wrapperJson tag field j ?p))"
    using seal_data[OF assms(1,2,3) wf assms(5)] a(1) unfolding wrapper_data by metis
  then show thesis using that a(2) unfolding wrapper_data by metis
qed

lemma base_padding:
  assumes "asciiNumbers nf" "utf16Val v" "stringifySealedJsonValue nf (wrapper tag field v []) = ok base"
  obtains target where "manifestPaddingTargetBytes (length (utf8Encode base)) = ok target"
proof -
  have u: "utf16Val (wrapper tag field v [])" using assms(2) unfolding wrapper_utf16 by (simp add: utf16_def)
  obtain b where "assertJsonValueWithinEncryptionBounds nf (wrapper tag field v []) = ok b" "base = jsonText nf (wrapper tag field v [])"
    using assms(3) unfolding sealed_eq[OF assms(1) u] by auto
  then have "length (utf8Encode base) \<le> MAX_ENCRYPTED_JSON_PLAINTEXT_BYTES"
    using bounds_exact(4)[OF assms(1) u] length_text_bytes[OF assms(1) u] by simp
  then show thesis using that by (simp add: manifestPaddingTargetBytes_def Let_def)
qed

lemma sealed_length:
  assumes "aeadLaws C" "asciiNumbers nf" "utf16Val v" "length nonce = 12" "stringifySealedJsonValue nf v = ok t"
    "sealJson C nf nonce key v aad = ok s"
  shows "length s = base64EncodedLength (28 + utf8ByteLength t)"
proof -
  obtain c where "subtleEncrypt C key nonce aad (utf8Encode t) = ok c"
    using assms(5,6) by (auto simp: sealJson_def Let_def split: if_splits)
  with seal_ok(1,2)[OF assms(1,2,3,5,4) this] assms(6) show ?thesis by simp
qed

lemma manifest_back:
  assumes "aeadLaws C" "asciiNumbers nf" "matchedKeys s r" "wfJson j" "length nonce = 12"
    "sealFits 0 (wrapperJson ''pair-manifest'' ''manifest'' j [])"
    "sealNodes (wrapperJson ''pair-manifest'' ''manifest'' j []) \<le> MAX_ENCRYPTED_JSON_NODES"
    "utf8ByteLength (textOf nf (wrapperJson ''pair-manifest'' ''manifest'' j [])) \<le> MAX_ENCRYPTED_JSON_PLAINTEXT_BYTES"
  shows "\<exists>t. sealManifest C nf nonce s (toVal j) = ok t \<and> openManifest C nf r (Str t) = ok (toVal j)"
proof -
  let ?b = "wrapperJson ''pair-manifest'' ''manifest'' j []"
  have wf: "wfJson ?b" by (rule wrapper_wf[OF assms(4)]) (simp_all add: utf16_def)
  obtain base where base: "stringifySealedJsonValue nf (wrapper ''pair-manifest'' ''manifest'' (toVal j) []) = ok base"
    using data_sealed[OF wf assms(6-8)] sealed_eq[OF assms(2) utf16_data[OF wf]] unfolding wrapper_data by auto
  obtain target where target: "manifestPaddingTargetBytes (length (utf8Encode base)) = ok target"
    using base_padding[OF assms(2) utf16_data[OF assms(4)] base] by blast
  obtain a b where k: "activeSessionKeys s = ok a" "activeSessionKeys r = ok b" "activeSid a = activeSid b" "pairedKey (manifestKey a) (manifestKey b)"
    using assms(3) by (rule matchedE)
  obtain t w where t: "w = wrapper ''pair-manifest'' ''manifest'' (toVal j) (replicate (target - length (utf8Encode base)) 65)"
    "sealJson C nf nonce (manifestKey a) w (manifestAad (activeSid a)) = ok t"
    "openJson C nf (manifestKey b) (Str t) (manifestAad (activeSid a)) = ok w"
    using padded_sealed[OF assms(1,2) k(4) assms(4,5) _ base target] by blast
  have "paddedManifestWrapper nf (toVal j) = ok w" using base target t(1) by (simp add: paddedManifestWrapper_def)
  then show ?thesis using k t by (auto simp: sealManifest_def openManifest_def wrapper_opened)
qed

section \<open>A concrete instance\<close>

text \<open>An instance of the parameters and a pair of keys, which show that the hypotheses of the
  properties can hold.\<close>

definition plainCrypto :: Crypto where
  "plainCrypto = \<lparr>aesGcmEncrypt = \<lambda>k iv aad p. p @ replicate 16 0,
     aesGcmDecrypt = \<lambda>k iv aad c. if 16 \<le> length c \<and> drop (length c - 16) c = replicate 16 0 then Some (take (length c - 16) c) else None,
     hkdfSha256 = \<lambda>ikm salt info n. replicate n 0, hmacSha256 = \<lambda>k m. replicate 32 0, sha256 = \<lambda>m. replicate 32 0,
     cpaceInit = \<lambda>e prs sid ci. (replicate 32 1, replicate 32 2),
     cpaceDerive = \<lambda>initiator secret own peer ownAd peerAd sid. Some (replicate 64 3)\<rparr>"

definition plainNumbers :: NumberFormat where
  "plainNumbers = \<lparr>otherText = \<lambda>_. [], otherValue = \<lambda>_. NNaN\<rparr>"

definition plainKeys :: "KeyUsage \<Rightarrow> SessionKeys" where
  "plainKeys u = (let k = (\<lambda>u. Some (importAesKey (replicate 32 0) [u])) in
     \<lparr>keysSid = Str (js ''s1''), keysRole = Undefined, keysVersion = jnat 10, keysSas = Undefined, keysDestroyed = Boolean False,
      keysSignalAuthKey = Uint8Array True (replicate 32 7), keysManifestKey = k u, keysControlSendKey = k Encrypt,
      keysControlRecvKey = k Decrypt, keysBulkSendKey = k Encrypt, keysBulkRecvKey = k Decrypt\<rparr>)"

lemma plain_aead: "aeadLaws plainCrypto"
  unfolding aeadLaws_def
proof (intro conjI allI)
  fix k iv aad p c
  show "aesGcmDecrypt plainCrypto k iv aad c = Some p \<longleftrightarrow> c = aesGcmEncrypt plainCrypto k iv aad p"
    using append_take_drop_id[of "length c - 16" c] by (auto simp: plainCrypto_def simp del: append_take_drop_id)
qed (simp add: plainCrypto_def)

lemma plain_hash: "hashLaws plainCrypto"
  by (simp add: hashLaws_def plainCrypto_def)

lemma plain_numbers: "asciiNumbers plainNumbers"
  by (simp add: asciiNumbers_def plainNumbers_def)

lemma plain_sid: "assertPakeSid (Str (js ''s1'')) = ok (js ''s1'')"
  by (simp add: js_def isAlnum_def isLowerAZ_def isDigit_def limit_defs)

lemma plain_matched: "matchedKeys (Some (plainKeys Encrypt)) (Some (plainKeys Decrypt))"
  by (simp add: matchedKeys_def activeSessionKeys_def plainKeys_def Let_def plain_sid pairedKey_def importAesKey_def del: assertPakeSid.simps)

lemma plain_text:
  "textOf plainNumbers (wrapperJson ''pair-manifest'' ''manifest'' (JObj []) []) = js ''{\"t\":\"pair-manifest\",\"manifest\":{},\"pad\":\"\"}''"
  by (simp add: js_def jsonQuote_def jsonEscape_def escapeLetter_def isHighSurrogate_def)

lemma empty_manifest_sealed:
  "\<exists>t. sealManifest plainCrypto plainNumbers (replicate 12 9) (Some (plainKeys Encrypt)) (toVal (JObj [])) = ok t
    \<and> openManifest plainCrypto plainNumbers (Some (plainKeys Decrypt)) (Str t) = ok (toVal (JObj []))"
proof (rule manifest_back[OF plain_aead plain_numbers plain_matched])
  show "utf8ByteLength (textOf plainNumbers (wrapperJson ''pair-manifest'' ''manifest'' (JObj []) [])) \<le> MAX_ENCRYPTED_JSON_PLAINTEXT_BYTES"
    unfolding plain_text by (simp add: js_def utf8ByteLength_ascii limit_defs)
qed (simp_all add: ownKeyOrder_def limit_defs)

section \<open>Properties\<close>

text \<open>C23: A receiver that shares the session keys opens exactly the manifest that its sender sealed:
  for every manifest of JSON data within the limits of the preflight, sealing succeeds and opening
  the sealed text gives the manifest back.\<close>

theorem manifest_roundtrip:
  assumes "aeadLaws C" "asciiNumbers nf" "matchedKeys s r" "wfJson j" "length nonce = 12"
    "sealFits 0 (wrapperJson ''pair-manifest'' ''manifest'' j [])"
    "sealNodes (wrapperJson ''pair-manifest'' ''manifest'' j []) \<le> MAX_ENCRYPTED_JSON_NODES"
    "utf8ByteLength (textOf nf (wrapperJson ''pair-manifest'' ''manifest'' j [])) \<le> MAX_ENCRYPTED_JSON_PLAINTEXT_BYTES"
  shows "\<exists>t. sealManifest C nf nonce s (toVal j) = ok t \<and> openManifest C nf r (Str t) = ok (toVal j)"
  by (rule manifest_back[OF assms])

theorem manifest_roundtrip_witness:
  "\<exists>t. sealManifest plainCrypto plainNumbers (replicate 12 9) (Some (plainKeys Encrypt)) (toVal (JObj [])) = ok t
    \<and> openManifest plainCrypto plainNumbers (Some (plainKeys Decrypt)) (Str t) = ok (toVal (JObj []))"
proof (rule manifest_roundtrip[OF plain_aead plain_numbers plain_matched])
  show "utf8ByteLength (textOf plainNumbers (wrapperJson ''pair-manifest'' ''manifest'' (JObj []) [])) \<le> MAX_ENCRYPTED_JSON_PLAINTEXT_BYTES"
    unfolding plain_text by (simp add: js_def utf8ByteLength_ascii limit_defs)
qed (simp_all add: ownKeyOrder_def limit_defs)

text \<open>The length of a sealed manifest tells nothing but the padding bucket: it is determined by
  the padded size, which is a positive multiple of 4096 bytes or the maximum.\<close>

theorem manifest_size_hidden:
  assumes "aeadLaws C" "asciiNumbers nf" "utf16Val m" "length nonce = 12" "sealManifest C nf nonce keys m = ok t"
  shows "\<exists>base target. stringifySealedJsonValue nf (wrapper ''pair-manifest'' ''manifest'' m []) = ok base
    \<and> manifestPaddingTargetBytes (length (utf8Encode base)) = ok target \<and> length t = base64EncodedLength (28 + target)
    \<and> (4096 dvd target \<or> target = MAX_ENCRYPTED_JSON_PLAINTEXT_BYTES) \<and> 0 < target"
proof -
  obtain a :: ActiveAeadSessionKeys and base target where p: "stringifySealedJsonValue nf (wrapper ''pair-manifest'' ''manifest'' m []) = ok base"
    "manifestPaddingTargetBytes (length (utf8Encode base)) = ok target"
    "sealJson C nf nonce (manifestKey a) (wrapper ''pair-manifest'' ''manifest'' m (replicate (target - length (utf8Encode base)) 65))
       (manifestAad (activeSid a)) = ok t"
    using assms(5) unfolding sealManifest_def paddedManifestWrapper_def andThen_eq_Inr sum.inject by blast
  note c = padded_accepted[OF assms(2,3) p(1,2)]
  show ?thesis
    using p sealed_length[OF assms(1,2) c(3) assms(4) c(1) p(3)] c(2) padding_target[OF p(2)] by auto
qed

theorem manifest_size_hidden_witness:
  "\<exists>t base target. sealManifest plainCrypto plainNumbers (replicate 12 9) (Some (plainKeys Encrypt)) (toVal (JObj [])) = ok t
    \<and> stringifySealedJsonValue plainNumbers (wrapper ''pair-manifest'' ''manifest'' (toVal (JObj [])) []) = ok base
    \<and> manifestPaddingTargetBytes (length (utf8Encode base)) = ok target \<and> length t = base64EncodedLength (28 + target)
    \<and> (4096 dvd target \<or> target = MAX_ENCRYPTED_JSON_PLAINTEXT_BYTES) \<and> 0 < target"
proof -
  have u: "utf16Val (toVal (JObj []))" "length (replicate 12 9 :: bytes) = 12" by simp_all
  obtain t where t: "sealManifest plainCrypto plainNumbers (replicate 12 9) (Some (plainKeys Encrypt)) (toVal (JObj [])) = ok t"
    using empty_manifest_sealed by blast
  from manifest_size_hidden[OF plain_aead plain_numbers u t] t show ?thesis by blast
qed

lemma bulk_inverse:
  assumes "aeadLaws C" "matchedKeys s r"
  shows "openBulk C r fid seq (Uint8Array True c) = ok p \<longleftrightarrow> sealBulk C s fid seq (Uint8Array True p) = ok c"
proof -
  obtain a b where k: "activeSessionKeys s = ok a" "activeSessionKeys r = ok b" "pairedKey (bulkSendKey a) (bulkRecvKey b)"
    using assms(2) by (rule matchedE)
  let ?n = "chunkNonce (numNat fid) (numNat seq)" and ?a = "chunkAad (numNat fid) (numNat seq)"
  have l: "length c = length p + 16" if "subtleEncrypt C (bulkSendKey a) ?n ?a p = ok c"
    using that aeadD(1)[OF assms(1)] by (auto simp: subtleEncrypt_def split: if_splits)
  have o: "openBulk C r fid seq (Uint8Array True c) = ok p \<longleftrightarrow>
      isOk (assertChunkAddress fid seq) \<and> length c \<le> MAX_BULK_SEALED_BYTES \<and> subtleDecrypt C (bulkRecvKey b) ?n ?a c = ok p"
    using k(2) by (auto simp: openBulk_def binaryPayloadByteLength_def isOk_iff split: sum.splits)
  have "sealBulk C s fid seq (Uint8Array True p) = ok c \<longleftrightarrow>
      isOk (assertChunkAddress fid seq) \<and> length p \<le> CHUNK_SIZE \<and> subtleEncrypt C (bulkSendKey a) ?n ?a p = ok c"
    using k(1) by (auto simp: sealBulk_def binaryPayloadByteLength_def isOk_iff)
  with o subtle_inverse[OF assms(1) k(3)] l show ?thesis by (auto simp: MAX_BULK_SEALED_BYTES_def AES_GCM_TAG_BYTES_def)
qed

text \<open>C21: A file chunk opens to some bytes exactly when sealing those bytes for the same file and
  sequence number gives the chunk: nothing else is accepted, and every sealed chunk is.\<close>

theorem bulk_exact:
  assumes "aeadLaws C" "matchedKeys s r"
  shows "openBulk C r fid seq (Uint8Array True c) = ok p \<longleftrightarrow> sealBulk C s fid seq (Uint8Array True p) = ok c"
  using assms by (rule bulk_inverse)

theorem bulk_exact_witness:
  "openBulk plainCrypto (Some (plainKeys Decrypt)) (NInt 3) (NInt 7) (Uint8Array True ([1, 2] @ replicate 16 0)) = ok [1, 2]
    \<longleftrightarrow> sealBulk plainCrypto (Some (plainKeys Encrypt)) (NInt 3) (NInt 7) (Uint8Array True [1, 2]) = ok ([1, 2] @ replicate 16 0)"
  by (rule bulk_exact[OF plain_aead plain_matched])

text \<open>No two chunks of a session are sealed under the same nonce or with the same associated
  data: both determine the file and the sequence number.\<close>

theorem chunk_nonce_unique:
  assumes "isOk (assertChunkAddress (NInt f) (NInt n))" "isOk (assertChunkAddress (NInt g) (NInt m))" "(f, n) \<noteq> (g, m)"
  shows "chunkNonce (numNat (NInt f)) (numNat (NInt n)) \<noteq> chunkNonce (numNat (NInt g)) (numNat (NInt m))
    \<and> chunkAad (numNat (NInt f)) (numNat (NInt n)) \<noteq> chunkAad (numNat (NInt g)) (numNat (NInt m))
    \<and> length (chunkNonce (numNat (NInt f)) (numNat (NInt n))) = 12"
proof -
  have r: "0 \<le> f" "f \<le> 255" "0 \<le> n" "n \<le> 0xffffffff" "0 \<le> g" "g \<le> 255" "0 \<le> m" "m \<le> 0xffffffff"
    using assms(1,2) by (auto simp: assertChunkAddress_def split: if_splits)
  have "f = g" if "uint8Bytes (nat f) = uint8Bytes (nat g)"
  proof -
    have "(of_nat (nat f) :: 8 word) = of_nat (nat g)" using that unfolding uint8Bytes_def by (simp only: list.inject)
    then have "nat f mod 256 = nat g mod 256" unfolding unat_of_nat_byte[symmetric] by (rule arg_cong)
    then have "nat f = nat g" using r by simp
    then show ?thesis using r by simp
  qed
  moreover have "n = m" if "uint32Bytes (nat n) = uint32Bytes (nat m)"
  proof -
    have "bytesValue (uint32Bytes (nat n)) = bytesValue (uint32Bytes (nat m))" using that by simp
    then have "nat n = nat m" using r by (simp add: nat_less_iff)
    then show ?thesis using r by simp
  qed
  ultimately show ?thesis using assms(3) by (auto simp: chunkNonce_def chunkAad_def uint8Bytes_def)
qed

theorem chunk_nonce_unique_witness:
  "chunkNonce (numNat (NInt 0)) (numNat (NInt 256)) \<noteq> chunkNonce (numNat (NInt 1)) (numNat (NInt 0))
    \<and> chunkAad (numNat (NInt 0)) (numNat (NInt 256)) \<noteq> chunkAad (numNat (NInt 1)) (numNat (NInt 0))
    \<and> length (chunkNonce (numNat (NInt 0)) (numNat (NInt 256))) = 12"
  by (rule chunk_nonce_unique) (simp_all add: assertChunkAddress_def)

text \<open>After \<open>wipeSessionKeys\<close> no operation works with the keys any more, no key object is left
  and the authentication key holds zeros.\<close>

theorem wiped_keys_refuse:
  assumes "keysDestroyed k = Boolean False" "wipeSessionKeys (Some k) = Some k'"
  shows "sealManifest C nf nonce (Some k') m = throw ''Session keys have been wiped.''
    \<and> openManifest C nf (Some k') v = throw ''Session keys have been wiped.''
    \<and> sealControl C nf nonce (Some k') m = throw ''Session keys have been wiped.''
    \<and> openControl C nf (Some k') v = throw ''Session keys have been wiped.''
    \<and> sealBulk C (Some k') fid seq d = throw ''Session keys have been wiped.''
    \<and> openBulk C (Some k') fid seq d = throw ''Session keys have been wiped.''
    \<and> keysManifestKey k' = None \<and> keysControlSendKey k' = None \<and> keysControlRecvKey k' = None
    \<and> keysBulkSendKey k' = None \<and> keysBulkRecvKey k' = None
    \<and> set (bytesOf (keysSignalAuthKey k')) \<subseteq> {0} \<and> wipeSessionKeys (Some k') = Some k'"
proof -
  have k': "k' = k\<lparr>keysSignalAuthKey := zeroed (keysSignalAuthKey k), keysManifestKey := None, keysControlSendKey := None,
      keysControlRecvKey := None, keysBulkSendKey := None, keysBulkRecvKey := None, keysDestroyed := Boolean True\<rparr>"
    using assms by (simp add: wipeSessionKeys_def)
  have a: "activeSessionKeys (Some k') = throw ''Session keys have been wiped.''" using k' by (simp add: activeSessionKeys_def)
  have z: "set (bytesOf (zeroed (keysSignalAuthKey k))) \<subseteq> {0}" by (cases "keysSignalAuthKey k") auto
  show ?thesis
    unfolding sealManifest_def openManifest_def sealControl_def openControl_def sealBulk_def openBulk_def a
    using z by (auto simp: k' wipeSessionKeys_def)
qed

theorem wiped_keys_refuse_witness:
  "sealManifest plainCrypto plainNumbers [] (wipeSessionKeys (Some (plainKeys Encrypt))) Null = throw ''Session keys have been wiped.''"
proof -
  have d: "keysDestroyed (plainKeys Encrypt) = Boolean False" by (simp add: plainKeys_def Let_def)
  obtain k' where k': "wipeSessionKeys (Some (plainKeys Encrypt)) = Some k'"
    by (cases "wipeSessionKeys (Some (plainKeys Encrypt))") (auto simp: wipeSessionKeys_def split: if_splits)
  show ?thesis unfolding k' using wiped_keys_refuse[OF d k'] by blast
qed

end
