(* ===== verification/AuthTags.thy ===== *)
theory AuthTags
  imports Sealing
begin

unbundle bit_operations_syntax

text \<open>
  Authentication tags and sealed WebRTC signals, \<open>src/src/shared/security.ts\<close>: the canonical texts
  that are authenticated, the HMAC tags over them, their verification, and \<open>sealSignal\<close> and
  \<open>openSignal\<close>. \<open>JSON.stringify\<close> of an object literal is \<open>jsonText\<close> of its value.
\<close>

section \<open>Checks of arguments\<close>

definition AUTHENTICATION_KEY_BYTES :: nat where [limit_defs]: "AUTHENTICATION_KEY_BYTES = 32"
definition HMAC_SHA256_BASE64_CHARS :: nat where [limit_defs]: "HMAC_SHA256_BASE64_CHARS = 44"
definition MAX_PAKE_PROTOCOL_VERSION :: nat where [limit_defs]: "MAX_PAKE_PROTOCOL_VERSION = 255"
definition MAX_AUTH_SDP_BYTES :: nat where [limit_defs]: "MAX_AUTH_SDP_BYTES = 128 * 1024"
definition MAX_AUTH_CANDIDATE_BYTES :: nat where [limit_defs]: "MAX_AUTH_CANDIDATE_BYTES = 4096"
definition MAX_AUTH_TOKEN_BYTES :: nat where [limit_defs]: "MAX_AUTH_TOKEN_BYTES = 256"

definition authenticationKeyCopy :: "jsval \<Rightarrow> bytes res" where
  "authenticationKeyCopy value =
     andThen (canonicalUint8ArrayByteLength value ''Authentication key must be 32-byte binary.'') (\<lambda>byteLength.
       if byteLength \<noteq> AUTHENTICATION_KEY_BYTES then throw ''Authentication key must be 32-byte binary.'' else ok (bytesOf value))"

fun assertPakeRole :: "jsval \<Rightarrow> jsstring res" where
  "assertPakeRole (Str role) =
     (if role \<noteq> js ''sender'' \<and> role \<noteq> js ''receiver'' then throw ''PAKE role is invalid.'' else ok role)"
| "assertPakeRole _ = throw ''PAKE role is invalid.''"

fun assertPakeProtocolVersion :: "jsval \<Rightarrow> nat res" where
  "assertPakeProtocolVersion (Number (NInt v)) =
     (if v < 1 \<or> v > int MAX_PAKE_PROTOCOL_VERSION then throw ''PAKE protocol version is invalid.'' else ok (nat v))"
| "assertPakeProtocolVersion _ = throw ''PAKE protocol version is invalid.''"

fun byteBoundedForAuth :: "jsval \<Rightarrow> nat \<Rightarrow> bool" where
  "byteBoundedForAuth (Str s) maxBytes = (\<not> utf8ByteLengthExceeds s maxBytes)"
| "byteBoundedForAuth _ maxBytes = False"

definition nonEmptyByteBoundedForAuth :: "jsval \<Rightarrow> nat \<Rightarrow> bool" where
  "nonEmptyByteBoundedForAuth v maxBytes \<longleftrightarrow> byteBoundedForAuth v maxBytes \<and> strLength v > 0"

definition safeNonEmptyByteBoundedForAuth :: "jsval \<Rightarrow> nat \<Rightarrow> bool" where
  "safeNonEmptyByteBoundedForAuth v maxBytes \<longleftrightarrow> byteBoundedForAuth v maxBytes \<and> \<not> unsafeText v \<and> strLength v > 0"

abbreviation safeAsciiToken :: "jsstring \<Rightarrow> bool" where
  "safeAsciiToken s \<equiv> s \<noteq> [] \<and> list_all (\<lambda>c. 33 \<le> c \<and> c \<le> 126) s"

fun safeTokenForAuth :: "jsval \<Rightarrow> nat \<Rightarrow> bool" where
  "safeTokenForAuth (Str s) maxBytes = (length s > 0 \<and> \<not> utf8ByteLengthExceeds s maxBytes \<and> safeAsciiToken s)"
| "safeTokenForAuth _ maxBytes = False"

definition isIceCandidateInitForAuth :: "jsval \<Rightarrow> bool" where
  "isIceCandidateInitForAuth v \<longleftrightarrow>
     isObject v \<and> hasOnlyKeys v [''candidate'', ''sdpMid'', ''sdpMLineIndex'', ''usernameFragment'']
     \<and> (let candidate = ownDataValue v ''candidate''; sdpMid = ownDataValue v ''sdpMid'';
            sdpMLineIndex = ownDataValue v ''sdpMLineIndex''; usernameFragment = ownDataValue v ''usernameFragment'';
            hasSdpMid = (sdpMid \<noteq> Null \<and> sdpMid \<noteq> Undefined);
            hasSdpMLineIndex = (sdpMLineIndex \<noteq> Null \<and> sdpMLineIndex \<noteq> Undefined) in
        safeNonEmptyByteBoundedForAuth candidate MAX_AUTH_CANDIDATE_BYTES
        \<and> (hasSdpMid \<or> hasSdpMLineIndex)
        \<and> (\<not> hasSdpMid \<or> safeTokenForAuth sdpMid MAX_AUTH_TOKEN_BYTES)
        \<and> (sdpMLineIndex = Null \<or> sdpMLineIndex = Undefined
           \<or> (case sdpMLineIndex of Number n \<Rightarrow> integerIn n 0 65535 | _ \<Rightarrow> False))
        \<and> (usernameFragment = Undefined \<or> usernameFragment = Null \<or> safeTokenForAuth usernameFragment MAX_AUTH_TOKEN_BYTES))"

section \<open>Canonical texts\<close>

abbreviation badSignal :: string where
  "badSignal \<equiv> ''WebRTC signal auth payload is invalid.''"

definition isSdpKind :: "jsval \<Rightarrow> bool" where
  "isSdpKind kind \<longleftrightarrow> kind = Str (js ''offer'') \<or> kind = Str (js ''answer'')"

text \<open>\<open>assertSignalPayloadForAuth\<close> (\<open>extra = []\<close>) and \<open>assertSignalPayloadForVerify\<close> (\<open>extra = ["auth"]\<close>)
  differ in the keys they allow.\<close>

definition assertSignalPayload :: "string list \<Rightarrow> jsval \<Rightarrow> unit res" where
  "assertSignalPayload extra signal =
     (if \<not> isObject signal then throw badSignal
      else let kind = ownDataValue signal ''kind'' in
        if isSdpKind kind then
          if \<not> hasOnlyKeys signal ([''kind'', ''sdp''] @ extra)
             \<or> \<not> nonEmptyByteBoundedForAuth (ownDataValue signal ''sdp'') MAX_AUTH_SDP_BYTES
          then throw badSignal else ok ()
        else if kind = Str (js ''candidate'') \<and> hasOnlyKeys signal ([''kind'', ''candidate''] @ extra)
                \<and> isIceCandidateInitForAuth (ownDataValue signal ''candidate'') then ok ()
        else throw badSignal)"

definition assertSignalPayloadForAuth :: "jsval \<Rightarrow> unit res" where
  "assertSignalPayloadForAuth signal = assertSignalPayload [] signal"

definition assertSignalPayloadForVerify :: "jsval \<Rightarrow> unit res" where
  "assertSignalPayloadForVerify signal = assertSignalPayload [''auth''] signal"

definition definedMember :: "string \<Rightarrow> jsval \<Rightarrow> (string \<times> jsval) list" where
  "definedMember k v = (if v = Undefined then [] else [(k, v)])"

definition canonicalCandidate :: "jsval \<Rightarrow> jsval" where
  "canonicalCandidate candidate =
     jobj ([(''candidate'', ownDataValue candidate ''candidate'')]
       @ definedMember ''sdpMid'' (ownDataValue candidate ''sdpMid'')
       @ definedMember ''sdpMLineIndex'' (ownDataValue candidate ''sdpMLineIndex'')
       @ definedMember ''usernameFragment'' (ownDataValue candidate ''usernameFragment''))"

definition canonicalSignalForAuth :: "NumberFormat \<Rightarrow> jsstring \<Rightarrow> jsstring \<Rightarrow> jsval \<Rightarrow> jsstring res" where
  "canonicalSignalForAuth nf sid fromRole signal =
     andThen (assertSignalPayloadForAuth signal) (\<lambda>_.
       let kind = ownDataValue signal ''kind'';
           front = [(''v'', jnat 1), (''t'', Str (js ''signal-auth'')), (''sid'', Str sid), (''fromRole'', Str fromRole)] in
       if isSdpKind kind then ok (jsonText nf (jobj (front @ [(''kind'', kind), (''sdp'', ownDataValue signal ''sdp'')])))
       else ok (jsonText nf (jobj (front @ [(''kind'', Str (js ''candidate'')), (''candidate'', canonicalCandidate (ownDataValue signal ''candidate''))]))))"

definition bytesToHex :: "bytes \<Rightarrow> jsstring" where
  "bytesToHex bs = concat (map (\<lambda>b. [hexDigit (unat b div 16), hexDigit (unat b mod 16)]) bs)"

definition canonicalPairDecisionForAuth :: "Crypto \<Rightarrow> NumberFormat \<Rightarrow> jsval \<Rightarrow> jsval \<Rightarrow> jsval \<Rightarrow> jsval \<Rightarrow> jsval \<Rightarrow> jsstring res" where
  "canonicalPairDecisionForAuth C nf sid fromRole decision sealedManifest reason =
     andThen (assertPakeSid sid) (\<lambda>s. andThen (assertPakeRole fromRole) (\<lambda>r.
       if decision \<noteq> Str (js ''accept'') \<and> decision \<noteq> Str (js ''reject'') then throw ''Pair decision is invalid.''
       else if \<not> nonEmptyByteBoundedForAuth sealedManifest ENCRYPTED_JSON_MAX_CHARS \<or> \<not> safeAsciiToken (strValue sealedManifest)
       then throw ''Pair decision manifest is invalid.''
       else if decision = Str (js ''accept'') \<and> reason \<noteq> Undefined then throw ''Pair decision reason is invalid.''
       else if decision = Str (js ''reject'') \<and> reason \<noteq> Str (js ''user_declined'') then throw ''Pair decision reason is invalid.''
       else ok (jsonText nf (jobj
         [(''v'', jnat 1), (''t'', Str (js ''pair-decision'')), (''sid'', Str s), (''fromRole'', Str r), (''decision'', decision),
          (''sealedManifestSha256'', Str (bytesToHex (sha256 C (utf8Encode (strValue sealedManifest))))),
          (''reason'', if reason = Undefined then Null else reason)]))))"

definition confirmText :: "NumberFormat \<Rightarrow> nat \<Rightarrow> jsstring \<Rightarrow> jsstring \<Rightarrow> jsstring" where
  "confirmText nf protocolVersion sid fromRole =
     jsonText nf (jobj [(''v'', jnat 1), (''t'', Str (js ''session-confirm'')), (''protocolVersion'', jnat protocolVersion),
       (''sid'', Str sid), (''fromRole'', Str fromRole)])"

section \<open>Tags\<close>

definition timingSafeEqual :: "bytes \<Rightarrow> bytes \<Rightarrow> bool" where
  "timingSafeEqual a b \<longleftrightarrow>
     (if length a \<noteq> length b then False else fold (\<lambda>(x, y) diff. diff OR (x XOR y)) (zip a b) 0 = 0)"

definition signalAuthTag :: "Crypto \<Rightarrow> NumberFormat \<Rightarrow> jsval \<Rightarrow> jsval \<Rightarrow> jsval \<Rightarrow> jsval \<Rightarrow> jsstring res" where
  "signalAuthTag C nf key sid fromRole signal =
     andThen (authenticationKeyCopy key) (\<lambda>authKey.
     andThen (assertPakeSid sid) (\<lambda>s.
     andThen (assertPakeRole fromRole) (\<lambda>r.
     andThen (canonicalSignalForAuth nf s r signal) (\<lambda>t.
       bytesToBase64 (Uint8Array True (hmacSha256 C authKey (utf8Encode t)))))))"

definition sessionConfirmTag :: "Crypto \<Rightarrow> NumberFormat \<Rightarrow> jsval \<Rightarrow> jsval \<Rightarrow> jsval \<Rightarrow> jsval \<Rightarrow> jsstring res" where
  "sessionConfirmTag C nf key sid fromRole protocolVersion =
     andThen (authenticationKeyCopy key) (\<lambda>authKey.
     andThen (assertPakeSid sid) (\<lambda>s.
     andThen (assertPakeRole fromRole) (\<lambda>r.
     andThen (assertPakeProtocolVersion protocolVersion) (\<lambda>v.
       bytesToBase64 (Uint8Array True (hmacSha256 C authKey (utf8Encode (confirmText nf v s r))))))))"

definition pairDecisionAuthTag :: "Crypto \<Rightarrow> NumberFormat \<Rightarrow> jsval \<Rightarrow> jsval \<Rightarrow> jsval \<Rightarrow> jsval \<Rightarrow> jsval \<Rightarrow> jsval \<Rightarrow> jsstring res" where
  "pairDecisionAuthTag C nf key sid fromRole decision sealedManifest reason =
     andThen (authenticationKeyCopy key) (\<lambda>authKey.
     andThen (canonicalPairDecisionForAuth C nf sid fromRole decision sealedManifest reason) (\<lambda>t.
       bytesToBase64 (Uint8Array True (hmacSha256 C authKey (utf8Encode t)))))"

text \<open>The body that the three verifiers share: recompute, decode both, compare; any error is a
  mismatch.\<close>

definition verifyTag :: "jsstring res \<Rightarrow> jsval \<Rightarrow> bool" where
  "verifyTag expected tag =
     (case tag of
        Str t \<Rightarrow>
          length t = HMAC_SHA256_BASE64_CHARS
          \<and> (case andThen expected (\<lambda>e. andThen (base64ToBytes (Str e)) (\<lambda>eb. andThen (base64ToBytes (Str t)) (\<lambda>ab. ok (timingSafeEqual eb ab)))) of
               Inl _ \<Rightarrow> False | Inr equal \<Rightarrow> equal)
      | _ \<Rightarrow> False)"

definition signalPayloadForAuth :: "jsval \<Rightarrow> jsval res" where
  "signalPayloadForAuth signal =
     andThen (assertSignalPayloadForVerify signal) (\<lambda>_.
       let kind = ownDataValue signal ''kind'' in
       if isSdpKind kind then ok (jobj [(''kind'', kind), (''sdp'', ownDataValue signal ''sdp'')])
       else ok (jobj [(''kind'', Str (js ''candidate'')), (''candidate'', ownDataValue signal ''candidate'')]))"

definition verifySignalAuthTag :: "Crypto \<Rightarrow> NumberFormat \<Rightarrow> jsval \<Rightarrow> jsval \<Rightarrow> jsval \<Rightarrow> jsval \<Rightarrow> bool" where
  "verifySignalAuthTag C nf key sid fromRole signal =
     verifyTag (andThen (signalPayloadForAuth signal) (signalAuthTag C nf key sid fromRole)) (ownDataValue signal ''auth'')"

definition verifySessionConfirmTag :: "Crypto \<Rightarrow> NumberFormat \<Rightarrow> jsval \<Rightarrow> jsval \<Rightarrow> jsval \<Rightarrow> jsval \<Rightarrow> jsval \<Rightarrow> bool" where
  "verifySessionConfirmTag C nf key sid fromRole tag protocolVersion =
     verifyTag (sessionConfirmTag C nf key sid fromRole protocolVersion) tag"

definition verifyPairDecisionAuthTag :: "Crypto \<Rightarrow> NumberFormat \<Rightarrow> jsval \<Rightarrow> jsval \<Rightarrow> jsval \<Rightarrow> jsval \<Rightarrow> jsval \<Rightarrow> jsval \<Rightarrow> jsval \<Rightarrow> bool" where
  "verifyPairDecisionAuthTag C nf key sid fromRole decision sealedManifest reason tag =
     verifyTag (pairDecisionAuthTag C nf key sid fromRole decision sealedManifest reason) tag"

definition sdpAuthTag :: "Crypto \<Rightarrow> NumberFormat \<Rightarrow> jsval \<Rightarrow> jsval \<Rightarrow> jsval \<Rightarrow> jsval \<Rightarrow> jsval \<Rightarrow> jsstring res" where
  "sdpAuthTag C nf key sid fromRole kind sdp = signalAuthTag C nf key sid fromRole (jobj [(''kind'', kind), (''sdp'', sdp)])"

definition verifySdpAuthTag :: "Crypto \<Rightarrow> NumberFormat \<Rightarrow> jsval \<Rightarrow> jsval \<Rightarrow> jsval \<Rightarrow> jsval \<Rightarrow> jsval \<Rightarrow> jsval \<Rightarrow> bool" where
  "verifySdpAuthTag C nf key sid fromRole kind sdp tag =
     verifySignalAuthTag C nf key sid fromRole
       (jobj [(''kind'', kind), (''sdp'', sdp), (''auth'', if tag = Undefined \<or> tag = Null then Str [] else tag)])"

section \<open>Sealed signals\<close>

definition signalAad :: "jsval \<Rightarrow> jsval \<Rightarrow> bytes res" where
  "signalAad sid fromRole =
     andThen (assertPakeSid sid) (\<lambda>s. andThen (assertPakeRole fromRole) (\<lambda>r. ok (utf8Encode (js ''signal:'' @ s @ 58 # r))))"

definition signalSealKey :: "Crypto \<Rightarrow> jsval \<Rightarrow> jsval \<Rightarrow> jsval \<Rightarrow> KeyUsage list \<Rightarrow> CryptoKey res" where
  "signalSealKey C key sid fromRole usages =
     andThen (authenticationKeyCopy key) (\<lambda>authKey.
     andThen (assertPakeSid sid) (\<lambda>s.
     andThen (assertPakeRole fromRole) (\<lambda>r.
       ok (importAesKey (hkdfSha256 C authKey (utf8Encode (js ''signal-seal:'' @ s)) (utf8Encode (js ''signal '' @ r)) 32) usages))))"

definition sealSignal :: "Crypto \<Rightarrow> NumberFormat \<Rightarrow> bytes \<Rightarrow> jsval \<Rightarrow> jsval \<Rightarrow> jsval \<Rightarrow> jsval \<Rightarrow> jsstring res" where
  "sealSignal C nf nonce key sid fromRole signal =
     andThen (assertSignalPayloadForVerify signal) (\<lambda>_.
     andThen (signalSealKey C key sid fromRole [Encrypt]) (\<lambda>sealKey.
     andThen (paddedSignalWrapper nf signal) (\<lambda>w.
     andThen (signalAad sid fromRole) (\<lambda>aad. sealJson C nf nonce sealKey w aad))))"

definition openSignal :: "Crypto \<Rightarrow> NumberFormat \<Rightarrow> jsval \<Rightarrow> jsval \<Rightarrow> jsval \<Rightarrow> jsval \<Rightarrow> jsval res" where
  "openSignal C nf key sid fromRole sealed =
     andThen (signalSealKey C key sid fromRole [Decrypt]) (\<lambda>sealKey.
     andThen (signalAad sid fromRole) (\<lambda>aad.
     andThen (openJson C nf sealKey sealed aad) (\<lambda>opened.
     andThen (openWrapper ''webrtc-signal'' ''signal'' ''Encrypted WebRTC signal wrapper is invalid.'' opened) (\<lambda>signal.
     andThen (assertSignalPayloadForVerify signal) (\<lambda>_. ok signal)))))"

section \<open>Comparison of tags\<close>

lemma diff_zero:
  fixes d :: "8 word"
  shows "fold (\<lambda>(x, y) diff. diff OR (x XOR y)) zs d = 0 \<longleftrightarrow> d = 0 \<and> (\<forall>(x, y) \<in> set zs. x = y)"
proof (induction zs arbitrary: d)
  case (Cons z zs)
  obtain x y where z: "z = (x, y)" by (cases z)
  have "x XOR y = 0 \<longleftrightarrow> x = y" by (metis xor.assoc xor.left_neutral xor_self_eq)
  then have "d OR (x XOR y) = 0 \<longleftrightarrow> d = 0 \<and> x = y" by (simp add: or_eq_0_iff)
  with Cons z show ?case by auto
qed simp

lemma timingSafeEqual_iff: "timingSafeEqual a b \<longleftrightarrow> a = b"
  unfolding timingSafeEqual_def diff_zero list_eq_iff_zip_eq by simp

lemma verifyTag_iff:
  assumes "\<And>e. expected = ok e \<Longrightarrow> \<exists>bs. length bs = 32 \<and> e = base64Encode bs"
  shows "verifyTag expected tag \<longleftrightarrow> (\<exists>t. tag = Str t \<and> expected = ok t)"
proof (cases expected)
  case (Inr e)
  then obtain bs where bs: "length bs = 32" "e = base64Encode bs" using assms by blast
  have l: "length e = 44" using bs by (simp add: length_base64Encode base64EncodedLength_def)
  have e: "base64ToBytes (Str e) = ok bs" unfolding bs(2) using bs l by (intro base64_back) (auto simp: limit_defs)
  have inj: "base64ToBytes (Str t) = ok bs \<longleftrightarrow> t = e" if "length t = 44" for t
    using that e bs(2) by (auto simp: isCanonicalBase64_def base64Encode_Decode limit_defs split: if_splits)
  show ?thesis
  proof (cases tag)
    case (Str t)
    show ?thesis
    proof (cases "base64ToBytes (Str t)")
      case (Inl x)
      with Str Inr e inj[of t] l show ?thesis by (auto simp: verifyTag_def simp del: base64ToBytes.simps)
    next
      case (Inr cs)
      with Str \<open>expected = Inr e\<close> e inj[of t] l show ?thesis
        by (auto simp: verifyTag_def timingSafeEqual_iff limit_defs simp del: base64ToBytes.simps)
    qed
  qed (auto simp: verifyTag_def)
qed (auto simp: verifyTag_def split: jsval.splits)

lemma hmac_encoded: "hashLaws C \<Longrightarrow> bytesToBase64 (Uint8Array True (hmacSha256 C k m)) = ok e \<Longrightarrow> \<exists>bs. length bs = 32 \<and> e = base64Encode bs"
  by (auto simp: hashLaws_def bytesToBase64_def)

lemma tag_shapes:
  assumes "hashLaws C"
  shows "signalAuthTag C nf key sid r s = ok e \<Longrightarrow> \<exists>bs. length bs = 32 \<and> e = base64Encode bs"
    "sessionConfirmTag C nf key sid r v = ok e \<Longrightarrow> \<exists>bs. length bs = 32 \<and> e = base64Encode bs"
    "pairDecisionAuthTag C nf key sid r d m reason = ok e \<Longrightarrow> \<exists>bs. length bs = 32 \<and> e = base64Encode bs"
  using hmac_encoded[OF assms]
  by (auto simp: signalAuthTag_def sessionConfirmTag_def pairDecisionAuthTag_def simp del: canonicalUint8ArrayByteLength.simps)

lemma confirm_verified:
  "hashLaws C \<Longrightarrow> verifySessionConfirmTag C nf key sid r tag v \<longleftrightarrow> (\<exists>t. tag = Str t \<and> sessionConfirmTag C nf key sid r v = ok t)"
  unfolding verifySessionConfirmTag_def by (rule verifyTag_iff) (rule tag_shapes(2))

text \<open>C20: Each verifier accepts exactly the tag that the signing function computes for the same
  key, session, role and content; every other tag, and every content the signer refuses, is
  rejected.\<close>

theorem tags_verified_exactly:
  assumes "hashLaws C"
  shows "(verifySessionConfirmTag C nf key sid r tag v \<longleftrightarrow> (\<exists>t. tag = Str t \<and> sessionConfirmTag C nf key sid r v = ok t))
    \<and> (verifyPairDecisionAuthTag C nf key sid r d m reason tag \<longleftrightarrow>
         (\<exists>t. tag = Str t \<and> pairDecisionAuthTag C nf key sid r d m reason = ok t))
    \<and> (verifySignalAuthTag C nf key sid r signal \<longleftrightarrow>
         (\<exists>t p. ownDataValue signal ''auth'' = Str t \<and> signalPayloadForAuth signal = ok p \<and> signalAuthTag C nf key sid r p = ok t))"
proof (intro conjI)
  show "verifySessionConfirmTag C nf key sid r tag v \<longleftrightarrow> (\<exists>t. tag = Str t \<and> sessionConfirmTag C nf key sid r v = ok t)"
    by (rule confirm_verified[OF assms])
  show "verifyPairDecisionAuthTag C nf key sid r d m reason tag \<longleftrightarrow>
         (\<exists>t. tag = Str t \<and> pairDecisionAuthTag C nf key sid r d m reason = ok t)"
    unfolding verifyPairDecisionAuthTag_def by (rule verifyTag_iff) (rule tag_shapes(3)[OF assms])
  have "verifySignalAuthTag C nf key sid r signal \<longleftrightarrow>
      (\<exists>t. ownDataValue signal ''auth'' = Str t \<and> andThen (signalPayloadForAuth signal) (signalAuthTag C nf key sid r) = ok t)"
    unfolding verifySignalAuthTag_def
  proof (rule verifyTag_iff)
    fix e assume "andThen (signalPayloadForAuth signal) (signalAuthTag C nf key sid r) = ok e"
    then show "\<exists>bs. length bs = 32 \<and> e = base64Encode bs" using tag_shapes(1)[OF assms] by auto
  qed
  then show "verifySignalAuthTag C nf key sid r signal \<longleftrightarrow>
         (\<exists>t p. ownDataValue signal ''auth'' = Str t \<and> signalPayloadForAuth signal = ok p \<and> signalAuthTag C nf key sid r p = ok t)"
    by auto
qed

theorem tags_verified_exactly_witness:
  "(verifySessionConfirmTag plainCrypto plainNumbers (Uint8Array True (replicate 32 7)) (Str (js ''s1'')) (Str (js ''sender'')) (Str []) (jnat 10) \<longleftrightarrow>
      (\<exists>t. Str [] = Str t \<and> sessionConfirmTag plainCrypto plainNumbers (Uint8Array True (replicate 32 7)) (Str (js ''s1'')) (Str (js ''sender'')) (jnat 10) = ok t))"
  by (rule tags_verified_exactly[OF plain_hash, THEN conjunct1])

section \<open>The canonical texts are unambiguous\<close>

lemma text_injective:
  assumes "wfJson a" "wfJson b" "textOf nf a = textOf nf b" shows "toVal a = toVal b"
proof -
  have "Some (toVal a) = jsonParse nf (textOf nf a)" by (rule jsonParse_text[OF assms(1), symmetric])
  also have "\<dots> = Some (toVal b)" unfolding assms(3) by (rule jsonParse_text[OF assms(2)])
  finally show ?thesis by simp
qed

lemma utf16_map_of: "utf16Members ps \<Longrightarrow> map_of ps (KStr k) = Some (DataProp e v) \<Longrightarrow> utf16Val v"
proof (induction ps)
  case (Cons p ps)
  obtain key d where p: "p = (key, d)" by (cases p)
  show ?case
  proof (cases key)
    case (KStr n) then show ?thesis using Cons p by (cases d) (auto split: if_splits)
  next
    case (KSym n) then show ?thesis using Cons p by simp
  qed
qed simp

lemma utf16_own: "utf16Val v \<Longrightarrow> utf16Val (ownDataValue v k)"
proof (cases v)
  case (Obj proto ps)
  assume "utf16Val v"
  then show ?thesis using Obj utf16_map_of[of ps "js k"]
    by (cases "map_of ps (KStr (js k))"; cases "the (map_of ps (KStr (js k)))") auto
qed auto

lemma jobj_data: "jobj (map (\<lambda>(k, j). (k, toVal j)) kvs) = toVal (JObj (map (\<lambda>(k, j). (js k, j)) kvs))"
  by (auto simp: jobj_def)

lemma jobj_wf:
  assumes "distinct (map fst kvs)" "list_all (\<lambda>(k, j). \<not> isIndexKey (js k) \<and> wfJson j) kvs"
  shows "wfJson (JObj (map (\<lambda>(k, j). (js k, j)) kvs))"
proof -
  let ?m = "map (\<lambda>(k, j). (js k, j)) kvs"
  have "map fst ?m = map js (map fst kvs)" by (induction kvs) auto
  then have "distinct (map fst ?m)" using assms(1) by (simp add: distinct_map inj_on_def)
  moreover have "filter (\<lambda>(k, v). isIndexKey k) ?m = []" "filter (\<lambda>(k, v). \<not> isIndexKey k) ?m = ?m"
    using assms(2) by (induction kvs) auto
  ultimately show ?thesis using assms(2) by (auto simp: ownKeyOrder_def list_all_iff)
qed

lemma jobj_inject: "jobj a = jobj b \<longleftrightarrow> a = b"
proof -
  have "inj (\<lambda>(k, v). (KStr (js k), DataProp True v))" by (auto simp: inj_def)
  then show ?thesis unfolding jobj_def jsval.inject inj_map_eq_map[OF \<open>inj _\<close>] by simp
qed

text \<open>Values that are JSON data.\<close>

definition isData :: "jsval \<Rightarrow> bool" where
  "isData v \<longleftrightarrow> (\<exists>j. v = toVal j \<and> wfJson j)"

lemma isData_simps: "isData Null" "utf16 s \<Longrightarrow> isData (Str s)" "\<bar>i\<bar> \<le> MAX_SAFE_INTEGER \<Longrightarrow> isData (Number (NInt i))"
  unfolding isData_def by (rule exI[of _ JNull], simp) (rule exI[of _ "JStr s"], simp, rule exI[of _ "JInt i"], simp)

lemma jobj_isData:
  assumes "distinct (map fst kvs)" "list_all (\<lambda>(k, v). \<not> isIndexKey (js k) \<and> isData v) kvs"
  shows "isData (jobj kvs)"
proof -
  have "\<exists>js'. kvs = map (\<lambda>(k, j). (k, toVal j)) js' \<and> list_all (\<lambda>(k, j). \<not> isIndexKey (js k) \<and> wfJson j) js'"
    using assms(2)
  proof (induction kvs)
    case (Cons x kvs)
    obtain k v where x: "x = (k, v)" by (cases x)
    then obtain j where "v = toVal j" "wfJson j" using Cons.prems by (auto simp: isData_def)
    moreover obtain js' where "kvs = map (\<lambda>(k, j). (k, toVal j)) js'" "list_all (\<lambda>(k, j). \<not> isIndexKey (js k) \<and> wfJson j) js'"
      using Cons by auto
    ultimately show ?case using x Cons.prems by (intro exI[of _ "(k, j) # js'"]) simp
  qed simp
  then obtain js' where js': "kvs = map (\<lambda>(k, j). (k, toVal j)) js'" "list_all (\<lambda>(k, j). \<not> isIndexKey (js k) \<and> wfJson j) js'" by blast
  have "map fst kvs = map fst js'" unfolding js'(1) by (induction js') auto
  with assms(1) have "wfJson (JObj (map (\<lambda>(k, j). (js k, j)) js'))" using js'(2) by (intro jobj_wf) simp_all
  then show ?thesis unfolding isData_def js'(1) jobj_data by blast
qed

lemma data_text_injective: "isData v \<Longrightarrow> isData w \<Longrightarrow> jsonText nf v = jsonText nf w \<Longrightarrow> v = w"
  using text_injective unfolding isData_def by blast

lemma auth_keys:
  "\<not> isIndexKey (js ''v'')" "\<not> isIndexKey (js ''sid'')" "\<not> isIndexKey (js ''fromRole'')" "\<not> isIndexKey (js ''kind'')"
  "\<not> isIndexKey (js ''sdp'')" "\<not> isIndexKey (js ''candidate'')" "\<not> isIndexKey (js ''sdpMid'')" "\<not> isIndexKey (js ''sdpMLineIndex'')"
  "\<not> isIndexKey (js ''usernameFragment'')" "\<not> isIndexKey (js ''decision'')" "\<not> isIndexKey (js ''sealedManifestSha256'')"
  "\<not> isIndexKey (js ''reason'')" "\<not> isIndexKey (js ''protocolVersion'')"
  by (simp_all add: isIndexKey_def wholeDigits_def js_def isDigit_def)

lemma jnat_isData: "int n \<le> MAX_SAFE_INTEGER \<Longrightarrow> isData (jnat n)"
  by (simp add: jnat_def isData_simps)

lemma token_isData: "safeTokenForAuth v n \<Longrightarrow> isData v" "byteBoundedForAuth v n \<Longrightarrow> utf16Val v \<Longrightarrow> isData v"
  by (cases v; auto simp: utf16_def list_all_iff intro!: isData_simps(2))+

lemma candidate_isData:
  assumes "isIceCandidateInitForAuth c" "utf16Val c" shows "isData (canonicalCandidate c)"
proof -
  note a = assms(1)[unfolded isIceCandidateInitForAuth_def Let_def]
  have "isData (ownDataValue c ''candidate'')"
    using a utf16_own[OF assms(2)] by (auto simp: safeNonEmptyByteBoundedForAuth_def intro: token_isData(2))
  moreover have "ownDataValue c ''sdpMid'' \<noteq> Undefined \<Longrightarrow> isData (ownDataValue c ''sdpMid'')"
    using a by (auto intro: token_isData(1) isData_simps(1))
  moreover have "ownDataValue c ''usernameFragment'' \<noteq> Undefined \<Longrightarrow> isData (ownDataValue c ''usernameFragment'')"
    using a by (auto intro: token_isData(1) isData_simps(1))
  moreover have "ownDataValue c ''sdpMLineIndex'' \<noteq> Undefined \<Longrightarrow> isData (ownDataValue c ''sdpMLineIndex'')"
    using a by (auto simp: MAX_SAFE_INTEGER_def intro!: isData_simps split: jsval.splits elim!: integerIn.elims(2))
  ultimately show ?thesis
    unfolding canonicalCandidate_def by (intro jobj_isData) (auto simp: definedMember_def auth_keys field_keys)
qed

text \<open>The object whose text \<open>canonicalSignalForAuth\<close> gives.\<close>

abbreviation signalObject :: "jsstring \<Rightarrow> jsstring \<Rightarrow> jsval \<Rightarrow> string \<Rightarrow> jsval \<Rightarrow> jsval" where
  "signalObject sid r kind field v \<equiv> jobj [(''v'', jnat 1), (''t'', Str (js ''signal-auth'')), (''sid'', Str sid),
     (''fromRole'', Str r), (''kind'', kind), (field, v)]"

text \<open>The last member of that object.\<close>

definition signalMember :: "jsval \<Rightarrow> string \<times> jsval" where
  "signalMember signal =
     (if isSdpKind (ownDataValue signal ''kind'') then (''sdp'', ownDataValue signal ''sdp'')
      else (''candidate'', canonicalCandidate (ownDataValue signal ''candidate'')))"

text \<open>The content of a signal: the SDP of an offer or answer, and all four fields of an ICE candidate,
  where a missing field is \<open>Undefined\<close>.\<close>

definition signalContent :: "jsval \<Rightarrow> jsval list" where
  "signalContent signal =
     (if ownDataValue signal ''kind'' \<in> {Str (js ''offer''), Str (js ''answer'')} then [ownDataValue signal ''sdp'']
      else map (ownDataValue (ownDataValue signal ''candidate'')) [''candidate'', ''sdpMid'', ''sdpMLineIndex'', ''usernameFragment''])"

lemma canonicalCandidate_fields:
  "list_all (\<lambda>k. ownDataValue (canonicalCandidate c) k = ownDataValue c k) [''candidate'', ''sdpMid'', ''sdpMLineIndex'', ''usernameFragment'']"
  by (simp add: canonicalCandidate_def definedMember_def)

lemma member_content:
  assumes "signalMember a = signalMember b" "ownDataValue a ''kind'' = ownDataValue b ''kind''"
  shows "signalContent a = signalContent b"
proof (cases "isSdpKind (ownDataValue b ''kind'')")
  case True
  then show ?thesis using assms by (auto simp: signalMember_def signalContent_def isSdpKind_def)
next
  case False
  then have c: "canonicalCandidate (ownDataValue a ''candidate'') = canonicalCandidate (ownDataValue b ''candidate'')"
    using assms by (simp add: signalMember_def)
  from False show ?thesis
    using assms(2) canonicalCandidate_fields[of "ownDataValue a ''candidate''"] canonicalCandidate_fields[of "ownDataValue b ''candidate''"]
    by (simp add: signalContent_def isSdpKind_def c)
qed

lemma canonical_object:
  assumes "canonicalSignalForAuth nf sid r signal = ok t" "utf16 sid" "utf16 r" "utf16Val signal"
  obtains f x where "signalMember signal = (f, x)" "t = jsonText nf (signalObject sid r (ownDataValue signal ''kind'') f x)"
    "isData (signalObject sid r (ownDataValue signal ''kind'') f x)"
proof -
  let ?k = "ownDataValue signal ''kind''"
  obtain f x where fx: "signalMember signal = (f, x)" by (cases "signalMember signal")
  have a: "assertSignalPayload [] signal = ok ()" using assms(1) by (auto simp: canonicalSignalForAuth_def assertSignalPayloadForAuth_def)
  have k: "isSdpKind ?k \<or> ?k = Str (js ''candidate'')" using a by (auto simp: assertSignalPayload_def Let_def split: if_splits)
  have t: "t = jsonText nf (signalObject sid r ?k f x)"
    using assms(1) fx k by (auto simp: canonicalSignalForAuth_def Let_def signalMember_def split: if_splits)
  have "isData x"
  proof (cases "isSdpKind ?k")
    case True
    then have "byteBoundedForAuth (ownDataValue signal ''sdp'') MAX_AUTH_SDP_BYTES"
      using a by (auto simp: assertSignalPayload_def Let_def nonEmptyByteBoundedForAuth_def split: if_splits)
    with True fx utf16_own[OF assms(4)] show ?thesis by (auto simp: signalMember_def intro: token_isData(2))
  next
    case False
    then have "isIceCandidateInitForAuth (ownDataValue signal ''candidate'')"
      using a by (auto simp: assertSignalPayload_def Let_def split: if_splits)
    with False fx candidate_isData utf16_own[OF assms(4)] show ?thesis by (auto simp: signalMember_def)
  qed
  moreover have "isData ?k" using k by (auto simp: isSdpKind_def isData_simps(2))
  moreover have "f \<in> {''sdp'', ''candidate''}" using fx by (auto simp: signalMember_def split: if_splits)
  ultimately have "isData (signalObject sid r ?k f x)"
    using assms(2,3)
    by (intro jobj_isData) (auto simp: auth_keys field_keys isData_simps(2) jnat_isData MAX_SAFE_INTEGER_def)
  with that fx t show thesis by blast
qed

lemma hex_utf16: "utf16 (bytesToHex bs)"
proof -
  have "hexDigit n < 65536" if "n < 16" for n using hexDigit_ascii[OF that] by simp
  moreover have "unat b div 16 < 16" for b :: "8 word" using unat_byte[of b] by (simp add: less_mult_imp_div_less)
  ultimately show ?thesis by (auto simp: bytesToHex_def utf16_def list_all_iff)
qed

text \<open>C19: The text that a signal tag authenticates determines the session, the role, the kind and
  the content of the signal (the SDP, or every field of an ICE candidate), and it is never the text of
  a session confirmation or of a pair decision. So a tag cannot be moved to another message.\<close>

theorem signal_text_unambiguous:
  assumes "utf16Val a" "utf16 sidA" "utf16 ra" "canonicalSignalForAuth nf sidA ra a = ok t"
    "utf16Val b" "utf16 sidB" "utf16 rb"
  shows "(canonicalSignalForAuth nf sidB rb b = ok t \<longrightarrow>
      sidA = sidB \<and> ra = rb \<and> ownDataValue a ''kind'' = ownDataValue b ''kind'' \<and> signalContent a = signalContent b)
    \<and> (v \<le> MAX_PAKE_PROTOCOL_VERSION \<longrightarrow> confirmText nf v sidB rb \<noteq> t)
    \<and> (utf16Val reason \<longrightarrow> canonicalPairDecisionForAuth C nf (Str sidB) (Str rb) d m reason \<noteq> ok t)"
proof -
  obtain f x where a: "signalMember a = (f, x)" "t = jsonText nf (signalObject sidA ra (ownDataValue a ''kind'') f x)"
    "isData (signalObject sidA ra (ownDataValue a ''kind'') f x)"
    using canonical_object[OF assms(4,2,3,1)] by blast
  have 1: "sidA = sidB \<and> ra = rb \<and> ownDataValue a ''kind'' = ownDataValue b ''kind'' \<and> signalContent a = signalContent b"
    if c: "canonicalSignalForAuth nf sidB rb b = ok t"
  proof -
    obtain g y where b: "signalMember b = (g, y)" "t = jsonText nf (signalObject sidB rb (ownDataValue b ''kind'') g y)"
      "isData (signalObject sidB rb (ownDataValue b ''kind'') g y)"
      using canonical_object[OF c assms(6,7,5)] by blast
    have "signalObject sidA ra (ownDataValue a ''kind'') f x = signalObject sidB rb (ownDataValue b ''kind'') g y"
      by (rule data_text_injective[OF a(3) b(3) trans[OF a(2)[symmetric] b(2)]])
    then have "sidA = sidB \<and> ra = rb \<and> ownDataValue a ''kind'' = ownDataValue b ''kind'' \<and> signalMember a = signalMember b"
      using a(1) b(1) unfolding jobj_inject by simp
    then show ?thesis using member_content[of a b] by blast
  qed
  have 2: "confirmText nf v sidB rb \<noteq> t" if v: "v \<le> MAX_PAKE_PROTOCOL_VERSION"
  proof
    assume e: "confirmText nf v sidB rb = t"
    have "isData (jobj [(''v'', jnat 1), (''t'', Str (js ''session-confirm'')), (''protocolVersion'', jnat v), (''sid'', Str sidB), (''fromRole'', Str rb)])"
      using assms(6,7) v by (intro jobj_isData) (auto simp: auth_keys field_keys isData_simps(2) MAX_SAFE_INTEGER_def limit_defs intro!: jnat_isData)
    from data_text_injective[OF a(3) this trans[OF a(2)[symmetric] e[symmetric, unfolded confirmText_def]]]
    show False unfolding jobj_inject by simp
  qed
  have 3: "canonicalPairDecisionForAuth C nf (Str sidB) (Str rb) d m reason \<noteq> ok t" if r: "utf16Val reason"
  proof
    let ?o = "jobj [(''v'', jnat 1), (''t'', Str (js ''pair-decision'')), (''sid'', Str sidB), (''fromRole'', Str rb), (''decision'', d),
          (''sealedManifestSha256'', Str (bytesToHex (sha256 C (utf8Encode (strValue m))))),
          (''reason'', if reason = Undefined then Null else reason)]"
    assume e: "canonicalPairDecisionForAuth C nf (Str sidB) (Str rb) d m reason = ok t"
    then have d: "d = Str (js ''accept'') \<or> d = Str (js ''reject'')" "reason = Undefined \<or> reason = Str (js ''user_declined'')"
      and t: "t = jsonText nf ?o"
      by (auto simp: canonicalPairDecisionForAuth_def split: if_splits)
    have "isData ?o"
      using assms(6,7) d hex_utf16 by (intro jobj_isData) (auto simp: auth_keys field_keys isData_simps jnat_isData MAX_SAFE_INTEGER_def)
    from data_text_injective[OF a(3) this trans[OF a(2)[symmetric] t]] show False unfolding jobj_inject by simp
  qed
  show ?thesis using 1 2 3 by blast
qed

definition offerSignal :: jsval where
  "offerSignal = jobj [(''kind'', Str (js ''offer'')), (''sdp'', Str (js ''v=0''))]"

lemma offer_canonical:
  "canonicalSignalForAuth nf sid r offerSignal =
     ok (jsonText nf (signalObject sid r (Str (js ''offer'')) ''sdp'' (Str (js ''v=0''))))"
proof -
  have b: "byteBoundedForAuth (Str (js ''v=0'')) MAX_AUTH_SDP_BYTES"
    by (simp add: js_simps js_def utf8ByteLength_ascii limit_defs)
  have "hasOnlyKeys offerSignal [''kind'', ''sdp'']" by (simp add: offerSignal_def jobj_def)
  then have "assertSignalPayloadForAuth offerSignal = ok ()"
    using b by (simp add: assertSignalPayloadForAuth_def assertSignalPayload_def isSdpKind_def nonEmptyByteBoundedForAuth_def offerSignal_def
        del: byteBoundedForAuth.simps)
  then show ?thesis by (simp add: canonicalSignalForAuth_def Let_def isSdpKind_def offerSignal_def)
qed

lemma offer_utf16: "utf16Val offerSignal"
  by (simp add: offerSignal_def jobj_def)

theorem signal_text_unambiguous_witness:
  "\<exists>t. canonicalSignalForAuth plainNumbers (js ''s1'') (js ''sender'') offerSignal = ok t
    \<and> canonicalSignalForAuth plainNumbers (js ''s2'') (js ''sender'') offerSignal \<noteq> ok t
    \<and> confirmText plainNumbers 10 (js ''s2'') (js ''sender'') \<noteq> t
    \<and> canonicalPairDecisionForAuth plainCrypto plainNumbers (Str (js ''s2'')) (Str (js ''sender'')) (Str (js ''accept'')) (Str (js ''x'')) Undefined \<noteq> ok t"
proof -
  let ?t = "jsonText plainNumbers (signalObject (js ''s1'') (js ''sender'') (Str (js ''offer'')) ''sdp'' (Str (js ''v=0'')))"
  have t: "canonicalSignalForAuth plainNumbers (js ''s1'') (js ''sender'') offerSignal = ok ?t" by (rule offer_canonical)
  have "(10::nat) \<le> MAX_PAKE_PROTOCOL_VERSION" "utf16Val Undefined" "js ''s1'' \<noteq> js ''s2''" by (simp_all add: limit_defs)
  with t signal_text_unambiguous[OF offer_utf16 utf16_js utf16_js t offer_utf16 utf16_js[of "''s2''"] utf16_js[of "''sender''"],
      where v = 10 and reason = Undefined and C = plainCrypto and d = "Str (js ''accept'')" and m = "Str (js ''x'')"]
  show ?thesis by (intro exI[of _ ?t]) (simp del: js_eq_iff)
qed

section \<open>The two validators of signals\<close>

text \<open>\<open>messages.ts\<close> and \<open>security.ts\<close> each have their own validator of ICE candidates and signals.\<close>

lemma token_validators: "safeTokenForAuth v n = isSafeTokenString v n"
proof (cases v)
  case (Str s)
  have "utf8ByteLength s = length s" if "list_all (\<lambda>c. 33 \<le> c \<and> c \<le> 126) s"
    using that by (intro utf8ByteLength_ascii) (auto simp: list_all_iff)
  with Str show ?thesis by (auto simp: js_simps)
qed auto

lemma bounded_validators: "byteBoundedForAuth v n = isByteBoundedString v n"
  by (cases v) (auto simp: js_simps)

lemma candidate_validators: "isIceCandidateInitForAuth v \<longleftrightarrow> isIceCandidateInit v"
proof -
  have i: "(case x of Number n \<Rightarrow> integerIn n 0 65535 | _ \<Rightarrow> False) = (case x of Number (NInt i) \<Rightarrow> 0 \<le> i \<and> i \<le> 65535 | _ \<Rightarrow> False)" for x
    by (auto split: jsval.splits jsnum.splits)
  show ?thesis
    by (simp add: isIceCandidateInitForAuth_def isIceCandidateInit_def token_validators bounded_validators i Let_def
        safeNonEmptyByteBoundedForAuth_def isSafeNonEmptyByteBoundedString_def isSafeByteBoundedString_def limit_defs conj_ac)
qed

text \<open>The validator of the message layer accepts a signal exactly when the validator of the
  security layer does and its tag field is the base64 text of 32 bytes.\<close>

theorem signal_validators_agree:
  "isSignalPayload v \<longleftrightarrow> assertSignalPayloadForVerify v = ok () \<and> isBase64EncodedBytes (ownDataValue v ''auth'') HMAC_SHA256_BYTES"
proof -
  have "isNonEmptyByteBoundedString x MAX_SDP_BYTES = nonEmptyByteBoundedForAuth x MAX_AUTH_SDP_BYTES" for x
    by (simp add: isNonEmptyByteBoundedString_def nonEmptyByteBoundedForAuth_def bounded_validators limit_defs)
  then show ?thesis
    by (auto simp: isSignalPayload_def assertSignalPayloadForVerify_def assertSignalPayload_def Let_def isSdpKind_def candidate_validators
        simp del: isBase64EncodedBytes.simps hasOnlyKeys.simps isObject.simps)
qed

section \<open>Sealed signals come back\<close>

lemma signal_back:
  assumes "aeadLaws C" "asciiNumbers nf" "length nonce = 12" "wfJson j" "assertSignalPayloadForVerify (toVal j) = ok ()"
    "isOk (authenticationKeyCopy key)" "isOk (assertPakeSid sid)" "isOk (assertPakeRole r)"
    "sealFits 0 (wrapperJson ''webrtc-signal'' ''signal'' j [])"
    "sealNodes (wrapperJson ''webrtc-signal'' ''signal'' j []) \<le> MAX_ENCRYPTED_JSON_NODES"
    "utf8ByteLength (textOf nf (wrapperJson ''webrtc-signal'' ''signal'' j [])) \<le> MAX_ENCRYPTED_JSON_PLAINTEXT_BYTES"
  shows "\<exists>t. sealSignal C nf nonce key sid r (toVal j) = ok t \<and> openSignal C nf key sid r (Str t) = ok (toVal j)"
proof -
  let ?b = "wrapperJson ''webrtc-signal'' ''signal'' j []"
  have wf: "wfJson ?b" by (rule wrapper_wf[OF assms(4)]) (simp_all add: utf16_def)
  obtain base where base: "stringifySealedJsonValue nf (wrapper ''webrtc-signal'' ''signal'' (toVal j) []) = ok base"
    using data_sealed[OF wf assms(9-11)] sealed_eq[OF assms(2) utf16_data[OF wf]] unfolding wrapper_data by auto
  obtain target where target: "manifestPaddingTargetBytes (length (utf8Encode base)) = ok target"
    using base_padding[OF assms(2) utf16_data[OF assms(4)] base] by blast
  obtain kb s rr where a: "authenticationKeyCopy key = ok kb" "assertPakeSid sid = ok s" "assertPakeRole r = ok rr"
    using assms(6-8) by (auto simp: isOk_iff)
  define raw where "raw = hkdfSha256 C kb (utf8Encode (js ''signal-seal:'' @ s)) (utf8Encode (js ''signal '' @ rr)) 32"
  have k: "signalSealKey C key sid r us = ok (importAesKey raw us)" for us using a by (simp add: signalSealKey_def raw_def)
  have p: "pairedKey (importAesKey raw [Encrypt]) (importAesKey raw [Decrypt])" by (simp add: pairedKey_def importAesKey_def)
  define aad where "aad = utf8Encode (js ''signal:'' @ s @ 58 # rr)"
  have d: "signalAad sid r = ok aad" using a by (simp add: signalAad_def aad_def)
  obtain t w where t: "w = wrapper ''webrtc-signal'' ''signal'' (toVal j) (replicate (target - length (utf8Encode base)) 65)"
    "sealJson C nf nonce (importAesKey raw [Encrypt]) w aad = ok t" "openJson C nf (importAesKey raw [Decrypt]) (Str t) aad = ok w"
    using padded_sealed[OF assms(1,2) p assms(4,3) _ base target] by blast
  have "paddedSignalWrapper nf (toVal j) = ok w" using base target t(1) by (simp add: paddedSignalWrapper_def signal_padding)
  then show ?thesis using assms(5) k d t by (auto simp: sealSignal_def openSignal_def wrapper_opened)
qed

end
