(* ===== verification/Pake.thy ===== *)
theory Pake
  imports AuthTags
begin

text \<open>
  The password-authenticated key exchange of \<open>src/src/shared/security.ts\<close>: \<open>startPake\<close>,
  \<open>finishPake\<close>, the messages that carry the shares, and the derivation of the session keys.
  CPace itself is a field of \<open>Crypto\<close>; the entropy it draws is an argument.
\<close>

section \<open>State\<close>

definition CPACE_SHARE_BYTES :: nat where [limit_defs]: "CPACE_SHARE_BYTES = 32"
definition CPACE_SHARE_BASE64_CHARS :: nat where [limit_defs]: "CPACE_SHARE_BASE64_CHARS = 44"
definition MAX_PAKE_MESSAGE_BYTES :: nat where [limit_defs]: "MAX_PAKE_MESSAGE_BYTES = 4096"

record PakeState =
  stateRole :: jsval
  stateSid :: jsval
  stateVersion :: jsval
  stateSecret :: jsval
  stateShare :: jsval

record PakeStateParts =
  partRole :: jsstring
  partSid :: jsstring
  partVersion :: nat
  partSecret :: bytes
  partShare :: bytes

fun assertPakeCode :: "jsval \<Rightarrow> jsstring res" where
  "assertPakeCode (Str code) =
     (if length code = 0 \<or> length code > MAX_PAKE_CONTEXT_CHARS \<or> hasControlOrFormat code
      then throw ''PAKE code is invalid.'' else ok code)"
| "assertPakeCode _ = throw ''PAKE code is invalid.''"

definition passwordBytes :: "jsstring \<Rightarrow> bytes" where
  "passwordBytes code = utf8Encode (js ''p2p-transfer code v1:'' @ code)"

definition protocolContext :: "string \<Rightarrow> nat \<Rightarrow> bytes res" where
  "protocolContext prefix protocolVersion =
     andThen (assertPakeProtocolVersion (jnat protocolVersion)) (\<lambda>v. ok (utf8Encode (js prefix @ js '' protocol '' @ dec v)))"

section \<open>Starting\<close>

definition startPake :: "Crypto \<Rightarrow> bytes \<Rightarrow> jsval \<Rightarrow> jsval \<Rightarrow> jsval \<Rightarrow> jsval \<Rightarrow> PakeState res" where
  "startPake C entropy role code sid protocolVersion =
     andThen (assertPakeRole role) (\<lambda>r.
     andThen (assertPakeCode code) (\<lambda>c.
     andThen (assertPakeSid sid) (\<lambda>s.
     andThen (assertPakeProtocolVersion protocolVersion) (\<lambda>v.
     andThen (protocolContext ''p2p-transfer cpace'' v) (\<lambda>ci.
       let (secret, share) = cpaceInit C entropy (passwordBytes c) (utf8Encode s) ci in
       ok \<lparr>stateRole = role, stateSid = sid, stateVersion = protocolVersion,
           stateSecret = Uint8Array True secret, stateShare = Uint8Array True share\<rparr>)))))"

definition ownPakeShareB64 :: "PakeState option \<Rightarrow> jsstring res" where
  "ownPakeShareB64 state =
     (case state of
        Some st \<Rightarrow> (case stateShare st of Uint8Array _ _ \<Rightarrow> bytesToBase64 (stateShare st) | _ \<Rightarrow> throw ''PAKE state is invalid.'')
      | None \<Rightarrow> throw ''PAKE state is invalid.'')"

definition wipePakeState :: "PakeState option \<Rightarrow> PakeState option" where
  "wipePakeState state = map_option (\<lambda>st. st\<lparr>stateSecret := zeroed (stateSecret st), stateShare := zeroed (stateShare st)\<rparr>) state"

definition parsePakeShareMessage :: "NumberFormat \<Rightarrow> jsval \<Rightarrow> jsstring res" where
  "parsePakeShareMessage nf data =
     (case data of
        Str s \<Rightarrow>
          if length s = 0 \<or> utf8ByteLengthExceeds s MAX_PAKE_MESSAGE_BYTES then throw ''Peer sent an invalid PAKE message.''
          else (case jsonParse nf s of
             None \<Rightarrow> throw ''Peer sent an invalid PAKE message.''
           | Some parsed \<Rightarrow>
               if \<not> isObject parsed \<or> \<not> hasOnlyKeys parsed [''t'', ''share''] then throw ''Peer sent an invalid PAKE message.''
               else if ownDataValue parsed ''t'' \<noteq> Str (js ''cpace-share'') then throw ''Peer sent an invalid PAKE message.''
               else (case ownDataValue parsed ''share'' of
                  Str share \<Rightarrow>
                    if length share \<noteq> CPACE_SHARE_BASE64_CHARS then throw ''Peer sent an invalid PAKE share.''
                    else (case base64ToBytes (Str share) of
                       Inl _ \<Rightarrow> throw ''Peer sent an invalid PAKE share.''
                     | Inr bs \<Rightarrow> if length bs \<noteq> CPACE_SHARE_BYTES then throw ''Peer sent an invalid PAKE share.'' else ok share)
                | _ \<Rightarrow> throw ''Peer sent an invalid PAKE message.''))
      | _ \<Rightarrow> throw ''Peer sent an invalid PAKE message.'')"

section \<open>Finishing\<close>

definition readPakeState :: "PakeState option \<Rightarrow> PakeStateParts res" where
  "readPakeState state =
     (case state of
        None \<Rightarrow> throw ''PAKE state is invalid.''
      | Some st \<Rightarrow>
          andThen (assertPakeRole (stateRole st)) (\<lambda>r.
          andThen (assertPakeSid (stateSid st)) (\<lambda>s.
          andThen (assertPakeProtocolVersion (stateVersion st)) (\<lambda>v.
          andThen (canonicalUint8ArrayByteLength (stateSecret st) ''PAKE state is invalid.'') (\<lambda>n.
          andThen (canonicalUint8ArrayByteLength (stateShare st) ''PAKE state is invalid.'') (\<lambda>m.
            if n \<noteq> CPACE_SHARE_BYTES \<or> m \<noteq> CPACE_SHARE_BYTES then throw ''PAKE state is invalid.''
            else ok \<lparr>partRole = r, partSid = s, partVersion = v, partSecret = bytesOf (stateSecret st), partShare = bytesOf (stateShare st)\<rparr>))))))"

record RawKeys =
  rawSignalAuthKey :: bytes
  rawManifestKey :: bytes
  rawControlSenderToReceiver :: bytes
  rawControlReceiverToSender :: bytes
  rawBulkSenderToReceiver :: bytes
  rawBulkReceiverToSender :: bytes
  rawSas :: bytes

definition derive :: "Crypto \<Rightarrow> bytes \<Rightarrow> bytes \<Rightarrow> string \<Rightarrow> nat \<Rightarrow> bytes" where
  "derive C ikm salt info len = hkdfSha256 C ikm salt (utf8Encode (js info)) len"

definition deriveRawKeys :: "Crypto \<Rightarrow> bytes \<Rightarrow> jsstring \<Rightarrow> nat \<Rightarrow> RawKeys res" where
  "deriveRawKeys C isk sid protocolVersion =
     andThen (protocolContext ''p2p-transfer session keys'' protocolVersion) (\<lambda>ctx.
       let salt = ctx @ utf8Encode sid in
       ok \<lparr>rawSignalAuthKey = derive C isk salt ''signal-auth'' 32,
           rawManifestKey = derive C isk salt ''manifest-aead'' 32,
           rawControlSenderToReceiver = derive C isk salt ''control-aead sender-to-receiver'' 32,
           rawControlReceiverToSender = derive C isk salt ''control-aead receiver-to-sender'' 32,
           rawBulkSenderToReceiver = derive C isk salt ''bulk-aead sender-to-receiver'' 32,
           rawBulkReceiverToSender = derive C isk salt ''bulk-aead receiver-to-sender'' 32,
           rawSas = derive C isk salt ''sas'' 8\<rparr>)"

text \<open>The first twelve hexadecimal digits in groups of four.\<close>

definition formatSas :: "bytes \<Rightarrow> jsstring" where
  "formatSas sas =
     (let sasHex = take 12 (bytesToHex sas) in
      joinWith 45 (filter (\<lambda>g. g \<noteq> []) [take 4 sasHex, take 4 (drop 4 sasHex), drop 8 sasHex]))"

definition roleName :: "bool \<Rightarrow> jsstring" where
  "roleName isSender = (if isSender then js ''sender'' else js ''receiver'')"

text \<open>\<open>crypto.subtle.importKey\<close> may reject: the \<open>i\<close>-th import of \<open>finishPake\<close> fails with \<open>imports i\<close>.\<close>

type_synonym importFaults = "nat \<Rightarrow> string option"

definition importKey :: "string option \<Rightarrow> bytes \<Rightarrow> KeyUsage list \<Rightarrow> CryptoKey res" where
  "importKey fault raw usages = (case fault of Some err \<Rightarrow> throw err | None \<Rightarrow> ok (importAesKey raw usages))"

text \<open>The keys, and the state after the \<open>finally\<close> block, which wipes it on every path.\<close>

definition finishPakeKeys :: "Crypto \<Rightarrow> importFaults \<Rightarrow> PakeState option \<Rightarrow> jsval \<Rightarrow> SessionKeys res" where
  "finishPakeKeys C imports state peerShareB64 =
     andThen (readPakeState state) (\<lambda>parts.
       if strLength peerShareB64 \<noteq> CPACE_SHARE_BASE64_CHARS then throw ''Peer sent an invalid PAKE share.''
       else andThen (base64ToBytes peerShareB64) (\<lambda>peerShare.
         if length peerShare \<noteq> CPACE_SHARE_BYTES then throw ''Peer sent an invalid PAKE share.''
         else
           let sender = (partRole parts = js ''sender'') in
           (case cpaceDerive C sender (partSecret parts) (partShare parts) peerShare (utf8Encode (partRole parts))
                  (utf8Encode (roleName (\<not> sender))) (utf8Encode (partSid parts)) of
              None \<Rightarrow> throw ''CPace error''
            | Some isk \<Rightarrow>
                andThen (deriveRawKeys C isk (partSid parts) (partVersion parts)) (\<lambda>raw.
                andThen (importKey (imports 0) (rawManifestKey raw) (if sender then [Encrypt] else [Decrypt])) (\<lambda>manifestKey.
                andThen (importKey (imports 1) (if sender then rawControlSenderToReceiver raw else rawControlReceiverToSender raw) [Encrypt]) (\<lambda>controlSend.
                andThen (importKey (imports 2) (if sender then rawControlReceiverToSender raw else rawControlSenderToReceiver raw) [Decrypt]) (\<lambda>controlRecv.
                andThen (importKey (imports 3) (if sender then rawBulkSenderToReceiver raw else rawBulkReceiverToSender raw) [Encrypt]) (\<lambda>bulkSend.
                andThen (importKey (imports 4) (if sender then rawBulkReceiverToSender raw else rawBulkSenderToReceiver raw) [Decrypt]) (\<lambda>bulkRecv.
                ok \<lparr>keysSid = Str (partSid parts), keysRole = Str (partRole parts), keysVersion = jnat (partVersion parts),
                    keysSas = Str (formatSas (rawSas raw)), keysDestroyed = Boolean False,
                    keysSignalAuthKey = Uint8Array True (rawSignalAuthKey raw), keysManifestKey = Some manifestKey,
                    keysControlSendKey = Some controlSend, keysControlRecvKey = Some controlRecv,
                    keysBulkSendKey = Some bulkSend, keysBulkRecvKey = Some bulkRecv\<rparr>)))))))))"

definition finishPake :: "Crypto \<Rightarrow> importFaults \<Rightarrow> PakeState option \<Rightarrow> jsval \<Rightarrow> SessionKeys res \<times> PakeState option" where
  "finishPake C imports state peerShareB64 = (finishPakeKeys C imports state peerShareB64, wipePakeState state)"

abbreviation importsWork :: importFaults where
  "importsWork \<equiv> \<lambda>_. None"

section \<open>What CPace promises\<close>

text \<open>Two parties that start with the same password, session and context derive the same key from
  each other's shares, in opposite roles; scalars and shares have 32 bytes.\<close>

definition cpaceLaws :: "Crypto \<Rightarrow> bool" where
  "cpaceLaws C \<longleftrightarrow>
     (\<forall>e1 e2 prs sid ci adA adB.
        let (x, X) = cpaceInit C e1 prs sid ci; (y, Y) = cpaceInit C e2 prs sid ci in
        length x = 32 \<and> length X = 32
        \<and> (\<exists>isk. cpaceDerive C True x X Y adA adB sid = Some isk \<and> cpaceDerive C False y Y X adB adA sid = Some isk))"

lemma cpaceD:
  assumes "cpaceLaws C" "cpaceInit C e1 prs sid ci = (x, X)" "cpaceInit C e2 prs sid ci = (y, Y)"
  shows "length x = 32" "length X = 32"
    "\<exists>isk. cpaceDerive C True x X Y adA adB sid = Some isk \<and> cpaceDerive C False y Y X adB adA sid = Some isk"
proof -
  have "let (x, X) = cpaceInit C e1 prs sid ci; (y, Y) = cpaceInit C e2 prs sid ci in length x = 32 \<and> length X = 32
    \<and> (\<exists>isk. cpaceDerive C True x X Y adA adB sid = Some isk \<and> cpaceDerive C False y Y X adB adA sid = Some isk)"
    using assms(1) unfolding cpaceLaws_def by blast
  then show "length x = 32" "length X = 32"
    "\<exists>isk. cpaceDerive C True x X Y adA adB sid = Some isk \<and> cpaceDerive C False y Y X adB adA sid = Some isk"
    unfolding assms(2,3) by simp_all
qed

lemma role_names: "assertPakeRole (Str (roleName b)) = ok (roleName b)" "roleName b = js ''sender'' \<longleftrightarrow> b"
  by (simp_all add: roleName_def)

lemma version_ok: "assertPakeProtocolVersion w = ok v \<Longrightarrow> assertPakeProtocolVersion (jnat v) = ok v \<and> w = jnat v"
  by (cases w rule: assertPakeProtocolVersion.cases) (auto simp: jnat_def split: if_splits)

lemma sid_ok: "assertPakeSid w = ok s \<Longrightarrow> w = Str s"
  by (cases w) (auto split: if_splits)

text \<open>A state that \<open>startPake\<close> made, read back by \<open>finishPake\<close>.\<close>

lemma started:
  assumes "cpaceLaws C" "startPake C e (Str (roleName b)) code sid w = ok st"
  obtains c s v x X ci where "assertPakeCode code = ok c" "assertPakeSid sid = ok s" "assertPakeProtocolVersion w = ok v"
    "protocolContext ''p2p-transfer cpace'' v = ok ci" "cpaceInit C e (passwordBytes c) (utf8Encode s) ci = (x, X)"
    "readPakeState (Some st) = ok \<lparr>partRole = roleName b, partSid = s, partVersion = v, partSecret = x, partShare = X\<rparr>"
    "ownPakeShareB64 (Some st) = ok (base64Encode X)" "length X = 32"
proof -
  obtain c s v ci where a: "assertPakeCode code = ok c" "assertPakeSid sid = ok s" "assertPakeProtocolVersion w = ok v"
    "protocolContext ''p2p-transfer cpace'' v = ok ci"
    using assms(2) unfolding startPake_def role_names andThen_eq_Inr by blast
  obtain x X where i: "cpaceInit C e (passwordBytes c) (utf8Encode s) ci = (x, X)" by fastforce
  have st: "st = \<lparr>stateRole = Str (roleName b), stateSid = sid, stateVersion = w, stateSecret = Uint8Array True x, stateShare = Uint8Array True X\<rparr>"
    using assms(2) a i unfolding startPake_def role_names by simp
  have l: "length x = 32" "length X = 32" using cpaceD(1,2)[OF assms(1) i i] by simp_all
  have "readPakeState (Some st) = ok \<lparr>partRole = roleName b, partSid = s, partVersion = v, partSecret = x, partShare = X\<rparr>"
    using a l unfolding st readPakeState_def by (simp add: role_names CPACE_SHARE_BYTES_def del: assertPakeRole.simps)
  moreover have "ownPakeShareB64 (Some st) = ok (base64Encode X)" unfolding st by (simp add: ownPakeShareB64_def bytesToBase64_def)
  ultimately show thesis using that a i l by blast
qed

definition sessionKeysOf :: "bool \<Rightarrow> jsstring \<Rightarrow> nat \<Rightarrow> RawKeys \<Rightarrow> SessionKeys" where
  "sessionKeysOf sender s v raw =
     \<lparr>keysSid = Str s, keysRole = Str (roleName sender), keysVersion = jnat v,
      keysSas = Str (formatSas (rawSas raw)), keysDestroyed = Boolean False,
      keysSignalAuthKey = Uint8Array True (rawSignalAuthKey raw),
      keysManifestKey = Some (importAesKey (rawManifestKey raw) (if sender then [Encrypt] else [Decrypt])),
      keysControlSendKey = Some (importAesKey (if sender then rawControlSenderToReceiver raw else rawControlReceiverToSender raw) [Encrypt]),
      keysControlRecvKey = Some (importAesKey (if sender then rawControlReceiverToSender raw else rawControlSenderToReceiver raw) [Decrypt]),
      keysBulkSendKey = Some (importAesKey (if sender then rawBulkSenderToReceiver raw else rawBulkReceiverToSender raw) [Encrypt]),
      keysBulkRecvKey = Some (importAesKey (if sender then rawBulkReceiverToSender raw else rawBulkSenderToReceiver raw) [Decrypt])\<rparr>"

lemma share_decodes:
  assumes "length X = 32"
  shows "base64ToBytes (Str (base64Encode X)) = ok X" "length (base64Encode X) = 44"
proof -
  show l: "length (base64Encode X) = 44" using assms by (simp add: length_base64Encode base64EncodedLength_def)
  show "base64ToBytes (Str (base64Encode X)) = ok X" using assms l by (intro base64_back) (auto simp: limit_defs)
qed

lemma finished:
  assumes "readPakeState (Some st) = ok \<lparr>partRole = roleName b, partSid = s, partVersion = v, partSecret = x, partShare = X\<rparr>"
    "length Y = 32" "cpaceDerive C b x X Y (utf8Encode (roleName b)) (utf8Encode (roleName (\<not> b))) (utf8Encode s) = Some isk"
    "deriveRawKeys C isk s v = ok raw"
  shows "finishPakeKeys C importsWork (Some st) (Str (base64Encode Y)) = ok (sessionKeysOf b s v raw)"
  using assms share_decodes[OF assms(2)]
  by (simp add: finishPakeKeys_def importKey_def role_names Let_def sessionKeysOf_def limit_defs del: base64ToBytes.simps)

lemma raw_keys: "assertPakeProtocolVersion (jnat v) = ok v \<Longrightarrow> \<exists>raw. deriveRawKeys C isk s v = ok raw"
  by (simp add: deriveRawKeys_def protocolContext_def Let_def)

lemma keys_matched:
  assumes "assertPakeSid (Str s) = ok s"
  shows "matchedKeys (Some (sessionKeysOf True s v raw)) (Some (sessionKeysOf False s v raw))"
  using assms by (simp add: matchedKeys_def activeSessionKeys_def sessionKeysOf_def pairedKey_def importAesKey_def del: assertPakeSid.simps)

lemma keys_agree:
  assumes "cpaceLaws C" "startPake C e1 (Str (js ''sender'')) code sid w = ok a" "startPake C e2 (Str (js ''receiver'')) code sid w = ok b"
    "ownPakeShareB64 (Some a) = ok sa" "ownPakeShareB64 (Some b) = ok sb"
  obtains s v raw isk where "assertPakeSid (Str s) = ok s" "assertPakeProtocolVersion (jnat v) = ok v" "sid = Str s" "w = jnat v"
    "deriveRawKeys C isk s v = ok raw"
    "finishPakeKeys C importsWork (Some a) (Str sb) = ok (sessionKeysOf True s v raw)" "finishPakeKeys C importsWork (Some b) (Str sa) = ok (sessionKeysOf False s v raw)"
proof -
  have r: "startPake C e1 (Str (roleName True)) code sid w = ok a" "startPake C e2 (Str (roleName False)) code sid w = ok b"
    using assms(2,3) by (simp_all add: roleName_def)
  obtain c s v x X ci where A: "assertPakeCode code = ok c" "assertPakeSid sid = ok s" "assertPakeProtocolVersion w = ok v"
    "protocolContext ''p2p-transfer cpace'' v = ok ci" "cpaceInit C e1 (passwordBytes c) (utf8Encode s) ci = (x, X)"
    "readPakeState (Some a) = ok \<lparr>partRole = roleName True, partSid = s, partVersion = v, partSecret = x, partShare = X\<rparr>"
    "ownPakeShareB64 (Some a) = ok (base64Encode X)" "length X = 32"
    by (rule started[OF assms(1) r(1)])
  obtain c' s' v' y Y ci' where B': "assertPakeCode code = ok c'" "assertPakeSid sid = ok s'" "assertPakeProtocolVersion w = ok v'"
    "protocolContext ''p2p-transfer cpace'' v' = ok ci'" "cpaceInit C e2 (passwordBytes c') (utf8Encode s') ci' = (y, Y)"
    "readPakeState (Some b) = ok \<lparr>partRole = roleName False, partSid = s', partVersion = v', partSecret = y, partShare = Y\<rparr>"
    "ownPakeShareB64 (Some b) = ok (base64Encode Y)" "length Y = 32"
    by (rule started[OF assms(1) r(2)])
  have "c' = c" "s' = s" "v' = v" "ci' = ci" using A(1-4) B'(1-4) by simp_all
  then have B: "cpaceInit C e2 (passwordBytes c) (utf8Encode s) ci = (y, Y)"
    "readPakeState (Some b) = ok \<lparr>partRole = roleName False, partSid = s, partVersion = v, partSecret = y, partShare = Y\<rparr>"
    "ownPakeShareB64 (Some b) = ok (base64Encode Y)" "length Y = 32"
    using B'(5-8) by simp_all
  obtain isk where isk: "cpaceDerive C True x X Y (utf8Encode (roleName True)) (utf8Encode (roleName False)) (utf8Encode s) = Some isk"
    "cpaceDerive C False y Y X (utf8Encode (roleName False)) (utf8Encode (roleName True)) (utf8Encode s) = Some isk"
    using cpaceD(3)[OF assms(1) A(5) B(1)] by blast
  have v: "assertPakeProtocolVersion (jnat v) = ok v" "w = jnat v" using version_ok[OF A(3)] by simp_all
  obtain raw where raw: "deriveRawKeys C isk s v = ok raw" using raw_keys[OF v(1)] by blast
  have "sa = base64Encode X" "sb = base64Encode Y" using assms(4,5) A(7) B(3) by simp_all
  then have "finishPakeKeys C importsWork (Some a) (Str sb) = ok (sessionKeysOf True s v raw)" "finishPakeKeys C importsWork (Some b) (Str sa) = ok (sessionKeysOf False s v raw)"
    using finished[OF A(6) B(4) _ raw] finished[OF B(2) A(8) _ raw] isk by simp_all
  then show thesis using that v raw sid_ok[OF A(2)] A(2) by blast
qed

section \<open>The exchange of the clients\<close>

text \<open>\<open>establishKeys\<close> of \<open>src/src/cli/secure.ts\<close> (and of the browser client), as a function of the two
  messages it waits for; \<open>Inl\<close> stands for a wait that was rejected. Each of the two calls of
  \<open>signaling.send\<close> may throw, and so may the imports of the keys. The run records what was sent, the
  outcome, and what is left of the state and the keys.\<close>

record ExchangeFaults =
  pakeSendFault :: "string option"
  confirmSendFault :: "string option"
  keyImportFault :: importFaults

definition noFaults :: ExchangeFaults where
  "noFaults = \<lparr>pakeSendFault = None, confirmSendFault = None, keyImportFault = importsWork\<rparr>"

record EstablishRun =
  runSent :: "jsval list"
  runResult :: "SessionKeys res"
  runState :: "PakeState option"
  runKeys :: "SessionKeys option"

definition pakeData :: "NumberFormat \<Rightarrow> jsstring \<Rightarrow> jsval" where
  "pakeData nf share = Str (jsonText nf (jobj [(''t'', Str (js ''cpace-share'')), (''share'', Str share)]))"

definition pakeShareMessage :: "NumberFormat \<Rightarrow> jsval \<Rightarrow> jsstring \<Rightarrow> jsval" where
  "pakeShareMessage nf sid share = jobj [(''type'', Str (js ''pake'')), (''sid'', sid), (''data'', pakeData nf share)]"

definition confirmTagMessage :: "jsval \<Rightarrow> jsstring \<Rightarrow> jsval" where
  "confirmTagMessage sid tag = jobj [(''type'', Str (js ''confirm'')), (''sid'', sid), (''tag'', Str tag)]"

text \<open>The \<open>catch\<close> block.\<close>

definition abandon :: "jsval list \<Rightarrow> string \<Rightarrow> PakeState \<Rightarrow> SessionKeys option \<Rightarrow> EstablishRun" where
  "abandon sent err state keys =
     \<lparr>runSent = sent, runResult = throw err, runState = wipePakeState (Some state), runKeys = wipeSessionKeys keys\<rparr>"

definition establishKeys ::
  "Crypto \<Rightarrow> NumberFormat \<Rightarrow> ExchangeFaults \<Rightarrow> bytes \<Rightarrow> jsval \<Rightarrow> bool \<Rightarrow> jsval \<Rightarrow> jsval res \<Rightarrow> jsval res \<Rightarrow> EstablishRun" where
  "establishKeys C nf faults entropy sid isSender code peer confirm =
     (case startPake C entropy (Str (roleName isSender)) code sid (jnat PROTOCOL_VERSION) of
        Inl err \<Rightarrow> \<lparr>runSent = [], runResult = throw err, runState = None, runKeys = None\<rparr>
      | Inr state \<Rightarrow>
          (case ownPakeShareB64 (Some state) of
             Inl err \<Rightarrow> abandon [] err state None
           | Inr share \<Rightarrow>
          (case pakeSendFault faults of
             Some err \<Rightarrow> abandon [] err state None
           | None \<Rightarrow>
               let sent = [pakeShareMessage nf sid share] in
               case andThen peer (parsePakeShareMessage nf) of
                 Inl err \<Rightarrow> abandon sent err state None
               | Inr peerShare \<Rightarrow>
                   (case finishPake C (keyImportFault faults) (Some state) (Str peerShare) of
                      (Inl err, _) \<Rightarrow> abandon sent err state None
                    | (Inr keys, state') \<Rightarrow>
                        (case sessionConfirmTag C nf (keysSignalAuthKey keys) sid (Str (roleName isSender)) (keysVersion keys) of
                           Inl err \<Rightarrow> abandon sent err state (Some keys)
                         | Inr tag \<Rightarrow>
                        (case confirmSendFault faults of
                           Some err \<Rightarrow> abandon sent err state (Some keys)
                         | None \<Rightarrow>
                             let sent = sent @ [confirmTagMessage sid tag] in
                             case confirm of
                               Inl err \<Rightarrow> abandon sent err state (Some keys)
                             | Inr peerTag \<Rightarrow>
                                 if \<not> verifySessionConfirmTag C nf (keysSignalAuthKey keys) sid (Str (roleName (\<not> isSender))) peerTag (keysVersion keys)
                                 then abandon sent ''PAKE confirmation failed. Wrong code or signaling MITM.'' state (Some keys)
                                 else \<lparr>runSent = sent, runResult = ok keys, runState = state', runKeys = Some keys\<rparr>))))))"

lemma encode_ascii: "list_all (\<lambda>c. c < 0x80) (base64Encode bs)"
proof -
  have c: "base64Char i < 128" if "i < 64" for i using that by (auto simp: base64Char_def)
  show ?thesis by (induction bs rule: base64Encode.induct) (simp_all add: c sextet_sums)
qed

lemma quote_length: "length (jsonQuote s) \<le> 2 + 6 * length s"
proof -
  have e: "length (jsonEscape [c]) \<le> 6" for c by (auto simp: jsonEscape_def hex4_def split: option.splits)
  have "length (concat (map jsonEscape (strChars s))) \<le> 6 * length s"
  proof (induction s rule: strChars.induct)
    case (3 x y zs)
    then show ?case using e[of x] by (cases "isHighSurrogate x \<and> isLowSurrogate y") (auto simp: jsonEscape_pair)
  qed (use e in auto)
  then show ?thesis by (simp add: jsonQuote_def)
qed

lemma share_message:
  assumes "length X = 32" shows "parsePakeShareMessage nf (pakeData nf (base64Encode X)) = ok (base64Encode X)"
proof -
  let ?e = "base64Encode X"
  let ?v = "jobj [(''t'', Str (js ''cpace-share'')), (''share'', Str ?e)]" and ?j = "JObj [(js ''t'', JStr (js ''cpace-share'')), (js ''share'', JStr ?e)]"
  have v: "?v = toVal ?j" by (simp add: jobj_def)
  have u: "utf16 ?e" using encode_ascii[of X] by (auto simp: utf16_def list_all_iff)
  have k: "\<not> isIndexKey (js ''share'')" by (simp add: isIndexKey_def wholeDigits_def js_def isDigit_def)
  have wf: "wfJson ?j" using u k by (simp add: ownKeyOrder_def field_keys)
  have p: "jsonParse nf (jsonText nf ?v) = Some ?v" unfolding v by (rule jsonParse_text[OF wf])
  have n: "jsonText nf ?v \<noteq> []" unfolding v text_simps by simp
  have t: "jsonText nf ?v = js ''{\"t\":\"cpace-share\",\"share\":'' @ jsonQuote ?e @ [125]"
    unfolding v text_simps by (simp add: js_def jsonQuote_def jsonEscape_def escapeLetter_def isHighSurrogate_def)
  have "length (jsonText nf ?v) \<le> 300" unfolding t using quote_length[of ?e] share_decodes(2)[OF assms] by simp
  then have b: "utf8ByteLength (jsonText nf ?v) \<le> MAX_PAKE_MESSAGE_BYTES"
    using utf8ByteLength_le_units[of "jsonText nf ?v"] by (simp add: limit_defs)
  have o: "hasOnlyKeys ?v [''t'', ''share'']" by (simp add: jobj_def)
  show ?thesis
    unfolding pakeData_def parsePakeShareMessage_def
    using p n b o share_decodes[OF assms] assms by (simp add: js_simps limit_defs del: base64ToBytes.simps)
qed

lemma wiped_state: "set (bytesOf (zeroed v)) \<subseteq> {0}" "length (bytesOf (zeroed v)) = length (bytesOf v)"
  by (cases v; auto)+

lemma abandon_result: "runResult (abandon sent err st k) = throw e \<longleftrightarrow> err = e"
  by (simp add: abandon_def)

lemma finish_fresh: "finishPakeKeys C f st p = ok k \<Longrightarrow> keysDestroyed k = Boolean False"
  by (auto simp: finishPakeKeys_def Let_def split: if_splits option.splits)

lemma confirm_tag_made:
  assumes "length key = 32" "assertPakeSid (Str s) = ok s" "assertPakeProtocolVersion (jnat v) = ok v"
  shows "\<exists>t. sessionConfirmTag C nf (Uint8Array True key) (Str s) (Str (roleName r)) (jnat v) = ok t"
  using assms by (simp add: sessionConfirmTag_def authenticationKeyCopy_def role_names bytesToBase64_def limit_defs
      del: assertPakeRole.simps assertPakeSid.simps)

lemma plain_cpace: "cpaceLaws plainCrypto"
  by (simp add: cpaceLaws_def plainCrypto_def)

lemma plain_code: "assertPakeCode (Str (js ''12-ab'')) = ok (js ''12-ab'')"
proof -
  have "\<not> hasControlOrFormat (js ''12-ab'')"
    by (simp add: hasControlOrFormat_def codePoints_def js_def isHighSurrogate_def isControlOrFormat_def isCc_def isCf_def cfRanges_def)
  then show ?thesis by (simp add: limit_defs)
qed

lemma plain_started:
  "startPake plainCrypto [] (Str (roleName r)) (Str (js ''12-ab'')) (Str (js ''s1'')) (jnat 10) =
     ok \<lparr>stateRole = Str (roleName r), stateSid = Str (js ''s1''), stateVersion = jnat 10,
         stateSecret = Uint8Array True (replicate 32 1), stateShare = Uint8Array True (replicate 32 2)\<rparr>"
  by (simp add: startPake_def role_names plain_code plain_sid protocolContext_def jnat_def limit_defs plainCrypto_def
      del: assertPakeRole.simps assertPakeCode.simps assertPakeSid.simps)

lemma plain_share:
  "ownPakeShareB64 (Some \<lparr>stateRole = r, stateSid = s, stateVersion = v, stateSecret = x, stateShare = Uint8Array True (replicate 32 2)\<rparr>) =
     ok (base64Encode (replicate 32 2))"
  by (simp add: ownPakeShareB64_def bytesToBase64_def)

section \<open>Properties\<close>

text \<open>Two peers that run the exchange with the same code, session and version end with keys that
  belong together: the same verification string and authentication key, and sealing keys that
  cross over, so that each side opens what the other seals.\<close>

theorem pake_agreement:
  assumes "cpaceLaws C" "hashLaws C" "startPake C e1 (Str (js ''sender'')) code sid w = ok a"
    "startPake C e2 (Str (js ''receiver'')) code sid w = ok b" "ownPakeShareB64 (Some a) = ok sa" "ownPakeShareB64 (Some b) = ok sb"
  shows "\<exists>ka kb. fst (finishPake C importsWork (Some a) (Str sb)) = ok ka \<and> fst (finishPake C importsWork (Some b) (Str sa)) = ok kb
    \<and> matchedKeys (Some ka) (Some kb) \<and> keysSas ka = keysSas kb \<and> keysSignalAuthKey ka = keysSignalAuthKey kb
    \<and> length (bytesOf (keysSignalAuthKey ka)) = 32"
proof -
  obtain s v raw isk where k: "assertPakeSid (Str s) = ok s" "deriveRawKeys C isk s v = ok raw"
    "finishPakeKeys C importsWork (Some a) (Str sb) = ok (sessionKeysOf True s v raw)" "finishPakeKeys C importsWork (Some b) (Str sa) = ok (sessionKeysOf False s v raw)"
    using keys_agree[OF assms(1,3-6)] by metis
  have "length (rawSignalAuthKey raw) = 32"
    using k(2) assms(2) by (auto simp: deriveRawKeys_def Let_def derive_def hashLaws_def)
  then show ?thesis using k keys_matched[OF k(1)] by (auto simp: finishPake_def) (auto simp: sessionKeysOf_def)
qed

theorem pake_agreement_witness:
  "\<exists>ka kb sb. fst (finishPake plainCrypto importsWork (Some \<lparr>stateRole = Str (js ''sender''), stateSid = Str (js ''s1''), stateVersion = jnat 10,
         stateSecret = Uint8Array True (replicate 32 1), stateShare = Uint8Array True (replicate 32 2)\<rparr>) (Str sb)) = ok ka
    \<and> matchedKeys (Some ka) (Some kb) \<and> keysSas ka = keysSas kb"
  using pake_agreement[OF plain_cpace plain_hash plain_started[of True, unfolded roleName_def if_True]
      plain_started[of False, unfolded roleName_def if_False] plain_share plain_share] by blast

text \<open>C6: A sender and a receiver that run the exchange with the same code over a connection that
  delivers their messages both end with keys, and the keys belong together. (The messages each
  side waits for are those the other side sends.)\<close>

theorem establish_agreement:
  assumes "cpaceLaws C" "hashLaws C" "isOk (assertPakeCode code)" "isOk (assertPakeSid sid)"
  shows "\<exists>sentA sentB ka kb. length sentA = 2 \<and> length sentB = 2
    \<and> (let a = establishKeys C nf noFaults e1 sid True code (ok (ownDataValue (sentB ! 0) ''data'')) (ok (ownDataValue (sentB ! 1) ''tag''));
           b = establishKeys C nf noFaults e2 sid False code (ok (ownDataValue (sentA ! 0) ''data'')) (ok (ownDataValue (sentA ! 1) ''tag'')) in
       runSent a = sentA \<and> runSent b = sentB \<and> runResult a = ok ka \<and> runResult b = ok kb \<and> matchedKeys (Some ka) (Some kb)
       \<and> keysSas ka = keysSas kb)"
proof -
  have v: "assertPakeProtocolVersion (jnat PROTOCOL_VERSION) = ok PROTOCOL_VERSION" by (simp add: jnat_def limit_defs)
  obtain c s where cs: "assertPakeCode code = ok c" "assertPakeSid sid = ok s" using assms(3,4) by (auto simp: isOk_iff)
  have "\<exists>st. startPake C e (Str (roleName r)) code sid (jnat PROTOCOL_VERSION) = ok st" for e r
    using cs v by (auto simp: startPake_def role_names protocolContext_def split: prod.splits simp del: assertPakeRole.simps)
  then obtain a b where st: "startPake C e1 (Str (roleName True)) code sid (jnat PROTOCOL_VERSION) = ok a"
    "startPake C e2 (Str (roleName False)) code sid (jnat PROTOCOL_VERSION) = ok b" by metis
  obtain X where X: "ownPakeShareB64 (Some a) = ok (base64Encode X)" "length X = 32" by (rule started[OF assms(1) st(1)])
  obtain Y where Y: "ownPakeShareB64 (Some b) = ok (base64Encode Y)" "length Y = 32" by (rule started[OF assms(1) st(2)])
  obtain s' v' raw isk where k: "assertPakeSid (Str s') = ok s'" "assertPakeProtocolVersion (jnat v') = ok v'" "sid = Str s'"
    "deriveRawKeys C isk s' v' = ok raw" "finishPakeKeys C importsWork (Some a) (Str (base64Encode Y)) = ok (sessionKeysOf True s' v' raw)"
    "finishPakeKeys C importsWork (Some b) (Str (base64Encode X)) = ok (sessionKeysOf False s' v' raw)"
    using keys_agree[OF assms(1) st[unfolded roleName_def if_True if_False] X(1) Y(1)] by metis
  let ?key = "Uint8Array True (rawSignalAuthKey raw)"
  have l: "length (rawSignalAuthKey raw) = 32" using k(4) assms(2) by (auto simp: deriveRawKeys_def Let_def derive_def hashLaws_def)
  have "\<exists>t. sessionConfirmTag C nf ?key sid (Str (roleName r)) (jnat v') = ok t" for r
    unfolding k(3) by (rule confirm_tag_made[OF l k(1,2)])
  then obtain ta tb where tag: "sessionConfirmTag C nf ?key sid (Str (roleName True)) (jnat v') = ok ta"
    "sessionConfirmTag C nf ?key sid (Str (roleName False)) (jnat v') = ok tb" by metis
  have ver: "verifySessionConfirmTag C nf ?key sid (Str (roleName True)) (Str ta) (jnat v')"
    "verifySessionConfirmTag C nf ?key sid (Str (roleName False)) (Str tb) (jnat v')"
    unfolding confirm_verified[OF assms(2)] using tag by simp_all
  let ?A = "[pakeShareMessage nf sid (base64Encode X), confirmTagMessage sid ta]"
  let ?B = "[pakeShareMessage nf sid (base64Encode Y), confirmTagMessage sid tb]"
  let ?ka = "sessionKeysOf True s' v' raw" and ?kb = "sessionKeysOf False s' v' raw"
  have f: "keysSignalAuthKey (sessionKeysOf r s' v' raw) = ?key" "keysVersion (sessionKeysOf r s' v' raw) = jnat v'"
    "keysSas (sessionKeysOf r s' v' raw) = Str (formatSas (rawSas raw))" for r by (simp_all add: sessionKeysOf_def)
  have m: "ownDataValue (pakeShareMessage nf sid x) ''data'' = pakeData nf x" "ownDataValue (confirmTagMessage sid t) ''tag'' = Str t" for x t
    by (simp_all add: pakeShareMessage_def confirmTagMessage_def)
  show ?thesis
    using st X Y k tag ver f m share_message[OF X(2), of nf] share_message[OF Y(2), of nf] keys_matched[OF k(1), of v' raw]
    by (intro exI[of _ ?A] exI[of _ ?B] exI[of _ ?ka] exI[of _ ?kb]) (simp add: establishKeys_def finishPake_def noFaults_def)
qed

theorem establish_agreement_witness:
  "\<exists>sentB ka. length sentB = 2 \<and> runResult (establishKeys plainCrypto plainNumbers noFaults [] (Str (js ''s1'')) True (Str (js ''12-ab''))
      (ok (ownDataValue (sentB ! 0) ''data'')) (ok (ownDataValue (sentB ! 1) ''tag''))) = ok ka"
proof -
  have o: "isOk (assertPakeCode (Str (js ''12-ab'')))" "isOk (assertPakeSid (Str (js ''s1'')))"
    unfolding plain_code plain_sid by simp_all
  show ?thesis using establish_agreement[OF plain_cpace plain_hash o, of plainNumbers "[]" "[]"] unfolding Let_def by blast
qed

text \<open>C24: Whenever the exchange fails after it started (a send that throws, a wait that is rejected, a
  malformed message, a failing derivation or key import, a confirmation that does not match), the
  secret and the share in the state are overwritten with zeros, and of keys that were already derived
  nothing is left: all five AES keys are dropped, the authentication key is overwritten with zeros,
  and the keys are marked destroyed, so that every later use of them is refused.\<close>

theorem establish_failure_wipes:
  fixes C nf faults e sid r code peer confirm
  defines "run \<equiv> establishKeys C nf faults e sid r code peer confirm"
  assumes "runResult run = throw err"
  shows "(\<forall>st. runState run = Some st \<longrightarrow> set (bytesOf (stateSecret st)) \<subseteq> {0} \<and> set (bytesOf (stateShare st)) \<subseteq> {0})
    \<and> (\<forall>k. runKeys run = Some k \<longrightarrow>
        [keysManifestKey k, keysControlSendKey k, keysControlRecvKey k, keysBulkSendKey k, keysBulkRecvKey k] = replicate 5 None
        \<and> set (bytesOf (keysSignalAuthKey k)) \<subseteq> {0} \<and> keysDestroyed k = Boolean True
        \<and> activeSessionKeys (Some k) = throw ''Session keys have been wiped.'')"
proof -
  consider "runState run = None" "runKeys run = None" | sent st where "run = abandon sent err st None"
    | sent st k p where "run = abandon sent err st (Some k)" "finishPakeKeys C (keyImportFault faults) (Some st) (Str p) = ok k"
    using assms unfolding establishKeys_def finishPake_def
    by (auto simp: Let_def abandon_result split: sum.splits option.splits if_splits)
  then show ?thesis
  proof cases
    case 3
    then have "keysDestroyed k = Boolean False" by (auto dest: finish_fresh)
    then show ?thesis unfolding 3(1) abandon_def
      by (auto simp: wiped_state wipeSessionKeys_def activeSessionKeys_def wipePakeState_def eval_nat_numeral)
  qed (auto simp: abandon_def wiped_state wipePakeState_def wipeSessionKeys_def)
qed

text \<open>An exchange that fails last: the peer's confirmation never comes, and the keys exist already.\<close>

definition lateFailure :: EstablishRun where
  "lateFailure = establishKeys plainCrypto plainNumbers noFaults [] (Str (js ''s1'')) True (Str (js ''12-ab''))
     (ok (pakeData plainNumbers (base64Encode (replicate 32 2)))) (throw ''Timed out.'')"

lemma late_failure: "runResult lateFailure = throw ''Timed out.'' \<and> runState lateFailure \<noteq> None \<and> runKeys lateFailure \<noteq> None"
proof -
  let ?st = "\<lambda>r. \<lparr>stateRole = Str (roleName r), stateSid = Str (js ''s1''), stateVersion = jnat 10,
         stateSecret = Uint8Array True (replicate 32 1), stateShare = Uint8Array True (replicate 32 2)\<rparr>"
  obtain s v raw isk where k: "assertPakeSid (Str s) = ok s" "assertPakeProtocolVersion (jnat v) = ok v" "Str (js ''s1'') = Str s"
    "deriveRawKeys plainCrypto isk s v = ok raw"
    "finishPakeKeys plainCrypto importsWork (Some (?st True)) (Str (base64Encode (replicate 32 2))) = ok (sessionKeysOf True s v raw)"
    by (rule keys_agree[OF plain_cpace plain_started[of True, unfolded roleName_def if_True] plain_started[of False, unfolded roleName_def if_False]
          plain_share plain_share]) (metis roleName_def)
  let ?keys = "sessionKeysOf True s v raw"
  have "length (rawSignalAuthKey raw) = 32"
    using k(4) plain_hash by (auto simp: deriveRawKeys_def Let_def derive_def hashLaws_def)
  then obtain t where t: "sessionConfirmTag plainCrypto plainNumbers (keysSignalAuthKey ?keys) (Str (js ''s1'')) (Str (roleName True)) (keysVersion ?keys) = ok t"
    using confirm_tag_made[OF _ k(1,2)] unfolding k(3) by (fastforce simp: sessionKeysOf_def)
  show ?thesis
    unfolding lateFailure_def establishKeys_def PROTOCOL_VERSION_def plain_started
    by (simp add: plain_share share_message finishPake_def noFaults_def k(5) t abandon_def wipePakeState_def wipeSessionKeys_def
        del: assertPakeSid.simps)
qed

theorem establish_failure_wipes_witness:
  "\<exists>st k. runState lateFailure = Some st \<and> set (bytesOf (stateSecret st)) \<subseteq> {0} \<and> set (bytesOf (stateShare st)) \<subseteq> {0}
    \<and> runKeys lateFailure = Some k
    \<and> [keysManifestKey k, keysControlSendKey k, keysControlRecvKey k, keysBulkSendKey k, keysBulkRecvKey k] = replicate 5 None
    \<and> set (bytesOf (keysSignalAuthKey k)) \<subseteq> {0} \<and> keysDestroyed k = Boolean True
    \<and> activeSessionKeys (Some k) = throw ''Session keys have been wiped.''"
proof -
  obtain st k where "runState lateFailure = Some st" "runKeys lateFailure = Some k" "runResult lateFailure = throw ''Timed out.''"
    using late_failure by blast
  with establish_failure_wipes[of plainCrypto plainNumbers noFaults "[]" "Str (js ''s1'')" True "Str (js ''12-ab'')"
      "ok (pakeData plainNumbers (base64Encode (replicate 32 2)))" "throw ''Timed out.''" "''Timed out.''", folded lateFailure_def]
  show ?thesis by blast
qed

text \<open>\<open>finishPake\<close> leaves no secret behind: whatever it returns, and on every error, the secret
  scalar and the share in the state are overwritten with zeros.\<close>

theorem pake_state_wiped:
  "\<exists>st'. snd (finishPake C imports (Some st) peer) = Some st'
    \<and> set (bytesOf (stateSecret st')) \<subseteq> {0} \<and> set (bytesOf (stateShare st')) \<subseteq> {0}
    \<and> length (bytesOf (stateSecret st')) = length (bytesOf (stateSecret st))"
proof -
  show ?thesis by (auto simp: finishPake_def wipePakeState_def wiped_state)
qed

end
