(* ===== verification/Serialize.thy ===== *)
theory Serialize
  imports Messages Json Utf8
begin

text \<open>
  Frames of the signaling protocol as text: parsing of received frames and the budgeted
  serializer of \<open>src/src/shared/messages.ts\<close>. Values are finite trees, so the \<open>seen\<close> set of the
  serializer, which stops cycles, never answers and is left out.
\<close>

section \<open>Received frames\<close>

fun parseJsonMessage :: "NumberFormat \<Rightarrow> jsval \<Rightarrow> jsval" where
  "parseJsonMessage nf (Str raw) =
     (if length raw > SIGNALING_MAX_PAYLOAD_BYTES then Null
      else if utf8ByteLength raw > SIGNALING_MAX_PAYLOAD_BYTES then Null
      else (case jsonParse nf raw of None \<Rightarrow> Null | Some v \<Rightarrow> v))"
| "parseJsonMessage nf _ = Null"

fun canonicalBinaryFrameByteLength :: "jsval \<Rightarrow> nat option" where
  "canonicalBinaryFrameByteLength (Uint8Array canonical bs) = (if canonical then Some (length bs) else None)"
| "canonicalBinaryFrameByteLength _ = None"

fun parseJsonTextFrame :: "NumberFormat \<Rightarrow> jsval \<Rightarrow> bool \<Rightarrow> jsval" where
  "parseJsonTextFrame nf data isBinary =
     (if isBinary then Null
      else case data of
        Str _ \<Rightarrow> parseJsonMessage nf data
      | Uint8Array canonical bs \<Rightarrow>
          (case canonicalBinaryFrameByteLength data of
             None \<Rightarrow> Null
           | Some byteLength \<Rightarrow>
               if byteLength > SIGNALING_MAX_PAYLOAD_BYTES then Null
               else (case fatalUtf8 bs of None \<Rightarrow> Null | Some s \<Rightarrow> parseJsonMessage nf (Str s)))
      | _ \<Rightarrow> Null)"

definition parseBrowserJsonMessage :: "NumberFormat \<Rightarrow> jsval \<Rightarrow> jsval" where
  "parseBrowserJsonMessage nf data = (case data of Str _ \<Rightarrow> parseJsonMessage nf data | _ \<Rightarrow> Null)"

section \<open>The serializer\<close>

record JsonStringifyContext =
  remainingNodes :: int
  chars :: nat

abbreviation tooLarge :: string where
  "tooLarge \<equiv> ''Signaling message exceeds maximum frame size.''"

abbreviation notSerializable :: string where
  "notSerializable \<equiv> ''Signaling message is not JSON serializable.''"

type_synonym 'a written = "('a \<times> JsonStringifyContext) res"

definition checkedJsonFragment :: "jsstring \<Rightarrow> JsonStringifyContext \<Rightarrow> jsstring written" where
  "checkedJsonFragment fragment ctx =
     (let ctx = ctx\<lparr>chars := chars ctx + length fragment\<rparr> in
      if chars ctx > SIGNALING_MAX_PAYLOAD_BYTES then throw tooLarge else ok (fragment, ctx))"

definition beginJsonObject :: "JsonStringifyContext \<Rightarrow> nat \<Rightarrow> JsonStringifyContext res" where
  "beginJsonObject ctx depth =
     (if depth > MAX_SIGNALING_JSON_DEPTH then throw tooLarge
      else let ctx = ctx\<lparr>remainingNodes := remainingNodes ctx - 1\<rparr> in
        if remainingNodes ctx < 0 then throw tooLarge else ok ctx)"

text \<open>An element or a member value that is not serializable as such: \<open>?? checkedJsonFragment("null")\<close>.\<close>

definition orNull :: "jsstring option \<times> JsonStringifyContext \<Rightarrow> jsstring written" where
  "orNull r = (case r of (Some t, ctx) \<Rightarrow> ok (t, ctx) | (None, ctx) \<Rightarrow> checkedJsonFragment (js ''null'') ctx)"

text \<open>The accumulated texts \<open>out\<close> of an array or an object are passed in front of the
  separators: a comma is accounted when something was written before.\<close>

definition comma :: "bool \<Rightarrow> JsonStringifyContext \<Rightarrow> jsstring written" where
  "comma needed ctx = (if needed then checkedJsonFragment [44] ctx else ok ([], ctx))"

function (sequential) stringifyJsonValue :: "NumberFormat \<Rightarrow> jsval \<Rightarrow> JsonStringifyContext \<Rightarrow> nat \<Rightarrow> jsstring option written"
and stringifyJsonArray :: "NumberFormat \<Rightarrow> jsval pdesc option list \<Rightarrow> jsstring list \<Rightarrow> JsonStringifyContext \<Rightarrow> nat \<Rightarrow> jsstring list written"
and stringifyJsonRecord :: "NumberFormat \<Rightarrow> (jskey \<times> jsval pdesc) list \<Rightarrow> jsstring list \<Rightarrow> JsonStringifyContext \<Rightarrow> nat \<Rightarrow> jsstring list written" where
  "stringifyJsonValue nf value ctx depth =
     (if remainingNodes ctx \<le> 0 \<or> depth > MAX_SIGNALING_JSON_DEPTH then throw tooLarge
      else case value of
        Str s \<Rightarrow> andThen (checkedJsonFragment (jsonQuote s) ctx) (\<lambda>(t, c). ok (Some t, c))
      | Number n \<Rightarrow>
          if \<not> isFinite n then throw notSerializable
          else andThen (checkedJsonFragment (numberText nf n) ctx) (\<lambda>(t, c). ok (Some t, c))
      | Boolean b \<Rightarrow> andThen (checkedJsonFragment (if b then js ''true'' else js ''false'') ctx) (\<lambda>(t, c). ok (Some t, c))
      | Null \<Rightarrow> andThen (checkedJsonFragment (js ''null'') ctx) (\<lambda>(t, c). ok (Some t, c))
      | Arr es \<Rightarrow>
          (case beginJsonObject ctx depth of
             Inl e \<Rightarrow> Inl e
           | Inr ctx \<Rightarrow>
               (case checkedJsonFragment [91] ctx of
                  Inl e \<Rightarrow> Inl e
                | Inr (_, ctx) \<Rightarrow>
                    andThen (stringifyJsonArray nf es [] ctx depth) (\<lambda>(out, ctx).
                    andThen (checkedJsonFragment [93] ctx) (\<lambda>(_, ctx).
                    ok (Some (91 # joinWith 44 out @ [93]), ctx)))))
      | Obj proto ps \<Rightarrow>
          if \<not> isObject value then throw notSerializable
          else if hasSymbolKey ps then throw notSerializable
          else (case beginJsonObject ctx depth of
             Inl e \<Rightarrow> Inl e
           | Inr ctx \<Rightarrow>
               if hasOwnKey value ''toJSON'' then throw notSerializable
               else (case checkedJsonFragment [123] ctx of
                  Inl e \<Rightarrow> Inl e
                | Inr (_, ctx) \<Rightarrow>
                    andThen (stringifyJsonRecord nf ps [] ctx depth) (\<lambda>(out, ctx).
                    andThen (checkedJsonFragment [125] ctx) (\<lambda>(_, ctx).
                    ok (Some (123 # joinWith 44 out @ [125]), ctx)))))
      | Uint8Array _ _ \<Rightarrow> throw notSerializable
      | ArrayBuf _ _ \<Rightarrow> throw notSerializable
      | _ \<Rightarrow> ok (None, ctx))"
| "stringifyJsonArray nf [] out ctx depth = ok (out, ctx)"
| "stringifyJsonArray nf (Some (DataProp e v) # es) out ctx depth =
     (case comma (out \<noteq> []) ctx of
        Inl e \<Rightarrow> Inl e
      | Inr (_, ctx) \<Rightarrow>
          (case andThen (stringifyJsonValue nf v ctx (Suc depth)) orNull of
             Inl e \<Rightarrow> Inl e
           | Inr (t, ctx) \<Rightarrow> stringifyJsonArray nf es (out @ [t]) ctx depth))"
| "stringifyJsonArray nf (_ # es) out ctx depth =
     andThen (comma (out \<noteq> []) ctx) (\<lambda>_. throw notSerializable)"
| "stringifyJsonRecord nf [] out ctx depth = ok (out, ctx)"
| "stringifyJsonRecord nf ((KStr k, DataProp e v) # ps) out ctx depth =
     (if \<not> e then stringifyJsonRecord nf ps out ctx depth
      else case stringifyJsonValue nf v ctx (Suc depth) of
        Inl err \<Rightarrow> Inl err
      | Inr (None, ctx) \<Rightarrow> stringifyJsonRecord nf ps out ctx depth
      | Inr (Some t, ctx) \<Rightarrow>
          (case andThen (comma (out \<noteq> []) ctx) (\<lambda>(_, ctx). andThen (checkedJsonFragment [58] ctx) (\<lambda>(_, ctx).
             checkedJsonFragment (jsonQuote k) ctx)) of
             Inl err \<Rightarrow> Inl err
           | Inr (q, ctx) \<Rightarrow> stringifyJsonRecord nf ps (out @ [q @ 58 # t]) ctx depth))"
| "stringifyJsonRecord nf ((KStr k, AccessorProp e) # ps) out ctx depth =
     (if \<not> e then stringifyJsonRecord nf ps out ctx depth else throw notSerializable)"
| "stringifyJsonRecord nf (_ # ps) out ctx depth = stringifyJsonRecord nf ps out ctx depth"
  by pat_completeness auto
termination
  by (relation "measure (case_sum (\<lambda>(nf, v, ctx, d). size v) (case_sum (\<lambda>(nf, es, out, ctx, d). elementsSize es) (\<lambda>(nf, ps, out, ctx, d). membersSize ps)))") auto

definition stringifyJsonData :: "NumberFormat \<Rightarrow> jsval \<Rightarrow> jsstring res" where
  "stringifyJsonData nf value =
     andThen (stringifyJsonValue nf value \<lparr>remainingNodes = MAX_SIGNALING_JSON_NODES, chars = 0\<rparr> 0)
       (\<lambda>(r, ctx). case r of None \<Rightarrow> throw notSerializable | Some serialized \<Rightarrow> ok serialized)"

definition serializeMessage :: "NumberFormat \<Rightarrow> urlParser \<Rightarrow> jsval \<Rightarrow> jsstring res" where
  "serializeMessage nf url message =
     andThen (stringifyJsonData nf message) (\<lambda>serialized.
       if utf8ByteLength serialized > SIGNALING_MAX_PAYLOAD_BYTES then throw tooLarge
       else let parsed = parseJsonMessage nf (Str serialized) in
         if \<not> isClientMessage parsed \<and> \<not> isServerMessage url parsed
         then throw ''Signaling message is not a valid protocol message.''
         else ok serialized)"

section \<open>What the serializer writes\<close>

text \<open>The budget: the counter is the number of characters written, within the frame limit.\<close>

definition wrote :: "JsonStringifyContext \<Rightarrow> nat \<Rightarrow> JsonStringifyContext \<Rightarrow> bool" where
  "wrote ctx n ctx' \<longleftrightarrow> chars ctx' = chars ctx + n \<and> (n = 0 \<or> chars ctx' \<le> SIGNALING_MAX_PAYLOAD_BYTES)"

lemma wrote_refl [simp]: "wrote ctx 0 ctx' \<longleftrightarrow> chars ctx' = chars ctx"
  by (simp add: wrote_def)

lemma wrote_trans: "wrote a m b \<Longrightarrow> wrote b n c \<Longrightarrow> wrote a (m + n) c"
  by (auto simp: wrote_def)

lemma wrote_diff: "wrote a m b \<Longrightarrow> y = x + m \<Longrightarrow> y \<le> z \<Longrightarrow> wrote b (z - y) c \<Longrightarrow> x \<le> z \<and> wrote a (z - x) c"
  by (auto simp: wrote_def)

lemma fragment_wrote: "checkedJsonFragment t ctx = Inr (u, ctx') \<longleftrightarrow>
    u = t \<and> ctx' = ctx\<lparr>chars := chars ctx + length t\<rparr> \<and> chars ctx + length t \<le> SIGNALING_MAX_PAYLOAD_BYTES"
  by (auto simp: checkedJsonFragment_def Let_def)

lemma begin_wrote: "beginJsonObject ctx d = Inr ctx' \<Longrightarrow> chars ctx' = chars ctx"
  by (auto simp: beginJsonObject_def Let_def split: if_splits)

lemma comma_wrote: "comma b ctx = Inr (u, ctx') \<Longrightarrow> wrote ctx (if b then 1 else 0) ctx'"
  by (auto simp: comma_def fragment_wrote wrote_def split: if_splits)

lemma joinWith_snoc: "length (joinWith c (out @ [t])) = length (joinWith c out) + (if out \<noteq> [] then 1 else 0) + length t"
  by (induction out rule: joinWith.induct[of _ c]) auto

abbreviation valueTexts :: "NumberFormat \<Rightarrow> jsval \<Rightarrow> jsstring option" where
  "valueTexts nf v \<equiv> (if jsonOmitted v then None else Some (jsonText nf v))"

abbreviation joined :: "jsstring list \<Rightarrow> nat" where
  "joined out \<equiv> length (joinWith 44 out)"

lemma array_parts:
  assumes "stringifyJsonValue nf (Arr es) ctx d = Inr (r, ctx')"
  obtains c1 out c2 where "stringifyJsonArray nf es [] c1 d = Inr (out, c2)" "wrote ctx 1 c1" "wrote c2 1 ctx'"
    "r = Some (91 # joinWith 44 out @ [93])"
    "\<not> (remainingNodes ctx \<le> 0 \<or> d > MAX_SIGNALING_JSON_DEPTH)"
    "\<exists>c0. beginJsonObject ctx d = Inr c0 \<and> checkedJsonFragment [91] c0 = Inr ([91], c1)"
  using assms begin_wrote[of ctx d]
  by (fastforce simp: fragment_wrote wrote_def split: if_splits sum.splits prod.splits)

lemma record_parts:
  assumes "stringifyJsonValue nf (Obj proto ps) ctx d = Inr (r, ctx')"
  obtains c1 out c2 where "stringifyJsonRecord nf ps [] c1 d = Inr (out, c2)" "wrote ctx 1 c1" "wrote c2 1 ctx'"
    "r = Some (123 # joinWith 44 out @ [125])"
    "\<not> (remainingNodes ctx \<le> 0 \<or> d > MAX_SIGNALING_JSON_DEPTH)" "isObject (Obj proto ps)" "\<not> hasSymbolKey ps"
    "\<not> hasOwnKey (Obj proto ps) ''toJSON''"
    "\<exists>c0. beginJsonObject ctx d = Inr c0 \<and> checkedJsonFragment [123] c0 = Inr ([123], c1)"
  using assms begin_wrote[of ctx d]
  by (fastforce simp: fragment_wrote wrote_def simp del: isObject.simps hasOwnKey.simps split: if_splits sum.splits prod.splits)

lemma stringify_exact:
  shows "stringifyJsonValue nf v ctx d = Inr (r, ctx') \<Longrightarrow>
      r = valueTexts nf v \<and> wrote ctx (case r of None \<Rightarrow> 0 | Some t \<Rightarrow> length t) ctx'"
    and "stringifyJsonArray nf es out ctx d = Inr (out', ctx') \<Longrightarrow>
      out' = out @ elementTexts nf es \<and> joined out \<le> joined out' \<and> wrote ctx (joined out' - joined out) ctx'"
    and "stringifyJsonRecord nf ps out ctx d = Inr (out', ctx') \<Longrightarrow>
      out' = out @ memberTexts nf ps \<and> joined out \<le> joined out' \<and> wrote ctx (joined out' - joined out) ctx'"
proof (induction nf v ctx d and nf es out ctx d and nf ps out ctx d arbitrary: r ctx' and out' ctx' and out' ctx'
    rule: stringifyJsonValue_stringifyJsonArray_stringifyJsonRecord.induct)
  case (1 nf v ctx d)
  show ?case
  proof (cases v)
    case (Arr es)
    obtain c1 out c2 where p: "stringifyJsonArray nf es [] c1 d = Inr (out, c2)" "wrote ctx 1 c1" "wrote c2 1 ctx'"
      "r = Some (91 # joinWith 44 out @ [93])" "\<not> (remainingNodes ctx \<le> 0 \<or> d > MAX_SIGNALING_JSON_DEPTH)"
      "\<exists>c0. beginJsonObject ctx d = Inr c0 \<and> checkedJsonFragment [91] c0 = Inr ([91], c1)"
      using array_parts[OF 1(3)[unfolded Arr]] by blast
    have "out = elementTexts nf es \<and> wrote c1 (joined out) c2"
      using 1(1)[OF p(5) Arr _ _ _ p(1)] p(6) by fastforce
    then show ?thesis using p(4) wrote_trans[OF wrote_trans[OF p(2)] p(3)] Arr by auto
  next
    case (Obj proto ps)
    obtain c1 out c2 where p: "stringifyJsonRecord nf ps [] c1 d = Inr (out, c2)" "wrote ctx 1 c1" "wrote c2 1 ctx'"
      "r = Some (123 # joinWith 44 out @ [125])" "\<not> (remainingNodes ctx \<le> 0 \<or> d > MAX_SIGNALING_JSON_DEPTH)"
      "isObject (Obj proto ps)" "\<not> hasSymbolKey ps" "\<not> hasOwnKey (Obj proto ps) ''toJSON''"
      "\<exists>c0. beginJsonObject ctx d = Inr c0 \<and> checkedJsonFragment [123] c0 = Inr ([123], c1)"
      using record_parts[OF 1(3)[unfolded Obj]] by blast
    have "out = memberTexts nf ps \<and> wrote c1 (joined out) c2"
      using 1(2)[OF p(5) Obj _ _ _ _ _ _ p(1)] p(6-9) Obj by fastforce
    then show ?thesis using p(4) wrote_trans[OF wrote_trans[OF p(2)] p(3)] Obj by auto
  qed (use 1(3) in \<open>auto simp: fragment_wrote wrote_def split: if_splits\<close>)
next
  case (3 nf e v es out ctx d)
  then obtain c1 where c1: "comma (out \<noteq> []) ctx = Inr c1" by (cases "comma (out \<noteq> []) ctx") auto
  obtain u c where c1e: "c1 = (u, c)" by (cases c1)
  then obtain r c2 t c3 where v: "stringifyJsonValue nf v c (Suc d) = Inr (r, c2)" "orNull (r, c2) = Inr (t, c3)"
    "stringifyJsonArray nf es (out @ [t]) c3 d = Inr (out', ctx')"
    using 3(3) c1 by (fastforce split: sum.splits)
  have r: "r = valueTexts nf v" "wrote c (case r of None \<Rightarrow> 0 | Some t \<Rightarrow> length t) c2"
    using 3(1)[OF c1 c1e[symmetric] v(1)] by auto
  have t: "t = (if jsonOmitted v then js ''null'' else jsonText nf v)" "wrote c (length t) c3"
    using r v(2) by (auto simp: orNull_def fragment_wrote wrote_def split: if_splits)
  have "out' = (out @ [t]) @ elementTexts nf es \<and> joined (out @ [t]) \<le> joined out' \<and> wrote c3 (joined out' - joined (out @ [t])) ctx'"
    using 3(2)[OF c1 c1e[symmetric] _ _ v(3)] v(1,2) by auto
  moreover from this have "joined out \<le> joined out' \<and> wrote ctx (joined out' - joined out) ctx'"
    using wrote_trans[OF comma_wrote[OF c1[unfolded c1e]] t(2)] by (elim conjE wrote_diff[rotated 2]) (auto simp: joinWith_snoc)
  ultimately show ?case using t(1) by simp
next
  case (6 nf k e v ps out ctx d)
  show ?case
  proof (cases e)
    case True
    then obtain r c where v: "stringifyJsonValue nf v ctx (Suc d) = Inr (r, c)" using 6(5) by (fastforce split: sum.splits)
    have r: "r = valueTexts nf v" "wrote ctx (case r of None \<Rightarrow> 0 | Some t \<Rightarrow> length t) c"
      using 6(2)[OF _ v] True by auto
    show ?thesis
    proof (cases r)
      case None
      then show ?thesis using 6(3)[OF _ v refl] 6(5) v r True by (auto split: if_splits simp: wrote_def)
    next
      case (Some t)
      then obtain q c3 where q: "andThen (comma (out \<noteq> []) c) (\<lambda>(_, ctx). andThen (checkedJsonFragment [58] ctx) (\<lambda>(_, ctx).
             checkedJsonFragment (jsonQuote k) ctx)) = Inr (q, c3)"
        "stringifyJsonRecord nf ps (out @ [q @ 58 # t]) c3 d = Inr (out', ctx')"
        using 6(5) v True by (fastforce split: sum.splits)
      have q2: "q = jsonQuote k" "wrote c ((if out \<noteq> [] then 1 else 0) + 1 + length q) c3"
        using q(1) by (auto simp: fragment_wrote wrote_def dest!: comma_wrote split: if_splits)
      have "out' = (out @ [q @ 58 # t]) @ memberTexts nf ps \<and> joined (out @ [q @ 58 # t]) \<le> joined out'
          \<and> wrote c3 (joined out' - joined (out @ [q @ 58 # t])) ctx'"
        using 6(4)[OF _ v refl Some _ _ q(2)] q(1) True by auto
      moreover from this have "joined out \<le> joined out' \<and> wrote ctx (joined out' - joined out) ctx'"
        using wrote_trans[OF r(2) q2(2)] Some by (elim conjE wrote_diff[rotated 2]) (auto simp: joinWith_snoc ac_simps)
      ultimately show ?thesis using r(1) q2(1) Some True by (auto split: if_splits)
    qed
  qed (use 6 in auto)
qed (auto split: if_splits)

lemma data_exact:
  assumes "stringifyJsonData nf v = ok t"
  shows "\<not> jsonOmitted v" "t = jsonText nf v" "length t \<le> SIGNALING_MAX_PAYLOAD_BYTES"
proof -
  obtain ctx where s: "stringifyJsonValue nf v \<lparr>remainingNodes = MAX_SIGNALING_JSON_NODES, chars = 0\<rparr> 0 = Inr (Some t, ctx)"
    using assms unfolding stringifyJsonData_def andThen_eq_Inr by (auto split: option.splits)
  from stringify_exact(1)[OF s] show "\<not> jsonOmitted v" "t = jsonText nf v" "length t \<le> SIGNALING_MAX_PAYLOAD_BYTES"
    by (auto simp: wrote_def split: if_splits)
qed

lemma parse_back:
  assumes "wfJson j" "utf8ByteLength (textOf nf j) \<le> SIGNALING_MAX_PAYLOAD_BYTES"
  shows "parseJsonMessage nf (Str (textOf nf j)) = toVal j"
  using assms utf8ByteLength_ge_units[of "textOf nf j"] by (simp add: jsonParse_text)

section \<open>When the serializer succeeds\<close>

fun jsonNodes :: "json \<Rightarrow> nat" where
  "jsonNodes (JArr xs) = Suc (sum_list (map jsonNodes xs))"
| "jsonNodes (JObj kvs) = Suc (sum_list (map (\<lambda>(k, j). jsonNodes j) kvs))"
| "jsonNodes _ = 0"

fun jsonFits :: "nat \<Rightarrow> json \<Rightarrow> bool" where
  "jsonFits d (JArr xs) = (d \<le> MAX_SIGNALING_JSON_DEPTH \<and> list_all (jsonFits (Suc d)) xs)"
| "jsonFits d (JObj kvs) =
     (d \<le> MAX_SIGNALING_JSON_DEPTH \<and> list_all (\<lambda>(k, j). k \<noteq> js ''toJSON'' \<and> jsonFits (Suc d) j) kvs)"
| "jsonFits d _ = (d \<le> MAX_SIGNALING_JSON_DEPTH)"

abbreviation spend :: "nat \<Rightarrow> nat \<Rightarrow> JsonStringifyContext \<Rightarrow> JsonStringifyContext" where
  "spend nodes n ctx \<equiv> ctx\<lparr>remainingNodes := remainingNodes ctx - int nodes, chars := chars ctx + n\<rparr>"

definition writes :: "NumberFormat \<Rightarrow> nat \<Rightarrow> json \<Rightarrow> bool" where
  "writes nf d j \<longleftrightarrow> (\<forall>ctx. int (jsonNodes j) < remainingNodes ctx
     \<longrightarrow> chars ctx + length (textOf nf j) \<le> SIGNALING_MAX_PAYLOAD_BYTES
     \<longrightarrow> stringifyJsonValue nf (toVal j) ctx d = ok (Some (textOf nf j), spend (jsonNodes j) (length (textOf nf j)) ctx))"

lemma joined_grow: "joined (out @ [t]) \<le> joined (out @ t # ts)"
proof (induction ts arbitrary: out t)
  case (Cons u ts)
  have "joined (out @ [t]) \<le> joined ((out @ [t]) @ [u])" by (simp only: joinWith_snoc)
  also have "\<dots> \<le> joined ((out @ [t]) @ u # ts)" by (rule Cons)
  finally show ?case by simp
qed simp

lemma comma_ok: "chars ctx + (if b then 1 else 0) \<le> SIGNALING_MAX_PAYLOAD_BYTES \<Longrightarrow>
   \<exists>u. comma b ctx = ok (u, ctx\<lparr>chars := chars ctx + (if b then 1 else 0)\<rparr>)"
  by (auto simp: comma_def fragment_wrote)

lemma fragment_ok: "chars ctx + length t \<le> SIGNALING_MAX_PAYLOAD_BYTES \<Longrightarrow>
   checkedJsonFragment t ctx = ok (t, ctx\<lparr>chars := chars ctx + length t\<rparr>)"
  by (simp add: fragment_wrote)

lemma elements_written:
  assumes "list_all (writes nf (Suc d)) xs" "int (sum_list (map jsonNodes xs)) < remainingNodes ctx"
    "chars ctx + joined (out @ map (textOf nf) xs) \<le> SIGNALING_MAX_PAYLOAD_BYTES + joined out"
  shows "stringifyJsonArray nf (map (\<lambda>v. Some (DataProp True v)) (map toVal xs)) out ctx d =
     ok (out @ map (textOf nf) xs,
       spend (sum_list (map jsonNodes xs)) (joined (out @ map (textOf nf) xs) - joined out) ctx)"
  using assms
proof (induction xs arbitrary: out ctx)
  case (Cons x xs)
  let ?t = "textOf nf x" and ?c = "(if out \<noteq> [] then 1 else 0) :: nat"
  have g: "joined out + ?c + length ?t \<le> joined (out @ map (textOf nf) (x # xs))"
    using joined_grow[of out ?t "map (textOf nf) xs"] by (simp add: joinWith_snoc)
  obtain u where u: "comma (out \<noteq> []) ctx = ok (u, ctx\<lparr>chars := chars ctx + ?c\<rparr>)"
    using comma_ok[of ctx "out \<noteq> []"] Cons.prems(3) g by auto
  let ?ctx = "spend (jsonNodes x) (length ?t) (ctx\<lparr>chars := chars ctx + ?c\<rparr>)"
  have v: "stringifyJsonValue nf (toVal x) (ctx\<lparr>chars := chars ctx + ?c\<rparr>) (Suc d) = ok (Some ?t, ?ctx)"
    using Cons.prems g by (simp add: writes_def)
  have "stringifyJsonArray nf (map (\<lambda>v. Some (DataProp True v)) (map toVal xs)) (out @ [?t]) ?ctx d =
     ok ((out @ [?t]) @ map (textOf nf) xs,
       spend (sum_list (map jsonNodes xs)) (joined ((out @ [?t]) @ map (textOf nf) xs) - joined (out @ [?t])) ?ctx)"
    using Cons.prems g by (intro Cons.IH) (simp_all add: joinWith_snoc)
  with u v g show ?case by (simp add: orNull_def joinWith_snoc algebra_simps del: stringifyJsonValue.simps)
qed simp

lemma members_written:
  assumes "list_all (\<lambda>(k, j). writes nf (Suc d) j) kvs" "int (sum_list (map (\<lambda>(k, j). jsonNodes j) kvs)) < remainingNodes ctx"
    "chars ctx + joined (out @ map (\<lambda>(k, j). jsonQuote k @ 58 # textOf nf j) kvs) \<le> SIGNALING_MAX_PAYLOAD_BYTES + joined out"
  shows "stringifyJsonRecord nf (map (\<lambda>(k, j). (KStr k, DataProp True (toVal j))) kvs) out ctx d =
     ok (out @ map (\<lambda>(k, j). jsonQuote k @ 58 # textOf nf j) kvs,
       spend (sum_list (map (\<lambda>(k, j). jsonNodes j) kvs)) (joined (out @ map (\<lambda>(k, j). jsonQuote k @ 58 # textOf nf j) kvs) - joined out) ctx)"
  using assms
proof (induction kvs arbitrary: out ctx)
  case (Cons kx kvs)
  obtain k x where kx: "kx = (k, x)" by (cases kx)
  let ?t = "jsonQuote k @ 58 # textOf nf x" and ?c = "(if out \<noteq> [] then 1 else 0) :: nat"
  let ?all = "map (\<lambda>(k, j). jsonQuote k @ 58 # textOf nf j)"
  have g: "joined out + ?c + length ?t \<le> joined (out @ ?all (kx # kvs))"
    using joined_grow[of out ?t "?all kvs"] kx unfolding joinWith_snoc by simp
  let ?c1 = "spend (jsonNodes x) (length (textOf nf x)) ctx"
  have v: "stringifyJsonValue nf (toVal x) ctx (Suc d) = ok (Some (textOf nf x), ?c1)"
    using Cons.prems g kx by (simp add: writes_def)
  obtain u where u: "comma (out \<noteq> []) ?c1 = ok (u, ?c1\<lparr>chars := chars ?c1 + ?c\<rparr>)"
    using comma_ok[of ?c1 "out \<noteq> []"] Cons.prems(3) g by auto
  let ?ctx = "spend (jsonNodes x) (?c + length ?t) ctx"
  have q: "andThen (comma (out \<noteq> []) ?c1) (\<lambda>(_, ctx). andThen (checkedJsonFragment [58] ctx) (\<lambda>(_, ctx).
             checkedJsonFragment (jsonQuote k) ctx)) = ok (jsonQuote k, ?ctx)"
    using Cons.prems(3) g unfolding u by (simp add: fragment_ok add_ac)
  have "stringifyJsonRecord nf (map (\<lambda>(k, j). (KStr k, DataProp True (toVal j))) kvs) (out @ [?t]) ?ctx d =
     ok ((out @ [?t]) @ ?all kvs,
       spend (sum_list (map (\<lambda>(k, j). jsonNodes j) kvs)) (joined ((out @ [?t]) @ ?all kvs) - joined (out @ [?t])) ?ctx)"
    using Cons.prems g kx by (intro Cons.IH) (simp_all add: joinWith_snoc)
  with v q g kx show ?case by (simp add: joinWith_snoc algebra_simps del: stringifyJsonValue.simps andThen_eq_Inr)
qed simp

lemma value_written: "jsonFits d j \<Longrightarrow> writes nf d j"
proof (induction j arbitrary: d)
  case (JArr xs)
  then have d: "d \<le> MAX_SIGNALING_JSON_DEPTH" and w: "list_all (writes nf (Suc d)) xs" by (auto simp: list_all_iff)
  show ?case
    unfolding writes_def
  proof (intro allI impI)
    fix ctx
    let ?ts = "map (textOf nf) xs" and ?n = "sum_list (map jsonNodes xs)"
    let ?c1 = "spend 1 1 ctx"
    assume b: "int (jsonNodes (JArr xs)) < remainingNodes ctx" "chars ctx + length (textOf nf (JArr xs)) \<le> SIGNALING_MAX_PAYLOAD_BYTES"
    then have s: "chars ctx + joined ?ts + 2 \<le> SIGNALING_MAX_PAYLOAD_BYTES" unfolding text_simps by simp
    have "stringifyJsonArray nf (map (\<lambda>v. Some (DataProp True v)) (map toVal xs)) [] ?c1 d = ok (?ts, spend ?n (joined ?ts) ?c1)"
      using elements_written[OF w, of ?c1 "[]"] b(1) s by simp
    then show "stringifyJsonValue nf (toVal (JArr xs)) ctx d =
        ok (Some (textOf nf (JArr xs)), spend (jsonNodes (JArr xs)) (length (textOf nf (JArr xs))) ctx)"
      unfolding text_simps using d b(1) s
      by (simp add: jarr_def beginJsonObject_def fragment_ok algebra_simps del: andThen_eq_Inr)
  qed
next
  case (JObj kvs)
  then have d: "d \<le> MAX_SIGNALING_JSON_DEPTH" and w: "list_all (\<lambda>(k, j). writes nf (Suc d) j) kvs"
    and k: "js ''toJSON'' \<notin> fst ` set kvs" by (fastforce simp: list_all_iff)+
  show ?case
    unfolding writes_def
  proof (intro allI impI)
    fix ctx
    let ?ts = "map (\<lambda>(k, j). jsonQuote k @ 58 # textOf nf j) kvs" and ?n = "sum_list (map (\<lambda>(k, j). jsonNodes j) kvs)"
    let ?c1 = "spend 1 1 ctx"
    assume b: "int (jsonNodes (JObj kvs)) < remainingNodes ctx" "chars ctx + length (textOf nf (JObj kvs)) \<le> SIGNALING_MAX_PAYLOAD_BYTES"
    then have s: "chars ctx + joined ?ts + 2 \<le> SIGNALING_MAX_PAYLOAD_BYTES" unfolding text_simps by simp
    have "stringifyJsonRecord nf (map (\<lambda>(k, j). (KStr k, DataProp True (toVal j))) kvs) [] ?c1 d = ok (?ts, spend ?n (joined ?ts) ?c1)"
      using members_written[OF w, of ?c1 "[]"] b(1) s by simp
    then show "stringifyJsonValue nf (toVal (JObj kvs)) ctx d =
        ok (Some (textOf nf (JObj kvs)), spend (jsonNodes (JObj kvs)) (length (textOf nf (JObj kvs))) ctx)"
      unfolding text_simps using d b(1) s data_shape[of kvs] data_toJSON[OF k]
      by (simp add: beginJsonObject_def fragment_ok algebra_simps del: andThen_eq_Inr hasOwnKey.simps)
  qed
qed (auto simp: writes_def fragment_ok)

lemma data_written:
  assumes "jsonFits 0 j" "int (jsonNodes j) < MAX_SIGNALING_JSON_NODES" "length (textOf nf j) \<le> SIGNALING_MAX_PAYLOAD_BYTES"
  shows "stringifyJsonData nf (toVal j) = ok (textOf nf j)"
  using value_written[OF assms(1), of nf] assms(2,3) by (simp add: writes_def stringifyJsonData_def del: andThen_eq_Inr)

text \<open>The witness is a \<open>bye\<close> message with its session.\<close>

definition byeMessage :: json where
  "byeMessage = JObj [(js ''type'', JStr (js ''bye'')), (js ''sid'', JStr (js ''s1''))]"

lemma bye_text: "textOf nf byeMessage = js ''{\"type\":\"bye\",\"sid\":\"s1\"}''"
  by (simp add: byeMessage_def js_def jsonQuote_def jsonEscape_def escapeLetter_def isHighSurrogate_def)

lemma bye_wf: "wfJson byeMessage"
  by (simp add: byeMessage_def utf16_def js_def ownKeyOrder_def isIndexKey_def wholeDigits_def isDigit_def)

lemma bye_client: "isClientMessage (toVal byeMessage)"
proof -
  have "messageTypeIn ([''register'', ''connect''] @ relayTypes @ [''bye'']) (toVal byeMessage) = Some ''bye''"
    by (simp add: byeMessage_def messageTypeIn_def relayTypes_def hasOnlyDataProperties_def)
  moreover have "isSessionId (Str (js ''s1''))" by (simp add: js_def isAlnum_def isLowerAZ_def isDigit_def limit_defs)
  ultimately show ?thesis
    by (simp add: byeMessage_def isClientMessage_def optionalSessionId_def optionalSafeReason_def del: isSessionId.simps)
qed

lemma bye_fits: "jsonFits 0 byeMessage" "int (jsonNodes byeMessage) < MAX_SIGNALING_JSON_NODES"
    "utf8ByteLength (textOf nf byeMessage) \<le> SIGNALING_MAX_PAYLOAD_BYTES"
  unfolding bye_text by (simp_all add: byeMessage_def utf8ByteLength_ascii limit_defs) (simp add: js_def utf8ByteLength_ascii)

section \<open>Properties\<close>

text \<open>The serializer writes the JSON text of its message or throws: what it returns is the text
  of the value, within the frame limit, and the value is a valid client or server message once
  parsed.\<close>

theorem serialize_exact:
  "serializeMessage nf url v = ok t \<longleftrightarrow>
     stringifyJsonData nf v = ok (jsonText nf v) \<and> t = jsonText nf v \<and> utf8ByteLength t \<le> SIGNALING_MAX_PAYLOAD_BYTES
     \<and> (let m = parseJsonMessage nf (Str t) in isClientMessage m \<or> isServerMessage url m)"
proof
  assume "serializeMessage nf url v = ok t"
  then have s: "stringifyJsonData nf v = ok t" "utf8ByteLength t \<le> SIGNALING_MAX_PAYLOAD_BYTES"
    "let m = parseJsonMessage nf (Str t) in isClientMessage m \<or> isServerMessage url m"
    unfolding serializeMessage_def by (auto simp: Let_def split: if_splits)
  with data_exact(2)[OF s(1)] show "stringifyJsonData nf v = ok (jsonText nf v) \<and> t = jsonText nf v
     \<and> utf8ByteLength t \<le> SIGNALING_MAX_PAYLOAD_BYTES
     \<and> (let m = parseJsonMessage nf (Str t) in isClientMessage m \<or> isServerMessage url m)" by simp
qed (auto simp: serializeMessage_def Let_def)

text \<open>C35: A valid message made of JSON data whose nesting, node count and size are within the limits
  is serialized, and the text comes back unchanged from every receiving side: the text frame
  parser of the server and the clients, its parser of UTF-8 byte frames, and the parser of the
  browser.\<close>

theorem serialize_roundtrip:
  assumes "wfJson j" "jsonFits 0 j" "int (jsonNodes j) < MAX_SIGNALING_JSON_NODES"
    "utf8ByteLength (textOf nf j) \<le> SIGNALING_MAX_PAYLOAD_BYTES" "isClientMessage (toVal j) \<or> isServerMessage url (toVal j)"
  shows "\<exists>t. serializeMessage nf url (toVal j) = ok t
    \<and> parseJsonTextFrame nf (Str t) False = toVal j \<and> parseBrowserJsonMessage nf (Str t) = toVal j
    \<and> parseJsonTextFrame nf (Uint8Array True (utf8Encode t)) False = toVal j"
proof -
  let ?t = "textOf nf j"
  have "stringifyJsonData nf (toVal j) = ok ?t"
    using data_written[OF assms(2,3), of nf] utf8ByteLength_ge_units[of ?t] assms(4) by simp
  moreover have p: "parseJsonMessage nf (Str ?t) = toVal j" by (rule parse_back[OF assms(1,4)])
  ultimately have "serializeMessage nf url (toVal j) = ok ?t"
    using assms(4,5) by (auto simp: serializeMessage_def Let_def)
  moreover have "length (utf8Encode ?t) = utf8ByteLength ?t"
    using wellFormed_units[OF wellFormed_text[OF assms(1)]] by (rule length_utf8Encode)
  ultimately show ?thesis
    using assms(4) p fatalUtf8_text[OF assms(1), of nf]
    by (intro exI[of _ ?t]) (simp add: parseBrowserJsonMessage_def del: parseJsonMessage.simps)
qed

theorem serialize_roundtrip_witness:
  "\<exists>t. serializeMessage \<lparr>otherText = \<lambda>_. [], otherValue = \<lambda>_. NNaN\<rparr> (\<lambda>_. None) (toVal byeMessage) = ok t
    \<and> parseJsonTextFrame \<lparr>otherText = \<lambda>_. [], otherValue = \<lambda>_. NNaN\<rparr> (Str t) False = toVal byeMessage
    \<and> parseBrowserJsonMessage \<lparr>otherText = \<lambda>_. [], otherValue = \<lambda>_. NNaN\<rparr> (Str t) = toVal byeMessage
    \<and> parseJsonTextFrame \<lparr>otherText = \<lambda>_. [], otherValue = \<lambda>_. NNaN\<rparr> (Uint8Array True (utf8Encode t)) False = toVal byeMessage"
  by (rule serialize_roundtrip) (simp_all only: bye_wf bye_fits bye_client simp_thms)

end
