(* ===== verification/Signals.thy ===== *)
theory Signals
  imports Serialize AuthTags
begin

text \<open>
  WebRTC signals at the client: the bounded buffer \<open>SignalMessageQueue\<close>
  (\<open>src/src/shared/signal-queue.ts\<close>), the replay guard \<open>WebRtcSignalReplayGuard\<close>
  (\<open>src/src/shared/signal-replay.ts\<close>) and the part of \<open>wireSignals\<close> (\<open>src/src/cli/index.ts\<close>) that
  opens, authenticates, copies and orders incoming signals. Creating the answer and the calls into
  the peer connection are outside the model; a signal handed to the peer connection is appended
  to a list.
\<close>

section \<open>The buffer of signal messages\<close>

text \<open>\<open>maxBytes\<close> is \<open>None\<close> for \<open>Number.POSITIVE_INFINITY\<close>.\<close>

record SignalMessageQueue =
  queueMessages :: "jsval list"
  bufferedBytes :: nat
  maxMessages :: nat
  maxBytes :: "nat option"

definition queueLimitInput :: "jsnum \<Rightarrow> string \<Rightarrow> nat \<Rightarrow> bool \<Rightarrow> (nat option) res" where
  "queueLimitInput value label limit allowInfinity =
     (if allowInfinity \<and> value = NInf False then ok None
      else case value of
        NInt i \<Rightarrow> if \<bar>i\<bar> > MAX_SAFE_INTEGER \<or> i < 1 \<or> i > int limit then throw (''Signal queue '' @ label @ '' limit is invalid.'')
                  else ok (Some (nat i))
      | _ \<Rightarrow> throw (''Signal queue '' @ label @ '' limit is invalid.''))"

definition newSignalMessageQueue :: "jsnum \<Rightarrow> jsnum \<Rightarrow> SignalMessageQueue res" where
  "newSignalMessageQueue messageLimit byteLimit =
     andThen (queueLimitInput messageLimit ''message'' MAX_BUFFERED_SIGNAL_MESSAGES False) (\<lambda>m.
     andThen (queueLimitInput byteLimit ''byte'' SIGNALING_MAX_BUFFERED_BYTES True) (\<lambda>b.
       ok \<lparr>queueMessages = [], bufferedBytes = 0, maxMessages = the m, maxBytes = b\<rparr>))"

definition isSignalMessage :: "urlParser \<Rightarrow> jsval \<Rightarrow> bool" where
  "isSignalMessage url v \<longleftrightarrow> isServerMessage url v \<and> ownDataValue v ''type'' = Str (js ''signal'')"

definition copySignalMessage :: "NumberFormat \<Rightarrow> urlParser \<Rightarrow> jsval \<Rightarrow> (jsval \<times> nat) res" where
  "copySignalMessage nf url message =
     (if \<not> isSignalMessage url message then throw ''Buffered WebRTC signal message is invalid.''
      else andThen (serializeMessage nf url message) (\<lambda>serialized.
        let parsed = parseJsonMessage nf (Str serialized) in
        if \<not> isSignalMessage url parsed then throw ''Buffered WebRTC signal message is invalid.''
        else ok (parsed, length (utf8Encode serialized))))"

definition pushSignal :: "NumberFormat \<Rightarrow> urlParser \<Rightarrow> SignalMessageQueue \<Rightarrow> jsval \<Rightarrow> SignalMessageQueue res" where
  "pushSignal nf url q message =
     (if length (queueMessages q) \<ge> maxMessages q then throw ''Too many buffered WebRTC signal messages.''
      else andThen (copySignalMessage nf url message) (\<lambda>(copy, messageBytes).
        if (case maxBytes q of None \<Rightarrow> False | Some limit \<Rightarrow> bufferedBytes q + messageBytes > limit)
        then throw ''Too many buffered WebRTC signal bytes.''
        else ok (q\<lparr>queueMessages := queueMessages q @ [copy], bufferedBytes := bufferedBytes q + messageBytes\<rparr>)))"

definition drainSignals :: "SignalMessageQueue \<Rightarrow> jsval list \<times> SignalMessageQueue" where
  "drainSignals q = (queueMessages q, q\<lparr>queueMessages := [], bufferedBytes := 0\<rparr>)"

section \<open>The replay guard\<close>

record ReplayGuard =
  answerOffers :: bool
  seenOffer :: bool
  seenAnswer :: bool
  seenCandidates :: "jsstring list"

definition newReplayGuard :: "bool \<Rightarrow> ReplayGuard" where
  "newReplayGuard answers = \<lparr>answerOffers = answers, seenOffer = False, seenAnswer = False, seenCandidates = []\<rparr>"

abbreviation badReplay :: string where
  "badReplay \<equiv> ''WebRTC signal replay payload is invalid.''"

text \<open>\<open>value && typeof value === "object"\<close>.\<close>

fun isObjectValue :: "jsval \<Rightarrow> bool" where
  "isObjectValue (Obj _ _) = True"
| "isObjectValue (Arr _) = True"
| "isObjectValue (Uint8Array _ _) = True"
| "isObjectValue (ArrayBuf _ _) = True"
| "isObjectValue _ = False"

fun isNumberValue :: "jsval \<Rightarrow> bool" where
  "isNumberValue (Number _) = True"
| "isNumberValue _ = False"

text \<open>\<open>value ?? null\<close>, and a number as \<open>JSON.stringify\<close> writes it.\<close>

fun orJsonNull :: "jsval \<Rightarrow> jsval" where
  "orJsonNull Undefined = Null"
| "orJsonNull (Number n) = (if isFinite n then Number n else Null)"
| "orJsonNull v = v"

definition candidateReplayKey :: "NumberFormat \<Rightarrow> jsval \<Rightarrow> jsstring res" where
  "candidateReplayKey nf signal =
     (let source = ownDataValue signal ''candidate'' in
      if \<not> isObjectValue source then throw badReplay
      else let candidate = ownDataValue source ''candidate''; sdpMid = ownDataValue source ''sdpMid'';
               sdpMLineIndex = ownDataValue source ''sdpMLineIndex''; usernameFragment = ownDataValue source ''usernameFragment'' in
        if \<not> isStr candidate then throw badReplay
        else if sdpMid \<noteq> Undefined \<and> sdpMid \<noteq> Null \<and> \<not> isStr sdpMid then throw badReplay
        else if sdpMLineIndex \<noteq> Undefined \<and> sdpMLineIndex \<noteq> Null \<and> \<not> isNumberValue sdpMLineIndex then throw badReplay
        else if usernameFragment \<noteq> Undefined \<and> \<not> isStr usernameFragment then throw badReplay
        else ok (jsonText nf (jobj [(''candidate'', candidate), (''sdpMid'', orJsonNull sdpMid),
               (''sdpMLineIndex'', orJsonNull sdpMLineIndex),
               (''usernameFragment'', if usernameFragment = Undefined then Str [] else usernameFragment)])))"

definition acceptSignal :: "NumberFormat \<Rightarrow> ReplayGuard \<Rightarrow> jsval \<Rightarrow> ReplayGuard res" where
  "acceptSignal nf g signal =
     (if \<not> isObjectValue signal then throw badReplay
      else let kind = ownDataValue signal ''kind'' in
        if kind = Str (js ''offer'') then
          (if \<not> answerOffers g then throw ''Unexpected WebRTC offer signal.''
           else if seenOffer g then throw ''Duplicate WebRTC offer signal.''
           else ok (g\<lparr>seenOffer := True\<rparr>))
        else if kind = Str (js ''answer'') then
          (if answerOffers g then throw ''Unexpected WebRTC answer signal.''
           else if seenAnswer g then throw ''Duplicate WebRTC answer signal.''
           else ok (g\<lparr>seenAnswer := True\<rparr>))
        else if kind \<noteq> Str (js ''candidate'') then throw badReplay
        else andThen (candidateReplayKey nf signal) (\<lambda>key.
          if key \<in> set (seenCandidates g) then throw ''Duplicate WebRTC ICE candidate signal.''
          else ok (g\<lparr>seenCandidates := key # seenCandidates g\<rparr>)))"

section \<open>Incoming signals\<close>

definition ifString :: "string \<Rightarrow> jsval \<Rightarrow> (string \<times> jsval) list" where
  "ifString k v = (if isStr v then [(k, v)] else [])"

definition copyCandidateSignal :: "jsval \<Rightarrow> jsval res" where
  "copyCandidateSignal signal =
     (let source = ownDataValue signal ''candidate''; auth = ownDataValue signal ''auth'' in
      if \<not> isObjectValue source \<or> \<not> isStr auth then throw ''WebRTC candidate signal is invalid.''
      else ok (jobj [(''kind'', Str (js ''candidate'')),
             (''candidate'', jobj (ifString ''candidate'' (ownDataValue source ''candidate'')
                @ definedMember ''sdpMid'' (ownDataValue source ''sdpMid'')
                @ definedMember ''sdpMLineIndex'' (ownDataValue source ''sdpMLineIndex'')
                @ ifString ''usernameFragment'' (ownDataValue source ''usernameFragment''))),
             (''auth'', auth)]))"

text \<open>The state of \<open>wireSignals\<close>: \<open>remoteSet\<close> says whether the peer connection has a remote
  description; \<open>handled\<close> are the signals given to it, oldest first.\<close>

record SignalWire =
  wireGuard :: ReplayGuard
  queuedCandidates :: "jsval list"
  handled :: "jsval list"
  remoteSet :: bool
  wireFailed :: bool
  wireDisposed :: bool

definition failWire :: "SignalWire \<Rightarrow> SignalWire" where
  "failWire w = (if wireFailed w \<or> wireDisposed w then w
     else w\<lparr>wireFailed := True, wireDisposed := True, queuedCandidates := []\<rparr>)"

definition authCheckFailed :: string where
  "authCheckFailed = ''Authenticated WebRTC signal check failed. Wrong code or signaling MITM.''"

definition isKind :: "string \<Rightarrow> jsval \<Rightarrow> bool" where
  "isKind k signal \<longleftrightarrow> ownDataValue signal ''kind'' = Str (js k)"

text \<open>From the message of the server to the authenticated copy of the signal.\<close>

definition authenticateSignal :: "Crypto \<Rightarrow> NumberFormat \<Rightarrow> jsval \<Rightarrow> jsval \<Rightarrow> jsval \<Rightarrow> jsval \<Rightarrow> jsval res" where
  "authenticateSignal C nf authKey sid peerRole message =
     andThen (openSignal C nf authKey sid peerRole (ownDataValue message ''sealedSignal'')) (\<lambda>openedSignal.
       if ownDataValue openedSignal ''kind'' \<noteq> ownDataValue message ''kind'' then throw authCheckFailed
       else if \<not> verifySignalAuthTag C nf authKey sid peerRole openedSignal then throw authCheckFailed
       else if isKind ''candidate'' openedSignal then copyCandidateSignal openedSignal else ok openedSignal)"

text \<open>The guard, and the queue for candidates that arrive before the remote description. A
  signal that is not queued is handed to the peer connection.\<close>

definition admitSignal :: "NumberFormat \<Rightarrow> SignalWire \<Rightarrow> jsval \<Rightarrow> SignalWire res" where
  "admitSignal nf w signal =
     andThen (acceptSignal nf (wireGuard w) signal) (\<lambda>g.
       if isKind ''candidate'' signal \<and> \<not> remoteSet w then
         (if length (queuedCandidates w) \<ge> MAX_QUEUED_ICE_CANDIDATES then throw ''Too many queued ICE candidates before SDP.''
          else ok (w\<lparr>wireGuard := g, queuedCandidates := queuedCandidates w @ [signal]\<rparr>))
       else ok (w\<lparr>wireGuard := g, handled := handled w @ [signal]\<rparr>))"

definition onSignal :: "Crypto \<Rightarrow> NumberFormat \<Rightarrow> urlParser \<Rightarrow> jsval \<Rightarrow> jsval \<Rightarrow> jsval \<Rightarrow> SignalWire \<Rightarrow> jsval \<Rightarrow> SignalWire" where
  "onSignal C nf url authKey sid ownRole w message =
     (if wireDisposed w then w
      else if \<not> isServerMessage url message then w
      else if ownDataValue message ''type'' \<noteq> Str (js ''signal'') \<or> ownDataValue message ''sid'' \<noteq> sid then w
      else let peerRole = (if ownRole = Str (js ''sender'') then Str (js ''receiver'') else Str (js ''sender'')) in
        case andThen (authenticateSignal C nf authKey sid peerRole message) (admitSignal nf w) of
          Inl _ \<Rightarrow> failWire w
        | Inr w' \<Rightarrow> w')"

text \<open>One round of the loop that hands over the queued candidates once the remote description
  is set.\<close>

definition drainCandidate :: "SignalWire \<Rightarrow> SignalWire" where
  "drainCandidate w =
     (if \<not> remoteSet w \<or> wireDisposed w then w
      else case queuedCandidates w of
        [] \<Rightarrow> w
      | c # rest \<Rightarrow> w\<lparr>queuedCandidates := rest, handled := handled w @ [c]\<rparr>)"

text \<open>The peer connection has applied an offer or an answer it was given.\<close>

definition descriptionApplied :: "SignalWire \<Rightarrow> SignalWire" where
  "descriptionApplied w = (if list_ex (\<lambda>s. \<not> isKind ''candidate'' s) (handled w) then w\<lparr>remoteSet := True\<rparr> else w)"

definition disposeWire :: "SignalWire \<Rightarrow> SignalWire" where
  "disposeWire w = w\<lparr>wireDisposed := True, queuedCandidates := []\<rparr>"

definition newWire :: "bool \<Rightarrow> SignalWire" where
  "newWire answers = \<lparr>wireGuard = newReplayGuard answers, queuedCandidates = [], handled = [], remoteSet = False,
     wireFailed = False, wireDisposed = False\<rparr>"

datatype WireEvent = SignalArrives jsval | DescriptionApplied | DrainNext | ConnectionFails | Dispose

fun wireStep :: "Crypto \<Rightarrow> NumberFormat \<Rightarrow> urlParser \<Rightarrow> jsval \<Rightarrow> jsval \<Rightarrow> jsval \<Rightarrow> WireEvent \<Rightarrow> SignalWire \<Rightarrow> SignalWire" where
  "wireStep C nf url authKey sid ownRole (SignalArrives m) w = onSignal C nf url authKey sid ownRole w m"
| "wireStep C nf url authKey sid ownRole DescriptionApplied w = descriptionApplied w"
| "wireStep C nf url authKey sid ownRole DrainNext w = drainCandidate w"
| "wireStep C nf url authKey sid ownRole ConnectionFails w = failWire w"
| "wireStep C nf url authKey sid ownRole Dispose w = disposeWire w"

section \<open>Lemmas\<close>

subsection \<open>The buffer\<close>

text \<open>The buffer never holds more messages or bytes than its limits.\<close>

definition queueBounded :: "SignalMessageQueue \<Rightarrow> bool" where
  "queueBounded q \<longleftrightarrow> length (queueMessages q) \<le> maxMessages q \<and> (\<forall>b. maxBytes q = Some b \<longrightarrow> bufferedBytes q \<le> b)"

lemma newQueue_bounded: "newSignalMessageQueue m b = ok q \<Longrightarrow> queueBounded q"
  by (auto simp: newSignalMessageQueue_def queueBounded_def)

lemma push_bounded: "pushSignal nf url q m = ok q' \<Longrightarrow> queueBounded q'"
  by (auto simp: pushSignal_def queueBounded_def split: if_splits option.splits)

lemma drain_bounded: "queueBounded (snd (drainSignals q))"
  by (simp add: drainSignals_def queueBounded_def)

text \<open>A buffered message is JSON data, so its copy is the message itself: what is drained is what
  was pushed, in order.\<close>

lemma push_copies:
  assumes "wfJson j" "jsonFits 0 j" "int (jsonNodes j) < MAX_SIGNALING_JSON_NODES"
    "utf8ByteLength (textOf nf j) \<le> SIGNALING_MAX_PAYLOAD_BYTES" "isSignalMessage url (toVal j)"
  shows "copySignalMessage nf url (toVal j) = ok (toVal j, length (utf8Encode (textOf nf j)))"
proof -
  let ?t = "textOf nf j"
  have "stringifyJsonData nf (toVal j) = ok ?t"
    using data_written[OF assms(2,3), of nf] utf8ByteLength_ge_units[of ?t] assms(4) by simp
  moreover have p: "parseJsonMessage nf (Str ?t) = toVal j" by (rule parse_back[OF assms(1,4)])
  ultimately have "serializeMessage nf url (toVal j) = ok ?t"
    using assms(4,5) by (auto simp: serializeMessage_def Let_def isSignalMessage_def)
  then show ?thesis using p assms(5) by (simp add: copySignalMessage_def Let_def del: parseJsonMessage.simps)
qed

subsection \<open>The guard\<close>

text \<open>What the guard remembers of an accepted signal.\<close>

definition replayKey :: "NumberFormat \<Rightarrow> jsval \<Rightarrow> jsval \<times> jsstring" where
  "replayKey nf s = (ownDataValue s ''kind'', if isKind ''candidate'' s then (case candidateReplayKey nf s of Inl _ \<Rightarrow> [] | Inr k \<Rightarrow> k) else [])"

definition guardKeys :: "ReplayGuard \<Rightarrow> (jsval \<times> jsstring) set" where
  "guardKeys g = (if seenOffer g then {(Str (js ''offer''), [])} else {}) \<union> (if seenAnswer g then {(Str (js ''answer''), [])} else {})
     \<union> (\<lambda>k. (Str (js ''candidate''), k)) ` set (seenCandidates g)"

lemma accept_fresh:
  assumes "acceptSignal nf g s = ok g'"
  shows "replayKey nf s \<notin> guardKeys g" "guardKeys g' = insert (replayKey nf s) (guardKeys g)" "answerOffers g' = answerOffers g"
  using assms
  by (auto simp: acceptSignal_def Let_def guardKeys_def replayKey_def isKind_def split: if_splits)

text \<open>The copy of an authenticated candidate is always readable for the guard: it has no
  \<open>usernameFragment\<close> of \<open>null\<close>, which the validators allow and the guard does not.\<close>

lemma bounded_str: "isSafeTokenString v n \<Longrightarrow> isStr v" "isByteBoundedString v n \<Longrightarrow> isStr v"
  by (cases v; simp)+

lemma index_number: "(case v of Number (NInt i) \<Rightarrow> P i | _ \<Rightarrow> False) \<Longrightarrow> isNumberValue v"
  by (cases v) simp_all

lemma copied_readable:
  assumes "assertSignalPayloadForVerify s = ok ()" "isKind ''candidate'' s" "copyCandidateSignal s = ok c"
  shows "isOk (candidateReplayKey nf c)" "isKind ''candidate'' c" "isObjectValue c"
proof -
  have v: "isIceCandidateInit (ownDataValue s ''candidate'')"
    using assms(1,2) by (auto simp: assertSignalPayloadForVerify_def assertSignalPayload_def isKind_def isSdpKind_def candidate_validators Let_def split: if_splits)
  define d where "d = ownDataValue s ''candidate''"
  have f: "isStr (ownDataValue d ''candidate'')" "ownDataValue d ''sdpMid'' \<in> {Undefined, Null} \<or> isStr (ownDataValue d ''sdpMid'')"
    "ownDataValue d ''sdpMLineIndex'' \<in> {Undefined, Null} \<or> isNumberValue (ownDataValue d ''sdpMLineIndex'')"
    using v unfolding d_def[symmetric] isIceCandidateInit_def
    by (auto simp: Let_def isSafeNonEmptyByteBoundedString_def isSafeByteBoundedString_def dest: bounded_str index_number)
  let ?d = "jobj (ifString ''candidate'' (ownDataValue d ''candidate'') @ definedMember ''sdpMid'' (ownDataValue d ''sdpMid'')
      @ definedMember ''sdpMLineIndex'' (ownDataValue d ''sdpMLineIndex'') @ ifString ''usernameFragment'' (ownDataValue d ''usernameFragment''))"
  have c: "c = jobj [(''kind'', Str (js ''candidate'')), (''candidate'', ?d), (''auth'', ownDataValue s ''auth'')]"
    using assms(3) by (auto simp: copyCandidateSignal_def d_def Let_def split: if_splits)
  then show "isKind ''candidate'' c" "isObjectValue c" by (simp_all add: isKind_def, simp add: jobj_def)
  have "ownDataValue ?d ''candidate'' = ownDataValue d ''candidate''" "ownDataValue ?d ''sdpMid'' = ownDataValue d ''sdpMid''"
    "ownDataValue ?d ''sdpMLineIndex'' = ownDataValue d ''sdpMLineIndex''"
    "ownDataValue ?d ''usernameFragment'' = Undefined \<or> isStr (ownDataValue ?d ''usernameFragment'')" "isObjectValue ?d"
    using f by (simp_all add: ifString_def definedMember_def, simp add: jobj_def)
  with f show "isOk (candidateReplayKey nf c)"
    unfolding candidateReplayKey_def c by (auto simp: Let_def)
qed

lemma authentic_not_malformed:
  assumes "assertSignalPayloadForVerify s = ok ()" "isKind ''candidate'' s \<Longrightarrow> copyCandidateSignal s = ok c" "\<not> isKind ''candidate'' s \<Longrightarrow> c = s"
    "acceptSignal nf g c = throw e"
  shows "e \<noteq> badReplay"
proof (cases "isKind ''candidate'' s")
  case True
  note c = copied_readable[OF assms(1) True assms(2)[OF True]]
  from c(1)[of nf] obtain k where "candidateReplayKey nf c = ok k" by (auto simp: isOk_iff)
  with assms(4) c(2,3) show ?thesis by (auto simp: acceptSignal_def isKind_def Let_def split: if_splits)
next
  case False
  have "isObjectValue s" "isSdpKind (ownDataValue s ''kind'')"
    using assms(1) False by (cases s; auto simp: assertSignalPayloadForVerify_def assertSignalPayload_def isKind_def Let_def split: if_splits)+
  with assms(3)[OF False] assms(4) show ?thesis by (auto simp: acceptSignal_def isSdpKind_def Let_def split: if_splits)
qed

subsection \<open>The wire\<close>

text \<open>A signal whose tag was verified, or the copy of such a candidate.\<close>

definition authentic :: "Crypto \<Rightarrow> NumberFormat \<Rightarrow> jsval \<Rightarrow> jsval \<Rightarrow> jsval \<Rightarrow> jsval \<Rightarrow> bool" where
  "authentic C nf authKey sid peerRole s \<longleftrightarrow>
     (\<exists>opened. verifySignalAuthTag C nf authKey sid peerRole opened \<and> (s = opened \<or> copyCandidateSignal opened = ok s))"

definition peerRoleOf :: "jsval \<Rightarrow> jsval" where
  "peerRoleOf r = (if r = Str (js ''sender'') then Str (js ''receiver'') else Str (js ''sender''))"

definition wireInv :: "Crypto \<Rightarrow> NumberFormat \<Rightarrow> jsval \<Rightarrow> jsval \<Rightarrow> jsval \<Rightarrow> SignalWire \<Rightarrow> bool" where
  "wireInv C nf authKey sid ownRole w \<longleftrightarrow>
     (let ss = handled w @ queuedCandidates w in
      distinct (map (replayKey nf) ss) \<and> replayKey nf ` set ss \<subseteq> guardKeys (wireGuard w)
      \<and> length (queuedCandidates w) \<le> MAX_QUEUED_ICE_CANDIDATES
      \<and> list_all (authentic C nf authKey sid (peerRoleOf ownRole)) ss)"

lemma authenticate_authentic:
  "authenticateSignal C nf authKey sid r m = ok s \<Longrightarrow> authentic C nf authKey sid r s"
  by (auto simp: authenticateSignal_def authentic_def split: if_splits)

lemma admit_inv:
  assumes "wireInv C nf authKey sid ownRole w" "admitSignal nf w s = ok w'" "authentic C nf authKey sid (peerRoleOf ownRole) s"
  shows "wireInv C nf authKey sid ownRole w'"
proof -
  from assms(2) obtain g where g: "acceptSignal nf (wireGuard w) s = ok g" by (auto simp: admitSignal_def)
  note a = accept_fresh(1,2)[OF g]
  from assms(2) g consider "w' = w\<lparr>wireGuard := g, queuedCandidates := queuedCandidates w @ [s]\<rparr>" "length (queuedCandidates w) < MAX_QUEUED_ICE_CANDIDATES"
    | "w' = w\<lparr>wireGuard := g, handled := handled w @ [s]\<rparr>"
    by (auto simp: admitSignal_def split: if_splits)
  then show ?thesis
    using assms(1,3) a unfolding wireInv_def by cases (auto simp: Let_def image_subset_iff)
qed

lemma failWire_inv: "wireInv C nf k sid r w \<Longrightarrow> wireInv C nf k sid r (failWire w)"
  by (auto simp: wireInv_def failWire_def Let_def)

lemma drain_keeps:
  "handled (drainCandidate w) @ queuedCandidates (drainCandidate w) = handled w @ queuedCandidates w"
  "wireGuard (drainCandidate w) = wireGuard w" "length (queuedCandidates (drainCandidate w)) \<le> length (queuedCandidates w)"
  by (auto simp: drainCandidate_def split: list.splits)

lemma wireStep_inv:
  assumes "wireInv C nf authKey sid ownRole w" shows "wireInv C nf authKey sid ownRole (wireStep C nf url authKey sid ownRole e w)"
proof (cases e)
  case (SignalArrives m)
  then show ?thesis
    using assms failWire_inv[OF assms] admit_inv[OF assms] authenticate_authentic
    by (auto simp: onSignal_def Let_def peerRoleOf_def split: sum.splits if_splits)
next
  case DrainNext
  then show ?thesis using assms drain_keeps(3)[of w] unfolding DrainNext wireStep.simps wireInv_def drain_keeps(1,2) Let_def by linarith
next
  case ConnectionFails
  with failWire_inv[OF assms] show ?thesis by simp
qed (use assms in \<open>auto simp: wireInv_def disposeWire_def descriptionApplied_def Let_def\<close>)

lemma newWire_inv: "wireInv C nf k sid r (newWire answers)"
  by (simp add: wireInv_def newWire_def)

lemma wire_inv_run:
  "wireInv C nf k sid r (fold (wireStep C nf url k sid r) events (newWire answers))"
proof -
  have "wireInv C nf k sid r w \<Longrightarrow> wireInv C nf k sid r (fold (wireStep C nf url k sid r) events w)" for w
    by (induction events arbitrary: w) (auto intro: wireStep_inv)
  then show ?thesis using newWire_inv by blast
qed

section \<open>Properties\<close>

text \<open>C18: Whatever messages the server delivers, and in whatever order the peer connection applies
  descriptions and takes queued candidates, the signals given to the peer connection carry a
  verified tag of the other role, no offer, answer or candidate is given to it twice, and at most
  256 candidates wait.\<close>

theorem signals_authentic_once:
  "let w = fold (wireStep C nf url authKey sid ownRole) events (newWire answers) in
     list_all (authentic C nf authKey sid (peerRoleOf ownRole)) (handled w)
     \<and> distinct (map (replayKey nf) (handled w)) \<and> length (queuedCandidates w) \<le> MAX_QUEUED_ICE_CANDIDATES"
  using wire_inv_run[of C nf authKey sid ownRole url events answers] by (simp add: wireInv_def Let_def)

end
