(* ===== verification/Control.thy ===== *)
theory Control
  imports ManifestLimits
begin

text \<open>
  Control messages of a transfer, \<open>src/src/shared/transfer.ts\<close>. A message received from the peer
  is an unknown value; \<open>assertControlMessage\<close> turns it into a \<open>ControlMessage\<close>, whose constructors
  are the members of the union of the source. \<open>controlObject\<close> is the object literal the program
  builds for a message. The lemmas show that what the checks accept is well formed and that they
  accept exactly the literals of well formed messages.
\<close>

section \<open>Data\<close>

definition MAX_ABORT_REASON_CHARS :: nat where [limit_defs]: "MAX_ABORT_REASON_CHARS = 1000"

definition REMOTE_ABORT_MESSAGE :: string where "REMOTE_ABORT_MESSAGE = ''Peer aborted the transfer.''"

definition LOCAL_ABORT_MESSAGE :: string where "LOCAL_ABORT_MESSAGE = ''Transfer aborted.''"

record TransferFile =
  entryId :: nat
  entryName :: jsstring
  entrySize :: nat
  entryMime :: "jsstring option"

datatype ControlMessage =
    Manifest (manifestFiles: "TransferFile list") (manifestTotal: nat)
  | FileBegin nat jsstring nat
  | Ready nat "nat option" "jsstring option"
  | Restart nat
  | FileEnd nat jsstring
  | FileOk nat
  | AllDone
  | AllDoneOk
  | Abort jsstring

section \<open>Object literals\<close>

definition optField :: "string \<Rightarrow> jsval option \<Rightarrow> (string \<times> jsval) list" where
  "optField k v = (case v of None \<Rightarrow> [] | Some x \<Rightarrow> [(k, x)])"

definition entryObject :: "TransferFile \<Rightarrow> jsval" where
  "entryObject f = jobj ([(''id'', jnat (entryId f)), (''name'', Str (entryName f)), (''size'', jnat (entrySize f))]
     @ optField ''mime'' (map_option Str (entryMime f)))"

fun controlObject :: "ControlMessage \<Rightarrow> jsval" where
  "controlObject (Manifest files totalBytes) =
     jobj [(''t'', Str (js ''manifest'')), (''files'', jarr (map entryObject files)), (''totalBytes'', jnat totalBytes)]"
| "controlObject (FileBegin fid name sz) =
     jobj [(''t'', Str (js ''file-begin'')), (''id'', jnat fid), (''name'', Str name), (''size'', jnat sz)]"
| "controlObject (Ready fid offset prefix) =
     jobj ([(''t'', Str (js ''ready'')), (''id'', jnat fid)]
       @ optField ''offset'' (map_option jnat offset) @ optField ''prefixSha256'' (map_option Str prefix))"
| "controlObject (Restart fid) = jobj [(''t'', Str (js ''restart'')), (''id'', jnat fid)]"
| "controlObject (FileEnd fid sha) = jobj [(''t'', Str (js ''file-end'')), (''id'', jnat fid), (''sha256'', Str sha)]"
| "controlObject (FileOk fid) = jobj [(''t'', Str (js ''file-ok'')), (''id'', jnat fid)]"
| "controlObject AllDone = jobj [(''t'', Str (js ''all-done''))]"
| "controlObject AllDoneOk = jobj [(''t'', Str (js ''all-done-ok''))]"
| "controlObject (Abort reason) = jobj [(''t'', Str (js ''abort'')), (''reason'', Str reason)]"

definition abortControlMessage :: "string \<Rightarrow> ControlMessage" where
  "abortControlMessage reason = Abort (js LOCAL_ABORT_MESSAGE)"

definition remoteAbortError :: string where
  "remoteAbortError = REMOTE_ABORT_MESSAGE"

section \<open>Checks\<close>

definition isUint8 :: "jsval \<Rightarrow> bool" where
  "isUint8 v = (case v of Number (NInt i) \<Rightarrow> 0 \<le> i \<and> i \<le> 255 | _ \<Rightarrow> False)"

text \<open>\<open>/^[a-f0-9]{64}$/\<close>.\<close>

definition sha256Hex :: "jsstring \<Rightarrow> bool" where
  "sha256Hex s \<longleftrightarrow> length s = 64 \<and> list_all (\<lambda>c. isDigit c \<or> 97 \<le> c \<and> c \<le> 102) s"

fun isSha256 :: "jsval \<Rightarrow> bool" where
  "isSha256 (Str s) = sha256Hex s"
| "isSha256 _ = False"

definition isOptionalResumeOffset :: "jsval \<Rightarrow> bool" where
  "isOptionalResumeOffset v \<longleftrightarrow> v = Undefined \<or> isSafeNonNegativeInteger v"

definition isOptionalSha256 :: "jsval \<Rightarrow> bool" where
  "isOptionalSha256 v \<longleftrightarrow> v = Undefined \<or> isSha256 v"

fun isSafeReason :: "jsval \<Rightarrow> nat \<Rightarrow> bool" where
  "isSafeReason (Str s) maxChars = (length s \<le> maxChars \<and> \<not> hasControlOrFormat s)"
| "isSafeReason _ maxChars = False"

fun isString :: "jsval \<Rightarrow> bool" where
  "isString (Str _) = True"
| "isString _ = False"

fun strOf :: "jsval \<Rightarrow> jsstring" where
  "strOf (Str s) = s"
| "strOf _ = []"

definition natOf :: "jsval \<Rightarrow> nat" where
  "natOf v = nat (numberInt v)"

definition optOf :: "(jsval \<Rightarrow> 'a) \<Rightarrow> jsval \<Rightarrow> 'a option" where
  "optOf f v = (if v = Undefined then None else Some (f v))"

text \<open>One entry of the file list of a manifest, and the loop over the list.\<close>

definition transferFileInput :: "jsval \<Rightarrow> TransferFile res" where
  "transferFileInput file =
     (if \<not> isObject file then throw ''Malformed manifest file entry''
      else let fid = ownDataValue file ''id''; name = ownDataValue file ''name'';
               size = ownDataValue file ''size''; mime = ownDataValue file ''mime'' in
        if \<not> hasOnlyKeys file [''id'', ''name'', ''size'', ''mime''] \<or> \<not> isUint8 fid \<or> \<not> isString name
           \<or> \<not> isSafeNonNegativeInteger size
        then throw ''Malformed manifest file entry''
        else if mime \<noteq> Undefined \<and> (\<not> isString mime \<or> length (strOf mime) > MAX_MIME_CHARS)
        then throw ''Malformed manifest MIME type''
        else ok \<lparr>entryId = natOf fid, entryName = strOf name, entrySize = natOf size, entryMime = optOf strOf mime\<rparr>)"

fun transferFilesInput :: "jsval list \<Rightarrow> (TransferFile list) res" where
  "transferFilesInput [] = ok []"
| "transferFilesInput (file # rest) =
     andThen (transferFileInput file) (\<lambda>f. andThen (transferFilesInput rest) (\<lambda>fs. ok (f # fs)))"

text \<open>The object that \<open>assertTransferManifestWithinLimits\<close> is called on.\<close>

definition manifestObject :: "TransferFile list \<Rightarrow> nat \<Rightarrow> jsval" where
  "manifestObject files totalBytes =
     jobj [(''files'', jarr (map entryObject files)), (''fileCount'', jnat (length files)), (''totalBytes'', jnat totalBytes)]"

definition assertTransferManifest :: "jsval \<Rightarrow> ControlMessage res" where
  "assertTransferManifest value =
     (let totalBytes = ownDataValue value ''totalBytes'' in
      case ownDataValue value ''files'' of
        Arr es \<Rightarrow>
          if \<not> hasOnlyKeys value [''t'', ''files'', ''totalBytes''] \<or> \<not> isSafeNonNegativeInteger totalBytes
          then throw ''Malformed manifest control message''
          else if length es < 1 \<or> length es > MAX_FILES_PER_SESSION
          then throw ''File count must be between 1 and 100.''
          else andThen (transferFilesInput (map dataValue es)) (\<lambda>files.
            andThen (assertTransferManifestWithinLimits (manifestObject files (natOf totalBytes))) (\<lambda>_.
              ok (Manifest files (natOf totalBytes))))
      | _ \<Rightarrow> throw ''Malformed manifest control message'')"

definition assertFileBegin :: "jsval \<Rightarrow> ControlMessage res" where
  "assertFileBegin value =
     (let fid = ownDataValue value ''id''; name = ownDataValue value ''name''; size = ownDataValue value ''size'' in
      if \<not> hasOnlyKeys value [''t'', ''id'', ''name'', ''size''] \<or> \<not> isUint8 fid \<or> \<not> isString name \<or> \<not> isSafeNonNegativeInteger size
      then throw ''Malformed file-begin control message''
      else andThen (assertFileWithinLimits name size) (\<lambda>_. ok (FileBegin (natOf fid) (strOf name) (natOf size))))"

definition assertReady :: "jsval \<Rightarrow> ControlMessage res" where
  "assertReady value =
     (let fid = ownDataValue value ''id''; offset = ownDataValue value ''offset''; prefix = ownDataValue value ''prefixSha256'' in
      if \<not> hasOnlyKeys value [''t'', ''id'', ''offset'', ''prefixSha256''] \<or> \<not> isUint8 fid \<or> \<not> isOptionalResumeOffset offset
         \<or> \<not> isOptionalSha256 prefix
      then throw ''Malformed ready control message''
      else if offset = Undefined \<and> prefix \<noteq> Undefined then throw ''Malformed ready control message''
      else if offset \<noteq> Undefined \<and> numberInt offset > 0 \<and> prefix = Undefined then throw ''Malformed ready control message''
      else ok (Ready (natOf fid) (optOf natOf offset) (optOf strOf prefix)))"

text \<open>The cases \<open>file-ok\<close> and \<open>restart\<close>, which carry a file id only.\<close>

definition assertFileId :: "string \<Rightarrow> (nat \<Rightarrow> ControlMessage) \<Rightarrow> jsval \<Rightarrow> ControlMessage res" where
  "assertFileId type mk value =
     (let fid = ownDataValue value ''id'' in
      if \<not> hasOnlyKeys value [''t'', ''id''] \<or> \<not> isUint8 fid then throw (''Malformed '' @ type @ '' control message'')
      else ok (mk (natOf fid)))"

definition assertFileEnd :: "jsval \<Rightarrow> ControlMessage res" where
  "assertFileEnd value =
     (let fid = ownDataValue value ''id''; sha = ownDataValue value ''sha256'' in
      if \<not> hasOnlyKeys value [''t'', ''id'', ''sha256''] \<or> \<not> isUint8 fid \<or> \<not> isSha256 sha
      then throw ''Malformed file-end control message'' else ok (FileEnd (natOf fid) (strOf sha)))"

definition assertControlMessage :: "jsval \<Rightarrow> ControlMessage res" where
  "assertControlMessage value =
     (if \<not> isObject value then throw ''Malformed control message''
      else case ownDataValue value ''t'' of
        Str type \<Rightarrow>
          if type = js ''manifest'' then assertTransferManifest value
          else if type = js ''file-begin'' then assertFileBegin value
          else if type = js ''file-ok'' then assertFileId ''file-ok'' FileOk value
          else if type = js ''ready'' then assertReady value
          else if type = js ''restart'' then assertFileId ''restart'' Restart value
          else if type = js ''file-end'' then assertFileEnd value
          else if type = js ''all-done'' then
            (if \<not> hasOnlyKeys value [''t''] then throw ''Malformed all-done control message'' else ok AllDone)
          else if type = js ''all-done-ok'' then
            (if \<not> hasOnlyKeys value [''t''] then throw ''Malformed all-done-ok control message'' else ok AllDoneOk)
          else if type = js ''abort'' then
            (if \<not> hasOnlyKeys value [''t'', ''reason''] \<or> \<not> isSafeReason (ownDataValue value ''reason'') MAX_ABORT_REASON_CHARS
             then throw ''Malformed abort control message'' else ok (Abort (strOf (ownDataValue value ''reason''))))
          else throw ''Unknown control message type''
      | _ \<Rightarrow> throw ''Malformed control message'')"

text \<open>The name of a message in error texts.\<close>

fun controlType :: "ControlMessage \<Rightarrow> string" where
  "controlType (Manifest _ _) = ''manifest''"
| "controlType (FileBegin _ _ _) = ''file-begin''"
| "controlType (Ready _ _ _) = ''ready''"
| "controlType (Restart _) = ''restart''"
| "controlType (FileEnd _ _) = ''file-end''"
| "controlType (FileOk _) = ''file-ok''"
| "controlType AllDone = ''all-done''"
| "controlType AllDoneOk = ''all-done-ok''"
| "controlType (Abort _) = ''abort''"

definition assertSenderControlMessage :: "ControlMessage \<Rightarrow> ControlMessage res" where
  "assertSenderControlMessage value =
     (if controlType value \<in> {''ready'', ''file-ok'', ''all-done-ok'', ''abort''} then ok value
      else throw (''Unexpected sender control message: '' @ controlType value @ ''.''))"

definition manifestMismatch :: string where
  "manifestMismatch = ''Transfer manifest does not match the accepted manifest.''"

text \<open>\<open>value ?? undefined\<close>.\<close>

definition orUndefined :: "jsval \<Rightarrow> jsval" where
  "orUndefined v = (if v = Null then Undefined else v)"

fun compareManifestFiles :: "jsval list \<Rightarrow> jsval list \<Rightarrow> unit res" where
  "compareManifestFiles [] transfers = ok ()"
| "compareManifestFiles (a # rest) transfers =
     (let t = (case transfers of [] \<Rightarrow> Undefined | x # _ \<Rightarrow> x) in
      if \<not> isObject a \<or> \<not> isObject t \<or> ownDataValue a ''id'' \<noteq> ownDataValue t ''id''
         \<or> ownDataValue a ''name'' \<noteq> ownDataValue t ''name'' \<or> ownDataValue a ''size'' \<noteq> ownDataValue t ''size''
         \<or> orUndefined (ownDataValue a ''mime'') \<noteq> orUndefined (ownDataValue t ''mime'')
      then throw manifestMismatch else compareManifestFiles rest (tl transfers))"

definition assertTransferManifestMatchesAccepted :: "jsval \<Rightarrow> jsval \<Rightarrow> unit res" where
  "assertTransferManifestMatchesAccepted accepted transfer =
     andThen (assertTransferManifestWithinLimits accepted) (\<lambda>_.
       case (ownDataValue accepted ''files'', ownDataValue transfer ''files'') of
         (Arr as, Arr ts) \<Rightarrow>
           let acceptedFileCount = ownDataValue accepted ''fileCount'';
               acceptedTotalBytes = ownDataValue accepted ''totalBytes'';
               transferTotalBytes = ownDataValue transfer ''totalBytes'' in
           if \<not> isSafeNonNegativeInteger acceptedFileCount \<or> \<not> isSafeNonNegativeInteger acceptedTotalBytes
              \<or> \<not> isSafeNonNegativeInteger transferTotalBytes
           then throw manifestMismatch
           else andThen (assertTransferManifestWithinLimits
                  (jobj [(''fileCount'', jnat (length ts)), (''totalBytes'', transferTotalBytes), (''files'', Arr ts)])) (\<lambda>_.
             if acceptedTotalBytes \<noteq> transferTotalBytes \<or> acceptedFileCount \<noteq> jnat (length ts) then throw manifestMismatch
             else compareManifestFiles (map dataValue as) (map dataValue ts))
       | _ \<Rightarrow> throw manifestMismatch)"

section \<open>Well formed messages\<close>

text \<open>What the types of the source do not say of a message.\<close>

fun wfControl :: "ControlMessage \<Rightarrow> bool" where
  "wfControl (Manifest files totalBytes) \<longleftrightarrow>
     1 \<le> length files \<and> length files \<le> 100 \<and> totalBytes = sum_list (map entrySize files)
     \<and> (\<forall>i < length files. entryId (files ! i) = i \<and> validFileName (Str (entryName (files ! i))) \<and> entrySize (files ! i) \<le> MAX_FILE_BYTES
           \<and> (\<forall>m. entryMime (files ! i) = Some m \<longrightarrow> length m \<le> MAX_MIME_CHARS \<and> mimeTypeValue m))"
| "wfControl (FileBegin fid name sz) \<longleftrightarrow> fid \<le> 255 \<and> validFileName (Str name) \<and> sz \<le> MAX_FILE_BYTES"
| "wfControl (Ready fid offset prefix) \<longleftrightarrow> fid \<le> 255
     \<and> (\<forall>n. offset = Some n \<longrightarrow> int n \<le> MAX_SAFE_INTEGER) \<and> (\<forall>p. prefix = Some p \<longrightarrow> sha256Hex p)
     \<and> (case offset of None \<Rightarrow> prefix = None | Some n \<Rightarrow> n = 0 \<or> prefix \<noteq> None)"
| "wfControl (Restart fid) \<longleftrightarrow> fid \<le> 255"
| "wfControl (FileEnd fid sha) \<longleftrightarrow> fid \<le> 255 \<and> sha256Hex sha"
| "wfControl (FileOk fid) \<longleftrightarrow> fid \<le> 255"
| "wfControl AllDone \<longleftrightarrow> True"
| "wfControl AllDoneOk \<longleftrightarrow> True"
| "wfControl (Abort reason) \<longleftrightarrow> length reason \<le> MAX_ABORT_REASON_CHARS \<and> \<not> hasControlOrFormat reason"

section \<open>Lemmas\<close>

lemma natOf_jnat [simp]: "natOf (jnat n) = n"
  by (simp add: natOf_def jnat_def)

lemma jnat_inject [simp]: "jnat a = jnat b \<longleftrightarrow> a = b"
  by (simp add: jnat_def)

lemma jnat_values [simp]: "jnat n \<noteq> Undefined" "jnat n \<noteq> Null" "jnat n \<noteq> Str s" "Undefined \<noteq> jnat n" "numberInt (jnat n) = int n"
  by (simp_all add: jnat_def)

lemma isUint8_jnat [simp]: "isUint8 (jnat n) \<longleftrightarrow> n \<le> 255"
  by (simp add: isUint8_def jnat_def)

lemma isUint8E:
  assumes "isUint8 v" obtains n where "v = jnat n" "n \<le> 255"
  using assms that[of "nat (numberInt v)"] by (auto simp: isUint8_def jnat_def split: jsval.splits jsnum.splits)

lemma isString_iff: "isString v \<longleftrightarrow> (\<exists>s. v = Str s)"
  by (cases v) auto

lemma isSha256_iff: "isSha256 v \<longleftrightarrow> (\<exists>s. v = Str s \<and> sha256Hex s)"
  by (cases v) auto

lemma isSafeReason_iff: "isSafeReason v n \<longleftrightarrow> (\<exists>s. v = Str s \<and> length s \<le> n \<and> \<not> hasControlOrFormat s)"
  by (cases v) auto

lemma optOf_simps [simp]: "optOf f Undefined = None" "optOf natOf (jnat n) = Some n" "optOf strOf (Str s) = Some s"
  by (simp_all add: optOf_def)

lemma optField_simps [simp]: "optField k None = []" "optField k (Some v) = [(k, v)]"
  by (simp_all add: optField_def)

lemma MAX_FILE_BYTES_safe: "n \<le> MAX_FILE_BYTES \<Longrightarrow> int n \<le> MAX_SAFE_INTEGER"
  by (simp add: limit_defs MAX_SAFE_INTEGER_def)

subsection \<open>Entries of a manifest\<close>

lemma entryObject_fields [simp]:
  "isObject (entryObject f)" "ownDataValue (entryObject f) ''id'' = jnat (entryId f)"
  "ownDataValue (entryObject f) ''name'' = Str (entryName f)" "ownDataValue (entryObject f) ''size'' = jnat (entrySize f)"
  "ownDataValue (entryObject f) ''mime'' = (case entryMime f of None \<Rightarrow> Undefined | Some m \<Rightarrow> Str m)"
  "hasOnlyKeys (entryObject f) [''id'', ''name'', ''size'', ''mime'']"
  by (cases "entryMime f"; simp add: entryObject_def)+

lemma entryMime_defined [simp]: "(case m of None \<Rightarrow> Undefined | Some s \<Rightarrow> Str s) = Undefined \<longleftrightarrow> m = None"
  "optOf strOf (case m of None \<Rightarrow> Undefined | Some s \<Rightarrow> Str s) = m"
  by (cases m; simp)+

definition wfEntry :: "TransferFile \<Rightarrow> bool" where
  "wfEntry f \<longleftrightarrow> entryId f \<le> 255 \<and> validFileName (Str (entryName f)) \<and> entrySize f \<le> MAX_FILE_BYTES
     \<and> (\<forall>m. entryMime f = Some m \<longrightarrow> length m \<le> MAX_MIME_CHARS \<and> mimeTypeValue m)"

lemma valid_entryObject: "validManifestFile (entryObject f) \<longleftrightarrow> wfEntry f"
  by (cases "entryMime f") (auto simp: validManifestFile_def wfEntry_def validMime_def)

lemma transferFileInput_entry:
  assumes "wfEntry f" shows "transferFileInput (entryObject f) = ok f"
  using assms MAX_FILE_BYTES_safe[of "entrySize f"]
  by (cases "entryMime f") (auto simp: transferFileInput_def wfEntry_def)

lemma transferFilesInput_entries:
  "list_all wfEntry fs \<Longrightarrow> transferFilesInput (map entryObject fs) = ok fs"
  by (induction fs) (auto simp: transferFileInput_entry)

lemma manifestObject_fields [simp]:
  "arrayValues (ownDataValue (manifestObject fs n) ''files'') = map entryObject fs"
  "ownDataValue (manifestObject fs n) ''fileCount'' = jnat (length fs)"
  "ownDataValue (manifestObject fs n) ''totalBytes'' = jnat n"
  "isObject (manifestObject fs n)" "hasOnlyKeys (manifestObject fs n) [''files'', ''fileCount'', ''totalBytes'']"
  "\<exists>es. ownDataValue (manifestObject fs n) ''files'' = Arr es"
  by (simp_all add: manifestObject_def jarr_def comp_def)

lemma fileSizeOf_entry [simp]: "fileSizeOf (entryObject f) = entrySize f"
  by (simp add: fileSizeOf_def)

lemma manifestIds_entries: "manifestIds (map entryObject fs) = map entryId fs"
  by (induction fs) (simp_all add: manifestIds_def)

lemma valid_manifestObject: "validTransferManifest (manifestObject fs n) \<longleftrightarrow> wfControl (Manifest fs n)"
proof -
  have "distinct (map entryId fs)" if "\<forall>i < length fs. entryId (fs ! i) = i"
    using that by (simp add: distinct_conv_nth)
  then show ?thesis
    unfolding validTransferManifest_def validManifest_def
    by (auto simp: Let_def list_all_length valid_entryObject wfEntry_def manifestIds_entries comp_def limit_defs)
qed

lemma wf_entries: "wfControl (Manifest fs n) \<Longrightarrow> list_all wfEntry fs"
  by (auto simp: list_all_length wfEntry_def)

lemma wf_total_safe: "wfControl (Manifest fs n) \<Longrightarrow> int n \<le> MAX_SAFE_INTEGER"
  using manifest_total_safe[of "map entryObject fs"] wf_entries[of fs n]
  by (simp add: list_all_iff valid_entryObject comp_def limit_defs)

subsection \<open>What the checks accept\<close>

lemma assertFileWithinLimits_str:
  "assertFileWithinLimits (Str s) (jnat n) = ok () \<longleftrightarrow> validFileName (Str s) \<and> n \<le> MAX_FILE_BYTES"
  by (simp add: assertFileWithinLimits_iff)

lemma parsed_wf:
  assumes "assertControlMessage v = ok m" shows "wfControl m"
proof -
  have man: "wfControl m" if "assertTransferManifest v = ok m"
    using that unfolding assertTransferManifest_def
    by (auto simp: Let_def assertTransferManifestWithinLimits_iff valid_manifestObject simp del: wfControl.simps
        split: jsval.splits if_splits)
  have beg: "wfControl m" if "assertFileBegin v = ok m"
    using that unfolding assertFileBegin_def
    by (auto simp: Let_def isString_iff assertFileWithinLimits_str elim!: isUint8E isSafeNonNegativeInteger_cases split: if_splits)
  have rdy: "wfControl m" if "assertReady v = ok m"
    using that unfolding assertReady_def
    by (auto simp: Let_def isOptionalResumeOffset_def isOptionalSha256_def isSha256_iff elim!: isUint8E isSafeNonNegativeInteger_cases
        split: if_splits)
  have fid: "wfControl m" if "assertFileId t mk v = ok m" "mk = FileOk \<or> mk = Restart" for t mk
    using that unfolding assertFileId_def by (auto simp: Let_def elim!: isUint8E split: if_splits)
  have fin: "wfControl m" if "assertFileEnd v = ok m"
    using that unfolding assertFileEnd_def by (auto simp: Let_def isSha256_iff elim!: isUint8E split: if_splits)
  from assms show ?thesis
    unfolding assertControlMessage_def
    by (auto simp: isSafeReason_iff intro: man beg rdy fid fin split: jsval.splits if_splits)
qed

lemma literal_parsed:
  assumes "wfControl m" shows "assertControlMessage (controlObject m) = ok m"
proof (cases m)
  case (Manifest fs n)
  have wf: "wfControl (Manifest fs n)" using assms Manifest by simp
  have "assertTransferManifestWithinLimits (manifestObject fs n) = ok ()"
    using wf by (simp only: assertTransferManifestWithinLimits_iff valid_manifestObject)
  moreover have "map dataValue (map (\<lambda>v. Some (DataProp True v)) (map entryObject fs)) = map entryObject fs"
    by (simp add: comp_def)
  moreover have "fs \<noteq> []" using wf by auto
  ultimately show ?thesis
    using wf wf_total_safe[OF wf] transferFilesInput_entries[OF wf_entries[OF wf]] unfolding Manifest
    by (simp add: assertControlMessage_def assertTransferManifest_def jarr_def comp_def limit_defs Let_def)
next
  case (FileBegin fid name size)
  then show ?thesis
    using assms MAX_FILE_BYTES_safe[of size]
    by (simp add: assertControlMessage_def assertFileBegin_def assertFileWithinLimits_str)
next
  case (Ready fid offset prefix)
  then show ?thesis
    using assms
    by (cases offset; cases prefix)
      (auto simp: assertControlMessage_def assertReady_def isOptionalResumeOffset_def isOptionalSha256_def)
qed (use assms in \<open>auto simp: assertControlMessage_def assertFileId_def assertFileEnd_def\<close>)

subsection \<open>Comparison with the accepted manifest\<close>

lemma transferFileInput_valid:
  assumes "validManifestFile a" "ownDataValue a ''id'' = jnat i"
  shows "transferFileInput a = ok f \<longleftrightarrow>
    jnat (entryId f) = jnat i \<and> Str (entryName f) = ownDataValue a ''name'' \<and> jnat (entrySize f) = ownDataValue a ''size''
    \<and> (case entryMime f of None \<Rightarrow> Undefined | Some m \<Rightarrow> Str m) = ownDataValue a ''mime''"
proof -
  from assms obtain s n where a: "isObject a" "hasOnlyKeys a [''id'', ''name'', ''size'', ''mime'']" "i \<le> 255"
    "ownDataValue a ''name'' = Str s" "ownDataValue a ''size'' = jnat n" "n \<le> MAX_FILE_BYTES" "validMime (ownDataValue a ''mime'')"
    by (auto simp: validManifestFile_def validFileName_def validFileSize_def)
  from a(7) show ?thesis
    unfolding transferFileInput_def
    using a(1-6) assms(2) MAX_FILE_BYTES_safe[of n]
    by (cases f; cases "entryMime f") (auto simp: Let_def validMime_def)
qed

lemma compareManifestFiles_iff:
  assumes "length as = length fs" "list_all validManifestFile as" "\<And>i. i < length as \<Longrightarrow> ownDataValue (as ! i) ''id'' = jnat (k + i)"
  shows "compareManifestFiles as (map entryObject fs) = ok () \<longleftrightarrow> transferFilesInput as = ok fs"
  using assms
proof (induction as arbitrary: fs k)
  case (Cons a as)
  then obtain f rest where fs: "fs = f # rest" by (cases fs) auto
  have a: "validManifestFile a" "ownDataValue a ''id'' = jnat k" "isObject a"
    using Cons.prems(2) Cons.prems(3)[of 0] by (simp_all add: validManifestFile_def)
  have mime: "orUndefined (ownDataValue a ''mime'') = ownDataValue a ''mime''"
    "orUndefined (case entryMime f of None \<Rightarrow> Undefined | Some m \<Rightarrow> Str m) = (case entryMime f of None \<Rightarrow> Undefined | Some m \<Rightarrow> Str m)"
    using a(1) by (auto simp: validManifestFile_def validMime_def orUndefined_def split: option.splits)
  have ih: "compareManifestFiles as (map entryObject rest) = ok () \<longleftrightarrow> transferFilesInput as = ok rest"
  proof (rule Cons.IH)
    show "ownDataValue (as ! i) ''id'' = jnat (Suc k + i)" if "i < length as" for i using Cons.prems(3)[of "Suc i"] that by simp
  qed (use Cons.prems fs in auto)
  have l: "compareManifestFiles (a # as) (map entryObject fs) = ok () \<longleftrightarrow>
      jnat k = jnat (entryId f) \<and> ownDataValue a ''name'' = Str (entryName f) \<and> ownDataValue a ''size'' = jnat (entrySize f)
      \<and> ownDataValue a ''mime'' = (case entryMime f of None \<Rightarrow> Undefined | Some m \<Rightarrow> Str m) \<and> compareManifestFiles as (map entryObject rest) = ok ()"
    using a by (auto simp: fs Let_def mime)
  have r: "transferFilesInput (a # as) = ok fs \<longleftrightarrow> transferFileInput a = ok f \<and> transferFilesInput as = ok rest"
    unfolding fs by auto
  show ?case unfolding l r ih transferFileInput_valid[OF a(1,2)] by (metis (no_types, lifting))
qed simp

section \<open>Properties\<close>

text \<open>C33: The check of a received control message lets only well formed messages through: ids of one
  byte, valid names and sizes, manifests numbered from 0 whose total is the sum of their sizes,
  digests of 64 hexadecimal digits, a prefix digest with every resume offset; and the literal the
  program sends for a message is accepted as that message exactly when the message is well formed.\<close>

theorem control_messages_typed:
  "(assertControlMessage v = ok m \<longrightarrow> wfControl m) \<and> (assertControlMessage (controlObject m) = ok m \<longleftrightarrow> wfControl m)"
  using parsed_wf literal_parsed by blast

theorem control_messages_typed_witness:
  "wfControl (Ready 3 (Some 65536) (Some (replicate 64 97)))
   \<and> assertControlMessage (controlObject (Ready 3 (Some 65536) (Some (replicate 64 97)))) = ok (Ready 3 (Some 65536) (Some (replicate 64 97)))"
proof -
  have "wfControl (Ready 3 (Some 65536) (Some (replicate 64 97)))"
    by (simp add: sha256Hex_def list_all_iff MAX_SAFE_INTEGER_def)
  then show ?thesis
    using control_messages_typed[of "controlObject (Ready 3 (Some 65536) (Some (replicate 64 97)))" "Ready 3 (Some 65536) (Some (replicate 64 97))"]
    by blast
qed

text \<open>C34: A transfer manifest passes the comparison exactly when the accepted manifest is valid, the
  transfer manifest is well formed, and both list the same files: the entries of the accepted
  manifest, read as transfer files, are the entries announced, with the same total.\<close>

theorem accepted_manifest_exact:
  "assertTransferManifestMatchesAccepted accepted (controlObject (Manifest fs n)) = ok () \<longleftrightarrow>
     validTransferManifest accepted \<and> wfControl (Manifest fs n)
     \<and> transferFilesInput (arrayValues (ownDataValue accepted ''files'')) = ok fs
     \<and> ownDataValue accepted ''totalBytes'' = jnat n"
  (is "?l \<longleftrightarrow> ?v \<and> ?w \<and> ?t \<and> ?b")
proof (cases "validTransferManifest accepted")
  case True
  let ?as = "arrayValues (ownDataValue accepted ''files'')"
  from True obtain es where es: "ownDataValue accepted ''files'' = Arr es" and cnt: "ownDataValue accepted ''fileCount'' = jnat (length es)"
    and tot: "ownDataValue accepted ''totalBytes'' = jnat (sum_list (map fileSizeOf (map dataValue es)))"
    and val: "list_all validManifestFile (map dataValue es)" and len: "length es \<le> MAX_FILES_PER_SESSION"
    and ids: "\<And>i. i < length es \<Longrightarrow> ownDataValue (map dataValue es ! i) ''id'' = jnat i"
    unfolding validTransferManifest_def validManifest_def Let_def by auto
  have safe: "int (sum_list (map fileSizeOf (map dataValue es))) \<le> MAX_SAFE_INTEGER" "int (length es) \<le> MAX_SAFE_INTEGER"
    using manifest_total_safe[OF val] len by (auto simp: limit_defs MAX_SAFE_INTEGER_def)
  let ?chk = "jobj [(''fileCount'', jnat (length fs)), (''totalBytes'', jnat n), (''files'', jarr (map entryObject fs))]"
  have chk: "assertTransferManifestWithinLimits ?chk = ok () \<longleftrightarrow> ?w"
    unfolding assertTransferManifestWithinLimits_iff valid_manifestObject[symmetric]
    by (simp add: validTransferManifest_def validManifest_def manifestObject_def jarr_def comp_def)
  have "?l \<longleftrightarrow> int n \<le> MAX_SAFE_INTEGER \<and> ?w \<and> ?b \<and> length es = length fs
      \<and> compareManifestFiles (map dataValue es) (map entryObject fs) = ok ()"
    using True safe chk
    unfolding assertTransferManifestMatchesAccepted_def assertTransferManifestWithinLimits_iff
    by (auto simp: assertTransferManifestWithinLimits_iff es cnt tot jarr_def comp_def Let_def
        simp del: wfControl.simps)
  moreover have "length es = length fs \<and> compareManifestFiles (map dataValue es) (map entryObject fs) = ok () \<longleftrightarrow> ?t"
  proof -
    have "length gs = length as" if "transferFilesInput as = ok gs" for as gs
      using that by (induction as arbitrary: gs) auto
    then show ?thesis
      using compareManifestFiles_iff[of "map dataValue es" fs 0] val ids unfolding es by auto
  qed
  ultimately show ?thesis using True wf_total_safe by blast
qed (auto simp: assertTransferManifestMatchesAccepted_def assertTransferManifestWithinLimits_iff)

end
