(* ===== verification/Effects.thy ===== *)
theory Effects
  imports Prelude
begin

text \<open>
  Code with effects: a computation on a world of type \<open>'w\<close> that returns or throws, with the
  sequencing, \<open>catch\<close> and \<open>finally\<close> of the source. An error is one of the operating system, known
  by its \<open>code\<close>, or one the program throws, known by its message. The locale \<open>frame\<close> collects the
  rules by which a relation between the world before and after extends from the primitives to
  whole computations.
\<close>

section \<open>Computations\<close>

datatype jsError = NodeError string | JsError string

type_synonym ('w, 'a) io = "'w \<Rightarrow> (jsError + 'a) \<times> 'w"

definition pureIO :: "'a \<Rightarrow> ('w, 'a) io" where
  "pureIO x = (\<lambda>w. (Inr x, w))"

definition raiseIO :: "jsError \<Rightarrow> ('w, 'a) io" where
  "raiseIO e = (\<lambda>w. (Inl e, w))"

abbreviation failIO :: "string \<Rightarrow> ('w, 'a) io" where
  "failIO msg \<equiv> raiseIO (JsError msg)"

definition bindIO :: "('w, 'a) io \<Rightarrow> ('a \<Rightarrow> ('w, 'b) io) \<Rightarrow> ('w, 'b) io" where
  "bindIO m f = (\<lambda>w. case m w of (Inl e, w') \<Rightarrow> (Inl e, w') | (Inr x, w') \<Rightarrow> f x w')"

definition catchIO :: "('w, 'a) io \<Rightarrow> (jsError \<Rightarrow> ('w, 'a) io) \<Rightarrow> ('w, 'a) io" where
  "catchIO m h = (\<lambda>w. case m w of (Inl e, w') \<Rightarrow> h e w' | (Inr x, w') \<Rightarrow> (Inr x, w'))"

text \<open>\<open>try { m } finally { f }\<close>: an error of the finalizer replaces the outcome.\<close>

definition finallyIO :: "('w, 'a) io \<Rightarrow> ('w, unit) io \<Rightarrow> ('w, 'a) io" where
  "finallyIO m f = (\<lambda>w. case m w of (r, w') \<Rightarrow> (case f w' of (Inl e, w'') \<Rightarrow> (Inl e, w'') | (Inr _, w'') \<Rightarrow> (r, w'')))"

text \<open>One continuation for each outcome.\<close>

definition branchIO :: "('w, 'a) io \<Rightarrow> (jsError \<Rightarrow> ('w, 'b) io) \<Rightarrow> ('a \<Rightarrow> ('w, 'b) io) \<Rightarrow> ('w, 'b) io" where
  "branchIO m h f = (\<lambda>w. case m w of (Inl e, w') \<Rightarrow> h e w' | (Inr x, w') \<Rightarrow> f x w')"

text \<open>\<open>m.catch(() => {})\<close> and \<open>try { m } catch { }\<close>.\<close>

definition ignoreIO :: "('w, unit) io \<Rightarrow> ('w, unit) io" where
  "ignoreIO m = catchIO m (\<lambda>_. pureIO ())"

definition whenIO :: "bool \<Rightarrow> ('w, unit) io \<Rightarrow> ('w, unit) io" where
  "whenIO b m = (if b then m else pureIO ())"

definition modifyIO :: "('w \<Rightarrow> 'w) \<Rightarrow> ('w, unit) io" where
  "modifyIO f = (\<lambda>w. (Inr (), f w))"

definition readIO :: "('w \<Rightarrow> 'a) \<Rightarrow> ('w, 'a) io" where
  "readIO f = (\<lambda>w. (Inr (f w), w))"

definition liftRes :: "'a res \<Rightarrow> ('w, 'a) io" where
  "liftRes r = (case r of Inl e \<Rightarrow> failIO e | Inr x \<Rightarrow> pureIO x)"

text \<open>A computation on a part of the world.\<close>

definition zoomIO :: "('v \<Rightarrow> 'w) \<Rightarrow> (('w \<Rightarrow> 'w) \<Rightarrow> 'v \<Rightarrow> 'v) \<Rightarrow> ('w, 'a) io \<Rightarrow> ('v, 'a) io" where
  "zoomIO get upd m = (\<lambda>v. case m (get v) of (r, w') \<Rightarrow> (r, upd (\<lambda>_. w') v))"

lemmas io_defs = branchIO_def pureIO_def raiseIO_def bindIO_def catchIO_def finallyIO_def ignoreIO_def whenIO_def modifyIO_def readIO_def liftRes_def zoomIO_def

lemma bindIO_pure [simp]: "bindIO (pureIO x) f = f x" "bindIO m pureIO = m" "bindIO (raiseIO e) f = raiseIO e"
  by (auto simp: io_defs fun_eq_iff split: prod.splits sum.splits)

lemma bindIO_assoc: "bindIO (bindIO m f) g = bindIO m (\<lambda>x. bindIO (f x) g)"
  by (auto simp: bindIO_def fun_eq_iff split: prod.splits sum.splits)

lemma liftRes_simps [simp]: "liftRes (Inr x) = pureIO x" "liftRes (Inl e) = failIO e"
  by (simp_all add: liftRes_def)

section \<open>Runs\<close>

text \<open>\<open>returns m w x w'\<close>: from \<open>w\<close> the computation returns \<open>x\<close> and leaves \<open>w'\<close>.\<close>

definition returns :: "('w, 'a) io \<Rightarrow> 'w \<Rightarrow> 'a \<Rightarrow> 'w \<Rightarrow> bool" where
  "returns m w x w' \<longleftrightarrow> m w = (Inr x, w')"

definition throws :: "('w, 'a) io \<Rightarrow> 'w \<Rightarrow> jsError \<Rightarrow> 'w \<Rightarrow> bool" where
  "throws m w e w' \<longleftrightarrow> m w = (Inl e, w')"

named_theorems run_simps \<open>how a returning or throwing run decomposes\<close>

lemma returns_basic [run_simps]:
  "returns (pureIO x) w y w' \<longleftrightarrow> y = x \<and> w' = w"
  "returns (raiseIO e) w y w' \<longleftrightarrow> False"
  "returns (modifyIO f) w u w' \<longleftrightarrow> w' = f w"
  "returns (readIO g) w y w' \<longleftrightarrow> y = g w \<and> w' = w"
  "throws (pureIO x) w err w' \<longleftrightarrow> False"
  "throws (raiseIO e) w err w' \<longleftrightarrow> err = e \<and> w' = w"
  "throws (modifyIO f) w err w' \<longleftrightarrow> False"
  "throws (readIO g) w err w' \<longleftrightarrow> False"
  by (auto simp: returns_def throws_def io_defs)

lemma returns_bind [run_simps]:
  "returns (bindIO m f) w y w' \<longleftrightarrow> (\<exists>x v. returns m w x v \<and> returns (f x) v y w')"
  "throws (bindIO m f) w e w' \<longleftrightarrow> throws m w e w' \<or> (\<exists>x v. returns m w x v \<and> throws (f x) v e w')"
  by (auto simp: returns_def throws_def io_defs split: prod.splits sum.splits)

lemma returns_catch [run_simps]:
  "returns (catchIO m h) w y w' \<longleftrightarrow> returns m w y w' \<or> (\<exists>e v. throws m w e v \<and> returns (h e) v y w')"
  "throws (catchIO m h) w e w' \<longleftrightarrow> (\<exists>e' v. throws m w e' v \<and> throws (h e') v e w')"
  by (auto simp: returns_def throws_def io_defs split: prod.splits sum.splits)

lemma returns_finally [run_simps]:
  "returns (finallyIO m f) w y w' \<longleftrightarrow> (\<exists>v. returns m w y v \<and> returns f v () w')"
  "throws (finallyIO m f) w e w' \<longleftrightarrow>
     (\<exists>v. throws m w e v \<and> returns f v () w') \<or> (\<exists>v. (\<exists>x. returns m w x v) \<and> throws f v e w') \<or> (\<exists>v. (\<exists>e'. throws m w e' v) \<and> throws f v e w')"
  by (auto simp: returns_def throws_def io_defs split: prod.splits sum.splits) (metis sum.exhaust)

lemma returns_branch [run_simps]:
  "returns (branchIO m h f) w y w' \<longleftrightarrow> (\<exists>x v. returns m w x v \<and> returns (f x) v y w') \<or> (\<exists>e v. throws m w e v \<and> returns (h e) v y w')"
  "throws (branchIO m h f) w err w' \<longleftrightarrow> (\<exists>x v. returns m w x v \<and> throws (f x) v err w') \<or> (\<exists>e v. throws m w e v \<and> throws (h e) v err w')"
  by (auto simp: returns_def throws_def io_defs split: prod.splits sum.splits)

lemma returns_ignore [run_simps]:
  "returns (ignoreIO m) w u w' \<longleftrightarrow> returns m w () w' \<or> (\<exists>e. throws m w e w')" "throws (ignoreIO m) w e w' \<longleftrightarrow> False"
  by (auto simp: ignoreIO_def run_simps)

lemma returns_when [run_simps]:
  "returns (whenIO b m) w u w' \<longleftrightarrow> (if b then returns m w () w' else w' = w)" "throws (whenIO b m) w e w' \<longleftrightarrow> b \<and> throws m w e w'"
  by (auto simp: whenIO_def run_simps)

lemma returns_lift [run_simps]:
  "returns (liftRes r) w x w' \<longleftrightarrow> r = Inr x \<and> w' = w" "throws (liftRes r) w e w' \<longleftrightarrow> w' = w \<and> (\<exists>msg. r = Inl msg \<and> e = JsError msg)"
  by (auto simp: liftRes_def run_simps split: sum.splits)

lemma run_total: "(\<exists>x w'. returns m w x w') \<or> (\<exists>e w'. throws m w e w')"
  by (cases "m w"; cases "fst (m w)") (auto simp: returns_def throws_def)

section \<open>Evaluation\<close>

text \<open>How an outcome goes on: rewriting with \<open>io_eval\<close> under the congruences \<open>io_cong\<close> runs a
  computation on a given world, and leaves continuations alone until they are reached.\<close>

definition andRun :: "(jsError + 'a) \<times> 'w \<Rightarrow> ('a \<Rightarrow> ('w, 'b) io) \<Rightarrow> (jsError + 'b) \<times> 'w" where
  "andRun r f = (case r of (Inl e, w) \<Rightarrow> (Inl e, w) | (Inr x, w) \<Rightarrow> f x w)"

definition orRun :: "(jsError + 'a) \<times> 'w \<Rightarrow> (jsError \<Rightarrow> ('w, 'a) io) \<Rightarrow> (jsError + 'a) \<times> 'w" where
  "orRun r h = (case r of (Inl e, w) \<Rightarrow> h e w | (Inr x, w) \<Rightarrow> (Inr x, w))"

definition eitherRun :: "(jsError + 'a) \<times> 'w \<Rightarrow> (jsError \<Rightarrow> ('w, 'b) io) \<Rightarrow> ('a \<Rightarrow> ('w, 'b) io) \<Rightarrow> (jsError + 'b) \<times> 'w" where
  "eitherRun r h f = (case r of (Inl e, w) \<Rightarrow> h e w | (Inr x, w) \<Rightarrow> f x w)"

definition lastRun :: "(jsError + 'a) \<times> 'w \<Rightarrow> ('w, unit) io \<Rightarrow> (jsError + 'a) \<times> 'w" where
  "lastRun r f = andRun (f (snd r)) (\<lambda>_ w. (fst r, w))"

lemma io_eval:
  "pureIO x w = (Inr x, w)" "raiseIO e w = (Inl e, w)" "modifyIO g w = (Inr (), g w)" "readIO k w = (Inr (k w), w)"
  "bindIO m f w = andRun (m w) f" "catchIO mc h w = orRun (mc w) h" "branchIO m hb f w = eitherRun (m w) hb f" "finallyIO mf fin w = lastRun (mf w) fin"
  "ignoreIO mu w = orRun (mu w) (\<lambda>_. pureIO ())" "whenIO b mu w = (if b then mu w else (Inr (), w))"
  by (auto simp: io_defs andRun_def orRun_def eitherRun_def lastRun_def split: prod.splits sum.splits)

lemma run_eval:
  "andRun (Inl e, w) f = (Inl e, w)" "andRun (Inr x, w) f = f x w" "orRun (Inl e, w) h = h e w" "orRun (Inr y, w) h = (Inr y, w)"
  "eitherRun (Inl e, w) hb f = hb e w" "eitherRun (Inr x, w) hb f = f x w" "lastRun (r, w) fin = andRun (fin w) (\<lambda>_ w. (r, w))"
  by (auto simp: andRun_def orRun_def eitherRun_def lastRun_def split: prod.splits sum.splits)

lemma io_cong:
  "w = w' \<Longrightarrow> bindIO m f w = bindIO m f w'" "w = w' \<Longrightarrow> catchIO mc h w = catchIO mc h w'" "w = w' \<Longrightarrow> branchIO m hb f w = branchIO m hb f w'"
  "w = w' \<Longrightarrow> finallyIO mf fin w = finallyIO mf fin w'" "w = w' \<Longrightarrow> ignoreIO mu w = ignoreIO mu w'" "b = b' \<Longrightarrow> whenIO b mu w = whenIO b' mu w"
  by simp_all

lemma run_cong:
  "r = r' \<Longrightarrow> andRun r f = andRun r' f" "rc = rc' \<Longrightarrow> orRun rc h = orRun rc' h" "rb = rb' \<Longrightarrow> eitherRun rb hb fb = eitherRun rb' hb fb"
  "rl = rl' \<Longrightarrow> lastRun rl fin = lastRun rl' fin"
  by simp_all

lemmas eval_rules = io_eval run_eval
lemmas eval_congs = io_cong run_cong

section \<open>Frames\<close>

text \<open>A reflexive and transitive relation between the world before and after is kept by a
  computation when it is kept by the parts the computation is built from.\<close>

definition keeps :: "('w \<Rightarrow> 'w \<Rightarrow> bool) \<Rightarrow> ('w, 'a) io \<Rightarrow> bool" where
  "keeps R m \<longleftrightarrow> (\<forall>w. R w (snd (m w)))"

locale frame =
  fixes R :: "'w \<Rightarrow> 'w \<Rightarrow> bool"
  assumes refl: "R w w" and trans: "R u v \<Longrightarrow> R v w \<Longrightarrow> R u w"
begin

lemma keeps_pure: "keeps R (pureIO x)" and keeps_raise: "keeps R (raiseIO e)" and keeps_read: "keeps R (readIO g)"
  and keeps_lift: "keeps R (liftRes r)"
  by (auto simp: keeps_def io_defs refl split: sum.splits)

lemma keeps_bind: "keeps R m \<Longrightarrow> (\<And>x. keeps R (f x)) \<Longrightarrow> keeps R (bindIO m f)"
  unfolding keeps_def bindIO_def by (auto split: prod.splits sum.splits intro: trans) (metis snd_conv trans)

text \<open>The continuation only runs on values the computation returns, in the world it leaves.\<close>

lemma keeps_bind_at:
  assumes "keeps R m" "\<And>w x v. returns m w x v \<Longrightarrow> R w v \<Longrightarrow> R w (snd (f x v))" shows "keeps R (bindIO m f)"
  unfolding keeps_def
proof
  fix w
  show "R w (snd (bindIO m f w))"
  proof (cases "m w")
    case (Pair r v)
    moreover have "R w v" using assms(1) Pair by (metis keeps_def snd_conv)
    ultimately show ?thesis using assms(2)[of w _ v] by (cases r) (auto simp: bindIO_def returns_def)
  qed
qed

lemma keeps_bind_val:
  assumes "keeps R m" "\<And>w x v. returns m w x v \<Longrightarrow> keeps R (f x)" shows "keeps R (bindIO m f)"
  by (rule keeps_bind_at[OF assms(1)]) (use assms(2) trans in \<open>unfold keeps_def, blast\<close>)

lemma keeps_catch: "keeps R m \<Longrightarrow> (\<And>e. keeps R (h e)) \<Longrightarrow> keeps R (catchIO m h)"
  unfolding keeps_def catchIO_def by (auto split: prod.splits sum.splits) (metis snd_conv trans)+

lemma keeps_branch: "keeps R m \<Longrightarrow> (\<And>e. keeps R (h e)) \<Longrightarrow> (\<And>x. keeps R (f x)) \<Longrightarrow> keeps R (branchIO m h f)"
  unfolding keeps_def branchIO_def by (auto split: prod.splits sum.splits) (metis snd_conv trans)+

lemma keeps_ignore: "keeps R m \<Longrightarrow> keeps R (ignoreIO m)"
  unfolding ignoreIO_def by (intro keeps_catch keeps_pure)

lemma keeps_finally: "keeps R m \<Longrightarrow> keeps R f \<Longrightarrow> keeps R (finallyIO m f)"
  unfolding keeps_def finallyIO_def by (auto split: prod.splits sum.splits) (metis snd_conv trans)+

lemma keeps_when: "keeps R m \<Longrightarrow> keeps R (whenIO b m)"
  by (simp add: whenIO_def keeps_pure)

lemma keeps_if: "(b \<Longrightarrow> keeps R m) \<Longrightarrow> (\<not> b \<Longrightarrow> keeps R n) \<Longrightarrow> keeps R (if b then m else n)"
  by simp

lemmas keeps_rules = keeps_pure keeps_raise keeps_read keeps_lift keeps_bind keeps_catch keeps_branch keeps_ignore keeps_finally keeps_when keeps_if

end

section \<open>Contracts\<close>

text \<open>From a world with \<open>P\<close> a return leaves \<open>Q\<close> and an error leaves \<open>E\<close>.\<close>

definition contract :: "('w \<Rightarrow> bool) \<Rightarrow> ('w, 'a) io \<Rightarrow> ('a \<Rightarrow> 'w \<Rightarrow> bool) \<Rightarrow> ('w \<Rightarrow> bool) \<Rightarrow> bool" where
  "contract P m Q E \<longleftrightarrow> (\<forall>w. P w \<longrightarrow> (case m w of (Inr x, v) \<Rightarrow> Q x v | (Inl e, v) \<Rightarrow> E v))"

named_theorems contract_rules \<open>contracts of composed computations\<close>

lemma contract_iff: "contract P m Q E \<longleftrightarrow> (\<forall>w. P w \<longrightarrow> (\<forall>x v. returns m w x v \<longrightarrow> Q x v) \<and> (\<forall>e v. throws m w e v \<longrightarrow> E v))"
  unfolding contract_def returns_def throws_def by (fastforce split: prod.splits sum.splits)

lemma contractD: "contract P m Q E \<Longrightarrow> P w \<Longrightarrow> returns m w x v \<Longrightarrow> Q x v" "contract P m Q E \<Longrightarrow> P w \<Longrightarrow> throws m w e v \<Longrightarrow> E v"
  unfolding contract_def returns_def throws_def by force+

lemma contract_weaken:
  "contract P' m Q' E' \<Longrightarrow> (\<And>w. P w \<Longrightarrow> P' w) \<Longrightarrow> (\<And>x w. Q' x w \<Longrightarrow> Q x w) \<Longrightarrow> (\<And>w. E' w \<Longrightarrow> E w) \<Longrightarrow> contract P m Q E"
  unfolding contract_iff by blast

lemma contract_basic [contract_rules]:
  "(\<And>w. P w \<Longrightarrow> Q x w) \<Longrightarrow> contract P (pureIO x) Q E"
  "(\<And>w. P w \<Longrightarrow> E w) \<Longrightarrow> contract P (raiseIO e) Q E"
  "(\<And>w. P w \<Longrightarrow> Q' () (g w)) \<Longrightarrow> contract P (modifyIO g) Q' E"
  by (auto simp: contract_def io_defs)

lemma contract_bind: "contract P m R E \<Longrightarrow> (\<And>x. contract (R x) (f x) Q E) \<Longrightarrow> contract P (bindIO m f) Q E"
  unfolding contract_iff run_simps by blast

lemma contract_read [contract_rules]: "(\<And>x. contract (\<lambda>w. P w \<and> x = g w) (f x) Q E) \<Longrightarrow> contract P (bindIO (readIO g) f) Q E"
  unfolding contract_def bindIO_def readIO_def by fastforce

lemma contract_modify: "contract (\<lambda>w. \<exists>v. P v \<and> w = g v) (f ()) Q E \<Longrightarrow> contract P (bindIO (modifyIO g) f) Q E"
  unfolding contract_def bindIO_def modifyIO_def by fastforce

lemma contract_lift [contract_rules]:
  "(\<And>x. r = Inr x \<Longrightarrow> contract P (f x) Q E) \<Longrightarrow> (\<And>w. P w \<Longrightarrow> E w) \<Longrightarrow> contract P (bindIO (liftRes r) f) Q E"
  by (cases r) (auto simp: contract_def io_defs)

lemma contract_if [contract_rules]: "(b \<Longrightarrow> contract P m Q E) \<Longrightarrow> (\<not> b \<Longrightarrow> contract P n Q E) \<Longrightarrow> contract P (if b then m else n) Q E"
  by simp

lemma contract_when [contract_rules]: "(b \<Longrightarrow> contract P m Q E) \<Longrightarrow> (\<And>w. \<not> b \<Longrightarrow> P w \<Longrightarrow> Q () w) \<Longrightarrow> contract P (whenIO b m) Q E"
  by (auto simp: contract_def whenIO_def io_defs)

lemma contract_catch: "contract P m Q E' \<Longrightarrow> (\<And>e. contract E' (h e) Q E) \<Longrightarrow> contract P (catchIO m h) Q E"
  unfolding contract_iff run_simps by blast

lemma contract_finally:
  "contract P m Q' E' \<Longrightarrow> (\<And>x. contract (Q' x) fin (\<lambda>_. Q x) E) \<Longrightarrow> contract E' fin (\<lambda>_. E) E \<Longrightarrow> contract P (finallyIO m fin) Q E"
  unfolding contract_iff run_simps by blast

lemma contract_split: "(\<And>w. P w \<Longrightarrow> contract (\<lambda>v. v = w) m Q E) \<Longrightarrow> contract P m Q E"
  by (auto simp: contract_def)

text \<open>Preserving a property in both outcomes is a frame.\<close>

lemma keeps_contract: "keeps (\<lambda>w v. J w \<longrightarrow> J v) m \<longleftrightarrow> contract J m (\<lambda>_. J) J"
  unfolding keeps_def contract_def by (simp split: prod.split sum.split) (metis (no_types, opaque_lifting) old.sum.exhaust prod.collapse snd_conv)

end
