(* ===== verification/AckWaiter.thy ===== *)
theory AckWaiter
  imports Control Effects
begin

text \<open>
  \<open>ControlAckWaiter\<close> of \<open>src/src/shared/control-waiter.ts\<close>: the sender waits for acknowledgements of
  the receiver. A promise is a number; \<open>ackOutcome\<close> says how it was settled. The timer of a pending
  wait fires as a call of \<open>ackTimeout\<close>.
\<close>

section \<open>State\<close>

datatype AckKind = AckReady | AckFileOk | AckAllDoneOk

text \<open>The key \<open>kind:id\<close>, or \<open>kind\<close> alone for \<open>all-done-ok\<close>.\<close>

type_synonym ackKey = "AckKind \<times> nat option"

type_synonym promise = nat

record AckWaiter =
  ackPending :: "(ackKey \<times> promise) list"
  ackFailed :: "jsError option"
  ackOutcome :: "promise \<Rightarrow> (jsError + unit) option"
  ackNext :: promise

definition newAckWaiter :: AckWaiter where
  "newAckWaiter = \<lparr>ackPending = [], ackFailed = None, ackOutcome = (\<lambda>_. None), ackNext = 0\<rparr>"

definition controlTimeoutInput :: "jsval \<Rightarrow> nat res" where
  "controlTimeoutInput timeoutMs =
     (case timeoutMs of
        Number (NInt i) \<Rightarrow> if i < 1 \<or> i > int TRANSFER_CONTROL_TIMEOUT_MS then throw ''Control acknowledgement timeout is invalid.'' else ok (nat i)
      | _ \<Rightarrow> throw ''Control acknowledgement timeout is invalid.'')"

definition ackKindOf :: "jsval \<Rightarrow> AckKind option" where
  "ackKindOf kind =
     (if kind = Str (js ''ready'') then Some AckReady
      else if kind = Str (js ''file-ok'') then Some AckFileOk
      else if kind = Str (js ''all-done-ok'') then Some AckAllDoneOk
      else None)"

definition controlAckInput :: "jsval \<Rightarrow> jsval \<Rightarrow> ackKey res" where
  "controlAckInput kind fid =
     (case ackKindOf kind of
        None \<Rightarrow> throw ''Control acknowledgement type is invalid.''
      | Some AckAllDoneOk \<Rightarrow> if fid \<noteq> Undefined then throw ''Control acknowledgement file id is invalid.'' else ok (AckAllDoneOk, None)
      | Some k \<Rightarrow> if \<not> isUint8 fid then throw ''Control acknowledgement file id is invalid.'' else ok (k, Some (natOf fid)))"

fun ackName :: "AckKind \<Rightarrow> string" where
  "ackName AckReady = ''ready''"
| "ackName AckFileOk = ''file-ok''"
| "ackName AckAllDoneOk = ''all-done-ok''"

section \<open>Operations\<close>

definition settleAck :: "promise \<Rightarrow> jsError + unit \<Rightarrow> AckWaiter \<Rightarrow> AckWaiter" where
  "settleAck p r a = a\<lparr>ackOutcome := (\<lambda>q. if q = p \<and> ackOutcome a q = None then Some r else ackOutcome a q)\<rparr>"

definition removeAck :: "ackKey \<Rightarrow> AckWaiter \<Rightarrow> AckWaiter" where
  "removeAck key a = a\<lparr>ackPending := filter (\<lambda>(k, _). k \<noteq> key) (ackPending a)\<rparr>"

text \<open>The operations on a checked key.\<close>

definition markKey :: "ackKey \<Rightarrow> AckWaiter \<Rightarrow> bool \<times> AckWaiter" where
  "markKey key a =
     (case map_of (ackPending a) key of
        None \<Rightarrow> (False, a)
      | Some p \<Rightarrow> (True, settleAck p (Inr ()) (removeAck key a)))"

definition waitKey :: "ackKey \<Rightarrow> AckWaiter \<Rightarrow> promise \<times> AckWaiter" where
  "waitKey key a =
     (case ackFailed a of
        Some e \<Rightarrow> (ackNext a, settleAck (ackNext a) (Inl e) (a\<lparr>ackNext := Suc (ackNext a)\<rparr>))
      | None \<Rightarrow>
          (case map_of (ackPending a) key of
             Some p \<Rightarrow> (p, a)
           | None \<Rightarrow> (ackNext a, a\<lparr>ackPending := ackPending a @ [(key, ackNext a)], ackNext := Suc (ackNext a)\<rparr>)))"

definition mark :: "jsval \<Rightarrow> jsval \<Rightarrow> AckWaiter \<Rightarrow> (bool \<times> AckWaiter) res" where
  "mark kind fid a = andThen (controlAckInput kind fid) (\<lambda>key. ok (markKey key a))"

definition wait :: "jsval \<Rightarrow> jsval \<Rightarrow> AckWaiter \<Rightarrow> (promise \<times> AckWaiter) res" where
  "wait kind fid a = andThen (controlAckInput kind fid) (\<lambda>key. ok (waitKey key a))"

definition timeoutText :: "ackKey \<Rightarrow> string" where
  "timeoutText key = (case key of
     (k, None) \<Rightarrow> ''Timed out waiting for '' @ ackName k @ ''.''
   | (k, Some fid) \<Rightarrow> ''Timed out waiting for '' @ ackName k @ '' for file '' @ map char_of (dec fid) @ ''.'')"

definition ackTimeout :: "ackKey \<Rightarrow> AckWaiter \<Rightarrow> AckWaiter" where
  "ackTimeout key a =
     (case map_of (ackPending a) key of
        None \<Rightarrow> a
      | Some p \<Rightarrow> settleAck p (Inl (JsError (timeoutText key))) (removeAck key a))"

definition failAcks :: "jsError \<Rightarrow> AckWaiter \<Rightarrow> AckWaiter" where
  "failAcks e a =
     (case ackFailed a of
        Some _ \<Rightarrow> a
      | None \<Rightarrow> fold (\<lambda>(key, p) a. removeAck key (settleAck p (Inl e) a)) (ackPending a) (a\<lparr>ackFailed := Some e\<rparr>))"

section \<open>Invariant\<close>

text \<open>The pending promises are exactly the unsettled ones; after a failure nothing is pending.\<close>

definition ackInv :: "AckWaiter \<Rightarrow> bool" where
  "ackInv a \<longleftrightarrow> distinct (map fst (ackPending a)) \<and> distinct (map snd (ackPending a))
     \<and> (\<forall>p < ackNext a. ackOutcome a p = None \<longleftrightarrow> p \<in> snd ` set (ackPending a))
     \<and> (\<forall>p \<in> snd ` set (ackPending a). p < ackNext a) \<and> (\<forall>p \<ge> ackNext a. ackOutcome a p = None)
     \<and> (ackFailed a \<noteq> None \<longrightarrow> ackPending a = [])"

text \<open>A settled promise keeps its outcome.\<close>

definition ackLater :: "AckWaiter \<Rightarrow> AckWaiter \<Rightarrow> bool" where
  "ackLater a b \<longleftrightarrow> (\<forall>p r. ackOutcome a p = Some r \<longrightarrow> ackOutcome b p = Some r) \<and> ackNext a \<le> ackNext b"

lemma ackLater_refl [simp]: "ackLater a a" and ackLater_trans: "ackLater a b \<Longrightarrow> ackLater b c \<Longrightarrow> ackLater a c"
  by (auto simp: ackLater_def)

lemma settle_later: "ackLater a (settleAck p r a)" and remove_later: "ackLater a (removeAck key a)"
  by (auto simp: ackLater_def settleAck_def removeAck_def)

lemma ackInv_new: "ackInv newAckWaiter"
  by (simp add: ackInv_def newAckWaiter_def)

lemma settle_removed:
  assumes "ackInv a" "map_of (ackPending a) key = Some p"
  shows "ackInv (settleAck p r (removeAck key a))" "ackOutcome (settleAck p r (removeAck key a)) p = Some r"
proof -
  have m: "(key, p) \<in> set (ackPending a)" using assms(2) by (rule map_of_SomeD)
  have only: "k = key \<longleftrightarrow> q = p" if "(k, q) \<in> set (ackPending a)" for k q
    using assms(1) m that unfolding ackInv_def by (metis (no_types, lifting) distinct_map fst_conv inj_onD prod.inject snd_conv)
  have u: "ackOutcome a p = None" "p < ackNext a" using assms(1) m unfolding ackInv_def by (force, force)
  let ?rest = "filter (\<lambda>(k, _). k \<noteq> key) (ackPending a)"
  have rest: "snd ` set ?rest = snd ` set (ackPending a) - {p}" using only by force
  show "ackOutcome (settleAck p r (removeAck key a)) p = Some r" using u by (simp add: settleAck_def removeAck_def)
  show "ackInv (settleAck p r (removeAck key a))"
    using assms(1) rest u(2) unfolding ackInv_def
    by (auto simp: settleAck_def removeAck_def distinct_map inj_on_def)
qed

lemma markKey_inv: "ackInv a \<Longrightarrow> ackInv (snd (markKey key a)) \<and> ackLater a (snd (markKey key a))"
  unfolding markKey_def using settle_removed(1) ackLater_trans[OF remove_later settle_later] by (auto split: option.splits)

lemma ackTimeout_inv: "ackInv a \<Longrightarrow> ackInv (ackTimeout key a) \<and> ackLater a (ackTimeout key a)"
  unfolding ackTimeout_def using settle_removed(1) ackLater_trans[OF remove_later settle_later] by (auto split: option.splits)

lemma waitKey_fresh: "ackInv a \<Longrightarrow> ackInv (a\<lparr>ackPending := ackPending a @ [(key, ackNext a)], ackNext := Suc (ackNext a)\<rparr>)"
  if "map_of (ackPending a) key = None" "ackFailed a = None"
proof -
  assume i: "ackInv a"
  have k: "key \<notin> fst ` set (ackPending a)" using that(1) by (simp add: map_of_eq_None_iff)
  have n: "ackNext a \<notin> snd ` set (ackPending a)" using i unfolding ackInv_def by blast
  show ?thesis using i k n that(2) unfolding ackInv_def by (auto simp: less_Suc_eq)
qed

lemma waitKey_inv: "ackInv a \<Longrightarrow> ackInv (snd (waitKey key a)) \<and> ackLater a (snd (waitKey key a))"
proof (cases "ackFailed a")
  case (Some e)
  assume i: "ackInv a"
  from i Some have p: "ackPending a = []" by (simp add: ackInv_def)
  from i Some p have "ackInv (snd (waitKey key a))" by (auto simp: waitKey_def settleAck_def ackInv_def less_Suc_eq)
  moreover from i Some have "ackLater a (snd (waitKey key a))" by (auto simp: waitKey_def settleAck_def ackLater_def)
  ultimately show ?thesis ..
next
  case None
  assume "ackInv a"
  with None show ?thesis using waitKey_fresh[of a key]
    by (cases "map_of (ackPending a) key") (auto simp: waitKey_def ackLater_def)
qed

text \<open>A promise that \<open>wait\<close> hands out is pending under its key, or the waiter has failed.\<close>

lemma waitKey_promise:
  assumes "ackInv a" "waitKey key a = (p, b)"
  shows "map_of (ackPending b) key = Some p \<or> (\<exists>e. ackFailed b = Some e \<and> ackOutcome b p = Some (Inl e))"
  using assms by (auto simp: waitKey_def settleAck_def ackInv_def map_add_def split: option.splits)

lemma fail_fold:
  fixes ps a e
  defines "b \<equiv> fold (\<lambda>(key, p) a. removeAck key (settleAck p (Inl e) a)) ps a"
  shows "ackPending b = filter (\<lambda>(k, _). k \<notin> fst ` set ps) (ackPending a) \<and> ackNext b = ackNext a \<and> ackFailed b = ackFailed a
    \<and> ackOutcome b = (\<lambda>q. if q \<in> snd ` set ps \<and> ackOutcome a q = None then Some (Inl e) else ackOutcome a q)"
  unfolding b_def
proof (induction ps arbitrary: a)
  case (Cons x ps)
  obtain key p where x: "x = (key, p)" by (cases x)
  let ?a = "removeAck key (settleAck p (Inl e) a)"
  have "ackPending ?a = filter (\<lambda>(k, _). k \<noteq> key) (ackPending a)" "ackNext ?a = ackNext a" "ackFailed ?a = ackFailed a"
    "ackOutcome ?a = (\<lambda>q. if q = p \<and> ackOutcome a q = None then Some (Inl e) else ackOutcome a q)"
    by (simp_all add: removeAck_def settleAck_def)
  with Cons[of ?a] show ?case by (auto simp: x case_prod_unfold)
qed simp

lemma failAcks_inv: "ackInv a \<Longrightarrow> ackInv (failAcks e a) \<and> ackLater a (failAcks e a)"
proof -
  assume i: "ackInv a"
  have none: "filter (\<lambda>(k, _). k \<notin> fst ` set ps) ps = []" for ps :: "(ackKey \<times> promise) list" by (force simp: filter_empty_conv)
  show ?thesis
  proof (cases "ackFailed a")
    case None
    have eqs: "ackPending (failAcks e a) = []" "ackNext (failAcks e a) = ackNext a" "ackFailed (failAcks e a) = Some e"
      "ackOutcome (failAcks e a) = (\<lambda>q. if q \<in> snd ` set (ackPending a) \<and> ackOutcome a q = None then Some (Inl e) else ackOutcome a q)"
      using None none[of "ackPending a"] by (simp_all add: failAcks_def fail_fold cong: if_cong)
    show ?thesis using i unfolding ackInv_def ackLater_def eqs by auto
  qed (use i in \<open>simp add: failAcks_def\<close>)
qed

section \<open>The waiter in use\<close>

datatype AckStep = Wait ackKey | Mark ackKey | TimerFires ackKey | Fail jsError

fun ackStep :: "AckStep \<Rightarrow> AckWaiter \<Rightarrow> AckWaiter" where
  "ackStep (Wait key) a = snd (waitKey key a)"
| "ackStep (Mark key) a = snd (markKey key a)"
| "ackStep (TimerFires key) a = ackTimeout key a"
| "ackStep (Fail e) a = failAcks e a"

lemma ackStep_inv: "ackInv a \<Longrightarrow> ackInv (ackStep st a) \<and> ackLater a (ackStep st a)"
  by (cases st) (simp_all add: waitKey_inv markKey_inv ackTimeout_inv failAcks_inv)

lemma ackSteps_inv: "ackInv a \<Longrightarrow> ackInv (fold ackStep steps a) \<and> ackLater a (fold ackStep steps a)"
proof (induction steps arbitrary: a)
  case (Cons st steps)
  then show ?case using ackStep_inv[of a st] ackLater_trans by (metis fold_simps(2))
qed simp

text \<open>C25: In any use of the waiter, a promise that was settled keeps its outcome for ever, the promises
  still open are exactly the pending ones, one for each key that is waited for, and once the waiter
  has failed no promise it handed out stays open.
\<close>

theorem acks_settle_once:
  fixes before after :: "AckStep list"
  defines "a \<equiv> fold ackStep before newAckWaiter" and "b \<equiv> fold ackStep (before @ after) newAckWaiter"
  shows "(\<forall>p r. ackOutcome a p = Some r \<longrightarrow> ackOutcome b p = Some r)
    \<and> (\<forall>p < ackNext a. ackOutcome a p = None \<longleftrightarrow> (\<exists>key. (key, p) \<in> set (ackPending a)))
    \<and> distinct (map fst (ackPending a)) \<and> (ackFailed a \<noteq> None \<longrightarrow> (\<forall>p < ackNext b. ackOutcome b p \<noteq> None))"
proof -
  have a: "ackInv a" and b: "ackInv b" and ab: "ackLater a b"
    using ackSteps_inv[OF ackInv_new] ackSteps_inv[of a after] unfolding a_def b_def by simp_all
  have failed: "ackFailed (ackStep st w) \<noteq> None" if "ackFailed w \<noteq> None" for st w
    using that by (cases st) (auto simp: waitKey_def markKey_def ackTimeout_def failAcks_def settleAck_def removeAck_def split: option.splits)
  have "ackFailed (fold ackStep sts w) \<noteq> None" if "ackFailed w \<noteq> None" for sts w
    using that by (induction sts arbitrary: w) (use failed in \<open>simp_all\<close>)
  then have "ackFailed b \<noteq> None" if "ackFailed a \<noteq> None" using that unfolding a_def b_def by simp
  with b have closed: "\<forall>p < ackNext b. ackOutcome b p \<noteq> None" if "ackFailed a \<noteq> None" using that unfolding ackInv_def by auto
  have "(\<exists>key. (key, p) \<in> set (ackPending a)) \<longleftrightarrow> p \<in> snd ` set (ackPending a)" for p by force
  with a ab closed show ?thesis unfolding ackInv_def ackLater_def by simp
qed

text \<open>A wait that is answered, after which the waiter fails.\<close>

theorem acks_settle_once_witness:
  "let a = fold ackStep [Wait (AckReady, Some 0), Mark (AckReady, Some 0), Wait (AckFileOk, Some 0), Fail (JsError ''closed'')] newAckWaiter;
       b = fold ackStep ([Wait (AckReady, Some 0), Mark (AckReady, Some 0), Wait (AckFileOk, Some 0), Fail (JsError ''closed'')] @ [Wait (AckAllDoneOk, None)]) newAckWaiter
   in ackOutcome b 0 = Some (Inr ()) \<and> ackOutcome b 2 \<noteq> None \<and> ackPending a = []"
proof -
  let ?before = "[Wait (AckReady, Some 0), Mark (AckReady, Some 0), Wait (AckFileOk, Some 0), Fail (JsError ''closed'')]"
  note s = acks_settle_once[of ?before "[Wait (AckAllDoneOk, None)]"]
  have a: "ackOutcome (fold ackStep ?before newAckWaiter) 0 = Some (Inr ())" "ackPending (fold ackStep ?before newAckWaiter) = []"
    "ackFailed (fold ackStep ?before newAckWaiter) \<noteq> None" "2 < ackNext (fold ackStep (?before @ [Wait (AckAllDoneOk, None)]) newAckWaiter)"
    by (simp_all add: newAckWaiter_def waitKey_def markKey_def failAcks_def settleAck_def removeAck_def)
  with s show ?thesis unfolding Let_def by blast
qed

end
