(* ===== verification/FileSystem.thy ===== *)
theory FileSystem
  imports Effects JsRuntime
begin

text \<open>
  The part of Node's \<open>fs\<close>, \<open>path\<close> and \<open>process\<close> that the command line client uses, on a store of
  names and inodes. A path is looked up as a whole; the directories above it are not walked. Every
  call consumes one tick of the schedule: what other processes do to the store before the call,
  whether the call fails with an error code, and how many bytes a read or write moves at most.
  With no tick left nothing interferes and nothing fails.
\<close>

unbundle bit_operations_syntax

section \<open>Store\<close>

type_synonym fileBytes = "8 word list"

record FileIdentity =
  dev :: nat
  ino :: nat

datatype FileKind = RegularFile | Directory | SymbolicLink jsstring | OtherKind

text \<open>\<open>inodeStamp\<close> stands for \<open>mtimeNs\<close> and \<open>ctimeNs\<close>: it changes with every write.\<close>

record Inode =
  inodeKind :: FileKind
  inodeContent :: fileBytes
  inodeMode :: nat
  inodeUid :: nat
  inodeStamp :: nat

record Store =
  names :: "jsstring \<Rightarrow> FileIdentity option"
  inodes :: "FileIdentity \<Rightarrow> Inode option"
  nextInode :: nat
  deviceId :: nat
  links :: "FileIdentity \<Rightarrow> nat"

record Tick =
  tickInterfere :: "Store \<Rightarrow> Store"
  tickFault :: "string option"
  tickLimit :: "nat option"

record Fs =
  store :: Store
  ticks :: "Tick list"
  randomHex :: "jsstring list"
  randomSecrets :: "fileBytes list"
  processPid :: nat
  processUid :: "nat option"
  processCwd :: jsstring
  win32 :: bool

type_synonym 'a fsio = "(Fs, 'a) io"

section \<open>Calls\<close>

definition calmTick :: Tick where
  "calmTick = \<lparr>tickInterfere = id, tickFault = None, tickLimit = None\<rparr>"

definition fsCall :: "(nat option \<Rightarrow> Store \<Rightarrow> (jsError + 'a) \<times> Store) \<Rightarrow> 'a fsio" where
  "fsCall f = (\<lambda>w.
     let t = (case ticks w of [] \<Rightarrow> calmTick | t # _ \<Rightarrow> t);
         w = w\<lparr>ticks := tl (ticks w), store := tickInterfere t (store w)\<rparr> in
     case tickFault t of
       Some code \<Rightarrow> (Inl (NodeError code), w)
     | None \<Rightarrow> (case f (tickLimit t) (store w) of (r, s) \<Rightarrow> (r, w\<lparr>store := s\<rparr>)))"

record Stats =
  statIdentity :: FileIdentity
  statKind :: FileKind
  statSize :: nat
  statMode :: nat
  statUid :: nat
  statNlink :: nat
  statStamp :: nat

definition statOf :: "Store \<Rightarrow> FileIdentity \<Rightarrow> Inode \<Rightarrow> Stats" where
  "statOf s i n = \<lparr>statIdentity = i, statKind = inodeKind n, statSize = length (inodeContent n), statMode = inodeMode n,
     statUid = inodeUid n, statNlink = links s i, statStamp = inodeStamp n\<rparr>"

definition isFile :: "Stats \<Rightarrow> bool" where "isFile st \<longleftrightarrow> statKind st = RegularFile"

definition isDirectory :: "Stats \<Rightarrow> bool" where "isDirectory st \<longleftrightarrow> statKind st = Directory"

fun isSymbolicLink :: "Stats \<Rightarrow> bool" where
  "isSymbolicLink st = (case statKind st of SymbolicLink _ \<Rightarrow> True | _ \<Rightarrow> False)"

definition enoent :: jsError where "enoent = NodeError ''ENOENT''"

definition lookupInode :: "Store \<Rightarrow> jsstring \<Rightarrow> (FileIdentity \<times> Inode) option" where
  "lookupInode s p = Option.bind (names s p) (\<lambda>i. map_option (Pair i) (inodes s i))"

fun followLinks :: "nat \<Rightarrow> Store \<Rightarrow> jsstring \<Rightarrow> jsError + FileIdentity \<times> Inode" where
  "followLinks 0 s p = Inl (NodeError ''ELOOP'')"
| "followLinks (Suc n) s p =
     (case lookupInode s p of
        None \<Rightarrow> Inl enoent
      | Some (i, node) \<Rightarrow> (case inodeKind node of SymbolicLink target \<Rightarrow> followLinks n s target | _ \<Rightarrow> Inr (i, node)))"

definition lstat :: "jsstring \<Rightarrow> Stats fsio" where
  "lstat p = fsCall (\<lambda>_ s. (case lookupInode s p of None \<Rightarrow> (Inl enoent, s) | Some (i, n) \<Rightarrow> (Inr (statOf s i n), s)))"

definition stat :: "jsstring \<Rightarrow> Stats fsio" where
  "stat p = fsCall (\<lambda>_ s. (case followLinks 40 s p of Inl e \<Rightarrow> (Inl e, s) | Inr (i, n) \<Rightarrow> (Inr (statOf s i n), s)))"

definition bindName :: "jsstring \<Rightarrow> FileIdentity \<Rightarrow> Store \<Rightarrow> Store" where
  "bindName p i s = s\<lparr>names := (names s)(p \<mapsto> i), links := (links s)(i := Suc (links s i))\<rparr>"

definition unbindName :: "jsstring \<Rightarrow> Store \<Rightarrow> Store" where
  "unbindName p s = (case names s p of
     None \<Rightarrow> s | Some i \<Rightarrow> s\<lparr>names := (names s)(p := None), links := (links s)(i := links s i - 1)\<rparr>)"

definition link :: "jsstring \<Rightarrow> jsstring \<Rightarrow> unit fsio" where
  "link a b = fsCall (\<lambda>_ s. (case names s a of
     None \<Rightarrow> (Inl enoent, s)
   | Some i \<Rightarrow> if names s b \<noteq> None then (Inl (NodeError ''EEXIST''), s) else (Inr (), bindName b i s)))"

text \<open>\<open>rename\<close> replaces a file of the new name; two names of one inode are left as they are.\<close>

definition rename :: "jsstring \<Rightarrow> jsstring \<Rightarrow> unit fsio" where
  "rename a b = fsCall (\<lambda>_ s. (case names s a of
     None \<Rightarrow> (Inl enoent, s)
   | Some i \<Rightarrow> if names s b = Some i then (Inr (), s) else (Inr (), bindName b i (unbindName a (unbindName b s)))))"

text \<open>\<open>rm(path, { force: true })\<close>: a missing path is not an error.\<close>

definition rm :: "jsstring \<Rightarrow> unit fsio" where
  "rm p = fsCall (\<lambda>_ s. (Inr (), unbindName p s))"

text \<open>A handle is the inode it was opened on. A stream writes at its own position.\<close>

type_synonym FileHandle = FileIdentity

datatype OpenMode = ReadOnly | ReadWrite | CreateExclusive

definition newInode :: "nat \<Rightarrow> nat \<Rightarrow> Inode" where
  "newInode mode uid = \<lparr>inodeKind = RegularFile, inodeContent = [], inodeMode = mode, inodeUid = uid, inodeStamp = 0\<rparr>"

definition createInode :: "jsstring \<Rightarrow> nat \<Rightarrow> nat \<Rightarrow> Store \<Rightarrow> FileIdentity \<times> Store" where
  "createInode p mode uid s =
     (let i = \<lparr>dev = deviceId s, ino = nextInode s\<rparr> in
      (i, bindName p i (s\<lparr>inodes := (inodes s)(i \<mapsto> newInode mode uid), nextInode := Suc (nextInode s), links := (links s)(i := 0)\<rparr>)))"

text \<open>\<open>open\<close> with \<open>O_NOFOLLOW\<close>.\<close>

definition openFile :: "jsstring \<Rightarrow> OpenMode \<Rightarrow> nat \<Rightarrow> nat \<Rightarrow> FileHandle fsio" where
  "openFile p how mode uid = fsCall (\<lambda>_ s.
     (case how of
        CreateExclusive \<Rightarrow>
          if names s p \<noteq> None then (Inl (NodeError ''EEXIST''), s)
          else (case createInode p mode uid s of (i, s') \<Rightarrow> (Inr i, s'))
      | _ \<Rightarrow>
          (case lookupInode s p of
             None \<Rightarrow> (Inl enoent, s)
           | Some (i, n) \<Rightarrow>
               (case inodeKind n of
                  SymbolicLink _ \<Rightarrow> (Inl (NodeError ''ELOOP''), s)
                | Directory \<Rightarrow> if how = ReadWrite then (Inl (NodeError ''EISDIR''), s) else (Inr i, s)
                | _ \<Rightarrow> (Inr i, s)))))"

definition handleStat :: "FileHandle \<Rightarrow> Stats fsio" where
  "handleStat h = fsCall (\<lambda>_ s. (case inodes s h of None \<Rightarrow> (Inl (NodeError ''EBADF''), s) | Some n \<Rightarrow> (Inr (statOf s h n), s)))"

definition limited :: "nat option \<Rightarrow> nat \<Rightarrow> nat" where
  "limited l n = (case l of None \<Rightarrow> n | Some k \<Rightarrow> min k n)"

definition handleRead :: "FileHandle \<Rightarrow> nat \<Rightarrow> nat \<Rightarrow> fileBytes fsio" where
  "handleRead h len pos = fsCall (\<lambda>l s. (case inodes s h of
     None \<Rightarrow> (Inl (NodeError ''EBADF''), s)
   | Some n \<Rightarrow> (Inr (take (limited l len) (drop pos (inodeContent n))), s)))"

definition writeAt :: "nat \<Rightarrow> fileBytes \<Rightarrow> fileBytes \<Rightarrow> fileBytes" where
  "writeAt pos bs old = take pos old @ replicate (pos - length old) 0 @ bs @ drop (pos + length bs) old"

definition setContent :: "FileHandle \<Rightarrow> (fileBytes \<Rightarrow> fileBytes) \<Rightarrow> Store \<Rightarrow> Store" where
  "setContent h f s = (case inodes s h of
     None \<Rightarrow> s | Some n \<Rightarrow> s\<lparr>inodes := (inodes s)(h \<mapsto> n\<lparr>inodeContent := f (inodeContent n), inodeStamp := Suc (inodeStamp n)\<rparr>)\<rparr>)"

text \<open>The number of bytes written.\<close>

definition handleWrite :: "FileHandle \<Rightarrow> nat \<Rightarrow> fileBytes \<Rightarrow> nat fsio" where
  "handleWrite h pos bs = fsCall (\<lambda>l s.
     let k = limited l (length bs) in (Inr k, setContent h (writeAt pos (take k bs)) s))"

text \<open>\<open>writeFile\<close> goes on until everything is written.\<close>

definition handleWriteFile :: "FileHandle \<Rightarrow> fileBytes \<Rightarrow> unit fsio" where
  "handleWriteFile h bs = fsCall (\<lambda>_ s. (Inr (), setContent h (writeAt 0 bs) s))"

text \<open>A chunk given to a write stream: the stream writes all of it at its position.\<close>

definition streamWrite :: "FileHandle \<Rightarrow> nat \<Rightarrow> fileBytes \<Rightarrow> unit fsio" where
  "streamWrite h pos bs = fsCall (\<lambda>_ s. (Inr (), setContent h (writeAt pos bs) s))"

definition handleTruncate :: "FileHandle \<Rightarrow> nat \<Rightarrow> unit fsio" where
  "handleTruncate h n = fsCall (\<lambda>_ s. (Inr (), setContent h (\<lambda>c. take n c @ replicate (n - length c) 0) s))"

definition handleClose :: "FileHandle \<Rightarrow> unit fsio" where
  "handleClose h = fsCall (\<lambda>_ s. (Inr (), s))"

definition drawHex :: "jsstring fsio" where
  "drawHex = (\<lambda>w. (Inr (case randomHex w of [] \<Rightarrow> [] | t # _ \<Rightarrow> t), w\<lparr>randomHex := tl (randomHex w)\<rparr>))"

definition drawSecret :: "fileBytes fsio" where
  "drawSecret = (\<lambda>w. (Inr (case randomSecrets w of [] \<Rightarrow> [] | t # _ \<Rightarrow> t), w\<lparr>randomSecrets := tl (randomSecrets w)\<rparr>))"

definition openRead :: "jsstring \<Rightarrow> FileHandle fsio" where
  "openRead p = openFile p ReadOnly 0 0"

definition openReadWrite :: "jsstring \<Rightarrow> FileHandle fsio" where
  "openReadWrite p = openFile p ReadWrite 0 0"

text \<open>A new file belongs to the user of the process.\<close>

definition openExclusive :: "jsstring \<Rightarrow> nat \<Rightarrow> FileHandle fsio" where
  "openExclusive p mode = (\<lambda>w. openFile p CreateExclusive mode (case processUid w of None \<Rightarrow> 0 | Some u \<Rightarrow> u) w)"

text \<open>A read stream: reads of at most \<open>highWaterMark\<close> bytes from \<open>pos\<close> on, until one returns
  nothing. Each of its consumers stops with an error once more than \<open>limit\<close> bytes came. \<open>upTo\<close> says
  whether the stream was opened with an \<open>end\<close>.\<close>

function readStream :: "FileHandle \<Rightarrow> nat \<Rightarrow> bool \<Rightarrow> nat \<Rightarrow> string \<Rightarrow> nat \<Rightarrow> (fileBytes list) fsio" where
  "readStream h highWaterMark upTo limit msg pos =
     bindIO (handleRead h (if upTo then min highWaterMark (limit - pos) else highWaterMark) pos) (\<lambda>chunk.
       if chunk = [] then pureIO []
       else if pos + length chunk > limit then failIO msg
       else bindIO (readStream h highWaterMark upTo limit msg (pos + length chunk)) (\<lambda>rest. pureIO (chunk # rest)))"
  by pat_completeness auto
termination
proof (relation "measure (\<lambda>(h, hw, u, limit, msg, pos). limit - pos)")
  show "((h, hw, u, limit, msg, pos + length chunk), (h, hw, u, limit, msg, pos)) \<in> measure (\<lambda>(h, hw, u, limit, msg, pos). limit - pos)"
    if "chunk \<noteq> []" "\<not> pos + length chunk > limit" for h hw u limit msg pos and chunk :: fileBytes
    using that by (cases chunk) auto
qed simp

declare readStream.simps [simp del]

section \<open>Paths\<close>

fun normalSegments :: "jsstring list \<Rightarrow> jsstring list \<Rightarrow> jsstring list" where
  "normalSegments [] out = rev out"
| "normalSegments (x # xs) out =
     (if x = [] \<or> x = js ''.'' then normalSegments xs out
      else if x = js ''..'' then normalSegments xs (tl out)
      else normalSegments xs (x # out))"

definition absolutePath :: "jsstring list \<Rightarrow> jsstring" where
  "absolutePath segments = (if segments = [] then [47] else concat (map (\<lambda>x. 47 # x) segments))"

definition pathResolve :: "jsstring \<Rightarrow> jsstring \<Rightarrow> jsstring" where
  "pathResolve cwd p = absolutePath (normalSegments ((if startsWith p [47] then [] else splitAt 47 cwd) @ splitAt 47 p) [])"

text \<open>\<open>path.join\<close> with an absolute first argument.\<close>

definition pathJoin :: "jsstring \<Rightarrow> jsstring \<Rightarrow> jsstring" where
  "pathJoin dir name = absolutePath (normalSegments (splitAt 47 dir @ splitAt 47 name) [])"

text \<open>\<open>path.dirname\<close> and \<open>path.basename\<close> of an absolute path without a trailing separator.\<close>

definition pathDirname :: "jsstring \<Rightarrow> jsstring" where
  "pathDirname p = (case lastIndexOf 47 p of None \<Rightarrow> js ''.'' | Some i \<Rightarrow> if i = 0 then [47] else take i p)"

definition pathBasename :: "jsstring \<Rightarrow> jsstring" where
  "pathBasename p = (case lastIndexOf 47 p of None \<Rightarrow> p | Some i \<Rightarrow> drop (Suc i) p)"

section \<open>Runs of calls without interference\<close>

definition calm :: "Fs \<Rightarrow> bool" where
  "calm w \<longleftrightarrow> list_all (\<lambda>t. tickInterfere t = id) (ticks w)"

text \<open>Everything but the store and the schedule.\<close>

definition sameProcess :: "Fs \<Rightarrow> Fs \<Rightarrow> bool" where
  "sameProcess w w' \<longleftrightarrow> processPid w' = processPid w \<and> processUid w' = processUid w \<and> processCwd w' = processCwd w \<and> win32 w' = win32 w"

lemma calm_tail: "calm w \<Longrightarrow> calm (w\<lparr>ticks := tl (ticks w), store := s\<rparr>)"
  by (cases "ticks w") (auto simp: calm_def)

lemma fsCall_returns:
  assumes "returns (fsCall f) w x w'" "calm w"
  shows "\<exists>l. f l (store w) = (Inr x, store w')" "calm w'" "sameProcess w w'" "randomHex w' = randomHex w"
proof -
  define t where "t = (case ticks w of [] \<Rightarrow> calmTick | t # _ \<Rightarrow> t)"
  have "tickInterfere t = id" using assms(2) by (cases "ticks w") (auto simp: t_def calm_def calmTick_def)
  then have "f (tickLimit t) (store w) = (Inr x, store w') \<and> w' = w\<lparr>ticks := tl (ticks w), store := store w'\<rparr>"
    using assms(1) unfolding returns_def fsCall_def t_def[symmetric]
    by (auto simp: Let_def split: option.splits prod.splits)
  then show "\<exists>l. f l (store w) = (Inr x, store w')" "calm w'" "sameProcess w w'" "randomHex w' = randomHex w"
    using calm_tail[OF assms(2), of "store w'"] by (blast, metis, simp_all add: sameProcess_def) (metis Fs.select_convs Fs.surjective Fs.update_convs)+
qed

lemma fsCall_throws:
  assumes "throws (fsCall f) w e w'" "calm w"
  shows "store w' = store w \<or> (\<exists>l. f l (store w) = (Inl e, store w'))" "calm w'" "sameProcess w w'" "randomHex w' = randomHex w"
proof -
  define t where "t = (case ticks w of [] \<Rightarrow> calmTick | t # _ \<Rightarrow> t)"
  have "tickInterfere t = id" using assms(2) by (cases "ticks w") (auto simp: t_def calm_def calmTick_def)
  then have "(store w' = store w \<or> f (tickLimit t) (store w) = (Inl e, store w')) \<and> w' = w\<lparr>ticks := tl (ticks w), store := store w'\<rparr>"
    using assms(1) unfolding throws_def fsCall_def t_def[symmetric]
    by (auto simp: Let_def split: option.splits prod.splits)
  then show "store w' = store w \<or> (\<exists>l. f l (store w) = (Inl e, store w'))" "calm w'" "sameProcess w w'" "randomHex w' = randomHex w"
    using calm_tail[OF assms(2), of "store w'"] by (blast, metis, simp_all add: sameProcess_def) (metis Fs.select_convs Fs.surjective Fs.update_convs)+
qed

section \<open>What calls leave alone\<close>

text \<open>Every name has an inode, and the next inode number is free.\<close>

definition wfStore :: "Store \<Rightarrow> bool" where
  "wfStore s \<longleftrightarrow> (\<forall>p i. names s p = Some i \<longrightarrow> inodes s i \<noteq> None)
     \<and> (\<forall>n. nextInode s \<le> n \<longrightarrow> inodes s \<lparr>dev = deviceId s, ino = n\<rparr> = None)"

text \<open>Only names in \<open>N\<close> are bound or unbound, and of the inodes there were only those in \<open>H\<close>
  change; none disappears.\<close>

definition leaves :: "jsstring set \<Rightarrow> FileIdentity set \<Rightarrow> Store \<Rightarrow> Store \<Rightarrow> bool" where
  "leaves N H s s' \<longleftrightarrow> (wfStore s \<longrightarrow> wfStore s' \<and> (\<forall>p. p \<notin> N \<longrightarrow> names s' p = names s p)
     \<and> (\<forall>i n. inodes s i = Some n \<longrightarrow> i \<notin> H \<longrightarrow> inodes s' i = Some n) \<and> (\<forall>i. inodes s i \<noteq> None \<longrightarrow> inodes s' i \<noteq> None))"

definition confined :: "jsstring set \<Rightarrow> FileIdentity set \<Rightarrow> Fs \<Rightarrow> Fs \<Rightarrow> bool" where
  "confined N H w w' \<longleftrightarrow> (calm w \<longrightarrow> calm w' \<and> sameProcess w w' \<and> leaves N H (store w) (store w'))"

lemma leaves_refl [simp]: "leaves N H s s"
  by (simp add: leaves_def)

lemma leaves_trans: "leaves N H s t \<Longrightarrow> leaves N H t u \<Longrightarrow> leaves N H s u"
  unfolding leaves_def by (metis option.exhaust option.distinct(1))

lemma confined_refl: "confined N H w w"
  by (simp add: confined_def sameProcess_def)

lemma confined_trans: "confined N H u v \<Longrightarrow> confined N H v w \<Longrightarrow> confined N H u w"
  using leaves_trans unfolding confined_def sameProcess_def by metis

lemma confined_call:
  assumes "\<And>l s. leaves N H s (snd (f l s))" shows "keeps (confined N H) (fsCall f)"
  unfolding keeps_def confined_def
proof (intro allI impI)
  fix w assume c: "calm w"
  have st: "leaves N H (store w) (store w')" if "returns (fsCall f) w x w'" for x w'
    using fsCall_returns(1)[OF that c] assms by (metis snd_conv)
  have st': "leaves N H (store w) (store w')" if "throws (fsCall f) w e w'" for e w'
    using fsCall_throws(1)[OF that c] assms by (metis snd_conv leaves_refl)
  consider x where "returns (fsCall f) w x (snd (fsCall f w))" | e where "throws (fsCall f) w e (snd (fsCall f w))"
    by (cases "fsCall f w"; cases "fst (fsCall f w)") (auto simp: returns_def throws_def)
  then show "calm (snd (fsCall f w)) \<and> sameProcess w (snd (fsCall f w)) \<and> leaves N H (store w) (store (snd (fsCall f w)))"
  proof cases
    case 1
    with fsCall_returns(2,3)[OF 1 c] st show ?thesis by blast
  next
    case 2
    with fsCall_throws(2,3)[OF 2 c] st' show ?thesis by blast
  qed
qed

lemma leaves_bind: "inodes s i \<noteq> None \<Longrightarrow> p \<in> N \<Longrightarrow> leaves N H s (bindName p i s)"
  by (auto simp: leaves_def bindName_def wfStore_def)

lemma leaves_unbind: "p \<in> N \<Longrightarrow> leaves N H s (unbindName p s)"
  by (auto simp: leaves_def unbindName_def wfStore_def split: option.splits if_splits)

lemma leaves_content: "h \<in> H \<Longrightarrow> leaves N H s (setContent h g s)"
  by (auto simp: leaves_def setContent_def wfStore_def split: option.splits if_splits)

lemma leaves_create: "p \<in> N \<Longrightarrow> leaves N H s (snd (createInode p mode uid s))"
  by (auto simp: leaves_def createInode_def bindName_def wfStore_def Let_def)

lemma leaves_link: "names s a = Some i \<Longrightarrow> b \<in> N \<Longrightarrow> leaves N H s (bindName b i s)"
  by (auto simp: leaves_def bindName_def wfStore_def)

lemma leaves_rename:
  assumes "names s a = Some i" "a \<in> N" "b \<in> N" shows "leaves N H s (bindName b i (unbindName a (unbindName b s)))"
proof (cases "wfStore s")
  case True
  have "leaves N H s (unbindName a (unbindName b s))" using leaves_trans leaves_unbind assms(2,3) by blast
  moreover have "inodes (unbindName a (unbindName b s)) = inodes s" by (auto simp: unbindName_def split: option.splits)
  then have "leaves N H (unbindName a (unbindName b s)) (bindName b i (unbindName a (unbindName b s)))"
    using assms True by (intro leaves_bind) (auto simp: wfStore_def)
  ultimately show ?thesis by (rule leaves_trans)
qed (simp add: leaves_def)

named_theorems confined_calls \<open>the calls that a computation makes keep a relation\<close>

text \<open>The store does not change at all.\<close>

definition sameStore :: "Fs \<Rightarrow> Fs \<Rightarrow> bool" where
  "sameStore w w' \<longleftrightarrow> (calm w \<longrightarrow> calm w' \<and> sameProcess w w' \<and> store w' = store w)"

lemma sameStore_call:
  assumes "\<And>l s. snd (f l s) = s" shows "keeps sameStore (fsCall f)"
  unfolding keeps_def sameStore_def
proof (intro allI impI)
  fix w assume c: "calm w"
  consider x where "returns (fsCall f) w x (snd (fsCall f w))" | e where "throws (fsCall f) w e (snd (fsCall f w))"
    by (cases "fsCall f w"; cases "fst (fsCall f w)") (auto simp: returns_def throws_def)
  then show "calm (snd (fsCall f w)) \<and> sameProcess w (snd (fsCall f w)) \<and> store (snd (fsCall f w)) = store w"
  proof cases
    case 1
    with fsCall_returns[OF 1 c] assms show ?thesis by (metis snd_conv)
  next
    case 2
    with fsCall_throws[OF 2 c] assms show ?thesis by (metis snd_conv)
  qed
qed

text \<open>A relation that the calls without effect on the store keep.\<close>

locale fs_frame = frame R for R :: "Fs \<Rightarrow> Fs \<Rightarrow> bool" +
  assumes reading [confined_calls]: "keeps R (lstat p)" "keeps R (stat p)" "keeps R (handleStat h)" "keeps R (handleRead h len pos)" "keeps R (handleClose h)"
    "keeps R (openRead p)" "keeps R (openReadWrite p)" and drawing [confined_calls]: "keeps R drawHex" "keeps R drawSecret"
begin

lemma keeps_readStream [confined_calls]: "keeps R (readStream h hw upTo limit msg pos)"
proof (induction h hw upTo limit msg pos rule: readStream.induct)
  case (1 h hw upTo limit msg pos)
  then show ?case unfolding readStream.simps[of h hw upTo limit msg pos] by (intro keeps_rules confined_calls)
qed

end

lemma confined_openFile: "(how = CreateExclusive \<Longrightarrow> p \<in> N) \<Longrightarrow> keeps (confined N H) (openFile p how mode uid)"
  unfolding openFile_def
proof (rule confined_call)
  fix l s assume "how = CreateExclusive \<Longrightarrow> p \<in> N"
  then have "how = CreateExclusive \<Longrightarrow> createInode p mode uid s = (i, s') \<Longrightarrow> leaves N H s s'" for i s'
    using leaves_create[of p N H s mode uid] by simp
  then show "leaves N H s (snd (case how of
        CreateExclusive \<Rightarrow> if names s p \<noteq> None then (Inl (NodeError ''EEXIST''), s) else (case createInode p mode uid s of (i, s') \<Rightarrow> (Inr i, s'))
      | _ \<Rightarrow> (case lookupInode s p of None \<Rightarrow> (Inl enoent, s)
           | Some (i, n) \<Rightarrow> (case inodeKind n of
                  SymbolicLink _ \<Rightarrow> (Inl (NodeError ''ELOOP''), s)
                | Directory \<Rightarrow> if how = ReadWrite then (Inl (NodeError ''EISDIR''), s) else (Inr i, s)
                | _ \<Rightarrow> (Inr i, s)))))"
    by (auto split: OpenMode.split option.split prod.split FileKind.split)
qed

interpretation conf: fs_frame "confined N H" for N H
proof
  show "confined N H w w" for w by (rule confined_refl)
  show "confined N H u w" if "confined N H u v" "confined N H v w" for u v w using that by (rule confined_trans)
  show "keeps (confined N H) (openRead p)" "keeps (confined N H) (openReadWrite p)" for p
    unfolding openRead_def openReadWrite_def by (rule confined_openFile; simp)+
  show "keeps (confined N H) drawHex" "keeps (confined N H) drawSecret"
    by (auto simp: keeps_def confined_def drawHex_def drawSecret_def calm_def sameProcess_def)
qed (unfold lstat_def stat_def handleStat_def handleRead_def handleClose_def, (rule confined_call; simp split: option.split sum.split prod.split)+)

interpretation same: fs_frame sameStore
proof
  show "sameStore w w" for w by (simp add: sameStore_def sameProcess_def)
  show "sameStore u w" if "sameStore u v" "sameStore v w" for u v w using that by (simp add: sameStore_def sameProcess_def)
  show "keeps sameStore drawHex" "keeps sameStore drawSecret"
    by (auto simp: keeps_def sameStore_def drawHex_def drawSecret_def calm_def sameProcess_def)
qed (unfold lstat_def stat_def handleStat_def handleRead_def handleClose_def openRead_def openReadWrite_def openFile_def,
    (rule sameStore_call; simp split: option.split sum.split prod.split FileKind.split)+)

lemma confined_writing [confined_calls]:
  "b \<in> N \<Longrightarrow> keeps (confined N H) (link a b)"
  "a \<in> N \<Longrightarrow> b \<in> N \<Longrightarrow> keeps (confined N H) (rename a b)"
  "p \<in> N \<Longrightarrow> keeps (confined N H) (rm p)"
  "h \<in> H \<Longrightarrow> keeps (confined N H) (handleWrite h pos bs)"
  "h \<in> H \<Longrightarrow> keeps (confined N H) (handleWriteFile h bs)"
  "h \<in> H \<Longrightarrow> keeps (confined N H) (handleTruncate h n)"
  "h \<in> H \<Longrightarrow> keeps (confined N H) (streamWrite h pos bs)"
  unfolding link_def rename_def rm_def handleWrite_def handleWriteFile_def handleTruncate_def streamWrite_def
  by (rule confined_call; simp add: leaves_link leaves_rename leaves_unbind leaves_content Let_def split: option.split)+

lemma confined_open [confined_calls]: "p \<in> N \<Longrightarrow> keeps (confined N H) (openExclusive p mode)"
  using confined_openFile[of CreateExclusive p N H mode] by (simp add: keeps_def openExclusive_def)

section \<open>What calls return\<close>

lemma lstat_value:
  assumes "returns (lstat p) w st w'" "calm w"
  shows "\<exists>i n. names (store w) p = Some i \<and> inodes (store w) i = Some n \<and> st = statOf (store w) i n" "store w' = store w"
  using fsCall_returns(1)[OF assms[unfolded lstat_def]]
  by (auto simp: lookupInode_def split: option.splits bind_splits)

lemma handleStat_value:
  assumes "returns (handleStat h) w st w'" "calm w"
  shows "\<exists>n. inodes (store w) h = Some n \<and> st = statOf (store w) h n" "store w' = store w"
  using fsCall_returns(1)[OF assms[unfolded handleStat_def]] by (auto split: option.splits)

lemma handleRead_value:
  assumes "returns (handleRead h len pos) w bs w'" "calm w"
  shows "\<exists>n l. inodes (store w) h = Some n \<and> bs = take (limited l len) (drop pos (inodeContent n))" "store w' = store w"
  using fsCall_returns(1)[OF assms[unfolded handleRead_def]] by (auto split: option.splits)

lemma handleWrite_value:
  assumes "returns (handleWrite h pos bs) w k w'" "calm w"
  shows "k \<le> length bs \<and> store w' = setContent h (writeAt pos (take k bs)) (store w)"
  using fsCall_returns(1)[OF assms[unfolded handleWrite_def]] by (auto simp: Let_def limited_def split: option.splits)

lemma link_value:
  assumes "returns (link a b) w u w'" "calm w"
  shows "\<exists>i. names (store w) a = Some i \<and> names (store w) b = None \<and> store w' = bindName b i (store w)"
  using fsCall_returns(1)[OF assms[unfolded link_def]] by (auto split: option.splits if_splits)

lemma openRead_value:
  assumes "returns (openRead p) w h w'" "calm w"
  shows "names (store w) p = Some h" "inodes (store w) h \<noteq> None" "store w' = store w"
  using fsCall_returns(1)[OF assms[unfolded openRead_def openFile_def]]
  by (auto simp: lookupInode_def split: option.splits bind_splits FileKind.splits if_splits)

lemma openExclusive_value:
  assumes "returns (openExclusive p mode) w h w'" "calm w"
  shows "names (store w) p = None" "names (store w') p = Some h" "wfStore (store w) \<Longrightarrow> inodes (store w) h = None"
    "\<exists>n. inodes (store w') h = Some n \<and> inodeContent n = [] \<and> inodeKind n = RegularFile"
proof -
  define u where "u = (case processUid w of None \<Rightarrow> 0 | Some u \<Rightarrow> u)"
  have "returns (openFile p CreateExclusive mode u) w h w'" using assms(1) by (simp add: openExclusive_def returns_def u_def)
  from fsCall_returns(1)[OF this[unfolded openFile_def] assms(2)]
  have free: "names (store w) p = None" and c: "createInode p mode u (store w) = (h, store w')"
    by (auto split: if_splits prod.splits)
  from c have "h = fst (createInode p mode u (store w))" "store w' = snd (createInode p mode u (store w))" by simp_all
  with free show "names (store w) p = None" "names (store w') p = Some h" "wfStore (store w) \<Longrightarrow> inodes (store w) h = None"
    "\<exists>n. inodes (store w') h = Some n \<and> inodeContent n = [] \<and> inodeKind n = RegularFile"
    by (auto simp: createInode_def Let_def bindName_def newInode_def wfStore_def)
qed

lemma confinedD:
  assumes "keeps (confined N H) m" "calm w"
  shows "returns m w x v \<Longrightarrow> calm v \<and> sameProcess w v \<and> leaves N H (store w) (store v)"
    "throws m w e v \<Longrightarrow> calm v \<and> sameProcess w v \<and> leaves N H (store w) (store v)"
  using assms unfolding keeps_def confined_def returns_def throws_def by (metis snd_conv)+

text \<open>A file that did not exist before may be written.\<close>

lemma confined_fresh:
  assumes "confined N H w v" "confined N (insert h H) v u" "calm w" "wfStore (store w) \<Longrightarrow> inodes (store w) h = None"
  shows "confined N H w u"
proof -
  from assms have c: "calm v" "calm u" "sameProcess w u" "leaves N H (store w) (store v)" "leaves N (insert h H) (store v) (store u)"
    by (auto simp: confined_def sameProcess_def)
  have "leaves N H (store w) (store u)"
    using c(4,5) assms(4) unfolding leaves_def by (metis insertE option.distinct(1))
  with c show ?thesis by (simp add: confined_def)
qed

text \<open>Evaluation of the calls on a given store.\<close>

lemmas fs_eval = fsCall_def[THEN fun_cong] lstat_def stat_def link_def rename_def rm_def openFile_def openRead_def openReadWrite_def
  openExclusive_def[THEN fun_cong] handleStat_def handleRead_def handleWrite_def streamWrite_def handleTruncate_def handleClose_def drawHex_def[THEN fun_cong] drawSecret_def[THEN fun_cong]
  createInode_def newInode_def bindName_def unbindName_def setContent_def writeAt_def limited_def lookupInode_def statOf_def isFile_def isDirectory_def calmTick_def
  enoent_def Let_def

lemma fsCall_cong: "w = w' \<Longrightarrow> fsCall f w = fsCall f w'"
  by simp

lemma followLinks_step:
  "followLinks 40 s p = (case lookupInode s p of None \<Rightarrow> Inl enoent
      | Some (i, node) \<Rightarrow> (case inodeKind node of SymbolicLink target \<Rightarrow> followLinks 39 s target | _ \<Rightarrow> Inr (i, node)))"
  using followLinks.simps(2)[of 39 s p] by simp

end
