(* ===== verification/OutputFiles.thy ===== *)
theory OutputFiles
  imports Control AuthTags FileSystem
begin

text \<open>
  Files of the command line client, \<open>src/src/cli/files.ts\<close>: preparing the files to send, and
  reserving the output of a received file: a free final name, a partial file of its own, or an
  existing partial file to resume. A SHA-256 object is the list of bytes it has been given.
\<close>

type_synonym Sha256 = bytes

definition digestHex :: "Crypto \<Rightarrow> Sha256 \<Rightarrow> jsstring" where
  "digestHex C hash = bytesToHex (sha256 C hash)"

definition MAX_SEND_PATH_BYTES :: nat where [limit_defs]: "MAX_SEND_PATH_BYTES = 4096"
definition MAX_OUTPUT_DIR_BYTES :: nat where [limit_defs]: "MAX_OUTPUT_DIR_BYTES = 4096"
definition RESUME_SECRET_BYTES :: nat where [limit_defs]: "RESUME_SECRET_BYTES = 32"
definition PART_FILE_TOKEN_HEX_CHARS :: nat where [limit_defs]: "PART_FILE_TOKEN_HEX_CHARS = 32"
definition MAX_CLEANUP_QUARANTINE_ATTEMPTS :: nat where [limit_defs]: "MAX_CLEANUP_QUARANTINE_ATTEMPTS = 16"
definition MAX_BASENAME_INPUT_CHARS :: nat where [limit_defs]: "MAX_BASENAME_INPUT_CHARS = 4096"

section \<open>Checks on stats\<close>

definition sameFileIdentity :: "Stats \<Rightarrow> FileIdentity \<Rightarrow> bool" where
  "sameFileIdentity st expected \<longleftrightarrow> isFile st \<and> statIdentity st = expected"

definition assertOwnedByCurrentUser :: "Stats \<Rightarrow> string \<Rightarrow> unit fsio" where
  "assertOwnedByCurrentUser st label = (\<lambda>w.
     (case processUid w of
        None \<Rightarrow> pureIO ()
      | Some uid \<Rightarrow> if \<not> win32 w \<and> statUid st \<noteq> uid then failIO (label @ '' is not owned by the current user.'') else pureIO ()) w)"

definition assertOwnedByCurrentUserOrRoot :: "Stats \<Rightarrow> string \<Rightarrow> unit fsio" where
  "assertOwnedByCurrentUserOrRoot st label = (\<lambda>w.
     (case processUid w of
        None \<Rightarrow> pureIO ()
      | Some uid \<Rightarrow> if \<not> win32 w \<and> statUid st \<noteq> uid \<and> statUid st \<noteq> 0 then failIO (label @ '' is not owned by a trusted user.'')
                    else pureIO ()) w)"

text \<open>\<open>stat.mode & 0o077\<close>, \<open>& 0o022\<close> and \<open>& 0o1000\<close>.\<close>

definition groupOrOtherBits :: "Stats \<Rightarrow> bool" where
  "groupOrOtherBits st \<longleftrightarrow> statMode st AND 63 \<noteq> 0"

definition assertSingleLink :: "Stats \<Rightarrow> string \<Rightarrow> unit fsio" where
  "assertSingleLink st label = (if statNlink st \<noteq> 1 then failIO (label @ '' has multiple hard links.'') else pureIO ())"

definition assertPrivateStat :: "Stats \<Rightarrow> string \<Rightarrow> unit fsio" where
  "assertPrivateStat st label =
     bindIO (assertOwnedByCurrentUser st label) (\<lambda>_.
       if groupOrOtherBits st then failIO (label @ '' is not private.'') else pureIO ())"

definition unlessWindows :: "unit fsio \<Rightarrow> unit fsio" where
  "unlessWindows m = (\<lambda>w. if win32 w then (Inr (), w) else m w)"

definition assertPrivatePartialStat :: "Stats \<Rightarrow> unit fsio" where
  "assertPrivatePartialStat st = unlessWindows (assertPrivateStat st ''Resume partial'')"

definition assertPrivateOutputDirStat :: "Stats \<Rightarrow> unit fsio" where
  "assertPrivateOutputDirStat st = unlessWindows (assertPrivateStat st ''Output directory'')"

definition assertCliResumeSupported :: "unit fsio" where
  "assertCliResumeSupported = bindIO (readIO win32) (\<lambda>w.
     if w then failIO ''CLI resume is disabled on Windows until private ACL checks are implemented.'' else pureIO ())"

definition assertPrivateOutputDirSupported :: "unit fsio" where
  "assertPrivateOutputDirSupported = bindIO (readIO win32) (\<lambda>w.
     if w then failIO ''Private receive output directories are disabled on Windows until private ACL checks are implemented.'' else pureIO ())"

definition assertPrivateOutputParent :: "jsstring \<Rightarrow> unit fsio" where
  "assertPrivateOutputParent dir = unlessWindows (
     let parent = pathDirname dir in
     if parent = dir then pureIO ()
     else bindIO (stat parent) (\<lambda>st.
       if \<not> isDirectory st then failIO ''Output directory parent is invalid.''
       else let groupOrOtherWritable = statMode st AND 18 \<noteq> 0; sticky = statMode st AND 512 \<noteq> 0 in
         if groupOrOtherWritable \<and> \<not> sticky then failIO ''Output directory parent is not private.''
         else if sticky then assertOwnedByCurrentUserOrRoot st ''Output directory parent''
         else assertOwnedByCurrentUser st ''Output directory parent''))"

definition outputDirectoryStat :: "jsstring \<Rightarrow> bool \<Rightarrow> Stats fsio" where
  "outputDirectoryStat dir privateOutputDir =
     bindIO (whenIO privateOutputDir (bindIO assertPrivateOutputDirSupported (\<lambda>_.
       bindIO (lstat dir) (\<lambda>linkStat.
         if isSymbolicLink linkStat then failIO ''Output directory must not be a symbolic link in private mode.'' else pureIO ())))) (\<lambda>_.
     bindIO (stat dir) (\<lambda>st.
     bindIO (whenIO privateOutputDir (bindIO (assertPrivateOutputDirStat st) (\<lambda>_. assertPrivateOutputParent dir))) (\<lambda>_.
       pureIO st)))"

definition directoryIdentity :: "jsstring \<Rightarrow> bool \<Rightarrow> FileIdentity fsio" where
  "directoryIdentity dir privateOutputDir = bindIO (outputDirectoryStat dir privateOutputDir) (\<lambda>st.
     if \<not> isDirectory st then failIO ''Output path is not a directory.'' else pureIO (statIdentity st))"

definition assertReservedDirectoryIdentity :: "jsstring \<Rightarrow> FileIdentity \<Rightarrow> bool \<Rightarrow> unit fsio" where
  "assertReservedDirectoryIdentity dir expected privateOutputDir = bindIO (outputDirectoryStat dir privateOutputDir) (\<lambda>st.
     if \<not> isDirectory st \<or> statIdentity st \<noteq> expected then failIO ''Output directory changed during reservation.'' else pureIO ())"

section \<open>Removal\<close>

definition cleanupQuarantinePath :: "jsstring \<Rightarrow> jsstring fsio" where
  "cleanupQuarantinePath filePath = bindIO drawHex (\<lambda>token. bindIO (readIO processPid) (\<lambda>pid.
     pureIO (pathJoin (pathDirname filePath) (js ''.ff-delete-'' @ dec pid @ js ''-'' @ token @ js ''.tmp''))))"

text \<open>The file is moved to a random name first and deleted only when it is still the expected one
  there. \<open>attempts\<close> is what is left of the loop.\<close>

fun quarantineLoop :: "nat \<Rightarrow> jsstring \<Rightarrow> (Stats \<Rightarrow> bool) \<Rightarrow> unit fsio" where
  "quarantineLoop 0 filePath matchesExpected = failIO ''Could not reserve a cleanup quarantine path.''"
| "quarantineLoop (Suc attempts) filePath matchesExpected =
     bindIO (cleanupQuarantinePath filePath) (\<lambda>quarantinePath.
     catchIO
       (bindIO (lstat filePath) (\<lambda>st.
         if \<not> matchesExpected st then pureIO ()
         else bindIO (rename filePath quarantinePath) (\<lambda>_.
           bindIO (lstat quarantinePath) (\<lambda>quarantined.
             if \<not> matchesExpected quarantined then failIO ''Cleanup target changed before removal.''
             else rm quarantinePath))))
       (\<lambda>e. if e = NodeError ''ENOENT'' then pureIO ()
            else if e = NodeError ''EEXIST'' then quarantineLoop attempts filePath matchesExpected
            else raiseIO e))"

definition quarantineRemovePathIfIdentity :: "jsstring \<Rightarrow> (Stats \<Rightarrow> bool) \<Rightarrow> unit fsio" where
  "quarantineRemovePathIfIdentity filePath matchesExpected = quarantineLoop MAX_CLEANUP_QUARANTINE_ATTEMPTS filePath matchesExpected"

definition removePathIfIdentity :: "jsstring \<Rightarrow> FileIdentity \<Rightarrow> unit fsio" where
  "removePathIfIdentity filePath expected = quarantineRemovePathIfIdentity filePath (\<lambda>st. sameFileIdentity st expected)"

section \<open>Snapshots and hashing\<close>

text \<open>\<open>FileMutationSnapshot\<close>: identity, size and the time stamps.\<close>

definition fileMutationSnapshot :: "FileHandle \<Rightarrow> (FileIdentity \<times> nat \<times> nat) fsio" where
  "fileMutationSnapshot h = bindIO (handleStat h) (\<lambda>st. pureIO (statIdentity st, statSize st, statStamp st))"

definition sameFileSnapshot :: "Stats \<Rightarrow> FileIdentity \<Rightarrow> nat \<Rightarrow> bool" where
  "sameFileSnapshot st expected sz \<longleftrightarrow> isFile st \<and> statIdentity st = expected \<and> statSize st = sz"

definition changedPreparing :: string where
  "changedPreparing = ''Selected file changed while preparing the transfer.''"

definition hashFileHandle :: "Crypto \<Rightarrow> FileHandle \<Rightarrow> FileIdentity \<Rightarrow> nat \<Rightarrow> FileIdentity \<times> nat \<times> nat \<Rightarrow> (jsstring \<times> jsstring list) fsio" where
  "hashFileHandle C h expected sz expectedMutation =
     bindIO (readStream h CHUNK_SIZE False sz changedPreparing 0) (\<lambda>chunks.
       if length (concat chunks) \<noteq> sz then failIO changedPreparing
       else bindIO (handleStat h) (\<lambda>after.
         if \<not> sameFileSnapshot after expected sz then failIO changedPreparing
         else bindIO (fileMutationSnapshot h) (\<lambda>m.
           if m \<noteq> expectedMutation then failIO changedPreparing
           else pureIO (digestHex C (concat chunks), map (digestHex C) chunks))))"

definition changedHashing :: string where
  "changedHashing = ''Resume partial changed while hashing.''"

text \<open>Without an explicit \<open>highWaterMark\<close> a file stream reads 64 KiB at a time.\<close>

definition DEFAULT_STREAM_BYTES :: nat where [limit_defs]: "DEFAULT_STREAM_BYTES = 65536"

definition hashOpenFilePrefix :: "FileHandle \<Rightarrow> nat \<Rightarrow> FileIdentity \<times> nat \<times> nat \<Rightarrow> Sha256 fsio" where
  "hashOpenFilePrefix h n expected =
     bindIO (if n > 0 then
         bindIO (readStream h DEFAULT_STREAM_BYTES True n changedHashing 0) (\<lambda>chunks.
           if length (concat chunks) \<noteq> n then failIO changedHashing else pureIO (concat chunks))
       else pureIO []) (\<lambda>hash.
     bindIO (fileMutationSnapshot h) (\<lambda>m.
       if m \<noteq> expected then failIO changedHashing else pureIO hash))"

section \<open>Preparing the files to send\<close>

definition sendPathInput :: "jsstring \<Rightarrow> jsstring res" where
  "sendPathInput input =
     (if length (trim input) = 0 then throw ''File path is required.''
      else if utf8ByteLengthExceeds input MAX_SEND_PATH_BYTES then throw ''File path is too long.''
      else if hasControlOrFormat input then throw ''File path must not contain control or format characters.''
      else ok input)"

fun sendPathInputs :: "jsval list \<Rightarrow> (jsstring list) res" where
  "sendPathInputs [] = ok []"
| "sendPathInputs (Str p # rest) = andThen (sendPathInput p) (\<lambda>p. andThen (sendPathInputs rest) (\<lambda>ps. ok (p # ps)))"
| "sendPathInputs (_ # rest) = throw ''File path is invalid.''"

definition validateSendPathInputs :: "jsval \<Rightarrow> (jsstring list) res" where
  "validateSendPathInputs paths =
     (case paths of
        Arr es \<Rightarrow>
          if length es = 0 then throw ''Provide at least one file.''
          else if length es > MAX_FILES_PER_SESSION then throw ''Too many files. Limit is 100.''
          else sendPathInputs (map dataValue es)
      | _ \<Rightarrow> throw ''File list is invalid.'')"

definition basename :: "jsstring \<Rightarrow> jsstring" where
  "basename path =
     (let s = stripTrailing isPathSeparator path in
      if s = [] then path
      else rev (takeWhile (\<lambda>c. \<not> isPathSeparator c) (rev (drop (length s - MAX_BASENAME_INPUT_CHARS) s))))"

record SendFile =
  sendId :: nat
  sendName :: jsstring
  sendSize :: nat
  sendMime :: "jsstring option"
  sendHandle :: FileHandle
  sendSha256 :: jsstring
  sendChunkSha256 :: "jsstring list"

definition prepareSendFile :: "Crypto \<Rightarrow> nat \<Rightarrow> jsstring \<Rightarrow> SendFile fsio" where
  "prepareSendFile C index input =
     bindIO (readIO processCwd) (\<lambda>cwd.
     let filePath = pathResolve cwd input in
     bindIO (lstat filePath) (\<lambda>linkStat.
       if isSymbolicLink linkStat then failIO ''Selected file is a symbolic link. Refusing to follow links; send the real file path explicitly.''
       else if \<not> isFile linkStat then failIO ''Selected path is not a file. Folders are not supported; archive first.''
       else if statSize linkStat > MAX_FILE_BYTES then failIO ''Selected file exceeds the 1 GiB per-file limit.''
       else bindIO (openRead filePath) (\<lambda>h.
         catchIO
           (bindIO (handleStat h) (\<lambda>st.
             if statSize st > MAX_FILE_BYTES then failIO ''Selected file exceeds the 1 GiB per-file limit.''
             else if \<not> isFile st \<or> statIdentity st \<noteq> statIdentity linkStat then failIO changedPreparing
             else bindIO (liftRes (assertFileWithinLimits (Str (basename filePath)) (jnat (statSize st)))) (\<lambda>_.
               bindIO (fileMutationSnapshot h) (\<lambda>m.
                 if fst (snd m) \<noteq> statSize st then failIO changedPreparing
                 else bindIO (hashFileHandle C h (statIdentity st) (statSize st) m) (\<lambda>(sha, chunkSha).
                   pureIO \<lparr>sendId = index, sendName = basename filePath, sendSize = statSize st, sendMime = None, sendHandle = h,
                     sendSha256 = sha, sendChunkSha256 = chunkSha\<rparr>)))))
           (\<lambda>e. bindIO (handleClose h) (\<lambda>_. raiseIO e)))))"

text \<open>\<open>Promise.allSettled\<close> over the handles: errors are dropped.\<close>

fun closeSendFiles :: "SendFile list \<Rightarrow> unit fsio" where
  "closeSendFiles [] = pureIO ()"
| "closeSendFiles (f # fs) = bindIO (ignoreIO (handleClose (sendHandle f))) (\<lambda>_. closeSendFiles fs)"

fun prepareSendFiles :: "Crypto \<Rightarrow> SendFile list \<Rightarrow> jsstring list \<Rightarrow> (SendFile list) fsio" where
  "prepareSendFiles C files [] = pureIO files"
| "prepareSendFiles C files (input # rest) =
     bindIO (catchIO (prepareSendFile C (length files) input) (\<lambda>e. bindIO (closeSendFiles files) (\<lambda>_. raiseIO e))) (\<lambda>f.
       prepareSendFiles C (files @ [f]) rest)"

definition sendEntry :: "SendFile \<Rightarrow> TransferFile" where
  "sendEntry f = \<lparr>entryId = sendId f, entryName = sendName f, entrySize = sendSize f, entryMime = sendMime f\<rparr>"

definition buildManifest :: "Crypto \<Rightarrow> jsval \<Rightarrow> (SendFile list \<times> jsval) fsio" where
  "buildManifest C paths =
     bindIO (liftRes (validateSendPathInputs paths)) (\<lambda>inputs.
     bindIO (prepareSendFiles C [] inputs) (\<lambda>files.
       let manifest = manifestObject (map sendEntry files) (sum_list (map sendSize files)) in
       bindIO (liftRes (assertTransferManifestWithinLimits manifest)) (\<lambda>_. pureIO (files, manifest))))"

section \<open>The resume secret\<close>

definition assertResumeSecretStat :: "Stats \<Rightarrow> unit fsio" where
  "assertResumeSecretStat st =
     (if \<not> isFile st \<or> statSize st \<noteq> RESUME_SECRET_BYTES then failIO ''Resume secret is invalid.''
      else bindIO (assertSingleLink st ''Resume secret'') (\<lambda>_. unlessWindows (assertPrivateStat st ''Resume secret'')))"

definition readResumeSecret :: "jsstring \<Rightarrow> fileBytes fsio" where
  "readResumeSecret secretPath =
     bindIO (openRead secretPath) (\<lambda>h.
     finallyIO
       (bindIO (handleStat h) (\<lambda>st.
        bindIO (assertResumeSecretStat st) (\<lambda>_.
        bindIO (fileMutationSnapshot h) (\<lambda>before.
        bindIO (handleRead h RESUME_SECRET_BYTES 0) (\<lambda>key.
          if length key \<noteq> RESUME_SECRET_BYTES then failIO ''Resume secret is invalid.''
          else bindIO (fileMutationSnapshot h) (\<lambda>after.
            if after \<noteq> before then failIO ''Resume secret changed while reading.'' else pureIO key))))))
       (ignoreIO (handleClose h)))"

text \<open>Creating the secret: an error after the file exists removes it again, and a file that
  appeared meanwhile is read.\<close>

definition createResumeSecret :: "jsstring \<Rightarrow> fileBytes \<Rightarrow> fileBytes fsio" where
  "createResumeSecret secretPath key =
     branchIO (openExclusive secretPath 384)
       (\<lambda>e. if e = NodeError ''EEXIST'' then readResumeSecret secretPath else raiseIO e)
       (\<lambda>h. branchIO (handleStat h)
         (\<lambda>e. finallyIO (if e = NodeError ''EEXIST'' then readResumeSecret secretPath else raiseIO e) (ignoreIO (handleClose h)))
         (\<lambda>created. branchIO
           (bindIO (handleWriteFile h key) (\<lambda>_. bindIO (handleStat h) (\<lambda>verified.
             if \<not> sameFileIdentity verified (statIdentity created) then failIO ''Resume secret changed while creating.''
             else assertResumeSecretStat verified)))
           (\<lambda>e. if e = NodeError ''EEXIST'' then finallyIO (readResumeSecret secretPath) (ignoreIO (handleClose h))
             else bindIO (ignoreIO (handleClose h)) (\<lambda>_.
               bindIO (catchIO (removePathIfIdentity secretPath (statIdentity created)) (\<lambda>_. failIO ''Resume secret cleanup failed.'')) (\<lambda>_.
                 raiseIO e)))
           (\<lambda>_. finallyIO (pureIO key) (ignoreIO (handleClose h)))))"

definition readOrCreateResumeSecret :: "jsstring \<Rightarrow> fileBytes fsio" where
  "readOrCreateResumeSecret outputDir =
     (let secretPath = pathJoin outputDir (js ''.ff-resume-key'') in
      catchIO (readResumeSecret secretPath) (\<lambda>e.
        if e \<noteq> enoent then raiseIO e else bindIO drawSecret (createResumeSecret secretPath)))"

section \<open>Names\<close>

definition randomPartFileName :: "jsstring fsio" where
  "randomPartFileName = bindIO drawHex (\<lambda>token. pureIO (js ''ff-'' @ token @ js ''.part''))"

definition keyedName :: "Crypto \<Rightarrow> fileBytes \<Rightarrow> string \<Rightarrow> jsstring \<Rightarrow> nat \<Rightarrow> jsstring" where
  "keyedName C key label name sz = bytesToHex (hmacSha256 C key (utf8Encode (js label @ [0]) @ utf8Encode name @ utf8Encode [0] @ utf8Encode (dec sz)))"

definition opaqueOutputFileName :: "Crypto \<Rightarrow> jsstring \<Rightarrow> jsstring \<Rightarrow> nat option \<Rightarrow> jsstring fsio" where
  "opaqueOutputFileName C outputDir name sz =
     bindIO (liftRes (safeFileName (Str name) (NInt (int SAFE_FILE_NAME_BYTES)))) (\<lambda>_.
       case sz of
         None \<Rightarrow> bindIO drawHex (\<lambda>token. pureIO (js ''ff-'' @ token))
       | Some n \<Rightarrow> bindIO (readOrCreateResumeSecret outputDir) (\<lambda>key.
           pureIO (js ''ff-'' @ take PART_FILE_TOKEN_HEX_CHARS (keyedName C key ''ff-output-v1'' name n))))"

definition resumablePartFileName :: "Crypto \<Rightarrow> jsstring \<Rightarrow> jsstring \<Rightarrow> nat \<Rightarrow> jsstring fsio" where
  "resumablePartFileName C outputDir finalName sz =
     bindIO (readOrCreateResumeSecret outputDir) (\<lambda>key.
       pureIO (js ''ff-resume-'' @ keyedName C key ''ff-resume-v1'' finalName sz @ js ''.part''))"

section \<open>Reservation\<close>

record ReservedOutputFile =
  finalPath :: jsstring
  partPath :: jsstring
  partHandle :: FileHandle
  dirIdentity :: FileIdentity
  resumeBytes :: nat
  resumeHash :: Sha256

record ReserveOptions =
  optResume :: bool
  optSize :: jsval
  optOpaqueName :: bool
  optPrivateDir :: bool

definition outputDirInput :: "jsval \<Rightarrow> jsstring res" where
  "outputDirInput dir =
     (case dir of
        Str d \<Rightarrow>
          if length (trim d) = 0 then throw ''Output directory is required.''
          else if utf8ByteLengthExceeds d MAX_OUTPUT_DIR_BYTES then throw ''Output directory path is too long.''
          else if hasControlOrFormat d then throw ''Output directory must not contain control or format characters.''
          else ok d
      | _ \<Rightarrow> throw ''Output directory is invalid.'')"

definition resumeFileSize :: "jsval \<Rightarrow> nat res" where
  "resumeFileSize sz =
     (case sz of
        Number (NInt i) \<Rightarrow> if \<bar>i\<bar> > MAX_SAFE_INTEGER \<or> i < 0 \<or> i > int MAX_FILE_BYTES then throw ''Resume file size is invalid.'' else ok (nat i)
      | _ \<Rightarrow> throw ''Resume file size is invalid.'')"

text \<open>The handle of a part file is its inode, so \<open>dev\<close> and \<open>ino\<close> of the reservation are the handle.\<close>

definition createOutputPart :: "jsstring \<Rightarrow> jsstring \<Rightarrow> jsstring \<Rightarrow> FileIdentity \<Rightarrow> bool \<Rightarrow> ReservedOutputFile fsio" where
  "createOutputPart final part outputDir outputDirIdentity privateDir =
     bindIO (assertReservedDirectoryIdentity outputDir outputDirIdentity privateDir) (\<lambda>_.
     bindIO (openExclusive part 384) (\<lambda>h.
     branchIO (handleStat h)
       (\<lambda>e. bindIO (ignoreIO (handleClose h)) (\<lambda>_. raiseIO e))
       (\<lambda>st. catchIO
         (bindIO (assertReservedDirectoryIdentity outputDir outputDirIdentity privateDir) (\<lambda>_.
           pureIO \<lparr>finalPath = final, partPath = part, partHandle = h, dirIdentity = outputDirIdentity, resumeBytes = 0, resumeHash = []\<rparr>))
         (\<lambda>e. bindIO (ignoreIO (handleClose h)) (\<lambda>_.
            bindIO (ignoreIO (removePathIfIdentity part (statIdentity st))) (\<lambda>_. raiseIO e))))))"

definition reserveExistingResumablePart :: "jsstring \<Rightarrow> jsstring \<Rightarrow> jsstring \<Rightarrow> FileIdentity \<Rightarrow> nat \<Rightarrow> bool \<Rightarrow> ReservedOutputFile fsio" where
  "reserveExistingResumablePart final part outputDir outputDirIdentity expectedSize privateDir =
     bindIO (assertReservedDirectoryIdentity outputDir outputDirIdentity privateDir) (\<lambda>_.
     bindIO (openReadWrite part) (\<lambda>h.
       catchIO
         (bindIO (handleStat h) (\<lambda>st.
           if \<not> isFile st then failIO ''Resume partial path is not a file.''
           else bindIO (assertSingleLink st ''Resume partial'') (\<lambda>_.
             bindIO (assertPrivatePartialStat st) (\<lambda>_.
             bindIO (assertReservedDirectoryIdentity outputDir outputDirIdentity privateDir) (\<lambda>_.
               let smaller = min (statSize st) expectedSize;
                   n = (if smaller < expectedSize then smaller - smaller mod CHUNK_SIZE else smaller) in
               bindIO (whenIO (n \<noteq> statSize st) (handleTruncate h n)) (\<lambda>_.
               bindIO (handleStat h) (\<lambda>after.
                 if \<not> sameFileSnapshot after (statIdentity st) n then failIO changedHashing
                 else bindIO (fileMutationSnapshot h) (\<lambda>m.
                   bindIO (hashOpenFilePrefix h n m) (\<lambda>hash.
                     pureIO \<lparr>finalPath = final, partPath = part, partHandle = h, dirIdentity = outputDirIdentity,
                       resumeBytes = n, resumeHash = hash\<rparr>)))))))))
         (\<lambda>e. bindIO (ignoreIO (handleClose h)) (\<lambda>_. raiseIO e))))"

text \<open>One round of the loop: \<open>None\<close> goes on with the next collision name.\<close>

definition orNext :: "'a fsio \<Rightarrow> ('a option) fsio" where
  "orNext m = catchIO (bindIO m (\<lambda>x. pureIO (Some x))) (\<lambda>e. if e = NodeError ''EEXIST'' then pureIO None else raiseIO e)"

definition reserveAttempt :: "Crypto \<Rightarrow> jsstring \<Rightarrow> FileIdentity \<Rightarrow> bool \<Rightarrow> nat option \<Rightarrow> jsstring \<Rightarrow> nat \<Rightarrow> (ReservedOutputFile option) fsio" where
  "reserveAttempt C outputDir outputDirIdentity privateDir resumeSize safe i =
     bindIO (assertReservedDirectoryIdentity outputDir outputDirIdentity privateDir) (\<lambda>_.
     bindIO (liftRes (safeCollisionFileName (Str safe) (NInt (int i)) (NInt (int SAFE_FILE_NAME_BYTES)))) (\<lambda>candidateName.
     let final = pathJoin outputDir candidateName in
     bindIO (catchIO (bindIO (lstat final) (\<lambda>_. pureIO True)) (\<lambda>e. if e = enoent then pureIO False else raiseIO e)) (\<lambda>taken.
       if taken then pureIO None
       else case resumeSize of
         Some sz \<Rightarrow>
           bindIO (resumablePartFileName C outputDir candidateName sz) (\<lambda>partName.
           let part = pathJoin outputDir partName in
           catchIO (bindIO (reserveExistingResumablePart final part outputDir outputDirIdentity sz privateDir) (\<lambda>r. pureIO (Some r)))
             (\<lambda>e. if e = enoent then orNext (createOutputPart final part outputDir outputDirIdentity privateDir) else raiseIO e))
       | None \<Rightarrow>
           bindIO randomPartFileName (\<lambda>partName.
             orNext (createOutputPart final (pathJoin outputDir partName) outputDir outputDirIdentity privateDir)))))"

fun reserveLoop :: "Crypto \<Rightarrow> jsstring \<Rightarrow> FileIdentity \<Rightarrow> bool \<Rightarrow> nat option \<Rightarrow> jsstring \<Rightarrow> nat list \<Rightarrow> ReservedOutputFile fsio" where
  "reserveLoop C outputDir outputDirIdentity privateDir resumeSize safe [] =
     failIO (''Could not reserve an output name for '' @ map char_of safe @ '' after 256 attempts.'')"
| "reserveLoop C outputDir outputDirIdentity privateDir resumeSize safe (i # rest) =
     bindIO (reserveAttempt C outputDir outputDirIdentity privateDir resumeSize safe i) (\<lambda>r.
       case r of Some out \<Rightarrow> pureIO out | None \<Rightarrow> reserveLoop C outputDir outputDirIdentity privateDir resumeSize safe rest)"

definition reserveOutputFile :: "Crypto \<Rightarrow> jsval \<Rightarrow> jsstring \<Rightarrow> ReserveOptions \<Rightarrow> ReservedOutputFile fsio" where
  "reserveOutputFile C dir name opts =
     bindIO (liftRes (outputDirInput dir)) (\<lambda>d.
     bindIO (readIO processCwd) (\<lambda>cwd.
     let outputDir = pathResolve cwd d in
     bindIO (directoryIdentity outputDir (optPrivateDir opts)) (\<lambda>outputDirIdentity.
     bindIO (whenIO (optResume opts) assertCliResumeSupported) (\<lambda>_.
     bindIO (if optResume opts then bindIO (liftRes (resumeFileSize (optSize opts))) (\<lambda>n. pureIO (Some n)) else pureIO None) (\<lambda>resumeSize.
     bindIO (if optOpaqueName opts then opaqueOutputFileName C outputDir name resumeSize
             else liftRes (safeFileName (Str name) (NInt (int SAFE_FILE_NAME_BYTES)))) (\<lambda>safe.
       reserveLoop C outputDir outputDirIdentity (optPrivateDir opts) resumeSize safe [0..<MAX_OUTPUT_NAME_ATTEMPTS]))))))"

section \<open>What the operations touch\<close>

text \<open>A name under which a file is moved aside before it is deleted.\<close>

definition isQuarantine :: "jsstring \<Rightarrow> bool" where
  "isQuarantine q \<longleftrightarrow> (\<exists>f pid token. q = pathJoin (pathDirname f) (js ''.ff-delete-'' @ dec pid @ js ''-'' @ token @ js ''.tmp''))"

text \<open>The checks, and the reading of a file, change nothing.\<close>

context fs_frame
begin

lemma keeps_owner [confined_calls]:
  "keeps R (assertOwnedByCurrentUser st label)" "keeps R (assertOwnedByCurrentUserOrRoot st label)"
  by (auto simp: keeps_def assertOwnedByCurrentUser_def assertOwnedByCurrentUserOrRoot_def io_defs refl split: option.split)

lemma keeps_unlessWindows [confined_calls]: "keeps R m \<Longrightarrow> keeps R (unlessWindows m)"
  by (auto simp: keeps_def unlessWindows_def refl)

lemma keeps_checks [confined_calls]:
  "keeps R (assertSingleLink st label)" "keeps R (assertPrivateStat st label)"
  "keeps R assertCliResumeSupported" "keeps R assertPrivateOutputDirSupported"
  unfolding assertSingleLink_def assertPrivateStat_def assertCliResumeSupported_def assertPrivateOutputDirSupported_def
  by (intro keeps_rules confined_calls)+

lemma keeps_private [confined_calls]:
  "keeps R (assertPrivatePartialStat st)" "keeps R (assertPrivateOutputDirStat st)" "keeps R (assertPrivateOutputParent dir)"
  unfolding assertPrivatePartialStat_def assertPrivateOutputDirStat_def assertPrivateOutputParent_def Let_def
  by (intro keeps_rules confined_calls)+

lemma keeps_directory [confined_calls]:
  "keeps R (outputDirectoryStat dir priv)" "keeps R (directoryIdentity dir priv)" "keeps R (assertReservedDirectoryIdentity dir expected priv)"
  unfolding directoryIdentity_def assertReservedDirectoryIdentity_def outputDirectoryStat_def
  by (intro keeps_rules confined_calls)+

lemma keeps_quarantinePath [confined_calls]: "keeps R (cleanupQuarantinePath f)"
  unfolding cleanupQuarantinePath_def by (intro keeps_rules confined_calls)

lemma keeps_hashing [confined_calls]:
  "keeps R (fileMutationSnapshot h)" "keeps R (hashFileHandle C h expected sz m)" "keeps R (hashOpenFilePrefix h n m)"
  unfolding hashFileHandle_def hashOpenFilePrefix_def fileMutationSnapshot_def
  by (intro keeps_rules confined_calls)+

lemma keeps_closeSend [confined_calls]: "keeps R (closeSendFiles fs)"
  by (induction fs) (auto intro!: keeps_rules confined_calls)

lemma keeps_prepare [confined_calls]: "keeps R (prepareSendFile C i input)"
  unfolding prepareSendFile_def Let_def
  by (intro keeps_rules confined_calls) (auto intro!: keeps_rules split: prod.split)

lemma keeps_prepareAll [confined_calls]: "keeps R (prepareSendFiles C fs inputs)"
  by (induction inputs arbitrary: fs) (auto intro!: keeps_rules confined_calls)

lemma keeps_buildManifest [confined_calls]: "keeps R (buildManifest C paths)"
  unfolding buildManifest_def Let_def by (intro keeps_rules confined_calls)

end

lemma splitAt_extend: "c \<notin> set y \<Longrightarrow> splitAt c (x @ y) = butlast (splitAt c x) @ [last (splitAt c x) @ y]"
  by (induction x) (auto simp: splitAt_none split: list.splits)

lemma normalSegments_last:
  "z \<noteq> [] \<Longrightarrow> z \<noteq> js ''.'' \<Longrightarrow> z \<noteq> js ''..'' \<Longrightarrow> \<exists>ys. normalSegments (xs @ [z]) out = ys @ [z]"
  by (induction xs out rule: normalSegments.induct) auto

lemma quarantine_last: "isQuarantine q \<Longrightarrow> last q = 112"
proof -
  assume "isQuarantine q"
  then obtain d name where q: "q = pathJoin d (name @ js ''.tmp'')" unfolding isQuarantine_def append_assoc[symmetric] by blast
  let ?s = "splitAt 47 d @ splitAt 47 (name @ js ''.tmp'')"
  have "47 \<notin> set (js ''.tmp'')" by code_simp
  then obtain z where z: "last ?s = z @ js ''.tmp''" using splitAt_extend by auto
  then have "?s = butlast ?s @ [z @ js ''.tmp'']" by (metis append_butlast_last_id append_is_Nil_conv splitAt_nonempty)
  moreover have t: "z @ js ''.tmp'' \<noteq> []" "z @ js ''.tmp'' \<noteq> js ''.''" "z @ js ''.tmp'' \<noteq> js ''..''" by (auto simp: js_def append_eq_Cons_conv)
  ultimately obtain ys where "normalSegments ?s [] = ys @ [z @ js ''.tmp'']" using normalSegments_last[OF t, of "butlast ?s" "[]"] by auto
  then have "q = concat (map (\<lambda>x. 47 # x) ys) @ 47 # z @ js ''.tmp''" unfolding q pathJoin_def absolutePath_def by simp
  then show ?thesis by (simp add: js_def)
qed

lemma quarantinePath_value: "returns (cleanupQuarantinePath f) w q w' \<Longrightarrow> isQuarantine q"
  by (auto simp: cleanupQuarantinePath_def run_simps isQuarantine_def)

lemma confined_quarantine: "f \<in> N \<Longrightarrow> Collect isQuarantine \<subseteq> N \<Longrightarrow> keeps (confined N H) (quarantineLoop n f matches)"
proof (induction n)
  case (Suc n)
  show ?case
    unfolding quarantineLoop.simps
  proof (rule conf.keeps_bind_val)
    fix w q v assume "returns (cleanupQuarantinePath f) w q v"
    then have "q \<in> N" using quarantinePath_value Suc.prems(2) by blast
    then show "keeps (confined N H) (catchIO (bindIO (lstat f) (\<lambda>st. if \<not> matches st then pureIO ()
        else bindIO (rename f q) (\<lambda>_. bindIO (lstat q) (\<lambda>quarantined.
          if \<not> matches quarantined then failIO ''Cleanup target changed before removal.'' else rm q))))
       (\<lambda>e. if e = NodeError ''ENOENT'' then pureIO () else if e = NodeError ''EEXIST'' then quarantineLoop n f matches else raiseIO e))"
      using Suc by (intro conf.keeps_rules confined_calls) auto
  qed (rule confined_calls)
qed (simp add: conf.keeps_raise)

lemma confined_remove [confined_calls]:
  "f \<in> N \<Longrightarrow> Collect isQuarantine \<subseteq> N \<Longrightarrow> keeps (confined N H) (quarantineRemovePathIfIdentity f matches)"
  "f \<in> N \<Longrightarrow> Collect isQuarantine \<subseteq> N \<Longrightarrow> keeps (confined N H) (removePathIfIdentity f expected)"
  unfolding removePathIfIdentity_def quarantineRemovePathIfIdentity_def by (rule confined_quarantine; assumption)+

text \<open>Evaluation of a first round of removal.\<close>

lemma attempts_Suc: "Suc 15 = MAX_CLEANUP_QUARANTINE_ATTEMPTS"
  by (simp add: limit_defs)

lemmas quarantine_first = quarantineLoop.simps(2)[of 15, unfolded attempts_Suc, THEN fun_cong]

section \<open>What a reservation holds\<close>

text \<open>The bytes that are kept of a partial file: all of them hashed, at most the declared size, and
  whole chunks unless the file is complete.\<close>

definition resumesWithin :: "nat option \<Rightarrow> ReservedOutputFile \<Rightarrow> bool" where
  "resumesWithin sz r \<longleftrightarrow> length (resumeHash r) = resumeBytes r
     \<and> (case sz of None \<Rightarrow> resumeBytes r = 0 | Some n \<Rightarrow> resumeBytes r \<le> n \<and> (resumeBytes r = n \<or> CHUNK_SIZE dvd resumeBytes r))"

lemma created_empty: "returns (createOutputPart final part dir i priv) w r v \<Longrightarrow> resumesWithin sz r"
  by (auto simp: createOutputPart_def run_simps resumesWithin_def split: option.splits)

lemma hashed_prefix: "returns (hashOpenFilePrefix h n m) w hash v \<Longrightarrow> length hash = n"
  by (auto simp: hashOpenFilePrefix_def run_simps split: if_splits)

lemma no_rest: "a - a mod c = a \<Longrightarrow> c dvd (a :: nat)"
  by (metis dvd_minus_mod)

lemma existing_within: "returns (reserveExistingResumablePart final part dir i n priv) w r v \<Longrightarrow> resumesWithin (Some n) r"
  unfolding reserveExistingResumablePart_def Let_def
  by (auto simp: run_simps resumesWithin_def hashed_prefix dest: no_rest split: if_splits)

lemma attempt_within: "returns (reserveAttempt C dir i priv sz safe k) w (Some r) v \<Longrightarrow> resumesWithin sz r"
  by (auto simp: reserveAttempt_def Let_def orNext_def run_simps created_empty existing_within split: if_splits option.splits)

lemma loop_within: "returns (reserveLoop C dir i priv sz safe ks) w r v \<Longrightarrow> resumesWithin sz r"
  by (induction ks arbitrary: w) (auto simp: run_simps split: option.splits dest: attempt_within)

lemma reserved_within:
  assumes "returns (reserveOutputFile C dir name opts) w r v"
  shows "resumesWithin (if optResume opts then Some (natOf (optSize opts)) else None) r"
proof -
  have n: "resumeFileSize sz = ok n \<Longrightarrow> n = natOf sz" for sz n
    by (auto simp: resumeFileSize_def natOf_def split: jsval.splits jsnum.splits if_splits)
  show ?thesis
    using assms unfolding reserveOutputFile_def Let_def
    by (auto simp: run_simps dest!: loop_within n split: if_splits)
qed

end
