(* ===== verification/Publish.thy ===== *)
theory Publish
  imports OutputFiles
begin

text \<open>
  Publishing of a received file, \<open>src/src/cli/transfer.ts\<close> (from \<open>digestFilePath\<close> on): the partial
  file is linked to its final name, or copied where links are not possible, without ever
  replacing an existing file; identities are compared around every step, and what was created is
  removed again when a later step fails. The expected identity and size are always passed by the
  receiver, so they are not optional here. \<open>removePathIfIdentity\<close>, which the source spells out in
  both files, is that of \<open>OutputFiles\<close>.
\<close>

definition MAX_PUBLISH_PATH_BYTES :: nat where [limit_defs]: "MAX_PUBLISH_PATH_BYTES = 4096"

definition COPY_SCRATCH_BYTES :: nat where [limit_defs]: "COPY_SCRATCH_BYTES = 64 * 1024"

definition partChanged :: string where
  "partChanged = ''Partial file changed before publish.''"

section \<open>Inputs\<close>

definition publishPathInput :: "jsval \<Rightarrow> string \<Rightarrow> jsstring res" where
  "publishPathInput value label =
     (case value of
        Str p \<Rightarrow>
          if length (trim p) = 0 then throw (label @ '' path is required.'')
          else if utf8ByteLengthExceeds p MAX_PUBLISH_PATH_BYTES then throw (label @ '' path is too long.'')
          else if hasControlOrFormat p then throw (label @ '' path must not contain control or format characters.'')
          else ok p
      | _ \<Rightarrow> throw (label @ '' path is invalid.''))"

definition fileIdentityInput :: "FileIdentity \<Rightarrow> FileIdentity res" where
  "fileIdentityInput i =
     (if int (dev i) > MAX_SAFE_INTEGER \<or> int (ino i) > MAX_SAFE_INTEGER then throw ''Expected partial identity is invalid.'' else ok i)"

definition publishExpectedSizeInput :: "nat \<Rightarrow> nat res" where
  "publishExpectedSizeInput n = (if int n > MAX_SAFE_INTEGER then throw ''Expected publish size is invalid.'' else ok n)"

section \<open>Digests of files\<close>

definition fileIdentity :: "jsstring \<Rightarrow> FileIdentity fsio" where
  "fileIdentity filePath = bindIO (lstat filePath) (\<lambda>st.
     if \<not> isFile st then failIO ''Published path is not a file.'' else pureIO (statIdentity st))"

definition sizeChanged :: string where
  "sizeChanged = ''File size changed before verification.''"

definition digestFilePath :: "Crypto \<Rightarrow> jsstring \<Rightarrow> FileIdentity option \<Rightarrow> nat \<Rightarrow> jsstring fsio" where
  "digestFilePath C filePath expectedIdentity expectedSize =
     bindIO (fileIdentity filePath) (\<lambda>pathIdentity.
       if expectedIdentity \<noteq> None \<and> expectedIdentity \<noteq> Some pathIdentity then failIO ''File path changed before verification.''
       else bindIO (openRead filePath) (\<lambda>h.
         finallyIO
           (bindIO (handleStat h) (\<lambda>st.
             if \<not> sameFileIdentity st pathIdentity then failIO ''File path changed before verification.''
             else if statSize st \<noteq> expectedSize then failIO sizeChanged
             else bindIO (readStream h DEFAULT_STREAM_BYTES False expectedSize sizeChanged 0) (\<lambda>chunks.
               if length (concat chunks) \<noteq> expectedSize then failIO sizeChanged
               else pureIO (digestHex C (concat chunks)))))
           (handleClose h)))"

section \<open>Identity checks\<close>

definition assertPublishedFileIdentity :: "jsstring \<Rightarrow> FileIdentity \<Rightarrow> nat \<Rightarrow> unit fsio" where
  "assertPublishedFileIdentity final expected expectedSize = bindIO (lstat final) (\<lambda>st.
     if \<not> sameFileIdentity st expected \<or> statSize st \<noteq> expectedSize then failIO ''Published path changed before verification.'' else pureIO ())"

definition assertPartFileIdentity :: "jsstring \<Rightarrow> FileIdentity \<Rightarrow> nat \<Rightarrow> unit fsio" where
  "assertPartFileIdentity part expected expectedSize = bindIO (lstat part) (\<lambda>st.
     if \<not> sameFileIdentity st expected \<or> statSize st \<noteq> expectedSize then failIO partChanged else assertPrivatePartialStat st)"

definition assertDirectoryIdentity :: "jsstring \<Rightarrow> FileIdentity \<Rightarrow> bool \<Rightarrow> unit fsio" where
  "assertDirectoryIdentity dir expected privateOutputDir =
     bindIO (whenIO privateOutputDir (bindIO (lstat dir) (\<lambda>linkStat.
       if isSymbolicLink linkStat then failIO ''Output directory must not be a symbolic link in private mode.'' else pureIO ()))) (\<lambda>_.
     bindIO (stat dir) (\<lambda>st.
       if \<not> isDirectory st \<or> statIdentity st \<noteq> expected then failIO ''Output directory changed before publish.''
       else whenIO privateOutputDir (bindIO (assertPrivateOutputDirStat st) (\<lambda>_. assertPrivateOutputParent dir))))"

text \<open>\<open>PathIdentity\<close>: the mode too.\<close>

definition samePathIdentity :: "Stats \<Rightarrow> FileIdentity \<times> FileKind \<times> nat \<Rightarrow> bool" where
  "samePathIdentity st expected \<longleftrightarrow> (statIdentity st, statKind st, statMode st) = expected"

definition removePathIfPathIdentity :: "jsstring \<Rightarrow> FileIdentity \<times> FileKind \<times> nat \<Rightarrow> unit fsio" where
  "removePathIfPathIdentity filePath expected = quarantineRemovePathIfIdentity filePath (\<lambda>st. samePathIdentity st expected)"

section \<open>Link or copy\<close>

definition linkPartFileExclusive :: "jsstring \<Rightarrow> jsstring \<Rightarrow> FileIdentity \<Rightarrow> nat \<Rightarrow> FileIdentity fsio" where
  "linkPartFileExclusive part final expected expectedSize =
     bindIO (link part final) (\<lambda>_.
     bindIO (lstat final) (\<lambda>finalStat.
       if \<not> sameFileIdentity finalStat expected \<or> statSize finalStat \<noteq> expectedSize then
         bindIO (ignoreIO (removePathIfPathIdentity final (statIdentity finalStat, statKind finalStat, statMode finalStat))) (\<lambda>_.
           failIO partChanged)
       else pureIO (statIdentity finalStat)))"

definition openPartFileNoFollow :: "jsstring \<Rightarrow> FileHandle fsio" where
  "openPartFileNoFollow part = catchIO (openRead part) (\<lambda>e. if e = NodeError ''ELOOP'' then failIO partChanged else raiseIO e)"

text \<open>\<open>writeAll\<close>: \<open>buffer\<close> is what is left to write at \<open>pos\<close>.\<close>

function writeAll :: "FileHandle \<Rightarrow> nat \<Rightarrow> fileBytes \<Rightarrow> unit fsio" where
  "writeAll target pos buffer =
     (if buffer = [] then pureIO ()
      else bindIO (handleWrite target pos buffer) (\<lambda>written.
        if written = 0 then failIO ''Could not write copied partial file.''
        else writeAll target (pos + written) (drop written buffer)))"
  by pat_completeness auto
termination by (relation "measure (\<lambda>(t, p, b). length b)") auto

declare writeAll.simps [simp del]

function copyLoop :: "FileHandle \<Rightarrow> FileHandle \<Rightarrow> nat \<Rightarrow> nat \<Rightarrow> nat fsio" where
  "copyLoop source target expectedSize position =
     (let readLength = min COPY_SCRATCH_BYTES (expectedSize - position) in
      if readLength = 0 then pureIO position
      else bindIO (handleRead source readLength position) (\<lambda>chunk.
        if chunk = [] then pureIO position
        else bindIO (writeAll target position chunk) (\<lambda>_. copyLoop source target expectedSize (position + length chunk))))"
  by pat_completeness auto
termination
proof (relation "measure (\<lambda>(s, t, n, p). n - p)")
  show "((source, target, expectedSize, position + length chunk), (source, target, expectedSize, position)) \<in> measure (\<lambda>(s, t, n, p). n - p)"
    if "x = min COPY_SCRATCH_BYTES (expectedSize - position)" "x \<noteq> 0" "chunk \<noteq> []"
    for source target expectedSize position x and chunk :: fileBytes
    using that by (cases chunk) auto
qed simp

declare copyLoop.simps [simp del]

definition copyOpenFile :: "FileHandle \<Rightarrow> FileHandle \<Rightarrow> nat \<Rightarrow> unit fsio" where
  "copyOpenFile source target expectedSize =
     bindIO (copyLoop source target expectedSize 0) (\<lambda>position.
       if position \<noteq> expectedSize then failIO partChanged
       else bindIO (handleRead source 1 expectedSize) (\<lambda>more. if more \<noteq> [] then failIO partChanged else pureIO ()))"

text \<open>The new file is closed once, at the end or after an error, and removed after an error once
  its identity is known.\<close>

definition copyToTarget :: "FileHandle \<Rightarrow> jsstring \<Rightarrow> FileIdentity \<Rightarrow> nat \<Rightarrow> FileIdentity fsio" where
  "copyToTarget source final expected expectedSize =
     bindIO (handleStat source) (\<lambda>sourceStat.
       if \<not> sameFileIdentity sourceStat expected then failIO partChanged
       else if statSize sourceStat \<noteq> expectedSize then failIO partChanged
       else bindIO (openExclusive final 384) (\<lambda>target.
         branchIO (handleStat target)
           (\<lambda>e. bindIO (ignoreIO (handleClose target)) (\<lambda>_. raiseIO e))
           (\<lambda>targetStat. catchIO
             (bindIO (copyOpenFile source target expectedSize) (\<lambda>_.
              bindIO (handleStat source) (\<lambda>afterSource.
                if \<not> sameFileIdentity afterSource expected then failIO partChanged
                else if statSize afterSource \<noteq> expectedSize then failIO partChanged
                else bindIO (handleStat target) (\<lambda>afterTarget.
                  if statSize afterTarget \<noteq> expectedSize then failIO partChanged
                  else bindIO (handleClose target) (\<lambda>_. pureIO (statIdentity targetStat))))))
             (\<lambda>e. bindIO (ignoreIO (handleClose target)) (\<lambda>_.
                bindIO (ignoreIO (removePathIfIdentity final (statIdentity targetStat))) (\<lambda>_. raiseIO e))))))"

definition copyPartFileExclusive :: "jsstring \<Rightarrow> jsstring \<Rightarrow> FileIdentity \<Rightarrow> nat \<Rightarrow> FileIdentity fsio" where
  "copyPartFileExclusive part final expected expectedSize =
     bindIO (openPartFileNoFollow part) (\<lambda>source.
       finallyIO (copyToTarget source final expected expectedSize) (handleClose source))"

definition LINK_FALLBACK_ERROR_CODES :: "string list" where
  "LINK_FALLBACK_ERROR_CODES = [''EACCES'', ''EINVAL'', ''EMLINK'', ''ENOSYS'', ''ENOTSUP'', ''EOPNOTSUPP'', ''EPERM'', ''EXDEV'']"

fun shouldFallbackToExclusiveCopy :: "jsError \<Rightarrow> bool" where
  "shouldFallbackToExclusiveCopy (NodeError code) = (code \<in> set LINK_FALLBACK_ERROR_CODES)"
| "shouldFallbackToExclusiveCopy (JsError _) = False"

section \<open>Publishing\<close>

definition linkOrCopy :: "jsstring \<Rightarrow> jsstring \<Rightarrow> FileIdentity \<Rightarrow> nat \<Rightarrow> FileIdentity fsio" where
  "linkOrCopy part final partIdentity expectedSize =
     catchIO (linkPartFileExclusive part final partIdentity expectedSize) (\<lambda>e.
       if \<not> shouldFallbackToExclusiveCopy e then raiseIO e else copyPartFileExclusive part final partIdentity expectedSize)"

definition publishPartFile :: "jsval \<Rightarrow> jsval \<Rightarrow> FileIdentity \<Rightarrow> nat \<Rightarrow> FileIdentity \<Rightarrow> bool \<Rightarrow> FileIdentity fsio" where
  "publishPartFile partPathValue finalPathValue expectedPart expectedSize expectedDirectory privateOutputDir =
     bindIO (liftRes (publishPathInput partPathValue ''Partial'')) (\<lambda>part.
     bindIO (liftRes (publishPathInput finalPathValue ''Final'')) (\<lambda>final.
     bindIO (liftRes (fileIdentityInput expectedPart)) (\<lambda>partIdentity.
     bindIO (liftRes (publishExpectedSizeInput expectedSize)) (\<lambda>n.
     bindIO (liftRes (fileIdentityInput expectedDirectory)) (\<lambda>dirId.
     bindIO (assertDirectoryIdentity (pathDirname final) dirId privateOutputDir) (\<lambda>_.
     bindIO (assertPartFileIdentity part partIdentity n) (\<lambda>_.
     bindIO (linkOrCopy part final partIdentity n) (\<lambda>finalIdentity.
       catchIO
         (bindIO (assertDirectoryIdentity (pathDirname final) dirId privateOutputDir) (\<lambda>_.
          bindIO (assertPublishedFileIdentity final finalIdentity n) (\<lambda>_.
          bindIO (removePathIfIdentity part partIdentity) (\<lambda>_. pureIO finalIdentity))))
         (\<lambda>e. bindIO (ignoreIO (removePathIfIdentity final finalIdentity)) (\<lambda>_. raiseIO e))))))))))"

section \<open>What publishing touches\<close>

context fs_frame
begin

lemma keeps_identity [confined_calls]:
  "keeps R (fileIdentity f)" "keeps R (assertPublishedFileIdentity f i n)" "keeps R (assertPartFileIdentity f i n)"
  "keeps R (assertDirectoryIdentity d i priv)" "keeps R (openPartFileNoFollow f)"
  unfolding fileIdentity_def assertPublishedFileIdentity_def assertPartFileIdentity_def assertDirectoryIdentity_def openPartFileNoFollow_def
  by (intro keeps_rules confined_calls)+

lemma keeps_digest [confined_calls]: "keeps R (digestFilePath C f i n)"
  unfolding digestFilePath_def by (intro keeps_rules confined_calls)

end

lemma confined_writeAll [confined_calls]: "h \<in> H \<Longrightarrow> keeps (confined N H) (writeAll h pos bs)"
proof (induction h pos bs rule: writeAll.induct)
  case (1 h pos bs)
  then show ?case unfolding writeAll.simps[of h pos bs] by (intro conf.keeps_rules confined_calls)
qed

lemma confined_copyLoop [confined_calls]: "t \<in> H \<Longrightarrow> keeps (confined N H) (copyLoop s t n pos)"
proof (induction s t n pos rule: copyLoop.induct)
  case (1 s t n pos)
  then show ?case unfolding copyLoop.simps[of s t n pos] Let_def by (intro conf.keeps_rules confined_calls) auto
qed

lemma confined_copyOpenFile [confined_calls]: "t \<in> H \<Longrightarrow> keeps (confined N H) (copyOpenFile s t n)"
  unfolding copyOpenFile_def by (intro conf.keeps_rules confined_calls)

lemma confined_copyToTarget [confined_calls]:
  assumes "final \<in> N" "Collect isQuarantine \<subseteq> N" shows "keeps (confined N H) (copyToTarget src final expected n)"
proof -
  let ?after = "\<lambda>target. branchIO (handleStat target) (\<lambda>e. bindIO (ignoreIO (handleClose target)) (\<lambda>_. raiseIO e))
      (\<lambda>targetStat. catchIO (bindIO (copyOpenFile src target n) (\<lambda>_. bindIO (handleStat src) (\<lambda>afterSource.
          if \<not> sameFileIdentity afterSource expected then failIO partChanged else if statSize afterSource \<noteq> n then failIO partChanged
          else bindIO (handleStat target) (\<lambda>afterTarget. if statSize afterTarget \<noteq> n then failIO partChanged
            else bindIO (handleClose target) (\<lambda>_. pureIO (statIdentity targetStat))))))
        (\<lambda>e. bindIO (ignoreIO (handleClose target)) (\<lambda>_. bindIO (ignoreIO (removePathIfIdentity final (statIdentity targetStat))) (\<lambda>_. raiseIO e))))"
  have main: "keeps (confined N H) (bindIO (openExclusive final 384) ?after)"
  proof (rule conf.keeps_bind_at)
    fix w t v assume o: "returns (openExclusive final 384) w t v" and c: "confined N H w v"
    have "keeps (confined N (insert t H)) (?after t)" using assms by (intro conf.keeps_rules confined_calls) auto
    then have k: "confined N (insert t H) v (snd (?after t v))" by (simp add: keeps_def)
    show "confined N H w (snd (?after t v))"
      by (cases "calm w") (use confined_fresh[OF c k] openExclusive_value(3)[OF o] in \<open>auto simp: confined_def\<close>)
  qed (use assms in \<open>intro confined_calls\<close>)
  show ?thesis
    unfolding copyToTarget_def by (rule conf.keeps_bind, rule confined_calls, intro conf.keeps_if conf.keeps_raise main)
qed

lemma publishPathInput_value: "publishPathInput (Str p) label = ok q \<Longrightarrow> q = p"
  by (auto simp: publishPathInput_def split: if_splits)

lemma confined_linkOrCopy [confined_calls]:
  "part \<in> N \<Longrightarrow> final \<in> N \<Longrightarrow> Collect isQuarantine \<subseteq> N \<Longrightarrow> keeps (confined N H) (linkOrCopy part final i n)"
  unfolding linkOrCopy_def linkPartFileExclusive_def copyPartFileExclusive_def removePathIfPathIdentity_def
  by (intro conf.keeps_rules confined_calls)

text \<open>The body of \<open>publishPartFile\<close> once its arguments are checked.\<close>

definition publishChecked :: "jsstring \<Rightarrow> jsstring \<Rightarrow> FileIdentity \<Rightarrow> nat \<Rightarrow> FileIdentity \<Rightarrow> bool \<Rightarrow> FileIdentity fsio" where
  "publishChecked part final partIdentity n dirId priv =
     bindIO (assertDirectoryIdentity (pathDirname final) dirId priv) (\<lambda>_.
     bindIO (assertPartFileIdentity part partIdentity n) (\<lambda>_.
     bindIO (linkOrCopy part final partIdentity n) (\<lambda>finalIdentity.
       catchIO
         (bindIO (assertDirectoryIdentity (pathDirname final) dirId priv) (\<lambda>_.
          bindIO (assertPublishedFileIdentity final finalIdentity n) (\<lambda>_.
          bindIO (removePathIfIdentity part partIdentity) (\<lambda>_. pureIO finalIdentity))))
         (\<lambda>e. bindIO (ignoreIO (removePathIfIdentity final finalIdentity)) (\<lambda>_. raiseIO e)))))"

lemma publish_cases:
  obtains e where "publishPartFile (Str part) (Str final) i n d priv = failIO e"
  | "publishPartFile (Str part) (Str final) i n d priv = publishChecked part final i n d priv"
proof -
  have d: "fileIdentityInput j = ok k \<Longrightarrow> k = j" "publishExpectedSizeInput a = ok b \<Longrightarrow> b = a" for j k a b
    by (auto simp: fileIdentityInput_def publishExpectedSizeInput_def split: if_splits)
  show ?thesis
    using that unfolding publishPartFile_def publishChecked_def
    by (cases "publishPathInput (Str part) ''Partial''"; cases "publishPathInput (Str final) ''Final''"; cases "fileIdentityInput i";
        cases "publishExpectedSizeInput n"; cases "fileIdentityInput d") (auto dest!: d publishPathInput_value)
qed

lemma confined_publish [confined_calls]:
  assumes "part \<in> N" "final \<in> N" "Collect isQuarantine \<subseteq> N"
  shows "keeps (confined N H) (publishPartFile (Str part) (Str final) i n d priv)"
proof (cases rule: publish_cases[of part final i n d priv])
  case 2
  show ?thesis unfolding 2 publishChecked_def using assms by (intro conf.keeps_rules confined_calls)
qed (simp add: conf.keeps_raise)

section \<open>What publishing leaves\<close>

lemma writeAt_end: "writeAt (length c) bs c = c @ bs"
  by (simp add: writeAt_def)

lemma setContent_inodes:
  "inodes s h = Some n \<Longrightarrow> \<exists>m. inodes (setContent h f s) h = Some m \<and> inodeContent m = f (inodeContent n)"
  "i \<noteq> h \<Longrightarrow> inodes (setContent h f s) i = inodes s i"
  by (auto simp: setContent_def split: option.splits)

lemma writeAll_value:
  assumes "returns (writeAll t pos bs) w u v" "calm w" "inodes (store w) t = Some b" "length (inodeContent b) = pos"
  shows "\<exists>b'. inodes (store v) t = Some b' \<and> inodeContent b' = inodeContent b @ bs"
  using assms
proof (induction t pos bs arbitrary: w b rule: writeAll.induct)
  case (1 t pos bs)
  show ?case
  proof (cases "bs = []")
    case True
    with 1(2) have "v = w" unfolding writeAll.simps[of t pos bs] by (simp add: run_simps)
    with True 1(4) show ?thesis by simp
  next
    case False
    with 1(2) obtain k u' where k: "returns (handleWrite t pos bs) w k u'" "k \<noteq> 0" "returns (writeAll t (pos + k) (drop k bs)) u' u v"
      unfolding writeAll.simps[of t pos bs] by (auto simp: run_simps split: if_splits)
    from handleWrite_value[OF k(1) 1(3)] have kl: "k \<le> length bs" "store u' = setContent t (writeAt pos (take k bs)) (store w)" by auto
    obtain c where c: "inodes (store u') t = Some c" "inodeContent c = inodeContent b @ take k bs"
      using setContent_inodes(1)[OF 1(4), of "writeAt pos (take k bs)"] 1(5) writeAt_end[of "inodeContent b"] unfolding kl(2) by auto
    have "calm u'" using confinedD(1)[OF confined_writing(4)[of t UNIV] 1(3) k(1)] by blast
    from 1(1)[OF False k(2) k(3) this c(1)] c(2) 1(5) kl(1) show ?thesis by auto
  qed
qed

lemma copyLoop_value:
  assumes "returns (copyLoop src t n pos) w p v" "calm w" "wfStore (store w)" "src \<noteq> t" "inodes (store w) src = Some a" "inodes (store w) t = Some b"
    "inodeContent b = take pos (inodeContent a)" "pos \<le> length (inodeContent a)"
  shows "(\<exists>b'. inodes (store v) t = Some b' \<and> inodeContent b' = take p (inodeContent a)) \<and> inodes (store v) src = Some a"
  using assms
proof (induction src t n pos arbitrary: w b rule: copyLoop.induct)
  case (1 src t n pos)
  let ?len = "min COPY_SCRATCH_BYTES (n - pos)"
  show ?case
  proof (cases "?len = 0")
    case True
    with 1(2) have "v = w \<and> p = pos" unfolding copyLoop.simps[of src t n pos] Let_def by (simp add: run_simps)
    then show ?thesis using 1 by auto
  next
    case r1: False
    with 1(2) obtain chunk u1 where r: "?len \<noteq> 0" "returns (handleRead src ?len pos) w chunk u1"
      "returns (if chunk = [] then pureIO pos else bindIO (writeAll t pos chunk) (\<lambda>_. copyLoop src t n (pos + length chunk))) u1 p v"
      unfolding copyLoop.simps[of src t n pos] Let_def if_not_P[OF r1] returns_bind(1)[of "handleRead src ?len pos"] by blast
    obtain l where ch: "chunk = take (limited l ?len) (drop pos (inodeContent a))" and st: "store u1 = store w"
      using handleRead_value[OF r(2) 1(3)] 1(6) by auto
    have c1: "calm u1" using confinedD(1)[OF conf.reading(4) 1(3) r(2)] by blast
    show ?thesis
    proof (cases "chunk = []")
      case True
      with r(3) st 1 show ?thesis by (auto simp: run_simps)
    next
      case ne: False
      with r(3) obtain u2 where w2: "returns (writeAll t pos chunk) u1 () u2" "returns (copyLoop src t n (pos + length chunk)) u2 p v"
        by (auto simp: run_simps)
      have lb: "length (inodeContent b) = pos" using 1(8,9) by simp
      obtain b' where b': "inodes (store u2) t = Some b'" "inodeContent b' = inodeContent b @ chunk"
        using writeAll_value[OF w2(1) c1 _ lb] 1(7) st by auto
      have c2: "calm u2" "leaves {} {t} (store u1) (store u2)" using confinedD(1)[OF confined_writeAll[of t "{t}" "{}"] c1 w2(1)] by auto
      then have wf: "wfStore (store u2)" "inodes (store u2) src = Some a" using 1(4-6) st by (auto simp: leaves_def)
      have e: "inodeContent b @ chunk = take (pos + length chunk) (inodeContent a)"
        using 1(8) unfolding ch by (auto simp: take_add min_def)
      have le: "pos + length chunk \<le> length (inodeContent a)" unfolding ch using 1(9) by simp
      show ?thesis using 1(1)[OF refl r(1) ne w2(2) c2(1) wf(1) 1(5) wf(2) b'(1)] b'(2) e le by simp
    qed
  qed
qed

lemma readsD:
  assumes "keeps (confined {} {}) m" "calm w" "wfStore (store w)" "returns m w x v"
  shows "calm v" "wfStore (store v)" "names (store v) = names (store w)" "inodes (store w) i = Some n \<Longrightarrow> inodes (store v) i = Some n"
  using confinedD(1)[OF assms(1,2,4)] assms(3) by (auto simp: leaves_def)

lemma copyOpenFile_value:
  assumes "returns (copyOpenFile src t n) w u v" "calm w" "wfStore (store w)" "src \<noteq> t" "inodes (store w) src = Some a" "inodes (store w) t = Some b"
    "inodeContent b = []"
  shows "calm v" "wfStore (store v)" "names (store v) = names (store w)" "inodes (store v) src = Some a"
    "\<exists>m. inodes (store v) t = Some m \<and> inodeContent m = take n (inodeContent a)"
proof -
  from assms(1) obtain u1 bs where r: "returns (copyLoop src t n 0) w n u1" "returns (handleRead src 1 n) u1 bs v"
    by (auto simp: copyOpenFile_def run_simps split: if_splits)
  have l: "calm u1" "leaves {} {t} (store w) (store u1)" using confinedD(1)[OF confined_copyLoop[of t "{t}" "{}"] assms(2) r(1)] by auto
  then have wf: "wfStore (store u1)" "names (store u1) = names (store w)" using assms(3) by (auto simp: leaves_def)
  note c = copyLoop_value[OF r(1) assms(2-6), simplified, OF assms(7)]
  note d = readsD[OF conf.reading(4) l(1) wf(1) r(2)]
  show "calm v" "wfStore (store v)" "names (store v) = names (store w)" "inodes (store v) src = Some a"
    "\<exists>m. inodes (store v) t = Some m \<and> inodeContent m = take n (inodeContent a)"
    using c d wf by auto
qed

lemma copyToTarget_value:
  assumes "returns (copyToTarget src final expected n) w i v" "calm w" "wfStore (store w)" "inodes (store w) expected = Some a"
  shows "names (store w) final = None" "names (store v) final = Some i" "length (inodeContent a) = n"
    "\<exists>m. inodes (store v) i = Some m \<and> inodeContent m = inodeContent a"
proof -
  from assms(1) obtain st u1 t u2 ts u3 u4 st' u5 ts' u6 where
    r: "returns (handleStat src) w st u1" "sameFileIdentity st expected" "returns (openExclusive final 384) u1 t u2"
      "returns (handleStat t) u2 ts u3" "returns (copyOpenFile src t n) u3 () u4" "returns (handleStat src) u4 st' u5" "statSize st' = n"
      "returns (handleStat t) u5 ts' u6" "returns (handleClose t) u6 () v" "i = statIdentity ts"
    by (auto simp: copyToTarget_def run_simps split: if_splits sum.splits)
  note d1 = readsD[OF conf.reading(3) assms(2,3) r(1)]
  have src: "src = expected" using handleStat_value[OF r(1) assms(2)] r(2) by (auto simp: sameFileIdentity_def statOf_def)
  note o = openExclusive_value[OF r(3) d1(1)]
  have l2: "calm u2" "leaves {final} {} (store u1) (store u2)" using confinedD(1)[OF confined_open[of final "{final}"] d1(1) r(3)] by auto
  have wf2: "wfStore (store u2)" "inodes (store u2) src = Some a" using l2 d1 assms(4) src by (auto simp: leaves_def)
  note d3 = readsD[OF conf.reading(3) l2(1) wf2(1) r(4)]
  have t: "i = t" using handleStat_value[OF r(4) l2(1)] r(10) by (auto simp: statOf_def)
  obtain b where b: "inodes (store u3) t = Some b" "inodeContent b = []" using o(4) d3(4) by auto
  have ne: "src \<noteq> t" using o(3)[OF d1(2)] d1(4)[of src a] assms(4) src by auto
  note c = copyOpenFile_value[OF r(5) d3(1,2) ne d3(4)[OF wf2(2)] b]
  note d5 = readsD[OF conf.reading(3) c(1,2) r(6)]
  note d6 = readsD[OF conf.reading(3) d5(1,2) r(8)]
  note d7 = readsD[OF conf.reading(5) d6(1,2) r(9)]
  show len: "length (inodeContent a) = n" using handleStat_value[OF r(6) c(1)] c(4) r(7) by (auto simp: statOf_def)
  show "names (store w) final = None" using o(1) d1(3) by simp
  show "names (store v) final = Some i" using o(2) d3(3) c(3) d5(3) d6(3) d7(3) t by simp
  show "\<exists>m. inodes (store v) i = Some m \<and> inodeContent m = inodeContent a"
    using c(5) d5(4) d6(4) d7(4) t len by fastforce
qed

lemma linkOrCopy_value:
  assumes "returns (linkOrCopy part final expected n) w i v" "calm w" "wfStore (store w)" "inodes (store w) expected = Some a"
  shows "names (store w) final = None" "names (store v) final = Some i" "length (inodeContent a) = n"
    "\<exists>m. inodes (store v) i = Some m \<and> inodeContent m = inodeContent a"
proof -
  let ?goal = "names (store w) final = None \<and> names (store v) final = Some i \<and> length (inodeContent a) = n
    \<and> (\<exists>m. inodes (store v) i = Some m \<and> inodeContent m = inodeContent a)"
  from assms(1) consider "returns (linkPartFileExclusive part final expected n) w i v"
    | e u where "throws (linkPartFileExclusive part final expected n) w e u" "shouldFallbackToExclusiveCopy e" "returns (copyPartFileExclusive part final expected n) u i v"
    by (auto simp: linkOrCopy_def run_simps split: if_splits)
  then have ?goal
  proof cases
    case 1
    then obtain u1 st where r: "returns (link part final) w () u1" "returns (lstat final) u1 st v" "sameFileIdentity st expected" "statSize st = n" "i = statIdentity st"
      by (auto simp: linkPartFileExclusive_def run_simps split: if_splits)
    obtain j where l: "names (store w) part = Some j" "names (store w) final = None" "store u1 = bindName final j (store w)"
      using link_value[OF r(1) assms(2)] by auto
    have c: "calm u1" using confinedD(1)[OF confined_writing(1)[of final "{final}"] assms(2) r(1)] by blast
    from lstat_value[OF r(2) c] r(3-5) l show ?thesis using assms(4) by (auto simp: bindName_def statOf_def sameFileIdentity_def)
  next
    case 2
    have lk: "keeps (confined ({final} \<union> Collect isQuarantine) {}) (linkPartFileExclusive part final expected n)"
      unfolding linkPartFileExclusive_def removePathIfPathIdentity_def by (intro conf.keeps_rules confined_calls) auto
    from confinedD(2)[OF lk assms(2) 2(1)] have u: "calm u" "wfStore (store u)" "inodes (store u) expected = Some a"
      using assms(3,4) by (auto simp: leaves_def)
    from 2(3) obtain src u1 u2 where r: "returns (openPartFileNoFollow part) u src u1" "returns (copyToTarget src final expected n) u1 i u2" "returns (handleClose src) u2 () v"
      by (auto simp: copyPartFileExclusive_def run_simps)
    note d1 = readsD[OF conf.keeps_identity(5) u(1,2) r(1)]
    note c = copyToTarget_value[OF r(2) d1(1,2) d1(4)[OF u(3)]]
    have cc: "keeps (confined ({final} \<union> Collect isQuarantine) {}) (copyToTarget src final expected n)" by (rule confined_copyToTarget) auto
    from confinedD(1)[OF cc d1(1) r(2)] have u2: "calm u2" "wfStore (store u2)" using d1(2) by (auto simp: leaves_def)
    note d3 = readsD[OF conf.reading(5) u2 r(3)]
    have free: "names (store w) final = None"
    proof (rule ccontr)
      assume taken: "names (store w) final \<noteq> None"
      have "\<not> returns (link part final) w x u'" for x u' using link_value[OF _ assms(2), of part final] taken by auto
      then have "throws (link part final) w e u" using 2(1) by (auto simp: linkPartFileExclusive_def run_simps)
      from fsCall_throws(1)[OF this[unfolded link_def] assms(2)] have "store u = store w" by (auto split: option.splits if_splits)
      then show False using taken c(1) d1(3) by simp
    qed
    then show ?thesis using c d3 by auto
  qed
  then show "names (store w) final = None" "names (store v) final = Some i" "length (inodeContent a) = n"
    "\<exists>m. inodes (store v) i = Some m \<and> inodeContent m = inodeContent a" by auto
qed

text \<open>A file that is already there stops both ways of publishing before anything is changed.\<close>

lemma taken_stays:
  assumes "calm w" "sameStore w v" "names (store w) p \<noteq> None" shows "calm v" "names (store v) p \<noteq> None" "store v = store w"
  using assms by (auto simp: sameStore_def)

lemma link_taken:
  assumes "names (store w) final \<noteq> None" "calm w" shows "\<exists>e v. throws (link part final) w e v \<and> sameStore w v"
proof -
  have "\<not> returns (link part final) w x v" for x v using link_value[OF _ assms(2), of part final] assms(1) by auto
  then obtain e v where t: "throws (link part final) w e v" using run_total[of "link part final" w] by blast
  from fsCall_throws[OF t[unfolded link_def] assms(2)] have "store v = store w" by (auto split: option.splits if_splits)
  with t fsCall_throws(2,3)[OF t[unfolded link_def] assms(2)] show ?thesis by (auto simp: sameStore_def)
qed

lemma openExclusive_taken:
  assumes "names (store w) final \<noteq> None" "calm w" shows "\<exists>e v. throws (openExclusive final mode) w e v \<and> sameStore w v"
proof -
  have "\<not> returns (openExclusive final mode) w x v" for x v using openExclusive_value(1)[OF _ assms(2), of final mode] assms(1) by auto
  then obtain e v where t: "throws (openExclusive final mode) w e v" using run_total[of "openExclusive final mode" w] by blast
  define u where "u = (case processUid w of None \<Rightarrow> 0 | Some u \<Rightarrow> u)"
  have t': "throws (openFile final CreateExclusive mode u) w e v" using t by (simp add: openExclusive_def throws_def u_def)
  from fsCall_throws[OF t'[unfolded openFile_def] assms(2)] have "store v = store w" by (auto split: prod.splits if_splits)
  with t fsCall_throws(2,3)[OF t'[unfolded openFile_def] assms(2)] show ?thesis by (auto simp: sameStore_def)
qed

lemma sameD: "keeps sameStore m \<Longrightarrow> returns m w x v \<Longrightarrow> sameStore w v" "keeps sameStore m \<Longrightarrow> throws m w e v \<Longrightarrow> sameStore w v"
  by (auto simp: keeps_def returns_def throws_def dest: spec[of _ w])

text \<open>\<open>stopped m\<close>: with a file at \<open>final\<close> the computation throws and leaves the store as it was.\<close>

definition stopped :: "jsstring \<Rightarrow> 'a fsio \<Rightarrow> bool" where
  "stopped final m \<longleftrightarrow> (\<forall>w. calm w \<longrightarrow> names (store w) final \<noteq> None \<longrightarrow> (\<exists>e v. throws m w e v \<and> sameStore w v))"

lemma stopped_first: "stopped final m \<Longrightarrow> stopped final (bindIO m f)"
  by (fastforce simp: stopped_def run_simps)

lemma stopped_raise: "stopped final (raiseIO e)"
  using same.refl by (auto simp: stopped_def run_simps)

lemma stopped_after:
  assumes "keeps sameStore m" "\<And>x. stopped final (f x)" shows "stopped final (bindIO m f)"
  unfolding stopped_def
proof (intro allI impI)
  fix w assume w: "calm w" "names (store w) final \<noteq> None"
  from run_total[of m w] show "\<exists>e v. throws (bindIO m f) w e v \<and> sameStore w v"
  proof
    assume "\<exists>x v. returns m w x v"
    then obtain x v where r: "returns m w x v" by blast
    then have s: "sameStore w v" using sameD(1)[OF assms(1)] by blast
    note t = taken_stays[OF w(1) s w(2)]
    obtain e u where "throws (f x) v e u" "sameStore v u" using assms(2)[of x] t(1,2) unfolding stopped_def by blast
    then show ?thesis using r same.trans[OF s] by (auto simp: run_simps)
  next
    assume "\<exists>e v. throws m w e v"
    then show ?thesis unfolding run_simps using sameD(2)[OF assms(1)] by blast
  qed
qed

lemma stopped_handled:
  assumes "stopped final m" "\<And>e. stopped final (h e)" shows "stopped final (catchIO m h)"
  unfolding stopped_def
proof (intro allI impI)
  fix w assume w: "calm w" "names (store w) final \<noteq> None"
  with assms(1) obtain e v where t: "throws m w e v" "sameStore w v" unfolding stopped_def by blast
  note u = taken_stays[OF w(1) t(2) w(2)]
  obtain e' u where "throws (h e) v e' u" "sameStore v u" using assms(2)[of e] u(1,2) unfolding stopped_def by blast
  then show "\<exists>e v. throws (catchIO m h) w e v \<and> sameStore w v" using t same.trans[OF t(2)] by (auto simp: run_simps)
qed

lemma stopped_finally:
  assumes "stopped final m" "keeps sameStore f" shows "stopped final (finallyIO m f)"
  unfolding stopped_def
proof (intro allI impI)
  fix w assume w: "calm w" "names (store w) final \<noteq> None"
  with assms(1) obtain e v where t: "throws m w e v" "sameStore w v" unfolding stopped_def by blast
  from run_total[of f v] show "\<exists>e v. throws (finallyIO m f) w e v \<and> sameStore w v"
  proof
    assume "\<exists>x u. returns f v x u"
    then obtain u where r: "returns f v () u" by auto
    then show ?thesis unfolding run_simps using t same.trans[OF t(2) sameD(1)[OF assms(2) r]] by blast
  next
    assume "\<exists>e u. throws f v e u"
    then obtain e' u where r: "throws f v e' u" by blast
    then show ?thesis unfolding run_simps using t same.trans[OF t(2) sameD(2)[OF assms(2) r]] by blast
  qed
qed

lemma stopped_linkOrCopy: "stopped final (linkOrCopy part final i n)"
proof -
  have l: "stopped final (link part final)" "stopped final (openExclusive final mode)" for mode
    using link_taken openExclusive_taken unfolding stopped_def by blast+
  have "stopped final (copyToTarget src final i n)" for src
    unfolding copyToTarget_def
    by (rule stopped_after[OF same.reading(3)]) (auto intro!: stopped_raise stopped_first[OF l(2)])
  then have "stopped final (copyPartFileExclusive part final i n)"
    unfolding copyPartFileExclusive_def by (intro stopped_after stopped_finally confined_calls)
  then show ?thesis
    unfolding linkOrCopy_def linkPartFileExclusive_def by (auto intro!: stopped_handled stopped_first[OF l(1)] stopped_raise)
qed

text \<open>C15: publishing never replaces a file: when something already has the final name, it throws,
  whatever calls fail on the way, and every name, file and link is as it was before.\<close>

theorem publish_never_replaces:
  assumes "calm w" "names (store w) final \<noteq> None"
  shows "\<exists>e v. throws (publishPartFile (Str part) (Str final) i n d priv) w e v \<and> store v = store w"
proof -
  have "stopped final (publishPartFile (Str part) (Str final) i n d priv)"
  proof (cases rule: publish_cases[of part final i n d priv])
    case 2
    show ?thesis unfolding 2 publishChecked_def by (intro stopped_after stopped_first[OF stopped_linkOrCopy] confined_calls)
  qed (simp add: stopped_raise)
  then show ?thesis using assms by (fastforce simp: stopped_def sameStore_def)
qed

text \<open>A receive directory with a complete partial file, where hard links fail, and writes move one
  byte at a time.\<close>

definition sampleIdentity :: "nat \<Rightarrow> FileIdentity" where
  "sampleIdentity n = \<lparr>dev = 1, ino = n\<rparr>"

definition sampleStore :: Store where
  "sampleStore = \<lparr>
     names = (\<lambda>_. None)(js ''/o'' \<mapsto> sampleIdentity 2, js ''/o/a.part'' \<mapsto> sampleIdentity 3, js ''/o/b'' \<mapsto> sampleIdentity 4),
     inodes = (\<lambda>_. None)(
       sampleIdentity 2 \<mapsto> \<lparr>inodeKind = Directory, inodeContent = [], inodeMode = 448, inodeUid = 7, inodeStamp = 0\<rparr>,
       sampleIdentity 3 \<mapsto> \<lparr>inodeKind = RegularFile, inodeContent = [1, 2], inodeMode = 384, inodeUid = 7, inodeStamp = 0\<rparr>,
       sampleIdentity 4 \<mapsto> \<lparr>inodeKind = RegularFile, inodeContent = [9], inodeMode = 384, inodeUid = 7, inodeStamp = 0\<rparr>),
     nextInode = 5, deviceId = 1, links = (\<lambda>_. 1)\<rparr>"

definition sampleTick :: "string option \<Rightarrow> Tick" where
  "sampleTick code = \<lparr>tickInterfere = id, tickFault = code, tickLimit = Some 1\<rparr>"

definition sampleFs :: Fs where
  "sampleFs = \<lparr>store = sampleStore, ticks = map sampleTick [None, None, Some ''EXDEV''], randomHex = [js ''00ff''], randomSecrets = [],
     processPid = 17, processUid = Some 7, processCwd = js ''/o'', win32 = False\<rparr>"

lemma sample_calm: "calm sampleFs" "wfStore (store sampleFs)"
  by (auto simp: calm_def sampleFs_def sampleTick_def wfStore_def sampleStore_def sampleIdentity_def)

theorem publish_never_replaces_witness:
  "\<exists>e v. throws (publishPartFile (Str (js ''/o/a.part'')) (Str (js ''/o/b'')) (sampleIdentity 3) 2 (sampleIdentity 2) False) sampleFs e v
     \<and> store v = store sampleFs"
proof -
  have "names (store sampleFs) (js ''/o/b'') \<noteq> None" by (simp add: sampleFs_def sampleStore_def)
  from publish_never_replaces[OF sample_calm(1) this] show ?thesis .
qed

lemma publish_leaves:
  assumes r: "returns (publishPartFile (Str part) (Str final) i n d priv) w f v" and c: "calm w" and wf: "wfStore (store w)"
    and final: "final \<noteq> part" "\<not> isQuarantine final"
  shows "names (store w) final = None" "names (store v) final = Some f"
    "\<exists>a m. names (store w) part = Some i \<and> inodes (store w) i = Some a \<and> inodes (store v) f = Some m
      \<and> inodeContent m = inodeContent a \<and> length (inodeContent a) = n"
    "p \<noteq> part \<Longrightarrow> p \<noteq> final \<Longrightarrow> \<not> isQuarantine p \<Longrightarrow> names (store v) p = names (store w) p"
proof -
  let ?N = "{part, final} \<union> Collect isQuarantine"
  have "keeps (confined ?N {}) (publishPartFile (Str part) (Str final) i n d priv)" by (rule confined_publish) auto
  from confinedD(1)[OF this c r] wf show "p \<noteq> part \<Longrightarrow> p \<noteq> final \<Longrightarrow> \<not> isQuarantine p \<Longrightarrow> names (store v) p = names (store w) p"
    by (auto simp: leaves_def)
  have "publishPartFile (Str part) (Str final) i n d priv = publishChecked part final i n d priv"
    using r by (cases rule: publish_cases[of part final i n d priv]) (auto simp: run_simps)
  with r obtain u1 u2 u3 u4 u5 where s: "returns (assertDirectoryIdentity (pathDirname final) d priv) w () u1"
    "returns (assertPartFileIdentity part i n) u1 () u2" "returns (linkOrCopy part final i n) u2 f u3"
    "returns (assertDirectoryIdentity (pathDirname final) d priv) u3 () u4" "returns (assertPublishedFileIdentity final f n) u4 () u5"
    "returns (removePathIfIdentity part i) u5 () v"
    by (auto simp: publishChecked_def run_simps)
  note d1 = readsD[OF conf.keeps_identity(4) c wf s(1)]
  note d2 = readsD[OF conf.keeps_identity(3) d1(1,2) s(2)]
  from sameD(1)[OF same.keeps_identity(4) s(1)] c have st1: "store u1 = store w" by (simp add: sameStore_def)
  obtain st u where l: "returns (lstat part) u1 st u" "statIdentity st = i"
    using s(2) by (auto simp: assertPartFileIdentity_def run_simps sameFileIdentity_def split: if_splits)
  from lstat_value(1)[OF l(1) d1(1)] l(2) st1 obtain a where a: "names (store w) part = Some i" "inodes (store w) i = Some a"
    by (auto simp: statOf_def)
  note k = linkOrCopy_value[OF s(3) d2(1,2) d2(4)[OF d1(4)[OF a(2)]]]
  have "keeps (confined ?N {}) (linkOrCopy part final i n)" by (rule confined_linkOrCopy) auto
  from confinedD(1)[OF this d2(1) s(3)] d2(2) have u3: "calm u3" "wfStore (store u3)" by (auto simp: leaves_def)
  note d4 = readsD[OF conf.keeps_identity(4) u3 s(4)]
  note d5 = readsD[OF conf.keeps_identity(2) d4(1,2) s(5)]
  have "keeps (confined ({part} \<union> Collect isQuarantine) {}) (removePathIfIdentity part i)" by (rule confined_remove) auto
  from confinedD(1)[OF this d5(1) s(6)] d5(2) final have last: "names (store v) final = names (store u5) final"
    "\<And>j m. inodes (store u5) j = Some m \<Longrightarrow> inodes (store v) j = Some m" by (auto simp: leaves_def)
  show "names (store w) final = None" using k(1) d1(3) d2(3) by simp
  show "names (store v) final = Some f" using k(2) last(1) d4(3) d5(3) by simp
  show "\<exists>a m. names (store w) part = Some i \<and> inodes (store w) i = Some a \<and> inodes (store v) f = Some m
      \<and> inodeContent m = inodeContent a \<and> length (inodeContent a) = n"
    using a k(3,4) last(2) d4(4) d5(4) by blast
qed

text \<open>C14: when publishing returns, the final name was free, it now names a file with exactly the
  content of the partial file, of the declared length, and every other name is untouched.\<close>

theorem publish_content:
  assumes "returns (publishPartFile (Str part) (Str final) i n d priv) w f v" "calm w" "wfStore (store w)" "final \<noteq> part" "\<not> isQuarantine final"
  shows "names (store w) final = None \<and> names (store v) final = Some f
    \<and> (\<exists>a m. names (store w) part = Some i \<and> inodes (store w) i = Some a \<and> inodes (store v) f = Some m
         \<and> inodeContent m = inodeContent a \<and> length (inodeContent a) = n)
    \<and> (\<forall>p. p \<noteq> part \<and> p \<noteq> final \<and> \<not> isQuarantine p \<longrightarrow> names (store v) p = names (store w) p)"
  using publish_leaves[OF assms] by blast

lemmas path_eval = publishPathInput_def utf8ByteLengthExceeds_iff utf8ByteLength_ascii MAX_PUBLISH_PATH_BYTES_def hasControlOrFormat_def codePoints_def
  js_def isHighSurrogate_def isControlOrFormat_def isCc_def isCf_def cfRanges_def trim_def isSpace_def

lemma sample_paths:
  "publishPathInput (Str (js ''/o/a.part'')) ''Partial'' = ok (js ''/o/a.part'')" "publishPathInput (Str (js ''/o/c'')) ''Final'' = ok (js ''/o/c'')"
  "pathDirname (js ''/o/c'') = js ''/o''"
  "pathJoin (pathDirname (js ''/o/a.part'')) (js ''.ff-delete-'' @ dec 17 @ js ''-'' @ js ''00ff'' @ js ''.tmp'') = js ''/o/.ff-delete-17-00ff.tmp''"
  by (simp add: path_eval, simp add: path_eval, code_simp, code_simp)

lemmas publish_eval = publishPartFile_def assertDirectoryIdentity_def assertPartFileIdentity_def assertPrivatePartialStat_def unlessWindows_def
  assertPrivateStat_def assertOwnedByCurrentUser_def linkOrCopy_def linkPartFileExclusive_def copyPartFileExclusive_def openPartFileNoFollow_def
  copyToTarget_def copyOpenFile_def copyLoop.simps writeAll.simps assertPublishedFileIdentity_def removePathIfIdentity_def
  quarantineRemovePathIfIdentity_def cleanupQuarantinePath_def

theorem publish_content_witness:
  "let run = publishPartFile (Str (js ''/o/a.part'')) (Str (js ''/o/c'')) (sampleIdentity 3) 2 (sampleIdentity 2) False sampleFs
   in fst run = Inr (sampleIdentity 5) \<and> map_option inodeContent (inodes (store (snd run)) (sampleIdentity 5)) = Some [1, 2]
     \<and> names (store (snd run)) (js ''/o/b'') = Some (sampleIdentity 4)"
proof -
  let ?m = "publishPartFile (Str (js ''/o/a.part'')) (Str (js ''/o/c'')) (sampleIdentity 3) 2 (sampleIdentity 2) False"
  have f: "fst (?m sampleFs) = Inr (sampleIdentity 5)"
    by (simp add: publish_eval[THEN fun_cong] sample_paths quarantine_first followLinks_step eval_rules fs_eval COPY_SCRATCH_BYTES_def MAX_SAFE_INTEGER_def
      LINK_FALLBACK_ERROR_CODES_def groupOrOtherBits_def sameFileIdentity_def sampleFs_def sampleStore_def sampleTick_def sampleIdentity_def
      fileIdentityInput_def publishExpectedSizeInput_def cong: eval_congs fsCall_cong)
  then have r: "returns ?m sampleFs (sampleIdentity 5) (snd (?m sampleFs))" by (simp add: returns_def prod_eq_iff)
  have n: "js ''/o/c'' \<noteq> js ''/o/a.part''" "js ''/o/b'' \<noteq> js ''/o/a.part''" "js ''/o/b'' \<noteq> js ''/o/c''" by code_simp+
  have q: "\<not> isQuarantine (js ''/o/c'')" "\<not> isQuarantine (js ''/o/b'')" using quarantine_last[of "js ''/o/c''"] quarantine_last[of "js ''/o/b''"] by (auto simp: js_def)
  note p = publish_content[OF r sample_calm n(1) q(1)]
  show ?thesis
    unfolding Let_def using f p n(2,3) q(2) by (auto simp: sampleFs_def sampleStore_def sampleIdentity_def js_def)
qed

end
