(* ===== verification/Receiver.thy ===== *)
theory Receiver
  imports Publish Chunks
begin

text \<open>
  The receiving side of a transfer, \<open>receiveFiles\<close> of \<open>src/src/cli/transfer.ts\<close>. The local
  variables of the function are the record \<open>Receiver\<close>. Tasks of the receive queue run one after the
  other; everything else that may happen (channel events, new messages, the idle timer, an error of
  a write stream, and the end of \<open>receiveFiles\<close> itself once its promise is settled) happens between
  tasks or while a task waits, as \<open>ReceiveEvent\<close>s: \<open>rxEvents\<close> says which of them happen at each
  \<open>await\<close>. Printing of progress is left out, its counters are kept.
\<close>

section \<open>State\<close>

record WriteStream =
  wsHandle :: FileHandle
  wsPos :: nat
  wsClosed :: bool

record ReceiveState =
  rsId :: nat
  rsName :: jsstring
  rsSize :: nat
  rsFinalPath :: jsstring
  rsPartPath :: jsstring
  rsPart :: FileIdentity
  rsDir :: FileIdentity
  rsPublished :: "FileIdentity option"
  rsStream :: WriteStream
  rsHash :: Sha256
  rsBytes :: nat
  rsExpectedSha256 :: "jsstring option"
  rsExpectedSeq :: nat
  rsDone :: bool
  rsFinalizing :: bool

datatype ReceiveTask = ControlTask jsval | BulkTask jsval

datatype ReceiveEvent =
    ControlArrives jsval | BulkArrives jsval | ControlClosed | BulkClosed | ChannelErrored | IdleTimeout | StreamErrored jsError | MainResumes

record ReceiveSetup =
  setCrypto :: Crypto
  setNumbers :: NumberFormat
  setKeys :: "SessionKeys option"
  setOutDir :: jsval
  setAccepted :: "jsval option"
  setResume :: bool
  setOpaque :: bool
  setPrivate :: bool

text \<open>\<open>rxOutbox\<close>: what was sent on the control channel, each message with its sealed text.
  \<open>rxOutcome\<close> is the promise \<open>done\<close>, \<open>rxResult\<close> the result of \<open>receiveFiles\<close>. The first task of
  \<open>rxQueue\<close> is the one that runs. The receiver sends on the control channel only, so of the two
  channels only the state of that one is kept: once it is closed, sending throws. Random bytes are drawn from \<open>rxRandom\<close>; \<open>rxSendFaults\<close> says which
  calls of \<open>send\<close> throw.\<close>

record Receiver =
  rxFs :: Fs
  rxFiles :: "ReceiveState list"
  rxManifest :: "ControlMessage option"
  rxExpected :: "TransferFile list"
  rxTotalBytes :: nat
  rxTransferred :: nat
  rxFailed :: bool
  rxCompleted :: bool
  rxAllDoneSeen :: bool
  rxIdleTimer :: bool
  rxAttached :: bool
  rxControlOpen :: bool
  rxOutbox :: "(ControlMessage \<times> jsstring) list"
  rxOutcome :: "(jsError + unit) option"
  rxResult :: "(jsError + unit) option"
  rxQueue :: "ReceiveTask list"
  rxQueuedBytes :: nat
  rxQueuedMessages :: nat
  rxEvents :: "ReceiveEvent list list"
  rxRandom :: "nat \<Rightarrow> bytes"
  rxDrawn :: nat
  rxSendFaults :: "bool list"

type_synonym 'a rxio = "(Receiver, 'a) io"

definition onFs :: "'a fsio \<Rightarrow> 'a rxio" where
  "onFs m = zoomIO rxFs rxFs_update m"

definition showNat :: "nat \<Rightarrow> string" where
  "showNat n = map char_of (dec n)"

definition showName :: "jsstring \<Rightarrow> string" where
  "showName s = map char_of s"

text \<open>The entry of \<open>files\<close> with an id; the entries are the objects \<open>state\<close> of the source, which
  are never removed from the map.\<close>

definition findFile :: "nat \<Rightarrow> Receiver \<Rightarrow> ReceiveState option" where
  "findFile fid w = find (\<lambda>s. rsId s = fid) (rxFiles w)"

definition withFile :: "nat \<Rightarrow> (ReceiveState \<Rightarrow> unit rxio) \<Rightarrow> unit rxio" where
  "withFile fid f = (\<lambda>w. case findFile fid w of None \<Rightarrow> (Inr (), w) | Some s \<Rightarrow> f s w)"

definition updFile :: "nat \<Rightarrow> (ReceiveState \<Rightarrow> ReceiveState) \<Rightarrow> unit rxio" where
  "updFile fid g = modifyIO (rxFiles_update (map (\<lambda>s. if rsId s = fid then g s else s)))"

section \<open>Sending\<close>

definition sealMessage :: "ReceiveSetup \<Rightarrow> ControlMessage \<Rightarrow> jsstring rxio" where
  "sealMessage S m =
     bindIO (readIO (\<lambda>w. rxRandom w (rxDrawn w))) (\<lambda>nonce.
     bindIO (modifyIO (rxDrawn_update Suc)) (\<lambda>_.
       liftRes (sealControl (setCrypto S) (setNumbers S) nonce (setKeys S) (controlObject m))))"

definition channelSend :: "ControlMessage \<Rightarrow> jsstring \<Rightarrow> unit rxio" where
  "channelSend m text =
     bindIO (readIO (\<lambda>w. \<not> rxControlOpen w \<or> (case rxSendFaults w of [] \<Rightarrow> False | b # _ \<Rightarrow> b))) (\<lambda>fault.
     bindIO (modifyIO (rxSendFaults_update tl)) (\<lambda>_.
       if fault then failIO ''InvalidStateError'' else modifyIO (rxOutbox_update (\<lambda>out. out @ [(m, text)]))))"

definition throwIfReceiveStopped :: "unit rxio" where
  "throwIfReceiveStopped = bindIO (readIO (\<lambda>w. (rxFailed w, rxCompleted w))) (\<lambda>(failed, completed).
     if failed then failIO ''Transfer stopped during local receive work.''
     else if completed then failIO ''Transfer completed during local receive work.''
     else pureIO ())"

section \<open>Failure and clean-up\<close>

definition clearReceiveTimeout :: "unit rxio" where
  "clearReceiveTimeout = modifyIO (rxIdleTimer_update (\<lambda>_. False))"

definition detachChannels :: "unit rxio" where
  "detachChannels = modifyIO (rxAttached_update (\<lambda>_. False))"

definition closeChannels :: "unit rxio" where
  "closeChannels = modifyIO (rxControlOpen_update (\<lambda>_. False))"

text \<open>Settling \<open>done\<close>: only the first settlement counts.\<close>

definition settleDone :: "jsError + unit \<Rightarrow> unit rxio" where
  "settleDone r = modifyIO (rxOutcome_update (\<lambda>settled. case settled of None \<Rightarrow> Some r | Some _ \<Rightarrow> settled))"

definition errorText :: "jsError \<Rightarrow> string" where
  "errorText e = (case e of NodeError code \<Rightarrow> code | JsError msg \<Rightarrow> msg)"

definition failTransfer :: "ReceiveSetup \<Rightarrow> jsError \<Rightarrow> unit rxio" where
  "failTransfer S err = bindIO (readIO (\<lambda>w. rxFailed w \<or> rxCompleted w)) (\<lambda>stopped.
     if stopped then pureIO ()
     else
       bindIO (modifyIO (rxFailed_update (\<lambda>_. True))) (\<lambda>_.
       bindIO clearReceiveTimeout (\<lambda>_.
       bindIO detachChannels (\<lambda>_.
       bindIO (ignoreIO (bindIO (sealMessage S (abortControlMessage (errorText err))) (channelSend (abortControlMessage (errorText err))))) (\<lambda>_.
       bindIO closeChannels (\<lambda>_.
         settleDone (Inl err)))))))"

text \<open>\<open>stream.destroy()\<close>: an error of closing is an \<open>error\<close> event of the stream.\<close>

definition closeReceiveStream :: "ReceiveSetup \<Rightarrow> nat \<Rightarrow> unit rxio" where
  "closeReceiveStream S fid = withFile fid (\<lambda>s.
     if wsClosed (rsStream s) then pureIO ()
     else bindIO (updFile fid (rsStream_update (wsClosed_update (\<lambda>_. True)))) (\<lambda>_.
       catchIO (onFs (handleClose (wsHandle (rsStream s)))) (failTransfer S)))"

definition removePublishedFile :: "nat \<Rightarrow> unit rxio" where
  "removePublishedFile fid = withFile fid (\<lambda>s.
     case rsPublished s of
       None \<Rightarrow> pureIO ()
     | Some i \<Rightarrow> bindIO (onFs (removePathIfIdentity (rsFinalPath s) i)) (\<lambda>_. updFile fid (rsPublished_update (\<lambda>_. None))))"

definition cleanupPublishedAfterFailure :: "nat \<Rightarrow> unit rxio" where
  "cleanupPublishedAfterFailure fid = ignoreIO (removePublishedFile fid)"

definition discardPartialFile :: "ReceiveSetup \<Rightarrow> nat \<Rightarrow> bool \<Rightarrow> unit rxio" where
  "discardPartialFile S fid keepPartial =
     bindIO (removePublishedFile fid) (\<lambda>_.
     bindIO (closeReceiveStream S fid) (\<lambda>_.
       if keepPartial then pureIO ()
       else withFile fid (\<lambda>s. onFs (removePathIfIdentity (rsPartPath s) (rsPart s)))))"

definition cleanupFile :: "ReceiveSetup \<Rightarrow> bool \<Rightarrow> nat \<Rightarrow> unit rxio" where
  "cleanupFile S doneError fid = withFile fid (\<lambda>s.
     bindIO (readIO rxCompleted) (\<lambda>completed.
       if rsDone s \<and> rsPublished s \<noteq> None \<and> doneError \<and> \<not> completed then removePublishedFile fid
       else if \<not> rsDone s then discardPartialFile S fid (setResume S)
       else pureIO ()))"

text \<open>The loop of the \<open>finally\<close> block, with the first error of the clean-up.\<close>

fun cleanupFiles :: "ReceiveSetup \<Rightarrow> bool \<Rightarrow> nat list \<Rightarrow> jsError option \<Rightarrow> (jsError option) rxio" where
  "cleanupFiles S doneError [] firstError = pureIO firstError"
| "cleanupFiles S doneError (fid # rest) firstError =
     branchIO (cleanupFile S doneError fid)
       (\<lambda>e. cleanupFiles S doneError rest (case firstError of None \<Rightarrow> Some e | Some _ \<Rightarrow> firstError))
       (\<lambda>_. cleanupFiles S doneError rest firstError)"

definition finishReceive :: "ReceiveSetup \<Rightarrow> unit rxio" where
  "finishReceive S = bindIO (readIO (\<lambda>w. (rxOutcome w, rxResult w, map rsId (rxFiles w)))) (\<lambda>(settled, result, ids).
     case (settled, result) of
       (Some r, None) \<Rightarrow>
         bindIO clearReceiveTimeout (\<lambda>_.
         bindIO detachChannels (\<lambda>_.
         bindIO (cleanupFiles S (r \<noteq> Inr ()) ids None) (\<lambda>cleanupError.
           modifyIO (rxResult_update (\<lambda>_. Some (case (r, cleanupError) of (Inr (), Some e) \<Rightarrow> Inl e | _ \<Rightarrow> r))))))
     | _ \<Rightarrow> pureIO ())"

section \<open>The receive queue\<close>

fun receiveQueueByteLength :: "jsval \<Rightarrow> nat" where
  "receiveQueueByteLength (Str s) = utf8ByteLength s"
| "receiveQueueByteLength (ArrayBuf True bs) = length bs"
| "receiveQueueByteLength (Uint8Array True bs) = length bs"
| "receiveQueueByteLength (Obj (BlobPrototype sz) ps) = (case sz of Some n \<Rightarrow> n | None \<Rightarrow> RECEIVE_QUEUE_MAX_BYTES + 1)"
| "receiveQueueByteLength _ = RECEIVE_QUEUE_MAX_BYTES + 1"

fun taskData :: "ReceiveTask \<Rightarrow> jsval" where
  "taskData (ControlTask d) = d"
| "taskData (BulkTask d) = d"

definition enqueueReceiveTask :: "ReceiveSetup \<Rightarrow> ReceiveTask \<Rightarrow> unit rxio" where
  "enqueueReceiveTask S task =
     bindIO (readIO (\<lambda>w. (rxFailed w \<or> rxCompleted w, rxQueuedBytes w, rxQueuedMessages w))) (\<lambda>(stopped, bytes, messages).
     let byteLength = receiveQueueByteLength (taskData task) in
     if stopped then pureIO ()
     else if bytes + byteLength > RECEIVE_QUEUE_MAX_BYTES \<or> messages + 1 > RECEIVE_QUEUE_MAX_MESSAGES
     then failTransfer S (JsError ''Receive queue backpressure exceeded.'')
     else modifyIO (\<lambda>w. w\<lparr>rxQueuedBytes := bytes + byteLength, rxQueuedMessages := messages + 1, rxQueue := rxQueue w @ [task]\<rparr>))"

section \<open>Events\<close>

definition whenAttached :: "unit rxio \<Rightarrow> unit rxio" where
  "whenAttached m = bindIO (readIO rxAttached) (\<lambda>attached. whenIO attached m)"

fun onEvent :: "ReceiveSetup \<Rightarrow> ReceiveEvent \<Rightarrow> unit rxio" where
  "onEvent S (ControlArrives d) = whenAttached (enqueueReceiveTask S (ControlTask d))"
| "onEvent S (BulkArrives d) = whenAttached (enqueueReceiveTask S (BulkTask d))"
| "onEvent S ControlClosed =
     bindIO (modifyIO (rxControlOpen_update (\<lambda>_. False))) (\<lambda>_. whenAttached (failTransfer S (JsError ''Transfer channel closed before completion.'')))"
| "onEvent S BulkClosed = whenAttached (failTransfer S (JsError ''Transfer channel closed before completion.''))"
| "onEvent S ChannelErrored = whenAttached (failTransfer S (JsError ''Transfer channel errored before completion.''))"
| "onEvent S IdleTimeout = bindIO (readIO rxIdleTimer) (\<lambda>armed.
     whenIO armed (bindIO clearReceiveTimeout (\<lambda>_. failTransfer S (JsError ''Transfer timed out waiting for peer data.''))))"
| "onEvent S (StreamErrored e) = bindIO (readIO (\<lambda>w. rxFiles w \<noteq> [])) (\<lambda>streams. whenIO streams (failTransfer S e))"
| "onEvent S MainResumes = finishReceive S"

fun onEvents :: "ReceiveSetup \<Rightarrow> ReceiveEvent list \<Rightarrow> unit rxio" where
  "onEvents S [] = pureIO ()"
| "onEvents S (e # es) = bindIO (onEvent S e) (\<lambda>_. onEvents S es)"

text \<open>What happens while the code waits.\<close>

definition awaitEvents :: "ReceiveSetup \<Rightarrow> unit rxio" where
  "awaitEvents S = bindIO (readIO (\<lambda>w. case rxEvents w of [] \<Rightarrow> [] | es # _ \<Rightarrow> es)) (\<lambda>es.
     bindIO (modifyIO (rxEvents_update tl)) (\<lambda>_. onEvents S es))"

definition awaiting :: "ReceiveSetup \<Rightarrow> 'a rxio \<Rightarrow> 'a rxio" where
  "awaiting S m = finallyIO m (awaitEvents S)"

definition sendControl :: "ReceiveSetup \<Rightarrow> ControlMessage \<Rightarrow> unit rxio" where
  "sendControl S m = bindIO (awaiting S (sealMessage S m)) (\<lambda>text. bindIO throwIfReceiveStopped (\<lambda>_. channelSend m text))"

section \<open>Writing and finalizing\<close>

definition streamDestroyed :: jsError where
  "streamDestroyed = NodeError ''ERR_STREAM_DESTROYED''"

definition writeStreamChunk :: "nat \<Rightarrow> bytes \<Rightarrow> unit rxio" where
  "writeStreamChunk fid chunk = withFile fid (\<lambda>s.
     if wsClosed (rsStream s) then raiseIO streamDestroyed
     else bindIO (onFs (streamWrite (wsHandle (rsStream s)) (wsPos (rsStream s)) chunk)) (\<lambda>_.
       updFile fid (rsStream_update (wsPos_update (\<lambda>p. p + length chunk)))))"

definition endStream :: "nat \<Rightarrow> unit rxio" where
  "endStream fid = withFile fid (\<lambda>s. if wsClosed (rsStream s) then raiseIO streamDestroyed else pureIO ())"

definition restartReceiveState :: "ReceiveSetup \<Rightarrow> nat \<Rightarrow> unit rxio" where
  "restartReceiveState S fid =
     bindIO (closeReceiveStream S fid) (\<lambda>_. withFile fid (\<lambda>s.
     bindIO (onFs (openReadWrite (rsPartPath s))) (\<lambda>h.
       catchIO
         (bindIO (onFs (bindIO (handleStat h) (\<lambda>st.
             if \<not> sameFileIdentity st (rsPart s) then failIO (''Resume partial changed before restart for '' @ showName (rsName s) @ ''.'')
             else bindIO (assertSingleLink st ''Resume partial'') (\<lambda>_. bindIO (assertPrivatePartialStat st) (\<lambda>_. handleTruncate h 0))))) (\<lambda>_.
           updFile fid (\<lambda>s. s\<lparr>rsStream := \<lparr>wsHandle = h, wsPos = 0, wsClosed = False\<rparr>, rsHash := [], rsBytes := 0, rsExpectedSeq := 0\<rparr>)))
         (\<lambda>e. bindIO (ignoreIO (onFs (handleClose h))) (\<lambda>_. raiseIO e)))))"

definition checkStillRunning :: "ReceiveSetup \<Rightarrow> nat \<Rightarrow> unit rxio" where
  "checkStillRunning S fid = catchIO throwIfReceiveStopped (\<lambda>e. bindIO (awaiting S (cleanupPublishedAfterFailure fid)) (\<lambda>_. raiseIO e))"

definition removePart :: "ReceiveSetup \<Rightarrow> ReceiveState \<Rightarrow> string \<Rightarrow> unit rxio" where
  "removePart S s msg = bindIO (awaiting S (onFs (removePathIfIdentity (rsPartPath s) (rsPart s)))) (\<lambda>_. failIO (msg @ showName (rsName s) @ ''.''))"

text \<open>From the publication of the partial file on.\<close>

definition publishReceived :: "ReceiveSetup \<Rightarrow> ReceiveState \<Rightarrow> jsstring \<Rightarrow> unit rxio" where
  "publishReceived S s fileOk =
     bindIO (awaiting S (onFs (publishPartFile (Str (rsPartPath s)) (Str (rsFinalPath s)) (rsPart s) (rsSize s) (rsDir s) (setPrivate S)))) (\<lambda>published.
     bindIO (updFile (rsId s) (rsPublished_update (\<lambda>_. Some published))) (\<lambda>_.
     bindIO (checkStillRunning S (rsId s)) (\<lambda>_.
     bindIO (awaiting S (onFs (digestFilePath (setCrypto S) (rsFinalPath s) (Some published) (rsSize s)))) (\<lambda>digest.
     bindIO (checkStillRunning S (rsId s)) (\<lambda>_.
       if Some digest \<noteq> rsExpectedSha256 s
       then bindIO (awaiting S (cleanupPublishedAfterFailure (rsId s))) (\<lambda>_. failIO (''Published file hash mismatch for '' @ showName (rsName s) @ ''.''))
       else
         bindIO (checkStillRunning S (rsId s)) (\<lambda>_.
         bindIO (channelSend (FileOk (rsId s)) fileOk) (\<lambda>_.
           updFile (rsId s) (rsDone_update (\<lambda>_. True)))))))))"

definition finalizeFile :: "ReceiveSetup \<Rightarrow> nat \<Rightarrow> unit rxio" where
  "finalizeFile S fid =
     bindIO (awaiting S (endStream fid)) (\<lambda>_.
     bindIO throwIfReceiveStopped (\<lambda>_. withFile fid (\<lambda>s.
       if Some (digestHex (setCrypto S) (rsHash s)) \<noteq> rsExpectedSha256 s then removePart S s ''Hash mismatch for ''
       else
         bindIO (awaiting S (onFs (digestFilePath (setCrypto S) (rsPartPath s) None (rsSize s)))) (\<lambda>onDisk.
         bindIO throwIfReceiveStopped (\<lambda>_.
           if Some onDisk \<noteq> rsExpectedSha256 s then removePart S s ''On-disk hash mismatch for ''
           else
             bindIO (awaiting S (sealMessage S (FileOk fid))) (\<lambda>fileOk.
             bindIO throwIfReceiveStopped (\<lambda>_. publishReceived S s fileOk)))))))"

definition maybeFinalize :: "ReceiveSetup \<Rightarrow> nat \<Rightarrow> unit rxio" where
  "maybeFinalize S fid = withFile fid (\<lambda>s.
     if rsDone s \<or> rsFinalizing s \<or> rsExpectedSha256 s = None \<or> rsBytes s < rsSize s then pureIO ()
     else bindIO (updFile fid (rsFinalizing_update (\<lambda>_. True))) (\<lambda>_.
       catchIO (finalizeFile S fid) (\<lambda>e. bindIO (updFile fid (rsFinalizing_update (\<lambda>_. False))) (\<lambda>_. raiseIO e))))"

definition maybeResolveDone :: "ReceiveSetup \<Rightarrow> unit rxio" where
  "maybeResolveDone S = bindIO (readIO (\<lambda>w. rxAllDoneSeen w \<and> list_all rsDone (rxFiles w))) (\<lambda>finished.
     whenIO finished (
       bindIO clearReceiveTimeout (\<lambda>_.
       bindIO (sendControl S AllDoneOk) (\<lambda>_.
       bindIO (modifyIO (rxCompleted_update (\<lambda>_. True))) (\<lambda>_.
         settleDone (Inr ()))))))"

section \<open>Messages\<close>

definition resetReceiveTimeout :: "unit rxio" where
  "resetReceiveTimeout = modifyIO (\<lambda>w. w\<lparr>rxIdleTimer := \<not> (rxFailed w \<or> rxCompleted w)\<rparr>)"

definition receiveManifest :: "ReceiveSetup \<Rightarrow> TransferFile list \<Rightarrow> nat \<Rightarrow> unit rxio" where
  "receiveManifest S entries totalBytes = bindIO (readIO rxManifest) (\<lambda>manifest.
     if manifest \<noteq> None then failIO ''Duplicate transfer manifest.''
     else
       bindIO (modifyIO (\<lambda>w. w\<lparr>rxManifest := Some (Manifest entries totalBytes), rxExpected := entries\<rparr>)) (\<lambda>_.
       bindIO (liftRes (assertManifestWithinLimits (manifestObject entries totalBytes))) (\<lambda>_.
       bindIO (case setAccepted S of
           None \<Rightarrow> pureIO ()
         | Some accepted \<Rightarrow> liftRes (assertTransferManifestMatchesAccepted accepted (controlObject (Manifest entries totalBytes)))) (\<lambda>_.
         modifyIO (rxTotalBytes_update (\<lambda>_. totalBytes))))))"

definition newReceiveState :: "nat \<Rightarrow> nat \<Rightarrow> ReservedOutputFile \<Rightarrow> ReceiveState" where
  "newReceiveState fid sz r = \<lparr>
     rsId = fid, rsName = pathBasename (finalPath r), rsSize = sz, rsFinalPath = finalPath r, rsPartPath = partPath r,
     rsPart = partHandle r, rsDir = dirIdentity r, rsPublished = None,
     rsStream = \<lparr>wsHandle = partHandle r, wsPos = resumeBytes r, wsClosed = False\<rparr>, rsHash = resumeHash r, rsBytes = resumeBytes r,
     rsExpectedSha256 = None,
     rsExpectedSeq = (if resumeBytes r = sz then (sz + CHUNK_SIZE - 1) div CHUNK_SIZE else resumeBytes r div CHUNK_SIZE),
     rsDone = False, rsFinalizing = False\<rparr>"

definition readyMessage :: "Crypto \<Rightarrow> nat \<Rightarrow> ReservedOutputFile \<Rightarrow> ControlMessage" where
  "readyMessage C fid r = (if resumeBytes r > 0 then Ready fid (Some (resumeBytes r)) (Some (digestHex C (resumeHash r))) else Ready fid None None)"

definition beginFile :: "ReceiveSetup \<Rightarrow> nat \<Rightarrow> jsstring \<Rightarrow> nat \<Rightarrow> unit rxio" where
  "beginFile S fid name sz =
     bindIO (liftRes (assertFileWithinLimits (Str name) (jnat sz))) (\<lambda>_.
     bindIO (awaiting S (onFs (reserveOutputFile (setCrypto S) (setOutDir S) name
         \<lparr>optResume = setResume S, optSize = jnat sz, optOpaqueName = setOpaque S, optPrivateDir = setPrivate S\<rparr>))) (\<lambda>r.
     bindIO (modifyIO (rxFiles_update (\<lambda>files. files @ [newReceiveState fid sz r]))) (\<lambda>_.
       sendControl S (readyMessage (setCrypto S) fid r))))"

definition receiveFileBegin :: "ReceiveSetup \<Rightarrow> nat \<Rightarrow> jsstring \<Rightarrow> nat \<Rightarrow> unit rxio" where
  "receiveFileBegin S fid name sz =
     bindIO (readIO (\<lambda>w. (rxManifest w, find (\<lambda>f. entryId f = fid) (rxExpected w), findFile fid w))) (\<lambda>(manifest, expected, known).
     if manifest = None then failIO ''file-begin arrived before manifest.''
     else case expected of
       None \<Rightarrow> failIO (''file-begin for unexpected file '' @ showNat fid)
     | Some e \<Rightarrow>
         if known \<noteq> None then failIO (''Duplicate file-begin for file '' @ showNat fid)
         else if entryName e \<noteq> name \<or> entrySize e \<noteq> sz then failIO (''file-begin does not match manifest for file '' @ showNat fid)
         else beginFile S fid name sz)"

definition receiveRestart :: "ReceiveSetup \<Rightarrow> nat \<Rightarrow> unit rxio" where
  "receiveRestart S fid = bindIO (readIO (findFile fid)) (\<lambda>state.
     case state of
       None \<Rightarrow> failIO (''restart for unknown file '' @ showNat fid)
     | Some s \<Rightarrow>
         if rsDone s \<or> rsExpectedSha256 s \<noteq> None then failIO (''restart for completed file '' @ showNat fid)
         else bindIO (awaiting S (restartReceiveState S fid)) (\<lambda>_. sendControl S (Ready fid None None)))"

definition receiveFileEnd :: "ReceiveSetup \<Rightarrow> nat \<Rightarrow> jsstring \<Rightarrow> unit rxio" where
  "receiveFileEnd S fid sha = bindIO (readIO (findFile fid)) (\<lambda>state.
     case state of
       None \<Rightarrow> failIO (''file-end for unknown file '' @ showNat fid)
     | Some s \<Rightarrow>
         if rsExpectedSha256 s \<noteq> None then failIO (''Duplicate file-end for file '' @ showNat fid)
         else
           bindIO (updFile fid (rsExpectedSha256_update (\<lambda>_. Some sha))) (\<lambda>_.
           bindIO (maybeFinalize S fid) (\<lambda>_. maybeResolveDone S)))"

definition receiveAllDone :: "ReceiveSetup \<Rightarrow> unit rxio" where
  "receiveAllDone S = bindIO (readIO (\<lambda>w. (rxManifest w, rxAllDoneSeen w, length (rxFiles w), length (rxExpected w)))) (\<lambda>(manifest, seen, known, expected).
     if manifest = None then failIO ''all-done arrived before manifest.''
     else if seen then failIO ''Duplicate all-done control message.''
     else if known \<noteq> expected then failIO ''Not all manifest files were transferred.''
     else bindIO (modifyIO (rxAllDoneSeen_update (\<lambda>_. True))) (\<lambda>_. maybeResolveDone S))"

fun receiveControl :: "ReceiveSetup \<Rightarrow> ControlMessage \<Rightarrow> unit rxio" where
  "receiveControl S (Manifest entries totalBytes) = receiveManifest S entries totalBytes"
| "receiveControl S (FileBegin fid name sz) = receiveFileBegin S fid name sz"
| "receiveControl S (Restart fid) = receiveRestart S fid"
| "receiveControl S (FileEnd fid sha) = receiveFileEnd S fid sha"
| "receiveControl S AllDone = receiveAllDone S"
| "receiveControl S (Abort reason) = failIO remoteAbortError"
| "receiveControl S m = failIO (''Unexpected receiver control message: '' @ controlType m @ ''.'')"

text \<open>Both handlers: nothing once the transfer has stopped, and every error fails the transfer.\<close>

definition unlessStopped :: "unit rxio \<Rightarrow> unit rxio" where
  "unlessStopped m = bindIO (readIO (\<lambda>w. rxFailed w \<or> rxCompleted w)) (\<lambda>stopped. whenIO (\<not> stopped) m)"

definition handleControlMessage :: "ReceiveSetup \<Rightarrow> jsval \<Rightarrow> unit rxio" where
  "handleControlMessage S data = unlessStopped (
     bindIO resetReceiveTimeout (\<lambda>_.
     catchIO
       (bindIO (awaiting S (liftRes (openControl (setCrypto S) (setNumbers S) (setKeys S) data))) (\<lambda>opened.
        bindIO (liftRes (assertControlMessage opened)) (\<lambda>message.
        bindIO throwIfReceiveStopped (\<lambda>_. receiveControl S message))))
       (failTransfer S)))"

definition toBytes :: "jsval \<Rightarrow> jsval res" where
  "toBytes d = (case d of
     ArrayBuf True bs \<Rightarrow> ok (Uint8Array True bs)
   | Uint8Array True bs \<Rightarrow> if int (length bs) > MAX_SAFE_INTEGER then throw ''Unsupported binary chunk type'' else ok d
   | _ \<Rightarrow> throw ''Unsupported binary chunk type'')"

text \<open>The part of the handler from the opened payload on.\<close>

definition receivePayload :: "ReceiveSetup \<Rightarrow> nat \<Rightarrow> bytes \<Rightarrow> unit rxio" where
  "receivePayload S fid chunk =
     bindIO throwIfReceiveStopped (\<lambda>_. withFile fid (\<lambda>s.
       if length chunk = 0 then failIO (''Empty chunk for '' @ showName (rsName s) @ ''.'')
       else if rsBytes s + length chunk > rsSize s then failIO (''Received more bytes than declared for '' @ showName (rsName s) @ ''.'')
       else
         bindIO (updFile fid (\<lambda>s. s\<lparr>rsExpectedSeq := rsExpectedSeq s + 1, rsHash := rsHash s @ chunk, rsBytes := rsBytes s + length chunk\<rparr>)) (\<lambda>_.
         bindIO (modifyIO (rxTransferred_update (\<lambda>n. n + length chunk))) (\<lambda>_.
         bindIO (awaiting S (writeStreamChunk fid chunk)) (\<lambda>_.
         bindIO (maybeFinalize S fid) (\<lambda>_. maybeResolveDone S))))))"

definition receiveFrame :: "ReceiveSetup \<Rightarrow> ChunkFrame \<Rightarrow> unit rxio" where
  "receiveFrame S fr = bindIO (readIO (findFile (fileId fr))) (\<lambda>state.
     case state of
       None \<Rightarrow> failIO (''chunk for unknown file '' @ showNat (fileId fr))
     | Some s \<Rightarrow>
         if rsDone s \<or> rsExpectedSha256 s \<noteq> None \<and> rsBytes s \<ge> rsSize s then failIO (''chunk for completed file '' @ showNat (fileId fr))
         else if chunkSeq fr \<noteq> rsExpectedSeq s then failIO (''Unexpected chunk sequence for '' @ showName (rsName s) @ ''.'')
         else
           bindIO (awaiting S (liftRes (openBulk (setCrypto S) (setKeys S) (NInt (int (fileId fr))) (NInt (int (chunkSeq fr)))
             (Uint8Array True (payload fr))))) (\<lambda>chunk.
             receivePayload S (fileId fr) chunk))"

definition handleBulkMessage :: "ReceiveSetup \<Rightarrow> jsval \<Rightarrow> unit rxio" where
  "handleBulkMessage S data = unlessStopped (
     bindIO resetReceiveTimeout (\<lambda>_.
     catchIO
       (bindIO (liftRes (toBytes data)) (\<lambda>d. bindIO (liftRes (decodeChunk d)) (receiveFrame S)))
       (failTransfer S)))"

section \<open>Runs\<close>

fun handleTask :: "ReceiveSetup \<Rightarrow> ReceiveTask \<Rightarrow> unit rxio" where
  "handleTask S (ControlTask d) = handleControlMessage S d"
| "handleTask S (BulkTask d) = handleBulkMessage S d"

definition releaseTask :: "ReceiveTask \<Rightarrow> unit rxio" where
  "releaseTask task = modifyIO (\<lambda>w. w\<lparr>rxQueuedBytes := rxQueuedBytes w - receiveQueueByteLength (taskData task),
     rxQueuedMessages := rxQueuedMessages w - 1, rxQueue := tl (rxQueue w)\<rparr>)"

definition runTask :: "ReceiveSetup \<Rightarrow> unit rxio" where
  "runTask S = bindIO (readIO rxQueue) (\<lambda>queue.
     case queue of [] \<Rightarrow> pureIO () | task # _ \<Rightarrow> finallyIO (handleTask S task) (releaseTask task))"

datatype ReceiveStep = Event ReceiveEvent | NextTask

fun receiveStep :: "ReceiveSetup \<Rightarrow> ReceiveStep \<Rightarrow> unit rxio" where
  "receiveStep S (Event e) = onEvent S e"
| "receiveStep S NextTask = runTask S"

text \<open>The state when \<open>receiveFiles\<close> starts to wait for \<open>done\<close>.\<close>

definition startReceive :: "Fs \<Rightarrow> ReceiveEvent list list \<Rightarrow> (nat \<Rightarrow> bytes) \<Rightarrow> bool list \<Rightarrow> Receiver" where
  "startReceive fs events random faults = \<lparr>
     rxFs = fs, rxFiles = [], rxManifest = None, rxExpected = [], rxTotalBytes = 0, rxTransferred = 0,
     rxFailed = False, rxCompleted = False, rxAllDoneSeen = False, rxIdleTimer = True, rxAttached = True, rxControlOpen = True,
     rxOutbox = [], rxOutcome = None, rxResult = None, rxQueue = [], rxQueuedBytes = 0, rxQueuedMessages = 0,
     rxEvents = events, rxRandom = random, rxDrawn = 0, rxSendFaults = faults\<rparr>"

definition receiveRun :: "ReceiveSetup \<Rightarrow> ReceiveStep list \<Rightarrow> Receiver \<Rightarrow> Receiver" where
  "receiveRun S steps w = fold (\<lambda>st w. snd (receiveStep S st w)) steps w"

end
