(* ===== verification/Sender.thy ===== *)
theory Sender
  imports AckWaiter Receiver
begin

text \<open>
  The sending side of a transfer, \<open>sendFiles\<close> of \<open>src/src/cli/transfer.ts\<close>, with the wait for the bulk
  channel to drain of \<open>src/src/cli/rtc.ts\<close>. The local variables of the function are the record
  \<open>Sender\<close>. The tasks of \<open>senderControlQueue\<close> and the timers of the acknowledgement waiter run while
  the function waits: \<open>sxEvents\<close> says which of them run at each \<open>await\<close>. A task opens its message and
  then changes the state in one piece, and only tasks set \<open>completed\<close>, so a task is one step. A wait
  for an acknowledgement goes through the schedule until its promise is settled; at the end of the
  schedule nothing else comes and its timer fires. Printing of progress is left out, its counter is
  kept.
\<close>

section \<open>State\<close>

record ReadyState =
  readyOffset :: nat
  readyPrefix :: "jsstring option"

datatype SenderEvent = SenderMessage jsval | SenderDown string | AckTimer ackKey

record SendSetup =
  sndCrypto :: Crypto
  sndNumbers :: NumberFormat
  sndKeys :: "SessionKeys option"

text \<open>What happens to the bulk channel during one call of \<open>waitForBackpressure\<close>: its state and
  \<open>bufferedAmount\<close> at the call, and the events after it.\<close>

datatype ChannelState = Connecting | Opened | Closing | Closed

datatype DrainEvent = BufferedAmountLow | DrainPoll nat | DrainClosed | DrainErrored | DrainTimeout

record BulkDrain =
  drainState :: ChannelState
  drainBuffered :: nat
  drainEvents :: "DrainEvent list"

text \<open>\<open>sxSealed\<close> records every chunk that was sealed, \<open>sxBulkOut\<close> the frames sent on the bulk channel
  and \<open>sxControlOut\<close> the messages sent on the control channel.\<close>

record Sender =
  sxFs :: Fs
  sxAcks :: AckWaiter
  sxFailed :: "jsError option"
  sxCompleted :: bool
  sxReady :: "nat \<Rightarrow> ReadyState option"
  sxTransferred :: nat
  sxSealed :: "(nat \<times> nat \<times> bytes) list"
  sxBulkOut :: "jsval list"
  sxControlOut :: "(ControlMessage \<times> jsstring) list"
  sxEvents :: "SenderEvent list list"
  sxRandom :: "nat \<Rightarrow> bytes"
  sxDrawn :: nat
  sxSendFaults :: "bool list"
  sxDrains :: "BulkDrain list"

type_synonym 'a sxio = "(Sender, 'a) io"

definition onSendFs :: "'a fsio \<Rightarrow> 'a sxio" where
  "onSendFs m = zoomIO sxFs sxFs_update m"

section \<open>Control messages of the receiver\<close>

definition resumeOffsetInput :: "nat \<Rightarrow> nat \<Rightarrow> nat res" where
  "resumeOffsetInput value fid = (if value > MAX_FILE_BYTES then throw (''Invalid ready acknowledgement for file '' @ showNat fid @ ''.'') else ok value)"

definition readyStateInput :: "nat option \<Rightarrow> jsstring option \<Rightarrow> nat \<Rightarrow> ReadyState res" where
  "readyStateInput offset prefix fid =
     andThen (resumeOffsetInput (case offset of None \<Rightarrow> 0 | Some n \<Rightarrow> n) fid) (\<lambda>n.
       if n = 0 then ok \<lparr>readyOffset = n, readyPrefix = None\<rparr>
       else if prefix = None then throw (''Invalid ready acknowledgement for file '' @ showNat fid @ ''.'')
       else ok \<lparr>readyOffset = n, readyPrefix = prefix\<rparr>)"

definition markAck :: "string \<Rightarrow> jsval \<Rightarrow> string \<Rightarrow> unit sxio" where
  "markAck kind fid unexpected =
     bindIO (readIO sxAcks) (\<lambda>a.
     bindIO (liftRes (mark (Str (js kind)) fid a)) (\<lambda>(marked, b).
     bindIO (modifyIO (sxAcks_update (\<lambda>_. b))) (\<lambda>_.
       if marked then pureIO () else failIO unexpected)))"

definition failAll :: "jsError \<Rightarrow> unit sxio" where
  "failAll e = modifyIO (\<lambda>w. w\<lparr>sxFailed := Some e, sxAcks := failAcks e (sxAcks w)\<rparr>)"

fun senderMessage :: "ControlMessage \<Rightarrow> unit sxio" where
  "senderMessage (Ready fid offset prefix) =
     bindIO (liftRes (readyStateInput offset prefix fid)) (\<lambda>ready.
     bindIO (modifyIO (sxReady_update (\<lambda>m. m(fid \<mapsto> ready)))) (\<lambda>_.
       markAck ''ready'' (jnat fid) (''Unexpected ready acknowledgement for file '' @ showNat fid @ ''.'')))"
| "senderMessage (FileOk fid) = markAck ''file-ok'' (jnat fid) (''Unexpected file-ok acknowledgement for file '' @ showNat fid @ ''.'')"
| "senderMessage AllDoneOk =
     bindIO (markAck ''all-done-ok'' Undefined ''Unexpected all-done-ok acknowledgement.'') (\<lambda>_. modifyIO (sxCompleted_update (\<lambda>_. True)))"
| "senderMessage (Abort reason) = failAll (JsError remoteAbortError)"
| "senderMessage _ = pureIO ()"

definition unlessCompleted :: "unit sxio \<Rightarrow> unit sxio" where
  "unlessCompleted m = bindIO (readIO sxCompleted) (\<lambda>completed. whenIO (\<not> completed) m)"

definition handleSenderControl :: "SendSetup \<Rightarrow> jsval \<Rightarrow> unit sxio" where
  "handleSenderControl S data = unlessCompleted (
     catchIO
       (bindIO (liftRes (openControl (sndCrypto S) (sndNumbers S) (sndKeys S) data)) (\<lambda>opened.
        bindIO (liftRes (andThen (assertControlMessage opened) assertSenderControlMessage)) senderMessage))
       (\<lambda>e. unlessCompleted (failAll e)))"

definition failSender :: "string \<Rightarrow> unit sxio" where
  "failSender msg = unlessCompleted (failAll (JsError msg))"

section \<open>Waiting\<close>

fun onSenderEvent :: "SendSetup \<Rightarrow> SenderEvent \<Rightarrow> unit sxio" where
  "onSenderEvent S (SenderMessage data) = handleSenderControl S data"
| "onSenderEvent S (SenderDown msg) = failSender msg"
| "onSenderEvent S (AckTimer key) = modifyIO (sxAcks_update (ackTimeout key))"

fun onSenderEvents :: "SendSetup \<Rightarrow> SenderEvent list \<Rightarrow> unit sxio" where
  "onSenderEvents S [] = pureIO ()"
| "onSenderEvents S (e # es) = bindIO (onSenderEvent S e) (\<lambda>_. onSenderEvents S es)"

definition awaitSender :: "SendSetup \<Rightarrow> unit sxio" where
  "awaitSender S = bindIO (readIO (\<lambda>w. case sxEvents w of [] \<Rightarrow> [] | es # _ \<Rightarrow> es)) (\<lambda>es.
     bindIO (modifyIO (sxEvents_update tl)) (\<lambda>_. onSenderEvents S es))"

definition awaitingSend :: "SendSetup \<Rightarrow> 'a sxio \<Rightarrow> 'a sxio" where
  "awaitingSend S m = finallyIO m (awaitSender S)"

definition throwIfSenderFailed :: "SendSetup \<Rightarrow> unit sxio" where
  "throwIfSenderFailed S = bindIO (awaitSender S) (\<lambda>_. bindIO (readIO sxFailed) (\<lambda>failed.
     case failed of Some e \<Rightarrow> raiseIO e | None \<Rightarrow> pureIO ()))"

definition startWait :: "string \<Rightarrow> jsval \<Rightarrow> (ackKey \<times> promise) sxio" where
  "startWait kind fid =
     bindIO (liftRes (controlAckInput (Str (js kind)) fid)) (\<lambda>key.
     bindIO (readIO sxAcks) (\<lambda>a.
     bindIO (modifyIO (sxAcks_update (\<lambda>_. snd (waitKey key a)))) (\<lambda>_. pureIO (key, fst (waitKey key a)))))"

definition whenSettled :: "promise \<Rightarrow> unit sxio \<Rightarrow> unit sxio" where
  "whenSettled p unsettled = bindIO (readIO (\<lambda>w. ackOutcome (sxAcks w) p)) (\<lambda>r.
     case r of None \<Rightarrow> unsettled | Some (Inl e) \<Rightarrow> raiseIO e | Some (Inr _) \<Rightarrow> pureIO ())"

fun awaitPromise :: "SendSetup \<Rightarrow> ackKey \<Rightarrow> promise \<Rightarrow> nat \<Rightarrow> unit sxio" where
  "awaitPromise S key p 0 =
     bindIO (modifyIO (sxAcks_update (ackTimeout key))) (\<lambda>_. whenSettled p (failIO (timeoutText key)))"
| "awaitPromise S key p (Suc n) = bindIO (awaitSender S) (\<lambda>_. whenSettled p (awaitPromise S key p n))"

definition awaitAck :: "SendSetup \<Rightarrow> ackKey \<times> promise \<Rightarrow> unit sxio" where
  "awaitAck S kp = bindIO (readIO (\<lambda>w. length (sxEvents w))) (\<lambda>n. awaitPromise S (fst kp) (snd kp) n)"

definition waitAck :: "SendSetup \<Rightarrow> string \<Rightarrow> jsval \<Rightarrow> unit sxio" where
  "waitAck S kind fid = bindIO (startWait kind fid) (awaitAck S)"

section \<open>Sending\<close>

definition sendFault :: "bool sxio" where
  "sendFault = bindIO (readIO (\<lambda>w. case sxSendFaults w of [] \<Rightarrow> False | b # _ \<Rightarrow> b)) (\<lambda>fault.
     bindIO (modifyIO (sxSendFaults_update tl)) (\<lambda>_. pureIO fault))"

definition controlSend :: "ControlMessage \<Rightarrow> jsstring \<Rightarrow> unit sxio" where
  "controlSend m msgText = bindIO sendFault (\<lambda>fault.
     if fault then failIO ''InvalidStateError'' else modifyIO (sxControlOut_update (\<lambda>out. out @ [(m, msgText)])))"

definition bulkSend :: "jsval \<Rightarrow> unit sxio" where
  "bulkSend d = bindIO sendFault (\<lambda>fault.
     if fault then failIO ''InvalidStateError'' else modifyIO (sxBulkOut_update (\<lambda>out. out @ [d])))"

definition sealSenderMessage :: "SendSetup \<Rightarrow> ControlMessage \<Rightarrow> jsstring sxio" where
  "sealSenderMessage S m =
     bindIO (readIO (\<lambda>w. sxRandom w (sxDrawn w))) (\<lambda>nonce.
     bindIO (modifyIO (sxDrawn_update Suc)) (\<lambda>_.
       liftRes (sealControl (sndCrypto S) (sndNumbers S) nonce (sndKeys S) (controlObject m))))"

text \<open>\<open>sendControl\<close>, with or without \<open>throwIfSenderFailed\<close> as its last argument.\<close>

definition sendSenderControl :: "SendSetup \<Rightarrow> bool \<Rightarrow> ControlMessage \<Rightarrow> unit sxio" where
  "sendSenderControl S checked m =
     bindIO (awaitingSend S (sealSenderMessage S m)) (\<lambda>msgText.
     bindIO (whenIO checked (throwIfSenderFailed S)) (\<lambda>_. controlSend m msgText))"

definition sealChunk :: "SendSetup \<Rightarrow> nat \<Rightarrow> nat \<Rightarrow> bytes \<Rightarrow> bytes sxio" where
  "sealChunk S fid seq chunk =
     bindIO (modifyIO (sxSealed_update (\<lambda>out. out @ [(fid, seq, chunk)]))) (\<lambda>_.
       liftRes (sealBulk (sndCrypto S) (sndKeys S) (NInt (int fid)) (NInt (int seq)) (Uint8Array True chunk)))"

definition DATA_CHANNEL_BUFFER_LOW :: nat where [limit_defs]: "DATA_CHANNEL_BUFFER_LOW = 2 * 1024 * 1024"

fun drain :: "DrainEvent list \<Rightarrow> unit res" where
  "drain [] = throw ''DataChannel bulk backpressure did not drain.''"
| "drain (BufferedAmountLow # _) = ok ()"
| "drain (DrainPoll n # es) = (if n \<le> DATA_CHANNEL_BUFFER_LOW then ok () else drain es)"
| "drain (DrainClosed # _) = throw ''DataChannel bulk closed while draining.''"
| "drain (DrainErrored # _) = throw ''DataChannel bulk failed while draining.''"
| "drain (DrainTimeout # _) = throw ''DataChannel bulk backpressure did not drain.''"

definition waitForBackpressure :: "BulkDrain \<Rightarrow> nat \<Rightarrow> unit res" where
  "waitForBackpressure channel highWater =
     (if drainState channel = Closing then throw ''DataChannel bulk is closing.''
      else if drainState channel = Closed then throw ''DataChannel bulk is closed.''
      else if drainBuffered channel \<le> highWater then ok ()
      else drain (drainEvents channel))"

text \<open>Without an entry the channel is open and its buffer empty.\<close>

definition drainBulk :: "unit sxio" where
  "drainBulk = bindIO (readIO (\<lambda>w. case sxDrains w of [] \<Rightarrow> \<lparr>drainState = Opened, drainBuffered = 0, drainEvents = []\<rparr> | d # _ \<Rightarrow> d)) (\<lambda>d.
     bindIO (modifyIO (sxDrains_update tl)) (\<lambda>_. liftRes (waitForBackpressure d DATA_CHANNEL_BUFFER_HIGH)))"

section \<open>Files\<close>

definition changedSending :: "SendFile \<Rightarrow> string" where
  "changedSending f = showName (sendName f) @ '' changed while sending.''"

definition changedResuming :: "SendFile \<Rightarrow> string" where
  "changedResuming f = showName (sendName f) @ '' changed while resuming.''"

definition chunkHash :: "SendFile \<Rightarrow> nat \<Rightarrow> jsstring option" where
  "chunkHash f seq = (if seq < length (sendChunkSha256 f) then Some (sendChunkSha256 f ! seq) else None)"

text \<open>The loop of \<open>hashSendPrefix\<close>; the two hashes of the source are fed the same bytes.\<close>

function hashPrefixLoop :: "SendSetup \<Rightarrow> SendFile \<Rightarrow> nat \<Rightarrow> nat \<Rightarrow> nat \<Rightarrow> Sha256 \<Rightarrow> Sha256 sxio" where
  "hashPrefixLoop S f resumeOffset offset seq hash =
     (if offset < resumeOffset then
        let len = min CHUNK_SIZE (resumeOffset - offset) in
        bindIO (awaitingSend S (onSendFs (handleRead (sendHandle f) len offset))) (\<lambda>chunk.
          if length chunk \<noteq> len then failIO (changedResuming f)
          else case chunkHash f seq of
            None \<Rightarrow> failIO (changedResuming f)
          | Some expected \<Rightarrow>
              if digestHex (sndCrypto S) chunk \<noteq> expected
              then failIO (showName (sendName f) @ '' changed before resumed chunk '' @ showNat seq @ '' could be trusted.'')
              else hashPrefixLoop S f resumeOffset (offset + CHUNK_SIZE) (seq + 1) (hash @ chunk))
      else pureIO hash)"
  by pat_completeness auto
termination
  by (relation "measure (\<lambda>(S, f, resumeOffset, offset, seq, hash). resumeOffset - offset)") (auto simp: CHUNK_SIZE_def)

declare hashPrefixLoop.simps [simp del]

definition hashSendPrefix :: "SendSetup \<Rightarrow> SendFile \<Rightarrow> nat \<Rightarrow> (Sha256 \<times> jsstring option) sxio" where
  "hashSendPrefix S f resumeOffset =
     (if resumeOffset = 0 then pureIO ([], None)
      else bindIO (hashPrefixLoop S f resumeOffset 0 0 []) (\<lambda>hash. pureIO (hash, Some (digestHex (sndCrypto S) hash))))"

text \<open>The loop of \<open>verifiedReadyState\<close>: every turn but the last waits for another \<open>ready\<close>, so that a
  schedule of \<open>n\<close> entries allows at most \<open>n + 1\<close> turns.\<close>

definition takeReady :: "nat \<Rightarrow> ReadyState sxio" where
  "takeReady fid = bindIO (readIO (\<lambda>w. case sxReady w fid of None \<Rightarrow> \<lparr>readyOffset = 0, readyPrefix = None\<rparr> | Some r \<Rightarrow> r)) (\<lambda>r.
     bindIO (modifyIO (sxReady_update (\<lambda>m. m(fid := None)))) (\<lambda>_. pureIO r))"

definition askRestart :: "SendSetup \<Rightarrow> nat \<Rightarrow> unit sxio" where
  "askRestart S fid = bindIO (startWait ''ready'' (jnat fid)) (\<lambda>restarted.
     bindIO (sendSenderControl S False (Restart fid)) (\<lambda>_. awaitAck S restarted))"

fun readyLoop :: "SendSetup \<Rightarrow> SendFile \<Rightarrow> nat \<Rightarrow> ReadyState sxio" where
  "readyLoop S f 0 = failIO ''no turn left''"
| "readyLoop S f (Suc n) =
     bindIO (throwIfSenderFailed S) (\<lambda>_.
     bindIO (takeReady (sendId f)) (\<lambda>ready.
       if readyOffset ready > sendSize f \<or> readyOffset ready < sendSize f \<and> readyOffset ready mod CHUNK_SIZE \<noteq> 0
       then failIO (''Invalid resume offset for '' @ showName (sendName f) @ ''.'')
       else if readyOffset ready = 0 then pureIO ready
       else
         bindIO (hashSendPrefix S f (readyOffset ready)) (\<lambda>(hash, prefix).
         bindIO (throwIfSenderFailed S) (\<lambda>_.
           if prefix = readyPrefix ready then pureIO ready
           else bindIO (askRestart S (sendId f)) (\<lambda>_. readyLoop S f n)))))"

definition verifiedReadyState :: "SendSetup \<Rightarrow> SendFile \<Rightarrow> ReadyState sxio" where
  "verifiedReadyState S f = bindIO (readIO (\<lambda>w. length (sxEvents w))) (\<lambda>n. readyLoop S f (Suc n))"

text \<open>The body of the chunk loop from the read chunk to the drained channel.\<close>

definition transmitChunk :: "SendSetup \<Rightarrow> nat \<Rightarrow> nat \<Rightarrow> bytes \<Rightarrow> unit sxio" where
  "transmitChunk S fid seq chunk =
     bindIO (awaitingSend S (sealChunk S fid seq chunk)) (\<lambda>c.
     bindIO (throwIfSenderFailed S) (\<lambda>_.
     bindIO (liftRes (encodeChunk (NInt (int fid)) (NInt (int seq)) (Uint8Array True c))) (\<lambda>d.
     bindIO (bulkSend d) (\<lambda>_.
     bindIO (modifyIO (sxTransferred_update (\<lambda>n. n + length chunk))) (\<lambda>_.
     bindIO (awaitingSend S drainBulk) (\<lambda>_. throwIfSenderFailed S))))))"

definition sendChunk :: "SendSetup \<Rightarrow> SendFile \<Rightarrow> nat \<Rightarrow> nat \<Rightarrow> bytes \<Rightarrow> unit sxio" where
  "sendChunk S f seq fileBytes chunk =
     bindIO (throwIfSenderFailed S) (\<lambda>_.
     bindIO (throwIfSenderFailed S) (\<lambda>_.
       if fileBytes + length chunk > sendSize f then failIO (changedSending f)
       else case chunkHash f seq of
         None \<Rightarrow> failIO (changedSending f)
       | Some expected \<Rightarrow>
           if digestHex (sndCrypto S) chunk \<noteq> expected
           then failIO (showName (sendName f) @ '' changed before chunk '' @ showNat seq @ '' could be sent.'')
           else transmitChunk S (sendId f) seq chunk))"

text \<open>The read stream of the file from the resume offset on, in reads of at most \<open>CHUNK_SIZE\<close> bytes
  until one returns nothing; its position is always \<open>fileBytes\<close>. \<open>sendChunk\<close> has thrown when the chunk
  is too long; the second test of it only makes the recursion terminate.\<close>

function sendChunks :: "SendSetup \<Rightarrow> SendFile \<Rightarrow> nat \<Rightarrow> nat \<Rightarrow> Sha256 \<Rightarrow> (nat \<times> nat \<times> Sha256) sxio" where
  "sendChunks S f seq fileBytes hash =
     bindIO (awaitingSend S (onSendFs (handleRead (sendHandle f) CHUNK_SIZE fileBytes))) (\<lambda>chunk.
       if chunk = [] then pureIO (seq, fileBytes, hash)
       else bindIO (sendChunk S f seq fileBytes chunk) (\<lambda>_.
         if fileBytes + length chunk > sendSize f then failIO (changedSending f)
         else sendChunks S f (seq + 1) (fileBytes + length chunk) (hash @ chunk)))"
  by pat_completeness auto
termination
proof (relation "measure (\<lambda>(S, f, seq, fileBytes, hash). sendSize f - fileBytes)")
  show "((S, f, seq + 1, fileBytes + length chunk, hash @ chunk), (S, f, seq, fileBytes, hash)) \<in> measure (\<lambda>(S, f, seq, fileBytes, hash). sendSize f - fileBytes)"
    if "chunk \<noteq> []" "\<not> fileBytes + length chunk > sendSize f" for S f seq fileBytes hash and chunk :: bytes
    using that by (cases chunk) auto
qed simp

declare sendChunks.simps [simp del]

definition finishFile :: "SendSetup \<Rightarrow> SendFile \<Rightarrow> nat \<times> nat \<times> Sha256 \<Rightarrow> unit sxio" where
  "finishFile S f r = (case r of (seq, fileBytes, hash) \<Rightarrow>
     if seq \<noteq> length (sendChunkSha256 f) then failIO (changedSending f)
     else if fileBytes \<noteq> sendSize f then failIO (changedSending f)
     else if digestHex (sndCrypto S) hash \<noteq> sendSha256 f then failIO (changedSending f)
     else
       bindIO (throwIfSenderFailed S) (\<lambda>_.
       bindIO (sendSenderControl S True (FileEnd (sendId f) (sendSha256 f))) (\<lambda>_.
         waitAck S ''file-ok'' (jnat (sendId f)))))"

definition firstSeq :: "SendFile \<Rightarrow> nat \<Rightarrow> nat" where
  "firstSeq f resumeOffset = (if resumeOffset = sendSize f then length (sendChunkSha256 f) else resumeOffset div CHUNK_SIZE)"

definition sendContent :: "SendSetup \<Rightarrow> SendFile \<Rightarrow> nat \<Rightarrow> unit sxio" where
  "sendContent S f resumeOffset =
     bindIO (hashSendPrefix S f resumeOffset) (\<lambda>(hash, _).
     bindIO (throwIfSenderFailed S) (\<lambda>_.
     bindIO (modifyIO (sxTransferred_update (\<lambda>n. n + resumeOffset))) (\<lambda>_.
     bindIO (sendChunks S f (firstSeq f resumeOffset) resumeOffset hash) (finishFile S f))))"

definition sendFile :: "SendSetup \<Rightarrow> SendFile \<Rightarrow> unit sxio" where
  "sendFile S f =
     bindIO (throwIfSenderFailed S) (\<lambda>_.
     bindIO (sendSenderControl S True (FileBegin (sendId f) (sendName f) (sendSize f))) (\<lambda>_.
     bindIO (waitAck S ''ready'' (jnat (sendId f))) (\<lambda>_.
     bindIO (throwIfSenderFailed S) (\<lambda>_.
     bindIO (verifiedReadyState S f) (\<lambda>ready. sendContent S f (readyOffset ready))))))"

fun sendEach :: "SendSetup \<Rightarrow> SendFile list \<Rightarrow> unit sxio" where
  "sendEach S [] = pureIO ()"
| "sendEach S (f # fs) = bindIO (sendFile S f) (\<lambda>_. sendEach S fs)"

section \<open>The transfer\<close>

definition MAX_CHUNK_HASHES_PER_FILE :: nat where
  "MAX_CHUNK_HASHES_PER_FILE = (MAX_FILE_BYTES + CHUNK_SIZE - 1) div CHUNK_SIZE"

definition sendChunkHashesInput :: "jsstring list \<Rightarrow> nat \<Rightarrow> (jsstring list) res" where
  "sendChunkHashesInput hashes sz =
     (if length hashes \<noteq> (if sz = 0 then 0 else (sz + CHUNK_SIZE - 1) div CHUNK_SIZE) \<or> length hashes > MAX_CHUNK_HASHES_PER_FILE
         \<or> \<not> list_all sha256Hex hashes
      then throw ''Send file chunk hashes are invalid.''
      else ok hashes)"

definition sendPlanFileInput :: "SendFile \<Rightarrow> nat \<Rightarrow> SendFile res" where
  "sendPlanFileInput f index =
     (if sendId f \<noteq> index \<or> sendSize f > MAX_FILE_BYTES then throw ''Send file entry is invalid.''
      else andThen (assertFileWithinLimits (Str (sendName f)) (jnat (sendSize f))) (\<lambda>_.
        if \<not> sha256Hex (sendSha256 f) then throw ''Send file hash is invalid.''
        else andThen (sendChunkHashesInput (sendChunkSha256 f) (sendSize f)) (\<lambda>_. ok f)))"

fun sendPlanFiles :: "SendFile list \<Rightarrow> nat \<Rightarrow> (SendFile list) res" where
  "sendPlanFiles [] index = ok []"
| "sendPlanFiles (f # fs) index =
     andThen (sendPlanFileInput f index) (\<lambda>p. andThen (sendPlanFiles fs (index + 1)) (\<lambda>ps. ok (p # ps)))"

definition buildSendPlan :: "SendFile list \<Rightarrow> (SendFile list) res" where
  "buildSendPlan files =
     (if length files = 0 \<or> length files > MAX_FILES_PER_SESSION then throw ''Send file list is invalid.'' else sendPlanFiles files 0)"

definition planManifest :: "SendFile list \<Rightarrow> ControlMessage" where
  "planManifest plan = Manifest (map sendEntry plan) (sum_list (map sendSize plan))"

definition sendBody :: "SendSetup \<Rightarrow> SendFile list \<Rightarrow> unit sxio" where
  "sendBody S files =
     bindIO (liftRes (buildSendPlan files)) (\<lambda>plan.
     bindIO (liftRes (assertTransferManifestWithinLimits (manifestObject (map sendEntry plan) (sum_list (map sendSize plan))))) (\<lambda>_.
     bindIO (sendSenderControl S True (planManifest plan)) (\<lambda>_.
     bindIO (sendEach S plan) (\<lambda>_.
     bindIO (throwIfSenderFailed S) (\<lambda>_.
     bindIO (sendSenderControl S True AllDone) (\<lambda>_.
       waitAck S ''all-done-ok'' Undefined))))))"

definition sendFiles :: "SendSetup \<Rightarrow> SendFile list \<Rightarrow> unit sxio" where
  "sendFiles S files =
     finallyIO
       (catchIO (sendBody S files) (\<lambda>e.
         bindIO (ignoreIO (sendSenderControl S False (abortControlMessage (errorText e)))) (\<lambda>_. raiseIO e)))
       (onSendFs (closeSendFiles files))"

definition startSend :: "Fs \<Rightarrow> SenderEvent list list \<Rightarrow> (nat \<Rightarrow> bytes) \<Rightarrow> bool list \<Rightarrow> BulkDrain list \<Rightarrow> Sender" where
  "startSend fs events random faults drains = \<lparr>
     sxFs = fs, sxAcks = newAckWaiter, sxFailed = None, sxCompleted = False, sxReady = (\<lambda>_. None), sxTransferred = 0,
     sxSealed = [], sxBulkOut = [], sxControlOut = [], sxEvents = events, sxRandom = random, sxDrawn = 0, sxSendFaults = faults, sxDrains = drains\<rparr>"

end
