(* ===== verification/SenderFrames.thy ===== *)
theory SenderFrames
  imports Sender
begin

text \<open>
  What the parts of \<open>sendFiles\<close> leave alone. A relation between the state before and after that every
  change of a single variable keeps is kept by every part of the function that sends nothing; two
  relations of this kind carry the proofs of \<open>SenderProperties\<close>.
\<close>

lemma update_as_assignment:
  "sxCompleted_update b w = w\<lparr>sxCompleted := b (sxCompleted w)\<rparr>" "sxReady_update g w = w\<lparr>sxReady := g (sxReady w)\<rparr>"
  "sxTransferred_update k w = w\<lparr>sxTransferred := k (sxTransferred w)\<rparr>" "sxDrawn_update k w = w\<lparr>sxDrawn := k (sxDrawn w)\<rparr>"
  "sxSendFaults_update t w = w\<lparr>sxSendFaults := t (sxSendFaults w)\<rparr>" "sxDrains_update d w = w\<lparr>sxDrains := d (sxDrains w)\<rparr>"
  "sxEvents_update e w = w\<lparr>sxEvents := e (sxEvents w)\<rparr>" "sxAcks_update a w = w\<lparr>sxAcks := a (sxAcks w)\<rparr>"
  "sxSealed_update s w = w\<lparr>sxSealed := s (sxSealed w)\<rparr>" "sxBulkOut_update o1 w = w\<lparr>sxBulkOut := o1 (sxBulkOut w)\<rparr>"
  "sxControlOut_update o2 w = w\<lparr>sxControlOut := o2 (sxControlOut w)\<rparr>" for w :: Sender
  by (cases w; simp)+

named_theorems send_calls \<open>parts of \<open>sendFiles\<close> that keep a relation\<close>

locale sender_frame = frame R for R :: "Sender \<Rightarrow> Sender \<Rightarrow> bool" +
  assumes keeps_var: "R w (w\<lparr>sxFs := fs\<rparr>)" "R w (w\<lparr>sxFailed := failed\<rparr>)" "R w (w\<lparr>sxCompleted := done\<rparr>)" "R w (w\<lparr>sxReady := ready\<rparr>)"
    "R w (w\<lparr>sxTransferred := n\<rparr>)" "R w (w\<lparr>sxDrawn := n\<rparr>)" "R w (w\<lparr>sxSendFaults := faults\<rparr>)" "R w (w\<lparr>sxDrains := drains\<rparr>)"
    and keeps_events: "R w (w\<lparr>sxEvents := tl (sxEvents w)\<rparr>)"
    and keeps_acks: "R w (w\<lparr>sxAcks := ackStep st (sxAcks w)\<rparr>)"
begin

lemma keeps_modify: "(\<And>w. R w (f w)) \<Longrightarrow> keeps R (modifyIO f)"
  by (simp add: keeps_def io_defs)

lemma keeps_option [send_calls]: "keeps R m \<Longrightarrow> (\<And>x. y = Some x \<Longrightarrow> keeps R (f x)) \<Longrightarrow> keeps R (case y of None \<Rightarrow> m | Some x \<Rightarrow> f x)"
  by (cases y) simp_all

lemma keeps_pair [send_calls]: "(\<And>a b. keeps R (f a b)) \<Longrightarrow> keeps R (case p of (a, b) \<Rightarrow> f a b)"
  by (cases p) simp

lemma keeps_fs [send_calls]: "keeps R (onSendFs m)"
  unfolding keeps_def onSendFs_def zoomIO_def
proof
  fix w :: Sender
  obtain r v where "m (sxFs w) = (r, v)" by (cases "m (sxFs w)")
  then show "R w (snd (case m (sxFs w) of (r, v) \<Rightarrow> (r, sxFs_update (\<lambda>_. v) w)))" using keeps_var(1)[of w v] by simp
qed

lemma keeps_vars [send_calls]:
  "keeps R (modifyIO (sxCompleted_update b))" "keeps R (modifyIO (sxReady_update g))" "keeps R (modifyIO (sxTransferred_update k))"
  "keeps R (modifyIO (sxDrawn_update k))" "keeps R (modifyIO (sxSendFaults_update t))" "keeps R (modifyIO (sxDrains_update d))"
  "keeps R (modifyIO (sxEvents_update tl))"
  by (rule keeps_modify, subst update_as_assignment, rule keeps_var keeps_events)+

lemma keeps_acks_step [send_calls]: "keeps R (modifyIO (sxAcks_update (ackTimeout key)))"
  using keeps_acks[of _ "TimerFires key"] by (intro keeps_modify) (subst update_as_assignment, simp)

lemma keeps_failAll [send_calls]: "keeps R (failAll e)"
  unfolding failAll_def
proof (rule keeps_modify)
  fix w
  have "R w (w\<lparr>sxFailed := Some e\<rparr>)" by (rule keeps_var)
  moreover have "R (w\<lparr>sxFailed := Some e\<rparr>) (w\<lparr>sxFailed := Some e, sxAcks := failAcks e (sxAcks w)\<rparr>)"
    using keeps_acks[of "w\<lparr>sxFailed := Some e\<rparr>" "Fail e"] by simp
  ultimately show "R w (w\<lparr>sxFailed := Some e, sxAcks := failAcks e (sxAcks w)\<rparr>)" by (rule trans)
qed

lemma keeps_markAck [send_calls]: "keeps R (markAck kind fid msg)"
proof -
  have *: "R w (w\<lparr>sxAcks := b\<rparr>)" if "mark k f (sxAcks w) = Inr (ok, b)" for w k f ok b
    using that keeps_acks[of w "Mark (projr (controlAckInput k f))"] by (cases "controlAckInput k f") (auto simp: mark_def)
  have "R w (snd (markAck kind fid msg w))" for w
    using *[of "Str (js kind)" fid w] refl[of w] by (auto simp: markAck_def io_defs split: sum.split)
  then show ?thesis by (simp add: keeps_def)
qed

lemma keeps_startWait [send_calls]: "keeps R (startWait kind fid)"
proof -
  have "R w (snd (startWait kind fid w))" for w
    using keeps_acks[of w "Wait (projr (controlAckInput (Str (js kind)) fid))"] refl[of w]
    by (auto simp: startWait_def io_defs split: sum.split)
  then show ?thesis by (simp add: keeps_def)
qed

lemma keeps_unlessCompleted [send_calls]: "keeps R m \<Longrightarrow> keeps R (unlessCompleted m)"
  unfolding unlessCompleted_def by (intro keeps_rules)

lemma keeps_senderMessage [send_calls]: "keeps R (senderMessage m)"
  by (cases m) (simp_all, (intro keeps_rules send_calls)+)

lemma keeps_onSenderEvent [send_calls]: "keeps R (onSenderEvent S e)"
  by (cases e) (simp_all add: handleSenderControl_def failSender_def, (intro keeps_rules send_calls)+)

lemma keeps_onSenderEvents [send_calls]: "keeps R (onSenderEvents S es)"
  by (induction es) (simp_all, (intro keeps_rules send_calls)+)

lemma keeps_awaitSender [send_calls]: "keeps R (awaitSender S)"
  unfolding awaitSender_def by (intro keeps_rules send_calls)

lemma keeps_awaiting [send_calls]: "keeps R m \<Longrightarrow> keeps R (awaitingSend S m)"
  unfolding awaitingSend_def by (intro keeps_rules send_calls)

lemma keeps_throwIfFailed [send_calls]: "keeps R (throwIfSenderFailed S)"
  unfolding throwIfSenderFailed_def by (intro keeps_rules send_calls)

lemma keeps_settled [send_calls]: "keeps R m \<Longrightarrow> keeps R (whenSettled p m)"
  unfolding whenSettled_def by (intro keeps_rules send_calls) (auto intro: keeps_rules split: sum.split)

lemma keeps_awaitPromise [send_calls]: "keeps R (awaitPromise S key p n)"
  by (induction n) (simp_all, (intro keeps_rules send_calls | assumption)+)

lemma keeps_awaitAck [send_calls]: "keeps R (awaitAck S kp)"
  unfolding awaitAck_def by (intro keeps_rules send_calls)

lemma keeps_waitAck [send_calls]: "keeps R (waitAck S kind fid)"
  unfolding waitAck_def by (intro keeps_rules send_calls)

lemma keeps_send [send_calls]: "keeps R sendFault" "keeps R (sealSenderMessage S m)" "keeps R drainBulk" "keeps R (takeReady fid)"
  unfolding sendFault_def sealSenderMessage_def drainBulk_def takeReady_def by (intro keeps_rules send_calls)+

lemma keeps_hashPrefixLoop [send_calls]: "keeps R (hashPrefixLoop S f n offset seq hash)"
proof (induction S f n offset seq hash rule: hashPrefixLoop.induct)
  case (1 S f n offset seq hash)
  show ?case unfolding hashPrefixLoop.simps[of S f n offset seq hash] Let_def
    by (intro keeps_rules send_calls 1) simp_all
qed

lemma keeps_hashSendPrefix [send_calls]: "keeps R (hashSendPrefix S f n)"
  unfolding hashSendPrefix_def by (intro keeps_rules send_calls)

end

text \<open>A relation that also the sealing and sending of chunks keeps is kept by the chunk loop.\<close>

locale bulk_frame = sender_frame R for R :: "Sender \<Rightarrow> Sender \<Rightarrow> bool" +
  assumes keeps_bulk: "R w (w\<lparr>sxSealed := s\<rparr>)" "R w (w\<lparr>sxBulkOut := b\<rparr>)"
begin

lemma keeps_bulk_updates [send_calls]: "keeps R (modifyIO (sxSealed_update f))" "keeps R (modifyIO (sxBulkOut_update g))"
  by (rule keeps_modify, subst update_as_assignment, rule keeps_bulk)+

lemma keeps_sendChunk [send_calls]: "keeps R (sendChunk S f seq n chunk)"
  unfolding sendChunk_def transmitChunk_def sealChunk_def bulkSend_def by (intro keeps_rules send_calls)

lemma keeps_sendChunks [send_calls]: "keeps R (sendChunks S f seq n hash)"
proof (induction S f seq n hash rule: sendChunks.induct)
  case (1 S f seq n hash)
  show ?case unfolding sendChunks.simps[of S f seq n hash] by (intro keeps_rules send_calls 1) simp_all
qed

end

text \<open>A relation that also the sending of control messages keeps is kept by the whole function.\<close>

locale sending_frame = bulk_frame R for R :: "Sender \<Rightarrow> Sender \<Rightarrow> bool" +
  assumes keeps_out: "R w (w\<lparr>sxControlOut := c\<rparr>)"
begin

lemma keeps_out_update [send_calls]: "keeps R (modifyIO (sxControlOut_update h))"
  by (rule keeps_modify, subst update_as_assignment, rule keeps_out)

lemma keeps_control [send_calls]: "keeps R (sendSenderControl S checked m)"
  unfolding sendSenderControl_def controlSend_def by (intro keeps_rules send_calls)

lemma keeps_askRestart [send_calls]: "keeps R (askRestart S fid)"
  unfolding askRestart_def by (intro keeps_rules send_calls)

lemma keeps_readyLoop [send_calls]: "keeps R (readyLoop S f n)"
  by (induction n) (simp_all, (intro keeps_rules send_calls | assumption)+)

lemma keeps_verifiedReadyState [send_calls]: "keeps R (verifiedReadyState S f)"
  unfolding verifiedReadyState_def by (intro keeps_rules send_calls)

lemma keeps_finishFile [send_calls]: "keeps R (finishFile S f r)"
  unfolding finishFile_def by (intro keeps_rules send_calls)

lemma keeps_sendFile [send_calls]: "keeps R (sendFile S f)"
  unfolding sendFile_def sendContent_def by (intro keeps_rules send_calls)

lemma keeps_sendEach [send_calls]: "keeps R (sendEach S fs)"
  by (induction fs) (simp_all, (intro keeps_rules send_calls | assumption)+)

lemma keeps_sendBody [send_calls]: "keeps R (sendBody S files)"
  unfolding sendBody_def by (intro keeps_rules send_calls)

end

end
