(* ===== verification/SenderLog.thy ===== *)
theory SenderLog
  imports SenderFrames
begin

text \<open>
  What \<open>sendFiles\<close> seals and sends. The contracts speak of the three logs of the state only: every part
  of the function that sends nothing leaves them alone (\<open>sameLog\<close>).
\<close>

section \<open>Contracts on the logs\<close>

definition sameLog :: "Sender \<Rightarrow> Sender \<Rightarrow> bool" where
  "sameLog w v \<longleftrightarrow> sxSealed v = sxSealed w \<and> sxBulkOut v = sxBulkOut w \<and> sxControlOut v = sxControlOut w"

interpretation log: sender_frame sameLog
  by unfold_locales (auto simp: sameLog_def)

type_synonym sendLog = "(nat \<times> nat \<times> bytes) list \<times> jsval list \<times> ControlMessage list"

definition sendLog :: "Sender \<Rightarrow> sendLog" where
  "sendLog w = (sxSealed w, sxBulkOut w, map fst (sxControlOut w))"

definition logs :: "(sendLog \<Rightarrow> bool) \<Rightarrow> 'a sxio \<Rightarrow> ('a \<Rightarrow> sendLog \<Rightarrow> bool) \<Rightarrow> (sendLog \<Rightarrow> bool) \<Rightarrow> bool" where
  "logs P m Q E \<longleftrightarrow> contract (\<lambda>w. P (sendLog w)) m (\<lambda>x w. Q x (sendLog w)) (\<lambda>w. E (sendLog w))"

definition yields :: "'a sxio \<Rightarrow> ('a \<Rightarrow> bool) \<Rightarrow> bool" where
  "yields m V \<longleftrightarrow> (\<forall>w x v. returns m w x v \<longrightarrow> V x)"

lemma yields_any: "yields m (\<lambda>_. True)"
  by (simp add: yields_def)

lemma yields_pure: "V x \<Longrightarrow> yields (pureIO x) V" and yields_fail: "yields (failIO msg) V"
  by (simp_all add: yields_def run_simps)

lemma yields_bind: "yields m U \<Longrightarrow> (\<And>x. U x \<Longrightarrow> yields (f x) V) \<Longrightarrow> yields (bindIO m f) V"
  unfolding yields_def run_simps by blast

lemma logs_quiet:
  assumes "keeps sameLog m" "yields m V" "\<And>x l. V x \<Longrightarrow> P l \<Longrightarrow> Q x l" "\<And>l. P l \<Longrightarrow> E l" shows "logs P m Q E"
proof -
  have "sendLog (snd (m w)) = sendLog w" for w using assms(1) by (auto simp: keeps_def sameLog_def sendLog_def)
  then show ?thesis using assms(2-4) unfolding logs_def contract_iff yields_def returns_def throws_def by (metis snd_conv)
qed

lemma logs_bind: "logs P m R E \<Longrightarrow> (\<And>x. logs (R x) (f x) Q E) \<Longrightarrow> logs P (bindIO m f) Q E"
  unfolding logs_def by (rule contract_bind)

lemma logs_weaken: "logs P' m Q' E' \<Longrightarrow> (\<And>l. P l \<Longrightarrow> P' l) \<Longrightarrow> (\<And>x l. Q' x l \<Longrightarrow> Q x l) \<Longrightarrow> (\<And>l. E' l \<Longrightarrow> E l) \<Longrightarrow> logs P m Q E"
  unfolding logs_def by (rule contract_weaken)

lemma logs_after:
  assumes "keeps sameLog m" "yields m V" "\<And>l. P l \<Longrightarrow> E l" "\<And>x. V x \<Longrightarrow> logs P (f x) Q E" shows "logs P (bindIO m f) Q E"
proof (rule logs_bind)
  show "logs P m (\<lambda>x l. V x \<and> P l) E" by (rule logs_quiet[OF assms(1,2)]) (use assms(3) in auto)
  show "logs (\<lambda>l. V x \<and> P l) (f x) Q E" for x using assms(4)[of x] unfolding logs_def contract_def by (cases "V x") simp_all
qed

lemmas logs_then = logs_after[OF _ yields_any]

lemma logs_pure: "(\<And>l. P l \<Longrightarrow> Q x l) \<Longrightarrow> logs P (pureIO x) Q E" and logs_fail: "(\<And>l. P l \<Longrightarrow> E l) \<Longrightarrow> logs P (failIO msg) Q E"
  unfolding logs_def by (rule contract_basic, simp)+

lemma logs_if: "(b \<Longrightarrow> logs P m Q E) \<Longrightarrow> (\<not> b \<Longrightarrow> logs P n Q E) \<Longrightarrow> logs P (if b then m else n) Q E"
  by simp

lemma logs_awaiting:
  assumes "logs P m Q E" "\<And>x l. Q x l \<Longrightarrow> E l" shows "logs P (awaitingSend S m) Q E"
proof -
  have ev: "logs R (awaitSender S) (\<lambda>_. R) E" if "\<And>l. R l \<Longrightarrow> E l" for R
    using that by (intro logs_quiet[OF _ yields_any] send_calls)
  show ?thesis unfolding awaitingSend_def logs_def
    by (rule contract_finally[OF assms(1)[unfolded logs_def]]; rule ev[unfolded logs_def]) (use assms(2) in auto)
qed

lemma logs_option:
  "(y = None \<Longrightarrow> logs P m Q E) \<Longrightarrow> (\<And>x. y = Some x \<Longrightarrow> logs P (f x) Q E) \<Longrightarrow> logs P (case y of None \<Rightarrow> m | Some x \<Rightarrow> f x) Q E"
  by (cases y) simp_all

lemma logs_lift: "(\<And>x l. r = ok x \<Longrightarrow> P l \<Longrightarrow> Q x l) \<Longrightarrow> (\<And>l. P l \<Longrightarrow> E l) \<Longrightarrow> logs P (liftRes r) Q E"
  unfolding logs_def contract_def by (cases r) (simp_all add: io_defs)

lemma logs_control:
  assumes "\<And>s b c. P (s, b, c) \<Longrightarrow> E (s, b, c) \<and> Q () (s, b, c @ [m])" shows "logs P (sendSenderControl S checked m) Q E"
  unfolding sendSenderControl_def controlSend_def
proof (intro logs_then log.keeps_rules send_calls logs_if)
  show "logs P (modifyIO (sxControlOut_update (\<lambda>out. out @ [(m, t)]))) Q E" for t
    unfolding logs_def by (rule contract_basic) (use assms in \<open>auto simp: sendLog_def\<close>)
  show "logs P (failIO msg) Q E" for msg :: string by (rule logs_fail) (use assms in auto)
qed (use assms in auto)

section \<open>Invariants of the logs\<close>

definition preparedChunks :: "Crypto \<Rightarrow> SendFile \<Rightarrow> bytes list \<Rightarrow> bool" where
  "preparedChunks C f chunks \<longleftrightarrow> (\<forall>q < length chunks. chunkHash f q = Some (digestHex C (chunks ! q)))"

lemma prepared_append: "preparedChunks C f (chunks @ [c]) \<longleftrightarrow> preparedChunks C f chunks \<and> chunkHash f (length chunks) = Some (digestHex C c)"
  by (auto simp: preparedChunks_def nth_append less_Suc_eq)

definition sealedOf :: "nat \<Rightarrow> sendLog \<Rightarrow> (nat \<times> nat \<times> bytes) list" where
  "sealedOf fid l = filter (\<lambda>(i, _). i = fid) (fst l)"

text \<open>Every sealed chunk was prepared, no address was sealed twice, every frame holds a sealed chunk.\<close>

definition sealedFrame :: "SendSetup \<Rightarrow> (nat \<times> nat \<times> bytes) set \<Rightarrow> jsval \<Rightarrow> bool" where
  "sealedFrame S chunks d \<longleftrightarrow> (\<exists>fid q c s. (fid, q, c) \<in> chunks
     \<and> sealBulk (sndCrypto S) (sndKeys S) (NInt (int fid)) (NInt (int q)) (Uint8Array True c) = ok s
     \<and> encodeChunk (NInt (int fid)) (NInt (int q)) (Uint8Array True s) = ok d)"

lemma sealedFrame_mono: "sealedFrame S A d \<Longrightarrow> A \<subseteq> B \<Longrightarrow> sealedFrame S B d"
  unfolding sealedFrame_def by blast

definition preparedChunk :: "SendSetup \<Rightarrow> SendFile list \<Rightarrow> nat \<times> nat \<times> bytes \<Rightarrow> bool" where
  "preparedChunk S files x \<longleftrightarrow> (\<exists>f \<in> set files. sendId f = fst x \<and> chunkHash f (fst (snd x)) = Some (digestHex (sndCrypto S) (snd (snd x))))"

definition sealedOk :: "SendSetup \<Rightarrow> SendFile list \<Rightarrow> sendLog \<Rightarrow> bool" where
  "sealedOk S files l \<longleftrightarrow> (\<forall>x \<in> set (fst l). preparedChunk S files x)
     \<and> distinct (map (\<lambda>(fid, q, _). (fid, q)) (fst l)) \<and> (\<forall>d \<in> set (fst (snd l)). sealedFrame S (set (fst l)) d)"

definition completeFile :: "Crypto \<Rightarrow> SendFile \<Rightarrow> sendLog \<Rightarrow> bool" where
  "completeFile C f l \<longleftrightarrow> (\<exists>chunks start. start \<le> length chunks \<and> sealedOf (sendId f) l = map (\<lambda>q. (sendId f, q, chunks ! q)) [start..<length chunks]
     \<and> length chunks = length (sendChunkSha256 f) \<and> preparedChunks C f chunks
     \<and> length (concat chunks) = sendSize f \<and> digestHex C (concat chunks) = sendSha256 f)"

definition endsOk :: "SendSetup \<Rightarrow> SendFile list \<Rightarrow> sendLog \<Rightarrow> bool" where
  "endsOk S files l \<longleftrightarrow> (\<forall>fid sha. FileEnd fid sha \<in> set (snd (snd l)) \<longrightarrow>
     (\<exists>f \<in> set files. sendId f = fid \<and> sendSha256 f = sha \<and> completeFile (sndCrypto S) f l))"

definition logOk :: "SendSetup \<Rightarrow> SendFile list \<Rightarrow> sendLog \<Rightarrow> bool" where
  "logOk S files l \<longleftrightarrow> sealedOk S files l \<and> endsOk S files l"

text \<open>So far nothing was sealed from address \<open>(fid, n)\<close> on, and no file from \<open>fid\<close> on has ended.\<close>

definition upTo :: "nat \<Rightarrow> nat \<Rightarrow> sendLog \<Rightarrow> bool" where
  "upTo fid n l \<longleftrightarrow> (\<forall>i q c. (i, q, c) \<in> set (fst l) \<longrightarrow> i < fid \<or> i = fid \<and> q < n) \<and> (\<forall>i sha. FileEnd i sha \<in> set (snd (snd l)) \<longrightarrow> i < fid)"

text \<open>In the middle of a file: the chunks up to \<open>seq\<close> are known, those from \<open>start\<close> on are sealed.\<close>

definition inFile :: "SendSetup \<Rightarrow> SendFile list \<Rightarrow> SendFile \<Rightarrow> nat \<Rightarrow> nat \<Rightarrow> Sha256 \<Rightarrow> sendLog \<Rightarrow> bool" where
  "inFile S files f seq fileBytes hash l \<longleftrightarrow> logOk S files l \<and> upTo (sendId f) seq l
     \<and> (\<exists>chunks start. start \<le> seq \<and> length chunks = seq \<and> preparedChunks (sndCrypto S) f chunks \<and> hash = concat chunks \<and> fileBytes = length hash
        \<and> sealedOf (sendId f) l = map (\<lambda>q. (sendId f, q, chunks ! q)) [start..<seq])"

lemma seal_keeps:
  assumes ok: "logOk S files (s, b, c)" and up: "upTo (sendId f) seq (s, b, c)" and f: "f \<in> set files"
    and h: "chunkHash f seq = Some (digestHex (sndCrypto S) chunk)"
  shows "logOk S files (s @ [(sendId f, seq, chunk)], b, c)"
proof -
  have fresh: "(sendId f, seq) \<notin> (\<lambda>(fid, q, _). (fid, q)) ` set s" using up by (fastforce simp: upTo_def)
  have sealed: "sealedOk S files (s @ [(sendId f, seq, chunk)], b, c)"
    using ok fresh f h sealedFrame_mono[of S "set s" _ "set (s @ [(sendId f, seq, chunk)])"]
    unfolding logOk_def sealedOk_def by (auto simp: preparedChunk_def)
  have other: "completeFile (sndCrypto S) g (s @ [(sendId f, seq, chunk)], b, c)" if "completeFile (sndCrypto S) g (s, b, c)" "sendId g \<noteq> sendId f" for g
    using that by (simp add: completeFile_def sealedOf_def)
  have "endsOk S files (s @ [(sendId f, seq, chunk)], b, c)"
    unfolding endsOk_def
  proof (intro allI impI)
    fix fid sha assume e: "FileEnd fid sha \<in> set (snd (snd (s @ [(sendId f, seq, chunk)], b, c)))"
    then obtain g where g: "g \<in> set files" "sendId g = fid" "sendSha256 g = sha" "completeFile (sndCrypto S) g (s, b, c)"
      using ok by (auto simp: logOk_def endsOk_def)
    moreover have "fid < sendId f" using e up by (auto simp: upTo_def)
    ultimately show "\<exists>g\<in>set files. sendId g = fid \<and> sendSha256 g = sha \<and> completeFile (sndCrypto S) g (s @ [(sendId f, seq, chunk)], b, c)"
      using other by (intro bexI[of _ g]) auto
  qed
  with sealed show ?thesis by (simp add: logOk_def)
qed

lemma seal_upTo: "upTo fid seq (s, b, c) \<Longrightarrow> upTo fid (Suc seq) (s @ [(fid, seq, chunk)], b, c)"
  by (auto simp: upTo_def less_Suc_eq)

lemma bulk_irrelevant: "completeFile C f (s, b, c) = completeFile C f (s, b', c')" "sealedOf fid (s, b, c) = sealedOf fid (s, b', c')"
  by (simp_all add: completeFile_def sealedOf_def)

section \<open>Chunks\<close>

lemma logs_seal:
  assumes "f \<in> set files" "chunkHash f seq = Some (digestHex (sndCrypto S) chunk)"
  shows "logs (inFile S files f seq n hash) (awaitingSend S (sealChunk S (sendId f) seq chunk))
    (\<lambda>c l. inFile S files f (Suc seq) (n + length chunk) (hash @ chunk) l \<and> (sendId f, seq, chunk) \<in> set (fst l)
       \<and> sealBulk (sndCrypto S) (sndKeys S) (NInt (int (sendId f))) (NInt (int seq)) (Uint8Array True chunk) = ok c) (logOk S files)"
proof -
  let ?x = "(sendId f, seq, chunk)"
  let ?P = "\<lambda>l. inFile S files f (Suc seq) (n + length chunk) (hash @ chunk) l \<and> ?x \<in> set (fst l)"
  have step: "?P (s @ [?x], b, c)" if i: "inFile S files f seq n hash (s, b, c)" for s b c
  proof -
    from i obtain chunks start where c: "start \<le> seq" "length chunks = seq" "preparedChunks (sndCrypto S) f chunks" "hash = concat chunks"
      "n = length hash" "sealedOf (sendId f) (s, b, c) = map (\<lambda>q. (sendId f, q, chunks ! q)) [start..<seq]"
      by (auto simp: inFile_def)
    have m: "map (\<lambda>q. (sendId f, q, (chunks @ [chunk]) ! q)) [start..<Suc seq] = map (\<lambda>q. (sendId f, q, chunks ! q)) [start..<seq] @ [?x]"
      using c(1,2) by (auto simp: nth_append)
    have "\<exists>chunks start. start \<le> Suc seq \<and> length chunks = Suc seq \<and> preparedChunks (sndCrypto S) f chunks \<and> hash @ chunk = concat chunks
        \<and> n + length chunk = length (hash @ chunk) \<and> sealedOf (sendId f) (s @ [?x], b, c) = map (\<lambda>q. (sendId f, q, chunks ! q)) [start..<Suc seq]"
      unfolding m[symmetric] using c assms(2) m
      by (intro exI[of _ "chunks @ [chunk]"] exI[of _ start]) (auto simp: prepared_append sealedOf_def)
    moreover have "logOk S files (s @ [?x], b, c)" "upTo (sendId f) (Suc seq) (s @ [?x], b, c)"
      using i seal_keeps[OF _ _ assms] seal_upTo by (auto simp: inFile_def)
    ultimately show ?thesis by (simp add: inFile_def)
  qed
  have log: "logs (inFile S files f seq n hash) (modifyIO (sxSealed_update (\<lambda>out. out @ [?x]))) (\<lambda>_. ?P) (logOk S files)"
    unfolding logs_def by (rule contract_basic) (use step in \<open>simp add: sendLog_def\<close>)
  have out: "logs ?P (liftRes r) (\<lambda>c l. ?P l \<and> r = ok c) (logOk S files)" for r :: "bytes res"
    by (rule logs_lift) (simp_all add: inFile_def)
  have "logs (inFile S files f seq n hash) (awaitingSend S (sealChunk S (sendId f) seq chunk))
      (\<lambda>c l. ?P l \<and> sealBulk (sndCrypto S) (sndKeys S) (NInt (int (sendId f))) (NInt (int seq)) (Uint8Array True chunk) = ok c) (logOk S files)"
    unfolding sealChunk_def by (rule logs_awaiting[OF logs_bind[OF log out]]) (simp add: inFile_def)
  then show ?thesis by (rule logs_weaken) auto
qed

lemma inFile_bulk:
  assumes "inFile S files f seq n hash (s, b, c)" "sealedFrame S (set s) d" shows "inFile S files f seq n hash (s, b @ [d], c)"
proof -
  have "sealedOk S files (s, b @ [d], c)" using assms by (auto simp: inFile_def logOk_def sealedOk_def)
  moreover have "endsOk S files (s, b @ [d], c)" using assms(1) bulk_irrelevant(1)[of _ _ s b c]
    by (auto simp: inFile_def logOk_def endsOk_def) metis
  ultimately show ?thesis using assms(1) by (auto simp: inFile_def logOk_def upTo_def sealedOf_def)
qed

lemma logs_transmit:
  assumes "f \<in> set files" "chunkHash f seq = Some (digestHex (sndCrypto S) chunk)"
  shows "logs (inFile S files f seq n hash) (transmitChunk S (sendId f) seq chunk)
    (\<lambda>_. inFile S files f (Suc seq) (n + length chunk) (hash @ chunk)) (logOk S files)"
proof -
  let ?Q = "inFile S files f (Suc seq) (n + length chunk) (hash @ chunk)"
  have q: "\<And>l. ?Q l \<Longrightarrow> logOk S files l" by (simp add: inFile_def)
  have send: "logs (\<lambda>l. ?Q l \<and> sealedFrame S (set (fst l)) d) (bulkSend d) (\<lambda>_. ?Q) (logOk S files)" for d
    unfolding bulkSend_def
  proof (intro logs_then log.keeps_rules send_calls logs_if logs_fail)
    show "logs (\<lambda>l. ?Q l \<and> sealedFrame S (set (fst l)) d) (modifyIO (sxBulkOut_update (\<lambda>out. out @ [d]))) (\<lambda>_. ?Q) (logOk S files)"
      unfolding logs_def by (rule contract_basic) (simp add: sendLog_def inFile_bulk)
  qed (simp_all add: q)
  have rest: "logs ?Q (bindIO (modifyIO (sxTransferred_update k)) (\<lambda>_. bindIO (awaitingSend S drainBulk) (\<lambda>_. throwIfSenderFailed S))) (\<lambda>_. ?Q) (logOk S files)" for k
    by (rule logs_quiet[OF _ yields_any]) (intro log.keeps_rules send_calls | simp add: q)+
  have frame: "logs (\<lambda>l. ?Q l \<and> (sendId f, seq, chunk) \<in> set (fst l)
      \<and> sealBulk (sndCrypto S) (sndKeys S) (NInt (int (sendId f))) (NInt (int seq)) (Uint8Array True chunk) = ok c)
      (liftRes (encodeChunk (NInt (int (sendId f))) (NInt (int seq)) (Uint8Array True c))) (\<lambda>d l. ?Q l \<and> sealedFrame S (set (fst l)) d) (logOk S files)" for c
    by (rule logs_lift) (auto simp: q sealedFrame_def)
  show ?thesis unfolding transmitChunk_def
    by (rule logs_bind[OF logs_seal[OF assms]], rule logs_then, intro send_calls, simp add: q, rule logs_bind[OF frame], rule logs_bind[OF send rest])
qed

lemma logs_sendChunk:
  assumes "f \<in> set files"
  shows "logs (inFile S files f seq n hash) (sendChunk S f seq n chunk)
    (\<lambda>_. inFile S files f (Suc seq) (n + length chunk) (hash @ chunk)) (logOk S files)"
  unfolding sendChunk_def
  by (intro logs_then log.keeps_throwIfFailed logs_if logs_option logs_fail logs_transmit assms) (auto simp: inFile_def)

lemma logs_sendChunks:
  assumes "f \<in> set files"
  shows "logs (inFile S files f seq n hash) (sendChunks S f seq n hash) (\<lambda>(seq, n, hash). inFile S files f seq n hash) (logOk S files)"
  using assms
proof (induction S f seq n hash rule: sendChunks.induct)
  case (1 S f seq n hash)
  have q: "\<And>l. inFile S files f s k h l \<Longrightarrow> logOk S files l" for s k h by (simp add: inFile_def)
  show ?case unfolding sendChunks.simps[of S f seq n hash]
  proof (rule logs_then)
    show "keeps sameLog (awaitingSend S (onSendFs (handleRead (sendHandle f) CHUNK_SIZE n)))" by (intro send_calls)
    show "logs (inFile S files f seq n hash) (if chunk = [] then pureIO (seq, n, hash) else bindIO (sendChunk S f seq n chunk) (\<lambda>_.
        if sendSize f < n + length chunk then failIO (changedSending f) else sendChunks S f (seq + 1) (n + length chunk) (hash @ chunk)))
      (\<lambda>(seq, n, hash). inFile S files f seq n hash) (logOk S files)" for chunk
      by (intro logs_if logs_pure logs_bind[OF logs_sendChunk[OF 1(2)]] logs_fail 1(1)[simplified])
        (use 1 q in simp_all)
  qed (rule q)
qed

section \<open>Resuming\<close>

definition prefixChunks :: "nat \<Rightarrow> nat" where
  "prefixChunks n = (n + CHUNK_SIZE - 1) div CHUNK_SIZE"

lemma prefixChunks_step: "0 < n \<Longrightarrow> prefixChunks n = Suc (prefixChunks (n - CHUNK_SIZE))"
  unfolding prefixChunks_def
  by (cases "n \<le> CHUNK_SIZE") (auto simp: CHUNK_SIZE_def div_if le_div_geq Suc_diff_le)

lemma prefix_loop:
  "yields (hashPrefixLoop S f n offset seq hash)
     (\<lambda>h. \<exists>more. h = hash @ concat more \<and> (\<forall>q < length more. chunkHash f (seq + q) = Some (digestHex (sndCrypto S) (more ! q)))
        \<and> length (concat more) = n - offset \<and> length more = prefixChunks (n - offset))"
proof (induction S f n offset seq hash rule: hashPrefixLoop.induct)
  case (1 S f n offset seq hash)
  show ?case
  proof (cases "offset < n")
    case True
    let ?V = "\<lambda>h. \<exists>more. h = hash @ concat more \<and> (\<forall>q < length more. chunkHash f (seq + q) = Some (digestHex (sndCrypto S) (more ! q)))
        \<and> length (concat more) = n - offset \<and> length more = prefixChunks (n - offset)"
    have step: "yields (hashPrefixLoop S f n (offset + CHUNK_SIZE) (seq + 1) (hash @ chunk)) ?V"
      if c: "length chunk = min CHUNK_SIZE (n - offset)" "chunkHash f seq = Some (digestHex (sndCrypto S) chunk)" for chunk
    proof -
      have *: "?V h" if "h = (hash @ chunk) @ concat more" "\<forall>q < length more. chunkHash f (seq + 1 + q) = Some (digestHex (sndCrypto S) (more ! q))"
        "length (concat more) = n - (offset + CHUNK_SIZE)" "length more = prefixChunks (n - (offset + CHUNK_SIZE))" for h more
        using that c True prefixChunks_step[of "n - offset"]
        by (intro exI[of _ "chunk # more"]) (auto simp: nth_Cons' less_Suc_eq_0_disj min_def)
      show ?thesis using 1[OF True refl _ c(2), of chunk] c * unfolding yields_def by blast
    qed
    show ?thesis unfolding hashPrefixLoop.simps[of S f n offset seq hash] Let_def
      using True by (auto intro!: yields_bind[OF yields_any] yields_fail step[simplified] split: option.split)
  next
    case False
    then show ?thesis unfolding hashPrefixLoop.simps[of S f n offset seq hash]
      by (auto intro!: yields_pure simp: prefixChunks_def CHUNK_SIZE_def)
  qed
qed

lemma prefix_hashed:
  "yields (hashSendPrefix S f n) (\<lambda>(hash, _). \<exists>chunks. hash = concat chunks \<and> preparedChunks (sndCrypto S) f chunks
     \<and> length hash = n \<and> length chunks = prefixChunks n)"
proof (cases "n = 0")
  case True
  then show ?thesis unfolding hashSendPrefix_def by (auto intro!: yields_pure exI[of _ "[]"] simp: preparedChunks_def prefixChunks_def CHUNK_SIZE_def)
next
  case False
  then show ?thesis unfolding hashSendPrefix_def
    by (simp, intro yields_bind[OF prefix_loop[of S f n 0 0 "[]"]] yields_pure) (auto simp: preparedChunks_def)
qed

definition planned :: "SendFile \<Rightarrow> bool" where
  "planned f \<longleftrightarrow> length (sendChunkSha256 f) = prefixChunks (sendSize f)"

definition resumable :: "SendFile \<Rightarrow> nat \<Rightarrow> bool" where
  "resumable f n \<longleftrightarrow> n = sendSize f \<or> n < sendSize f \<and> n mod CHUNK_SIZE = 0"

lemma ready_resumable: "yields (readyLoop S f n) (\<lambda>r. resumable f (readyOffset r))"
  by (induction n) (auto intro!: yields_fail yields_bind[OF yields_any] yields_pure simp: resumable_def split: prod.split)

lemma first_chunks: "planned f \<Longrightarrow> resumable f n \<Longrightarrow> firstSeq f n = prefixChunks n"
  unfolding planned_def resumable_def firstSeq_def prefixChunks_def by (auto simp: CHUNK_SIZE_def elim!: dvdE)

section \<open>Files and transfers\<close>

lemma control_keeps:
  assumes "\<And>i sha. m \<noteq> FileEnd i sha"
  shows "logOk S files (s, b, c) \<Longrightarrow> logOk S files (s, b, c @ [m])" "upTo fid n (s, b, c) \<Longrightarrow> upTo fid n (s, b, c @ [m])"
proof -
  have m: "FileEnd i sha \<in> set (c @ [m]) \<longleftrightarrow> FileEnd i sha \<in> set c" for i sha using assms[of i sha] by auto
  show "logOk S files (s, b, c) \<Longrightarrow> logOk S files (s, b, c @ [m])"
    unfolding logOk_def endsOk_def snd_conv m bulk_irrelevant(1)[of _ _ s b "c @ [m]" b c] by (simp add: sealedOk_def)
  show "upTo fid n (s, b, c) \<Longrightarrow> upTo fid n (s, b, c @ [m])" unfolding upTo_def snd_conv m by simp
qed

definition betweenFiles :: "SendSetup \<Rightarrow> SendFile list \<Rightarrow> nat \<Rightarrow> sendLog \<Rightarrow> bool" where
  "betweenFiles S files fid l \<longleftrightarrow> logOk S files l \<and> upTo fid 0 l"

lemma between_control:
  assumes "\<And>i sha. m \<noteq> FileEnd i sha"
  shows "logs (betweenFiles S files fid) (sendSenderControl S checked m) (\<lambda>_. betweenFiles S files fid) (logOk S files)"
  by (rule logs_control) (use control_keeps[OF assms] in \<open>auto simp: betweenFiles_def\<close>)

lemma between_quiet: "keeps sameLog m \<Longrightarrow> logs (betweenFiles S files fid) m (\<lambda>_. betweenFiles S files fid) (logOk S files)"
  by (rule logs_quiet[OF _ yields_any]) (auto simp: betweenFiles_def)

lemma between_inFile:
  assumes "betweenFiles S files (sendId f) l" "hash = concat chunks" "preparedChunks (sndCrypto S) f chunks"
  shows "inFile S files f (length chunks) (length hash) hash l"
proof -
  have "upTo (sendId f) (length chunks) l" and none: "sealedOf (sendId f) l = []"
    using assms(1) by (fastforce simp: betweenFiles_def upTo_def, force simp: betweenFiles_def upTo_def sealedOf_def filter_empty_conv)
  with assms show ?thesis unfolding inFile_def betweenFiles_def
    by (intro conjI exI[of _ chunks] exI[of _ "length chunks"]) simp_all
qed

lemma logs_readyLoop: "logs (betweenFiles S files fid) (readyLoop S f n) (\<lambda>_. betweenFiles S files fid) (logOk S files)"
proof (induction n)
  case 0
  show ?case unfolding readyLoop.simps by (rule logs_fail) (simp add: betweenFiles_def)
next
  case (Suc n)
  note q = between_quiet[of _ S files fid]
  have restart: "logs (betweenFiles S files fid) (askRestart S (sendId f)) (\<lambda>_. betweenFiles S files fid) (logOk S files)"
    unfolding askRestart_def by (intro logs_bind[OF q] logs_bind[OF between_control] q send_calls) simp
  show ?case unfolding readyLoop.simps
    by (intro logs_bind[OF q[OF log.keeps_throwIfFailed]] logs_bind[OF q[OF log.keeps_send(4)]] logs_if logs_fail logs_pure logs_bind[OF q[OF log.keeps_hashSendPrefix]])
      (auto simp: betweenFiles_def[of S files fid, symmetric] split: prod.split intro!: logs_bind[OF q[OF log.keeps_throwIfFailed]] logs_bind[OF restart] logs_pure Suc,
       auto simp: betweenFiles_def)
qed

lemma file_ended:
  assumes "inFile S files f seq n hash (s, b, c)" "f \<in> set files" "seq = length (sendChunkSha256 f)" "n = sendSize f" "digestHex (sndCrypto S) hash = sendSha256 f"
  shows "betweenFiles S files (Suc (sendId f)) (s, b, c @ [FileEnd (sendId f) (sendSha256 f)])"
proof -
  have "completeFile (sndCrypto S) f (s, b, c)" using assms unfolding inFile_def completeFile_def by blast
  then have "endsOk S files (s, b, c @ [FileEnd (sendId f) (sendSha256 f)])"
    using assms(1,2) bulk_irrelevant(1)[of _ _ s b "c @ [FileEnd (sendId f) (sendSha256 f)]" b c] unfolding inFile_def logOk_def endsOk_def by auto
  moreover have "upTo (Suc (sendId f)) 0 (s, b, c @ [FileEnd (sendId f) (sendSha256 f)])"
    using assms(1) by (fastforce simp: inFile_def upTo_def)
  ultimately show ?thesis using assms(1) by (simp add: betweenFiles_def inFile_def logOk_def sealedOk_def)
qed

lemma logs_finish:
  assumes "f \<in> set files"
  shows "logs (inFile S files f seq n hash) (finishFile S f (seq, n, hash)) (\<lambda>_. betweenFiles S files (Suc (sendId f))) (logOk S files)"
proof -
  have e: "logs (\<lambda>l. inFile S files f seq n hash l) (sendSenderControl S True (FileEnd (sendId f) (sendSha256 f)))
      (\<lambda>_. betweenFiles S files (Suc (sendId f))) (logOk S files)"
    if "seq = length (sendChunkSha256 f)" "n = sendSize f" "digestHex (sndCrypto S) hash = sendSha256 f"
    by (rule logs_control) (use file_ended[OF _ assms that] in \<open>auto simp: inFile_def\<close>)
  show ?thesis unfolding finishFile_def prod.case
    by (intro logs_if logs_fail logs_then log.keeps_throwIfFailed logs_bind[OF e] between_quiet log.keeps_waitAck) (auto simp: inFile_def)
qed

lemma logs_sendContent:
  assumes "f \<in> set files" "planned f" "resumable f n"
  shows "logs (betweenFiles S files (sendId f)) (sendContent S f n) (\<lambda>_. betweenFiles S files (Suc (sendId f))) (logOk S files)"
proof -
  have ok: "\<And>l. betweenFiles S files (sendId f) l \<Longrightarrow> logOk S files l" by (simp add: betweenFiles_def)
  have chunks: "logs (betweenFiles S files (sendId f)) (bindIO (sendChunks S f (firstSeq f n) n hash) (finishFile S f))
      (\<lambda>_. betweenFiles S files (Suc (sendId f))) (logOk S files)"
    if "hash = concat chunks" "preparedChunks (sndCrypto S) f chunks" "length hash = n" "length chunks = prefixChunks n" for hash chunks
  proof (rule logs_bind)
    show "logs (betweenFiles S files (sendId f)) (sendChunks S f (firstSeq f n) n hash) (\<lambda>(seq, n, hash). inFile S files f seq n hash) (logOk S files)"
      by (rule logs_weaken[OF logs_sendChunks[OF assms(1)]]) (use between_inFile[OF _ that(1,2)] that(3,4) first_chunks[OF assms(2,3)] in auto)
    show "logs (case r of (seq, n, hash) \<Rightarrow> inFile S files f seq n hash) (finishFile S f r) (\<lambda>_. betweenFiles S files (Suc (sendId f))) (logOk S files)" for r
      using logs_finish[OF assms(1)] by (cases r) simp
  qed
  show ?thesis unfolding sendContent_def
  proof (rule logs_after[OF log.keeps_hashSendPrefix prefix_hashed ok])
    fix r :: "Sha256 \<times> jsstring option"
    assume "case r of (hash, _) \<Rightarrow> \<exists>chunks. hash = concat chunks \<and> preparedChunks (sndCrypto S) f chunks \<and> length hash = n \<and> length chunks = prefixChunks n"
    then obtain hash p chunks' where r: "r = (hash, p)" "hash = concat chunks'" "preparedChunks (sndCrypto S) f chunks'" "length hash = n"
      "length chunks' = prefixChunks n" by (cases r) auto
    show "logs (betweenFiles S files (sendId f)) (case r of (hash, _) \<Rightarrow> bindIO (throwIfSenderFailed S) (\<lambda>_.
        bindIO (modifyIO (sxTransferred_update (\<lambda>k. k + n))) (\<lambda>_. bindIO (sendChunks S f (firstSeq f n) n hash) (finishFile S f))))
      (\<lambda>_. betweenFiles S files (Suc (sendId f))) (logOk S files)"
      unfolding r(1) prod.case by (intro logs_then[OF log.keeps_throwIfFailed ok] logs_then[OF log.keeps_vars(3) ok] chunks[OF r(2-5)])
  qed
qed

lemma logs_sendFile:
  assumes "f \<in> set files" "planned f"
  shows "logs (betweenFiles S files (sendId f)) (sendFile S f) (\<lambda>_. betweenFiles S files (Suc (sendId f))) (logOk S files)"
proof -
  note q = between_quiet[of _ S files "sendId f"]
  have ready: "logs (betweenFiles S files (sendId f)) (verifiedReadyState S f) (\<lambda>r l. resumable f (readyOffset r) \<and> betweenFiles S files (sendId f) l) (logOk S files)"
  proof -
    have "contract (\<lambda>w. betweenFiles S files (sendId f) (sendLog w)) (readyLoop S f n)
        (\<lambda>r w. resumable f (readyOffset r) \<and> betweenFiles S files (sendId f) (sendLog w)) (\<lambda>w. logOk S files (sendLog w))" for n
      using logs_readyLoop[of S files "sendId f" f n] ready_resumable[of S f n] unfolding logs_def contract_iff yields_def by blast
    then show ?thesis unfolding verifiedReadyState_def logs_def by (rule contract_read[OF contract_weaken]) auto
  qed
  have content: "logs (\<lambda>l. resumable f n \<and> betweenFiles S files (sendId f) l) (sendContent S f n) (\<lambda>_. betweenFiles S files (Suc (sendId f))) (logOk S files)" for n
    using logs_sendContent[OF assms, of n] unfolding logs_def contract_def by (cases "resumable f n") simp_all
  show ?thesis unfolding sendFile_def
    by (intro logs_bind[OF q[OF log.keeps_throwIfFailed]] logs_bind[OF between_control] logs_bind[OF q[OF log.keeps_waitAck]] logs_bind[OF ready content]) simp
qed

lemma logs_sendEach:
  assumes "set fs \<subseteq> set files" "list_all planned fs" "map sendId fs = [i..<i + length fs]"
  shows "logs (betweenFiles S files i) (sendEach S fs) (\<lambda>_. betweenFiles S files (i + length fs)) (logOk S files)"
  using assms
proof (induction fs arbitrary: i)
  case Nil
  then show ?case by (simp add: logs_pure)
next
  case (Cons f fs)
  then have i: "sendId f = i" "map sendId fs = [Suc i..<Suc i + length fs]" by (auto simp: upt_conv_Cons simp del: upt_Suc)
  show ?case unfolding sendEach.simps
    using logs_bind[OF logs_sendFile[of f files S, unfolded i(1)] Cons.IH[of "Suc i"]] Cons.prems i by simp
qed

lemma plan_files:
  assumes "sendPlanFiles files i = ok plan"
  shows "plan = files \<and> map sendId files = [i..<i + length files] \<and> list_all planned files"
  using assms
proof (induction files arbitrary: i plan)
  case (Cons f fs)
  have entry: "p = f \<and> sendId f = i \<and> planned f" if "sendPlanFileInput f i = ok p" for p
    using that by (auto simp: sendPlanFileInput_def sendChunkHashesInput_def planned_def prefixChunks_def CHUNK_SIZE_def split: if_splits)
  from Cons.prems obtain p ps where p: "sendPlanFileInput f i = ok p" "sendPlanFiles fs (i + 1) = ok ps" "plan = p # ps"
    by auto
  with entry[OF p(1)] Cons.IH[OF p(2)] show ?case by (auto simp: upt_conv_Cons simp del: upt_Suc)
qed simp

lemma plan_exact: "buildSendPlan files = ok plan \<Longrightarrow> plan = files \<and> map sendId files = [0..<length files] \<and> list_all planned files"
  using plan_files[of files 0 plan] by (auto simp: buildSendPlan_def split: if_splits)

lemma logOk_start: "betweenFiles S files 0 (sendLog (startSend fs events random faults drains))"
  by (simp add: sendLog_def startSend_def betweenFiles_def logOk_def sealedOk_def endsOk_def upTo_def)

lemma logs_sendBody: "logs (betweenFiles S files 0) (sendBody S files) (\<lambda>_. logOk S files) (logOk S files)"
proof -
  note q = between_quiet[of _ S files]
  let ?m = "assertTransferManifestWithinLimits (manifestObject (map sendEntry files) (sum_list (map sendSize files)))"
  have rest: "logs (betweenFiles S files 0) (bindIO (liftRes ?m) (\<lambda>_. bindIO (sendSenderControl S True (planManifest files)) (\<lambda>_.
      bindIO (sendEach S files) (\<lambda>_. bindIO (throwIfSenderFailed S) (\<lambda>_. bindIO (sendSenderControl S True AllDone) (\<lambda>_.
        waitAck S ''all-done-ok'' Undefined)))))) (\<lambda>_. logOk S files) (logOk S files)"
    if "map sendId files = [0..<length files]" "list_all planned files"
    by (intro logs_bind[OF q[OF log.keeps_lift]] logs_bind[OF between_control] logs_bind[OF logs_sendEach[of files files 0]] logs_bind[OF q[OF log.keeps_throwIfFailed]]
        logs_quiet[OF log.keeps_waitAck yields_any]) (use that in \<open>auto simp: planManifest_def betweenFiles_def\<close>)
  have plan: "logs (betweenFiles S files 0) (liftRes (buildSendPlan files)) (\<lambda>plan l. buildSendPlan files = ok plan \<and> betweenFiles S files 0 l) (logOk S files)"
    by (rule logs_lift) (auto simp: betweenFiles_def)
  show ?thesis unfolding sendBody_def
  proof (rule logs_bind[OF plan])
    fix plan
    let ?rest = "bindIO (liftRes (assertTransferManifestWithinLimits (manifestObject (map sendEntry plan) (sum_list (map sendSize plan))))) (\<lambda>_.
      bindIO (sendSenderControl S True (planManifest plan)) (\<lambda>_. bindIO (sendEach S plan) (\<lambda>_. bindIO (throwIfSenderFailed S) (\<lambda>_.
      bindIO (sendSenderControl S True AllDone) (\<lambda>_. waitAck S ''all-done-ok'' Undefined)))))"
    show "logs (\<lambda>l. buildSendPlan files = ok plan \<and> betweenFiles S files 0 l) ?rest (\<lambda>_. logOk S files) (logOk S files)"
    proof (cases "buildSendPlan files = ok plan")
      case True
      then show ?thesis using plan_exact[OF True] rest by simp
    qed (simp add: logs_def contract_def)
  qed
qed

lemma logs_sendFiles: "logs (betweenFiles S files 0) (sendFiles S files) (\<lambda>_. logOk S files) (logOk S files)"
proof -
  have abort: "logs (logOk S files) (ignoreIO (sendSenderControl S False (abortControlMessage r))) (\<lambda>_. logOk S files) (logOk S files)" for r
    unfolding ignoreIO_def logs_def
    by (rule contract_catch[OF logs_control[unfolded logs_def]]) (auto intro: contract_basic control_keeps simp: abortControlMessage_def)
  have "logs (logOk S files) (bindIO (ignoreIO (sendSenderControl S False (abortControlMessage r))) (\<lambda>_. raiseIO e)) (\<lambda>_. logOk S files) (logOk S files)" for r e
    by (rule logs_bind[OF abort]) (auto simp: logs_def intro: contract_basic)
  then have "logs (betweenFiles S files 0) (catchIO (sendBody S files) (\<lambda>e.
      bindIO (ignoreIO (sendSenderControl S False (abortControlMessage (errorText e)))) (\<lambda>_. raiseIO e))) (\<lambda>_. logOk S files) (logOk S files)"
    unfolding logs_def using logs_sendBody[of S files] by (intro contract_catch) (auto simp: logs_def)
  moreover have "logs (logOk S files) (onSendFs (closeSendFiles files)) (\<lambda>_. logOk S files) (logOk S files)"
    by (rule logs_quiet[OF log.keeps_fs yields_any]) auto
  ultimately show ?thesis unfolding sendFiles_def logs_def by (intro contract_finally) auto
qed

lemma contract_any: "contract P m (\<lambda>_. Q) Q \<Longrightarrow> P w \<Longrightarrow> Q (snd (m w))"
  unfolding contract_def by (cases "m w"; cases "fst (m w)") fastforce+

lemma any_send: "logOk S files (sendLog (snd (sendFiles S files (startSend fs events random faults drains))))"
  by (rule contract_any[OF logs_sendFiles[unfolded logs_def]]) (rule logOk_start)

end
