(* ===== verification/SenderConversation.thy ===== *)
theory SenderConversation
  imports SenderLog "HOL-Library.Sublist"
begin

text \<open>
  The order of the control messages of \<open>sendFiles\<close>: the manifest, then for each file \<open>file-begin\<close>, any
  number of \<open>restart\<close>s and \<open>file-end\<close>, then \<open>all-done\<close>; a call that fails stops somewhere in this order
  and sends at most one \<open>abort\<close> after it.
\<close>

definition fileMessages :: "SendFile \<Rightarrow> nat \<Rightarrow> ControlMessage list" where
  "fileMessages f k = FileBegin (sendId f) (sendName f) (sendSize f) # replicate k (Restart (sendId f)) @ [FileEnd (sendId f) (sendSha256 f)]"

definition conversation :: "SendFile list \<Rightarrow> nat list \<Rightarrow> ControlMessage list" where
  "conversation files ks = planManifest files # concat (map2 fileMessages files ks) @ [AllDone]"

text \<open>The messages so far: the files of \<open>sent\<close> are finished, \<open>p\<close> belongs to the next one.\<close>

definition talk :: "SendFile list \<Rightarrow> SendFile list \<Rightarrow> (nat \<Rightarrow> ControlMessage list) \<Rightarrow> sendLog \<Rightarrow> bool" where
  "talk files sent p l \<longleftrightarrow> (\<exists>ks k. length ks = length sent \<and> snd (snd l) = planManifest files # concat (map2 fileMessages sent ks) @ p k)"

definition stopped :: "SendFile list \<Rightarrow> sendLog \<Rightarrow> bool" where
  "stopped files l \<longleftrightarrow> (\<exists>ks. length ks = length files \<and> prefix (snd (snd l)) (conversation files ks))"

definition begun :: "SendFile \<Rightarrow> nat \<Rightarrow> ControlMessage list" where
  "begun f k = FileBegin (sendId f) (sendName f) (sendSize f) # replicate k (Restart (sendId f))"

lemma stopped_within:
  assumes "files = sent @ f # rest" "talk files sent p l" "\<And>k. prefix (p k) (fileMessages f k)" shows "stopped files l"
proof -
  from assms(2) obtain ks k where l: "length ks = length sent" "snd (snd l) = planManifest files # concat (map2 fileMessages sent ks) @ p k"
    by (auto simp: talk_def)
  let ?ks = "ks @ k # replicate (length rest) 0"
  have "concat (map2 fileMessages files ?ks) = concat (map2 fileMessages sent ks) @ fileMessages f k @ concat (map2 fileMessages rest (replicate (length rest) 0))"
    using l(1) by (simp add: assms(1))
  moreover obtain z where "fileMessages f k = p k @ z" using assms(3)[of k] by (auto elim: prefixE)
  ultimately have "prefix (snd (snd l)) (conversation files ?ks)" by (simp add: l(2) conversation_def)
  then show ?thesis using l(1) unfolding stopped_def by (intro exI[of _ ?ks]) (simp add: assms(1))
qed

lemma stopped_end: "talk files files (\<lambda>_. []) l \<Longrightarrow> stopped files l"
  unfolding talk_def stopped_def conversation_def by fastforce

lemma logs_talk_quiet:
  assumes "keeps sameLog m" "\<And>l. P l \<Longrightarrow> stopped files l" shows "logs P m (\<lambda>_. P) (stopped files)"
  by (rule logs_quiet[OF assms(1) yields_any]) (use assms(2) in auto)

definition sameControl :: "Sender \<Rightarrow> Sender \<Rightarrow> bool" where
  "sameControl w v \<longleftrightarrow> sxControlOut v = sxControlOut w"

interpretation chat: bulk_frame sameControl
  by unfold_locales (auto simp: sameControl_def)

lemma talk_stopped:
  assumes "files = sent @ f # rest"
  shows "talk files sent (\<lambda>_. []) l \<Longrightarrow> stopped files l" "talk files sent (begun f) l \<Longrightarrow> stopped files l"
  by (rule stopped_within[OF assms], assumption, simp add: fileMessages_def begun_def)+

lemma talk_begin:
  assumes "files = sent @ f # rest"
  shows "logs (talk files sent (\<lambda>_. [])) (sendSenderControl S b (FileBegin (sendId f) (sendName f) (sendSize f))) (\<lambda>_. talk files sent (begun f)) (stopped files)"
proof (rule logs_control)
  fix s b' c assume t: "talk files sent (\<lambda>_. []) (s, b', c)"
  then have "talk files sent (begun f) (s, b', c @ [FileBegin (sendId f) (sendName f) (sendSize f)])"
    unfolding talk_def begun_def by (auto intro!: exI[of _ "0 :: nat"])
  with talk_stopped(1)[OF assms t] show "stopped files (s, b', c) \<and> talk files sent (begun f) (s, b', c @ [FileBegin (sendId f) (sendName f) (sendSize f)])" ..
qed

lemma talk_restart:
  assumes "files = sent @ f # rest"
  shows "logs (talk files sent (begun f)) (sendSenderControl S b (Restart (sendId f))) (\<lambda>_. talk files sent (begun f)) (stopped files)"
proof (rule logs_control)
  fix s b' c assume t: "talk files sent (begun f) (s, b', c)"
  then obtain ks k where "length ks = length sent" "c = planManifest files # concat (map2 fileMessages sent ks) @ begun f k" by (auto simp: talk_def)
  moreover have "begun f k @ [Restart (sendId f)] = begun f (Suc k)" by (simp add: begun_def replicate_append_same)
  ultimately have "talk files sent (begun f) (s, b', c @ [Restart (sendId f)])" unfolding talk_def by (intro exI[of _ ks] exI[of _ "Suc k"]) simp
  with talk_stopped(2)[OF assms t] show "stopped files (s, b', c) \<and> talk files sent (begun f) (s, b', c @ [Restart (sendId f)])" ..
qed

lemma talk_end:
  assumes "files = sent @ f # rest"
  shows "logs (talk files sent (begun f)) (sendSenderControl S b (FileEnd (sendId f) (sendSha256 f))) (\<lambda>_. talk files (sent @ [f]) (\<lambda>_. [])) (stopped files)"
proof (rule logs_control)
  fix s b' c assume t: "talk files sent (begun f) (s, b', c)"
  then obtain ks k where "length ks = length sent" "c = planManifest files # concat (map2 fileMessages sent ks) @ begun f k" by (auto simp: talk_def)
  moreover have "begun f k @ [FileEnd (sendId f) (sendSha256 f)] = fileMessages f k" by (simp add: begun_def fileMessages_def)
  ultimately have "talk files (sent @ [f]) (\<lambda>_. []) (s, b', c @ [FileEnd (sendId f) (sendSha256 f)])"
    unfolding talk_def by (intro exI[of _ "ks @ [k]"]) simp
  with talk_stopped(2)[OF assms t] show "stopped files (s, b', c) \<and> talk files (sent @ [f]) (\<lambda>_. []) (s, b', c @ [FileEnd (sendId f) (sendSha256 f)])" ..
qed

lemma talk_ready:
  assumes "files = sent @ f # rest"
  shows "logs (talk files sent (begun f)) (readyLoop S f n) (\<lambda>_. talk files sent (begun f)) (stopped files)"
proof (induction n)
  case 0
  show ?case unfolding readyLoop.simps by (rule logs_fail) (rule talk_stopped(2)[OF assms])
next
  case (Suc n)
  note q = logs_talk_quiet[OF _ talk_stopped(2)[OF assms]]
  have restart: "logs (talk files sent (begun f)) (askRestart S (sendId f)) (\<lambda>_. talk files sent (begun f)) (stopped files)"
    unfolding askRestart_def by (intro logs_bind[OF q] logs_bind[OF talk_restart[OF assms]] q send_calls)
  have again: "logs (talk files sent (begun f)) (bindIO (throwIfSenderFailed S) (\<lambda>_. if b then pureIO r else bindIO (askRestart S (sendId f)) (\<lambda>_. readyLoop S f n)))
      (\<lambda>_. talk files sent (begun f)) (stopped files)" for b r
    by (intro logs_bind[OF q[OF log.keeps_throwIfFailed]] logs_if logs_pure logs_bind[OF restart] Suc) simp_all
  show ?case unfolding readyLoop.simps
    by (intro logs_bind[OF q[OF log.keeps_throwIfFailed]] logs_bind[OF q[OF log.keeps_send(4)]] logs_if logs_fail logs_pure logs_bind[OF q[OF log.keeps_hashSendPrefix]])
      (use again talk_stopped(2)[OF assms] in \<open>auto split: prod.split\<close>)
qed

lemma talk_chunks:
  assumes "files = sent @ f # rest"
  shows "logs (talk files sent (begun f)) (sendChunks S f seq n hash) (\<lambda>_. talk files sent (begun f)) (stopped files)"
proof -
  have c: "sxControlOut (snd (sendChunks S f seq n hash w)) = sxControlOut w" for w
    using chat.keeps_sendChunks[of S f seq n hash] by (simp add: keeps_def sameControl_def)
  have "talk files sent (begun f) (sendLog v)" if "talk files sent (begun f) (sendLog w)" "sendChunks S f seq n hash w = (r, v)" for w r v
    using that c[of w] by (simp add: talk_def sendLog_def)
  then show ?thesis using talk_stopped(2)[OF assms] unfolding logs_def contract_def by (auto split: prod.split sum.split)
qed

lemma talk_file:
  assumes "files = sent @ f # rest"
  shows "logs (talk files sent (\<lambda>_. [])) (sendFile S f) (\<lambda>_. talk files (sent @ [f]) (\<lambda>_. [])) (stopped files)"
proof -
  note q1 = logs_talk_quiet[OF _ talk_stopped(1)[OF assms]] and q2 = logs_talk_quiet[OF _ talk_stopped(2)[OF assms]]
  have next_stopped: "talk files (sent @ [f]) (\<lambda>_. []) l \<Longrightarrow> stopped files l" for l
  proof (cases rest)
    case Nil
    moreover assume "talk files (sent @ [f]) (\<lambda>_. []) l"
    ultimately show ?thesis using stopped_end[of files l] assms by simp
  next
    case (Cons g gs)
    moreover assume "talk files (sent @ [f]) (\<lambda>_. []) l"
    ultimately show ?thesis using talk_stopped(1)[of files "sent @ [f]" g gs] assms by simp
  qed
  have finish: "logs (talk files sent (begun f)) (finishFile S f r) (\<lambda>_. talk files (sent @ [f]) (\<lambda>_. [])) (stopped files)" for r
    unfolding finishFile_def
    by (cases r) (simp, intro conjI impI logs_fail logs_bind[OF q2[OF log.keeps_throwIfFailed]] logs_bind[OF talk_end[OF assms]]
      logs_talk_quiet[OF log.keeps_waitAck next_stopped] talk_stopped(2)[OF assms])
  have content: "logs (talk files sent (begun f)) (sendContent S f n) (\<lambda>_. talk files (sent @ [f]) (\<lambda>_. [])) (stopped files)" for n
    unfolding sendContent_def
    by (rule logs_bind[OF q2[OF log.keeps_hashSendPrefix]])
      (auto intro!: logs_bind[OF q2[OF log.keeps_throwIfFailed]] logs_bind[OF q2[OF log.keeps_vars(3)]] logs_bind[OF talk_chunks[OF assms] finish])
  have ready: "logs (talk files sent (begun f)) (verifiedReadyState S f) (\<lambda>_. talk files sent (begun f)) (stopped files)"
    unfolding verifiedReadyState_def logs_def
    by (rule contract_read[OF contract_weaken[OF talk_ready[OF assms, unfolded logs_def]]]) auto
  show ?thesis unfolding sendFile_def
    by (intro logs_bind[OF q1[OF log.keeps_throwIfFailed]] logs_bind[OF talk_begin[OF assms]] logs_bind[OF q2[OF log.keeps_waitAck]]
        logs_bind[OF q2[OF log.keeps_throwIfFailed]] logs_bind[OF ready content])
qed

lemma talk_each:
  "files = sent @ rest \<Longrightarrow> logs (talk files sent (\<lambda>_. [])) (sendEach S rest) (\<lambda>_. talk files files (\<lambda>_. [])) (stopped files)"
proof (induction rest arbitrary: sent)
  case Nil
  then show ?case by (simp add: logs_pure)
next
  case (Cons f rest)
  then show ?case using logs_bind[OF talk_file[OF Cons.prems] Cons.IH[of "sent @ [f]"]] by simp
qed

text \<open>All messages were sent.\<close>

definition said :: "SendFile list \<Rightarrow> sendLog \<Rightarrow> bool" where
  "said files l \<longleftrightarrow> (\<exists>ks. length ks = length files \<and> snd (snd l) = conversation files ks)"

lemma said_stopped: "said files l \<Longrightarrow> stopped files l"
  unfolding said_def stopped_def by fastforce

lemma talk_body: "logs (\<lambda>l. snd (snd l) = []) (sendBody S files) (\<lambda>_. said files) (stopped files)"
proof -
  have none: "snd (snd l) = [] \<Longrightarrow> stopped files l" for l by (auto simp: stopped_def intro: exI[of _ "replicate (length files) 0"])
  have start: "logs (\<lambda>l. snd (snd l) = []) (sendSenderControl S True (planManifest files)) (\<lambda>_. talk files [] (\<lambda>_. [])) (stopped files)"
    by (rule logs_control) (use none in \<open>auto simp: talk_def\<close>)
  have last: "logs (talk files files (\<lambda>_. [])) (sendSenderControl S True AllDone) (\<lambda>_. said files) (stopped files)"
    by (rule logs_control) (use stopped_end in \<open>auto simp: talk_def said_def conversation_def\<close>)
  have rest: "logs (\<lambda>l. snd (snd l) = []) (bindIO (sendSenderControl S True (planManifest files)) (\<lambda>_. bindIO (sendEach S files) (\<lambda>_. bindIO (throwIfSenderFailed S) (\<lambda>_.
      bindIO (sendSenderControl S True AllDone) (\<lambda>_. waitAck S ''all-done-ok'' Undefined))))) (\<lambda>_. said files) (stopped files)"
    by (intro logs_bind[OF start] logs_bind[OF talk_each[of files "[]"]] logs_bind[OF logs_talk_quiet[OF log.keeps_throwIfFailed stopped_end]]
        logs_bind[OF last] logs_talk_quiet[OF log.keeps_waitAck said_stopped]) simp_all
  have plan: "logs (\<lambda>l. snd (snd l) = []) (liftRes (buildSendPlan files)) (\<lambda>plan l. plan = files \<and> snd (snd l) = []) (stopped files)"
    by (rule logs_lift) (use plan_exact none in auto)
  have "logs (\<lambda>l. plan = files \<and> snd (snd l) = []) (bindIO (liftRes r) (\<lambda>_. bindIO (sendSenderControl S True (planManifest plan)) (\<lambda>_.
      bindIO (sendEach S plan) (\<lambda>_. bindIO (throwIfSenderFailed S) (\<lambda>_. bindIO (sendSenderControl S True AllDone) (\<lambda>_. waitAck S ''all-done-ok'' Undefined))))))
      (\<lambda>_. said files) (stopped files)" for plan and r :: "unit res"
  proof (cases "plan = files")
    case True
    then show ?thesis using none by (auto intro!: logs_then[OF log.keeps_lift] rest)
  qed (simp add: logs_def contract_def)
  then show ?thesis unfolding sendBody_def by (rule logs_bind[OF plan])
qed

definition aborted :: "SendFile list \<Rightarrow> sendLog \<Rightarrow> bool" where
  "aborted files l \<longleftrightarrow> (\<exists>ks sent. length ks = length files \<and> prefix sent (conversation files ks)
     \<and> (snd (snd l) = sent \<or> snd (snd l) = sent @ [Abort (js LOCAL_ABORT_MESSAGE)]))"

lemma stopped_aborted: "stopped files l \<Longrightarrow> aborted files l"
  unfolding stopped_def aborted_def by blast

lemma talk_send: "logs (\<lambda>l. snd (snd l) = []) (sendFiles S files) (\<lambda>_. said files) (aborted files)"
proof -
  have abort: "logs (stopped files) (ignoreIO (sendSenderControl S False (abortControlMessage r))) (\<lambda>_. aborted files) (aborted files)" for r
    unfolding ignoreIO_def logs_def
  proof (rule contract_catch)
    have "aborted files (s, b, c @ [abortControlMessage r])" if "stopped files (s, b, c)" for s b c
      using that by (auto simp: stopped_def aborted_def abortControlMessage_def)
    then show "contract (\<lambda>w. stopped files (sendLog w)) (sendSenderControl S False (abortControlMessage r)) (\<lambda>_ w. aborted files (sendLog w)) (\<lambda>w. aborted files (sendLog w))"
      by (intro logs_control[unfolded logs_def]) (simp add: stopped_aborted)
  qed (auto intro: contract_basic)
  have "logs (stopped files) (bindIO (ignoreIO (sendSenderControl S False (abortControlMessage r))) (\<lambda>_. raiseIO e)) (\<lambda>_. said files) (aborted files)" for r e
    by (rule logs_bind[OF abort]) (auto simp: logs_def intro: contract_basic)
  then have "logs (\<lambda>l. snd (snd l) = []) (catchIO (sendBody S files) (\<lambda>e.
      bindIO (ignoreIO (sendSenderControl S False (abortControlMessage (errorText e)))) (\<lambda>_. raiseIO e))) (\<lambda>_. said files) (aborted files)"
    using talk_body[of S files] unfolding logs_def by (intro contract_catch) auto
  moreover have "logs P (onSendFs (closeSendFiles files)) (\<lambda>_. P) (aborted files)" if "\<And>l. P l \<Longrightarrow> aborted files l" for P
    by (rule logs_quiet[OF log.keeps_fs yields_any]) (use that in auto)
  ultimately show ?thesis unfolding sendFiles_def logs_def
    by (intro contract_finally) (auto intro: stopped_aborted said_stopped)
qed

text \<open>C10: The sender speaks the protocol: a call that succeeds has sent the manifest, then for each file in
  order \<open>file-begin\<close>, some number of \<open>restart\<close>s and \<open>file-end\<close>, then \<open>all-done\<close>, and nothing else; a
  call that fails has sent an initial part of such a conversation, followed by at most one \<open>abort\<close>.
\<close>

theorem sender_conversation:
  fixes S files fs events random faults drains
  defines "run \<equiv> sendFiles S files (startSend fs events random faults drains)"
  shows "case fst run of
      Inr _ \<Rightarrow> \<exists>ks. length ks = length files \<and> map fst (sxControlOut (snd run)) = conversation files ks
    | Inl _ \<Rightarrow> \<exists>ks sent. length ks = length files \<and> prefix sent (conversation files ks)
        \<and> (map fst (sxControlOut (snd run)) = sent \<or> map fst (sxControlOut (snd run)) = sent @ [Abort (js LOCAL_ABORT_MESSAGE)])"
proof -
  have "snd (snd (sendLog (startSend fs events random faults drains))) = []" by (simp add: sendLog_def startSend_def)
  note talk_send[of S files, unfolded logs_def contract_def, THEN spec, THEN mp, OF this, folded run_def]
  then show ?thesis by (cases run; cases "fst run") (auto simp: said_def aborted_def sendLog_def)
qed

end
