(* ===== verification/ReceiverInvariant.thy ===== *)
theory ReceiverInvariant
  imports Receiver
begin

text \<open>
  Invariant of the receiving side, kept by every event and every task whatever happens while a
  task waits. It says what the receiver knows of each file, what it has told the sender, and how
  much it has queued. A law \<open>P fid n chunk\<close> says which chunks may be opened as the n-th of a file;
  the bytes of a file are what was kept of a partial file, then such chunks in order.
\<close>

section \<open>The invariant\<close>

text \<open>A bulk message that opens carries a chunk that is lawful at its file and sequence number.\<close>

type_synonym chunkLaw = "nat \<Rightarrow> nat \<Rightarrow> bytes \<Rightarrow> bool"

definition authentic :: "ReceiveSetup \<Rightarrow> chunkLaw \<Rightarrow> jsval \<Rightarrow> bool" where
  "authentic S P d \<longleftrightarrow> (\<forall>b fr chunk. toBytes d = ok b \<longrightarrow> decodeChunk b = ok fr
     \<longrightarrow> openBulk (setCrypto S) (setKeys S) (NInt (int (fileId fr))) (NInt (int (chunkSeq fr))) (Uint8Array True (payload fr)) = ok chunk
     \<longrightarrow> P (fileId fr) (chunkSeq fr) chunk)"

text \<open>The number of chunks that make up the first \<open>n\<close> bytes of a file.\<close>

definition chunksIn :: "nat \<Rightarrow> nat" where
  "chunksIn n = (n + CHUNK_SIZE - 1) div CHUNK_SIZE"

text \<open>What may be kept of a partial file: nothing unless the receiver resumes, otherwise whole chunks or
  the complete file.\<close>

definition mayKeep :: "ReceiveSetup \<Rightarrow> nat \<Rightarrow> bytes \<Rightarrow> bool" where
  "mayKeep S sz kept \<longleftrightarrow> kept = [] \<or> setResume S \<and> (length kept = sz \<or> CHUNK_SIZE dvd length kept)"

lemma mayKeep_Nil [simp]: "mayKeep S sz []"
  by (simp add: mayKeep_def)

lemma chunksIn_whole: "CHUNK_SIZE dvd n \<Longrightarrow> chunksIn n = n div CHUNK_SIZE"
  by (auto simp: chunksIn_def CHUNK_SIZE_def elim!: dvdE)

lemma chunksIn_0 [simp]: "chunksIn 0 = 0"
  by (simp add: chunksIn_whole)

definition fromStream :: "ReceiveSetup \<Rightarrow> chunkLaw \<Rightarrow> ReceiveState \<Rightarrow> bool" where
  "fromStream S P s \<longleftrightarrow> (\<exists>kept chunks. rsHash s = kept @ concat chunks \<and> mayKeep S (rsSize s) kept
     \<and> chunksIn (length kept) + length chunks = rsExpectedSeq s
     \<and> (\<forall>q < length chunks. P (rsId s) (chunksIn (length kept) + q) (chunks ! q)))"

definition verifiedFile :: "Crypto \<Rightarrow> ReceiveState \<Rightarrow> bool" where
  "verifiedFile C s \<longleftrightarrow> rsBytes s = rsSize s \<and> rsExpectedSha256 s = Some (digestHex C (rsHash s))"

definition fileInv :: "ReceiveSetup \<Rightarrow> chunkLaw \<Rightarrow> ReceiveState \<Rightarrow> bool" where
  "fileInv S P s \<longleftrightarrow> length (rsHash s) = rsBytes s \<and> rsBytes s \<le> rsSize s \<and> (rsDone s \<longrightarrow> verifiedFile (setCrypto S) s) \<and> fromStream S P s"

text \<open>What the invariant says of a file does not mention the fields left out here.\<close>

definition core :: "ReceiveState \<Rightarrow> ReceiveState" where
  "core s = s\<lparr>rsPublished := None, rsStream := \<lparr>wsHandle = rsPart s, wsPos = 0, wsClosed = False\<rparr>, rsFinalizing := False\<rparr>"

abbreviation cores :: "Receiver \<Rightarrow> ReceiveState list" where
  "cores w \<equiv> map core (rxFiles w)"

fun isAbort :: "ControlMessage \<Rightarrow> bool" where
  "isAbort (Abort _) = True"
| "isAbort _ = False"

definition sentMessages :: "Receiver \<Rightarrow> ControlMessage list" where
  "sentMessages w = map fst (rxOutbox w)"

definition filesInv :: "ReceiveSetup \<Rightarrow> chunkLaw \<Rightarrow> Receiver \<Rightarrow> bool" where
  "filesInv S P w \<longleftrightarrow> distinct (map rsId (cores w)) \<and> (\<forall>s \<in> set (cores w). fileInv S P s)
     \<and> (\<forall>s \<in> set (cores w). \<exists>f \<in> set (rxExpected w). entryId f = rsId s \<and> entrySize f = rsSize s)"

definition manifestInv :: "Receiver \<Rightarrow> bool" where
  "manifestInv w \<longleftrightarrow> (rxManifest w = None \<longrightarrow> rxExpected w = []) \<and> (\<forall>m. rxManifest w = Some m \<longrightarrow> wfControl m \<and> (\<exists>n. m = Manifest (rxExpected w) n))
     \<and> (rxAllDoneSeen w \<longrightarrow> rxManifest w \<noteq> None \<and> length (cores w) = length (rxExpected w))"

definition statusInv :: "Receiver \<Rightarrow> bool" where
  "statusInv w \<longleftrightarrow> (rxCompleted w \<longrightarrow> rxAllDoneSeen w \<and> list_all rsDone (cores w))
     \<and> (rxOutcome w = None \<longleftrightarrow> \<not> rxFailed w \<and> \<not> rxCompleted w) \<and> (rxOutcome w = Some (Inr ()) \<longleftrightarrow> rxCompleted w)
     \<and> ((\<exists>e. rxOutcome w = Some (Inl e)) \<longleftrightarrow> rxFailed w)"

definition sentInv :: "Receiver \<Rightarrow> bool" where
  "sentInv w \<longleftrightarrow> (\<forall>i. FileOk i \<in> set (sentMessages w) \<longleftrightarrow> (\<exists>s \<in> set (cores w). rsId s = i \<and> rsDone s))
     \<and> (AllDoneOk \<in> set (sentMessages w) \<longleftrightarrow> rxCompleted w)
     \<and> list_all (\<lambda>m. \<not> isAbort m) (butlast (sentMessages w)) \<and> (\<not> rxFailed w \<longrightarrow> list_all (\<lambda>m. \<not> isAbort m) (sentMessages w))"

definition queueInv :: "ReceiveSetup \<Rightarrow> chunkLaw \<Rightarrow> Receiver \<Rightarrow> bool" where
  "queueInv S P w \<longleftrightarrow> rxQueuedBytes w = sum_list (map (\<lambda>t. receiveQueueByteLength (taskData t)) (rxQueue w))
     \<and> rxQueuedMessages w = length (rxQueue w)
     \<and> rxQueuedBytes w \<le> RECEIVE_QUEUE_MAX_BYTES \<and> rxQueuedMessages w \<le> RECEIVE_QUEUE_MAX_MESSAGES
     \<and> (\<forall>d. BulkTask d \<in> set (rxQueue w) \<longrightarrow> authentic S P d)
     \<and> (\<forall>es \<in> set (rxEvents w). \<forall>d. BulkArrives d \<in> set es \<longrightarrow> authentic S P d)"

definition receiverInv :: "ReceiveSetup \<Rightarrow> chunkLaw \<Rightarrow> Receiver \<Rightarrow> bool" where
  "receiverInv S P w \<longleftrightarrow> filesInv S P w \<and> manifestInv w \<and> statusInv w \<and> sentInv w \<and> queueInv S P w"

lemmas inv_defs = receiverInv_def filesInv_def manifestInv_def statusInv_def sentInv_def queueInv_def

text \<open>What happens while a task waits keeps the invariant and changes nothing of what the task works
  on; the queue may only grow.\<close>

definition quiet :: "ReceiveSetup \<Rightarrow> chunkLaw \<Rightarrow> Receiver \<Rightarrow> Receiver \<Rightarrow> bool" where
  "quiet S P w v \<longleftrightarrow> (receiverInv S P w \<longrightarrow> receiverInv S P v \<and> cores v = cores w \<and> rxManifest v = rxManifest w \<and> rxExpected v = rxExpected w
     \<and> rxAllDoneSeen v = rxAllDoneSeen w \<and> (\<exists>more. rxQueue v = rxQueue w @ more))"

interpretation quiet: frame "quiet S P" for S P
  by unfold_locales (auto simp: quiet_def)

lemma core_fields [simp]:
  "rsId (core s) = rsId s" "rsSize (core s) = rsSize s" "rsHash (core s) = rsHash s" "rsBytes (core s) = rsBytes s"
  "rsExpectedSha256 (core s) = rsExpectedSha256 s" "rsExpectedSeq (core s) = rsExpectedSeq s" "rsDone (core s) = rsDone s"
  "rsPartPath (core s) = rsPartPath s" "rsFinalPath (core s) = rsFinalPath s" "rsPart (core s) = rsPart s" "core (core s) = core s"
  by (simp_all add: core_def)

lemma core_eqD:
  assumes "core s = core x"
  shows "rsId s = rsId x" "rsSize s = rsSize x" "rsHash s = rsHash x" "rsBytes s = rsBytes x" "rsExpectedSha256 s = rsExpectedSha256 x"
    "rsExpectedSeq s = rsExpectedSeq x" "rsDone s = rsDone x"
  using assms by (metis core_fields)+

lemma fileInv_core [simp]: "fileInv S P (core s) = fileInv S P s"
  by (simp add: fileInv_def verifiedFile_def fromStream_def)

section \<open>Steps that the invariant does not see\<close>

definition sameView :: "Receiver \<Rightarrow> Receiver \<Rightarrow> bool" where
  "sameView w v \<longleftrightarrow> cores v = cores w \<and> rxManifest v = rxManifest w \<and> rxExpected v = rxExpected w \<and> rxFailed v = rxFailed w
     \<and> rxCompleted v = rxCompleted w \<and> rxAllDoneSeen v = rxAllDoneSeen w \<and> rxOutbox v = rxOutbox w \<and> rxOutcome v = rxOutcome w
     \<and> rxQueue v = rxQueue w \<and> rxQueuedBytes v = rxQueuedBytes w \<and> rxQueuedMessages v = rxQueuedMessages w \<and> rxEvents v = rxEvents w"

interpretation view: frame sameView
  by unfold_locales (auto simp: sameView_def)

named_theorems view_calls \<open>computations the invariant does not see\<close>

lemma view_modify: "(\<And>w. sameView w (f w)) \<Longrightarrow> keeps sameView (modifyIO f)"
  by (simp add: keeps_def io_defs)

lemma view_onFs [view_calls]: "keeps sameView (onFs m)"
  by (auto simp: keeps_def onFs_def zoomIO_def sameView_def split: prod.split)

lemma view_simple [view_calls]:
  "keeps sameView clearReceiveTimeout" "keeps sameView detachChannels" "keeps sameView closeChannels" "keeps sameView resetReceiveTimeout"
  unfolding clearReceiveTimeout_def detachChannels_def closeChannels_def resetReceiveTimeout_def by (rule view_modify; simp add: sameView_def)+

lemma cores_map: "(\<And>s. core (g s) = core s) \<Longrightarrow> map core (map (\<lambda>s. if rsId s = fid then g s else s) fs) = map core fs"
  by simp

lemma view_updFile: "(\<And>s. core (g s) = core s) \<Longrightarrow> keeps sameView (updFile fid g)"
  unfolding updFile_def by (rule view_modify) (simp add: sameView_def)

lemma view_fields [view_calls]:
  "keeps sameView (updFile fid (rsPublished_update p))" "keeps sameView (updFile fid (rsStream_update q))" "keeps sameView (updFile fid (rsFinalizing_update r))"
  by (rule view_updFile; simp add: core_def)+

lemma view_withFile [view_calls]: "(\<And>s. keeps sameView (f s)) \<Longrightarrow> keeps sameView (withFile fid f)"
  by (auto simp: keeps_def withFile_def view.refl split: option.split)

lemma view_option [view_calls]: "keeps sameView m \<Longrightarrow> (\<And>x. keeps sameView (f x)) \<Longrightarrow> keeps sameView (case y of None \<Rightarrow> m | Some x \<Rightarrow> f x)"
  by (cases y) auto

lemma view_draw [view_calls]: "keeps sameView (modifyIO (rxDrawn_update f))" "keeps sameView (modifyIO (rxSendFaults_update g))"
  "keeps sameView (modifyIO (rxTransferred_update k))" "keeps sameView (modifyIO (rxTotalBytes_update k))" "keeps sameView (modifyIO (rxResult_update r))"
  "keeps sameView (modifyIO (rxControlOpen_update k'))"
  by (rule view_modify; simp add: sameView_def)+

lemma view_seal [view_calls]: "keeps sameView (sealMessage S m)"
  unfolding sealMessage_def by (intro view.keeps_rules view_calls)

lemma view_published [view_calls]: "keeps sameView (removePublishedFile fid)" "keeps sameView (cleanupPublishedAfterFailure fid)"
  unfolding cleanupPublishedAfterFailure_def removePublishedFile_def by (intro view.keeps_rules view_calls)+

lemma view_streams [view_calls]: "keeps sameView (endStream fid)" "keeps sameView (writeStreamChunk fid chunk)"
  unfolding endStream_def writeStreamChunk_def by (intro view.keeps_rules view_calls)+

lemma view_stopped [view_calls]: "keeps sameView throwIfReceiveStopped"
  unfolding throwIfReceiveStopped_def by (intro view.keeps_rules) (auto intro!: view.keeps_rules split: prod.split)

lemma view_inv:
  assumes "sameView w v" "receiverInv S P w" shows "receiverInv S P v"
proof -
  from assms(1) have eqs: "cores v = cores w" "rxManifest v = rxManifest w" "rxExpected v = rxExpected w" "rxFailed v = rxFailed w"
    "rxCompleted v = rxCompleted w" "rxAllDoneSeen v = rxAllDoneSeen w" "rxOutbox v = rxOutbox w" "rxOutcome v = rxOutcome w"
    "rxQueue v = rxQueue w" "rxQueuedBytes v = rxQueuedBytes w" "rxQueuedMessages v = rxQueuedMessages w" "rxEvents v = rxEvents w"
    by (simp_all add: sameView_def)
  from assms(2) show ?thesis unfolding inv_defs sentMessages_def eqs .
qed

lemma view_quiet: "sameView w v \<Longrightarrow> quiet S P w v"
  using view_inv unfolding quiet_def by (auto simp: sameView_def)

named_theorems steady_calls \<open>computations that keep the invariant\<close>

lemma steady_view: "keeps sameView m \<Longrightarrow> keeps (quiet S P) m"
  unfolding keeps_def using view_quiet by blast

lemmas steady_views [steady_calls] = view_onFs[THEN steady_view] view_simple[THEN steady_view] view_fields[THEN steady_view] view_draw[THEN steady_view]
  view_seal[THEN steady_view] view_published[THEN steady_view] view_streams[THEN steady_view] view_stopped[THEN steady_view]

section \<open>Failure\<close>

definition failedWith :: "(ControlMessage \<times> jsstring) list \<Rightarrow> jsError \<Rightarrow> Receiver \<Rightarrow> Receiver" where
  "failedWith out e w = w\<lparr>rxFailed := True, rxOutbox := rxOutbox w @ out,
     rxOutcome := (case rxOutcome w of None \<Rightarrow> Some (Inl e) | Some r \<Rightarrow> Some r)\<rparr>"

lemma failTransfer_runs:
  assumes "\<not> rxFailed w" "\<not> rxCompleted w"
  shows "\<exists>out v. failTransfer S e w = (Inr (), v) \<and> sameView (failedWith out e w) v
    \<and> (out = [] \<or> (\<exists>text. out = [(abortControlMessage (errorText e), text)]))"
  using assms
  by (auto simp: failTransfer_def sealMessage_def channelSend_def clearReceiveTimeout_def detachChannels_def closeChannels_def settleDone_def
      eval_rules failedWith_def sameView_def liftRes_def pureIO_def raiseIO_def split: sum.split option.split)

lemma failTransfer_returns: "\<exists>v. failTransfer S e w = (Inr (), v)"
  using failTransfer_runs[of w S e] by (cases "rxFailed w \<or> rxCompleted w") (auto simp: failTransfer_def eval_rules)

lemma failed_inv:
  assumes "receiverInv S P w" "\<not> rxFailed w" "\<not> rxCompleted w" "out = [] \<or> (\<exists>text. out = [(abortControlMessage r, text)])"
  shows "receiverInv S P (failedWith out e w)"
proof -
  have m: "FileOk i \<noteq> abortControlMessage r" "AllDoneOk \<noteq> abortControlMessage r" for i by (simp_all add: abortControlMessage_def)
  have o: "rxOutcome w = None" using assms(1-3) by (auto simp: receiverInv_def statusInv_def)
  have s: "sentInv (failedWith out e w)"
    using assms m by (auto simp: receiverInv_def sentInv_def failedWith_def sentMessages_def butlast_append)
  show ?thesis
    using assms(1-3) s o unfolding receiverInv_def by (auto simp: filesInv_def manifestInv_def statusInv_def queueInv_def failedWith_def)
qed

lemma steady_fail [steady_calls]: "keeps (quiet S P) (failTransfer S e)"
  unfolding keeps_def
proof
  fix w
  show "quiet S P w (snd (failTransfer S e w))"
  proof (cases "rxFailed w \<or> rxCompleted w")
    case False
    then obtain out v where r: "failTransfer S e w = (Inr (), v)" "sameView (failedWith out e w) v"
      "out = [] \<or> (\<exists>text. out = [(abortControlMessage (errorText e), text)])" using failTransfer_runs[of w S e] by blast
    have "quiet S P w (failedWith out e w)" using failed_inv[OF _ _ _ r(3)] False by (auto simp: quiet_def failedWith_def)
    with quiet.trans view_quiet[OF r(2)] r(1) show ?thesis by (metis snd_conv)
  qed (auto simp: failTransfer_def eval_rules quiet.refl)
qed

lemma steady_withFile [steady_calls]:
  "(\<And>s. keeps (quiet S P) (f s)) \<Longrightarrow> keeps (quiet S P) (withFile fid f)"
  by (auto simp: keeps_def withFile_def quiet.refl split: option.split)

lemma steady_close [steady_calls]: "keeps (quiet S P) (closeReceiveStream S fid)"
  unfolding closeReceiveStream_def by (intro quiet.keeps_rules steady_calls)

lemma steady_discard [steady_calls]: "keeps (quiet S P) (discardPartialFile S fid k)"
  unfolding discardPartialFile_def by (intro quiet.keeps_rules steady_calls)

lemma steady_cleanupFile [steady_calls]: "keeps (quiet S P) (cleanupFile S b fid)"
  unfolding cleanupFile_def by (intro quiet.keeps_rules steady_calls)

lemma steady_cleanupFiles [steady_calls]: "keeps (quiet S P) (cleanupFiles S b ids e)"
  by (induction ids arbitrary: e) (auto intro!: quiet.keeps_rules steady_calls)

lemma steady_finish [steady_calls]: "keeps (quiet S P) (finishReceive S)"
  unfolding finishReceive_def
  by (intro quiet.keeps_rules) (auto intro!: quiet.keeps_rules steady_calls split: prod.split option.split)

section \<open>Events\<close>

lemma steady_enqueue:
  assumes "\<And>d. task = BulkTask d \<Longrightarrow> authentic S P d" shows "keeps (quiet S P) (enqueueReceiveTask S task)"
proof -
  have q: "quiet S P w (w\<lparr>rxQueuedBytes := rxQueuedBytes w + receiveQueueByteLength (taskData task), rxQueuedMessages := rxQueuedMessages w + 1,
      rxQueue := rxQueue w @ [task]\<rparr>)"
    if "rxQueuedBytes w + receiveQueueByteLength (taskData task) \<le> RECEIVE_QUEUE_MAX_BYTES" "rxQueuedMessages w + 1 \<le> RECEIVE_QUEUE_MAX_MESSAGES" for w
    using that assms unfolding quiet_def receiverInv_def
    by (auto simp: filesInv_def manifestInv_def statusInv_def sentInv_def queueInv_def sentMessages_def)
  show ?thesis
    unfolding keeps_def
  proof
    fix w show "quiet S P w (snd (enqueueReceiveTask S task w))"
      using q[of w] steady_fail[of S P] by (auto simp: enqueueReceiveTask_def eval_rules Let_def keeps_def quiet.refl)
  qed
qed

lemma steady_attached [steady_calls]:
  "keeps (quiet S P) m \<Longrightarrow> keeps (quiet S P) (whenAttached m)"
  unfolding whenAttached_def by (intro quiet.keeps_rules)

lemma steady_event:
  "(\<And>d. e = BulkArrives d \<Longrightarrow> authentic S P d) \<Longrightarrow> keeps (quiet S P) (onEvent S e)"
  by (cases e) (auto intro!: quiet.keeps_rules steady_calls steady_enqueue)

lemma steady_events:
  "(\<And>d. BulkArrives d \<in> set es \<Longrightarrow> authentic S P d) \<Longrightarrow> keeps (quiet S P) (onEvents S es)"
  by (induction es) (auto intro!: quiet.keeps_rules steady_event)

lemma steady_await [steady_calls]: "keeps (quiet S P) (awaitEvents S)"
  unfolding keeps_def
proof
  fix w :: Receiver
  define es where "es = (case rxEvents w of [] \<Rightarrow> [] | es # _ \<Rightarrow> es)"
  have r: "snd (awaitEvents S w) = snd (onEvents S es (rxEvents_update tl w))" by (simp add: awaitEvents_def eval_rules es_def)
  show "quiet S P w (snd (awaitEvents S w))"
  proof (cases "receiverInv S P w")
    case True
    have "authentic S P d" if "BulkArrives d \<in> set es" for d
      using True that by (cases "rxEvents w") (auto simp: es_def receiverInv_def queueInv_def)
    then have "quiet S P (rxEvents_update tl w) (snd (awaitEvents S w))" unfolding r using steady_events[of es S P] by (simp add: keeps_def)
    moreover have "quiet S P w (rxEvents_update tl w)"
      unfolding quiet_def receiverInv_def
      by (cases "rxEvents w") (auto simp: filesInv_def manifestInv_def statusInv_def sentInv_def queueInv_def sentMessages_def)
    ultimately show ?thesis using quiet.trans by blast
  qed (simp add: quiet_def)
qed

lemma steady_awaiting [steady_calls]:
  "keeps (quiet S P) m \<Longrightarrow> keeps (quiet S P) (awaiting S m)"
  unfolding awaiting_def by (intro quiet.keeps_rules steady_calls)

section \<open>Tasks\<close>

text \<open>The invariant with a property of what only tasks change, while \<open>q\<close> is the front of the queue.\<close>

type_synonym taskFacts = "ReceiveState list \<Rightarrow> ControlMessage option \<Rightarrow> TransferFile list \<Rightarrow> bool \<Rightarrow> bool"

definition during :: "ReceiveSetup \<Rightarrow> chunkLaw \<Rightarrow> ReceiveTask list \<Rightarrow> taskFacts \<Rightarrow> Receiver \<Rightarrow> bool" where
  "during S P q B w \<longleftrightarrow> receiverInv S P w \<and> B (cores w) (rxManifest w) (rxExpected w) (rxAllDoneSeen w) \<and> (\<exists>more. rxQueue w = q @ more)"

abbreviation anyTask :: taskFacts where
  "anyTask \<equiv> \<lambda>_ _ _ _. True"

lemma during_quiet: "quiet S P w v \<Longrightarrow> during S P q B w \<Longrightarrow> during S P q B v"
  unfolding quiet_def during_def by auto

lemma quiet_contract: "keeps (quiet S P) m \<Longrightarrow> contract (during S P q B) m (\<lambda>_. during S P q B) (during S P q B)"
  unfolding keeps_contract[symmetric] keeps_def using during_quiet by blast

lemma during_any: "during S P q B w \<Longrightarrow> during S P q anyTask w"
  by (simp add: during_def)

lemma quiet_any: "keeps (quiet S P) m \<Longrightarrow> contract (during S P q B) m (\<lambda>_. during S P q B) (during S P q anyTask)"
  using quiet_contract during_any by (fastforce elim: contract_weaken)

text \<open>After a wait, what the code checks.\<close>

lemma stopped_contract:
  "contract (during S P q B) throwIfReceiveStopped (\<lambda>_ w. during S P q B w \<and> \<not> rxFailed w \<and> \<not> rxCompleted w) (during S P q B)"
  by (auto simp: contract_iff throwIfReceiveStopped_def run_simps split: if_splits)

lemma stopped_any:
  "contract (during S P q B) throwIfReceiveStopped (\<lambda>_ w. during S P q B w \<and> \<not> rxFailed w \<and> \<not> rxCompleted w) (during S P q anyTask)"
  by (rule contract_weaken[OF stopped_contract[of S P q B]]) (auto dest: during_any)

lemma during_sent:
  assumes "during S P q B w" "\<not> rxFailed w" "\<not> rxCompleted w" "m \<noteq> AllDoneOk" "\<And>i. m \<noteq> FileOk i" "\<not> isAbort m"
  shows "during S P q B (w\<lparr>rxOutbox := rxOutbox w @ [(m, text)]\<rparr>)"
  using assms unfolding during_def receiverInv_def
  by (auto simp: filesInv_def manifestInv_def statusInv_def sentInv_def queueInv_def sentMessages_def butlast_append)

lemma channelSend_runs:
  "channelSend m text w = (let v = rxSendFaults_update tl w in
     if \<not> rxControlOpen w \<or> (case rxSendFaults w of [] \<Rightarrow> False | b # _ \<Rightarrow> b) then (Inl (JsError ''InvalidStateError''), v)
     else (Inr (), v\<lparr>rxOutbox := rxOutbox v @ [(m, text)]\<rparr>))"
  by (simp add: channelSend_def eval_rules Let_def)

lemma faults_view: "sameView w (rxSendFaults_update f w)"
  by (simp add: sameView_def)

lemma send_plain:
  assumes "m \<noteq> AllDoneOk" "\<And>i. m \<noteq> FileOk i" "\<not> isAbort m"
  shows "contract (during S P q B) (sendControl S m) (\<lambda>_. during S P q B) (during S P q B)"
  unfolding sendControl_def
proof (intro contract_bind)
  show "contract (during S P q B) (awaiting S (sealMessage S m)) (\<lambda>_. during S P q B) (during S P q B)"
    by (intro quiet_contract steady_calls)
  show "contract (during S P q B) throwIfReceiveStopped (\<lambda>_ w. during S P q B w \<and> \<not> rxFailed w \<and> \<not> rxCompleted w) (during S P q B)"
    by (rule stopped_contract)
  show "contract (\<lambda>w. during S P q B w \<and> \<not> rxFailed w \<and> \<not> rxCompleted w) (channelSend m sealed) (\<lambda>_. during S P q B) (during S P q B)" for sealed
  proof (unfold contract_def, intro allI impI)
    fix w assume w: "during S P q B w \<and> \<not> rxFailed w \<and> \<not> rxCompleted w"
    let ?v = "rxSendFaults_update tl w"
    have "during S P q B ?v" using w during_quiet[OF view_quiet[OF faults_view]] by blast
    moreover from this have "during S P q B (?v\<lparr>rxOutbox := rxOutbox ?v @ [(m, sealed)]\<rparr>)" using w assms by (intro during_sent) auto
    ultimately show "case channelSend m sealed w of (Inl e, v) \<Rightarrow> during S P q B v | (Inr x, v) \<Rightarrow> during S P q B v"
      unfolding channelSend_runs Let_def by simp
  qed
qed

lemma settle_first: "rxOutcome w = None \<Longrightarrow> settleDone r w = (Inr (), w\<lparr>rxOutcome := Some r\<rparr>)"
  by (cases w) (simp add: settleDone_def io_defs)

lemma resolve_contract: "contract (during S P q anyTask) (maybeResolveDone S) (\<lambda>_. during S P q anyTask) (during S P q anyTask)"
proof -
  let ?B = "\<lambda>fs m e seen. seen \<and> list_all rsDone fs"
  have send: "contract (during S P q ?B) (sendControl S AllDoneOk)
     (\<lambda>_ w. \<exists>v sealed. during S P q ?B v \<and> \<not> rxFailed v \<and> \<not> rxCompleted v \<and> w = v\<lparr>rxOutbox := rxOutbox v @ [(AllDoneOk, sealed)]\<rparr>) (during S P q anyTask)"
    unfolding sendControl_def
  proof (intro contract_bind)
    show "contract (during S P q ?B) (awaiting S (sealMessage S AllDoneOk)) (\<lambda>_. during S P q ?B) (during S P q anyTask)"
      by (intro quiet_any steady_calls)
    show "contract (during S P q ?B) throwIfReceiveStopped (\<lambda>_ w. during S P q ?B w \<and> \<not> rxFailed w \<and> \<not> rxCompleted w) (during S P q anyTask)"
      by (rule stopped_any)
    show "contract (\<lambda>w. during S P q ?B w \<and> \<not> rxFailed w \<and> \<not> rxCompleted w) (channelSend AllDoneOk sealed)
      (\<lambda>_ w. \<exists>v sealed. during S P q ?B v \<and> \<not> rxFailed v \<and> \<not> rxCompleted v \<and> w = v\<lparr>rxOutbox := rxOutbox v @ [(AllDoneOk, sealed)]\<rparr>) (during S P q anyTask)" for sealed
    proof (unfold contract_def, intro allI impI)
      fix w assume w: "during S P q ?B w \<and> \<not> rxFailed w \<and> \<not> rxCompleted w"
      let ?v = "rxSendFaults_update tl w"
      have "during S P q ?B ?v" using w during_quiet[OF view_quiet[OF faults_view]] by blast
      then show "case channelSend AllDoneOk sealed w of (Inl e, v) \<Rightarrow> during S P q anyTask v
          | (Inr x, w) \<Rightarrow> \<exists>v sealed. during S P q ?B v \<and> \<not> rxFailed v \<and> \<not> rxCompleted v \<and> w = v\<lparr>rxOutbox := rxOutbox v @ [(AllDoneOk, sealed)]\<rparr>"
        unfolding channelSend_runs Let_def using w during_any by (auto intro!: exI[of _ ?v])
    qed
  qed
  have last: "during S P q anyTask (v\<lparr>rxOutbox := rxOutbox v @ [(AllDoneOk, sealed)], rxCompleted := True, rxOutcome := Some (Inr ())\<rparr>)"
    if "during S P q ?B v" "\<not> rxFailed v" "\<not> rxCompleted v" for v sealed
    using that unfolding during_def receiverInv_def
    by (auto simp: filesInv_def manifestInv_def statusInv_def sentInv_def queueInv_def sentMessages_def butlast_append)
  have none: "rxOutcome v = None" if "during S P q ?B v" "\<not> rxFailed v" "\<not> rxCompleted v" for v
    using that by (auto simp: during_def receiverInv_def statusInv_def)
  have settle: "contract (\<lambda>w. \<exists>v sealed. during S P q ?B v \<and> \<not> rxFailed v \<and> \<not> rxCompleted v \<and> w = v\<lparr>rxOutbox := rxOutbox v @ [(AllDoneOk, sealed)]\<rparr>)
      (bindIO (modifyIO (rxCompleted_update (\<lambda>_. True))) (\<lambda>_. settleDone (Inr ()))) (\<lambda>_. during S P q anyTask) (during S P q anyTask)"
    by (auto simp: contract_def eval_rules settle_first none intro: last)
  have clear: "contract (during S P q ?B) clearReceiveTimeout (\<lambda>_. during S P q ?B) (during S P q anyTask)"
    by (intro quiet_any steady_calls)
  show ?thesis
    unfolding maybeResolveDone_def
  proof (intro contract_read contract_when)
    fix finished assume finished
    show "contract (\<lambda>w. during S P q anyTask w \<and> finished = (rxAllDoneSeen w \<and> list_all rsDone (rxFiles w)))
      (bindIO clearReceiveTimeout (\<lambda>_. bindIO (sendControl S AllDoneOk) (\<lambda>_. bindIO (modifyIO (rxCompleted_update (\<lambda>_. True))) (\<lambda>_. settleDone (Inr ())))))
      (\<lambda>_. during S P q anyTask) (during S P q anyTask)"
    proof (rule contract_bind)
      show "contract (\<lambda>w. during S P q anyTask w \<and> finished = (rxAllDoneSeen w \<and> list_all rsDone (rxFiles w))) clearReceiveTimeout
          (\<lambda>_. during S P q ?B) (during S P q anyTask)"
        by (rule contract_weaken[OF clear]) (use \<open>finished\<close> in \<open>auto simp: during_def list_all_iff\<close>)
    qed (rule contract_bind[OF send settle])
  qed simp
qed

section \<open>Changes of a file\<close>

definition changeFile :: "nat \<Rightarrow> (ReceiveState \<Rightarrow> ReceiveState) \<Rightarrow> Receiver \<Rightarrow> Receiver" where
  "changeFile i g w = w\<lparr>rxFiles := map (\<lambda>s. if rsId s = i then g s else s) (rxFiles w)\<rparr>"

lemma updFile_runs: "updFile i g w = (Inr (), changeFile i g w)"
  by (cases w) (simp add: updFile_def io_defs changeFile_def)

lemma set_replaced:
  assumes "distinct (map f xs)" "x \<in> set xs" shows "set (map (\<lambda>y. if f y = f x then g y else y) xs) = insert (g x) (set xs - {x})"
proof -
  have "(if f y = f x then g y else y) = (if y = x then g x else y)" if "y \<in> set xs" for y
    using assms that by (metis distinct_map inj_onD)
  then have "(\<lambda>y. if f y = f x then g y else y) ` set xs = (\<lambda>y. if y = x then g x else y) ` set xs" by (rule image_cong[OF refl])
  then show ?thesis using assms(2) by auto
qed

text \<open>A change of what the invariant sees of one file.\<close>

definition plainChange :: "(ReceiveState \<Rightarrow> ReceiveState) \<Rightarrow> bool" where
  "plainChange g \<longleftrightarrow> (\<forall>s. core (g s) = g (core s) \<and> rsId (g s) = rsId s \<and> rsSize (g s) = rsSize s)"

lemma cores_changed: "plainChange g \<Longrightarrow> cores (changeFile i g w) = map (\<lambda>s. if rsId s = i then g s else s) (cores w)"
  by (auto simp: changeFile_def plainChange_def)

lemma ids_changed: "plainChange g \<Longrightarrow> map rsId (cores (changeFile i g w)) = map rsId (cores w)"
  by (auto simp: cores_changed plainChange_def)

lemma filesInv_changed:
  assumes "filesInv S P w" "core s \<in> set (cores w)" "plainChange g" "fileInv S P (g (core s))"
  shows "filesInv S P (changeFile (rsId s) g w)" "set (cores (changeFile (rsId s) g w)) = insert (g (core s)) (set (cores w) - {core s})"
proof -
  have d: "distinct (map rsId (cores w))" using assms(1) by (simp add: filesInv_def)
  show st: "set (cores (changeFile (rsId s) g w)) = insert (g (core s)) (set (cores w) - {core s})"
    unfolding cores_changed[OF assms(3)] using set_replaced[OF d assms(2), of g] by simp
  have "\<exists>f \<in> set (rxExpected w). entryId f = rsId (g (core s)) \<and> entrySize f = rsSize (g (core s))"
    using bspec[of "set (cores w)" _ "core s"] assms(1-3) unfolding filesInv_def plainChange_def by metis
  then show "filesInv S P (changeFile (rsId s) g w)"
    using assms(1,4) unfolding filesInv_def ids_changed[OF assms(3)] st by (auto simp: changeFile_def)
qed

lemma replaced_all: "k \<in> A \<Longrightarrow> Q k' = Q k \<Longrightarrow> (\<exists>x \<in> insert k' (A - {k}). Q x) \<longleftrightarrow> (\<exists>x \<in> A. Q x)"
  "k \<in> A \<Longrightarrow> Q k' = Q k \<Longrightarrow> (\<forall>x \<in> insert k' (A - {k}). Q x) \<longleftrightarrow> (\<forall>x \<in> A. Q x)"
  by auto

text \<open>A change that does not make a file done.\<close>

lemma during_changed:
  assumes "during S P q (\<lambda>fs _ _ _. core s \<in> set fs) w" "plainChange g" "\<And>s. rsDone (g s) = rsDone s" "fileInv S P (g (core s))"
  shows "during S P q (\<lambda>fs _ _ _. g (core s) \<in> set fs) (changeFile (rsId s) g w)"
proof -
  have i: "filesInv S P w" "manifestInv w" "statusInv w" "sentInv w" "queueInv S P w" "core s \<in> set (cores w)" "\<exists>more. rxQueue w = q @ more"
    using assms(1) by (auto simp: during_def receiverInv_def)
  let ?v = "changeFile (rsId s) g w"
  note c = filesInv_changed[OF i(1,6) assms(2,4)]
  have same: "rxManifest ?v = rxManifest w" "rxExpected ?v = rxExpected w" "rxFailed ?v = rxFailed w" "rxCompleted ?v = rxCompleted w"
    "rxAllDoneSeen ?v = rxAllDoneSeen w" "rxOutbox ?v = rxOutbox w" "rxOutcome ?v = rxOutcome w" "rxQueue ?v = rxQueue w"
    "rxQueuedBytes ?v = rxQueuedBytes w" "rxQueuedMessages ?v = rxQueuedMessages w" "rxEvents ?v = rxEvents w" "length (cores ?v) = length (cores w)"
    by (simp_all add: changeFile_def)
  have idg: "rsId (g (core s)) = rsId s" using assms(2) by (simp add: plainChange_def)
  have "manifestInv ?v" "queueInv S P ?v" using i unfolding manifestInv_def queueInv_def same by auto
  moreover have one: "(\<exists>x \<in> set (cores ?v). rsId x = k \<and> rsDone x) \<longleftrightarrow> (\<exists>x \<in> set (cores w). rsId x = k \<and> rsDone x)" for k
    unfolding c(2) by (rule replaced_all[OF i(6)]) (simp add: idg assms(3))
  have all: "(\<forall>x \<in> set (cores ?v). rsDone x) \<longleftrightarrow> (\<forall>x \<in> set (cores w). rsDone x)"
    unfolding c(2) by (rule replaced_all[OF i(6)]) (simp add: assms(3))
  have "statusInv ?v" using i(3) unfolding statusInv_def same list_all_iff all .
  moreover have "sentInv ?v" using i(4) unfolding sentInv_def sentMessages_def same one .
  ultimately show ?thesis using i(7) c unfolding during_def receiverInv_def same by blast
qed

lemma withFile_contract:
  assumes "\<And>x. core x = core s \<Longrightarrow> contract (\<lambda>w. during S P q (\<lambda>fs _ _ _. core s \<in> set fs) w \<and> R w) (f x) Q E"
  shows "contract (\<lambda>w. during S P q (\<lambda>fs _ _ _. core s \<in> set fs) w \<and> R w) (withFile (rsId s) f) Q E"
  unfolding contract_def
proof (intro allI impI)
  fix w assume w: "during S P q (\<lambda>fs _ _ _. core s \<in> set fs) w \<and> R w"
  then have d: "distinct (map rsId (rxFiles w))" and m: "core s \<in> core ` set (rxFiles w)"
    by (auto simp: during_def receiverInv_def filesInv_def comp_def)
  from m obtain x where x: "x \<in> set (rxFiles w)" "core x = core s" by auto
  have id: "rsId x = rsId s" using x(2) core_fields(1) by metis
  have "findFile (rsId s) w = Some x"
  proof (cases "findFile (rsId s) w")
    case None
    then show ?thesis using x id by (auto simp: findFile_def find_None_iff)
  next
    case (Some y)
    then have "y \<in> set (rxFiles w)" "rsId y = rsId s" by (auto simp: findFile_def find_Some_iff)
    then show ?thesis using Some d x(1) id by (metis distinct_map inj_onD)
  qed
  then show "case withFile (rsId s) f w of (Inl e, v) \<Rightarrow> E v | (Inr x, v) \<Rightarrow> Q x v"
    using assms[OF x(2)] w unfolding withFile_def contract_def by auto
qed

end
