(* ===== verification/ReceiverTasks.thy ===== *)
theory ReceiverTasks
  imports ReceiverInvariant
begin

text \<open>
  The tasks of the receiver keep its invariant: the finalization of a file, the handlers of control
  and bulk messages, and whole runs.
\<close>

section \<open>Steps of a task\<close>

abbreviation working :: "ReceiveSetup \<Rightarrow> chunkLaw \<Rightarrow> ReceiveTask list \<Rightarrow> ReceiveState \<Rightarrow> Receiver \<Rightarrow> bool" where
  "working S P q s \<equiv> during S P q (\<lambda>fs _ _ _. core s \<in> set fs)"

abbreviation settled :: "ReceiveSetup \<Rightarrow> chunkLaw \<Rightarrow> ReceiveTask list \<Rightarrow> Receiver \<Rightarrow> bool" where
  "settled S P q \<equiv> during S P q anyTask"

abbreviation running :: "Receiver \<Rightarrow> bool" where
  "running w \<equiv> \<not> rxFailed w \<and> \<not> rxCompleted w"

lemma quiet_then:
  "keeps (quiet S P) m \<Longrightarrow> (\<And>x. contract (during S P q B) (f x) Q (settled S P q)) \<Longrightarrow> contract (during S P q B) (bindIO m f) Q (settled S P q)"
  by (rule contract_bind[OF quiet_any])

lemma stopped_then:
  "contract (\<lambda>w. during S P q B w \<and> running w) (f ()) Q (settled S P q) \<Longrightarrow> contract (during S P q B) (bindIO throwIfReceiveStopped f) Q (settled S P q)"
  by (rule contract_bind[OF stopped_any]) simp

lemma forget_running: "contract (during S P q B) m Q E \<Longrightarrow> contract (\<lambda>w. during S P q B w \<and> running w) m Q E"
  by (erule contract_weaken) auto

lemma settled_raise: "contract (during S P q B) (raiseIO e) Q (settled S P q)"
  by (intro contract_rules) (rule during_any)

lemma working_withFile:
  "(\<And>x. core x = core s \<Longrightarrow> contract (working S P q s) (f x) Q E) \<Longrightarrow> contract (working S P q s) (withFile (rsId s) f) Q E"
  using withFile_contract[of s S P q "\<lambda>_. True" f Q E] by simp

section \<open>Finalization\<close>

lemma check_contract:
  "contract (during S P q B) (checkStillRunning S fid) (\<lambda>_ w. during S P q B w \<and> running w) (settled S P q)"
  unfolding checkStillRunning_def
  by (rule contract_catch[OF stopped_contract]) (intro quiet_then steady_calls settled_raise)

lemma check_then:
  "contract (\<lambda>w. during S P q B w \<and> running w) (f ()) Q (settled S P q) \<Longrightarrow> contract (during S P q B) (bindIO (checkStillRunning S fid) f) Q (settled S P q)"
  by (rule contract_bind[OF check_contract]) simp

lemma plain_done: "plainChange (rsDone_update (\<lambda>_. True))"
  by (simp add: plainChange_def core_def)

lemma replaced_one:
  "x \<in> A \<Longrightarrow> f x' = f x \<Longrightarrow> D x' \<Longrightarrow> (\<exists>y \<in> insert x' (A - {x}). f y = j \<and> D y) \<longleftrightarrow> j = f x \<or> (\<exists>y \<in> A. f y = j \<and> D y)"
  by auto

lemma done_inv:
  assumes "working S P q s w" "running w" "verifiedFile (setCrypto S) s"
  shows "settled S P q (changeFile (rsId s) (rsDone_update (\<lambda>_. True)) (w\<lparr>rxOutbox := rxOutbox w @ [(FileOk (rsId s), sealed)]\<rparr>))"
proof -
  let ?u = "w\<lparr>rxOutbox := rxOutbox w @ [(FileOk (rsId s), sealed)]\<rparr>" and ?g = "rsDone_update (\<lambda>_. True) :: ReceiveState \<Rightarrow> ReceiveState"
  let ?v = "changeFile (rsId s) ?g ?u"
  have i: "filesInv S P w" "manifestInv w" "statusInv w" "sentInv w" "queueInv S P w" "core s \<in> set (cores w)" "\<exists>more. rxQueue w = q @ more"
    using assms(1) by (auto simp: during_def receiverInv_def)
  have u: "filesInv S P ?u" "core s \<in> set (cores ?u)" using i(1,6) by (simp_all add: filesInv_def)
  have "fileInv S P (core s)" using i(1,6) unfolding filesInv_def by blast
  then have f: "fileInv S P (?g (core s))" using assms(3) by (simp add: fileInv_def verifiedFile_def fromStream_def)
  note c = filesInv_changed[OF u plain_done f]
  have same: "rxManifest ?v = rxManifest w" "rxExpected ?v = rxExpected w" "rxFailed ?v = rxFailed w" "rxCompleted ?v = rxCompleted w"
    "rxAllDoneSeen ?v = rxAllDoneSeen w" "rxOutcome ?v = rxOutcome w" "rxQueue ?v = rxQueue w"
    "rxQueuedBytes ?v = rxQueuedBytes w" "rxQueuedMessages ?v = rxQueuedMessages w" "rxEvents ?v = rxEvents w" "length (cores ?v) = length (cores w)"
    and out: "sentMessages ?v = sentMessages w @ [FileOk (rsId s)]"
    by (simp_all add: changeFile_def sentMessages_def)
  have d: "(\<exists>x \<in> set (cores ?v). rsId x = k \<and> rsDone x) \<longleftrightarrow> k = rsId s \<or> (\<exists>x \<in> set (cores w). rsId x = k \<and> rsDone x)" for k
    unfolding c(2) using replaced_one[of "core s" "set (cores w)" rsId "?g (core s)" rsDone k] i(6) by simp
  have "manifestInv ?v" "queueInv S P ?v" using i unfolding manifestInv_def queueInv_def same by auto
  moreover have "statusInv ?v" using i(3) assms(2) unfolding statusInv_def same by auto
  moreover have "sentInv ?v" using i(4) assms(2) unfolding sentInv_def out same d by (auto simp: butlast_append)
  ultimately show ?thesis using i(7) c(1) unfolding during_def receiverInv_def same by blast
qed

lemma finish_contract:
  assumes "verifiedFile (setCrypto S) s"
  shows "contract (\<lambda>w. working S P q s w \<and> running w)
    (bindIO (channelSend (FileOk (rsId s)) sealed) (\<lambda>_. updFile (rsId s) (rsDone_update (\<lambda>_. True)))) (\<lambda>_. settled S P q) (settled S P q)"
  unfolding contract_def
proof (intro allI impI)
  fix w assume w: "working S P q s w \<and> running w"
  let ?v = "rxSendFaults_update tl w"
  have v: "working S P q s ?v" "running ?v" using w during_quiet[OF view_quiet[OF faults_view]] by auto
  show "case bindIO (channelSend (FileOk (rsId s)) sealed) (\<lambda>_. updFile (rsId s) (rsDone_update (\<lambda>_. True))) w of
      (Inl e, v) \<Rightarrow> settled S P q v | (Inr x, v) \<Rightarrow> settled S P q v"
    using done_inv[OF v assms, of sealed] during_any[OF v(1)] by (simp add: eval_rules channelSend_runs Let_def updFile_runs)
qed

lemma publish_contract:
  assumes "verifiedFile (setCrypto S) s"
  shows "contract (working S P q s) (publishReceived S s sealed) (\<lambda>_. settled S P q) (settled S P q)"
  unfolding publishReceived_def
  by (intro quiet_then check_then forget_running contract_if steady_calls settled_raise finish_contract[OF assms])

lemma contract_fact: "(\<And>w. P w \<Longrightarrow> F) \<Longrightarrow> (F \<Longrightarrow> contract P m Q E) \<Longrightarrow> contract P m Q E"
  by (auto simp: contract_def)

lemma working_fileInv: "working S P q s w \<Longrightarrow> fileInv S P s"
  unfolding during_def receiverInv_def filesInv_def using fileInv_core by blast

lemma removePart_contract: "contract (during S P q B) (removePart S s msg) Q (settled S P q)"
  unfolding removePart_def by (intro quiet_then steady_calls settled_raise)

lemma finalize_contract:
  assumes "rsBytes s = rsSize s"
  shows "contract (working S P q s) (finalizeFile S (rsId s)) (\<lambda>_. settled S P q) (settled S P q)"
proof -
  have "contract (working S P q s) (if Some (digestHex (setCrypto S) (rsHash x)) \<noteq> rsExpectedSha256 x then removePart S x ''Hash mismatch for ''
       else
         bindIO (awaiting S (onFs (digestFilePath (setCrypto S) (rsPartPath x) None (rsSize x)))) (\<lambda>onDisk.
         bindIO throwIfReceiveStopped (\<lambda>_.
           if Some onDisk \<noteq> rsExpectedSha256 x then removePart S x ''On-disk hash mismatch for ''
           else
             bindIO (awaiting S (sealMessage S (FileOk (rsId s)))) (\<lambda>fileOk.
             bindIO throwIfReceiveStopped (\<lambda>_. publishReceived S x fileOk))))) (\<lambda>_. settled S P q) (settled S P q)" if "core x = core s" for x
  proof (intro contract_if)
    assume "\<not> Some (digestHex (setCrypto S) (rsHash x)) \<noteq> rsExpectedSha256 x"
    then have v: "verifiedFile (setCrypto S) x" using assms core_eqD[OF that] by (simp add: verifiedFile_def)
    show "contract (working S P q s) (bindIO (awaiting S (onFs (digestFilePath (setCrypto S) (rsPartPath x) None (rsSize x)))) (\<lambda>onDisk.
         bindIO throwIfReceiveStopped (\<lambda>_.
           if Some onDisk \<noteq> rsExpectedSha256 x then removePart S x ''On-disk hash mismatch for ''
           else bindIO (awaiting S (sealMessage S (FileOk (rsId s)))) (\<lambda>fileOk.
             bindIO throwIfReceiveStopped (\<lambda>_. publishReceived S x fileOk))))) (\<lambda>_. settled S P q) (settled S P q)"
      by (intro quiet_then stopped_then forget_running contract_if removePart_contract steady_calls publish_contract[OF v, unfolded that])
  qed (rule removePart_contract)
  then show ?thesis
    unfolding finalizeFile_def by (intro quiet_then stopped_then forget_running working_withFile steady_calls)
qed

lemma maybeFinalize_contract: "contract (working S P q s) (maybeFinalize S (rsId s)) (\<lambda>_. settled S P q) (settled S P q)"
  unfolding maybeFinalize_def
proof (rule working_withFile)
  fix x assume x: "core x = core s"
  have fail: "contract (settled S P q) (bindIO (updFile (rsId s) (rsFinalizing_update (\<lambda>_. False))) (\<lambda>_. raiseIO e)) (\<lambda>_. settled S P q) (settled S P q)" for e
    by (intro quiet_then steady_calls settled_raise)
  show "contract (working S P q s) (if rsDone x \<or> rsFinalizing x \<or> rsExpectedSha256 x = None \<or> rsBytes x < rsSize x then pureIO ()
     else bindIO (updFile (rsId s) (rsFinalizing_update (\<lambda>_. True))) (\<lambda>_.
       catchIO (finalizeFile S (rsId s)) (\<lambda>e. bindIO (updFile (rsId s) (rsFinalizing_update (\<lambda>_. False))) (\<lambda>_. raiseIO e)))) (\<lambda>_. settled S P q) (settled S P q)"
  proof (rule contract_fact)
    show "fileInv S P s" if "working S P q s w" for w using that by (rule working_fileInv)
    assume f: "fileInv S P s"
    show ?thesis
    proof (cases "rsDone x \<or> rsFinalizing x \<or> rsExpectedSha256 x = None \<or> rsBytes x < rsSize x")
      case True
      then show ?thesis by (auto intro!: contract_rules dest: during_any)
    next
      case False
      then have "rsBytes s = rsSize s" using f core_eqD[OF x] by (auto simp: fileInv_def)
      from contract_catch[OF finalize_contract[OF this] fail] show ?thesis
        unfolding if_not_P[OF False] by (intro quiet_then steady_calls)
    qed
  qed
qed

section \<open>Control messages\<close>

lemma during_if: "during S P q B w \<Longrightarrow> B' (cores w) (rxManifest w) (rxExpected w) (rxAllDoneSeen w) \<Longrightarrow> during S P q B' w"
  by (simp add: during_def)

lemma manifest_contract:
  assumes "wfControl (Manifest entries n)"
  shows "contract (settled S P q) (receiveManifest S entries n) (\<lambda>_. settled S P q) (settled S P q)"
proof -
  have new: "settled S P q (w\<lparr>rxManifest := Some (Manifest entries n), rxExpected := entries\<rparr>)" if "settled S P q w" "rxManifest w = None" for w
  proof -
    have none: "rxFiles w = []" using that by (cases "rxFiles w") (auto simp: during_def receiverInv_def filesInv_def manifestInv_def)
    with that assms show ?thesis unfolding during_def receiverInv_def
      by (auto simp: filesInv_def manifestInv_def statusInv_def sentInv_def queueInv_def sentMessages_def)
  qed
  have set_it: "contract (\<lambda>w. settled S P q w \<and> None = rxManifest w) (modifyIO (\<lambda>w. w\<lparr>rxManifest := Some (Manifest entries n), rxExpected := entries\<rparr>))
      (\<lambda>_. settled S P q) (settled S P q)"
    using new by (auto simp: contract_def io_defs)
  show ?thesis
    unfolding receiveManifest_def
  proof (intro contract_read)
    fix m
    show "contract (\<lambda>w. settled S P q w \<and> m = rxManifest w)
      (if m \<noteq> None then failIO ''Duplicate transfer manifest.''
       else bindIO (modifyIO (\<lambda>w. w\<lparr>rxManifest := Some (Manifest entries n), rxExpected := entries\<rparr>)) (\<lambda>_.
         bindIO (liftRes (assertManifestWithinLimits (manifestObject entries n))) (\<lambda>_.
         bindIO (case setAccepted S of None \<Rightarrow> pureIO ()
           | Some accepted \<Rightarrow> liftRes (assertTransferManifestMatchesAccepted accepted (controlObject (Manifest entries n)))) (\<lambda>_.
           modifyIO (rxTotalBytes_update (\<lambda>_. n)))))) (\<lambda>_. settled S P q) (settled S P q)"
    proof (cases m)
      case None
      have "contract (settled S P q) (bindIO (liftRes (assertManifestWithinLimits (manifestObject entries n))) (\<lambda>_.
         bindIO (case setAccepted S of None \<Rightarrow> pureIO ()
           | Some accepted \<Rightarrow> liftRes (assertTransferManifestMatchesAccepted accepted (controlObject (Manifest entries n)))) (\<lambda>_.
           modifyIO (rxTotalBytes_update (\<lambda>_. n))))) (\<lambda>_. settled S P q) (settled S P q)"
        by (intro quiet_contract quiet.keeps_rules steady_calls) (auto intro: quiet.keeps_rules split: option.split)
      from contract_bind[OF set_it this] None show ?thesis by simp
    qed (auto simp: contract_def io_defs)
  qed
qed

lemma find_contract:
  assumes "\<And>s. rsId s = fid \<Longrightarrow> contract (working S P q s) (f s) Q E" "contract (settled S P q) n Q E"
  shows "contract (settled S P q) (bindIO (readIO (findFile fid)) (\<lambda>state. case state of None \<Rightarrow> n | Some s \<Rightarrow> f s)) Q E"
proof (rule contract_read)
  fix state
  show "contract (\<lambda>w. settled S P q w \<and> state = findFile fid w) (case state of None \<Rightarrow> n | Some s \<Rightarrow> f s) Q E"
  proof (cases state)
    case None
    then show ?thesis using assms(2) by (auto elim: contract_weaken)
  next
    case (Some s)
    have facts: "working S P q s w \<and> rsId s = fid" if "settled S P q w \<and> state = findFile fid w" for w
      using that Some find_Some_iff[of "\<lambda>s. rsId s = fid" "rxFiles w" s] by (auto simp: during_def findFile_def eq_commute[of "Some s"])
    have "contract (\<lambda>w. settled S P q w \<and> state = findFile fid w) (f s) Q E"
    proof (rule contract_fact)
      show "rsId s = fid" if "settled S P q w \<and> state = findFile fid w" for w using facts[OF that] ..
      assume "rsId s = fid"
      then show "contract (\<lambda>w. settled S P q w \<and> state = findFile fid w) (f s) Q E"
        by (rule contract_weaken[OF assms(1)]) (use facts in blast)+
    qed
    with Some show ?thesis by simp
  qed
qed

lemma update_contract:
  assumes "plainChange (\<lambda>x. core (g x))" "\<And>s. rsDone (g s) = rsDone s" "fileInv S P s \<Longrightarrow> fileInv S P (g s)"
  shows "contract (working S P q s) (updFile (rsId s) g) (\<lambda>_. working S P q (g s)) E"
  unfolding contract_def updFile_runs
proof (intro allI impI)
  fix w assume w: "working S P q s w"
  have c: "core (g (core s)) = core (g s)" using assms(1) by (simp add: plainChange_def)
  have "fileInv S P (core (g (core s)))" using assms(3)[OF working_fileInv[OF w]] fileInv_core[of S P "g s"] c by simp
  then have "working S P q (g s) (changeFile (rsId s) (\<lambda>x. core (g x)) w)" using during_changed[OF w assms(1)] assms(2) c by simp
  moreover have "sameView (changeFile (rsId s) (\<lambda>x. core (g x)) w) (changeFile (rsId s) g w)" by (simp add: sameView_def changeFile_def)
  ultimately show "case (Inr (), changeFile (rsId s) g w) of (Inl e, v) \<Rightarrow> E v | (Inr x, v) \<Rightarrow> working S P q (g s) v"
    using during_quiet[OF view_quiet] by simp
qed

lemma finish_file: "contract (working S P q s) (bindIO (maybeFinalize S (rsId s)) (\<lambda>_. maybeResolveDone S)) (\<lambda>_. settled S P q) (settled S P q)"
  by (rule contract_bind[OF maybeFinalize_contract resolve_contract])

lemma fileEnd_contract: "contract (settled S P q) (receiveFileEnd S fid sha) (\<lambda>_. settled S P q) (settled S P q)"
  unfolding receiveFileEnd_def
proof (rule find_contract)
  fix s :: ReceiveState assume [simp]: "rsId s = fid"
  let ?g = "rsExpectedSha256_update (\<lambda>_. Some sha) :: ReceiveState \<Rightarrow> ReceiveState"
  show "contract (working S P q s) (if rsExpectedSha256 s \<noteq> None then failIO (''Duplicate file-end for file '' @ showNat fid)
      else bindIO (updFile fid ?g) (\<lambda>_. bindIO (maybeFinalize S fid) (\<lambda>_. maybeResolveDone S))) (\<lambda>_. settled S P q) (settled S P q)"
  proof (intro contract_if settled_raise)
    assume "\<not> rsExpectedSha256 s \<noteq> None"
    then have "contract (working S P q s) (updFile (rsId s) ?g) (\<lambda>_. working S P q (?g s)) (settled S P q)"
      by (intro update_contract) (auto simp: plainChange_def core_def fileInv_def verifiedFile_def fromStream_def)
    from contract_bind[OF this finish_file[of S P q "?g s"]]
    show "contract (working S P q s) (bindIO (updFile fid ?g) (\<lambda>_. bindIO (maybeFinalize S fid) (\<lambda>_. maybeResolveDone S))) (\<lambda>_. settled S P q) (settled S P q)"
      by simp
  qed
qed (rule settled_raise)

lemma allDone_contract: "contract (settled S P q) (receiveAllDone S) (\<lambda>_. settled S P q) (settled S P q)"
  unfolding receiveAllDone_def
proof (rule contract_read)
  fix x :: "ControlMessage option \<times> bool \<times> nat \<times> nat"
  obtain m seen a b where x: "x = (m, seen, a, b)" by (cases x)
  have set_it: "contract (\<lambda>w. settled S P q w \<and> m = rxManifest w \<and> a = length (rxFiles w) \<and> b = length (rxExpected w) \<and> m \<noteq> None \<and> a = b)
      (modifyIO (rxAllDoneSeen_update (\<lambda>_. True))) (\<lambda>_. settled S P q) (settled S P q)"
    unfolding contract_def during_def receiverInv_def
    by (auto simp: io_defs filesInv_def manifestInv_def statusInv_def sentInv_def queueInv_def sentMessages_def)
  have "contract (\<lambda>w. settled S P q w \<and> (m, seen, a, b) = (rxManifest w, rxAllDoneSeen w, length (rxFiles w), length (rxExpected w)))
     (if m = None then failIO ''all-done arrived before manifest.'' else if seen then failIO ''Duplicate all-done control message.''
      else if a \<noteq> b then failIO ''Not all manifest files were transferred.''
      else bindIO (modifyIO (rxAllDoneSeen_update (\<lambda>_. True))) (\<lambda>_. maybeResolveDone S)) (\<lambda>_. settled S P q) (settled S P q)"
  proof (intro contract_if)
    assume "m \<noteq> None" "\<not> a \<noteq> b"
    then show "contract (\<lambda>w. settled S P q w \<and> (m, seen, a, b) = (rxManifest w, rxAllDoneSeen w, length (rxFiles w), length (rxExpected w)))
       (bindIO (modifyIO (rxAllDoneSeen_update (\<lambda>_. True))) (\<lambda>_. maybeResolveDone S)) (\<lambda>_. settled S P q) (settled S P q)"
      by (intro contract_weaken[OF contract_bind[OF set_it resolve_contract]]) auto
  qed (auto simp: contract_def io_defs)
  then show "contract (\<lambda>w. settled S P q w \<and> x = (rxManifest w, rxAllDoneSeen w, length (rxFiles w), length (rxExpected w)))
     (case x of (manifest, seen, known, expected) \<Rightarrow> if manifest = None then failIO ''all-done arrived before manifest.''
       else if seen then failIO ''Duplicate all-done control message.''
       else if known \<noteq> expected then failIO ''Not all manifest files were transferred.''
       else bindIO (modifyIO (rxAllDoneSeen_update (\<lambda>_. True))) (\<lambda>_. maybeResolveDone S)) (\<lambda>_. settled S P q) (settled S P q)"
    unfolding x prod.case .
qed

lemma restart_contract:
  assumes "\<not> rsDone s"
  shows "contract (working S P q s) (restartReceiveState S (rsId s)) (\<lambda>_. settled S P q) (settled S P q)"
proof -
  let ?g = "\<lambda>h x. x\<lparr>rsStream := \<lparr>wsHandle = h, wsPos = 0, wsClosed = False\<rparr>, rsHash := [], rsBytes := 0, rsExpectedSeq := 0\<rparr> :: ReceiveState"
  have reset: "contract (working S P q s) (updFile (rsId s) (?g h)) (\<lambda>_. settled S P q) (settled S P q)" for h
    by (rule contract_weaken[OF update_contract[of "?g h"]])
      (use assms in \<open>auto simp: plainChange_def core_def fileInv_def fromStream_def dest: during_any\<close>)
  have fail: "contract (settled S P q) (bindIO (ignoreIO (onFs (handleClose h))) (\<lambda>_. raiseIO e)) (\<lambda>_. settled S P q) (settled S P q)" for h e
    by (intro quiet_then quiet.keeps_rules steady_calls settled_raise)
  show ?thesis
    unfolding restartReceiveState_def
    by (intro quiet_then working_withFile contract_catch[OF _ fail] reset steady_calls)
qed

lemma receiveRestart_contract: "contract (settled S P q) (receiveRestart S fid) (\<lambda>_. settled S P q) (settled S P q)"
  unfolding receiveRestart_def
proof (rule find_contract)
  fix s :: ReceiveState assume [simp]: "rsId s = fid"
  have later: "contract (settled S P q) (awaitEvents S) (\<lambda>_. settled S P q) (settled S P q)" by (intro quiet_contract steady_calls)
  show "contract (working S P q s) (if rsDone s \<or> rsExpectedSha256 s \<noteq> None then failIO (''restart for completed file '' @ showNat fid)
      else bindIO (awaiting S (restartReceiveState S fid)) (\<lambda>_. sendControl S (Ready fid None None))) (\<lambda>_. settled S P q) (settled S P q)"
  proof (intro contract_if settled_raise)
    assume "\<not> (rsDone s \<or> rsExpectedSha256 s \<noteq> None)"
    then have "contract (working S P q s) (restartReceiveState S fid) (\<lambda>_. settled S P q) (settled S P q)" using restart_contract[of s S P q] by simp
    then have "contract (working S P q s) (awaiting S (restartReceiveState S fid)) (\<lambda>_. settled S P q) (settled S P q)"
      unfolding awaiting_def by (rule contract_finally) (rule later)+
    then show "contract (working S P q s) (bindIO (awaiting S (restartReceiveState S fid)) (\<lambda>_. sendControl S (Ready fid None None))) (\<lambda>_. settled S P q) (settled S P q)"
      by (rule contract_bind) (rule send_plain; simp)
  qed
qed (rule settled_raise)

text \<open>Once all-done has come, every file of the manifest has begun.\<close>

lemma manifest_ids: "wfControl (Manifest fs n) \<Longrightarrow> distinct (map entryId fs)"
  by (auto simp: distinct_conv_nth)

lemma all_begun:
  assumes "receiverInv S P w" "rxAllDoneSeen w" shows "entryId ` set (rxExpected w) = rsId ` set (rxFiles w)"
proof -
  have "distinct (map entryId (rxExpected w))" using assms manifest_ids by (auto simp: receiverInv_def manifestInv_def)
  then have e: "card (entryId ` set (rxExpected w)) = length (rxExpected w)" by (metis distinct_card length_map list.set_map)
  have "distinct (map rsId (rxFiles w))" using assms(1) by (auto simp: receiverInv_def filesInv_def comp_def)
  then have f: "card (rsId ` set (rxFiles w)) = length (rxFiles w)" by (metis distinct_card length_map list.set_map)
  have "length (rxFiles w) = length (rxExpected w)" using assms by (auto simp: receiverInv_def manifestInv_def)
  moreover have "\<forall>s \<in> set (rxFiles w). \<exists>f \<in> set (rxExpected w). rsId s = entryId f"
    using assms(1) by (auto simp: receiverInv_def filesInv_def) metis
  then have "rsId ` set (rxFiles w) \<subseteq> entryId ` set (rxExpected w)" by blast
  ultimately show ?thesis using card_subset_eq[of "entryId ` set (rxExpected w)" "rsId ` set (rxFiles w)"] e f by simp
qed

lemma new_file_inv:
  assumes "resumesWithin (if setResume S then Some sz else None) r" shows "fileInv S P (newReceiveState fid sz r)"
proof -
  let ?s = "newReceiveState fid sz r"
  have seq: "rsExpectedSeq ?s = (if resumeBytes r = sz then chunksIn sz else resumeBytes r div CHUNK_SIZE)"
    by (simp add: newReceiveState_def chunksIn_def)
  have "mayKeep S sz (resumeHash r)" "rsExpectedSeq ?s = chunksIn (length (resumeHash r))"
    using assms unfolding seq by (auto simp: resumesWithin_def mayKeep_def chunksIn_whole split: if_splits)
  then have "fromStream S P ?s"
    unfolding fromStream_def by (intro exI[of _ "resumeHash r"] exI[of _ "[]"]) (simp add: newReceiveState_def)
  then show ?thesis
    using assms by (auto simp: fileInv_def newReceiveState_def resumesWithin_def split: if_splits)
qed

lemma begun_inv:
  assumes "during S P q (\<lambda>fs m e seen. (\<forall>x \<in> set fs. rsId x \<noteq> fid) \<and> (\<exists>f \<in> set e. entryId f = fid \<and> entrySize f = sz)) w" "fileInv S P s"
    "rsId s = fid" "rsSize s = sz" "\<not> rsDone s"
  shows "settled S P q (w\<lparr>rxFiles := rxFiles w @ [s]\<rparr>)"
proof -
  have i: "receiverInv S P w" "fid \<notin> rsId ` set (rxFiles w)" "\<exists>f \<in> set (rxExpected w). entryId f = fid \<and> entrySize f = sz" "\<exists>more. rxQueue w = q @ more"
    using assms(1) by (auto simp: during_def)
  have a: "\<not> rxAllDoneSeen w" using all_begun[OF i(1)] i(2,3) by auto
  have "filesInv S P (w\<lparr>rxFiles := rxFiles w @ [s]\<rparr>)"
    using i assms(2-4) unfolding receiverInv_def by (auto simp: filesInv_def comp_def)
  moreover have "sentInv (w\<lparr>rxFiles := rxFiles w @ [s]\<rparr>)" using i(1) assms(5) by (auto simp: receiverInv_def sentInv_def sentMessages_def)
  moreover have "manifestInv (w\<lparr>rxFiles := rxFiles w @ [s]\<rparr>)" "statusInv (w\<lparr>rxFiles := rxFiles w @ [s]\<rparr>)" "queueInv S P (w\<lparr>rxFiles := rxFiles w @ [s]\<rparr>)"
    using i(1) a by (auto simp: receiverInv_def manifestInv_def statusInv_def queueInv_def)
  ultimately show ?thesis using i(4) by (simp add: during_def receiverInv_def)
qed

lemma awaited: "returns (awaiting S (onFs m)) w x v \<Longrightarrow> \<exists>u. returns m (rxFs w) x u"
  unfolding awaiting_def run_simps by (auto simp: returns_def onFs_def zoomIO_def split: prod.splits)

abbreviation mayBegin :: "nat \<Rightarrow> nat \<Rightarrow> taskFacts" where
  "mayBegin fid sz \<equiv> \<lambda>fs m e seen. (\<forall>x \<in> set fs. rsId x \<noteq> fid) \<and> (\<exists>f \<in> set e. entryId f = fid \<and> entrySize f = sz)"

lemma beginFile_contract: "contract (during S P q (mayBegin fid sz)) (beginFile S fid name sz) (\<lambda>_. settled S P q) (settled S P q)"
proof -
  let ?B = "mayBegin fid sz"
  let ?reserve = "reserveOutputFile (setCrypto S) (setOutDir S) name \<lparr>optResume = setResume S, optSize = jnat sz, optOpaqueName = setOpaque S, optPrivateDir = setPrivate S\<rparr>"
  have reserve: "contract (during S P q ?B) (awaiting S (onFs ?reserve))
      (\<lambda>r w. during S P q ?B w \<and> resumesWithin (if setResume S then Some sz else None) r) (settled S P q)"
  proof -
    have "contract (during S P q ?B) (awaiting S (onFs ?reserve)) (\<lambda>_. during S P q ?B) (settled S P q)" by (intro quiet_any steady_calls)
    moreover have "resumesWithin (if setResume S then Some sz else None) r" if "returns (awaiting S (onFs ?reserve)) w r v" for w r v
      using awaited[OF that] reserved_within[of _ _ _ "\<lparr>optResume = setResume S, optSize = jnat sz, optOpaqueName = setOpaque S, optPrivateDir = setPrivate S\<rparr>"]
      by (force split: if_splits)
    ultimately show ?thesis unfolding contract_iff by blast
  qed
  have add: "contract (\<lambda>w. during S P q ?B w \<and> resumesWithin (if setResume S then Some sz else None) r)
      (modifyIO (rxFiles_update (\<lambda>files. files @ [newReceiveState fid sz r]))) (\<lambda>_. settled S P q) (settled S P q)" for r
    unfolding contract_def
  proof (intro allI impI)
    fix w assume w: "during S P q ?B w \<and> resumesWithin (if setResume S then Some sz else None) r"
    have "settled S P q (w\<lparr>rxFiles := rxFiles w @ [newReceiveState fid sz r]\<rparr>)"
      using w new_file_inv[of S sz r P fid] by (intro begun_inv[of S P q fid sz]) (auto simp: newReceiveState_def)
    moreover have eq: "rxFiles_update (\<lambda>files. files @ [newReceiveState fid sz r]) w = w\<lparr>rxFiles := rxFiles w @ [newReceiveState fid sz r]\<rparr>" by (cases w) simp
    ultimately show "case modifyIO (rxFiles_update (\<lambda>files. files @ [newReceiveState fid sz r])) w of (Inl e, v) \<Rightarrow> settled S P q v | (Inr x, v) \<Rightarrow> settled S P q v"
      unfolding modifyIO_def eq by simp
  qed
  show ?thesis
    unfolding beginFile_def
    by (rule contract_lift, rule contract_bind[OF reserve], rule contract_bind[OF add], rule send_plain) (auto simp: readyMessage_def dest: during_any)
qed

lemma contract_option:
  "(y = None \<Longrightarrow> contract P m Q E) \<Longrightarrow> (\<And>x. y = Some x \<Longrightarrow> contract P (f x) Q E) \<Longrightarrow> contract P (case y of None \<Rightarrow> m | Some x \<Rightarrow> f x) Q E"
  by (cases y) auto

lemma fileBegin_contract: "contract (settled S P q) (receiveFileBegin S fid name sz) (\<lambda>_. settled S P q) (settled S P q)"
  unfolding receiveFileBegin_def
proof (rule contract_read, clarify)
  fix m e known
  have facts: "during S P q (mayBegin fid sz) w"
    if "settled S P q w \<and> (m, e, known) = (rxManifest w, find (\<lambda>f. entryId f = fid) (rxExpected w), findFile fid w)" "e = Some f" "known = None" "entrySize f = sz" for w f
    using that by (auto simp: during_def findFile_def find_None_iff find_Some_iff eq_commute[of "Some f"] eq_commute[of None])
  show "contract (\<lambda>w. settled S P q w \<and> (m, e, known) = (rxManifest w, find (\<lambda>f. entryId f = fid) (rxExpected w), findFile fid w))
     (if m = None then failIO ''file-begin arrived before manifest.''
      else case e of None \<Rightarrow> failIO (''file-begin for unexpected file '' @ showNat fid)
        | Some e \<Rightarrow> if known \<noteq> None then failIO (''Duplicate file-begin for file '' @ showNat fid)
            else if entryName e \<noteq> name \<or> entrySize e \<noteq> sz then failIO (''file-begin does not match manifest for file '' @ showNat fid)
            else beginFile S fid name sz) (\<lambda>_. settled S P q) (settled S P q)"
    by (intro contract_if contract_option contract_weaken[OF beginFile_contract])
      ((rule contract_rules, blast) | (rule facts, assumption, assumption, simp, simp) | assumption)+
qed

lemma control_contract: "wfControl m \<Longrightarrow> contract (settled S P q) (receiveControl S m) (\<lambda>_. settled S P q) (settled S P q)"
  by (cases m) (auto simp: fileBegin_contract receiveRestart_contract fileEnd_contract allDone_contract intro: manifest_contract settled_raise simp del: wfControl.simps)

section \<open>Chunks\<close>

lemma payload_contract:
  assumes "\<not> rsDone s" "P (rsId s) (rsExpectedSeq s) chunk"
  shows "contract (working S P q s) (receivePayload S (rsId s) chunk) (\<lambda>_. settled S P q) (settled S P q)"
proof -
  let ?g = "\<lambda>x. x\<lparr>rsExpectedSeq := rsExpectedSeq x + 1, rsHash := rsHash x @ chunk, rsBytes := rsBytes x + length chunk\<rparr> :: ReceiveState"
  have upd: "contract (working S P q s) (updFile (rsId s) ?g) (\<lambda>_. working S P q (?g s)) (settled S P q)" if "rsBytes s + length chunk \<le> rsSize s"
  proof (rule update_contract)
    have "fromStream S P (?g s)" if "fromStream S P s"
    proof -
      from that obtain kept chunks where k: "rsHash s = kept @ concat chunks" "mayKeep S (rsSize s) kept"
        "chunksIn (length kept) + length chunks = rsExpectedSeq s" "\<forall>q < length chunks. P (rsId s) (chunksIn (length kept) + q) (chunks ! q)"
        unfolding fromStream_def by blast
      from k assms(2) show ?thesis unfolding fromStream_def
        by (intro exI[of _ kept] exI[of _ "chunks @ [chunk]"]) (auto simp: nth_append less_Suc_eq)
    qed
    then show "fileInv S P (?g s)" if "fileInv S P s" using that \<open>rsBytes s + length chunk \<le> rsSize s\<close> assms(1) by (simp add: fileInv_def)
  qed (auto simp: plainChange_def core_def)
  have rest: "contract (working S P q (?g s)) (bindIO (modifyIO (rxTransferred_update (\<lambda>n. n + length chunk))) (\<lambda>_.
      bindIO (awaiting S (writeStreamChunk (rsId s) chunk)) (\<lambda>_. bindIO (maybeFinalize S (rsId s)) (\<lambda>_. maybeResolveDone S)))) (\<lambda>_. settled S P q) (settled S P q)"
    by (rule quiet_then, intro steady_calls, rule quiet_then, intro steady_calls) (use finish_file[of S P q "?g s"] in simp)
  show ?thesis
    unfolding receivePayload_def
  proof (intro stopped_then forget_running working_withFile contract_if settled_raise)
    fix x :: ReceiveState assume x: "core x = core s" "\<not> rsBytes x + length chunk > rsSize x"
    then have "rsBytes s + length chunk \<le> rsSize s" using core_eqD(2,4)[OF x(1)] by simp
    from contract_bind[OF upd[OF this] rest]
    show "contract (working S P q s) (bindIO (updFile (rsId s) ?g) (\<lambda>_. bindIO (modifyIO (rxTransferred_update (\<lambda>n. n + length chunk))) (\<lambda>_.
        bindIO (awaiting S (writeStreamChunk (rsId s) chunk)) (\<lambda>_. bindIO (maybeFinalize S (rsId s)) (\<lambda>_. maybeResolveDone S))))) (\<lambda>_. settled S P q) (settled S P q)" .
  qed
qed

lemma awaiting_lift: "contract (during S P q B) (awaiting S (liftRes r)) (\<lambda>x w. during S P q B w \<and> r = Inr x) (settled S P q)"
proof -
  have "contract (during S P q B) (awaiting S (liftRes r)) (\<lambda>_. during S P q B) (settled S P q)" by (intro quiet_any quiet.keeps_rules steady_calls)
  moreover have "r = Inr x" if "returns (awaiting S (liftRes r)) w x v" for w x v using that by (auto simp: awaiting_def run_simps)
  ultimately show ?thesis unfolding contract_iff by blast
qed

lemma awaiting_lift_then:
  "(\<And>x. r = Inr x \<Longrightarrow> contract (during S P q B) (f x) Q (settled S P q)) \<Longrightarrow> contract (during S P q B) (bindIO (awaiting S (liftRes r)) f) Q (settled S P q)"
  by (rule contract_bind[OF awaiting_lift]) (rule contract_fact; auto elim: contract_weaken)

lemma frame_contract:
  assumes "authentic S P d" "toBytes d = ok b" "decodeChunk b = ok fr"
  shows "contract (settled S P q) (receiveFrame S fr) (\<lambda>_. settled S P q) (settled S P q)"
  unfolding receiveFrame_def
proof (rule find_contract)
  fix s :: ReceiveState assume id: "rsId s = fileId fr"
  show "contract (working S P q s) (if rsDone s \<or> rsExpectedSha256 s \<noteq> None \<and> rsBytes s \<ge> rsSize s then failIO (''chunk for completed file '' @ showNat (fileId fr))
      else if chunkSeq fr \<noteq> rsExpectedSeq s then failIO (''Unexpected chunk sequence for '' @ showName (rsName s) @ ''.'')
      else bindIO (awaiting S (liftRes (openBulk (setCrypto S) (setKeys S) (NInt (int (fileId fr))) (NInt (int (chunkSeq fr))) (Uint8Array True (payload fr))))) (\<lambda>chunk.
        receivePayload S (fileId fr) chunk)) (\<lambda>_. settled S P q) (settled S P q)"
  proof (intro contract_if settled_raise awaiting_lift_then)
    fix chunk
    assume a: "\<not> (rsDone s \<or> rsExpectedSha256 s \<noteq> None \<and> rsBytes s \<ge> rsSize s)" "\<not> chunkSeq fr \<noteq> rsExpectedSeq s"
      "openBulk (setCrypto S) (setKeys S) (NInt (int (fileId fr))) (NInt (int (chunkSeq fr))) (Uint8Array True (payload fr)) = Inr chunk"
    have "P (rsId s) (rsExpectedSeq s) chunk" using assms a id unfolding authentic_def by auto
    with a payload_contract[of s P chunk S q] id show "contract (working S P q s) (receivePayload S (fileId fr) chunk) (\<lambda>_. settled S P q) (settled S P q)" by auto
  qed
qed (rule settled_raise)

section \<open>Runs\<close>

lemma handler_contract:
  assumes "contract (settled S P q) m (\<lambda>_. settled S P q) (settled S P q)"
  shows "contract (settled S P q) (unlessStopped (bindIO resetReceiveTimeout (\<lambda>_. catchIO m (failTransfer S)))) (\<lambda>_. settled S P q) (settled S P q)"
  unfolding unlessStopped_def
proof (rule contract_read, rule contract_when)
  have "contract (settled S P q) (bindIO resetReceiveTimeout (\<lambda>_. catchIO m (failTransfer S))) (\<lambda>_. settled S P q) (settled S P q)"
    by (intro quiet_then contract_catch[OF assms] quiet_contract steady_calls)
  then show "contract (\<lambda>w. settled S P q w \<and> x = (rxFailed w \<or> rxCompleted w)) (bindIO resetReceiveTimeout (\<lambda>_. catchIO m (failTransfer S)))
      (\<lambda>_. settled S P q) (settled S P q)" for x
    by (rule contract_weaken) auto
qed simp

lemma task_contract: "contract (settled S P [task]) (handleTask S task) (\<lambda>_. settled S P [task]) (settled S P [task])"
proof (cases task)
  case (ControlTask d)
  then show ?thesis
    unfolding ControlTask handleTask.simps handleControlMessage_def
    by (intro handler_contract awaiting_lift_then contract_lift stopped_then forget_running control_contract parsed_wf)
next
  case (BulkTask d)
  show ?thesis
  proof (rule contract_fact)
    show "authentic S P d" if "settled S P [task] w" for w using that BulkTask by (auto simp: during_def receiverInv_def queueInv_def)
    assume a: "authentic S P d"
    show ?thesis
      unfolding BulkTask handleTask.simps handleBulkMessage_def
      by (intro handler_contract contract_lift frame_contract[OF a])
  qed
qed

lemma release_contract: "contract (settled S P [task]) (releaseTask task) (\<lambda>_. receiverInv S P) E"
  unfolding contract_def
proof (intro allI impI)
  fix w assume w: "settled S P [task] w"
  let ?v = "w\<lparr>rxQueuedBytes := rxQueuedBytes w - receiveQueueByteLength (taskData task), rxQueuedMessages := rxQueuedMessages w - 1, rxQueue := tl (rxQueue w)\<rparr>"
  from w obtain more where i: "filesInv S P w" "manifestInv w" "statusInv w" "sentInv w" "queueInv S P w" "rxQueue w = task # more"
    by (auto simp: during_def receiverInv_def)
  have "filesInv S P ?v" "manifestInv ?v" "statusInv ?v" "sentInv ?v"
    using i(1-4) by (simp_all add: filesInv_def manifestInv_def statusInv_def sentInv_def sentMessages_def)
  moreover have "queueInv S P ?v" using i(5,6) by (simp add: queueInv_def)
  ultimately show "case releaseTask task w of (Inl e, v) \<Rightarrow> E v | (Inr x, v) \<Rightarrow> receiverInv S P v"
    by (simp add: releaseTask_def io_defs receiverInv_def)
qed

lemma runTask_contract: "contract (receiverInv S P) (runTask S) (\<lambda>_. receiverInv S P) (receiverInv S P)"
  unfolding runTask_def
proof (rule contract_read)
  fix queue
  show "contract (\<lambda>w. receiverInv S P w \<and> queue = rxQueue w) (case queue of [] \<Rightarrow> pureIO () | task # x \<Rightarrow> finallyIO (handleTask S task) (releaseTask task))
      (\<lambda>_. receiverInv S P) (receiverInv S P)"
  proof (cases queue)
    case (Cons task rest)
    have "contract (settled S P [task]) (finallyIO (handleTask S task) (releaseTask task)) (\<lambda>_. receiverInv S P) (receiverInv S P)"
      by (rule contract_finally[OF task_contract]) (rule release_contract)+
    then show ?thesis unfolding Cons list.case by (rule contract_weaken) (auto simp: during_def eq_commute[of "task # rest"])
  qed (auto intro!: contract_rules)
qed

definition authenticStep :: "ReceiveSetup \<Rightarrow> chunkLaw \<Rightarrow> ReceiveStep \<Rightarrow> bool" where
  "authenticStep S P st \<longleftrightarrow> (\<forall>d. st = Event (BulkArrives d) \<longrightarrow> authentic S P d)"

lemma step_inv: "authenticStep S P st \<Longrightarrow> receiverInv S P w \<Longrightarrow> receiverInv S P (snd (receiveStep S st w))"
proof (cases st)
  case (Event e)
  assume a: "authenticStep S P st" "receiverInv S P w"
  have "quiet S P w (snd (onEvent S e w))" using steady_event[of e S P] a(1) Event by (auto simp: authenticStep_def keeps_def)
  with a(2) Event show ?thesis by (simp add: quiet_def)
next
  case NextTask
  assume "receiverInv S P w"
  with runTask_contract[of S P, folded keeps_contract] NextTask show ?thesis by (simp add: keeps_def)
qed

lemma start_inv:
  assumes "\<And>es d. es \<in> set events \<Longrightarrow> BulkArrives d \<in> set es \<Longrightarrow> authentic S P d" shows "receiverInv S P (startReceive fs events random faults)"
  using assms by (auto simp: inv_defs startReceive_def sentMessages_def)

lemma run_inv:
  assumes "list_all (authenticStep S P) steps" "\<And>es d. es \<in> set events \<Longrightarrow> BulkArrives d \<in> set es \<Longrightarrow> authentic S P d"
  shows "receiverInv S P (receiveRun S steps (startReceive fs events random faults))"
proof -
  have "receiverInv S P w \<Longrightarrow> list_all (authenticStep S P) steps \<Longrightarrow> receiverInv S P (receiveRun S steps w)" for w steps
    by (induction steps arbitrary: w) (auto simp: receiveRun_def step_inv)
  then show ?thesis using assms start_inv by blast
qed

end
