(* ===== verification/ReceiverProperties.thy ===== *)
theory ReceiverProperties
  imports ReceiverTasks
begin

text \<open>
  What the invariant of the receiver says of every run of \<open>receiveFiles\<close>: any messages in any order,
  any interleaving of channel events, timers and stream errors with the tasks, any file system
  faults.
\<close>

section \<open>Every run\<close>

abbreviation anyChunk :: chunkLaw where
  "anyChunk \<equiv> \<lambda>_ _ _. True"

lemma any_run: "receiverInv S anyChunk (receiveRun S steps (startReceive fs events random faults))"
  by (rule run_inv) (simp_all add: authenticStep_def authentic_def list_all_iff)

text \<open>C5: the receiver acknowledges a file with file-ok only when the manifest lists it with that
  size, exactly that many bytes came, and their digest is the one the sender announced.\<close>

theorem file_ok_verified:
  "{i. FileOk i \<in> set (sentMessages (receiveRun S steps (startReceive fs events random faults)))} \<subseteq>
   {i. \<exists>s \<in> set (rxFiles (receiveRun S steps (startReceive fs events random faults))). rsId s = i
      \<and> length (rsHash s) = rsSize s \<and> rsExpectedSha256 s = Some (digestHex (setCrypto S) (rsHash s))
      \<and> (\<exists>f \<in> set (rxExpected (receiveRun S steps (startReceive fs events random faults))). entryId f = i \<and> entrySize f = rsSize s)}"
proof -
  have "\<exists>s \<in> set (rxFiles w). rsId s = i \<and> length (rsHash s) = rsSize s \<and> rsExpectedSha256 s = Some (digestHex (setCrypto S) (rsHash s))
      \<and> (\<exists>f \<in> set (rxExpected w). entryId f = i \<and> entrySize f = rsSize s)"
    if "receiverInv S anyChunk w" "FileOk i \<in> set (sentMessages w)" for w i
  proof -
    from that obtain s where s: "s \<in> set (rxFiles w)" "rsId s = i" "rsDone s" by (auto simp: receiverInv_def sentInv_def)
    moreover have "fileInv S anyChunk s" "\<exists>f \<in> set (rxExpected w). entryId f = rsId s \<and> entrySize f = rsSize s"
      using that(1) s(1) by (auto simp: receiverInv_def filesInv_def)
    ultimately show ?thesis by (auto simp: fileInv_def verifiedFile_def)
  qed
  then show ?thesis using any_run by blast
qed

text \<open>C11: the transfer completes exactly when all-done-ok is sent (so a transfer that sent it never fails
  afterwards, and one that fails never sent it); and when it is complete, a manifest came, every file
  of it was acknowledged, and no other.\<close>

theorem completed_exactly:
  fixes S steps fs events random faults
  defines "w \<equiv> receiveRun S steps (startReceive fs events random faults)"
  shows "(rxOutcome w = Some (Inr ()) \<longleftrightarrow> AllDoneOk \<in> set (sentMessages w))
    \<and> (if AllDoneOk \<in> set (sentMessages w)
       then rxManifest w \<noteq> None \<and> {i. FileOk i \<in> set (sentMessages w)} = entryId ` set (rxExpected w)
       else rxOutcome w \<noteq> Some (Inr ()))"
proof -
  have i: "receiverInv S anyChunk w" unfolding w_def by (rule any_run)
  then have c: "rxOutcome w = Some (Inr ()) \<longleftrightarrow> rxCompleted w" "AllDoneOk \<in> set (sentMessages w) \<longleftrightarrow> rxCompleted w"
    by (auto simp: receiverInv_def statusInv_def sentInv_def)
  have "rxManifest w \<noteq> None \<and> {i. FileOk i \<in> set (sentMessages w)} = entryId ` set (rxExpected w)" if "rxCompleted w"
  proof -
    from i that have a: "rxAllDoneSeen w" "\<forall>s \<in> set (rxFiles w). rsDone s" by (auto simp: receiverInv_def statusInv_def list_all_iff)
    have "{i. FileOk i \<in> set (sentMessages w)} = rsId ` set (rxFiles w)"
      using i a(2) by (auto simp: receiverInv_def sentInv_def)
    with all_begun[OF i a(1)] i a(1) show ?thesis by (auto simp: receiverInv_def manifestInv_def)
  qed
  with c show ?thesis by simp
qed

text \<open>The size of a message of a data channel: of a text its UTF-8 encoding, of binary data its bytes, of a
  blob its size. Other values have none.\<close>

fun messageBytes :: "jsval \<Rightarrow> nat option" where
  "messageBytes (Str s) = Some (utf8ByteLength s)"
| "messageBytes (ArrayBuf _ bs) = Some (length bs)"
| "messageBytes (Uint8Array _ bs) = Some (length bs)"
| "messageBytes (Obj (BlobPrototype n) _) = n"
| "messageBytes _ = None"

lemma queued_size: "receiveQueueByteLength d \<le> RECEIVE_QUEUE_MAX_BYTES \<Longrightarrow> messageBytes d = Some (receiveQueueByteLength d)"
  by (cases d rule: receiveQueueByteLength.cases) (auto split: option.splits)

text \<open>C31: what waits in the receive queue never exceeds 32 MiB and 4096 messages, whatever arrives: every
  message in it is a text, binary data or a blob, the sum of their sizes is at most 32 MiB, and the
  counters that decide it are exact: every message is counted with its size and released once.\<close>

theorem receive_queue_bounded:
  fixes S steps fs events random faults
  defines "w \<equiv> receiveRun S steps (startReceive fs events random faults)"
  defines "sizes \<equiv> map (\<lambda>t. messageBytes (taskData t)) (rxQueue w)"
  shows "None \<notin> set sizes \<and> sum_list (map the sizes) \<le> 32 * 1024 * 1024 \<and> length (rxQueue w) \<le> 4096
    \<and> rxQueuedBytes w = sum_list (map the sizes) \<and> rxQueuedMessages w = length (rxQueue w)"
proof -
  let ?ls = "map (\<lambda>t. receiveQueueByteLength (taskData t)) (rxQueue w)"
  have i: "rxQueuedBytes w = sum_list ?ls" "rxQueuedMessages w = length (rxQueue w)"
    "rxQueuedBytes w \<le> RECEIVE_QUEUE_MAX_BYTES" "rxQueuedMessages w \<le> RECEIVE_QUEUE_MAX_MESSAGES"
    using any_run[of S steps fs events random faults] unfolding receiverInv_def queueInv_def w_def by blast+
  have "receiveQueueByteLength (taskData t) \<le> RECEIVE_QUEUE_MAX_BYTES" if "t \<in> set (rxQueue w)" for t
    using that i(1,3) member_le_sum_list[of "receiveQueueByteLength (taskData t)" ?ls] by auto
  then have "sizes = map Some ?ls" unfolding sizes_def by (auto intro!: queued_size)
  then show ?thesis using i by (auto simp: limit_defs comp_def)
qed

text \<open>C32: an abort is the last message the receiver sends, it is sent at most once and only by a
  transfer that failed, and a transfer that failed never sends all-done-ok.\<close>

theorem abort_is_last:
  "list_all (\<lambda>m. \<not> isAbort m) (butlast (sentMessages (receiveRun S steps (startReceive fs events random faults))))
   \<and> (list_all (\<lambda>m. \<not> isAbort m) (sentMessages (receiveRun S steps (startReceive fs events random faults)))
      \<or> rxFailed (receiveRun S steps (startReceive fs events random faults)))
   \<and> \<not> (rxFailed (receiveRun S steps (startReceive fs events random faults))
        \<and> AllDoneOk \<in> set (sentMessages (receiveRun S steps (startReceive fs events random faults))))"
proof -
  have "list_all (\<lambda>m. \<not> isAbort m) (butlast (sentMessages w)) \<and> (list_all (\<lambda>m. \<not> isAbort m) (sentMessages w) \<or> rxFailed w)
      \<and> \<not> (rxFailed w \<and> AllDoneOk \<in> set (sentMessages w))" if "receiverInv S anyChunk w" for w
    using that unfolding receiverInv_def sentInv_def statusInv_def by auto
  then show ?thesis using any_run by blast
qed

section \<open>The chunks of a sender\<close>

text \<open>A frame the sender makes of a chunk that the law \<open>P\<close> allows.\<close>

definition lawfulFrame :: "Crypto \<Rightarrow> SessionKeys option \<Rightarrow> chunkLaw \<Rightarrow> jsval \<Rightarrow> bool" where
  "lawfulFrame C ks P d \<longleftrightarrow> (\<exists>fid seq chunk c. P fid seq chunk
     \<and> sealBulk C ks (NInt (int fid)) (NInt (int seq)) (Uint8Array True chunk) = ok c
     \<and> encodeChunk (NInt (int fid)) (NInt (int seq)) (Uint8Array True c) = ok d)"

lemma lawfulFrame_authentic:
  assumes "aeadLaws (setCrypto S)" "matchedKeys ks (setKeys S)" "lawfulFrame (setCrypto S) ks P d"
  shows "authentic S P d"
proof -
  from assms(3) obtain fid seq chunk c where d: "P fid seq chunk"
    "sealBulk (setCrypto S) ks (NInt (int fid)) (NInt (int seq)) (Uint8Array True chunk) = ok c"
    "encodeChunk (NInt (int fid)) (NInt (int seq)) (Uint8Array True c) = ok d" unfolding lawfulFrame_def by blast
  let ?f = "\<lparr>fileId = fid, chunkSeq = seq, payload = c\<rparr>"
  have e: "encodeFrame ?f = ok d" using d(3) by (simp add: encodeFrame_def)
  then have v: "validFrame ?f" using encodeFrame_ok_iff[of ?f] by (simp add: isOk_iff)
  then have "d = ArrayBuf True (frameBytes ?f)" using encodeFrame_valid[of ?f] e by simp
  moreover have "decodeChunk (Uint8Array True (frameBytes ?f)) = ok ?f" using decode_view[OF v] .
  moreover have "openBulk (setCrypto S) (setKeys S) (NInt (int fid)) (NInt (int seq)) (Uint8Array True c) = ok chunk"
    using bulk_inverse[OF assms(1,2)] d(2) by simp
  ultimately show ?thesis using d(1) by (auto simp: authentic_def toBytes_def)
qed

text \<open>When every frame that arrives is one the sender made of lawful chunks, in whatever order, however
  often and with whatever missing, the bytes of each file are at any time what the receiver kept of a
  partial file and then lawful chunks, each once and in order.\<close>

lemma lawful_received:
  assumes "aeadLaws (setCrypto S)" "matchedKeys ks (setKeys S)"
    and "list_all (\<lambda>st. \<forall>d. st = Event (BulkArrives d) \<longrightarrow> lawfulFrame (setCrypto S) ks P d) steps"
    and "list_all (list_all (\<lambda>e. \<forall>d. e = BulkArrives d \<longrightarrow> lawfulFrame (setCrypto S) ks P d)) events"
  shows "set (rxFiles (receiveRun S steps (startReceive fs events random faults)))
    \<subseteq> {s. fromStream S P s \<and> length (rsHash s) \<le> rsSize s}"
proof -
  note a = lawfulFrame_authentic[OF assms(1,2)]
  have "receiverInv S P (receiveRun S steps (startReceive fs events random faults))"
    by (rule run_inv) (use assms(3,4) a in \<open>fastforce simp: list_all_iff authenticStep_def\<close>)+
  then have "fileInv S P s" if "s \<in> set (rxFiles (receiveRun S steps (startReceive fs events random faults)))" for s
    using that by (auto simp: receiverInv_def filesInv_def)
  then show ?thesis by (auto simp: fileInv_def)
qed

end
