(* ===== verification/ControlChannel.thy ===== *)
theory ControlChannel
  imports Control Sealing
begin

text \<open>
  The control channel from end to end: the object literal of a control message
  (\<open>src/src/shared/transfer.ts\<close>) is sealed by one side and opened and checked by the other
  (\<open>sealControl\<close>, \<open>openControl\<close> of \<open>src/src/shared/security.ts\<close>).
\<close>

section \<open>Control messages as JSON data\<close>

definition optJson :: "string \<Rightarrow> json option \<Rightarrow> (jsstring \<times> json) list" where
  "optJson k v = (case v of None \<Rightarrow> [] | Some j \<Rightarrow> [(js k, j)])"

definition entryJson :: "TransferFile \<Rightarrow> json" where
  "entryJson f = JObj ([(js ''id'', JInt (int (entryId f))), (js ''name'', JStr (entryName f)), (js ''size'', JInt (int (entrySize f)))]
     @ optJson ''mime'' (map_option JStr (entryMime f)))"

fun controlFields :: "ControlMessage \<Rightarrow> (jsstring \<times> json) list" where
  "controlFields (Manifest files totalBytes) = [(js ''files'', JArr (map entryJson files)), (js ''totalBytes'', JInt (int totalBytes))]"
| "controlFields (FileBegin fid name sz) = [(js ''id'', JInt (int fid)), (js ''name'', JStr name), (js ''size'', JInt (int sz))]"
| "controlFields (Ready fid offset prefix) =
     (js ''id'', JInt (int fid)) # optJson ''offset'' (map_option (\<lambda>n. JInt (int n)) offset) @ optJson ''prefixSha256'' (map_option JStr prefix)"
| "controlFields (Restart fid) = [(js ''id'', JInt (int fid))]"
| "controlFields (FileEnd fid sha) = [(js ''id'', JInt (int fid)), (js ''sha256'', JStr sha)]"
| "controlFields (FileOk fid) = [(js ''id'', JInt (int fid))]"
| "controlFields (Abort reason) = [(js ''reason'', JStr reason)]"
| "controlFields _ = []"

definition controlJson :: "ControlMessage \<Rightarrow> json" where
  "controlJson m = JObj ((js ''t'', JStr (js (controlType m))) # controlFields m)"

lemma entry_data: "toVal (entryJson f) = entryObject f"
  by (cases "entryMime f") (simp_all add: entryJson_def entryObject_def optJson_def jobj_def jnat_def)

lemma control_data: "toVal (controlJson m) = controlObject m"
proof (cases m)
  case (Ready fid offset prefix)
  then show ?thesis by (cases offset; cases prefix) (simp_all add: controlJson_def optJson_def jobj_def jnat_def)
qed (simp_all add: controlJson_def jobj_def jnat_def entry_data comp_def)

text \<open>The strings of a message are sequences of 16 bit code units.\<close>

fun controlStrings :: "ControlMessage \<Rightarrow> jsstring list" where
  "controlStrings (Manifest files totalBytes) = concat (map (\<lambda>f. entryName f # (case entryMime f of None \<Rightarrow> [] | Some s \<Rightarrow> [s])) files)"
| "controlStrings (FileBegin fid name sz) = [name]"
| "controlStrings (Ready fid offset prefix) = (case prefix of None \<Rightarrow> [] | Some s \<Rightarrow> [s])"
| "controlStrings (FileEnd fid sha) = [sha]"
| "controlStrings (Abort reason) = [reason]"
| "controlStrings _ = []"

lemma control_keys: "\<not> isIndexKey (js ''t'')" "\<not> isIndexKey (js ''files'')" "\<not> isIndexKey (js ''totalBytes'')" "\<not> isIndexKey (js ''id'')"
  "\<not> isIndexKey (js ''name'')" "\<not> isIndexKey (js ''size'')" "\<not> isIndexKey (js ''mime'')" "\<not> isIndexKey (js ''offset'')"
  "\<not> isIndexKey (js ''prefixSha256'')" "\<not> isIndexKey (js ''sha256'')" "\<not> isIndexKey (js ''reason'')"
  by (simp_all add: isIndexKey_def wholeDigits_def js_def isDigit_def)

lemma entry_wf: "wfEntry f \<Longrightarrow> utf16 (entryName f) \<Longrightarrow> (\<And>s. entryMime f = Some s \<Longrightarrow> utf16 s) \<Longrightarrow> wfJson (entryJson f)"
  by (cases "entryMime f")
    (auto simp: entryJson_def optJson_def wfEntry_def ownKeyOrder_def control_keys MAX_FILE_BYTES_safe MAX_SAFE_INTEGER_def limit_defs)

lemma control_wf:
  assumes wf: "wfControl m" and u: "list_all utf16 (controlStrings m)" shows "wfJson (controlJson m)"
proof (cases m)
  case (Manifest fs n)
  have "wfJson (entryJson f)" if "f \<in> set fs" for f
    by (rule entry_wf) (use wf_entries[of fs n] that wf u Manifest in \<open>force simp: list_all_iff split: option.splits\<close>)+
  then show ?thesis using Manifest wf_total_safe[of fs n] wf
    by (auto simp: controlJson_def ownKeyOrder_def control_keys list_all_iff simp del: wfControl.simps)
next
  case (FileBegin fid name sz)
  then show ?thesis using wf u MAX_FILE_BYTES_safe[of sz]
    by (auto simp: controlJson_def ownKeyOrder_def control_keys MAX_SAFE_INTEGER_def)
next
  case (Ready fid offset prefix)
  then show ?thesis using wf u
    by (cases offset; cases prefix) (auto simp: controlJson_def optJson_def ownKeyOrder_def control_keys MAX_SAFE_INTEGER_def)
qed (use wf u in \<open>auto simp: controlJson_def ownKeyOrder_def control_keys MAX_SAFE_INTEGER_def\<close>)

lemma entry_fits: "sealFits 2 (entryJson f) \<and> sealFits 3 (entryJson f) \<and> sealNodes (entryJson f) \<le> 5"
  by (cases "entryMime f") (simp_all add: entryJson_def optJson_def limit_defs)

lemma entries_nodes: "sum_list (map (\<lambda>f. sealNodes (entryJson f)) fs) \<le> 5 * length fs"
  using entry_fits by (induction fs) (auto intro: add_mono)

lemma control_fits: "wfControl m \<Longrightarrow> sealFits 0 (controlJson m) \<and> sealNodes (controlJson m) \<le> MAX_ENCRYPTED_JSON_NODES"
proof (cases m)
  case (Manifest fs n)
  assume "wfControl m"
  then have "sum_list (map (\<lambda>f. sealNodes (entryJson f)) fs) \<le> 500" using entries_nodes[of fs] Manifest by simp
  then show ?thesis using Manifest entry_fits \<open>wfControl m\<close>
    by (auto simp: controlJson_def limit_defs list_all_iff comp_def numeral_2_eq_2)
next
  case (Ready fid offset prefix)
  then show ?thesis by (cases offset; cases prefix) (auto simp: controlJson_def optJson_def limit_defs)
qed (auto simp: controlJson_def limit_defs)

section \<open>Round trip\<close>

lemma control_opened:
  assumes "aeadLaws C" "asciiNumbers nf" "wfControl m" "list_all utf16 (controlStrings m)" "length nonce = 12"
    "utf8ByteLength (textOf nf (controlJson m)) \<le> MAX_ENCRYPTED_JSON_PLAINTEXT_BYTES"
    and keys: "activeSessionKeys s = ok a" "activeSessionKeys r = ok b" "activeSid a = activeSid b" "pairedKey (controlSendKey a) (controlRecvKey b)"
  shows "\<exists>t. sealControl C nf nonce s (controlObject m) = ok t \<and> openControl C nf r (Str t) = ok (controlObject m)"
proof -
  note wf = control_wf[OF assms(3,4)] and fits = control_fits[OF assms(3)]
  have "stringifySealedJsonValue nf (toVal (controlJson m)) = ok (textOf nf (controlJson m))"
    using data_sealed[OF wf _ _ assms(6)] fits sealed_eq[OF assms(2) utf16_data[OF wf]] by auto
  from seal_data[OF assms(1,2) keys(4) wf assms(5) this] obtain t
    where "sealJson C nf nonce (controlSendKey a) (toVal (controlJson m)) (controlAad (activeSid a)) = ok t"
      "openJson C nf (controlRecvKey b) (Str t) (controlAad (activeSid a)) = ok (toVal (controlJson m))" by blast
  then show ?thesis using keys(1-3) by (auto simp: sealControl_def openControl_def control_data)
qed

text \<open>C22: Each side of a session receives exactly the control messages the other side sends: a well formed
  message whose text fits is sealed, and the other side opens and checks it to the same message, in
  both directions.
\<close>

theorem control_roundtrip:
  assumes "aeadLaws C" "asciiNumbers nf" "matchedKeys s r" "wfControl m" "list_all utf16 (controlStrings m)" "length nonce = 12"
    "utf8ByteLength (textOf nf (controlJson m)) \<le> MAX_ENCRYPTED_JSON_PLAINTEXT_BYTES"
  shows "(\<exists>t. sealControl C nf nonce s (controlObject m) = ok t \<and> andThen (openControl C nf r (Str t)) assertControlMessage = ok m)
    \<and> (\<exists>t. sealControl C nf nonce r (controlObject m) = ok t \<and> andThen (openControl C nf s (Str t)) assertControlMessage = ok m)"
proof -
  obtain a b where k: "activeSessionKeys s = ok a" "activeSessionKeys r = ok b" "activeSid a = activeSid b"
    "pairedKey (controlSendKey a) (controlRecvKey b)" "pairedKey (controlSendKey b) (controlRecvKey a)" using assms(3) by (rule matchedE)
  note open_ = control_opened[OF assms(1,2,4,5,6,7)]
  show ?thesis using open_[OF k(1-4)] open_[OF k(2,1) k(3)[symmetric] k(5)] literal_parsed[OF assms(4)] by fastforce
qed

theorem control_roundtrip_witness:
  "(\<exists>t. sealControl plainCrypto plainNumbers (replicate 12 0) (Some (plainKeys Encrypt)) (controlObject (FileOk 0)) = ok t
      \<and> andThen (openControl plainCrypto plainNumbers (Some (plainKeys Decrypt)) (Str t)) assertControlMessage = ok (FileOk 0))
    \<and> (\<exists>t. sealControl plainCrypto plainNumbers (replicate 12 0) (Some (plainKeys Decrypt)) (controlObject (FileOk 0)) = ok t
      \<and> andThen (openControl plainCrypto plainNumbers (Some (plainKeys Encrypt)) (Str t)) assertControlMessage = ok (FileOk 0))"
proof (rule control_roundtrip[OF plain_aead plain_numbers plain_matched])
  show "utf8ByteLength (textOf plainNumbers (controlJson (FileOk 0))) \<le> MAX_ENCRYPTED_JSON_PLAINTEXT_BYTES"
    by (simp add: controlJson_def js_def jsonQuote_def jsonEscape_def escapeLetter_def isHighSurrogate_def utf8ByteLength_ascii limit_defs
      numberText_def intText_def dec.simps)
qed simp_all

end
