(* ===== verification/SenderProperties.thy ===== *)
theory SenderProperties
  imports SenderLog ReceiverProperties ControlChannel
begin

text \<open>
  What a call of \<open>sendFiles\<close> guarantees, whatever the channels, the receiver, the file system and other
  processes do: the properties hold for every schedule of events, faults and interferences.
\<close>

section \<open>Chunks\<close>

text \<open>When the plan is refused nothing is sealed.\<close>

lemma refused_plan:
  assumes "buildSendPlan files = Inl e" shows "sxSealed (snd (sendFiles S files (startSend fs events random faults drains))) = []"
proof -
  let ?N = "\<lambda>l :: sendLog. fst l = []"
  have abort: "logs ?N (ignoreIO (sendSenderControl S False m)) (\<lambda>_. ?N) ?N" for m
    unfolding ignoreIO_def logs_def
    by (rule contract_catch[OF logs_control[unfolded logs_def], where E1 = "\<lambda>l. fst l = []"]) (auto intro: contract_basic)
  have "logs ?N (sendBody S files) (\<lambda>_. ?N) ?N" unfolding sendBody_def assms by (simp add: logs_fail)
  moreover have "logs ?N (bindIO (ignoreIO (sendSenderControl S False m)) (\<lambda>_. raiseIO e)) (\<lambda>_ :: unit. ?N) ?N" for m e
    by (rule logs_bind[OF abort]) (auto simp: logs_def intro: contract_basic)
  ultimately have "logs ?N (catchIO (sendBody S files) (\<lambda>e. bindIO (ignoreIO (sendSenderControl S False (abortControlMessage (errorText e)))) (\<lambda>_. raiseIO e))) (\<lambda>_. ?N) ?N"
    unfolding logs_def by (intro contract_catch) auto
  moreover have "logs ?N (onSendFs (closeSendFiles files)) (\<lambda>_. ?N) ?N" by (rule logs_quiet[OF log.keeps_fs yields_any]) auto
  ultimately have "logs ?N (sendFiles S files) (\<lambda>_. ?N) ?N" unfolding sendFiles_def logs_def by (intro contract_finally) auto
  from contract_any[OF this[unfolded logs_def], of "startSend fs events random faults drains"] show ?thesis
    by (simp add: sendLog_def startSend_def)
qed

lemma plan_address:
  assumes "buildSendPlan files = ok plan" "f \<in> set files" "chunkHash f q = Some h" shows "sendId f \<le> 255" "q \<le> 0xffffffff"
proof -
  have n: "length files \<le> 100" and plan: "sendPlanFiles files 0 = ok plan" using assms(1) by (auto simp: buildSendPlan_def MAX_FILES_PER_SESSION_def split: if_splits)
  from assms(2) obtain i where "i < length files" "f = files ! i" by (auto simp: in_set_conv_nth)
  then have "sendId f = i" using plan_exact[OF assms(1)] by (metis add.left_neutral length_map nth_map nth_upt)
  then show "sendId f \<le> 255" using n \<open>i < length files\<close> by simp
  have "sendSize f \<le> MAX_FILE_BYTES" if "sendPlanFiles fs k = ok ps" "f \<in> set fs" for fs k ps
    using that by (induction fs arbitrary: k ps) (auto simp: sendPlanFileInput_def split: if_splits)
  then have "sendSize f \<le> MAX_FILE_BYTES" using plan assms(2) by blast
  moreover have "q < prefixChunks (sendSize f)" using assms(2,3) plan_exact[OF assms(1)] by (auto simp: chunkHash_def planned_def list_all_iff split: if_splits)
  ultimately show "q \<le> 0xffffffff" unfolding prefixChunks_def by (simp add: limit_defs)
qed

text \<open>C4: The sender never uses a nonce twice: in one call of \<open>sendFiles\<close> the nonces of the chunks it seals
  are distinct, every chunk it seals has the digest computed for that place of that file when the
  transfer was prepared, and every frame on the bulk channel is the frame of such a chunk.
\<close>

theorem chunks_sealed_once:
  fixes S files fs events random faults drains
  defines "v \<equiv> snd (sendFiles S files (startSend fs events random faults drains))"
  shows "distinct (map (\<lambda>(fid, seq, _). chunkNonce fid seq) (sxSealed v))
    \<and> set (sxSealed v) \<subseteq> {(fid, seq, chunk). \<exists>f \<in> set files. sendId f = fid \<and> seq < length (sendChunkSha256 f)
        \<and> sendChunkSha256 f ! seq = digestHex (sndCrypto S) chunk}
    \<and> set (sxBulkOut v) \<subseteq> {d. \<exists>fid seq chunk c. (fid, seq, chunk) \<in> set (sxSealed v)
        \<and> sealBulk (sndCrypto S) (sndKeys S) (NInt (int fid)) (NInt (int seq)) (Uint8Array True chunk) = ok c
        \<and> encodeChunk (NInt (int fid)) (NInt (int seq)) (Uint8Array True c) = ok d}"
proof (intro conjI)
  have ok: "sealedOk S files (sendLog v)" using any_send[of S files fs events random faults drains] by (simp add: logOk_def v_def)
  have prepared: "preparedChunk S files x" if "x \<in> set (sxSealed v)" for x using ok that by (simp add: sealedOk_def sendLog_def)
  show "set (sxSealed v) \<subseteq> {(fid, seq, chunk). \<exists>f \<in> set files. sendId f = fid \<and> seq < length (sendChunkSha256 f)
        \<and> sendChunkSha256 f ! seq = digestHex (sndCrypto S) chunk}"
    using prepared by (fastforce simp: preparedChunk_def chunkHash_def split: if_splits)
  show "set (sxBulkOut v) \<subseteq> {d. \<exists>fid seq chunk c. (fid, seq, chunk) \<in> set (sxSealed v)
        \<and> sealBulk (sndCrypto S) (sndKeys S) (NInt (int fid)) (NInt (int seq)) (Uint8Array True chunk) = ok c
        \<and> encodeChunk (NInt (int fid)) (NInt (int seq)) (Uint8Array True c) = ok d}"
    using ok by (auto simp: sealedOk_def sendLog_def sealedFrame_def)
  have d: "distinct (map (\<lambda>(fid, q, _). (fid, q)) (sxSealed v))" using ok by (simp add: sealedOk_def sendLog_def)
  show "distinct (map (\<lambda>(fid, seq, _). chunkNonce fid seq) (sxSealed v))"
  proof (cases "buildSendPlan files")
    case (Inl e)
    then show ?thesis using refused_plan[OF Inl] by (simp add: v_def)
  next
    case (Inr plan)
    have address: "isOk (assertChunkAddress (NInt (int fid)) (NInt (int q)))" if "(fid, q, c) \<in> set (sxSealed v)" for fid q c
      using prepared[OF that] plan_address[OF Inr] by (auto simp: preparedChunk_def assertChunkAddress_def)
    have "inj_on (\<lambda>(fid, seq). chunkNonce fid seq) ((\<lambda>(fid, q, _). (fid, q)) ` set (sxSealed v))"
    proof (rule inj_onI, clarify)
      fix f n c g m e assume a: "(f, n, c) \<in> set (sxSealed v)" "(g, m, e) \<in> set (sxSealed v)" "chunkNonce f n = chunkNonce g m"
      then show "f = g \<and> n = m" using chunk_nonce_unique[OF address[OF a(1)] address[OF a(2)]] by auto
    qed
    moreover have "map (\<lambda>(fid, seq, _). chunkNonce fid seq) (sxSealed v) = map (\<lambda>(fid, seq). chunkNonce fid seq) (map (\<lambda>(fid, q, _). (fid, q)) (sxSealed v))"
      by (simp add: comp_def case_prod_unfold)
    ultimately show ?thesis using d by (simp only: distinct_map[of "\<lambda>(fid, seq). chunkNonce fid seq"] set_map)
  qed
qed

text \<open>C9: A file is declared finished only when all of it was read as prepared: for every \<open>file-end\<close> the
  sender sends there is a file of the transfer with that id and digest, and chunks that have the
  prepared digests, one for each place, which together have the declared size and digest; the
  chunks from the point of resumption on are exactly what was sealed for the file, in order.
\<close>

theorem file_end_complete:
  fixes S files fs events random faults drains
  defines "v \<equiv> snd (sendFiles S files (startSend fs events random faults drains))"
  shows "{(fid, sha). FileEnd fid sha \<in> fst ` set (sxControlOut v)} \<subseteq> {(fid, sha). \<exists>f \<in> set files. sendId f = fid \<and> sendSha256 f = sha
    \<and> (\<exists>chunks start. start \<le> length chunks \<and> filter (\<lambda>(i, _). i = fid) (sxSealed v) = map (\<lambda>q. (fid, q, chunks ! q)) [start..<length chunks]
      \<and> map (digestHex (sndCrypto S)) chunks = sendChunkSha256 f
      \<and> length (concat chunks) = sendSize f \<and> digestHex (sndCrypto S) (concat chunks) = sha)}"
proof -
  have e: "endsOk S files (sendLog v)" using any_send[of S files fs events random faults drains] by (simp add: logOk_def v_def)
  have digests: "map (digestHex C) chunks = sendChunkSha256 f" if "preparedChunks C f chunks" "length chunks = length (sendChunkSha256 f)" for C f chunks
    using that by (auto simp: preparedChunks_def chunkHash_def intro!: nth_equalityI)
  show ?thesis
  proof
    fix x assume "x \<in> {(fid, sha). FileEnd fid sha \<in> fst ` set (sxControlOut v)}"
    then obtain fid sha where x: "x = (fid, sha)" and "FileEnd fid sha \<in> set (snd (snd (sendLog v)))" by (auto simp: sendLog_def)
    then obtain f where f: "f \<in> set files" "sendId f = fid" "sendSha256 f = sha" "completeFile (sndCrypto S) f (sendLog v)"
      using e unfolding endsOk_def by blast
    then obtain chunks start where c: "start \<le> length chunks" "filter (\<lambda>(i, _). i = fid) (sxSealed v) = map (\<lambda>q. (fid, q, chunks ! q)) [start..<length chunks]"
      "length chunks = length (sendChunkSha256 f)" "preparedChunks (sndCrypto S) f chunks"
      "length (concat chunks) = sendSize f" "digestHex (sndCrypto S) (concat chunks) = sha"
      unfolding completeFile_def sealedOf_def sendLog_def fst_conv f(2,3) by blast
    show "x \<in> {(fid, sha). \<exists>f \<in> set files. sendId f = fid \<and> sendSha256 f = sha
      \<and> (\<exists>chunks start. start \<le> length chunks \<and> filter (\<lambda>(i, _). i = fid) (sxSealed v) = map (\<lambda>q. (fid, q, chunks ! q)) [start..<length chunks]
        \<and> map (digestHex (sndCrypto S)) chunks = sendChunkSha256 f
        \<and> length (concat chunks) = sendSize f \<and> digestHex (sndCrypto S) (concat chunks) = sha)}"
      unfolding x mem_Collect_eq prod.case
      by (rule bexI[OF _ f(1)], intro conjI exI[of _ chunks] exI[of _ start]) (fact f c digests[OF c(4,3)])+
  qed
qed

section \<open>Acknowledgements\<close>

fun ackMessage :: "ackKey \<Rightarrow> ControlMessage \<Rightarrow> bool" where
  "ackMessage (AckReady, Some fid) (Ready i _ _) = (i = fid)"
| "ackMessage (AckFileOk, Some fid) (FileOk i) = (i = fid)"
| "ackMessage (AckAllDoneOk, None) AllDoneOk = True"
| "ackMessage _ _ = False"

text \<open>Among the events of the schedule is a message of the receiver that acknowledges \<open>key\<close>.\<close>

definition heard :: "SendSetup \<Rightarrow> SenderEvent set \<Rightarrow> ackKey \<Rightarrow> bool" where
  "heard S evs key \<longleftrightarrow> (\<exists>d m. SenderMessage d \<in> evs
     \<and> andThen (openControl (sndCrypto S) (sndNumbers S) (sndKeys S) d) assertControlMessage = ok m \<and> ackMessage key m)"

definition senderInv :: "SenderEvent set \<Rightarrow> Sender \<Rightarrow> bool" where
  "senderInv evs w \<longleftrightarrow> ackInv (sxAcks w) \<and> set (concat (sxEvents w)) \<subseteq> evs"

lemma events_tail: "set (concat xs) \<subseteq> evs \<Longrightarrow> set (concat (tl xs)) \<subseteq> evs"
  by (cases xs) auto

interpretation sinv: sending_frame "\<lambda>w v. senderInv evs w \<longrightarrow> senderInv evs v" for evs
  by unfold_locales (unfold senderInv_def, simp_all add: ackStep_inv events_tail del: set_concat)

lemma kept_inv: "keeps (\<lambda>w v. senderInv evs w \<longrightarrow> senderInv evs v) m \<Longrightarrow> contract (senderInv evs) m (\<lambda>_. senderInv evs) (senderInv evs)"
  by (simp add: keeps_contract)

text \<open>A promise handed out for \<open>key\<close>: it is pending, or rejected, or a message was heard that resolves it.\<close>

definition waiting :: "SendSetup \<Rightarrow> SenderEvent set \<Rightarrow> ackKey \<Rightarrow> promise \<Rightarrow> Sender \<Rightarrow> bool" where
  "waiting S evs key p w \<longleftrightarrow> senderInv evs w
     \<and> (map_of (ackPending (sxAcks w)) key = Some p \<or> (\<exists>e. ackOutcome (sxAcks w) p = Some (Inl e)) \<or> heard S evs key)"

lemma pending_other: "k \<noteq> key \<Longrightarrow> map_of (filter (\<lambda>(k', _). k' \<noteq> k) ps) key = map_of ps key"
  by (induction ps) auto

lemma waiting_step:
  assumes w: "waiting S evs key p w" and st: "\<And>k. st = Mark k \<Longrightarrow> k = key \<Longrightarrow> heard S evs key"
  shows "waiting S evs key p (w\<lparr>sxAcks := ackStep st (sxAcks w)\<rparr>)"
proof -
  have inv: "ackInv (sxAcks w)" using w by (simp add: waiting_def senderInv_def)
  have later: "ackLater (sxAcks w) (ackStep st (sxAcks w))" and inv': "ackInv (ackStep st (sxAcks w))" using ackStep_inv[OF inv] by blast+
  have "map_of (ackPending (ackStep st (sxAcks w))) key = Some p \<or> (\<exists>e. ackOutcome (ackStep st (sxAcks w)) p = Some (Inl e)) \<or> heard S evs key"
    if pend: "map_of (ackPending (sxAcks w)) key = Some p"
  proof (cases st)
    case (Wait k)
    then show ?thesis using pend inv
      by (auto simp: waitKey_def settleAck_def ackInv_def map_add_def split: option.splits)
  next
    case (Mark k)
    then show ?thesis using pend st by (cases "k = key") (auto simp: markKey_def settleAck_def removeAck_def pending_other split: option.splits)
  next
    case (TimerFires k)
    then show ?thesis using pend settle_removed(2)[OF inv pend]
      by (cases "k = key") (auto simp: ackTimeout_def settleAck_def removeAck_def pending_other split: option.splits)
  next
    case (Fail e)
    have open_: "ackFailed (sxAcks w) = None" "(key, p) \<in> set (ackPending (sxAcks w))" using inv pend map_of_SomeD by (fastforce simp: ackInv_def)+
    then have "ackOutcome (sxAcks w) p = None" using inv by (force simp: ackInv_def)
    then have "ackOutcome (failAcks e (sxAcks w)) p = Some (Inl e)"
      using open_ fail_fold[of e "ackPending (sxAcks w)" "(sxAcks w)\<lparr>ackFailed := Some e\<rparr>"] by (force simp: failAcks_def)
    then show ?thesis using Fail by simp
  qed
  then show ?thesis using w later inv' by (auto simp: waiting_def senderInv_def ackLater_def)
qed

lemma waiting_rest:
  assumes "waiting S evs key p w" "sxAcks v = sxAcks w" "set (concat (sxEvents v)) \<subseteq> evs" shows "waiting S evs key p v"
  using assms by (simp add: waiting_def senderInv_def)

lemma waiting_mark:
  assumes "\<And>k. controlAckInput (Str (js kind)) fid = ok k \<Longrightarrow> k = key \<Longrightarrow> heard S evs key"
  shows "contract (waiting S evs key p) (markAck kind fid msg) (\<lambda>_. waiting S evs key p) (waiting S evs key p)"
proof -
  have "waiting S evs key p (w\<lparr>sxAcks := b\<rparr>)" if "mark (Str (js kind)) fid (sxAcks w) = Inr (r, b)" "waiting S evs key p w" for w r b
  proof -
    from that(1) obtain k where "controlAckInput (Str (js kind)) fid = ok k" "b = ackStep (Mark k) (sxAcks w)" by (auto simp: mark_def)
    then show ?thesis using waiting_step[OF that(2), of "Mark k"] assms by auto
  qed
  then show ?thesis unfolding contract_def markAck_def by (auto simp: io_defs split: sum.split prod.split)
qed

lemma waiting_fail: "contract (waiting S evs key p) (failAll e) (\<lambda>_. waiting S evs key p) (waiting S evs key p)"
proof -
  have "waiting S evs key p (w\<lparr>sxFailed := Some e, sxAcks := failAcks e (sxAcks w)\<rparr>)" if "waiting S evs key p w" for w
    by (rule waiting_rest[OF waiting_step[OF that, of "Fail e"]]) (use that in \<open>simp_all add: waiting_def senderInv_def\<close>)
  then show ?thesis unfolding failAll_def by (rule contract_basic)
qed

lemma ack_keys: "controlAckInput (Str (js ''ready'')) (jnat fid) = ok k \<Longrightarrow> k = (AckReady, Some fid)"
  "controlAckInput (Str (js ''file-ok'')) (jnat fid) = ok k \<Longrightarrow> k = (AckFileOk, Some fid)"
  "controlAckInput (Str (js ''all-done-ok'')) Undefined = ok k \<Longrightarrow> k = (AckAllDoneOk, None)"
  by (auto simp: controlAckInput_def ackKindOf_def js_def split: if_splits)

lemma waiting_message:
  assumes "SenderMessage d \<in> evs" "andThen (openControl (sndCrypto S) (sndNumbers S) (sndKeys S) d) assertControlMessage = ok m"
  shows "contract (waiting S evs key p) (senderMessage m) (\<lambda>_. waiting S evs key p) (waiting S evs key p)"
proof -
  have h: "ackMessage key m \<Longrightarrow> heard S evs key" using assms by (auto simp: heard_def)
  have set: "waiting S evs key p (sxReady_update g w)" "waiting S evs key p (sxCompleted_update c w)" if "waiting S evs key p w" for g c w
    using that by (simp_all add: waiting_def senderInv_def)
  show ?thesis
  proof (cases m)
    case (Ready fid offset prefix)
    have "contract (waiting S evs key p) (markAck ''ready'' (jnat fid) msg) (\<lambda>_. waiting S evs key p) (waiting S evs key p)" for msg
      by (rule waiting_mark) (use h Ready in \<open>force dest: ack_keys(1)\<close>)
    then show ?thesis unfolding Ready senderMessage.simps
      by (intro contract_lift contract_modify) (auto intro: contract_weaken set(1))
  next
    case (FileOk fid)
    then show ?thesis unfolding FileOk senderMessage.simps by (intro waiting_mark) (use h FileOk in \<open>force dest: ack_keys(2)\<close>)
  next
    case AllDoneOk
    have "contract (waiting S evs key p) (markAck ''all-done-ok'' Undefined msg) (\<lambda>_. waiting S evs key p) (waiting S evs key p)" for msg
      by (rule waiting_mark) (use h AllDoneOk in \<open>force dest: ack_keys(3)\<close>)
    then show ?thesis unfolding AllDoneOk senderMessage.simps by (rule contract_bind) (auto intro!: contract_basic set(2))
  next
    case (Abort reason)
    then show ?thesis by (simp add: waiting_fail)
  qed (auto intro: contract_basic)
qed

lemma contract_known: "(b \<Longrightarrow> contract P m Q E) \<Longrightarrow> contract (\<lambda>w. P w \<and> b) m Q E"
  by (cases b) (simp_all add: contract_def)

lemma waiting_timer: "waiting S evs key p w \<Longrightarrow> waiting S evs key p (sxAcks_update (ackTimeout k) w)"
  by (subst update_as_assignment(8)) (use waiting_step[of S evs key p w "TimerFires k"] in simp)

lemma waiting_event:
  assumes "e \<in> evs" shows "contract (waiting S evs key p) (onSenderEvent S e) (\<lambda>_. waiting S evs key p) (waiting S evs key p)"
proof -
  let ?W = "waiting S evs key p"
  have un: "contract ?W m (\<lambda>_. ?W) ?W \<Longrightarrow> contract ?W (unlessCompleted m) (\<lambda>_. ?W) ?W" for m
    unfolding unlessCompleted_def by (intro contract_rules) (auto intro: contract_weaken)
  show ?thesis
  proof (cases e)
    case (SenderMessage d)
    have "contract ?W (bindIO (liftRes (openControl (sndCrypto S) (sndNumbers S) (sndKeys S) d)) (\<lambda>opened.
        bindIO (liftRes (andThen (assertControlMessage opened) assertSenderControlMessage)) senderMessage)) (\<lambda>_. ?W) ?W"
      using assms SenderMessage by (intro contract_lift waiting_message[of d]) (auto simp: assertSenderControlMessage_def split: if_splits)
    then have "contract ?W (handleSenderControl S d) (\<lambda>_. ?W) ?W"
      unfolding handleSenderControl_def by (intro un contract_catch[where E' = ?W] waiting_fail)
    then show ?thesis by (simp add: SenderMessage)
  next
    case (SenderDown msg)
    then show ?thesis by (simp add: failSender_def un waiting_fail)
  next
    case (AckTimer k)
    show ?thesis unfolding AckTimer onSenderEvent.simps by (rule contract_basic) (rule waiting_timer)
  qed
qed

lemma waiting_events:
  "set es \<subseteq> evs \<Longrightarrow> contract (waiting S evs key p) (onSenderEvents S es) (\<lambda>_. waiting S evs key p) (waiting S evs key p)"
  by (induction es) (auto intro!: contract_basic contract_bind[OF waiting_event])

lemma waiting_await: "contract (waiting S evs key p) (awaitSender S) (\<lambda>_. waiting S evs key p) (waiting S evs key p)"
  unfolding awaitSender_def
proof (rule contract_read)
  fix es
  let ?P = "\<lambda>w. waiting S evs key p w \<and> es = (case sxEvents w of [] \<Rightarrow> [] | es # _ \<Rightarrow> es)"
  have "contract (waiting S evs key p) (bindIO (modifyIO (sxEvents_update tl)) (\<lambda>_. onSenderEvents S es)) (\<lambda>_. waiting S evs key p) (waiting S evs key p)"
    if "set es \<subseteq> evs"
  proof (rule contract_bind[OF _ waiting_events[OF that]], rule contract_basic)
    fix w assume w: "waiting S evs key p w"
    then have "set (concat (tl (sxEvents w))) \<subseteq> evs" by (intro events_tail) (simp add: waiting_def senderInv_def)
    then show "waiting S evs key p (sxEvents_update tl w)" by (intro waiting_rest[OF w]) simp_all
  qed
  then have "contract (\<lambda>w. waiting S evs key p w \<and> set es \<subseteq> evs) (bindIO (modifyIO (sxEvents_update tl)) (\<lambda>_. onSenderEvents S es))
      (\<lambda>_. waiting S evs key p) (waiting S evs key p)" by (rule contract_known)
  then show "contract ?P (bindIO (modifyIO (sxEvents_update tl)) (\<lambda>_. onSenderEvents S es)) (\<lambda>_. waiting S evs key p) (waiting S evs key p)"
    by (rule contract_weaken) (auto simp: waiting_def senderInv_def split: list.splits)
qed

lemma settled_heard:
  assumes "contract (waiting S evs key p) m (\<lambda>_ w. senderInv evs w \<and> heard S evs key) (senderInv evs)"
  shows "contract (waiting S evs key p) (whenSettled p m) (\<lambda>_ w. senderInv evs w \<and> heard S evs key) (senderInv evs)"
proof -
  have "heard S evs key" if "waiting S evs key p w" "ackOutcome (sxAcks w) p = Some (Inr u)" for w u
    using that map_of_SomeD[of "ackPending (sxAcks w)" key p] by (force simp: waiting_def senderInv_def ackInv_def)
  moreover have "senderInv evs w" if "waiting S evs key p w" for w using that by (simp add: waiting_def)
  ultimately show ?thesis using assms unfolding whenSettled_def contract_def
    by (auto simp: io_defs split: option.split sum.split prod.splits)
qed

lemma promise_heard: "contract (waiting S evs key p) (awaitPromise S key p n) (\<lambda>_ w. senderInv evs w \<and> heard S evs key) (senderInv evs)"
proof (induction n)
  case 0
  have "contract (waiting S evs key p) (modifyIO (sxAcks_update (ackTimeout key))) (\<lambda>_. waiting S evs key p) (senderInv evs)"
    by (rule contract_basic) (rule waiting_timer)
  then show ?case unfolding awaitPromise.simps
    by (rule contract_bind) (intro settled_heard contract_basic, simp add: waiting_def)
next
  case (Suc n)
  have "contract (waiting S evs key p) (awaitSender S) (\<lambda>_. waiting S evs key p) (senderInv evs)"
    by (rule contract_weaken[OF waiting_await[of S evs key p]]) (auto simp: waiting_def)
  then show ?case unfolding awaitPromise.simps by (rule contract_bind[OF _ settled_heard[OF Suc]])
qed

lemma start_waiting: "contract (senderInv evs) (startWait kind fid) (\<lambda>kp w. controlAckInput (Str (js kind)) fid = ok (fst kp) \<and> waiting S evs (fst kp) (snd kp) w) (senderInv evs)"
proof -
  have "waiting S evs k (fst (waitKey k (sxAcks w))) (w\<lparr>sxAcks := snd (waitKey k (sxAcks w))\<rparr>)" if w: "senderInv evs w" for k w
  proof -
    obtain p b where p: "waitKey k (sxAcks w) = (p, b)" by (cases "waitKey k (sxAcks w)")
    have i: "ackInv (sxAcks w)" using w by (simp add: senderInv_def)
    show ?thesis using w waitKey_inv[OF i, of k] waitKey_promise[OF i p] unfolding waiting_def senderInv_def p by auto
  qed
  then show ?thesis unfolding startWait_def contract_def by (auto simp: io_defs split: sum.split)
qed

lemma wait_heard:
  assumes "\<And>k. controlAckInput (Str (js kind)) fid = ok k \<Longrightarrow> k = key"
  shows "contract (senderInv evs) (waitAck S kind fid) (\<lambda>_ w. senderInv evs w \<and> heard S evs key) (senderInv evs)"
  unfolding waitAck_def
proof (rule contract_bind[OF start_waiting])
  fix kp
  have "contract (waiting S evs key p) (awaitAck S (key, p)) (\<lambda>_ w. senderInv evs w \<and> heard S evs key) (senderInv evs)" for p
    unfolding awaitAck_def by (rule contract_read) (auto intro: contract_weaken[OF promise_heard])
  then have "controlAckInput (Str (js kind)) fid = ok (fst kp) \<Longrightarrow>
      contract (waiting S evs (fst kp) (snd kp)) (awaitAck S kp) (\<lambda>_ w. senderInv evs w \<and> heard S evs key) (senderInv evs)"
    using assms[of "fst kp"] by (cases kp) simp
  then show "contract (\<lambda>w. controlAckInput (Str (js kind)) fid = ok (fst kp) \<and> waiting S evs (fst kp) (snd kp) w) (awaitAck S kp)
      (\<lambda>_ w. senderInv evs w \<and> heard S evs key) (senderInv evs)"
    unfolding conj_commute[of "controlAckInput (Str (js kind)) fid = ok (fst kp)"] by (rule contract_known)
qed

text \<open>Everything between the waits keeps the invariant.\<close>

lemma then_heard: "keeps (\<lambda>w v. senderInv evs w \<longrightarrow> senderInv evs v) m \<Longrightarrow> (\<And>x. contract (senderInv evs) (f x) Q (senderInv evs))
    \<Longrightarrow> contract (senderInv evs) (bindIO m f) Q (senderInv evs)"
  by (rule contract_bind[OF kept_inv])

lemma file_heard:
  "contract (senderInv evs) (sendFile S f) (\<lambda>_ w. senderInv evs w \<and> heard S evs (AckFileOk, Some (sendId f))) (senderInv evs)"
proof -
  have finish: "contract (senderInv evs) (finishFile S f r) (\<lambda>_ w. senderInv evs w \<and> heard S evs (AckFileOk, Some (sendId f))) (senderInv evs)" for r
    unfolding finishFile_def
    by (cases r) (auto intro!: contract_basic then_heard send_calls wait_heard dest: ack_keys(2))
  show ?thesis unfolding sendFile_def sendContent_def
    by (intro then_heard send_calls) (auto intro!: then_heard send_calls finish split: prod.split)
qed

lemma each_heard:
  "contract (senderInv evs) (sendEach S fs) (\<lambda>_ w. senderInv evs w \<and> (\<forall>f \<in> set fs. heard S evs (AckFileOk, Some (sendId f)))) (senderInv evs)"
proof (induction fs)
  case (Cons f fs)
  have "contract (\<lambda>w. senderInv evs w \<and> heard S evs (AckFileOk, Some (sendId f))) (sendEach S fs)
      (\<lambda>_ w. senderInv evs w \<and> (\<forall>f \<in> set (f # fs). heard S evs (AckFileOk, Some (sendId f)))) (senderInv evs)"
    by (rule contract_known, rule contract_weaken[OF Cons]) auto
  then show ?case unfolding sendEach.simps by (rule contract_bind[OF file_heard])
qed (auto intro: contract_basic)

lemma body_heard:
  "contract (senderInv evs) (sendBody S files)
     (\<lambda>_ w. (\<forall>f \<in> set files. heard S evs (AckFileOk, Some (sendId f))) \<and> heard S evs (AckAllDoneOk, None)) (senderInv evs)"
proof -
  let ?all = "\<forall>f \<in> set files. heard S evs (AckFileOk, Some (sendId f))"
  have last: "contract (senderInv evs) (bindIO (throwIfSenderFailed S) (\<lambda>_. bindIO (sendSenderControl S True AllDone) (\<lambda>_. waitAck S ''all-done-ok'' Undefined)))
      (\<lambda>_ w. ?all \<and> heard S evs (AckAllDoneOk, None)) (senderInv evs)" if ?all
    by (intro then_heard send_calls contract_weaken[OF wait_heard[of _ _ "(AckAllDoneOk, None)"]]) (use that ack_keys(3) in auto)
  have "contract (senderInv evs) (bindIO (sendEach S files) (\<lambda>_. bindIO (throwIfSenderFailed S) (\<lambda>_.
      bindIO (sendSenderControl S True AllDone) (\<lambda>_. waitAck S ''all-done-ok'' Undefined)))) (\<lambda>_ w. ?all \<and> heard S evs (AckAllDoneOk, None)) (senderInv evs)"
    by (rule contract_bind[OF each_heard], rule contract_known[OF last])
  then have rest: "contract (senderInv evs) (bindIO (sendSenderControl S True (planManifest files)) (\<lambda>_. bindIO (sendEach S files) (\<lambda>_. bindIO (throwIfSenderFailed S) (\<lambda>_.
      bindIO (sendSenderControl S True AllDone) (\<lambda>_. waitAck S ''all-done-ok'' Undefined))))) (\<lambda>_ w. ?all \<and> heard S evs (AckAllDoneOk, None)) (senderInv evs)"
    by (rule then_heard[OF sinv.keeps_control])
  show ?thesis unfolding sendBody_def
    by (rule contract_lift) (drule plan_exact, rule contract_lift, simp_all add: rest)
qed

end
