(* ===== verification/SenderTurns.thy ===== *)
theory SenderTurns
  imports SenderProperties
begin

text \<open>
  The loop of \<open>verifiedReadyState\<close> ends: every further turn waits for another \<open>ready\<close>, a wait that
  nothing answers ends with its timer, so that the turns the model allows are enough.
\<close>

definition budget :: "nat \<Rightarrow> Sender \<Rightarrow> bool" where
  "budget n w \<longleftrightarrow> ackInv (sxAcks w) \<and> length (sxEvents w) \<le> n"

interpretation turn: sending_frame "\<lambda>w v. budget n w \<longrightarrow> budget n v" for n
  by unfold_locales (auto simp: budget_def ackStep_inv)

lemma returns_keeps: "keeps R m \<Longrightarrow> returns m w x v \<Longrightarrow> R w v"
  by (metis keeps_def returns_def snd_conv)

lemma bind_same: "(\<And>x v. returns m w x v \<Longrightarrow> f x v = g x v) \<Longrightarrow> bindIO m f w = bindIO m g w"
  by (auto simp: bindIO_def returns_def split: prod.split sum.split)

lemma waiting_sent:
  "contract (waiting S evs key p) (sendSenderControl S False m) (\<lambda>_. waiting S evs key p) (senderInv evs)"
proof -
  let ?W = "waiting S evs key p"
  have w: "\<And>w. ?W w \<Longrightarrow> senderInv evs w" by (simp add: waiting_def)
  have seal: "contract ?W (sealSenderMessage S m) (\<lambda>_. ?W) ?W"
    unfolding sealSenderMessage_def contract_def by (auto simp: io_defs waiting_def senderInv_def split: sum.split)
  have "contract ?W (awaitingSend S (sealSenderMessage S m)) (\<lambda>_. ?W) (senderInv evs)"
    unfolding awaitingSend_def
    by (rule contract_finally[OF seal]; rule contract_weaken[OF waiting_await[of S evs key p]]) (simp_all add: w)
  moreover have "contract ?W (bindIO (whenIO False m') (\<lambda>_. controlSend m t)) (\<lambda>_. ?W) (senderInv evs)" for m' t
    unfolding controlSend_def sendFault_def contract_def by (auto simp: io_defs waiting_def senderInv_def)
  ultimately show ?thesis unfolding sendSenderControl_def by (rule contract_bind)
qed

lemma restart_heard: "contract (senderInv evs) (askRestart S fid) (\<lambda>_ _. heard S evs (AckReady, Some fid)) (senderInv evs)"
  unfolding askRestart_def
proof (rule contract_bind[OF start_waiting])
  fix kp
  let ?key = "(AckReady, Some fid)"
  have await: "contract (waiting S evs ?key p) (awaitAck S (?key, p)) (\<lambda>_ _. heard S evs ?key) (senderInv evs)" for p
    unfolding awaitAck_def by (rule contract_read) (auto intro: contract_weaken[OF promise_heard])
  have "contract (waiting S evs (fst kp) (snd kp)) (bindIO (sendSenderControl S False (Restart fid)) (\<lambda>_. awaitAck S kp)) (\<lambda>_ _. heard S evs ?key) (senderInv evs)"
    if "fst kp = ?key" using contract_bind[OF waiting_sent await] that by (cases kp) simp
  then show "contract (\<lambda>w. controlAckInput (Str (js ''ready'')) (jnat fid) = ok (fst kp) \<and> waiting S evs (fst kp) (snd kp) w)
      (bindIO (sendSenderControl S False (Restart fid)) (\<lambda>_. awaitAck S kp)) (\<lambda>_ _. heard S evs ?key) (senderInv evs)"
    unfolding conj_commute[of "controlAckInput (Str (js ''ready'')) (jnat fid) = ok (fst kp)"] by (rule contract_known) (use ack_keys(1) in blast)
qed

text \<open>An answered \<open>restart\<close> uses up an entry of the schedule.\<close>

lemma await_shrinks: "returns (awaitSender S) w x v \<Longrightarrow> budget (Suc n) w \<Longrightarrow> budget n v"
proof -
  assume r: "returns (awaitSender S) w x v" and w: "budget (Suc n) w"
  have "budget n (w\<lparr>sxEvents := tl (sxEvents w)\<rparr>)" using w by (auto simp: budget_def)
  moreover have "returns (onSenderEvents S (case sxEvents w of [] \<Rightarrow> [] | es # _ \<Rightarrow> es)) (w\<lparr>sxEvents := tl (sxEvents w)\<rparr>) x v"
    using r unfolding awaitSender_def by (simp add: run_simps update_as_assignment(7)[of tl])
  ultimately show ?thesis using returns_keeps[OF turn.keeps_onSenderEvents] by blast
qed

lemma restart_unanswered: "returns (askRestart S fid) w x v \<Longrightarrow> budget n w \<Longrightarrow> sxEvents w \<noteq> []"
proof
  assume "returns (askRestart S fid) w x v" "budget n w" "sxEvents w = []"
  then have "heard S {} (AckReady, Some fid)" 
    by (intro contractD(1)[OF restart_heard[of "{}" S fid]]) (auto simp: senderInv_def budget_def)
  then show False by (simp add: heard_def)
qed

lemma restart_shrinks:
  assumes "returns (askRestart S fid) w x v" "budget n w" shows "\<exists>k < n. budget k v"
proof -
  obtain k where n: "n = Suc k" using restart_unanswered[OF assms] assms(2) by (cases n) (auto simp: budget_def)
  from assms(1) obtain kp u y a t b c z where r: "returns (startWait ''ready'' (jnat fid)) w kp u"
    "returns (sealSenderMessage S (Restart fid)) u t a" "returns (awaitSender S) a y b"
    "returns (controlSend (Restart fid) t) b z c" "returns (awaitAck S kp) c x v"
    unfolding askRestart_def sendSenderControl_def awaitingSend_def run_simps if_False by blast
  have "budget (Suc k) a" using returns_keeps[OF turn.keeps_startWait r(1)] returns_keeps[OF turn.keeps_send(2) r(2)] assms(2) n by blast
  then have "budget k b" by (rule await_shrinks[OF r(3)])
  moreover have "keeps (\<lambda>w v. budget k w \<longrightarrow> budget k v) (controlSend (Restart fid) t)"
    unfolding controlSend_def by (intro turn.keeps_rules send_calls)
  ultimately have "budget k v" using returns_keeps[OF _ r(4)] returns_keeps[OF turn.keeps_awaitAck r(5)] by blast
  then show ?thesis using n by blast
qed

lemma turns_enough: "budget k w \<Longrightarrow> k < n \<Longrightarrow> k < m \<Longrightarrow> readyLoop S f n w = readyLoop S f m w"
proof (induction n arbitrary: m k w)
  case (Suc n)
  from Suc.prems obtain m' where m: "m = Suc m'" by (cases m) auto
  note kept = returns_keeps[OF turn.keeps_throwIfFailed] returns_keeps[OF turn.keeps_send(4)] returns_keeps[OF turn.keeps_hashSendPrefix]
  have again: "readyLoop S f n v = readyLoop S f m' v" if r: "returns (askRestart S (sendId f)) u x v" "budget k u" for u x v
  proof -
    obtain j where "j < k" "budget j v" using restart_shrinks[OF r] by blast
    then show ?thesis using Suc.IH[of j v m'] Suc.prems m by simp
  qed
  have ask: "bindIO (askRestart S (sendId f)) (\<lambda>_. readyLoop S f n) u = bindIO (askRestart S (sendId f)) (\<lambda>_. readyLoop S f m') u" if "budget k u" for u
    by (rule bind_same) (rule again[OF _ that])
  have turn: "bindIO (throwIfSenderFailed S) (\<lambda>_. if b then pureIO r else bindIO (askRestart S (sendId f)) (\<lambda>_. readyLoop S f n)) u
      = bindIO (throwIfSenderFailed S) (\<lambda>_. if b then pureIO r else bindIO (askRestart S (sendId f)) (\<lambda>_. readyLoop S f m')) u" if "budget k u" for u b r
    by (rule bind_same) (use ask kept(1) that in auto)
  show ?case unfolding m readyLoop.simps
  proof (rule bind_same, rule bind_same)
    fix x u r v assume u: "returns (throwIfSenderFailed S) w x u" and v: "returns (takeReady (sendId f)) u r v"
    have b: "budget k v" using kept(1)[OF u] kept(2)[OF v] Suc.prems(1) by blast
    have "bindIO (hashSendPrefix S f (readyOffset r)) (\<lambda>(hash, prefix). bindIO (throwIfSenderFailed S) (\<lambda>_.
          if prefix = readyPrefix r then pureIO r else bindIO (askRestart S (sendId f)) (\<lambda>_. readyLoop S f n))) v
      = bindIO (hashSendPrefix S f (readyOffset r)) (\<lambda>(hash, prefix). bindIO (throwIfSenderFailed S) (\<lambda>_.
          if prefix = readyPrefix r then pureIO r else bindIO (askRestart S (sendId f)) (\<lambda>_. readyLoop S f m'))) v"
      by (rule bind_same) (use turn kept(3) b in \<open>auto split: prod.split\<close>)
    then show "(if readyOffset r > sendSize f \<or> readyOffset r < sendSize f \<and> readyOffset r mod CHUNK_SIZE \<noteq> 0
         then failIO (''Invalid resume offset for '' @ showName (sendName f) @ ''.'')
         else if readyOffset r = 0 then pureIO r
         else bindIO (hashSendPrefix S f (readyOffset r)) (\<lambda>(hash, prefix). bindIO (throwIfSenderFailed S) (\<lambda>_.
           if prefix = readyPrefix r then pureIO r else bindIO (askRestart S (sendId f)) (\<lambda>_. readyLoop S f n)))) v
       = (if readyOffset r > sendSize f \<or> readyOffset r < sendSize f \<and> readyOffset r mod CHUNK_SIZE \<noteq> 0
         then failIO (''Invalid resume offset for '' @ showName (sendName f) @ ''.'')
         else if readyOffset r = 0 then pureIO r
         else bindIO (hashSendPrefix S f (readyOffset r)) (\<lambda>(hash, prefix). bindIO (throwIfSenderFailed S) (\<lambda>_.
           if prefix = readyPrefix r then pureIO r else bindIO (askRestart S (sendId f)) (\<lambda>_. readyLoop S f m')))) v"
      by simp
  qed
qed simp

text \<open>More turns than \<open>verifiedReadyState\<close> allows change nothing.\<close>

lemma verified_turns: "ackInv (sxAcks w) \<Longrightarrow> length (sxEvents w) < n \<Longrightarrow> readyLoop S f n w = verifiedReadyState S f w"
  unfolding verifiedReadyState_def bindIO_def readIO_def
  by (simp del: readyLoop.simps) (rule turns_enough[of "length (sxEvents w)"], simp_all add: budget_def)

end
