(* ===== verification/SenderWitness.thy ===== *)
theory SenderWitness
  imports SenderProperties
begin

text \<open>
  A complete call of \<open>sendFiles\<close>: one file of two bytes, a receiver that acknowledges everything. It
  shows that the hypotheses of the properties of a transfer can hold.
\<close>

section \<open>Setup\<close>

definition witnessSetup :: SendSetup where
  "witnessSetup = \<lparr>sndCrypto = plainCrypto, sndNumbers = plainNumbers, sndKeys = Some (plainKeys Encrypt)\<rparr>"

definition witnessSha :: jsstring where
  "witnessSha = replicate 64 48"

definition witnessFile :: SendFile where
  "witnessFile = \<lparr>sendId = 0, sendName = js ''report.pdf'', sendSize = 2, sendMime = None, sendHandle = sampleIdentity 3,
     sendSha256 = witnessSha, sendChunkSha256 = [witnessSha]\<rparr>"

lemma concat_pairs: "concat (replicate n [a, a]) = replicate (2 * n) a"
  by (induction n) simp_all

lemma witness_digest: "digestHex plainCrypto bs = witnessSha"
proof -
  have "bytesToHex (replicate n 0) = concat (replicate n [48, 48])" for n by (simp add: bytesToHex_def map_replicate) code_simp
  then show ?thesis using concat_pairs[of 32 48] by (simp add: digestHex_def plainCrypto_def witnessSha_def)
qed

lemma witness_wf: "wfControl (planManifest [witnessFile])" "wfControl (FileBegin 0 (js ''report.pdf'') 2)" "wfControl (FileEnd 0 witnessSha)"
  using name_report_valid by (simp_all add: planManifest_def witnessFile_def witnessSha_def sendEntry_def sha256Hex_def isDigit_def limit_defs list_all_iff)

text \<open>Each of the messages of the transfer is sealed and opens.\<close>

definition witnessText :: "ControlMessage \<Rightarrow> jsstring" where
  "witnessText m = (case sealControl plainCrypto plainNumbers (replicate 12 0) (Some (plainKeys Encrypt)) (controlObject m) of Inr t \<Rightarrow> t | Inl _ \<Rightarrow> [])"

lemma text_short: "utf8ByteLength s \<le> 3 * length s"
proof (induction s rule: utf8ByteLength.induct)
  case (2 code rest)
  then show ?case by (cases rest) (auto simp: utf8ByteLength.simps)
qed simp

lemma quote_short: "length (jsonQuote s) \<le> 6 * length s + 2"
proof -
  have c: "length (jsonEscape [x]) \<le> 6" for x by (simp add: jsonEscape_def hex4_def split: option.split)
  have "length (concat (map jsonEscape (strChars s))) \<le> 6 * length s"
  proof (induction s rule: strChars.induct)
    case (3 x y zs)
    then show ?case using c[of x] by (auto simp: jsonEscape_pair)
  qed (use c in simp_all)
  then show ?thesis by (simp add: jsonQuote_def)
qed

lemma text_fits: "length (textOf plainNumbers (controlJson m)) \<le> 4000 \<Longrightarrow> utf8ByteLength (textOf plainNumbers (controlJson m)) \<le> MAX_ENCRYPTED_JSON_PLAINTEXT_BYTES"
  using text_short[of "textOf plainNumbers (controlJson m)"] by (simp add: limit_defs)

lemmas witness_quotes = quote_short[of "js ''t''"] quote_short[of "js ''id''"] quote_short[of "js ''name''"] quote_short[of "js ''size''"]
  quote_short[of "js ''report.pdf''"] quote_short[of "js ''manifest''"] quote_short[of "js ''files''"] quote_short[of "js ''totalBytes''"]
  quote_short[of "js ''file-begin''"] quote_short[of "js ''file-end''"] quote_short[of "js ''sha256''"] quote_short[of "replicate 64 48"]
  quote_short[of "js ''all-done''"] quote_short[of "js ''ready''"] quote_short[of "js ''file-ok''"] quote_short[of "js ''all-done-ok''"]

lemma witness_keys:
  obtains a b where "activeSessionKeys (Some (plainKeys Encrypt)) = ok a" "activeSessionKeys (Some (plainKeys Decrypt)) = ok b" "activeSid a = activeSid b"
    "pairedKey (controlSendKey a) (controlRecvKey b)" "pairedKey (controlSendKey b) (controlRecvKey a)"
  using plain_matched by (rule matchedE)

lemma witness_messages:
  assumes m: "m \<in> {planManifest [witnessFile], FileBegin 0 (js ''report.pdf'') 2, FileEnd 0 witnessSha, AllDone}"
  shows "sealControl plainCrypto plainNumbers (replicate 12 0) (Some (plainKeys Encrypt)) (controlObject m) = ok (witnessText m)"
    "openControl plainCrypto plainNumbers (Some (plainKeys Decrypt)) (Str (witnessText m)) = ok (controlObject m)" "assertControlMessage (controlObject m) = ok m"
proof -
  have "length (textOf plainNumbers (controlJson m)) \<le> 4000"
    using assms witness_quotes unfolding length_js by (auto simp: controlJson_def planManifest_def witnessFile_def sendEntry_def entryJson_def optJson_def jarr_def
      numberText_def intText_def dec.simps witnessSha_def)
  note fits = text_fits[OF this]
  have u: "list_all utf16 (controlStrings m)" using m by (auto simp: planManifest_def witnessFile_def sendEntry_def utf16_def js_def list_all_iff witnessSha_def)
  have wf: "wfControl m" using m witness_wf by auto
  from witness_keys obtain a b where k: "activeSessionKeys (Some (plainKeys Encrypt)) = ok a" "activeSessionKeys (Some (plainKeys Decrypt)) = ok b"
    "activeSid a = activeSid b" "pairedKey (controlSendKey a) (controlRecvKey b)" by metis
  show "sealControl plainCrypto plainNumbers (replicate 12 0) (Some (plainKeys Encrypt)) (controlObject m) = ok (witnessText m)"
    "openControl plainCrypto plainNumbers (Some (plainKeys Decrypt)) (Str (witnessText m)) = ok (controlObject m)"
    using control_opened[OF plain_aead plain_numbers wf u _ fits k, of "replicate 12 0"] by (auto simp: witnessText_def)
  show "assertControlMessage (controlObject m) = ok m" by (rule literal_parsed[OF wf])
qed

text \<open>The messages of the receiver.\<close>

definition witnessReply :: "ControlMessage \<Rightarrow> jsval" where
  "witnessReply m = Str (case sealControl plainCrypto plainNumbers (replicate 12 0) (Some (plainKeys Decrypt)) (controlObject m) of Inr t \<Rightarrow> t | Inl _ \<Rightarrow> [])"

lemma witness_replies:
  assumes m: "m \<in> {Ready 0 None None, FileOk 0, AllDoneOk}"
  shows "openControl plainCrypto plainNumbers (Some (plainKeys Encrypt)) (witnessReply m) = ok (controlObject m)" "assertControlMessage (controlObject m) = ok m"
    "\<exists>t. sealControl plainCrypto plainNumbers (replicate 12 0) (Some (plainKeys Decrypt)) (controlObject m) = ok t"
proof -
  have "length (textOf plainNumbers (controlJson m)) \<le> 4000"
    using assms witness_quotes unfolding length_js by (auto simp: controlJson_def optJson_def numberText_def intText_def dec.simps)
  note fits = text_fits[OF this]
  have u: "list_all utf16 (controlStrings m)" and wf: "wfControl m" using m by auto
  from witness_keys obtain a b where k: "activeSessionKeys (Some (plainKeys Decrypt)) = ok b" "activeSessionKeys (Some (plainKeys Encrypt)) = ok a"
    "activeSid b = activeSid a" "pairedKey (controlSendKey b) (controlRecvKey a)" by metis
  show "openControl plainCrypto plainNumbers (Some (plainKeys Encrypt)) (witnessReply m) = ok (controlObject m)"
    "\<exists>t. sealControl plainCrypto plainNumbers (replicate 12 0) (Some (plainKeys Decrypt)) (controlObject m) = ok t"
    using control_opened[OF plain_aead plain_numbers wf u _ fits k, of "replicate 12 0"] by (auto simp: witnessReply_def)
  show "assertControlMessage (controlObject m) = ok m" by (rule literal_parsed[OF wf])
qed

definition witnessEvents :: "SenderEvent list list" where
  "witnessEvents = replicate 5 [] @ [SenderMessage (witnessReply (Ready 0 None None))] # replicate 14 [] @ [SenderMessage (witnessReply (FileOk 0))]
     # replicate 3 [] @ [[SenderMessage (witnessReply AllDoneOk)]]"

definition witnessRandom :: "nat \<Rightarrow> bytes" where
  "witnessRandom n = replicate 12 0"

definition witnessFs :: Fs where
  "witnessFs = sampleFs\<lparr>ticks := []\<rparr>"

definition witnessStart :: Sender where
  "witnessStart = startSend witnessFs witnessEvents witnessRandom [] []"

lemma witness_plan: "buildSendPlan [witnessFile] = ok [witnessFile]"
  "assertTransferManifestWithinLimits (manifestObject (map sendEntry [witnessFile]) (sum_list (map sendSize [witnessFile]))) = ok ()"
proof -
  have "assertFileWithinLimits (Str (js ''report.pdf'')) (jnat 2) = ok ()" using name_report_valid by (simp add: assertFileWithinLimits_str limit_defs)
  then show "buildSendPlan [witnessFile] = ok [witnessFile]"
    by (simp add: buildSendPlan_def sendPlanFileInput_def sendChunkHashesInput_def witnessFile_def witnessSha_def sha256Hex_def isDigit_def list_all_iff limit_defs MAX_CHUNK_HASHES_PER_FILE_def)
  show "assertTransferManifestWithinLimits (manifestObject (map sendEntry [witnessFile]) (sum_list (map sendSize [witnessFile]))) = ok ()"
    using witness_wf(1) unfolding planManifest_def assertTransferManifestWithinLimits_iff valid_manifestObject .
qed

lemma witness_seal: "sealBulk plainCrypto (Some (plainKeys Encrypt)) (NInt (int 0)) (NInt (int 0)) (Uint8Array True [1, 2]) = ok ([1, 2] @ replicate 16 0)"
proof -
  from witness_keys obtain a where a: "activeSessionKeys (Some (plainKeys Encrypt)) = ok a" by metis
  then have "bulkSendKey a = importAesKey (replicate 32 0) [Encrypt]"
    by (auto simp: activeSessionKeys_def plainKeys_def Let_def simp del: assertPakeSid.simps)
  with a show ?thesis
    by (simp add: sealBulk_def assertChunkAddress_def binaryPayloadByteLength_def subtleEncrypt_def importAesKey_def plainCrypto_def limit_defs)
qed

definition witnessFrame :: jsval where
  "witnessFrame = ArrayBuf True (frameBytes \<lparr>fileId = 0, chunkSeq = 0, payload = [1, 2] @ replicate 16 0\<rparr>)"

lemma witness_frame: "encodeChunk (NInt (int 0)) (NInt (int 0)) (Uint8Array True ([1, 2] @ replicate 16 0)) = ok witnessFrame"
proof -
  have "encodeFrame \<lparr>fileId = 0, chunkSeq = 0, payload = [1, 2] @ replicate 16 0\<rparr> = ok witnessFrame"
    unfolding witnessFrame_def by (intro encodeFrame_valid) (simp add: validFrame_def sealedChunkSize_value)
  then show ?thesis by (simp add: encodeFrame_def)
qed

text \<open>The steps of the evaluation.\<close>

lemma await_nothing: "sxEvents w = [] # es \<Longrightarrow> awaitSender S w = (Inr (), w\<lparr>sxEvents := es\<rparr>)"
  unfolding awaitSender_def by (cases w) (simp add: eval_rules)

lemma await_message:
  assumes "sxEvents w = [SenderMessage (witnessReply m)] # es" "\<not> sxCompleted w" "m \<in> {Ready 0 None None, FileOk 0, AllDoneOk}"
  shows "awaitSender witnessSetup w = orRun (senderMessage m (w\<lparr>sxEvents := es\<rparr>)) (\<lambda>e. unlessCompleted (failAll e))"
proof -
  have "assertSenderControlMessage m = ok m" using assms(3) by (auto simp: assertSenderControlMessage_def)
  then show ?thesis using assms witness_replies[OF assms(3)] unfolding awaitSender_def
    by (cases w) (simp add: eval_rules handleSenderControl_def unlessCompleted_def[THEN fun_cong] witnessSetup_def cong: eval_congs)
qed

lemma await_promise_pos: "0 < n \<Longrightarrow> awaitPromise S key p n = bindIO (awaitSender S) (\<lambda>_. whenSettled p (awaitPromise S key p (n - 1)))"
  by (cases n) simp_all

lemmas send_eval = sendBody_def sendFile_def sendContent_def finishFile_def sendSenderControl_def
  controlSend_def bulkSend_def sendFault_def transmitChunk_def sendChunk_def throwIfSenderFailed_def waitAck_def startWait_def awaitAck_def
  verifiedReadyState_def takeReady_def hashSendPrefix_def awaitingSend_def drainBulk_def markAck_def whenSettled_def

lemma witness_ack: "controlAckInput (Str (js ''ready'')) (jnat 0) = ok (AckReady, Some 0)" "controlAckInput (Str (js ''file-ok'')) (jnat 0) = ok (AckFileOk, Some 0)"
  "controlAckInput (Str (js ''all-done-ok'')) Undefined = ok (AckAllDoneOk, None)"
  by (simp_all add: controlAckInput_def ackKindOf_def js_def)

lemma seal_step:
  assumes "m \<in> {planManifest [witnessFile], FileBegin 0 (js ''report.pdf'') 2, FileEnd 0 witnessSha, AllDone}" "sxRandom w = witnessRandom"
  shows "sealSenderMessage witnessSetup m w = (Inr (witnessText m), w\<lparr>sxDrawn := Suc (sxDrawn w)\<rparr>)"
  using witness_messages(1)[OF assms(1)] assms(2) unfolding sealSenderMessage_def
  by (cases w) (simp add: eval_rules witnessRandom_def witnessSetup_def)

lemma chunk_step: "sealChunk witnessSetup 0 0 [1, 2] w = (Inr ([1, 2] @ replicate 16 0), w\<lparr>sxSealed := sxSealed w @ [(0, 0, [1, 2])]\<rparr>)"
  using witness_seal unfolding sealChunk_def by (cases w) (simp add: eval_rules witnessSetup_def)

lemma read_step:
  assumes "sxFs w = witnessFs"
  shows "onSendFs (handleRead (sampleIdentity 3) CHUNK_SIZE 0) w = (Inr [1, 2], w)" "onSendFs (handleRead (sampleIdentity 3) CHUNK_SIZE (Suc (Suc 0))) w = (Inr [], w)"
  using assms by (cases w; simp add: onSendFs_def zoomIO_def fs_eval witnessFs_def sampleFs_def sampleStore_def sampleIdentity_def CHUNK_SIZE_def)+

lemma close_step: "sxFs w = witnessFs \<Longrightarrow> onSendFs (closeSendFiles [witnessFile]) w = (Inr (), w)"
  by (cases w) (simp add: onSendFs_def zoomIO_def eval_rules fs_eval witnessFs_def)

lemma witness_fields: "sendId witnessFile = 0" "sendName witnessFile = js ''report.pdf''" "sendSize witnessFile = 2" "sendHandle witnessFile = sampleIdentity 3"
  "sendSha256 witnessFile = witnessSha" "sendChunkSha256 witnessFile = [witnessSha]" "sndCrypto witnessSetup = plainCrypto"
  by (simp_all add: witnessFile_def witnessSetup_def)

lemma witness_events: "witnessEvents = [[], [], [], [], [], [SenderMessage (witnessReply (Ready 0 None None))], [], [], [], [], [], [], [], [], [], [], [], [], [], [],
    [SenderMessage (witnessReply (FileOk 0))], [], [], [], [SenderMessage (witnessReply AllDoneOk)]]"
  by (simp add: witnessEvents_def numeral_eq_Suc)

lemma witness_run:
  "\<exists>v. sendFiles witnessSetup [witnessFile] witnessStart = (Inr (), v) \<and> sxSealed v = [(0, 0, [1, 2])] \<and> sxBulkOut v = [witnessFrame]"
  unfolding witnessStart_def startSend_def witness_events
  by (simp add: sendFiles_def send_eval[THEN fun_cong] eval_rules await_nothing await_message witness_plan(1) witness_plan(2)[simplified, unfolded witness_fields] witness_ack witness_fields seal_step
      await_promise_pos waitKey_def markKey_def settleAck_def removeAck_def newAckWaiter_def mark_def readyStateInput_def resumeOffsetInput_def
      sendChunks.simps[THEN fun_cong] read_step chunk_step chunkHash_def witness_digest witness_frame[simplified] close_step firstSeq_def waitForBackpressure_def
      del: closeSendFiles.simps awaitPromise.simps cong: eval_congs)

end
