(* ===== verification/ReceiverWitness.thy ===== *)
theory ReceiverWitness
  imports SenderWitness
begin

text \<open>
  A run of \<open>receiveFiles\<close> with the messages of the sample sender: the manifest, the beginning of the
  file and its only frame. It shows that the hypotheses of the properties of a transfer can hold for
  a receiver that receives.
\<close>

definition sampleSetup :: ReceiveSetup where
  "sampleSetup = \<lparr>setCrypto = plainCrypto, setNumbers = plainNumbers, setKeys = Some (plainKeys Decrypt), setOutDir = Str (js ''/o''),
     setAccepted = None, setResume = False, setOpaque = False, setPrivate = False\<rparr>"

definition sampleSteps :: "ReceiveStep list" where
  "sampleSteps = [Event (ControlArrives (Str (witnessText (planManifest [witnessFile])))), NextTask,
     Event (ControlArrives (Str (witnessText (FileBegin 0 (js ''report.pdf'') 2)))), NextTask, Event (BulkArrives witnessFrame), NextTask]"

definition sampleReceiver :: Receiver where
  "sampleReceiver = startReceive witnessFs [] witnessRandom []"

lemma await_none: "rxEvents w = [] \<Longrightarrow> awaitEvents S w = (Inr (), w)"
  unfolding awaitEvents_def by (cases w) (simp add: eval_rules)

text \<open>The reservation of the output file.\<close>

definition sampleOptions :: ReserveOptions where
  "sampleOptions = \<lparr>optResume = False, optSize = jnat 2, optOpaqueName = False, optPrivateDir = False\<rparr>"

lemma report_name: "safeName (js ''report.pdf'') SAFE_FILE_NAME_BYTES = js ''report.pdf''"
  by (simp add: name_eval)

lemma sample_names:
  "outputDirInput (Str (js ''/o'')) = ok (js ''/o'')" "pathResolve (js ''/o'') (js ''/o'') = js ''/o''"
  "safeFileName (Str (js ''report.pdf'')) (NInt (int SAFE_FILE_NAME_BYTES)) = ok (js ''report.pdf'')"
  "safeCollisionFileName (Str (js ''report.pdf'')) (NInt 0) (NInt (int SAFE_FILE_NAME_BYTES)) = ok (js ''report.pdf'')"
  "pathJoin (js ''/o'') (js ''report.pdf'') = js ''/o/report.pdf''" "pathJoin (js ''/o'') (js ''ff-'' @ js ''00ff'' @ js ''.part'') = js ''/o/ff-00ff.part''"
proof -
  show "outputDirInput (Str (js ''/o'')) = ok (js ''/o'')" by (simp add: outputDirInput_def path_eval MAX_OUTPUT_DIR_BYTES_def)
  show "pathResolve (js ''/o'') (js ''/o'') = js ''/o''" by code_simp
  show "safeFileName (Str (js ''report.pdf'')) (NInt (int SAFE_FILE_NAME_BYTES)) = ok (js ''report.pdf'')"
    by (simp add: safeFileName_def assertSafeFileNameMaxBytes_def report_name del: js_simps) (simp add: file_name_consts)
  show "safeCollisionFileName (Str (js ''report.pdf'')) (NInt 0) (NInt (int SAFE_FILE_NAME_BYTES)) = ok (js ''report.pdf'')"
    by (simp add: safeCollisionFileName_def assertSafeFileNameMaxBytes_def file_name_consts utf8ByteLength_ascii js_def)
  show "pathJoin (js ''/o'') (js ''report.pdf'') = js ''/o/report.pdf''" by code_simp
  show "pathJoin (js ''/o'') (js ''ff-'' @ js ''00ff'' @ js ''.part'') = js ''/o/ff-00ff.part''" by code_simp
qed

lemmas reserve_eval = reserveOutputFile_def reserveAttempt_def createOutputPart_def assertReservedDirectoryIdentity_def outputDirectoryStat_def
  directoryIdentity_def randomPartFileName_def orNext_def

lemma attempts: "[0..<MAX_OUTPUT_NAME_ATTEMPTS] = 0 # [1..<MAX_OUTPUT_NAME_ATTEMPTS]"
  by (simp add: upt_rec limit_defs)

text \<open>The messages of the sender in the receive queue.\<close>

lemma opened_size:
  assumes "openControl C nf ks (Str t) = ok v" shows "utf8ByteLength t \<le> 600000"
proof -
  have "length t \<le> ENCRYPTED_JSON_MAX_CHARS" using assms by (auto simp: openControl_def openJson_def split: if_splits)
  then show ?thesis using text_short[of t] by (simp add: limit_defs)
qed

lemma arrives:
  assumes "\<not> rxFailed w" "\<not> rxCompleted w" "rxAttached w" "rxQueue w = []" "rxQueuedBytes w = 0" "rxQueuedMessages w = 0"
    "receiveQueueByteLength (taskData task) \<le> RECEIVE_QUEUE_MAX_BYTES"
  shows "whenAttached (enqueueReceiveTask S task) w =
    (Inr (), w\<lparr>rxQueuedBytes := receiveQueueByteLength (taskData task), rxQueuedMessages := 1, rxQueue := [task]\<rparr>)"
  using assms by (cases w) (simp add: whenAttached_def enqueueReceiveTask_def eval_rules Let_def limit_defs)

lemma one_task:
  assumes "rxQueue w = [task]" "rxQueuedBytes w = receiveQueueByteLength (taskData task)" "rxQueuedMessages w = 1"
    "handleTask S task w = (Inr (), v)" "rxQueue v = rxQueue w" "rxQueuedBytes v = rxQueuedBytes w" "rxQueuedMessages v = rxQueuedMessages w"
  shows "snd (runTask S w) = v\<lparr>rxQueuedBytes := 0, rxQueuedMessages := 0, rxQueue := []\<rparr>"
  using assms by (cases v) (simp add: runTask_def eval_rules releaseTask_def)

lemma control_handled:
  assumes "m \<in> {planManifest [witnessFile], FileBegin 0 (js ''report.pdf'') 2}" "rxEvents w = []" "\<not> rxFailed w" "\<not> rxCompleted w"
    "receiveControl sampleSetup m (w\<lparr>rxIdleTimer := True\<rparr>) = (Inr (), v)"
  shows "handleTask sampleSetup (ControlTask (Str (witnessText m))) w = (Inr (), v)"
  using assms witness_messages(2,3)[of m]
  by (cases w) (auto simp: handleControlMessage_def unlessStopped_def resetReceiveTimeout_def awaiting_def await_none throwIfReceiveStopped_def eval_rules sampleSetup_def
      simp del: receiveControl.simps cong: eval_congs)

lemma manifest_received:
  assumes "rxManifest w = None"
  shows "receiveControl sampleSetup (planManifest [witnessFile]) w =
    (Inr (), w\<lparr>rxManifest := Some (planManifest [witnessFile]), rxExpected := [sendEntry witnessFile], rxTotalBytes := 2\<rparr>)"
proof -
  have "assertManifestWithinLimits (manifestObject [sendEntry witnessFile] 2) = ok ()"
  proof -
    have "validTransferManifest (manifestObject [sendEntry witnessFile] 2)"
      using witness_wf(1) by (simp only: planManifest_def valid_manifestObject list.map sum_list.Cons sum_list.Nil witness_fields add_0_right)
    then show ?thesis unfolding assertManifestWithinLimits_iff by (simp add: validTransferManifest_def)
  qed
  then show ?thesis using assms
    by (cases w) (simp add: planManifest_def receiveManifest_def sampleSetup_def eval_rules witness_fields)
qed

definition sampleReserved :: ReservedOutputFile where
  "sampleReserved = \<lparr>finalPath = js ''/o/report.pdf'', partPath = js ''/o/ff-00ff.part'', partHandle = sampleIdentity 5, dirIdentity = sampleIdentity 2,
     resumeBytes = 0, resumeHash = []\<rparr>"

definition reservedFs :: Fs where
  "reservedFs = witnessFs\<lparr>randomHex := [],
     store := (store witnessFs)\<lparr>names := (names (store witnessFs))(js ''/o/ff-00ff.part'' \<mapsto> sampleIdentity 5),
       inodes := (inodes (store witnessFs))(sampleIdentity 5 \<mapsto> \<lparr>inodeKind = RegularFile, inodeContent = [], inodeMode = 384, inodeUid = 7, inodeStamp = 0\<rparr>),
       nextInode := 6\<rparr>\<rparr>"

lemma sample_reserved:
  "reserveOutputFile plainCrypto (Str (js ''/o'')) (js ''report.pdf'') sampleOptions witnessFs = (Inr sampleReserved, reservedFs)"
  by (simp add: reserve_eval[THEN fun_cong] sample_names sampleOptions_def attempts followLinks_step eval_rules fs_eval witnessFs_def sampleFs_def sampleStore_def sampleIdentity_def
       sampleReserved_def reservedFs_def fun_upd_idem_iff cong: eval_congs fsCall_cong)

text \<open>The file begins.\<close>

definition begunFile :: ReceiveState where
  "begunFile = newReceiveState 0 2 sampleReserved"

lemma file_begun:
  assumes "rxManifest w \<noteq> None" "rxExpected w = [sendEntry witnessFile]" "rxFiles w = []" "rxEvents w = []" "rxFs w = witnessFs" "rxRandom w = witnessRandom"
    "\<not> rxFailed w" "\<not> rxCompleted w" "rxControlOpen w" "rxSendFaults w = []"
  shows "\<exists>t. receiveControl sampleSetup (FileBegin 0 (js ''report.pdf'') 2) w =
    (Inr (), w\<lparr>rxFs := reservedFs, rxFiles := [begunFile], rxDrawn := Suc (rxDrawn w), rxOutbox := rxOutbox w @ [(Ready 0 None None, t)]\<rparr>)"
proof -
  obtain t where t: "sealControl plainCrypto plainNumbers (replicate 12 0) (Some (plainKeys Decrypt)) (controlObject (Ready 0 None None)) = ok t"
    using witness_replies(3)[of "Ready 0 None None"] by auto
  have valid: "assertFileWithinLimits (Str (js ''report.pdf'')) (jnat 2) = ok ()" using name_report_valid by (simp add: assertFileWithinLimits_str limit_defs)
  have "receiveControl sampleSetup (FileBegin 0 (js ''report.pdf'') 2) w =
    (Inr (), w\<lparr>rxFs := reservedFs, rxFiles := [begunFile], rxDrawn := Suc (rxDrawn w), rxOutbox := rxOutbox w @ [(Ready 0 None None, t)]\<rparr>)"
    using assms t valid sample_reserved
    by (cases w) (simp add: receiveFileBegin_def findFile_def witness_fields sendEntry_def beginFile_def awaiting_def await_none onFs_def zoomIO_def
      sendControl_def sealMessage_def throwIfReceiveStopped_def channelSend_def readyMessage_def sampleSetup_def begunFile_def sampleReserved_def witnessRandom_def
      sampleOptions_def eval_rules cong: eval_congs)
  then show ?thesis by blast
qed

text \<open>The frame, and the whole run.\<close>

definition sampleFrame :: ChunkFrame where
  "sampleFrame = \<lparr>fileId = 0, chunkSeq = 0, payload = [1, 2] @ replicate 16 0\<rparr>"

lemma sample_frame: "fileId sampleFrame = 0" "chunkSeq sampleFrame = 0" "witnessFrame = ArrayBuf True (frameBytes sampleFrame)"
  by (simp_all add: sampleFrame_def witnessFrame_def)

lemma frame_decoded:
  "decodeChunk (Uint8Array True (frameBytes sampleFrame)) = ok sampleFrame"
  "openBulk plainCrypto (Some (plainKeys Decrypt)) (NInt 0) (NInt 0) (Uint8Array True (payload sampleFrame)) = ok [1, 2]"
  "length (frameBytes sampleFrame) \<le> 100"
proof -
  have v: "validFrame sampleFrame" by (simp add: sampleFrame_def validFrame_def sealedChunkSize_value)
  show "decodeChunk (Uint8Array True (frameBytes sampleFrame)) = ok sampleFrame" by (rule decode_view[OF v])
  show "openBulk plainCrypto (Some (plainKeys Decrypt)) (NInt 0) (NInt 0) (Uint8Array True (payload sampleFrame)) = ok [1, 2]"
    using bulk_inverse[OF plain_aead plain_matched] witness_seal by (simp add: sampleFrame_def)
  show "length (frameBytes sampleFrame) \<le> 100" by (simp add: frameBytes_def sampleFrame_def uint8Bytes_def)
qed

lemma frame_bytes: "toBytes witnessFrame = ok (Uint8Array True (frameBytes sampleFrame))"
  by (simp add: toBytes_def sample_frame)

lemma payload_received:
  assumes "rxFiles w = [begunFile]" "rxEvents w = []" "rxFs w = reservedFs" "\<not> rxFailed w" "\<not> rxCompleted w" "\<not> rxAllDoneSeen w"
  shows "\<exists>v. receivePayload sampleSetup 0 [1, 2] w = (Inr (), v) \<and> map rsHash (rxFiles v) = [[1, 2]] \<and> rxQueue v = rxQueue w
    \<and> rxQueuedBytes v = rxQueuedBytes w \<and> rxQueuedMessages v = rxQueuedMessages w"
  using assms
  by (cases w) (simp add: findFile_def begunFile_def newReceiveState_def
    sampleReserved_def awaiting_def await_none throwIfReceiveStopped_def receivePayload_def withFile_def updFile_def writeStreamChunk_def onFs_def zoomIO_def
    reservedFs_def witnessFs_def fs_eval maybeFinalize_def maybeResolveDone_def eval_rules cong: eval_congs)

lemma frame_handled:
  assumes "rxFiles w = [begunFile]" "rxEvents w = []" "rxFs w = reservedFs" "\<not> rxFailed w" "\<not> rxCompleted w" "\<not> rxAllDoneSeen w"
  shows "\<exists>v. handleTask sampleSetup (BulkTask witnessFrame) w = (Inr (), v) \<and> map rsHash (rxFiles v) = [[1, 2]] \<and> rxQueue v = rxQueue w
    \<and> rxQueuedBytes v = rxQueuedBytes w \<and> rxQueuedMessages v = rxQueuedMessages w"
proof -
  let ?u = "w\<lparr>rxIdleTimer := True\<rparr>"
  obtain v where v: "receivePayload sampleSetup 0 [1, 2] ?u = (Inr (), v)" "map rsHash (rxFiles v) = [[1, 2]]" "rxQueue v = rxQueue w"
    "rxQueuedBytes v = rxQueuedBytes w" "rxQueuedMessages v = rxQueuedMessages w"
    using payload_received[of ?u] assms by auto
  have f: "rsId begunFile = 0" "\<not> rsDone begunFile" "rsExpectedSha256 begunFile = None" "rsExpectedSeq begunFile = 0"
    by (simp_all add: begunFile_def newReceiveState_def sampleReserved_def)
  have c: "setCrypto sampleSetup = plainCrypto" "setKeys sampleSetup = Some (plainKeys Decrypt)" by (simp_all add: sampleSetup_def)
  have u: "rxFiles ?u = [begunFile]" "rxEvents ?u = []" using assms by simp_all
  have "receiveFrame sampleSetup sampleFrame ?u = receivePayload sampleSetup 0 [1, 2] ?u"
    using u f frame_decoded(2) by (simp add: receiveFrame_def sample_frame(1,2) findFile_def awaiting_def await_none c eval_rules)
  with v(1) have r: "receiveFrame sampleSetup sampleFrame ?u = (Inr (), v)" by simp
  have reset: "resetReceiveTimeout w = (Inr (), ?u)" using assms by (cases w) (simp add: resetReceiveTimeout_def eval_rules)
  have "handleTask sampleSetup (BulkTask witnessFrame) w = (Inr (), v)"
    using assms r by (simp add: handleBulkMessage_def unlessStopped_def frame_bytes frame_decoded(1) reset eval_rules cong: eval_congs)
  with v(2-5) show ?thesis by (intro exI[of _ v] conjI)
qed

lemma sample_received: "map rsHash (rxFiles (receiveRun sampleSetup sampleSteps sampleReceiver)) = [[1, 2]]"
proof -
  define m where "m = planManifest [witnessFile]"
  define b where "b = FileBegin 0 (js ''report.pdf'') 2"
  have mb: "m \<in> {planManifest [witnessFile], FileBegin 0 (js ''report.pdf'') 2}" "b \<in> {planManifest [witnessFile], FileBegin 0 (js ''report.pdf'') 2}"
    by (simp_all add: m_def b_def)
  have size: "receiveQueueByteLength (taskData (ControlTask (Str (witnessText x)))) \<le> RECEIVE_QUEUE_MAX_BYTES" if "x \<in> {m, b}" for x
    using opened_size[OF witness_messages(2)[of x]] that by (auto simp: m_def b_def limit_defs)
  have frame: "receiveQueueByteLength (taskData (BulkTask witnessFrame)) \<le> RECEIVE_QUEUE_MAX_BYTES"
    using frame_decoded(3) by (simp add: sample_frame limit_defs)
  let ?idle = "\<lambda>w. \<not> rxFailed w \<and> \<not> rxCompleted w \<and> \<not> rxAllDoneSeen w \<and> rxAttached w \<and> rxControlOpen w \<and> rxQueue w = [] \<and> rxQueuedBytes w = 0
    \<and> rxQueuedMessages w = 0 \<and> rxEvents w = [] \<and> rxRandom w = witnessRandom \<and> rxSendFaults w = []"
  have step: "snd (runTask sampleSetup (snd (whenAttached (enqueueReceiveTask sampleSetup task) w))) = v\<lparr>rxQueuedBytes := 0, rxQueuedMessages := 0, rxQueue := []\<rparr>"
    if "?idle w" "receiveQueueByteLength (taskData task) \<le> RECEIVE_QUEUE_MAX_BYTES"
      "handleTask sampleSetup task (w\<lparr>rxQueuedBytes := receiveQueueByteLength (taskData task), rxQueuedMessages := 1, rxQueue := [task]\<rparr>) = (Inr (), v)"
      "rxQueue v = [task]" "rxQueuedBytes v = receiveQueueByteLength (taskData task)" "rxQueuedMessages v = 1" for task w v
    using that arrives[of w task sampleSetup] one_task[of _ task sampleSetup v] by simp
  define w0 where "w0 = sampleReceiver"
  have w0: "?idle w0" "rxManifest w0 = None" "rxFiles w0 = []" "rxFs w0 = witnessFs" by (simp_all add: w0_def sampleReceiver_def startReceive_def)
  define w1 where "w1 = snd (runTask sampleSetup (snd (whenAttached (enqueueReceiveTask sampleSetup (ControlTask (Str (witnessText m)))) w0)))"
  have "w1 = w0\<lparr>rxIdleTimer := True, rxManifest := Some m, rxExpected := [sendEntry witnessFile], rxTotalBytes := 2\<rparr>"
    unfolding w1_def using w0 size[of m]
    by (subst step[OF _ _ control_handled[OF mb(1) _ _ _ manifest_received[folded m_def]]]) (cases w0; simp)+
  then have w1: "?idle w1" "rxManifest w1 \<noteq> None" "rxExpected w1 = [sendEntry witnessFile]" "rxFiles w1 = []" "rxFs w1 = witnessFs" using w0 by simp_all
  define w2 where "w2 = snd (runTask sampleSetup (snd (whenAttached (enqueueReceiveTask sampleSetup (ControlTask (Str (witnessText b)))) w1)))"
  obtain t where "w2 = w1\<lparr>rxIdleTimer := True, rxFs := reservedFs, rxFiles := [begunFile], rxDrawn := Suc (rxDrawn w1), rxOutbox := rxOutbox w1 @ [(Ready 0 None None, t)]\<rparr>"
  proof -
    let ?u = "w1\<lparr>rxQueuedBytes := receiveQueueByteLength (taskData (ControlTask (Str (witnessText b)))), rxQueuedMessages := 1,
      rxQueue := [ControlTask (Str (witnessText b))], rxIdleTimer := True\<rparr>"
    from file_begun[of ?u, folded b_def] w1 obtain t where t: "receiveControl sampleSetup b ?u =
      (Inr (), ?u\<lparr>rxFs := reservedFs, rxFiles := [begunFile], rxDrawn := Suc (rxDrawn ?u), rxOutbox := rxOutbox ?u @ [(Ready 0 None None, t)]\<rparr>)" by auto
    have "w2 = w1\<lparr>rxIdleTimer := True, rxFs := reservedFs, rxFiles := [begunFile], rxDrawn := Suc (rxDrawn w1), rxOutbox := rxOutbox w1 @ [(Ready 0 None None, t)]\<rparr>"
      unfolding w2_def using w1 size[of b]
      by (subst step[OF _ _ control_handled[OF mb(2) _ _ _ t]]) (cases w1; simp)+
    then show thesis by (rule that)
  qed
  then have w2: "?idle w2" "rxFiles w2 = [begunFile]" "rxFs w2 = reservedFs" using w1 by simp_all
  define w3 where "w3 = snd (runTask sampleSetup (snd (whenAttached (enqueueReceiveTask sampleSetup (BulkTask witnessFrame)) w2)))"
  let ?f = "w2\<lparr>rxQueuedBytes := receiveQueueByteLength (taskData (BulkTask witnessFrame)), rxQueuedMessages := 1, rxQueue := [BulkTask witnessFrame]\<rparr>"
  obtain v where v: "handleTask sampleSetup (BulkTask witnessFrame) ?f = (Inr (), v)" "map rsHash (rxFiles v) = [[1, 2]]" "rxQueue v = rxQueue ?f"
    "rxQueuedBytes v = rxQueuedBytes ?f" "rxQueuedMessages v = rxQueuedMessages ?f"
    using frame_handled[of ?f] w2 by auto
  have w3: "map rsHash (rxFiles w3) = [[1, 2]]"
    unfolding w3_def using step[OF w2(1) frame v(1)] v(2-) by simp
  have "receiveRun sampleSetup sampleSteps sampleReceiver = w3"
    by (simp add: receiveRun_def sampleSteps_def w3_def w2_def w1_def w0_def m_def b_def del: handleTask.simps)
  with w3 show ?thesis by simp
qed

end
