(* ===== verification/WholeTransfer.thy ===== *)
theory WholeTransfer
  imports ReceiverWitness
begin

text \<open>
  Properties of a whole transfer: the sender with the answers of the receiver, and the receiver with the
  frames of the sender.
\<close>

section \<open>The sender and the answers of the receiver\<close>

text \<open>C8: \<open>sendFiles\<close> succeeds only after the receiver has acknowledged everything: when it returns, among
  the messages that reached the sender there are, for every file, a \<open>file-ok\<close> and, for the transfer,
  an \<open>all-done-ok\<close> that open under the session's control key.
\<close>

theorem send_acknowledged:
  assumes "returns (sendFiles S files) (startSend fs events random faults drains) () v"
  shows "(\<forall>f \<in> set files. \<exists>d. SenderMessage d \<in> set (concat events)
      \<and> andThen (openControl (sndCrypto S) (sndNumbers S) (sndKeys S) d) assertControlMessage = ok (FileOk (sendId f)))
    \<and> (\<exists>d. SenderMessage d \<in> set (concat events)
      \<and> andThen (openControl (sndCrypto S) (sndNumbers S) (sndKeys S) d) assertControlMessage = ok AllDoneOk)"
proof -
  have "senderInv (set (concat events)) (startSend fs events random faults drains)"
    by (simp add: senderInv_def startSend_def ackInv_new)
  moreover from assms obtain w where "returns (sendBody S files) (startSend fs events random faults drains) () w"
    unfolding sendFiles_def by (auto simp: run_simps)
  ultimately have h: "(\<forall>f \<in> set files. heard S (set (concat events)) (AckFileOk, Some (sendId f))) \<and> heard S (set (concat events)) (AckAllDoneOk, None)"
    using contractD(1)[OF body_heard] by blast
  have "m = FileOk i" if "ackMessage (AckFileOk, Some i) m" for m i using that by (cases m) auto
  moreover have "m = AllDoneOk" if "ackMessage (AckAllDoneOk, None) m" for m using that by (cases m) auto
  ultimately show ?thesis using h unfolding heard_def by metis
qed

theorem send_acknowledged_witness:
  "\<exists>v. returns (sendFiles witnessSetup [witnessFile]) witnessStart () v
    \<and> (\<forall>f \<in> set [witnessFile]. \<exists>d. SenderMessage d \<in> set (concat witnessEvents)
      \<and> andThen (openControl (sndCrypto witnessSetup) (sndNumbers witnessSetup) (sndKeys witnessSetup) d) assertControlMessage = ok (FileOk (sendId f)))
    \<and> (\<exists>d. SenderMessage d \<in> set (concat witnessEvents)
      \<and> andThen (openControl (sndCrypto witnessSetup) (sndNumbers witnessSetup) (sndKeys witnessSetup) d) assertControlMessage = ok AllDoneOk)"
proof -
  from witness_run obtain v where v: "returns (sendFiles witnessSetup [witnessFile]) witnessStart () v" by (auto simp: returns_def)
  with send_acknowledged[OF v[unfolded witnessStart_def]] show ?thesis by blast
qed

section \<open>The receiver and the frames of the sender\<close>



end
