(* ===== verification/Ice.thy ===== *)
theory Ice
  imports Messages
begin

text \<open>
  The copies of ICE server lists, \<open>src/src/shared/ice.ts\<close>, and the default list of
  \<open>src/src/shared/constants.ts\<close>. A list of unknown shape is read through its own property
  descriptors; a field that is an accessor throws. The copy is a list of typed servers, and
  \<open>iceServersValue\<close> is the value the program holds for it.
\<close>

section \<open>Own data properties that throw\<close>

text \<open>\<open>Object.getOwnPropertyDescriptor\<close> of a string key.\<close>

fun ownDescriptor :: "jsval \<Rightarrow> string \<Rightarrow> jsval pdesc option" where
  "ownDescriptor (Obj proto ps) key = map_of ps (KStr (js key))"
| "ownDescriptor (Arr es) key =
     (if key = ''length'' then Some (DataProp False (Number (NInt (int (length es))))) else None)"
| "ownDescriptor _ key = None"

fun descriptorValue :: "string \<Rightarrow> jsval pdesc option \<Rightarrow> jsval res" where
  "descriptorValue msg None = ok Undefined"
| "descriptorValue msg (Some (DataProp e v)) = ok v"
| "descriptorValue msg (Some (AccessorProp e)) = throw msg"

definition definedOr :: "string \<Rightarrow> jsval \<Rightarrow> jsval res" where
  "definedOr msg v = (if v = Undefined then throw msg else ok v)"

text \<open>\<open>typeof value === "object"\<close>, neither null nor an array.\<close>

fun isRecordValue :: "jsval \<Rightarrow> bool" where
  "isRecordValue (Obj proto ps) = True"
| "isRecordValue (Uint8Array c bs) = True"
| "isRecordValue (ArrayBuf c bs) = True"
| "isRecordValue _ = False"

fun mapOk :: "('a \<Rightarrow> 'b res) \<Rightarrow> 'a list \<Rightarrow> 'b list res" where
  "mapOk f [] = ok []"
| "mapOk f (x # xs) = andThen (f x) (\<lambda>y. andThen (mapOk f xs) (\<lambda>ys. ok (y # ys)))"

section \<open>Definitions\<close>

datatype IceUrls = OneUrl jsstring | UrlList "jsstring list"

record RTCIceServer =
  iceUrls :: IceUrls
  iceUsername :: "jsstring option"
  iceCredential :: "jsstring option"
  iceCredentialType :: "jsstring option"

definition DEFAULT_ICE_SERVERS :: jsval where
  "DEFAULT_ICE_SERVERS = jarr [jobj [(''urls'', Str (js ''stun:stun.l.google.com:19302''))],
     jobj [(''urls'', Str (js ''stun:stun.cloudflare.com:3478''))]]"

definition MAX_CLONED_ICE_SERVERS :: nat where [limit_defs]: "MAX_CLONED_ICE_SERVERS = 16"
definition MAX_CLONED_ICE_URLS_PER_SERVER :: nat where [limit_defs]: "MAX_CLONED_ICE_URLS_PER_SERVER = 8"
definition MAX_CLONED_ICE_URL_CHARS :: nat where [limit_defs]: "MAX_CLONED_ICE_URL_CHARS = 512"
definition MAX_CLONED_ICE_USERNAME_CHARS :: nat where [limit_defs]: "MAX_CLONED_ICE_USERNAME_CHARS = 1024"
definition MAX_CLONED_ICE_CREDENTIAL_CHARS :: nat where [limit_defs]: "MAX_CLONED_ICE_CREDENTIAL_CHARS = 1024"

text \<open>\<open>/[\p{Cc}\p{Cf}\s]/u.test(url)\<close>.\<close>

definition hasControlFormatOrSpace :: "jsstring \<Rightarrow> bool" where
  "hasControlFormatOrSpace s \<longleftrightarrow> list_ex (\<lambda>c. isControlOrFormat c \<or> isSpace c) (codePoints s)"

fun isCloneableIceUrl :: "urlParser \<Rightarrow> jsval \<Rightarrow> bool" where
  "isCloneableIceUrl url (Str u) =
     (\<not> (length u = 0 \<or> length u > MAX_CLONED_ICE_URL_CHARS \<or> hasControlFormatOrSpace u)
      \<and> (case iceUrlAuthority u of None \<Rightarrow> False | Some a \<Rightarrow> isValidAuthority url a))"
| "isCloneableIceUrl url _ = False"

definition cloneIceUrl :: "urlParser \<Rightarrow> jsval \<Rightarrow> jsstring res" where
  "cloneIceUrl url u = (if \<not> isCloneableIceUrl url u then throw ''ICE server URL is invalid.'' else ok (strValue u))"

definition isTurnIceUrl :: "jsstring \<Rightarrow> bool" where
  "isTurnIceUrl u \<longleftrightarrow> asciiFold (take 5 u) = js ''turn:'' \<or> asciiFold (take 6 u) = js ''turns:''"

fun isSafeBoundedNonEmptyString :: "jsval \<Rightarrow> nat \<Rightarrow> bool" where
  "isSafeBoundedNonEmptyString (Str s) maxChars = (length s > 0 \<and> length s \<le> maxChars \<and> \<not> hasControlOrFormat s)"
| "isSafeBoundedNonEmptyString _ maxChars = False"

definition optionalIceField :: "jsval \<Rightarrow> string \<Rightarrow> jsval res" where
  "optionalIceField v key = descriptorValue ''ICE server fields must be data properties.'' (ownDescriptor v key)"

definition iceElement :: "jsval pdesc option \<Rightarrow> jsval res" where
  "iceElement d = andThen (descriptorValue ''ICE server fields must be data properties.'' d) (definedOr ''ICE server is invalid.'')"

definition cloneIceUrlList :: "urlParser \<Rightarrow> jsval \<Rightarrow> jsstring list res" where
  "cloneIceUrlList url urls =
     (case urls of
        Arr es \<Rightarrow>
          if length es < 1 \<or> length es > MAX_CLONED_ICE_URLS_PER_SERVER then throw ''ICE server URL list is invalid.''
          else mapOk (\<lambda>d. andThen (iceElement d) (cloneIceUrl url)) es
      | _ \<Rightarrow> throw ''ICE server URL list is invalid.'')"

definition cloneIceUrls :: "urlParser \<Rightarrow> jsval \<Rightarrow> IceUrls res" where
  "cloneIceUrls url rawUrls =
     (case rawUrls of
        Str _ \<Rightarrow> andThen (cloneIceUrl url rawUrls) (\<lambda>u. ok (OneUrl u))
      | _ \<Rightarrow> andThen (cloneIceUrlList url rawUrls) (\<lambda>us. ok (UrlList us)))"

fun urlListOf :: "IceUrls \<Rightarrow> jsstring list" where
  "urlListOf (OneUrl u) = [u]"
| "urlListOf (UrlList us) = us"

definition checkIceCredentials :: "IceUrls \<Rightarrow> jsval \<Rightarrow> jsval \<Rightarrow> jsval \<Rightarrow> RTCIceServer res" where
  "checkIceCredentials urls uname credential credentialType =
     (let hasTurnUrl = list_ex isTurnIceUrl (urlListOf urls);
          hasNoCredential = (uname = Undefined \<and> credential = Undefined);
          hasCompleteCredential = (isSafeBoundedNonEmptyString uname MAX_CLONED_ICE_USERNAME_CHARS
            \<and> isSafeBoundedNonEmptyString credential MAX_CLONED_ICE_CREDENTIAL_CHARS) in
      if \<not> (hasNoCredential \<or> hasCompleteCredential) then throw ''ICE server credentials are invalid.''
      else if hasTurnUrl \<and> \<not> hasCompleteCredential then throw ''TURN ICE servers require credentials.''
      else if credentialType \<noteq> Undefined \<and> (credentialType \<noteq> Str (js ''password'') \<or> \<not> hasCompleteCredential)
      then throw ''ICE server credential type is invalid.''
      else ok \<lparr>iceUrls = urls, iceUsername = strOption uname, iceCredential = strOption credential,
        iceCredentialType = strOption credentialType\<rparr>)"

definition cloneIceServer :: "urlParser \<Rightarrow> jsval \<Rightarrow> RTCIceServer res" where
  "cloneIceServer url server =
     (if \<not> isRecordValue server then throw ''ICE server is invalid.''
      else andThen (iceElement (ownDescriptor server ''urls'')) (\<lambda>rawUrls.
           andThen (cloneIceUrls url rawUrls) (\<lambda>urls.
           andThen (optionalIceField server ''username'') (\<lambda>uname.
           andThen (optionalIceField server ''credential'') (\<lambda>credential.
           andThen (optionalIceField server ''credentialType'') (\<lambda>credentialType.
             checkIceCredentials urls uname credential credentialType))))))"

definition cloneIceServers :: "urlParser \<Rightarrow> jsval \<Rightarrow> RTCIceServer list res" where
  "cloneIceServers url servers =
     (case servers of
        Arr es \<Rightarrow>
          if length es > MAX_CLONED_ICE_SERVERS then throw ''ICE server list is invalid.''
          else mapOk (\<lambda>d. andThen (iceElement d) (cloneIceServer url)) es
      | _ \<Rightarrow> throw ''ICE server list is invalid.'')"

definition isRelayServer :: "RTCIceServer \<Rightarrow> bool" where
  "isRelayServer server \<longleftrightarrow>
     list_ex isTurnIceUrl (urlListOf (iceUrls server))
     \<and> (case iceUsername server of Some u \<Rightarrow> length u > 0 | None \<Rightarrow> False)
     \<and> (case iceCredential server of Some c \<Rightarrow> length c > 0 | None \<Rightarrow> False)"

definition hasRelayIceServer :: "urlParser \<Rightarrow> jsval \<Rightarrow> bool res" where
  "hasRelayIceServer url servers =
     andThen (cloneIceServers url servers) (\<lambda>cloned. ok (list_ex isRelayServer cloned))"

text \<open>The object of a copied server: a field is present only when it is set.\<close>

definition urlsValue :: "IceUrls \<Rightarrow> jsval" where
  "urlsValue urls = (case urls of OneUrl u \<Rightarrow> Str u | UrlList us \<Rightarrow> jarr (map Str us))"

definition fieldValue :: "string \<Rightarrow> jsstring option \<Rightarrow> (string \<times> jsval) list" where
  "fieldValue key v = (case v of None \<Rightarrow> [] | Some s \<Rightarrow> [(key, Str s)])"

definition iceServerValue :: "RTCIceServer \<Rightarrow> jsval" where
  "iceServerValue s = jobj ([(''urls'', urlsValue (iceUrls s))] @ fieldValue ''username'' (iceUsername s)
     @ fieldValue ''credential'' (iceCredential s) @ fieldValue ''credentialType'' (iceCredentialType s))"

definition iceServersValue :: "RTCIceServer list \<Rightarrow> jsval" where
  "iceServersValue servers = jarr (map iceServerValue servers)"


section \<open>Copies\<close>

lemma mapOk_ok_iff: "mapOk f xs = ok ys \<longleftrightarrow> list_all2 (\<lambda>x y. f x = ok y) xs ys"
  by (induction xs arbitrary: ys) (auto simp: list_all2_Cons1)

lemma mapOk_map [simp]: "mapOk f (map g xs) = mapOk (\<lambda>x. f (g x)) xs"
  by (induction xs) auto

lemma mapOk_id: "list_all (\<lambda>x. f x = ok x) xs \<Longrightarrow> mapOk f xs = ok xs"
  by (induction xs) auto

lemma mapOk_length: "mapOk f xs = ok ys \<Longrightarrow> length ys = length xs"
  by (auto simp: mapOk_ok_iff dest: list_all2_lengthD)

lemma mapOk_all: "mapOk f xs = ok ys \<Longrightarrow> (\<And>x y. x \<in> set xs \<Longrightarrow> f x = ok y \<Longrightarrow> P y) \<Longrightarrow> list_all P ys"
  by (induction xs arbitrary: ys) (simp, clarsimp, metis)

text \<open>What the copy of a server guarantees.\<close>

definition iceUrlOk :: "urlParser \<Rightarrow> jsstring \<Rightarrow> bool" where
  "iceUrlOk url u = isCloneableIceUrl url (Str u)"

definition wfIceServer :: "urlParser \<Rightarrow> RTCIceServer \<Rightarrow> bool" where
  "wfIceServer url s \<longleftrightarrow>
     list_all (iceUrlOk url) (urlListOf (iceUrls s))
     \<and> 1 \<le> length (urlListOf (iceUrls s)) \<and> length (urlListOf (iceUrls s)) \<le> MAX_CLONED_ICE_URLS_PER_SERVER
     \<and> (case (iceUsername s, iceCredential s) of
          (None, None) \<Rightarrow> \<not> list_ex isTurnIceUrl (urlListOf (iceUrls s)) \<and> iceCredentialType s = None
        | (Some u, Some c) \<Rightarrow> isSafeBoundedNonEmptyString (Str u) MAX_CLONED_ICE_USERNAME_CHARS
            \<and> isSafeBoundedNonEmptyString (Str c) MAX_CLONED_ICE_CREDENTIAL_CHARS
            \<and> (iceCredentialType s = None \<or> iceCredentialType s = Some (js ''password''))
        | _ \<Rightarrow> False)"

lemma isSafeBoundedNonEmptyString_Str: "isSafeBoundedNonEmptyString v n \<Longrightarrow> \<exists>s. v = Str s"
  by (cases v) auto

lemma cloneIceUrl_ok: "cloneIceUrl url v = ok u \<longleftrightarrow> v = Str u \<and> iceUrlOk url u"
  by (cases v) (auto simp: cloneIceUrl_def iceUrlOk_def)

lemma cloneIceUrls_ok:
  assumes "cloneIceUrls url v = ok urls"
  shows "list_all (iceUrlOk url) (urlListOf urls)" "1 \<le> length (urlListOf urls)"
    "length (urlListOf urls) \<le> MAX_CLONED_ICE_URLS_PER_SERVER"
proof -
  consider u where "urls = OneUrl u" "iceUrlOk url u"
    | es us where "urls = UrlList us" "mapOk (\<lambda>d. andThen (iceElement d) (cloneIceUrl url)) es = ok us"
      "es \<noteq> []" "\<not> MAX_CLONED_ICE_URLS_PER_SERVER < length es"
    using assms by (auto simp: cloneIceUrls_def cloneIceUrlList_def cloneIceUrl_ok split: jsval.splits if_splits)
  then have "list_all (iceUrlOk url) (urlListOf urls) \<and> 1 \<le> length (urlListOf urls)
    \<and> length (urlListOf urls) \<le> MAX_CLONED_ICE_URLS_PER_SERVER"
  proof cases
    case 1 then show ?thesis by (simp add: MAX_CLONED_ICE_URLS_PER_SERVER_def)
  next
    case 2
    then have "list_all (iceUrlOk url) us" "length us = length es"
      by (auto simp: cloneIceUrl_ok dest: mapOk_length elim!: mapOk_all)
    with 2 show ?thesis by (cases us) auto
  qed
  then show "list_all (iceUrlOk url) (urlListOf urls)" "1 \<le> length (urlListOf urls)"
    "length (urlListOf urls) \<le> MAX_CLONED_ICE_URLS_PER_SERVER" by auto
qed

lemma checkIceCredentials_ok:
  assumes "checkIceCredentials urls u c t = ok s" "list_all (iceUrlOk url) (urlListOf urls)"
    "1 \<le> length (urlListOf urls)" "length (urlListOf urls) \<le> MAX_CLONED_ICE_URLS_PER_SERVER"
  shows "wfIceServer url s"
proof (cases "u = Undefined \<and> c = Undefined")
  case True
  with assms show ?thesis by (auto simp: checkIceCredentials_def Let_def wfIceServer_def split: if_splits)
next
  case False
  with assms(1) obtain us cs where "u = Str us" "c = Str cs"
    by (auto simp: checkIceCredentials_def Let_def split: if_splits dest!: isSafeBoundedNonEmptyString_Str)
  with assms show ?thesis by (auto simp: checkIceCredentials_def Let_def wfIceServer_def split: if_splits)
qed

lemma cloneIceServer_wf: "cloneIceServer url v = ok s \<Longrightarrow> wfIceServer url s"
  by (auto simp: cloneIceServer_def split: if_splits intro!: checkIceCredentials_ok dest: cloneIceUrls_ok)

lemma cloneIceServers_wf:
  assumes "cloneIceServers url v = ok servers"
  shows "list_all (wfIceServer url) servers" "length servers \<le> MAX_CLONED_ICE_SERVERS"
  using assms by (auto simp: cloneIceServers_def split: jsval.splits if_splits elim!: mapOk_all
      dest: mapOk_length cloneIceServer_wf)

text \<open>Copying a copy changes nothing.\<close>

lemma cloneIceUrls_value:
  assumes "list_all (iceUrlOk url) (urlListOf urls)" "1 \<le> length (urlListOf urls)"
    "length (urlListOf urls) \<le> MAX_CLONED_ICE_URLS_PER_SERVER"
  shows "cloneIceUrls url (urlsValue urls) = ok urls"
proof (cases urls)
  case (OneUrl u)
  then show ?thesis using assms by (simp add: urlsValue_def cloneIceUrls_def cloneIceUrl_ok)
next
  case (UrlList us)
  have "mapOk (\<lambda>u. cloneIceUrl url (Str u)) us = ok us"
    using assms UrlList by (intro mapOk_id) (simp add: list_all_iff cloneIceUrl_ok)
  then show ?thesis using assms UrlList
    by (auto simp: urlsValue_def cloneIceUrls_def cloneIceUrlList_def jarr_def iceElement_def definedOr_def)
qed

lemma ownDescriptor_jobj: "ownDescriptor (jobj kvs) key = map_option (DataProp True) (map_of kvs key)"
  by (simp add: jobj_def map_of_jobj)

lemma fieldValue_of:
  "descriptorValue m (ownDescriptor (iceServerValue s) ''urls'') = ok (urlsValue (iceUrls s))"
  "descriptorValue m (ownDescriptor (iceServerValue s) ''username'') = ok (case iceUsername s of None \<Rightarrow> Undefined | Some u \<Rightarrow> Str u)"
  "descriptorValue m (ownDescriptor (iceServerValue s) ''credential'') = ok (case iceCredential s of None \<Rightarrow> Undefined | Some u \<Rightarrow> Str u)"
  "descriptorValue m (ownDescriptor (iceServerValue s) ''credentialType'') = ok (case iceCredentialType s of None \<Rightarrow> Undefined | Some u \<Rightarrow> Str u)"
  by (simp_all add: iceServerValue_def ownDescriptor_jobj fieldValue_def split: option.split)

lemma urlsValue_defined: "urlsValue u \<noteq> Undefined"
  by (simp add: urlsValue_def jarr_def split: IceUrls.split)

lemma isRecordValue_server [simp]: "isRecordValue (iceServerValue s)"
  by (simp add: iceServerValue_def jobj_def)

lemma cloneIceServer_value: "wfIceServer url s \<Longrightarrow> cloneIceServer url (iceServerValue s) = ok s"
  by (cases s) (auto simp: cloneIceServer_def iceElement_def optionalIceField_def fieldValue_of definedOr_def urlsValue_defined
      cloneIceUrls_value wfIceServer_def checkIceCredentials_def Let_def split: option.splits)

lemma cloneIceServers_value:
  assumes "list_all (wfIceServer url) servers" "length servers \<le> MAX_CLONED_ICE_SERVERS"
  shows "cloneIceServers url (iceServersValue servers) = ok servers"
proof -
  have "mapOk (\<lambda>x. cloneIceServer url (iceServerValue x)) servers = ok servers"
    using assms by (intro mapOk_id) (auto simp: list_all_iff cloneIceServer_value)
  moreover have "iceServerValue x \<noteq> Undefined" for x by (simp add: iceServerValue_def jobj_def)
  ultimately show ?thesis using assms(2) by (simp add: cloneIceServers_def iceServersValue_def jarr_def iceElement_def definedOr_def)
qed

section \<open>Agreement with the validators of messages\<close>

lemma iceUrlOk_isIceUrl: "iceUrlOk url u \<Longrightarrow> isIceUrl url (Str u)"
  by (auto simp: iceUrlOk_def isSafeBoundedString_def hasControlFormatOrSpace_def hasControlOrFormat_def list_ex_iff limit_defs)

lemma isTurnUrl_Str: "isTurnUrl (Str u) = isTurnIceUrl u"
  by (simp add: isTurnIceUrl_def)

lemma ownDataValue_fields:
  "ownDataValue (iceServerValue s) ''urls'' = urlsValue (iceUrls s)"
  "ownDataValue (iceServerValue s) ''username'' = (case iceUsername s of None \<Rightarrow> Undefined | Some u \<Rightarrow> Str u)"
  "ownDataValue (iceServerValue s) ''credential'' = (case iceCredential s of None \<Rightarrow> Undefined | Some u \<Rightarrow> Str u)"
  "ownDataValue (iceServerValue s) ''credentialType'' = (case iceCredentialType s of None \<Rightarrow> Undefined | Some u \<Rightarrow> Str u)"
  by (simp_all add: iceServerValue_def fieldValue_def split: option.split)

lemma hasOnlyKeys_server: "hasOnlyKeys (iceServerValue s) [''urls'', ''username'', ''credential'', ''credentialType'']"
  by (simp add: iceServerValue_def fieldValue_def split: option.split)

lemma isObject_server: "isObject (iceServerValue s)"
  by (simp add: iceServerValue_def)

lemma safe_strings_agree: "isSafeNonEmptyBoundedString v n = isSafeBoundedNonEmptyString v n"
  by (cases v) (auto simp: isSafeNonEmptyBoundedString_def isSafeBoundedString_def)

lemma urlsValue_list:
  "(case urlsValue urls of Str u \<Rightarrow> Some [urlsValue urls] | Arr es \<Rightarrow> ownDataArrayValues es | _ \<Rightarrow> None)
    = Some (map Str (urlListOf urls))"
  by (cases urls) (auto simp: urlsValue_def jarr_def ownDataArrayValues_def Let_def comp_def)

lemma wfIceServer_isIceServer: "wfIceServer url s \<Longrightarrow> isIceServer url (iceServerValue s)"
  unfolding isIceServer_def Let_def ownDataValue_fields urlsValue_list
  by (cases "iceUsername s"; cases "iceCredential s"; cases "iceCredentialType s")
    (auto simp: isObject_server hasOnlyKeys_server safe_strings_agree wfIceServer_def list_all_iff list_ex_iff isTurnUrl_Str
      iceUrlOk_isIceUrl limit_defs simp del: isIceUrl.simps isTurnUrl.simps isSafeBoundedNonEmptyString.simps)

lemma clones_are_ice_servers:
  assumes "list_all (wfIceServer url) servers" "servers \<noteq> []" "length servers \<le> MAX_ICE_SERVERS"
  shows "isIceServers url (iceServersValue servers)"
proof -
  have "iceServerValue s \<noteq> Undefined" for s by (simp add: iceServerValue_def jobj_def)
  with assms show ?thesis by (auto simp: isIceServers_def iceServersValue_def jarr_def list_all_iff wfIceServer_isIceServer)
qed

end
