(* ===== verification/RequestHeaders.thy ===== *)
theory RequestHeaders
  imports Ice Json
begin

text \<open>
  Reading an HTTP request, \<open>src/src/server/request-headers.ts\<close>: raw headers, host and origin,
  the request URL, and the address of the client behind trusted proxies. The request is a value
  of unknown shape, read through its own properties. \<open>isIP\<close> of Node is spelled out; the address
  sets of \<open>net.BlockList\<close> and the URL parser are parameters.
\<close>

section \<open>IP addresses\<close>

text \<open>A group of an IPv6 address, and the zone after \<open>%\<close>.\<close>

definition ipv6Group :: "jsstring \<Rightarrow> bool" where
  "ipv6Group s \<longleftrightarrow> hexDigits s \<and> length s \<le> 4"

definition ipv6Zone :: "jsstring \<Rightarrow> bool" where
  "ipv6Zone s \<longleftrightarrow> s \<noteq> [] \<and> list_all (\<lambda>c. isAlnum c \<or> c \<in> {45, 46, 58}) s"

text \<open>The number of groups that the parts between colons stand for, a final dotted address
  counting as two; \<open>None\<close> when a part is no group.\<close>

fun ipv6Groups :: "jsstring list \<Rightarrow> nat option" where
  "ipv6Groups [] = Some 0"
| "ipv6Groups [p] = (if ipv6Group p then Some 1 else if isStrictDottedIpv4 p then Some 2 else None)"
| "ipv6Groups (p # ps) = (if ipv6Group p then map_option Suc (ipv6Groups ps) else None)"

text \<open>The parts before and after the first \<open>::\<close>.\<close>

fun splitDouble :: "jsstring \<Rightarrow> (jsstring \<times> jsstring) option" where
  "splitDouble (a # b # s) =
     (if a = 58 \<and> b = 58 then Some ([], s) else map_option (\<lambda>(l, r). (a # l, r)) (splitDouble (b # s)))"
| "splitDouble _ = None"

definition colonParts :: "jsstring \<Rightarrow> jsstring list" where
  "colonParts s = (if s = [] then [] else splitAt 58 s)"

definition ipv6Body :: "jsstring \<Rightarrow> bool" where
  "ipv6Body s =
     (case splitDouble s of
        None \<Rightarrow> ipv6Groups (colonParts s) = Some 8
      | Some (l, r) \<Rightarrow>
          list_all ipv6Group (colonParts l)
          \<and> (case ipv6Groups (colonParts r) of None \<Rightarrow> False | Some n \<Rightarrow> length (colonParts l) + n \<le> 7))"

definition isIPv6 :: "jsstring \<Rightarrow> bool" where
  "isIPv6 s =
     (case indexOf 37 s of
        None \<Rightarrow> ipv6Body s
      | Some i \<Rightarrow> ipv6Body (take i s) \<and> ipv6Zone (drop (Suc i) s))"

definition isIP :: "jsstring \<Rightarrow> nat" where
  "isIP s = (if isStrictDottedIpv4 s then 4 else if isIPv6 s then 6 else 0)"

text \<open>The group of \<open>/^::ffff:(\d{1,3}(?:\.\d{1,3}){3})$/i\<close>.\<close>

definition mappedIpv4 :: "jsstring \<Rightarrow> jsstring option" where
  "mappedIpv4 address =
     (let rest = drop 7 address; parts = splitAt 46 rest in
      if asciiFold (take 7 address) = js ''::ffff:'' \<and> length parts = 4 \<and> list_all (\<lambda>p. digits p \<and> length p \<le> 3) parts
      then Some rest else None)"

definition normalizeIpLiteral :: "jsstring \<Rightarrow> jsstring" where
  "normalizeIpLiteral address = (case mappedIpv4 address of Some inner \<Rightarrow> inner | None \<Rightarrow> address)"

section \<open>Raw headers\<close>

definition MAX_RAW_HEADER_NAME_CHARS :: nat where [limit_defs]: "MAX_RAW_HEADER_NAME_CHARS = 64"
definition MAX_HOST_HEADER_CHARS :: nat where [limit_defs]: "MAX_HOST_HEADER_CHARS = 255"
definition MAX_ORIGIN_HEADER_BYTES :: nat where [limit_defs]: "MAX_ORIGIN_HEADER_BYTES = 2048"
definition MAX_REMOTE_ADDRESS_CHARS :: nat where [limit_defs]: "MAX_REMOTE_ADDRESS_CHARS = 45"
definition MAX_X_FORWARDED_FOR_BYTES :: nat where [limit_defs]: "MAX_X_FORWARDED_FOR_BYTES = 2048"
definition MAX_X_FORWARDED_FOR_HOPS :: nat where [limit_defs]: "MAX_X_FORWARDED_FOR_HOPS = 32"
definition MAX_REQUEST_TARGET_BYTES :: nat where [limit_defs]: "MAX_REQUEST_TARGET_BYTES = 8192"

text \<open>An accessor reads as null; the second function turns null into undefined.\<close>

definition optionalOwnDataValue :: "jsval \<Rightarrow> string \<Rightarrow> jsval" where
  "optionalOwnDataValue v key =
     (case ownDescriptor v key of None \<Rightarrow> Undefined | Some (DataProp e x) \<Rightarrow> x | Some (AccessorProp e) \<Rightarrow> Null)"

definition requestDataValue :: "jsval \<Rightarrow> string \<Rightarrow> jsval" where
  "requestDataValue v key = (let data = optionalOwnDataValue v key in if data = Null then Undefined else data)"

definition rawHeaderNameChar :: "nat \<Rightarrow> bool" where
  "rawHeaderNameChar c \<longleftrightarrow> isAlnum c \<or> c \<in> {33, 35, 36, 37, 38, 39, 42, 43, 45, 46, 94, 95, 96, 124, 126}"

definition isRawHeaderName :: "jsstring \<Rightarrow> bool" where
  "isRawHeaderName s \<longleftrightarrow> length s > 0 \<and> length s \<le> MAX_RAW_HEADER_NAME_CHARS \<and> list_all rawHeaderNameChar s"

fun headerPairs :: "jsval list \<Rightarrow> (jsstring \<times> jsstring) list option" where
  "headerPairs [] = Some []"
| "headerPairs (Str n # Str v # rest) = (if \<not> isRawHeaderName n then None else map_option ((#) (n, v)) (headerPairs rest))"
| "headerPairs _ = None"

definition rawHeaderPairs :: "jsval \<Rightarrow> (jsstring \<times> jsstring) list option" where
  "rawHeaderPairs req =
     (case requestDataValue req ''rawHeaders'' of
        Arr es \<Rightarrow>
          if length es mod 2 \<noteq> 0 \<or> length es > HTTP_MAX_HEADERS_COUNT * 2 then None
          else headerPairs (map dataValue es)
      | _ \<Rightarrow> None)"

text \<open>\<open>null\<close>, \<open>undefined\<close> or a string.\<close>

datatype HeaderValue = HeaderInvalid | HeaderAbsent | HeaderText jsstring

fun headerLookup :: "(jsstring \<times> jsstring) list \<Rightarrow> jsstring \<Rightarrow> HeaderValue \<Rightarrow> HeaderValue" where
  "headerLookup [] name value = value"
| "headerLookup ((rawName, rawValue) # rest) name value =
     (if toLowerCase rawName \<noteq> name then headerLookup rest name value
      else if value \<noteq> HeaderAbsent then HeaderInvalid
      else headerLookup rest name (HeaderText rawValue))"

definition rawHeaderValue :: "jsval \<Rightarrow> string \<Rightarrow> HeaderValue" where
  "rawHeaderValue req name =
     (case rawHeaderPairs req of None \<Rightarrow> HeaderInvalid | Some pairs \<Rightarrow> headerLookup pairs (js name) HeaderAbsent)"

section \<open>Host, origin, URL and method\<close>

definition unsafeHostHeaderChar :: "nat \<Rightarrow> bool" where
  "unsafeHostHeaderChar c \<longleftrightarrow> isControlOrFormat c \<or> isSpace c \<or> c \<in> {44, 47, 92, 64}"

definition containsScheme :: "jsstring \<Rightarrow> bool" where
  "containsScheme s \<longleftrightarrow> list_ex (\<lambda>i. take 3 (drop i s) = js ''://'') [0..<length s]"

definition isValidHostHeader :: "urlParser \<Rightarrow> jsstring \<Rightarrow> bool" where
  "isValidHostHeader url host \<longleftrightarrow>
     (if length host = 0 \<or> length host > MAX_HOST_HEADER_CHARS then False
      else if containsScheme host \<or> list_ex unsafeHostHeaderChar (codePoints host) then False
      else isValidAuthority url host)"

definition unsafeOriginChar :: "nat \<Rightarrow> bool" where
  "unsafeOriginChar c \<longleftrightarrow> isControlOrFormat c \<or> isSpace c \<or> c = 44"

definition originTextAllowed :: "jsstring \<Rightarrow> bool" where
  "originTextAllowed s \<longleftrightarrow>
     \<not> (length s = 0 \<or> length s > MAX_ORIGIN_HEADER_BYTES \<or> utf8ByteLengthExceeds s MAX_ORIGIN_HEADER_BYTES
        \<or> list_ex unsafeOriginChar (codePoints s))"

definition isValidOriginHeader :: "urlParser \<Rightarrow> jsstring \<Rightarrow> bool" where
  "isValidOriginHeader url s \<longleftrightarrow>
     originTextAllowed s
     \<and> (case url s of
          None \<Rightarrow> False
        | Some parsed \<Rightarrow>
            (protocol parsed = js ''http:'' \<or> protocol parsed = js ''https:'')
            \<and> origin parsed = s \<and> urlUsername parsed = [] \<and> urlPassword parsed = []
            \<and> urlPort parsed \<noteq> js ''0'' \<and> pathname parsed = js ''/''
            \<and> urlSearch parsed = [] \<and> urlHash parsed = [] \<and> isValidOriginHostname url (hostname parsed))"

definition requestOriginHeader :: "urlParser \<Rightarrow> jsval \<Rightarrow> HeaderValue" where
  "requestOriginHeader url req =
     (case rawHeaderValue req ''origin'' of
        HeaderText s \<Rightarrow> if isValidOriginHeader url s then HeaderText s else HeaderInvalid
      | other \<Rightarrow> other)"

definition requestHostAuthority :: "urlParser \<Rightarrow> jsval \<Rightarrow> jsstring option" where
  "requestHostAuthority url req =
     (case rawHeaderValue req ''host'' of
        HeaderText s \<Rightarrow> if isValidHostHeader url s then Some s else None
      | _ \<Rightarrow> None)"

definition requestBaseUrl :: "urlParser \<Rightarrow> jsval \<Rightarrow> jsstring option" where
  "requestBaseUrl url req = map_option (\<lambda>host. js ''http://'' @ host) (requestHostAuthority url req)"

definition isOriginFormTarget :: "jsstring \<Rightarrow> bool" where
  "isOriginFormTarget target \<longleftrightarrow>
     length target > 0 \<and> length target \<le> MAX_REQUEST_TARGET_BYTES \<and> \<not> utf8ByteLengthExceeds target MAX_REQUEST_TARGET_BYTES
     \<and> startsWith target (js ''/'') \<and> \<not> startsWith target (js ''//'')
     \<and> \<not> list_ex (\<lambda>c. isControlOrFormat c \<or> c = 32 \<or> c = 92) (codePoints target)"

definition requestUrl :: "urlParser \<Rightarrow> (jsstring \<Rightarrow> jsstring \<Rightarrow> UrlParts option) \<Rightarrow> jsval \<Rightarrow> UrlParts option" where
  "requestUrl url urlWithBase req =
     (let targetValue = optionalOwnDataValue req ''url'';
          target = (if targetValue = Undefined then Str (js ''/'') else targetValue) in
      if targetValue = Null then None
      else case (requestBaseUrl url req, target) of
        (Some baseUrl, Str t) \<Rightarrow> if isOriginFormTarget t then urlWithBase t baseUrl else None
      | _ \<Rightarrow> None)"

definition requestMethod :: "jsval \<Rightarrow> jsstring option" where
  "requestMethod req = strOption (requestDataValue req ''method'')"

definition requestHasForwardedHeaderEvidence :: "jsval \<Rightarrow> bool" where
  "requestHasForwardedHeaderEvidence req \<longleftrightarrow>
     rawHeaderValue req ''forwarded'' \<noteq> HeaderAbsent \<or> rawHeaderValue req ''x-forwarded-for'' \<noteq> HeaderAbsent
     \<or> rawHeaderValue req ''x-forwarded-host'' \<noteq> HeaderAbsent \<or> rawHeaderValue req ''x-forwarded-proto'' \<noteq> HeaderAbsent"

section \<open>The address of the client\<close>

definition normalizeRemoteAddress :: "jsstring \<Rightarrow> jsstring option" where
  "normalizeRemoteAddress address =
     (if length address = 0 \<or> length address > MAX_REMOTE_ADDRESS_CHARS \<or> hasControlFormatOrSpace address then None
      else let normalized = normalizeIpLiteral address in if isIP normalized = 0 then None else Some normalized)"

definition requestSocketRemoteAddress :: "jsval \<Rightarrow> jsstring" where
  "requestSocketRemoteAddress req =
     (let socket = requestDataValue req ''socket'' in
      if \<not> isRecordValue socket then js ''unknown''
      else case requestDataValue socket ''remoteAddress'' of
        Str a \<Rightarrow> (case normalizeRemoteAddress a of Some n \<Rightarrow> n | None \<Rightarrow> js ''unknown'')
      | _ \<Rightarrow> js ''unknown'')"

definition forwardedIp :: "jsstring \<Rightarrow> jsstring option" where
  "forwardedIp s =
     (if length s = 0 \<or> length s > 45 then None
      else let normalized = normalizeIpLiteral s in if isIP normalized = 0 then None else Some normalized)"

definition isValidForwardedIp :: "jsstring \<Rightarrow> bool" where
  "isValidForwardedIp s \<longleftrightarrow> forwardedIp s \<noteq> None"

definition isValidForwardedForHeader :: "jsstring \<Rightarrow> bool" where
  "isValidForwardedForHeader s \<longleftrightarrow>
     \<not> (length s = 0 \<or> length s > MAX_X_FORWARDED_FOR_BYTES \<or> utf8ByteLengthExceeds s MAX_X_FORWARDED_FOR_BYTES
        \<or> hasControlOrFormat s)
     \<and> (let hops = splitAt 44 s in
        \<not> (length hops = 0 \<or> length hops > MAX_X_FORWARDED_FOR_HOPS) \<and> list_all (\<lambda>hop. isValidForwardedIp (trim hop)) hops)"

definition requestForwardedClientAddress :: "jsval \<Rightarrow> nat \<Rightarrow> jsstring option" where
  "requestForwardedClientAddress req trustedProxyHops =
     (case rawHeaderValue req ''x-forwarded-for'' of
        HeaderText forwardedFor \<Rightarrow>
          if \<not> isValidForwardedForHeader forwardedFor then None
          else
            let hops = map trim (splitAt 44 forwardedFor) in
            if length hops < trustedProxyHops then None
            else forwardedIp (hops ! (length hops - trustedProxyHops))
      | _ \<Rightarrow> None)"

definition trustedProxyHopsInput :: "jsval \<Rightarrow> nat" where
  "trustedProxyHopsInput v = (case v of Number (NInt i) \<Rightarrow> if 0 \<le> i \<and> i \<le> 3 then nat i else 0 | _ \<Rightarrow> 0)"

text \<open>What \<open>addAddress\<close> and \<open>addSubnet\<close> add to a \<open>BlockList\<close>, with the family of the address.\<close>

datatype ProxyRule = AddressRule jsstring nat | SubnetRule jsstring nat nat

type_synonym blockList = "ProxyRule list \<Rightarrow> jsstring \<Rightarrow> nat \<Rightarrow> bool"

text \<open>\<open>Number(text)\<close>: a run of digits has its value, other texts theirs.\<close>

definition numberOfText :: "NumberFormat \<Rightarrow> jsstring \<Rightarrow> jsnum" where
  "numberOfText nf t =
     (if digits t \<and> int (decValue t) \<le> MAX_SAFE_INTEGER then NInt (int (decValue t)) else otherValue nf t)"

definition trustedProxyRule :: "NumberFormat \<Rightarrow> jsstring \<Rightarrow> ProxyRule option" where
  "trustedProxyRule nf source =
     (case indexOf 47 source of
        None \<Rightarrow>
          (let address = normalizeIpLiteral source in
           if isIP address = 0 then None else Some (AddressRule address (isIP address)))
      | Some slash \<Rightarrow>
          if 47 \<in> set (drop (Suc slash) source) then None
          else
            let address = normalizeIpLiteral (take slash source); family = isIP address;
                maxPrefix = (if family = 4 then 32 else 128) in
            (case numberOfText nf (drop (Suc slash) source) of
               NInt prefix \<Rightarrow>
                 if family = 0 \<or> prefix \<le> 0 \<or> prefix > maxPrefix then None
                 else Some (SubnetRule address (nat prefix) family)
             | _ \<Rightarrow> None))"

fun trustedProxyRules :: "NumberFormat \<Rightarrow> jsval list \<Rightarrow> ProxyRule list option" where
  "trustedProxyRules nf [] = Some []"
| "trustedProxyRules nf (Str source # rest) =
     (case trustedProxyRule nf source of
        None \<Rightarrow> None
      | Some rule \<Rightarrow> map_option ((#) rule) (trustedProxyRules nf rest))"
| "trustedProxyRules nf _ = None"

definition trustedProxyMatches :: "NumberFormat \<Rightarrow> blockList \<Rightarrow> jsstring \<Rightarrow> jsval \<Rightarrow> bool" where
  "trustedProxyMatches nf check socketAddress trustedProxyIps =
     (case trustedProxyIps of
        Arr es \<Rightarrow>
          if length es = 0 \<or> length es > 32 then False
          else
            let normalized = normalizeIpLiteral socketAddress; socketFamily = isIP normalized in
            if socketFamily = 0 then False
            else (case trustedProxyRules nf (map dataValue es) of
                    None \<Rightarrow> False
                  | Some rules \<Rightarrow> check rules normalized socketFamily)
      | _ \<Rightarrow> False)"

definition requestRemoteAddress :: "NumberFormat \<Rightarrow> blockList \<Rightarrow> jsval \<Rightarrow> jsval \<Rightarrow> jsval \<Rightarrow> jsstring" where
  "requestRemoteAddress nf check req trustedProxyHops trustedProxyIps =
     (let socketAddress = requestSocketRemoteAddress req; hops = trustedProxyHopsInput trustedProxyHops in
      if hops = 0 \<or> \<not> trustedProxyMatches nf check socketAddress trustedProxyIps then socketAddress
      else case requestForwardedClientAddress req hops of Some a \<Rightarrow> a | None \<Rightarrow> socketAddress)"


section \<open>Properties\<close>

definition clientAddress :: "jsstring \<Rightarrow> bool" where
  "clientAddress a \<longleftrightarrow> a = js ''unknown'' \<or> isIP a \<noteq> 0"

lemma socket_address: "clientAddress (requestSocketRemoteAddress req)"
  by (auto simp: clientAddress_def requestSocketRemoteAddress_def normalizeRemoteAddress_def Let_def
      split: jsval.splits option.splits if_splits)

lemma forwardedIp_address: "forwardedIp s = Some a \<Longrightarrow> isIP a \<noteq> 0"
  by (auto simp: forwardedIp_def Let_def split: if_splits)

lemma forwarded_hop:
  assumes "requestForwardedClientAddress req n = Some a"
  obtains h where "rawHeaderValue req ''x-forwarded-for'' = HeaderText h" "n \<le> length (splitAt 44 h)"
    "forwardedIp (map trim (splitAt 44 h) ! (length (splitAt 44 h) - n)) = Some a"
  using assms that by (auto simp: requestForwardedClientAddress_def Let_def split: HeaderValue.splits if_splits)

text \<open>An entry of the header names an address: it is the address itself, or an IPv4 address behind the
  prefix of a mapped IPv6 address.\<close>

definition namesAddress :: "jsstring \<Rightarrow> jsstring \<Rightarrow> bool" where
  "namesAddress entry a \<longleftrightarrow> entry = a \<or> (\<exists>p. entry = p @ a \<and> asciiFold p = js ''::ffff:'')"

text \<open>Each proxy on the way appends one entry, so the last \<open>n\<close> entries are those of the \<open>n\<close> trusted
  proxies, and the first of these \<open>n\<close> names the peer of the outermost of them. What stands before is
  the client's own; a header with fewer than \<open>n\<close> entries names nobody.\<close>

definition appendedByProxies :: "nat \<Rightarrow> jsstring \<Rightarrow> jsstring \<Rightarrow> bool" where
  "appendedByProxies n h a \<longleftrightarrow>
     (\<exists>client entry appended. splitAt 44 h = client @ entry # appended \<and> Suc (length appended) = n
        \<and> namesAddress (trim entry) a)"

lemma forwardedIp_names: "forwardedIp s = Some a \<Longrightarrow> namesAddress s a"
  using append_take_drop_id[of 7 s]
  by (auto simp: forwardedIp_def normalizeIpLiteral_def mappedIpv4_def namesAddress_def Let_def
      split: if_splits option.splits)

lemma hop_from_right:
  assumes "0 < n" "n \<le> length hops"
  obtains client entry appended where "hops = client @ entry # appended" "Suc (length appended) = n"
    "hops ! (length hops - n) = entry"
proof -
  let ?i = "length hops - n"
  have "?i < length hops" "length (drop (Suc ?i) hops) = n - 1" using assms by auto
  then show thesis using assms(1) that[of "take ?i hops" "hops ! ?i" "drop (Suc ?i) hops"] by (simp add: id_take_nth_drop)
qed

lemma forwarded_appended:
  assumes "requestForwardedClientAddress req n = Some a" "0 < n"
  shows "\<exists>h. rawHeaderValue req ''x-forwarded-for'' = HeaderText h \<and> appendedByProxies n h a" "clientAddress a"
proof -
  obtain h where h: "rawHeaderValue req ''x-forwarded-for'' = HeaderText h" "n \<le> length (splitAt 44 h)"
    "forwardedIp (map trim (splitAt 44 h) ! (length (splitAt 44 h) - n)) = Some a" by (rule forwarded_hop[OF assms(1)])
  obtain client entry appended where hop: "splitAt 44 h = client @ entry # appended" "Suc (length appended) = n"
    "splitAt 44 h ! (length (splitAt 44 h) - n) = entry" by (rule hop_from_right[OF assms(2) h(2)])
  have "forwardedIp (trim entry) = Some a" using h(2,3) hop(3) assms(2) by simp
  then have "appendedByProxies n h a" using hop(1,2) unfolding appendedByProxies_def by (blast intro: forwardedIp_names)
  with h show "\<exists>h. rawHeaderValue req ''x-forwarded-for'' = HeaderText h \<and> appendedByProxies n h a" "clientAddress a"
    by (auto simp: clientAddress_def dest: forwardedIp_address)
qed

lemma remote_address_cases:
  obtains (socket) "requestRemoteAddress nf check req hops ips = requestSocketRemoteAddress req"
  | (forwarded) "0 < trustedProxyHopsInput hops" "trustedProxyMatches nf check (requestSocketRemoteAddress req) ips"
      "requestForwardedClientAddress req (trustedProxyHopsInput hops) = Some (requestRemoteAddress nf check req hops ips)"
  by (cases "requestForwardedClientAddress req (trustedProxyHopsInput hops)";
      cases "trustedProxyHopsInput hops = 0 \<or> \<not> trustedProxyMatches nf check (requestSocketRemoteAddress req) ips")
    (simp_all add: requestRemoteAddress_def Let_def)

text \<open>C13: The client address of a request, which keys every rate limit of the server, cannot be chosen by
  the client: it is the address of the socket unless the socket belongs to a trusted proxy; then it
  may be named by an entry of the \<open>X-Forwarded-For\<close> header, but only by the first of its last \<open>n\<close>
  entries, with \<open>n\<close> the configured number of trusted hops: of the header there are at least \<open>n\<close>
  entries, and what the client itself put before those entries has no influence. In every case it is
  an IP address or \<open>unknown\<close>.
\<close>

theorem client_address_not_chosen:
  fixes nf check req hops ips
  defines "a \<equiv> requestRemoteAddress nf check req hops ips" and "n \<equiv> trustedProxyHopsInput hops"
  shows "clientAddress a
    \<and> (a = requestSocketRemoteAddress req
       \<or> 0 < n \<and> trustedProxyMatches nf check (requestSocketRemoteAddress req) ips
         \<and> (\<exists>h. rawHeaderValue req ''x-forwarded-for'' = HeaderText h \<and> appendedByProxies n h a))"
  unfolding a_def n_def
  by (rule remote_address_cases[of nf check req hops ips]) (simp_all add: socket_address forwarded_appended)

text \<open>C40: A request whose socket has no own data property \<open>remoteAddress\<close> has the address \<open>unknown\<close>, whatever
  its headers and the trusted proxies are. The sockets of Node's \<open>net\<close> are such: their
  \<open>remoteAddress\<close> is an accessor of the prototype.
\<close>

theorem inherited_address_unknown:
  assumes "requestDataValue req ''socket'' = Obj proto ps" "KStr (js ''remoteAddress'') \<notin> fst ` set ps"
  shows "requestRemoteAddress nf check req hops ips = js ''unknown''"
proof -
  have "map_of ps (KStr (js ''remoteAddress'')) = None" using assms(2) by (simp add: map_of_eq_None_iff)
  then have socket: "requestSocketRemoteAddress req = js ''unknown''"
    by (simp add: requestSocketRemoteAddress_def assms(1) requestDataValue_def[of "Obj proto ps"] optionalOwnDataValue_def)
  have "\<not> trustedProxyMatches nf check (js ''unknown'') ips"
    by (auto simp: trustedProxyMatches_def Let_def isIP_def normalizeIpLiteral_def mappedIpv4_def asciiFold_def isUpperAZ_def
        isStrictDottedIpv4_def isIPv6_def ipv6Body_def colonParts_def ipv6Group_def js_def split: jsval.split)
  with socket show ?thesis by (simp add: requestRemoteAddress_def)
qed

theorem inherited_address_unknown_witness:
  "requestDataValue (jobj [(''socket'', Obj OtherPrototype [])]) ''socket'' = Obj OtherPrototype []
   \<and> requestRemoteAddress \<lparr>otherText = (\<lambda>_. []), otherValue = (\<lambda>_. NNaN)\<rparr> (\<lambda>rules a f. True)
       (jobj [(''socket'', Obj OtherPrototype [])]) (jnat 1) (jarr [Str (js ''10.0.0.1'')]) = js ''unknown''"
proof
  show "requestDataValue (jobj [(''socket'', Obj OtherPrototype [])]) ''socket'' = Obj OtherPrototype []"
    by (simp add: requestDataValue_def optionalOwnDataValue_def ownDescriptor_jobj)
  then show "requestRemoteAddress \<lparr>otherText = (\<lambda>_. []), otherValue = (\<lambda>_. NNaN)\<rparr> (\<lambda>rules a f. True)
       (jobj [(''socket'', Obj OtherPrototype [])]) (jnat 1) (jarr [Str (js ''10.0.0.1'')]) = js ''unknown''"
    by (rule inherited_address_unknown) simp
qed

end
