(* ===== verification/StaticPath.thy ===== *)
theory StaticPath
  imports FileSystem Json Utf8
begin

text \<open>
  The paths of static assets, \<open>src/src/server/static-path.ts\<close>, with \<open>decodeURIComponent\<close> and the
  POSIX functions \<open>path.normalize\<close> and \<open>path.relative\<close> they use. A path is inside the web root when
  its segments begin with those of the root.
\<close>

section \<open>Standard library\<close>

fun percentByte :: "jsstring \<Rightarrow> (nat \<times> jsstring) option" where
  "percentByte (p # a # b # rest) =
     (if p \<noteq> 37 then None
      else case (hexValue a, hexValue b) of (Some x, Some y) \<Rightarrow> Some (x * 16 + y, rest) | _ \<Rightarrow> None)"
| "percentByte _ = None"

fun percentBytes :: "nat \<Rightarrow> jsstring \<Rightarrow> (nat list \<times> jsstring) option" where
  "percentBytes 0 s = Some ([], s)"
| "percentBytes (Suc n) s =
     (case percentByte s of None \<Rightarrow> None | Some (b, rest) \<Rightarrow> consFst b (percentBytes n rest))"

text \<open>How many bytes a UTF-8 sequence that starts with \<open>b\<close> has; 0 when none starts so.\<close>

definition sequenceLength :: "nat \<Rightarrow> nat" where
  "sequenceLength b = (if b < 0x80 then 1 else if 0xc0 \<le> b \<and> b < 0xe0 then 2
     else if 0xe0 \<le> b \<and> b < 0xf0 then 3 else if 0xf0 \<le> b \<and> b < 0xf8 then 4 else 0)"

definition percentSequence :: "jsstring \<Rightarrow> (jsstring \<times> jsstring) option" where
  "percentSequence s =
     (case percentByte s of
        None \<Rightarrow> None
      | Some (b, rest) \<Rightarrow>
          (if sequenceLength b = 0 then None
           else case percentBytes (sequenceLength b - 1) rest of
             None \<Rightarrow> None
           | Some (bs, rest') \<Rightarrow> map_option (\<lambda>us. (us, rest')) (utf8Decode (b # bs))))"

lemma percentByte_shorter: "percentByte s = Some (b, rest) \<Longrightarrow> length rest < length s"
  by (induction s rule: percentByte.induct) (auto split: if_splits option.splits)

lemma percentBytes_shorter: "percentBytes n s = Some (bs, rest) \<Longrightarrow> length rest \<le> length s"
  by (induction n arbitrary: s bs) (auto split: option.splits dest: percentByte_shorter, fastforce dest: percentByte_shorter)

lemma percentSequence_shorter: "percentSequence s = Some (us, rest) \<Longrightarrow> length rest < length s"
  by (auto simp: percentSequence_def split: option.splits if_splits dest!: percentByte_shorter percentBytes_shorter)

text \<open>\<open>decodeURIComponent\<close>; \<open>None\<close> when it throws.\<close>

function decodeURIComponent :: "jsstring \<Rightarrow> jsstring option" where
  "decodeURIComponent [] = Some []"
| "decodeURIComponent (c # s) =
     (if c \<noteq> 37 then map_option ((#) c) (decodeURIComponent s)
      else case percentSequence (c # s) of
        None \<Rightarrow> None
      | Some (us, rest) \<Rightarrow> map_option ((@) us) (decodeURIComponent rest))"
  by pat_completeness auto
termination
  by (relation "measure length") (auto dest: percentSequence_shorter)

text \<open>The segments of \<open>path.posix.normalize\<close>; above the start of a relative path \<open>..\<close> remains.\<close>

fun relativeSegments :: "jsstring list \<Rightarrow> jsstring list \<Rightarrow> jsstring list" where
  "relativeSegments [] out = rev out"
| "relativeSegments (x # xs) out =
     (if x = [] \<or> x = js ''.'' then relativeSegments xs out
      else if x = js ''..'' \<and> out \<noteq> [] \<and> hd out \<noteq> js ''..'' then relativeSegments xs (tl out)
      else relativeSegments xs (x # out))"

definition posixNormalize :: "jsstring \<Rightarrow> jsstring" where
  "posixNormalize p =
     (let isAbs = startsWith p [47]; trailing = endsWith p [47];
          segs = (if isAbs then normalSegments (splitAt 47 p) [] else relativeSegments (splitAt 47 p) []);
          body = joinWith 47 segs in
      if p = [] then js ''.''
      else if body = [] then (if isAbs then [47] else if trailing then js ''./'' else js ''.'')
      else (if isAbs then [47] else []) @ body @ (if trailing then [47] else []))"

definition pathSegments :: "jsstring \<Rightarrow> jsstring list" where
  "pathSegments p = filter (\<lambda>x. x \<noteq> []) (splitAt 47 p)"

fun commonLength :: "jsstring list \<Rightarrow> jsstring list \<Rightarrow> nat" where
  "commonLength (x # xs) (y # ys) = (if x = y then Suc (commonLength xs ys) else 0)"
| "commonLength _ _ = 0"

definition pathRelative :: "jsstring \<Rightarrow> jsstring \<Rightarrow> jsstring \<Rightarrow> jsstring" where
  "pathRelative cwd from to =
     (let f = pathSegments (pathResolve cwd from); t = pathSegments (pathResolve cwd to); n = commonLength f t in
      if from = to \<or> f = t then [] else joinWith 47 (replicate (length f - n) (js ''..'') @ drop n t))"

section \<open>Definitions\<close>

definition MAX_STATIC_URL_PATH_BYTES :: nat where [limit_defs]: "MAX_STATIC_URL_PATH_BYTES = 8192"

definition isPathInsideRoot :: "jsstring \<Rightarrow> jsval \<Rightarrow> jsval \<Rightarrow> bool" where
  "isPathInsideRoot cwd rootDir candidate =
     (case (rootDir, candidate) of
        (Str r, Str c) \<Rightarrow>
          (let rel = pathRelative cwd r c in
           rel = [] \<or> (\<not> startsWith rel (js ''..'') \<and> \<not> startsWith rel [47]))
      | _ \<Rightarrow> False)"

text \<open>\<open>/%2f|%5c/i\<close>: an escaped separator.\<close>

fun hasEscapedSeparator :: "jsstring \<Rightarrow> bool" where
  "hasEscapedSeparator (a # b # c # s) =
     (a = 37 \<and> (b = 50 \<and> c \<in> {70, 102} \<or> b = 53 \<and> c \<in> {67, 99}) \<or> hasEscapedSeparator (b # c # s))"
| "hasEscapedSeparator _ = False"

definition unsafeStaticChar :: "nat \<Rightarrow> bool" where
  "unsafeStaticChar c \<longleftrightarrow> isControlOrFormat c \<or> c = 92"

definition relativeOf :: "jsstring \<Rightarrow> jsstring" where
  "relativeOf normalized = (if normalized = [47] then js ''index.html'' else dropWhile (\<lambda>c. c = 47) normalized)"

definition staticUrlPathToRelative :: "jsval \<Rightarrow> jsstring res" where
  "staticUrlPathToRelative urlPath =
     (case urlPath of
        Str u \<Rightarrow>
          if length u = 0 \<or> utf8ByteLengthExceeds u MAX_STATIC_URL_PATH_BYTES then throw ''invalid static URL path''
          else if hasEscapedSeparator u then throw ''invalid static URL path''
          else
            (case decodeURIComponent u of
               None \<Rightarrow> throw ''invalid static URL path''
             | Some decoded \<Rightarrow>
                 if list_ex unsafeStaticChar (codePoints decoded) then throw ''invalid static URL path''
                 else
                   let relative = relativeOf (posixNormalize decoded) in
                   if relative = [] \<or> js ''..'' \<in> set (splitAt 47 relative) then throw ''invalid static URL path''
                   else ok relative)
      | _ \<Rightarrow> throw ''invalid static URL path'')"

definition isSafeStaticRelativePath :: "jsstring \<Rightarrow> bool" where
  "isSafeStaticRelativePath relative \<longleftrightarrow>
     length relative > 0 \<and> \<not> utf8ByteLengthExceeds relative MAX_STATIC_URL_PATH_BYTES
     \<and> \<not> startsWith relative [47] \<and> \<not> startsWith relative [47, 47]
     \<and> \<not> list_ex unsafeStaticChar (codePoints relative)
     \<and> \<not> list_ex (\<lambda>part. part = [] \<or> part = js ''..'') (splitAt 47 relative)"

definition canServeIndexFallback :: "jsval \<Rightarrow> bool" where
  "canServeIndexFallback v =
     (case v of
        Str relative \<Rightarrow>
          if \<not> isSafeStaticRelativePath relative then False
          else if relative = js ''index.html'' then True
          else if relative = js ''v1'' \<or> startsWith relative (js ''v1/'') then False
          else if startsWith relative (js ''assets/'') then False
          else 46 \<notin> set (pathBasename relative)
      | _ \<Rightarrow> False)"

fun isMissingStaticPathError :: "jsError \<Rightarrow> bool" where
  "isMissingStaticPathError (NodeError c) \<longleftrightarrow> c = ''ENOENT'' \<or> c = ''ENOTDIR''"
| "isMissingStaticPathError (JsError msg) \<longleftrightarrow> False"


section \<open>Segments\<close>

definition plainSegment :: "jsstring \<Rightarrow> bool" where
  "plainSegment x \<longleftrightarrow> x \<noteq> [] \<and> x \<noteq> js ''.'' \<and> x \<noteq> js ''..'' \<and> 47 \<notin> set x"

lemma normalSegments_plain:
  "list_all (\<lambda>x. 47 \<notin> set x) xs \<Longrightarrow> list_all plainSegment out \<Longrightarrow> list_all plainSegment (normalSegments xs out)"
proof (induction xs out rule: normalSegments.induct)
  case (2 x xs out)
  have "list_all plainSegment (tl out)" using "2.prems"(2) by (cases out) auto
  moreover have "plainSegment x" if "x \<noteq> []" "x \<noteq> js ''.''" "x \<noteq> js ''..''" using that "2.prems"(1) by (simp add: plainSegment_def)
  ultimately show ?case using 2 by auto
qed simp

lemma splitAt_free: "list_all (\<lambda>x. c \<notin> set x) (splitAt c s)"
  by (simp add: list_all_iff splitAt_no_sep)

lemma normalSegments_append: "normalSegments (xs @ ys) out = normalSegments ys (rev (normalSegments xs out))"
  by (induction xs out rule: normalSegments.induct) auto

lemma normalSegments_no_parent:
  "js ''..'' \<notin> set xs \<Longrightarrow> normalSegments xs out = rev out @ filter (\<lambda>x. x \<noteq> [] \<and> x \<noteq> js ''.'') xs"
  by (induction xs out rule: normalSegments.induct) auto

lemma splitAt_middle: "splitAt c (a @ c # b) = splitAt c a @ splitAt c b"
  by (induction a) (auto split: list.splits)

lemma splitAt_rooted: "splitAt 47 (concat (map (\<lambda>x. 47 # x) ps)) = [] # concat (map (splitAt 47) ps)"
proof (induction ps)
  case (Cons q qs)
  then show ?case by (cases qs) (auto simp: splitAt_middle)
qed simp

lemma pathSegments_absolute:
  assumes "list_all plainSegment ps" shows "pathSegments (absolutePath ps) = ps"
proof (cases "ps = []")
  case False
  have "concat (map (splitAt 47) ps) = ps"
    using assms by (induction ps) (auto simp: plainSegment_def splitAt_none)
  with False show ?thesis using assms
    by (auto simp: pathSegments_def absolutePath_def splitAt_rooted filter_id_conv list_all_iff plainSegment_def)
qed (simp add: pathSegments_def absolutePath_def)

text \<open>The segments of a resolved path, and of one resolved below an absolute directory.\<close>

lemma pathSegments_resolve:
  "pathSegments (pathResolve cwd p)
    = normalSegments ((if startsWith p [47] then [] else splitAt 47 cwd) @ splitAt 47 p) []"
  unfolding pathResolve_def
  by (rule pathSegments_absolute, rule normalSegments_plain) (auto simp: list_all_iff splitAt_no_sep)

lemma pathSegments_below:
  assumes "startsWith dir [47]" "\<not> startsWith r [47]" "js ''..'' \<notin> set (splitAt 47 r)"
  shows "pathSegments (pathResolve dir r)
    = pathSegments (pathResolve cwd dir) @ filter (\<lambda>x. x \<noteq> [] \<and> x \<noteq> js ''.'') (splitAt 47 r)"
  using assms by (simp add: pathSegments_resolve normalSegments_append normalSegments_no_parent)

lemma take_commonLength: "take (commonLength xs ys) xs = take (commonLength xs ys) ys"
  by (induction xs ys rule: commonLength.induct) auto

lemma commonLength_le: "commonLength xs ys \<le> length xs"
  by (induction xs ys rule: commonLength.induct) auto

lemma joinWith_starts: "startsWith (joinWith 47 (js ''..'' # ps)) (js ''..'')"
  by (cases ps) (auto simp: startsWith_def)

lemma inside_prefix:
  assumes "isPathInsideRoot cwd (Str r) (Str c)"
  shows "\<exists>below. pathSegments (pathResolve cwd c) = pathSegments (pathResolve cwd r) @ below"
proof -
  define f t where "f = pathSegments (pathResolve cwd r)" and "t = pathSegments (pathResolve cwd c)"
  define n where "n = commonLength f t"
  show ?thesis
  proof (cases "f = t")
    case False
    have "length f - n = 0"
    proof (rule ccontr)
      assume "length f - n \<noteq> 0"
      then obtain k where "length f - n = Suc k" by (cases "length f - n") auto
      then have "pathRelative cwd r c = joinWith 47 (js ''..'' # replicate k (js ''..'') @ drop n t)"
        using False unfolding pathRelative_def Let_def f_def[symmetric] t_def[symmetric] n_def[symmetric] by (auto simp: f_def t_def)
      then have start: "startsWith (pathRelative cwd r c) (js ''..'')" by (simp only: joinWith_starts)
      then have "pathRelative cwd r c \<noteq> []" by (auto simp: startsWith_def)
      with assms start show False by (simp add: isPathInsideRoot_def Let_def)
    qed
    then have "take n f = f" by simp
    then have "t = f @ drop n t" using take_commonLength[of f t] by (metis append_take_drop_id n_def)
    then show ?thesis unfolding f_def t_def by blast
  qed (auto simp: f_def t_def)
qed

section \<open>Properties\<close>

lemma staticUrlPathToRelative_ok:
  assumes "staticUrlPathToRelative v = ok r"
  shows "js ''..'' \<notin> set (splitAt 47 r)" "\<not> startsWith r [47]" "r \<noteq> []"
proof -
  obtain n where n: "r = relativeOf n" and "r \<noteq> []" "js ''..'' \<notin> set (splitAt 47 r)"
    using assms by (auto simp: staticUrlPathToRelative_def Let_def split: jsval.splits if_splits option.splits)
  then show "js ''..'' \<notin> set (splitAt 47 r)" "r \<noteq> []" by simp_all
  have "hd (dropWhile (\<lambda>c. c = 47) n) \<noteq> 47" if "dropWhile (\<lambda>c. c = 47) n \<noteq> []"
    using hd_dropWhile[OF that] by simp
  with n \<open>r \<noteq> []\<close> have "hd r \<noteq> 47" by (auto simp: relativeOf_def js_def)
  with \<open>r \<noteq> []\<close> show "\<not> startsWith r [47]" by (cases r) (auto simp: startsWith_def)
qed

text \<open>C26: No URL path reaches outside the web root: the file that an accepted path names lies below
  the root (its segments are those of the root, followed by the segments of the path, none of
  which is \<open>..\<close>), and whatever passes \<open>isPathInsideRoot\<close> has the segments of the root as a prefix.
\<close>

theorem static_path_contained:
  "(\<forall>v r webRoot cwd. staticUrlPathToRelative v = ok r \<longrightarrow> startsWith webRoot [47] \<longrightarrow>
      (\<exists>below. pathSegments (pathResolve webRoot r) = pathSegments (pathResolve cwd webRoot) @ below
        \<and> list_all plainSegment below))
   \<and> (\<forall>cwd webRoot candidate. isPathInsideRoot cwd (Str webRoot) (Str candidate) \<longrightarrow>
      (\<exists>below. pathSegments (pathResolve cwd candidate) = pathSegments (pathResolve cwd webRoot) @ below))"
proof (intro conjI allI impI)
  fix v r webRoot cwd
  assume a: "staticUrlPathToRelative v = ok r" "startsWith webRoot [47]"
  let ?below = "filter (\<lambda>x. x \<noteq> [] \<and> x \<noteq> js ''.'') (splitAt 47 r)"
  have "list_all plainSegment ?below"
    using staticUrlPathToRelative_ok(1)[OF a(1)] by (auto simp: list_all_iff plainSegment_def splitAt_no_sep)
  with pathSegments_below[OF a(2) staticUrlPathToRelative_ok(2,1)[OF a(1)]]
  show "\<exists>below. pathSegments (pathResolve webRoot r) = pathSegments (pathResolve cwd webRoot) @ below
        \<and> list_all plainSegment below" by blast
qed (rule inside_prefix)

theorem static_path_contained_witness:
  "staticUrlPathToRelative (Str (js ''/a/%2e%2e/b'')) = ok (js ''b'')
   \<and> (\<exists>below. pathSegments (pathResolve (js ''/srv'') (js ''b'')) = pathSegments (pathResolve (js ''/'') (js ''/srv'')) @ below
        \<and> list_all plainSegment below)"
proof -
  have "staticUrlPathToRelative (Str (js ''/a/%2e%2e/b'')) = ok (js ''b'')" 
    by (simp add: staticUrlPathToRelative_def utf8ByteLengthExceeds_iff utf8ByteLength_ascii MAX_STATIC_URL_PATH_BYTES_def
        percentSequence_def hexValue_def sequenceLength_def utf8Decode.simps(2) codePoints_def isHighSurrogate_def unsafeStaticChar_def
        isControlOrFormat_ascii posixNormalize_def startsWith_def endsWith_def relativeOf_def js_def)
  moreover have "startsWith (js ''/srv'') [47]" by (simp add: startsWith_def js_def)
  ultimately show ?thesis using static_path_contained by blast
qed

end
