(* ===== verification/Configuration.thy ===== *)
theory Configuration
  imports RequestHeaders StaticPath
begin

text \<open>
  The configuration of the signaling server, \<open>src/src/server/config.ts\<close>: reading the environment,
  the policy of public deployments, the ICE servers handed to clients and the origins they may
  have. The environment is a value of unknown shape. Parameters: the URL parser, the number
  format of \<open>JSON.parse\<close>, the working directory and the directory of the module, the random part
  of a TURN user name and the HMAC of its credential.
\<close>

section \<open>Environment variables\<close>

definition MAX_ICE_SERVERS_ENV_BYTES :: nat where [limit_defs]: "MAX_ICE_SERVERS_ENV_BYTES = 128 * 1024"
definition MAX_ALLOWED_ORIGINS_ENV_BYTES :: nat where [limit_defs]: "MAX_ALLOWED_ORIGINS_ENV_BYTES = 16 * 1024"
definition MAX_TURN_URLS_ENV_BYTES :: nat where [limit_defs]: "MAX_TURN_URLS_ENV_BYTES = 8 * 1024"
definition MAX_TRUSTED_PROXY_IPS_ENV_BYTES :: nat where [limit_defs]: "MAX_TRUSTED_PROXY_IPS_ENV_BYTES = 16 * 1024"
definition MAX_TURN_REST_SECRET_BYTES :: nat where [limit_defs]: "MAX_TURN_REST_SECRET_BYTES = 4096"
definition MAX_WEB_ROOT_ENV_BYTES :: nat where [limit_defs]: "MAX_WEB_ROOT_ENV_BYTES = 4096"
definition MAX_SCALAR_ENV_BYTES :: nat where [limit_defs]: "MAX_SCALAR_ENV_BYTES = 4096"
definition MAX_TURN_URLS :: nat where [limit_defs]: "MAX_TURN_URLS = 8"
definition MAX_TURN_URL_CHARS :: nat where [limit_defs]: "MAX_TURN_URL_CHARS = 512"
definition TURN_REST_SECRET_MIN_BYTES :: nat where [limit_defs]: "TURN_REST_SECRET_MIN_BYTES = 32"

definition envValue :: "jsval \<Rightarrow> string \<Rightarrow> jsval res" where
  "envValue env name =
     (if \<not> isRecordValue env then throw ''Server environment is invalid.''
      else descriptorValue (name @ '' must be a data property.'') (ownDescriptor env name))"

definition requiredEnvString :: "jsval \<Rightarrow> string \<Rightarrow> jsstring res" where
  "requiredEnvString raw name = (case raw of Str s \<Rightarrow> ok s | _ \<Rightarrow> throw (name @ '' must be a string.''))"

definition optionalEnvString :: "jsval \<Rightarrow> string \<Rightarrow> jsstring option res" where
  "optionalEnvString raw name =
     (if raw = Undefined then ok None else andThen (requiredEnvString raw name) (\<lambda>s. ok (Some s)))"

definition assertEnvStringByteLength :: "jsstring \<Rightarrow> string \<Rightarrow> nat \<Rightarrow> unit res" where
  "assertEnvStringByteLength raw name maxBytes =
     (if utf8ByteLength raw > maxBytes
      then throw (name @ '' must be at most '' @ map char_of (dec maxBytes) @ '' bytes.'') else ok ())"

text \<open>The first lines of every parser: an optional string of bounded length.\<close>

definition boundedEnvString :: "jsval \<Rightarrow> string \<Rightarrow> nat \<Rightarrow> jsstring option res" where
  "boundedEnvString raw name maxBytes =
     andThen (optionalEnvString raw name) (\<lambda>value.
       case value of
         None \<Rightarrow> ok None
       | Some s \<Rightarrow> andThen (assertEnvStringByteLength s name maxBytes) (\<lambda>_. ok (Some s)))"

definition blank :: "jsstring option \<Rightarrow> bool" where
  "blank value = (case value of None \<Rightarrow> True | Some s \<Rightarrow> trim s = [])"

definition parseBooleanEnv :: "jsval \<Rightarrow> string \<Rightarrow> bool res" where
  "parseBooleanEnv raw name =
     andThen (boundedEnvString raw name MAX_SCALAR_ENV_BYTES) (\<lambda>value.
       if blank value then ok False
       else if value = Some (js ''true'') then ok True
       else if value = Some (js ''false'') then ok False
       else throw (name @ '' must be true or false.''))"

text \<open>An integer setting with a default: \<open>Number\<close> of a run of digits, compared with its range.\<close>

definition parseIntegerEnv :: "jsval \<Rightarrow> string \<Rightarrow> nat \<Rightarrow> nat \<Rightarrow> nat \<Rightarrow> string \<Rightarrow> nat res" where
  "parseIntegerEnv raw name fallback lo hi msg =
     andThen (boundedEnvString raw name MAX_SCALAR_ENV_BYTES) (\<lambda>value.
       case value of
         None \<Rightarrow> ok fallback
       | Some s \<Rightarrow>
           if trim s = [] then ok fallback
           else if \<not> digits s then throw msg
           else if decValue s < lo \<or> decValue s > hi then throw msg
           else ok (decValue s))"

definition parsePort :: "jsval \<Rightarrow> nat res" where
  "parsePort raw = parseIntegerEnv raw ''PORT'' 8787 1 65535 ''PORT must be an integer between 1 and 65535.''"

definition parseTrustedProxyHops :: "jsval \<Rightarrow> nat res" where
  "parseTrustedProxyHops raw =
     parseIntegerEnv raw ''TRUSTED_PROXY_HOPS'' 0 0 3 ''TRUSTED_PROXY_HOPS must be an integer between 0 and 3.''"

definition parseTurnTtl :: "jsval \<Rightarrow> nat res" where
  "parseTurnTtl raw =
     parseIntegerEnv raw ''TURN_TTL_SECONDS'' 3600 60 86400 ''TURN_TTL_SECONDS must be an integer between 60 and 86400.''"

definition parseProductionEnv :: "jsval \<Rightarrow> bool res" where
  "parseProductionEnv raw =
     andThen (boundedEnvString raw ''NODE_ENV'' MAX_SCALAR_ENV_BYTES) (\<lambda>value.
       case value of
         None \<Rightarrow> ok False
       | Some s \<Rightarrow>
           if s = [] then ok False
           else if s \<noteq> trim s then throw ''NODE_ENV must be exactly production, development, test, or unset.''
           else if s = js ''production'' then ok True
           else if s = js ''development'' \<or> s = js ''test'' then ok False
           else throw ''NODE_ENV must be exactly production, development, test, or unset.'')"

datatype SignalingTopology = SingleInstance | StickySessions

definition parseSignalingTopology :: "jsval \<Rightarrow> SignalingTopology option res" where
  "parseSignalingTopology raw =
     andThen (boundedEnvString raw ''SIGNALING_TOPOLOGY'' MAX_SCALAR_ENV_BYTES) (\<lambda>value.
       case value of
         None \<Rightarrow> ok None
       | Some s \<Rightarrow>
           if trim s = [] then ok None
           else if s \<noteq> trim s then throw ''SIGNALING_TOPOLOGY must be single-instance or sticky-sessions.''
           else if s = js ''single-instance'' then ok (Some SingleInstance)
           else if s = js ''sticky-sessions'' then ok (Some StickySessions)
           else throw ''SIGNALING_TOPOLOGY must be single-instance or sticky-sessions.'')"

definition unsafeHostChar :: "nat \<Rightarrow> bool" where
  "unsafeHostChar c \<longleftrightarrow> c \<le> 0x1f \<or> c = 0x7f \<or> isSpace c \<or> c = 47 \<or> c = 92"

definition parseHost :: "urlParser \<Rightarrow> jsval \<Rightarrow> jsstring res" where
  "parseHost url raw =
     andThen (boundedEnvString raw ''HOST'' MAX_SCALAR_ENV_BYTES) (\<lambda>value.
       case value of
         None \<Rightarrow> ok (js ''127.0.0.1'')
       | Some s \<Rightarrow>
           if s \<noteq> trim s then throw ''HOST must be a hostname or IP address, not a URL or path.''
           else if trim s = [] then ok (js ''127.0.0.1'')
           else if length (trim s) > 253 \<or> list_ex unsafeHostChar (trim s) \<or> containsScheme (trim s)
           then throw ''HOST must be a hostname or IP address, not a URL or path.''
           else if \<not> isValidHostNameOrIp url (trim s) then throw ''HOST must be a hostname or IP address, not a URL or path.''
           else ok (trim s))"

definition parseWebRoot :: "jsstring \<Rightarrow> jsstring \<Rightarrow> jsval \<Rightarrow> jsstring res" where
  "parseWebRoot cwd moduleDir raw =
     andThen (boundedEnvString raw ''WEB_ROOT'' MAX_WEB_ROOT_ENV_BYTES) (\<lambda>value.
       case value of
         None \<Rightarrow> ok (pathResolve moduleDir (js ''../../dist-web''))
       | Some s \<Rightarrow>
           if trim s = [] then ok (pathResolve moduleDir (js ''../../dist-web''))
           else if hasControlOrFormat s then throw ''WEB_ROOT must not contain control characters or format characters.''
           else ok (pathResolve cwd s))"

section \<open>Trusted proxies\<close>

text \<open>The loop over the parts between commas, with the number of parts already taken.\<close>

fun trustedProxyParts :: "nat \<Rightarrow> jsstring list \<Rightarrow> jsstring list res" where
  "trustedProxyParts n [] = ok []"
| "trustedProxyParts n (source # rest) =
     (if n \<ge> 32 then throw ''TRUSTED_PROXY_IPS may contain at most 32 IP addresses or CIDR ranges.''
      else if length source = 0 then throw ''TRUSTED_PROXY_IPS entries must not be empty.''
      else if source \<noteq> trim source \<or> hasControlOrFormat source
      then throw ''TRUSTED_PROXY_IPS entries must not contain whitespace, separators, control characters, or format characters.''
      else andThen (trustedProxyParts (Suc n) rest) (\<lambda>sources. ok (source # sources)))"

definition parseTrustedProxyIpList :: "jsstring \<Rightarrow> jsstring list res" where
  "parseTrustedProxyIpList raw = (if trim raw = [] then ok [] else trustedProxyParts 0 (splitAt 44 raw))"

definition checkedIpLiteral :: "jsstring \<Rightarrow> string \<Rightarrow> jsstring res" where
  "checkedIpLiteral address msg =
     (if isIP (normalizeIpLiteral address) = 0 then throw msg else ok (normalizeIpLiteral address))"

definition parseTrustedProxySource :: "jsstring \<Rightarrow> jsstring res" where
  "parseTrustedProxySource source =
     (case indexOf 47 source of
        None \<Rightarrow> checkedIpLiteral source ''TRUSTED_PROXY_IPS entries must be IP addresses or CIDR ranges.''
      | Some slash \<Rightarrow>
          if 47 \<in> set (drop (Suc slash) source) then throw ''TRUSTED_PROXY_IPS entries must be IP addresses or CIDR ranges.''
          else andThen (checkedIpLiteral (take slash source) ''TRUSTED_PROXY_IPS entries must be IP addresses or CIDR ranges.'') (\<lambda>address.
            let prefixText = drop (Suc slash) source; prefix = decValue prefixText; maxPrefix = (if isIP address = 4 then 32 else 128) in
            if \<not> digits prefixText then throw ''TRUSTED_PROXY_IPS CIDR prefixes are invalid.''
            else if prefix > maxPrefix then throw ''TRUSTED_PROXY_IPS CIDR prefixes are invalid.''
            else if prefix = 0 then throw ''TRUSTED_PROXY_IPS CIDR ranges must not trust every address.''
            else ok (address @ 47 # dec prefix)))"

definition parseTrustedProxyIps :: "jsval \<Rightarrow> jsstring list res" where
  "parseTrustedProxyIps raw =
     andThen (boundedEnvString raw ''TRUSTED_PROXY_IPS'' MAX_TRUSTED_PROXY_IPS_ENV_BYTES) (\<lambda>value.
       case value of
         None \<Rightarrow> ok []
       | Some s \<Rightarrow> andThen (parseTrustedProxyIpList s) (mapOk parseTrustedProxySource))"

definition assertTrustedProxyPolicy :: "nat \<Rightarrow> jsstring list \<Rightarrow> unit res" where
  "assertTrustedProxyPolicy hops trustedProxyIps =
     (if hops > 0 \<and> length trustedProxyIps = 0 then throw ''TRUSTED_PROXY_IPS is required when TRUSTED_PROXY_HOPS is enabled.''
      else if hops = 0 \<and> length trustedProxyIps > 0 then throw ''TRUSTED_PROXY_HOPS must be enabled when TRUSTED_PROXY_IPS is set.''
      else ok ())"

section \<open>Origins\<close>

definition urlHost :: "UrlParts \<Rightarrow> jsstring" where
  "urlHost parsed = (if urlPort parsed = [] then hostname parsed else hostname parsed @ 58 # urlPort parsed)"

definition parseOrigin :: "urlParser \<Rightarrow> jsstring \<Rightarrow> jsstring res" where
  "parseOrigin url s =
     (if list_ex unsafeOriginChar (codePoints s)
      then throw ''ALLOWED_ORIGINS entries must not contain whitespace, separators, control characters, or format characters.''
      else case url s of
        None \<Rightarrow> throw ''ALLOWED_ORIGINS entries must be exact URL origins.''
      | Some parsed \<Rightarrow>
          if origin parsed \<noteq> s \<or> urlUsername parsed \<noteq> [] \<or> urlPassword parsed \<noteq> [] \<or> pathname parsed \<noteq> js ''/''
             \<or> urlSearch parsed \<noteq> [] \<or> urlHash parsed \<noteq> []
          then throw ''ALLOWED_ORIGINS entries must be exact URL origins.''
          else if protocol parsed \<noteq> js ''http:'' \<and> protocol parsed \<noteq> js ''https:''
          then throw ''ALLOWED_ORIGINS entries must use http or https.''
          else if urlPort parsed = js ''0'' then throw ''ALLOWED_ORIGINS entries must not use port 0.''
          else if \<not> isValidOriginHostname url (hostname parsed)
          then throw ''ALLOWED_ORIGINS entries must contain valid hostnames or IP addresses.''
          else ok (origin parsed))"

fun allowedOriginParts :: "nat \<Rightarrow> jsstring list \<Rightarrow> jsstring list res" where
  "allowedOriginParts n [] = ok []"
| "allowedOriginParts n (part # rest) =
     (if n \<ge> 32 then throw ''ALLOWED_ORIGINS may contain at most 32 origins.''
      else if length part = 0 then throw ''ALLOWED_ORIGINS entries must not be empty.''
      else if part \<noteq> trim part
      then throw ''ALLOWED_ORIGINS entries must not contain whitespace, separators, control characters, or format characters.''
      else andThen (allowedOriginParts (Suc n) rest) (\<lambda>parts. ok (part # parts)))"

definition parseAllowedOriginList :: "jsstring \<Rightarrow> jsstring list res" where
  "parseAllowedOriginList raw = (if trim raw = [] then ok [] else allowedOriginParts 0 (splitAt 44 raw))"

definition parseAllowedOrigins :: "urlParser \<Rightarrow> jsval \<Rightarrow> jsstring list option res" where
  "parseAllowedOrigins url raw =
     andThen (boundedEnvString raw ''ALLOWED_ORIGINS'' MAX_ALLOWED_ORIGINS_ENV_BYTES) (\<lambda>value.
       case value of
         None \<Rightarrow> ok None
       | Some s \<Rightarrow>
           andThen (parseAllowedOriginList s) (\<lambda>origins.
             if length origins = 0 then ok None else andThen (mapOk (parseOrigin url) origins) (\<lambda>os. ok (Some os))))"

definition originUsesLoopbackAuthority :: "urlParser \<Rightarrow> jsstring \<Rightarrow> bool" where
  "originUsesLoopbackAuthority url s \<longleftrightarrow>
     originTextAllowed s
     \<and> (case url s of
          None \<Rightarrow> False
        | Some parsed \<Rightarrow>
            (protocol parsed = js ''http:'' \<or> protocol parsed = js ''https:'') \<and> origin parsed = s
            \<and> urlPort parsed \<noteq> js ''0'' \<and> isLoopbackAuthority (urlHost parsed))"

definition allowedOriginContains :: "jsstring list \<Rightarrow> jsstring \<Rightarrow> bool" where
  "allowedOriginContains allowedOrigins s \<longleftrightarrow> length allowedOrigins \<le> 32 \<and> s \<in> set allowedOrigins"

text \<open>The origin of a request: undefined, a string, or another value.\<close>

definition originAllowed :: "jsval \<Rightarrow> jsstring list option \<Rightarrow> bool" where
  "originAllowed v allowedOrigins =
     (case v of
        Undefined \<Rightarrow> allowedOrigins = None
      | Str s \<Rightarrow> (case allowedOrigins of None \<Rightarrow> True | Some os \<Rightarrow> allowedOriginContains os s)
      | _ \<Rightarrow> False)"

definition originAllowedForRequest :: "urlParser \<Rightarrow> jsval \<Rightarrow> jsstring list option \<Rightarrow> jsval \<Rightarrow> bool" where
  "originAllowedForRequest url v allowedOrigins requestAuthority =
     (if \<not> originAllowed v allowedOrigins then False
      else if allowedOrigins \<noteq> None \<or> v = Undefined then True
      else (case (requestAuthority, v) of
              (Str authority, Str s) \<Rightarrow> isLoopbackAuthority authority \<and> originUsesLoopbackAuthority url s
            | _ \<Rightarrow> False))"

definition corsHeaders :: "jsval \<Rightarrow> jsstring list option \<Rightarrow> (string \<times> jsstring) list option" where
  "corsHeaders v allowedOrigins =
     (case v of
        Undefined \<Rightarrow> (case allowedOrigins of None \<Rightarrow> Some [(''access-control-allow-origin'', js ''*'')] | Some os \<Rightarrow> Some [])
      | Str s \<Rightarrow>
          (case allowedOrigins of
             None \<Rightarrow> Some [(''access-control-allow-origin'', js ''*'')]
           | Some os \<Rightarrow>
               if \<not> allowedOriginContains os s then None
               else Some [(''access-control-allow-origin'', s), (''vary'', js ''Origin'')])
      | _ \<Rightarrow> None)"

section \<open>ICE servers\<close>

text \<open>The group of \<open>/^(?:<schemes>):([^?]+)(?:\?transport=(?:udp|tcp))?$/i\<close>.\<close>

definition schemeAuthority :: "string list \<Rightarrow> jsstring \<Rightarrow> jsstring option" where
  "schemeAuthority schemes u =
     (case indexOf 58 u of
        None \<Rightarrow> None
      | Some i \<Rightarrow>
          (let scheme = asciiFold (take i u); rest = drop (Suc i) u;
               auth = takeWhile (\<lambda>c. c \<noteq> 63) rest; query = dropWhile (\<lambda>c. c \<noteq> 63) rest in
           if scheme \<in> set (map js schemes) \<and> auth \<noteq> []
              \<and> (query = [] \<or> asciiFold query \<in> set (map js [''?transport=udp'', ''?transport=tcp'']))
           then Some auth else None))"

definition isServerUrlOf :: "string list \<Rightarrow> urlParser \<Rightarrow> jsstring \<Rightarrow> bool" where
  "isServerUrlOf schemes url u \<longleftrightarrow>
     \<not> (length u = 0 \<or> length u > MAX_TURN_URL_CHARS \<or> hasControlFormatOrSpace u)
     \<and> (case schemeAuthority schemes u of None \<Rightarrow> False | Some a \<Rightarrow> isValidAuthority url a)"

definition isPublicStunUrl :: "urlParser \<Rightarrow> jsstring \<Rightarrow> bool" where
  "isPublicStunUrl = isServerUrlOf [''stun'', ''stuns'']"

definition isTurnRestUrl :: "urlParser \<Rightarrow> jsstring \<Rightarrow> bool" where
  "isTurnRestUrl = isServerUrlOf [''turn'', ''turns'']"

text \<open>\<open>/^[a-z][a-z0-9+.-]*:[^/?#]*@/i\<close>.\<close>

definition hasUrlCredentials :: "jsstring \<Rightarrow> bool" where
  "hasUrlCredentials u =
     (case indexOf 58 u of
        None \<Rightarrow> False
      | Some i \<Rightarrow>
          take i u \<noteq> [] \<and> (isUpperAZ (hd u) \<or> isLowerAZ (hd u)) \<and> list_all (\<lambda>c. isAlnum c \<or> c \<in> {43, 46, 45}) (take i u)
          \<and> 64 \<in> set (takeWhile (\<lambda>c. c \<notin> {47, 63, 35}) (drop (Suc i) u)))"

definition parseIceServers :: "urlParser \<Rightarrow> NumberFormat \<Rightarrow> jsval \<Rightarrow> RTCIceServer list res" where
  "parseIceServers url nf raw =
     andThen (boundedEnvString raw ''ICE_SERVERS'' MAX_ICE_SERVERS_ENV_BYTES) (\<lambda>value.
       case value of
         None \<Rightarrow> cloneIceServers url DEFAULT_ICE_SERVERS
       | Some s \<Rightarrow>
           if trim s = [] then cloneIceServers url DEFAULT_ICE_SERVERS
           else case jsonParse nf s of
             None \<Rightarrow> throw ''ICE_SERVERS must be valid JSON.''
           | Some parsed \<Rightarrow>
               if \<not> isIceServers url parsed then throw ''ICE_SERVERS must be an array of STUN/TURN server objects.''
               else cloneIceServers url parsed)"

record TurnRestConfig =
  turnUrls :: IceUrls
  turnSecret :: jsstring
  turnTtlSeconds :: nat

definition parseTurnUrlArray :: "jsval \<Rightarrow> jsstring list option" where
  "parseTurnUrlArray v =
     (case v of
        Arr es \<Rightarrow>
          if length es = 0 \<or> length es > MAX_TURN_URLS then None
          else if list_all (\<lambda>d. strOption (dataValue d) \<noteq> None) es then Some (map (\<lambda>d. strValue (dataValue d)) es)
          else None
      | _ \<Rightarrow> None)"

fun checkTurnUrls :: "urlParser \<Rightarrow> jsstring list \<Rightarrow> unit res" where
  "checkTurnUrls url [] = ok ()"
| "checkTurnUrls url (u # us) =
     (if hasUrlCredentials u then throw ''TURN_URLS must not embed credentials. Use TURN_REST_SECRET for ephemeral TURN credentials.''
      else if \<not> isTurnRestUrl url u then throw ''TURN_URLS must be a TURN URL string or JSON array of TURN URL strings.''
      else checkTurnUrls url us)"

definition parseTurnUrls :: "urlParser \<Rightarrow> NumberFormat \<Rightarrow> jsval \<Rightarrow> IceUrls res" where
  "parseTurnUrls url nf v =
     andThen (requiredEnvString v ''TURN_URLS'') (\<lambda>raw.
     andThen (assertEnvStringByteLength raw ''TURN_URLS'' MAX_TURN_URLS_ENV_BYTES) (\<lambda>_.
       let parsed = (case jsonParse nf raw of Some p \<Rightarrow> p | None \<Rightarrow> Str raw);
           urls = (case parsed of Str u \<Rightarrow> Some (OneUrl u) | _ \<Rightarrow> map_option UrlList (parseTurnUrlArray parsed)) in
       case urls of
         None \<Rightarrow> throw ''TURN_URLS must be a TURN URL string or JSON array of TURN URL strings.''
       | Some us \<Rightarrow> andThen (checkTurnUrls url (urlListOf us)) (\<lambda>_. ok us)))"

definition assertTurnRestPublicIssuanceAcknowledged :: "jsval \<Rightarrow> bool \<Rightarrow> unit res" where
  "assertTurnRestPublicIssuanceAcknowledged env hardened =
     andThen (envValue env ''TURN_REST_ALLOW_UNVERIFIED_ACCEPT'') (\<lambda>raw.
     andThen (parseBooleanEnv raw ''TURN_REST_ALLOW_UNVERIFIED_ACCEPT'') (\<lambda>acknowledgement.
       if acknowledgement then ok ()
       else if \<not> hardened then ok ()
       else throw ''TURN_REST_ALLOW_UNVERIFIED_ACCEPT=true is required before enabling TURN REST credentials in public deployments.''))"

definition parseTurnRestConfig :: "urlParser \<Rightarrow> NumberFormat \<Rightarrow> jsval \<Rightarrow> bool \<Rightarrow> TurnRestConfig option res" where
  "parseTurnRestConfig url nf env hardened =
     andThen (andThen (envValue env ''TURN_REST_SECRET'') (\<lambda>raw. optionalEnvString raw ''TURN_REST_SECRET'')) (\<lambda>secret.
     andThen (andThen (envValue env ''TURN_URLS'') (\<lambda>raw. optionalEnvString raw ''TURN_URLS'')) (\<lambda>rawUrls.
     andThen (case secret of None \<Rightarrow> ok () | Some s \<Rightarrow> assertEnvStringByteLength s ''TURN_REST_SECRET'' MAX_TURN_REST_SECRET_BYTES) (\<lambda>_.
     andThen (case rawUrls of None \<Rightarrow> ok () | Some u \<Rightarrow> assertEnvStringByteLength u ''TURN_URLS'' MAX_TURN_URLS_ENV_BYTES) (\<lambda>_.
       let hasSecret = (secret \<noteq> None \<and> secret \<noteq> Some []); hasUrls = \<not> blank rawUrls in
       if \<not> hasSecret \<and> \<not> hasUrls then ok None
       else if \<not> hasSecret \<or> \<not> hasUrls then throw ''TURN_REST_SECRET and TURN_URLS must be set together.''
       else
         andThen (assertTurnRestPublicIssuanceAcknowledged env hardened) (\<lambda>_.
           if utf8ByteLength (the secret) < TURN_REST_SECRET_MIN_BYTES then throw ''TURN_REST_SECRET must be at least 32 bytes.''
           else if utf8ByteLength (the secret) > MAX_TURN_REST_SECRET_BYTES then throw ''TURN_REST_SECRET must be at most 4096 bytes.''
           else if hasControlOrFormat (the secret)
           then throw ''TURN_REST_SECRET must not contain control characters or format characters.''
           else
             andThen (parseTurnUrls url nf (Str (trim (the rawUrls)))) (\<lambda>urls.
             andThen (envValue env ''TURN_TTL_SECONDS'') (\<lambda>rawTtl.
             andThen (parseTurnTtl rawTtl) (\<lambda>ttl.
               ok (Some \<lparr>turnUrls = urls, turnSecret = the secret, turnTtlSeconds = ttl\<rparr>)))))))))"

section \<open>The configuration\<close>

record ServerConfig =
  cfgPort :: nat
  cfgHost :: jsstring
  cfgProduction :: bool
  cfgHardenedDeployment :: bool
  cfgIceServers :: "RTCIceServer list"
  cfgWebRoot :: jsstring
  cfgAllowedOrigins :: "jsstring list option"
  cfgSignalingTopology :: "SignalingTopology option"
  cfgBrowserAllowAnyWss :: bool
  cfgBrowserAllowLoopbackWs :: bool
  cfgTrustedProxyHops :: nat
  cfgTrustedProxyIps :: "jsstring list"
  cfgTurnRest :: "TurnRestConfig option"

definition hasStaticTurnCredential :: "RTCIceServer \<Rightarrow> bool" where
  "hasStaticTurnCredential server \<longleftrightarrow>
     list_ex (\<lambda>u. isTurnIceUrl u \<and> (iceUsername server \<noteq> None \<or> iceCredential server \<noteq> None \<or> hasUrlCredentials u))
       (urlListOf (iceUrls server))"

definition assertNoHardenedStaticTurnCredentials :: "RTCIceServer list \<Rightarrow> bool \<Rightarrow> unit res" where
  "assertNoHardenedStaticTurnCredentials iceServers hardened =
     (if \<not> hardened then ok ()
      else if list_ex hasStaticTurnCredential iceServers
      then throw ''Static TURN credentials in ICE_SERVERS are disabled for public deployments. Use TURN_REST_SECRET and TURN_URLS for ephemeral credentials.''
      else ok ())"

definition isLoopbackBindHost :: "jsstring \<Rightarrow> bool" where
  "isLoopbackBindHost host \<longleftrightarrow> host = js ''::1'' \<or> isLoopbackAuthority host"

definition hasPublicAllowedOrigin :: "urlParser \<Rightarrow> jsstring list option \<Rightarrow> bool" where
  "hasPublicAllowedOrigin url allowedOrigins =
     (case allowedOrigins of None \<Rightarrow> False | Some os \<Rightarrow> list_ex (\<lambda>s. \<not> originUsesLoopbackAuthority url s) os)"

definition hardenedDeploymentRequired :: "urlParser \<Rightarrow> bool \<Rightarrow> jsstring \<Rightarrow> jsstring list option \<Rightarrow> nat \<Rightarrow> bool" where
  "hardenedDeploymentRequired url production host allowedOrigins trustedProxyHops \<longleftrightarrow>
     production \<or> \<not> isLoopbackBindHost host \<or> trustedProxyHops > 0 \<or> hasPublicAllowedOrigin url allowedOrigins"

definition assertRequiredOriginPolicy :: "jsstring list option \<Rightarrow> bool \<Rightarrow> unit res" where
  "assertRequiredOriginPolicy allowedOrigins hardened =
     (if allowedOrigins \<noteq> None then ok ()
      else if hardened then throw ''ALLOWED_ORIGINS is required for public deployments.'' else ok ())"

definition assertRequiredSignalingTopology :: "SignalingTopology option \<Rightarrow> bool \<Rightarrow> unit res" where
  "assertRequiredSignalingTopology topology hardened =
     (if topology \<noteq> None then ok ()
      else if hardened then throw ''SIGNALING_TOPOLOGY must be single-instance or sticky-sessions for public deployments.''
      else ok ())"

definition assertNoUnsupportedOriginBypass :: "jsval \<Rightarrow> unit res" where
  "assertNoUnsupportedOriginBypass env =
     andThen (envValue env ''ALLOW_ANY_ORIGIN'') (\<lambda>raw.
       if raw = Undefined \<or> raw = Str [] \<or> raw = Str (js ''false'') then ok ()
       else throw ''ALLOW_ANY_ORIGIN is not supported. Set an explicit ALLOWED_ORIGINS allowlist.'')"

definition assertHardenedSecureOrigins :: "jsstring list option \<Rightarrow> bool \<Rightarrow> bool \<Rightarrow> unit res" where
  "assertHardenedSecureOrigins allowedOrigins hardened allowInsecureOrigins =
     (if \<not> hardened \<or> allowInsecureOrigins then ok ()
      else if (case allowedOrigins of None \<Rightarrow> False | Some os \<Rightarrow> list_ex (\<lambda>s. startsWith s (js ''http://'')) os)
      then throw ''Public ALLOWED_ORIGINS entries must use https. Set ALLOW_INSECURE_ORIGINS=true only for private deployments.''
      else ok ())"

definition parseBrowserLoopbackWs :: "jsval \<Rightarrow> bool \<Rightarrow> bool res" where
  "parseBrowserLoopbackWs env hardened =
     andThen (envValue env ''BROWSER_ALLOW_LOOPBACK_WS'') (\<lambda>raw.
     andThen (boundedEnvString raw ''BROWSER_ALLOW_LOOPBACK_WS'' MAX_SCALAR_ENV_BYTES) (\<lambda>value.
       if \<not> blank value then parseBooleanEnv raw ''BROWSER_ALLOW_LOOPBACK_WS'' else ok (\<not> hardened)))"

definition loadServerConfig :: "urlParser \<Rightarrow> NumberFormat \<Rightarrow> jsstring \<Rightarrow> jsstring \<Rightarrow> jsval \<Rightarrow> ServerConfig res" where
  "loadServerConfig url nf cwd moduleDir env =
     andThen (andThen (envValue env ''NODE_ENV'') parseProductionEnv) (\<lambda>production.
     andThen (andThen (envValue env ''HOST'') (parseHost url)) (\<lambda>host.
     andThen (andThen (envValue env ''ALLOWED_ORIGINS'') (parseAllowedOrigins url)) (\<lambda>allowedOrigins.
     andThen (andThen (envValue env ''SIGNALING_TOPOLOGY'') parseSignalingTopology) (\<lambda>topology.
     andThen (andThen (envValue env ''TRUSTED_PROXY_HOPS'') parseTrustedProxyHops) (\<lambda>hops.
     andThen (andThen (envValue env ''TRUSTED_PROXY_IPS'') parseTrustedProxyIps) (\<lambda>ips.
     andThen (assertTrustedProxyPolicy hops ips) (\<lambda>_.
       let hardened = hardenedDeploymentRequired url production host allowedOrigins hops in
     andThen (andThen (envValue env ''ICE_SERVERS'') (parseIceServers url nf)) (\<lambda>iceServers.
     andThen (assertNoHardenedStaticTurnCredentials iceServers hardened) (\<lambda>_.
     andThen (assertNoUnsupportedOriginBypass env) (\<lambda>_.
     andThen (andThen (envValue env ''ALLOW_INSECURE_ORIGINS'') (\<lambda>raw. parseBooleanEnv raw ''ALLOW_INSECURE_ORIGINS'')) (\<lambda>allowInsecure.
     andThen (assertRequiredOriginPolicy allowedOrigins hardened) (\<lambda>_.
     andThen (assertRequiredSignalingTopology topology hardened) (\<lambda>_.
     andThen (assertHardenedSecureOrigins allowedOrigins hardened allowInsecure) (\<lambda>_.
     andThen (andThen (envValue env ''PORT'') parsePort) (\<lambda>port.
     andThen (andThen (envValue env ''WEB_ROOT'') (parseWebRoot cwd moduleDir)) (\<lambda>webRoot.
     andThen (andThen (envValue env ''BROWSER_ALLOW_ANY_WSS'') (\<lambda>raw. parseBooleanEnv raw ''BROWSER_ALLOW_ANY_WSS'')) (\<lambda>anyWss.
     andThen (parseBrowserLoopbackWs env hardened) (\<lambda>loopbackWs.
     andThen (parseTurnRestConfig url nf env hardened) (\<lambda>turnRest.
       ok \<lparr>cfgPort = port, cfgHost = host, cfgProduction = production, cfgHardenedDeployment = hardened,
         cfgIceServers = iceServers, cfgWebRoot = webRoot, cfgAllowedOrigins = allowedOrigins,
         cfgSignalingTopology = topology, cfgBrowserAllowAnyWss = anyWss, cfgBrowserAllowLoopbackWs = loopbackWs,
         cfgTrustedProxyHops = hops, cfgTrustedProxyIps = ips, cfgTurnRest = turnRest\<rparr>)))))))))))))))))))"

section \<open>Properties of a loaded configuration\<close>

lemma hardened_assertions:
  "assertNoHardenedStaticTurnCredentials servers h = ok u \<longleftrightarrow> (h \<longrightarrow> \<not> list_ex hasStaticTurnCredential servers)"
  "assertRequiredOriginPolicy os h = ok u \<longleftrightarrow> (h \<longrightarrow> os \<noteq> None)"
  "assertRequiredSignalingTopology t h = ok u \<longleftrightarrow> (h \<longrightarrow> t \<noteq> None)"
  "assertHardenedSecureOrigins os h i = ok u \<longleftrightarrow> (h \<and> \<not> i \<longrightarrow> (\<forall>l. os = Some l \<longrightarrow> \<not> list_ex (\<lambda>s. startsWith s (js ''http://'')) l))"
  "assertTrustedProxyPolicy n ips = ok u \<longleftrightarrow> (0 < n \<longleftrightarrow> ips \<noteq> [])"
  by (auto simp: assertNoHardenedStaticTurnCredentials_def assertRequiredOriginPolicy_def assertRequiredSignalingTopology_def
      assertHardenedSecureOrigins_def assertTrustedProxyPolicy_def split: option.splits)

lemma allowedOriginParts_length: "allowedOriginParts n parts = ok ps \<Longrightarrow> n \<le> 32 \<Longrightarrow> n + length ps \<le> 32"
  by (induction n parts arbitrary: ps rule: allowedOriginParts.induct) (auto split: if_splits)

lemma trustedProxyParts_length: "trustedProxyParts n parts = ok ps \<Longrightarrow> n \<le> 32 \<Longrightarrow> n + length ps \<le> 32"
  by (induction n parts arbitrary: ps rule: trustedProxyParts.induct) (auto split: if_splits)

lemma parseOrigin_ok: "parseOrigin url s = ok t \<Longrightarrow> t = s \<and> (\<exists>parsed. url s = Some parsed \<and> origin parsed = s)"
  by (auto simp: parseOrigin_def split: if_splits option.splits)

lemma parseAllowedOrigins_ok:
  assumes "parseAllowedOrigins url raw = ok (Some os)"
  shows "os \<noteq> []" "length os \<le> 32"
proof -
  obtain s parts where s: "parseAllowedOriginList s = ok parts" "parts \<noteq> []" "mapOk (parseOrigin url) parts = ok os"
    using assms by (auto simp: parseAllowedOrigins_def split: option.splits if_splits)
  moreover have "length parts \<le> 32"
    using s(1) allowedOriginParts_length[of 0] by (auto simp: parseAllowedOriginList_def split: if_splits)
  ultimately show "os \<noteq> []" "length os \<le> 32" by (auto dest: mapOk_length)
qed

lemma parseTrustedProxyIps_length: "parseTrustedProxyIps raw = ok ips \<Longrightarrow> length ips \<le> 32"
  using trustedProxyParts_length[of 0]
  by (auto simp: parseTrustedProxyIps_def parseTrustedProxyIpList_def split: option.splits if_splits dest!: mapOk_length)

lemma parseIntegerEnv_range:
  assumes "parseIntegerEnv raw name d lo hi msg = ok n" "lo \<le> d" "d \<le> hi" shows "lo \<le> n \<and> n \<le> hi"
  using assms by (auto simp: parseIntegerEnv_def split: option.splits if_splits)

lemma parseIceServers_ok: "parseIceServers url nf raw = ok servers \<Longrightarrow> \<exists>v. cloneIceServers url v = ok servers"
  by (auto simp: parseIceServers_def split: option.splits if_splits)

text \<open>A deployment that someone else can reach: production, a host or an allowed origin that is not on
  this machine, or a proxy in front.\<close>

definition publicDeployment :: "urlParser \<Rightarrow> ServerConfig \<Rightarrow> bool" where
  "publicDeployment url c \<longleftrightarrow> cfgProduction c \<or> \<not> isLoopbackBindHost (cfgHost c) \<or> 0 < cfgTrustedProxyHops c
     \<or> (\<exists>os \<in> set_option (cfgAllowedOrigins c). \<exists>s \<in> set os. \<not> originUsesLoopbackAuthority url s)"

lemma hardened_required_public:
  "hardenedDeploymentRequired url (cfgProduction c) (cfgHost c) (cfgAllowedOrigins c) (cfgTrustedProxyHops c) \<longleftrightarrow> publicDeployment url c"
  by (auto simp: hardenedDeploymentRequired_def publicDeployment_def hasPublicAllowedOrigin_def list_ex_iff split: option.splits)

text \<open>What \<open>loadServerConfig\<close> checked when it returns.\<close>

lemma load_checks:
  assumes "loadServerConfig url nf cwd moduleDir env = ok c"
  shows "cfgHardenedDeployment c \<longleftrightarrow> publicDeployment url c"
    and "\<exists>raw. parseAllowedOrigins url raw = ok (cfgAllowedOrigins c)"
    and "\<exists>raw. parseTrustedProxyHops raw = ok (cfgTrustedProxyHops c)"
    and "\<exists>raw. parseTrustedProxyIps raw = ok (cfgTrustedProxyIps c)"
    and "\<exists>raw. parsePort raw = ok (cfgPort c)"
    and "\<exists>raw. parseIceServers url nf raw = ok (cfgIceServers c)"
    and "assertTrustedProxyPolicy (cfgTrustedProxyHops c) (cfgTrustedProxyIps c) = ok ()"
    and "assertNoHardenedStaticTurnCredentials (cfgIceServers c) (cfgHardenedDeployment c) = ok ()"
    and "assertRequiredOriginPolicy (cfgAllowedOrigins c) (cfgHardenedDeployment c) = ok ()"
    and "assertRequiredSignalingTopology (cfgSignalingTopology c) (cfgHardenedDeployment c) = ok ()"
    and "\<exists>raw insecure. envValue env ''ALLOW_INSECURE_ORIGINS'' = ok raw \<and> parseBooleanEnv raw ''ALLOW_INSECURE_ORIGINS'' = ok insecure
      \<and> assertHardenedSecureOrigins (cfgAllowedOrigins c) (cfgHardenedDeployment c) insecure = ok ()"
    and "parseTurnRestConfig url nf env (cfgHardenedDeployment c) = ok (cfgTurnRest c)"
  using assms hardened_required_public[of url c] unfolding loadServerConfig_def Let_def andThen_eq_Inr by auto

lemma parseBooleanEnv_True: "parseBooleanEnv raw name = ok True \<Longrightarrow> raw = Str (js ''true'')"
  by (cases raw) (auto simp: parseBooleanEnv_def boundedEnvString_def optionalEnvString_def requiredEnvString_def blank_def split: option.splits if_splits)

lemma turn_rest_acknowledged:
  "parseTurnRestConfig url nf env True = ok (Some t) \<Longrightarrow> envValue env ''TURN_REST_ALLOW_UNVERIFIED_ACCEPT'' = ok (Str (js ''true''))"
  by (auto simp: parseTurnRestConfig_def assertTurnRestPublicIssuanceAcknowledged_def Let_def split: if_splits dest!: parseBooleanEnv_True)

text \<open>C12: The configuration of a public deployment is safe or the server does not start: whenever
  \<open>loadServerConfig\<close> returns and the deployment is public, there is an explicit list of between 1 and 32
  allowed origins, none of them plain \<open>http\<close> unless \<open>ALLOW_INSECURE_ORIGINS\<close> is \<open>true\<close>, a signaling topology,
  no long-lived TURN credential, and no TURN REST credentials unless
  \<open>TURN_REST_ALLOW_UNVERIFIED_ACCEPT\<close> is \<open>true\<close>.
\<close>

theorem public_deployment_policy:
  assumes "loadServerConfig url nf cwd moduleDir env = ok c" "publicDeployment url c"
  shows "(\<exists>os. cfgAllowedOrigins c = Some os \<and> os \<noteq> [] \<and> length os \<le> 32
      \<and> (envValue env ''ALLOW_INSECURE_ORIGINS'' = ok (Str (js ''true'')) \<or> \<not> list_ex (\<lambda>s. startsWith s (js ''http://'')) os))
    \<and> cfgSignalingTopology c \<noteq> None
    \<and> \<not> list_ex hasStaticTurnCredential (cfgIceServers c)
    \<and> (cfgTurnRest c = None \<or> envValue env ''TURN_REST_ALLOW_UNVERIFIED_ACCEPT'' = ok (Str (js ''true'')))"
proof -
  note checks = load_checks[OF assms(1)]
  have h: "cfgHardenedDeployment c" using checks(1) assms(2) by simp
  from checks(9) h obtain os where os: "cfgAllowedOrigins c = Some os" by (auto simp: hardened_assertions)
  from checks(2) os have "os \<noteq> [] \<and> length os \<le> 32" by (auto dest: parseAllowedOrigins_ok)
  moreover from checks(11) h os have "envValue env ''ALLOW_INSECURE_ORIGINS'' = ok (Str (js ''true''))
      \<or> \<not> list_ex (\<lambda>s. startsWith s (js ''http://'')) os"
    by (auto simp: hardened_assertions dest!: parseBooleanEnv_True)
  moreover have "cfgTurnRest c = None \<or> envValue env ''TURN_REST_ALLOW_UNVERIFIED_ACCEPT'' = ok (Str (js ''true''))"
    using checks(12) h by (cases "cfgTurnRest c") (auto dest: turn_rest_acknowledged)
  moreover have "cfgSignalingTopology c \<noteq> None" using checks(10) h by (simp add: hardened_assertions)
  moreover have "\<not> list_ex hasStaticTurnCredential (cfgIceServers c)" using checks(8) h by (simp add: hardened_assertions)
  ultimately show ?thesis using os by blast
qed

text \<open>A production environment with one allowed origin.\<close>

definition sampleUrl :: urlParser where
  "sampleUrl s = (if s = js ''https://files.example'' then
     Some \<lparr>protocol = js ''https:'', urlUsername = [], urlPassword = [], hostname = js ''files.example'', urlPort = [], pathname = js ''/'',
       urlSearch = [], urlHash = [], href = js ''https://files.example/'', origin = js ''https://files.example''\<rparr> else None)"

definition sampleNumbers :: NumberFormat where
  "sampleNumbers = \<lparr>otherText = (\<lambda>_. []), otherValue = (\<lambda>_. NNaN)\<rparr>"

definition sampleEnv :: jsval where
  "sampleEnv = jobj [(''NODE_ENV'', Str (js ''production'')), (''ALLOWED_ORIGINS'', Str (js ''https://files.example'')),
     (''SIGNALING_TOPOLOGY'', Str (js ''single-instance''))]"

lemma boundedEnvString_simps:
  "boundedEnvString Undefined name n = ok None"
  "utf8ByteLength s \<le> n \<Longrightarrow> boundedEnvString (Str s) name n = ok (Some s)"
  by (auto simp: boundedEnvString_def optionalEnvString_def requiredEnvString_def assertEnvStringByteLength_def)

lemma unset_variables:
  "parseHost url Undefined = ok (js ''127.0.0.1'')" "parseTrustedProxyHops Undefined = ok 0" "parseTrustedProxyIps Undefined = ok []"
  "parseIceServers url nf Undefined = cloneIceServers url DEFAULT_ICE_SERVERS" "parseBooleanEnv Undefined name = ok False"
  "parsePort Undefined = ok 8787" "parseWebRoot cwd dir Undefined = ok (pathResolve dir (js ''../../dist-web''))"
  by (simp_all add: parseHost_def parseTrustedProxyHops_def parseTrustedProxyIps_def parseIntegerEnv_def parseIceServers_def parseBooleanEnv_def
      parsePort_def parseWebRoot_def boundedEnvString_simps blank_def)

lemmas host_eval = authority_eval isValidAuthority_def splitAuthority_def isValidHostNameOrIp_def isStrictDottedIpv4_def isRawIpv6Address_def
  isAmbiguousNumericHost_def digits_def hexDigits_def ascii_class_defs asciiFold_def isValidHostname_def hostLabel_def isValidPort_def
  ipv4Part_def decValue_def lastIndexOf_def

lemma default_ice_urls:
  "iceUrlOk url (js ''stun:stun.l.google.com:19302'')" "iceUrlOk url (js ''stun:stun.cloudflare.com:3478'')"
  by (simp_all add: iceUrlOk_def iceUrlAuthority_def host_eval hasControlFormatOrSpace_def MAX_CLONED_ICE_URL_CHARS_def)

lemma default_ice_servers: "\<exists>servers. cloneIceServers url DEFAULT_ICE_SERVERS = ok servers \<and> \<not> list_ex hasStaticTurnCredential servers"
proof -
  let ?s = "\<lambda>u. \<lparr>iceUrls = OneUrl (js u), iceUsername = None, iceCredential = None, iceCredentialType = None\<rparr>"
  let ?ss = "[?s ''stun:stun.l.google.com:19302'', ?s ''stun:stun.cloudflare.com:3478'']"
  have "DEFAULT_ICE_SERVERS = iceServersValue ?ss"
    by (simp add: DEFAULT_ICE_SERVERS_def iceServersValue_def iceServerValue_def urlsValue_def fieldValue_def)
  moreover have "list_all (wfIceServer url) ?ss"
    by (simp add: wfIceServer_def default_ice_urls isTurnIceUrl_def limit_defs) (simp add: js_def asciiFold_def ascii_class_defs)
  ultimately have "cloneIceServers url DEFAULT_ICE_SERVERS = ok ?ss"
    using cloneIceServers_value[of url ?ss] by (simp add: MAX_CLONED_ICE_SERVERS_def)
  moreover have "\<not> list_ex hasStaticTurnCredential ?ss"
    by (simp add: hasStaticTurnCredential_def isTurnIceUrl_def js_def asciiFold_def ascii_class_defs)
  ultimately show ?thesis by blast
qed

lemma sample_origins: "parseAllowedOrigins sampleUrl (Str (js ''https://files.example'')) = ok (Some [js ''https://files.example''])"
  by (simp add: parseAllowedOrigins_def boundedEnvString_simps utf8ByteLength_ascii MAX_ALLOWED_ORIGINS_ENV_BYTES_def parseAllowedOriginList_def
      trim_def parseOrigin_def sampleUrl_def isValidOriginHostname_def unbracket_def unsafeOriginChar_def host_eval)

lemma sample_settings:
  "parseProductionEnv (Str (js ''production'')) = ok True"
  "parseSignalingTopology (Str (js ''single-instance'')) = ok (Some SingleInstance)"
  by (simp_all add: parseProductionEnv_def parseSignalingTopology_def boundedEnvString_simps utf8ByteLength_ascii MAX_SCALAR_ENV_BYTES_def
      trim_def isSpace_def js_def)

lemma sample_env:
  "envValue sampleEnv name = ok (case map_of [(''NODE_ENV'', Str (js ''production'')), (''ALLOWED_ORIGINS'', Str (js ''https://files.example'')),
     (''SIGNALING_TOPOLOGY'', Str (js ''single-instance''))] name of None \<Rightarrow> Undefined | Some v \<Rightarrow> v)"
  unfolding sampleEnv_def envValue_def ownDescriptor_jobj by (simp add: jobj_def split: option.split)

lemma sample_load:
  "\<exists>c. loadServerConfig sampleUrl sampleNumbers (js ''/'') (js ''/srv/dist/server'') sampleEnv = ok c \<and> cfgProduction c"
proof -
  obtain servers where "cloneIceServers sampleUrl DEFAULT_ICE_SERVERS = ok servers" "\<not> list_ex hasStaticTurnCredential servers"
    using default_ice_servers by blast
  moreover have "\<not> startsWith (js ''https://files.example'') (js ''http://'')" by (simp add: startsWith_def js_def)
  ultimately show ?thesis
    by (simp add: loadServerConfig_def sample_env sample_settings sample_origins unset_variables assertTrustedProxyPolicy_def
        assertNoHardenedStaticTurnCredentials_def assertNoUnsupportedOriginBypass_def assertRequiredOriginPolicy_def
        assertRequiredSignalingTopology_def assertHardenedSecureOrigins_def parseBrowserLoopbackWs_def parseTurnRestConfig_def
        boundedEnvString_simps optionalEnvString_def blank_def Let_def)
qed

theorem public_deployment_policy_witness:
  "\<exists>c os. loadServerConfig sampleUrl sampleNumbers (js ''/'') (js ''/srv/dist/server'') sampleEnv = ok c
    \<and> publicDeployment sampleUrl c \<and> cfgAllowedOrigins c = Some os \<and> cfgSignalingTopology c \<noteq> None"
proof -
  obtain c where c: "loadServerConfig sampleUrl sampleNumbers (js ''/'') (js ''/srv/dist/server'') sampleEnv = ok c" "cfgProduction c"
    using sample_load by blast
  then have "publicDeployment sampleUrl c" by (simp add: publicDeployment_def)
  with public_deployment_policy[OF c(1)] c(1) show ?thesis by blast
qed

end
