(* ===== verification/TurnCredentials.thy ===== *)
theory TurnCredentials
  imports Configuration
begin

text \<open>
  The ICE servers the server hands out, the second half of \<open>src/src/server/config.ts\<close>: the list sent
  to the peers of an accepted session, with short-lived TURN credentials, and the public list of
  \<open>/v1/ice\<close>. Both read the configuration through its own properties again. The random part of the
  user name and the base64 text of the HMAC are parameters.
\<close>

section \<open>Definitions\<close>

definition requiredField :: "jsval \<Rightarrow> string \<Rightarrow> string \<Rightarrow> jsval res" where
  "requiredField v key msg = andThen (descriptorValue msg (ownDescriptor v key)) (definedOr msg)"

text \<open>The URL list of a TURN REST configuration: URLs as they are, strings checked in the end.\<close>

definition assertRuntimeTurnUrlList :: "urlParser \<Rightarrow> jsval list \<Rightarrow> unit res" where
  "assertRuntimeTurnUrlList url urls =
     (if length urls = 0 \<or> length urls > MAX_TURN_URLS
         \<or> \<not> list_all (\<lambda>v. case v of Str u \<Rightarrow> isTurnRestUrl url u \<and> \<not> hasUrlCredentials u | _ \<Rightarrow> False) urls
      then throw ''TURN REST config is invalid.'' else ok ())"

definition turnUrlElement :: "jsval pdesc option \<Rightarrow> jsval res" where
  "turnUrlElement d = andThen (descriptorValue ''TURN REST config is invalid.'' d) (definedOr ''TURN REST config is invalid.'')"

definition cloneTurnRestUrls :: "urlParser \<Rightarrow> jsval \<Rightarrow> IceUrls res" where
  "cloneTurnRestUrls url v =
     (case v of
        Str u \<Rightarrow> andThen (assertRuntimeTurnUrlList url [v]) (\<lambda>_. ok (OneUrl u))
      | Arr es \<Rightarrow>
          if length es = 0 \<or> length es > MAX_TURN_URLS then throw ''TURN REST config is invalid.''
          else andThen (mapOk turnUrlElement es) (\<lambda>urls.
               andThen (assertRuntimeTurnUrlList url urls) (\<lambda>_. ok (UrlList (map strValue urls))))
      | _ \<Rightarrow> throw ''TURN REST config is invalid.'')"

definition assertRuntimeTurnSecret :: "jsval \<Rightarrow> jsstring res" where
  "assertRuntimeTurnSecret v =
     (case v of
        Str s \<Rightarrow>
          if utf8ByteLength s < TURN_REST_SECRET_MIN_BYTES \<or> utf8ByteLength s > MAX_TURN_REST_SECRET_BYTES \<or> hasControlOrFormat s
          then throw ''TURN REST config is invalid.'' else ok s
      | _ \<Rightarrow> throw ''TURN REST config is invalid.'')"

definition assertRuntimeTurnTtl :: "jsval \<Rightarrow> nat res" where
  "assertRuntimeTurnTtl v =
     (case v of
        Number (NInt i) \<Rightarrow> if i < 60 \<or> i > 86400 then throw ''TURN REST config is invalid.'' else ok (nat i)
      | _ \<Rightarrow> throw ''TURN REST config is invalid.'')"

definition cloneTurnRestConfig :: "urlParser \<Rightarrow> jsval \<Rightarrow> TurnRestConfig res" where
  "cloneTurnRestConfig url v =
     (if \<not> isRecordValue v then throw ''TURN REST config is invalid.''
      else andThen (andThen (requiredField v ''urls'' ''TURN REST config is invalid.'') (cloneTurnRestUrls url)) (\<lambda>urls.
           andThen (requiredField v ''secret'' ''TURN REST config is invalid.'') (\<lambda>rawSecret.
           andThen (requiredField v ''ttlSeconds'' ''TURN REST config is invalid.'') (\<lambda>rawTtl.
           andThen (assertRuntimeTurnSecret rawSecret) (\<lambda>secret.
           andThen (assertRuntimeTurnTtl rawTtl) (\<lambda>ttl.
             ok \<lparr>turnUrls = urls, turnSecret = secret, turnTtlSeconds = ttl\<rparr>))))))"

text \<open>The object the configuration holds for TURN REST.\<close>

definition turnRestValue :: "TurnRestConfig \<Rightarrow> jsval" where
  "turnRestValue t = jobj [(''urls'', urlsValue (turnUrls t)), (''secret'', Str (turnSecret t)), (''ttlSeconds'', jnat (turnTtlSeconds t))]"

definition configIceServers :: "urlParser \<Rightarrow> ServerConfig \<Rightarrow> RTCIceServer list res" where
  "configIceServers url config = cloneIceServers url (iceServersValue (cfgIceServers config))"

definition configTurnRest :: "urlParser \<Rightarrow> ServerConfig \<Rightarrow> TurnRestConfig option res" where
  "configTurnRest url config =
     (case cfgTurnRest config of
        None \<Rightarrow> ok None
      | Some t \<Rightarrow> andThen (cloneTurnRestConfig url (turnRestValue t)) (\<lambda>t'. ok (Some t')))"

definition hasTurnRestConfig :: "urlParser \<Rightarrow> ServerConfig \<Rightarrow> bool res" where
  "hasTurnRestConfig url config = andThen (configTurnRest url config) (\<lambda>t. ok (t \<noteq> None))"

definition turnCredentialExpiresAt :: "jsnum \<Rightarrow> nat \<Rightarrow> nat res" where
  "turnCredentialExpiresAt now ttlSeconds =
     (case now of
        NInt i \<Rightarrow> if i < 0 \<or> i > MAX_SAFE_INTEGER then throw ''TURN credential timestamp is invalid.'' else ok (nat (i div 1000) + ttlSeconds)
      | NFrac r \<Rightarrow>
          if r < 0 \<or> r > of_int MAX_SAFE_INTEGER then throw ''TURN credential timestamp is invalid.''
          else ok (nat \<lfloor>r / 1000\<rfloor> + ttlSeconds)
      | _ \<Rightarrow> throw ''TURN credential timestamp is invalid.'')"

definition iceServersForRequest ::
  "urlParser \<Rightarrow> (jsstring \<Rightarrow> jsstring \<Rightarrow> jsstring) \<Rightarrow> ServerConfig \<Rightarrow> jsnum \<Rightarrow> jsstring \<Rightarrow> RTCIceServer list res" where
  "iceServersForRequest url hmacBase64 config now token =
     andThen (configIceServers url config) (\<lambda>iceServers.
     andThen (configTurnRest url config) (\<lambda>turnRest.
       case turnRest of
         None \<Rightarrow> ok iceServers
       | Some t \<Rightarrow>
           andThen (turnCredentialExpiresAt now (turnTtlSeconds t)) (\<lambda>expires.
             let username = dec expires @ 58 # token; credential = hmacBase64 (turnSecret t) username in
             ok (iceServers @ [\<lparr>iceUrls = turnUrls t, iceUsername = Some username, iceCredential = Some credential,
               iceCredentialType = None\<rparr>]))))"

fun runtimeStrings :: "string \<Rightarrow> jsval pdesc option list \<Rightarrow> jsstring list option res" where
  "runtimeStrings msg [] = ok (Some [])"
| "runtimeStrings msg (Some (DataProp e (Str s)) # rest) = andThen (runtimeStrings msg rest) (\<lambda>r. ok (map_option ((#) s) r))"
| "runtimeStrings msg (Some (DataProp e v) # rest) = ok None"
| "runtimeStrings msg (d # rest) = throw msg"

definition runtimeStringArray :: "jsval \<Rightarrow> string \<Rightarrow> jsstring list option res" where
  "runtimeStringArray v msg =
     (case v of Arr es \<Rightarrow> if length es < 1 \<or> length es > 8 then ok None else runtimeStrings msg es | _ \<Rightarrow> ok None)"

definition stunServer :: "jsstring list \<Rightarrow> RTCIceServer" where
  "stunServer urls = \<lparr>iceUrls = (if length urls = 1 then OneUrl (hd urls) else UrlList urls),
     iceUsername = None, iceCredential = None, iceCredentialType = None\<rparr>"

definition publicIceServerFromRuntimeValue :: "urlParser \<Rightarrow> jsval \<Rightarrow> RTCIceServer option res" where
  "publicIceServerFromRuntimeValue url v =
     (if \<not> isRecordValue v then ok None
      else andThen (requiredField v ''urls'' ''Server config fields must be data properties.'') (\<lambda>rawUrls.
           andThen (case rawUrls of Str u \<Rightarrow> ok (Some [u]) | _ \<Rightarrow> runtimeStringArray rawUrls ''Server config fields must be data properties.'') (\<lambda>urls.
             case urls of
               None \<Rightarrow> ok None
             | Some us \<Rightarrow>
                 let publicUrls = filter (isPublicStunUrl url) us in
                 ok (if length publicUrls = 0 then None else Some (stunServer publicUrls)))))"

text \<open>The loop over the servers of the configuration.\<close>

fun publicServers :: "urlParser \<Rightarrow> jsval list \<Rightarrow> RTCIceServer list res" where
  "publicServers url [] = ok []"
| "publicServers url (v # rest) =
     andThen (publicIceServerFromRuntimeValue url v) (\<lambda>s.
     andThen (publicServers url rest) (\<lambda>ss. ok ((case s of None \<Rightarrow> [] | Some x \<Rightarrow> [x]) @ ss)))"

definition publicConfigIceServers :: "urlParser \<Rightarrow> ServerConfig \<Rightarrow> RTCIceServer list res" where
  "publicConfigIceServers url config =
     (if length (cfgIceServers config) > 16 then throw ''Server config is invalid.''
      else publicServers url (map iceServerValue (cfgIceServers config)))"

definition publicIceServer :: "urlParser \<Rightarrow> RTCIceServer \<Rightarrow> RTCIceServer list" where
  "publicIceServer url server =
     (let publicUrls = filter (isPublicStunUrl url) (urlListOf (iceUrls server)) in
      if length publicUrls = 0 then [] else [stunServer publicUrls])"

definition iceServersForUnauthenticatedRequest :: "urlParser \<Rightarrow> ServerConfig \<Rightarrow> RTCIceServer list res" where
  "iceServersForUnauthenticatedRequest url config =
     andThen (publicConfigIceServers url config) (\<lambda>servers.
       let publics = concat (map (publicIceServer url) servers) in
       if length publics > 0 then ok publics else cloneIceServers url DEFAULT_ICE_SERVERS)"

section \<open>The public list\<close>

lemma schemeAuthority_mono: "set xs \<subseteq> set ys \<Longrightarrow> schemeAuthority xs u = Some a \<Longrightarrow> schemeAuthority ys u = Some a"
  by (auto simp: schemeAuthority_def Let_def split: option.splits if_splits)

lemma iceUrlAuthority_scheme: "iceUrlAuthority u = schemeAuthority [''stun'', ''stuns'', ''turn'', ''turns''] u"
  by (simp add: iceUrlAuthority_def schemeAuthority_def)

lemma server_url_is_ice_url:
  assumes "isServerUrlOf schemes url u" "set schemes \<subseteq> {''stun'', ''stuns'', ''turn'', ''turns''}"
  shows "iceUrlOk url u"
proof -
  from assms(1) obtain a where a: "schemeAuthority schemes u = Some a" "isValidAuthority url a"
    by (auto simp: isServerUrlOf_def split: option.splits)
  have "iceUrlAuthority u = Some a" unfolding iceUrlAuthority_scheme using assms(2) by (intro schemeAuthority_mono[OF _ a(1)]) simp
  with a(2) assms(1) show ?thesis by (simp add: iceUrlOk_def isServerUrlOf_def limit_defs)
qed

text \<open>A STUN URL by its scheme, with no user information.\<close>

definition plainStunUrl :: "jsstring \<Rightarrow> bool" where
  "plainStunUrl u \<longleftrightarrow> (asciiFold (take 5 u) = js ''stun:'' \<or> asciiFold (take 6 u) = js ''stuns:'') \<and> 64 \<notin> set u"

definition credentialFree :: "RTCIceServer \<Rightarrow> bool" where
  "credentialFree s \<longleftrightarrow> iceUsername s = None \<and> iceCredential s = None \<and> iceCredentialType s = None
     \<and> urlListOf (iceUrls s) \<noteq> [] \<and> list_all plainStunUrl (urlListOf (iceUrls s))"

lemma bmp_unit_codePoint: "c \<in> set s \<Longrightarrow> c < 0xd800 \<Longrightarrow> c \<in> set (codePoints s)"
  by (induction s rule: strChars.induct) (auto simp: codePoints_def isHighSurrogate_def isLowSurrogate_def)

lemma asciiFold_at: "64 \<in> set s \<Longrightarrow> 64 \<in> set (asciiFold s)"
  by (force simp: asciiFold_def isUpperAZ_def)

lemma schemeAuthority_scheme:
  assumes "schemeAuthority schemes u = Some a"
  obtains i q where "u = take i u @ 58 # a @ q" "i < length u" "asciiFold (take i u) \<in> set (map js schemes)"
    "q = [] \<or> asciiFold q \<in> {js ''?transport=udp'', js ''?transport=tcp''}"
proof -
  obtain i where i: "indexOf 58 u = Some i" "asciiFold (take i u) \<in> set (map js schemes)"
    and a: "a = takeWhile (\<lambda>c. c \<noteq> 63) (drop (Suc i) u)"
    and q: "dropWhile (\<lambda>c. c \<noteq> 63) (drop (Suc i) u) = []
      \<or> asciiFold (dropWhile (\<lambda>c. c \<noteq> 63) (drop (Suc i) u)) \<in> {js ''?transport=udp'', js ''?transport=tcp''}"
    using assms by (auto simp: schemeAuthority_def Let_def split: option.splits if_splits)
  have "u = take i u @ 58 # drop (Suc i) u" "i < length u" using indexOf_Some[OF i(1)] take_drop_nth[of i u] by auto
  then show thesis using that[of i "dropWhile (\<lambda>c. c \<noteq> 63) (drop (Suc i) u)"] i(2) q by (simp add: a)
qed

lemma public_stun_plain:
  assumes "isPublicStunUrl url u" shows "plainStunUrl u"
proof -
  obtain a where a: "schemeAuthority [''stun'', ''stuns''] u = Some a" "isValidAuthority url a"
    using assms by (auto simp: isPublicStunUrl_def isServerUrlOf_def split: option.splits)
  obtain i q where u: "u = take i u @ 58 # a @ q" "i < length u" "asciiFold (take i u) \<in> {js ''stun'', js ''stuns''}"
    and q: "q = [] \<or> asciiFold q \<in> {js ''?transport=udp'', js ''?transport=tcp''}"
    using schemeAuthority_scheme[OF a(1)] by auto
  have i: "length (asciiFold (take i u)) = i" "u ! i = 58"
    using u(2) nth_append_length[of "take i u" 58 "a @ q"] u(1) by (simp_all add: asciiFold_def)
  have "take (Suc i) u = take i u @ [58]" using u(2) i(2) by (simp add: take_Suc_conv_app_nth)
  then have fold: "asciiFold (take (Suc i) u) = asciiFold (take i u) @ [58]" by (simp add: asciiFold_def isUpperAZ_def)
  have "i = 4 \<and> asciiFold (take i u) = js ''stun'' \<or> i = 5 \<and> asciiFold (take i u) = js ''stuns''"
    using u(3) i(1) by (auto simp: js_def)
  then have "asciiFold (take 5 u) = js ''stun:'' \<or> asciiFold (take 6 u) = js ''stuns:''"
    using fold by (auto simp: js_def)
  moreover have "64 \<notin> set (take i u)" using u(3) asciiFold_at[of "take i u"] by (auto simp: js_def)
  moreover have "64 \<notin> set a"
    using a(2) bmp_unit_codePoint[of 64 a] by (auto simp: isValidAuthority_def authorityInputAllowed_def unsafeAuthorityChar_def list_ex_iff)
  moreover have "64 \<notin> set q" using q asciiFold_at[of q] by (auto simp: js_def)
  moreover have "set u = set (take i u) \<union> {58} \<union> set a \<union> set q" by (subst u(1)) auto
  ultimately show ?thesis by (simp add: plainStunUrl_def)
qed

lemma stunServer_urls [simp]: "urls \<noteq> [] \<Longrightarrow> urlListOf (iceUrls (stunServer urls)) = urls"
  by (cases urls) (auto simp: stunServer_def)

lemma stunServer_credentialFree: "urls \<noteq> [] \<Longrightarrow> list_all (isPublicStunUrl url) urls \<Longrightarrow> credentialFree (stunServer urls)"
  using stunServer_urls[of urls] public_stun_plain
  by (simp add: credentialFree_def list_all_iff) (auto simp: stunServer_def)

lemma publicIceServer_free: "list_all credentialFree (publicIceServer url s)"
  by (auto simp: publicIceServer_def Let_def list_all_iff intro!: stunServer_credentialFree)

lemma default_stun: "list_all (isPublicStunUrl url) [js ''stun:stun.l.google.com:19302'', js ''stun:stun.cloudflare.com:3478'']"
  by (simp add: isPublicStunUrl_def isServerUrlOf_def schemeAuthority_def host_eval hasControlFormatOrSpace_def MAX_TURN_URL_CHARS_def)

lemma default_clone:
  "cloneIceServers url DEFAULT_ICE_SERVERS = ok (map (\<lambda>u. stunServer [u]) [js ''stun:stun.l.google.com:19302'', js ''stun:stun.cloudflare.com:3478''])"
    (is "_ = ok ?ss")
proof -
  have "DEFAULT_ICE_SERVERS = iceServersValue ?ss"
    by (simp add: DEFAULT_ICE_SERVERS_def iceServersValue_def iceServerValue_def urlsValue_def fieldValue_def stunServer_def)
  moreover have "list_all (wfIceServer url) ?ss"
    by (simp add: wfIceServer_def default_ice_urls limit_defs stunServer_def isTurnIceUrl_def) (simp add: js_def asciiFold_def ascii_class_defs)
  ultimately show ?thesis using cloneIceServers_value[of url ?ss] by (simp add: MAX_CLONED_ICE_SERVERS_def)
qed

lemma runtimeStrings_Str: "runtimeStrings msg (map (\<lambda>u. Some (DataProp True (Str u))) us) = ok (Some us)"
  by (induction us) auto

text \<open>Reading back a server of the configuration never throws.\<close>

lemma public_of_server:
  assumes "wfIceServer url s"
  shows "publicIceServerFromRuntimeValue url (iceServerValue s)
    = ok (case publicIceServer url s of [] \<Rightarrow> None | x # _ \<Rightarrow> Some x)"
proof -
  have "(case urlsValue (iceUrls s) of Str u \<Rightarrow> ok (Some [u]) | _ \<Rightarrow> runtimeStringArray (urlsValue (iceUrls s)) msg)
    = ok (Some (urlListOf (iceUrls s)))" for msg
    using assms by (cases "iceUrls s")
      (auto simp: urlsValue_def runtimeStringArray_def jarr_def comp_def runtimeStrings_Str wfIceServer_def MAX_CLONED_ICE_URLS_PER_SERVER_def)
  then show ?thesis
    by (simp add: publicIceServerFromRuntimeValue_def requiredField_def fieldValue_of definedOr_def urlsValue_defined publicIceServer_def Let_def)
qed

lemma public_of_servers:
  "list_all (wfIceServer url) servers \<Longrightarrow> publicServers url (map iceServerValue servers) = ok (concat (map (publicIceServer url) servers))"
  by (induction servers) (auto simp: public_of_server publicIceServer_def Let_def)

text \<open>C27: The list of \<open>/v1/ice\<close>, which anybody may ask for, never fails and never discloses a credential: for every
  configuration that loads it is a non-empty list of servers whose URLs all have the scheme \<open>stun:\<close> or
  \<open>stuns:\<close> and no user information, without user name, credential or credential type.
\<close>

theorem public_ice_without_credentials:
  assumes "loadServerConfig url nf cwd moduleDir env = ok c"
  shows "\<exists>servers. iceServersForUnauthenticatedRequest url c = ok servers \<and> servers \<noteq> [] \<and> list_all credentialFree servers"
proof -
  obtain v where v: "cloneIceServers url v = ok (cfgIceServers c)" using load_checks(6)[OF assms] by (blast dest: parseIceServers_ok)
  define publics where "publics = concat (map (publicIceServer url) (concat (map (publicIceServer url) (cfgIceServers c))))"
  have eq: "iceServersForUnauthenticatedRequest url c = (if publics \<noteq> [] then ok publics else cloneIceServers url DEFAULT_ICE_SERVERS)"
    using cloneIceServers_wf[OF v]
    by (simp add: iceServersForUnauthenticatedRequest_def publicConfigIceServers_def public_of_servers publics_def Let_def MAX_CLONED_ICE_SERVERS_def)
  have "list_all credentialFree publics" using publicIceServer_free unfolding publics_def by (fastforce simp: list_all_iff)
  moreover have "list_all credentialFree (map (\<lambda>u. stunServer [u]) [js ''stun:stun.l.google.com:19302'', js ''stun:stun.cloudflare.com:3478''])"
    using default_stun[of url] by (simp add: stunServer_credentialFree[where url = url])
  ultimately show ?thesis unfolding eq default_clone by (cases "publics = []") auto
qed

theorem public_ice_without_credentials_witness:
  "\<exists>c servers. loadServerConfig sampleUrl sampleNumbers (js ''/'') (js ''/srv/dist/server'') sampleEnv = ok c
    \<and> iceServersForUnauthenticatedRequest sampleUrl c = ok servers \<and> servers \<noteq> [] \<and> list_all credentialFree servers"
proof -
  obtain c where c: "loadServerConfig sampleUrl sampleNumbers (js ''/'') (js ''/srv/dist/server'') sampleEnv = ok c"
    using sample_load by blast
  with public_ice_without_credentials[OF c] show ?thesis by blast
qed

section \<open>The list of a session\<close>

definition wfTurnRest :: "urlParser \<Rightarrow> TurnRestConfig \<Rightarrow> bool" where
  "wfTurnRest url t \<longleftrightarrow>
     1 \<le> length (urlListOf (turnUrls t)) \<and> length (urlListOf (turnUrls t)) \<le> MAX_TURN_URLS
     \<and> list_all (\<lambda>u. isTurnRestUrl url u \<and> \<not> hasUrlCredentials u) (urlListOf (turnUrls t))
     \<and> TURN_REST_SECRET_MIN_BYTES \<le> utf8ByteLength (turnSecret t) \<and> utf8ByteLength (turnSecret t) \<le> MAX_TURN_REST_SECRET_BYTES
     \<and> \<not> hasControlOrFormat (turnSecret t) \<and> 60 \<le> turnTtlSeconds t \<and> turnTtlSeconds t \<le> 86400"

lemma checkTurnUrls_ok: "checkTurnUrls url us = ok () \<longleftrightarrow> list_all (\<lambda>u. isTurnRestUrl url u \<and> \<not> hasUrlCredentials u) us"
  by (induction us) auto

lemma parseTurnUrls_ok:
  assumes "parseTurnUrls url nf v = ok us"
  shows "list_all (\<lambda>u. isTurnRestUrl url u \<and> \<not> hasUrlCredentials u) (urlListOf us)
    \<and> 1 \<le> length (urlListOf us) \<and> length (urlListOf us) \<le> MAX_TURN_URLS"
proof -
  have "list_all (\<lambda>u. isTurnRestUrl url u \<and> \<not> hasUrlCredentials u) (urlListOf us)"
    using assms by (auto simp: parseTurnUrls_def Let_def checkTurnUrls_ok split: option.splits)
  moreover have "1 \<le> length (urlListOf us) \<and> length (urlListOf us) \<le> MAX_TURN_URLS"
    using assms by (auto simp: parseTurnUrls_def parseTurnUrlArray_def Let_def MAX_TURN_URLS_def Suc_le_eq split: option.splits jsval.splits if_splits)
  ultimately show ?thesis by blast
qed

lemma parseTurnRestConfig_ok: "parseTurnRestConfig url nf env h = ok (Some t) \<Longrightarrow> wfTurnRest url t"
  by (auto simp: parseTurnRestConfig_def wfTurnRest_def Let_def parseTurnTtl_def split: if_splits
      dest!: parseTurnUrls_ok parseIntegerEnv_range)

lemma cloneTurnRestUrls_value:
  assumes "wfTurnRest url t" shows "cloneTurnRestUrls url (urlsValue (turnUrls t)) = ok (turnUrls t)"
proof (cases "turnUrls t")
  case (OneUrl u)
  then show ?thesis using assms by (simp add: wfTurnRest_def cloneTurnRestUrls_def urlsValue_def assertRuntimeTurnUrlList_def MAX_TURN_URLS_def)
next
  case (UrlList us)
  have "mapOk (\<lambda>u. turnUrlElement (Some (DataProp True (Str u)))) us = ok (map Str us)"
    by (induction us) (auto simp: turnUrlElement_def definedOr_def)
  then show ?thesis using assms UrlList
    by (auto simp: wfTurnRest_def cloneTurnRestUrls_def urlsValue_def assertRuntimeTurnUrlList_def jarr_def comp_def list_all_iff)
qed

lemma cloneTurnRestConfig_value: "wfTurnRest url t \<Longrightarrow> cloneTurnRestConfig url (turnRestValue t) = ok t"
  using cloneTurnRestUrls_value[of url t]
  by (cases t) (auto simp: wfTurnRest_def cloneTurnRestConfig_def turnRestValue_def requiredField_def ownDescriptor_jobj definedOr_def urlsValue_defined
      assertRuntimeTurnSecret_def assertRuntimeTurnTtl_def jnat_def, simp add: jobj_def)

text \<open>The texts that the platform supplies: the HMAC in base64 and 16 hexadecimal digits.\<close>

definition printable :: "jsstring \<Rightarrow> bool" where
  "printable s \<longleftrightarrow> list_all (\<lambda>c. 33 \<le> c \<and> c \<le> 126) s"

lemma printable_plain: "printable s \<Longrightarrow> \<not> hasControlOrFormat s"
proof -
  assume p: "printable s"
  then have "codePoints s = s" by (intro codePoints_ascii) (auto simp: printable_def list_all_iff)
  with p show ?thesis by (auto simp: printable_def hasControlOrFormat_def list_all_iff list_ex_iff isControlOrFormat_ascii)
qed

definition validClock :: "jsnum \<Rightarrow> bool" where
  "validClock now \<longleftrightarrow> (case now of NInt i \<Rightarrow> 0 \<le> i \<and> i \<le> MAX_SAFE_INTEGER | _ \<Rightarrow> False)"

lemma turnCredentialExpiresAt_valid:
  assumes "validClock now" "ttl \<le> 86400"
  shows "\<exists>e. turnCredentialExpiresAt now ttl = ok e \<and> length (dec e) \<le> 14"
proof -
  from assms(1) obtain i where i: "now = NInt i" "0 \<le> i" "i \<le> MAX_SAFE_INTEGER"
    by (auto simp: validClock_def split: jsnum.splits)
  have "i div 1000 \<le> 9007199254740" using i(3) by (simp add: MAX_SAFE_INTEGER_def)
  then have "nat (i div 1000) + ttl < 10 ^ 14" using assms(2) by simp
  then have "length (dec (nat (i div 1000) + ttl)) \<le> 14" using length_dec_le[of _ 14] by fastforce
  with i show ?thesis by (simp add: turnCredentialExpiresAt_def)
qed

lemma turn_server_wf:
  assumes "wfTurnRest url t" "length (dec e) \<le> 14" "printable token" "length token = 16"
    "printable credential" "credential \<noteq> []" "length credential \<le> MAX_CLONED_ICE_CREDENTIAL_CHARS"
  shows "wfIceServer url \<lparr>iceUrls = turnUrls t, iceUsername = Some (dec e @ 58 # token), iceCredential = Some credential, iceCredentialType = None\<rparr>"
proof -
  have "list_all (iceUrlOk url) (urlListOf (turnUrls t))"
    using assms(1) by (auto simp: wfTurnRest_def list_all_iff isTurnRestUrl_def intro!: server_url_is_ice_url)
  moreover have "printable (dec e @ 58 # token)"
    using assms(3) dec_digits[of _ e] by (fastforce simp: printable_def list_all_iff isDigit_def)
  ultimately show ?thesis using assms
    by (simp add: wfIceServer_def printable_plain wfTurnRest_def limit_defs)
qed

lemma ice_servers_configured:
  assumes "parseIceServers url nf raw = ok servers" shows "servers \<noteq> []"
proof -
  consider "cloneIceServers url DEFAULT_ICE_SERVERS = ok servers" | v where "isIceServers url v" "cloneIceServers url v = ok servers"
    using assms by (auto simp: parseIceServers_def split: option.splits if_splits)
  then show ?thesis
  proof cases
    case 2
    then show ?thesis by (auto simp: isIceServers_def cloneIceServers_def split: jsval.splits if_splits dest: mapOk_length)
  qed (simp add: default_clone, blast)
qed

text \<open>The list for a session, when the configuration loaded.\<close>

lemma session_list:
  assumes "loadServerConfig url nf cwd moduleDir env = ok c" "validClock now" "printable token" "length token = 16"
    and hmac: "\<And>key text. printable (hmacBase64 key text) \<and> length (hmacBase64 key text) = 28"
  shows "\<exists>servers. iceServersForRequest url hmacBase64 c now token = ok servers \<and> list_all (wfIceServer url) servers
    \<and> length servers = length (cfgIceServers c) + (if cfgTurnRest c = None then 0 else 1)"
proof -
  obtain v where v: "cloneIceServers url v = ok (cfgIceServers c)" using load_checks(6)[OF assms(1)] by (blast dest: parseIceServers_ok)
  note wf = cloneIceServers_wf[OF v]
  have ice: "configIceServers url c = ok (cfgIceServers c)" using cloneIceServers_value[OF wf] by (simp add: configIceServers_def)
  show ?thesis
  proof (cases "cfgTurnRest c")
    case None
    then show ?thesis using ice wf(1) by (simp add: iceServersForRequest_def configTurnRest_def)
  next
    case (Some t)
    have t: "wfTurnRest url t" using load_checks(12)[OF assms(1)] Some by (auto dest: parseTurnRestConfig_ok)
    then obtain e where e: "turnCredentialExpiresAt now (turnTtlSeconds t) = ok e" "length (dec e) \<le> 14"
      using turnCredentialExpiresAt_valid[OF assms(2)] by (auto simp: wfTurnRest_def)
    have "wfIceServer url \<lparr>iceUrls = turnUrls t, iceUsername = Some (dec e @ 58 # token),
        iceCredential = Some (hmacBase64 (turnSecret t) (dec e @ 58 # token)), iceCredentialType = None\<rparr>"
      using hmac[of "turnSecret t" "dec e @ 58 # token"]
      by (intro turn_server_wf t e(2) assms(3,4)) (auto simp: limit_defs)
    then show ?thesis using Some ice wf(1) e(1) by (simp add: iceServersForRequest_def configTurnRest_def cloneTurnRestConfig_value[OF t] Let_def)
  qed
qed

text \<open>C28: The ICE configuration that the server sends to the peers of an accepted session never fails to be built, and
  the check that the clients run on it (\<open>isIceServers\<close>) accepts it exactly when \<open>ICE_SERVERS\<close> leaves room for the
  entry with the TURN credentials: with 16 configured servers and TURN REST enabled the list has 17
  entries, one more than a client accepts, and every client rejects the message.
\<close>

theorem session_ice_accepted:
  assumes "loadServerConfig url nf cwd moduleDir env = ok c" "validClock now" "printable token" "length token = 16"
    and "\<And>key text. printable (hmacBase64 key text) \<and> length (hmacBase64 key text) = 28"
  shows "\<exists>servers. iceServersForRequest url hmacBase64 c now token = ok servers
    \<and> (isIceServers url (iceServersValue servers)
        \<longleftrightarrow> length (cfgIceServers c) \<le> 15 \<or> cfgTurnRest c = None)"
proof -
  obtain v where v: "cloneIceServers url v = ok (cfgIceServers c)" using load_checks(6)[OF assms(1)] by (blast dest: parseIceServers_ok)
  obtain servers where s: "iceServersForRequest url hmacBase64 c now token = ok servers" "list_all (wfIceServer url) servers"
    "length servers = length (cfgIceServers c) + (if cfgTurnRest c = None then 0 else 1)"
    using session_list[OF assms(1-4), of hmacBase64] assms(5) by blast
  have "isIceServers url (iceServersValue servers) \<longleftrightarrow> servers \<noteq> [] \<and> length servers \<le> MAX_ICE_SERVERS"
    using clones_are_ice_servers[OF s(2)] by (auto simp: isIceServers_def iceServersValue_def jarr_def)
  moreover have "cfgIceServers c \<noteq> []" using load_checks(6)[OF assms(1)] by (auto dest: ice_servers_configured)
  then have "servers \<noteq> []" using s(3) by auto
  ultimately show ?thesis using s cloneIceServers_wf(2)[OF v] by (auto simp: limit_defs)
qed

theorem session_ice_accepted_witness:
  "\<exists>c servers. loadServerConfig sampleUrl sampleNumbers (js ''/'') (js ''/srv/dist/server'') sampleEnv = ok c
    \<and> iceServersForRequest sampleUrl (\<lambda>key text. replicate 28 65) c (NInt 0) (replicate 16 97) = ok servers
    \<and> (isIceServers sampleUrl (iceServersValue servers)
        \<longleftrightarrow> length (cfgIceServers c) \<le> 15 \<or> cfgTurnRest c = None)"
proof -
  obtain c where c: "loadServerConfig sampleUrl sampleNumbers (js ''/'') (js ''/srv/dist/server'') sampleEnv = ok c"
    using sample_load by blast
  have "\<exists>servers. iceServersForRequest sampleUrl (\<lambda>key text. replicate 28 65) c (NInt 0) (replicate 16 97) = ok servers
    \<and> (isIceServers sampleUrl (iceServersValue servers)
        \<longleftrightarrow> length (cfgIceServers c) \<le> 15 \<or> cfgTurnRest c = None)"
    by (rule session_ice_accepted[OF c]) (simp_all add: validClock_def MAX_SAFE_INTEGER_def printable_def list_all_iff)
  with c show ?thesis by (intro exI[of _ c]) simp
qed

end
