(* ===== verification/Spec2Isabelle.thy ===== *)
theory Spec2Isabelle
  imports RateLimit PublicManifest Wordlist Authority ServerProperties Pake Signals SenderConversation SenderTurns WholeTransfer TurnCredentials
begin

text \<open>
  A verification library for p2p-transfer, a program that sends files from one computer to another over
  WebRTC data channels. A receiver registers a code with a signaling server, the sender connects with the
  code, the two run a password-authenticated key exchange through the server, agree on a manifest and
  exchange authenticated WebRTC signals; then the files travel directly between them in sealed chunks.
  The definitions are translated from the TypeScript sources under \<open>src/src/\<close>; each has the name of the
  function, class or variable it models wherever Isabelle allows it. The definitions that model code are
  executable; specifications may quantify.

  \<^bold>\<open>Foundations.\<close>
  \<open>Prelude\<close> has the result type of code that throws and the rule collections; \<open>Effects\<close> the computations
  on a state with \<open>catch\<close> and \<open>finally\<close>, Hoare-style contracts for normal and exceptional ends, and the
  locale \<open>frame\<close> for relations between the state before and after. \<open>JsRuntime\<close> models strings as UTF-16 code
  units, numbers, Unicode categories and values of unknown shape with own property descriptors; \<open>Utf8\<close>,
  \<open>Json\<close> and \<open>Base64\<close> the codecs of the platform. \<open>FileSystem\<close> models the calls of Node's \<open>fs\<close>, \<open>path\<close> and
  \<open>process\<close> on a store of names and inodes. \<open>Constants\<close> is \<open>shared/constants.ts\<close>.

  \<^bold>\<open>Messages.\<close>
  \<open>Protocol\<close>, \<open>Messages\<close> and \<open>Serialize\<close> are \<open>shared/messages.ts\<close>: the types, the validators, and the
  parsers and the serializer of frames (a valid message within the limits comes back from every receiving
  side). \<open>FileNames\<close> and \<open>ManifestLimits\<close> are \<open>shared/limits.ts\<close>, \<open>PublicManifest\<close> is
  \<open>shared/public-manifest.ts\<close>: accepted names are portable, and the manifest that the server sees is the
  same for all transfers. \<open>Wordlist\<close> is \<open>shared/wordlist.ts\<close>, \<open>Authority\<close> is \<open>shared/authority.ts\<close> and
  \<open>shared/server-url.ts\<close>, \<open>Ice\<close> is \<open>shared/ice.ts\<close>. \<open>Control\<close> is \<open>shared/transfer.ts\<close>, the messages of the
  control channel, and \<open>Chunks\<close> is \<open>shared/chunks.ts\<close>, the frames of the bulk channel.

  \<^bold>\<open>Cryptographic layer\<close> (\<open>shared/security.ts\<close>, \<open>cli/secure.ts\<close>).
  \<open>SealedJson\<close> has the preflight, writer and padding of encrypted texts, \<open>Sealing\<close> the sealing of manifests,
  control messages and chunks and the session keys, \<open>AuthTags\<close> the canonical texts, the tags over them and
  sealed signals, \<open>Pake\<close> the key exchange up to \<open>establishKeys\<close>, \<open>ControlChannel\<close> a control message from end
  to end. \<open>Signals\<close> is \<open>shared/signal-queue.ts\<close>, \<open>shared/signal-replay.ts\<close> and the handler of incoming
  signals (\<open>wireSignals\<close> of \<open>cli/index.ts\<close>). The lemmas show that opening undoes sealing and accepts nothing
  else, that a tag is accepted exactly when it is the one the signing function computes, that the
  authenticated text determines every field, that honest parties with the same code agree, and that a failed
  exchange leaves no secret.

  \<^bold>\<open>Signaling server\<close> (\<open>server/index.ts\<close> and the modules it uses).
  \<open>RateLimit\<close>, \<open>RelayPolicy\<close> (\<open>policy.ts\<close>) and \<open>ServerParts\<close> (\<open>capacity.ts\<close>, \<open>close-reason.ts\<close>,
  \<open>prepair-attempts.ts\<close>, \<open>session-expiry.ts\<close>, \<open>waiting.ts\<close>) are the decisions; \<open>SignalingServer\<close> has the state
  (the maps of the module, a heap of peers) with the operations that close, end and restore,
  \<open>ServerHandlers\<close> the handlers, the events and \<open>reachable\<close>, the states that sequences of events lead to.
  \<open>ServerInvariant\<close>, \<open>ServerCleanup\<close>, \<open>ServerSafety\<close>, \<open>ServerPairing\<close> and \<open>ServerReach\<close> prove that every event
  keeps the invariant (links between peers, sessions and codes; connection counts; attempts; capacities);
  the nested clean-up that a failing send starts is handled by the locale \<open>message_sender\<close>. \<open>ServerWire\<close>
  says which frames are sent, by the locale \<open>frame_sender\<close>; \<open>ServerTrace\<close> is a concrete run and
  \<open>ServerProperties\<close> states the results. \<open>RequestHeaders\<close> (\<open>request-headers.ts\<close>) finds the address of a client,
  \<open>StaticPath\<close> (\<open>static-path.ts\<close>) the file of a URL path, \<open>Configuration\<close> and \<open>TurnCredentials\<close> (\<open>config.ts\<close>) the
  configuration and the ICE servers given to clients.

  \<^bold>\<open>Transfer\<close> (\<open>cli/files.ts\<close>, \<open>cli/transfer.ts\<close>, \<open>shared/control-waiter.ts\<close>, \<open>waitForBackpressure\<close> of \<open>cli/rtc.ts\<close>).
  \<open>OutputFiles\<close> prepares the files to send and reserves those to receive, \<open>Publish\<close> gives a received file
  its final name without ever replacing one. \<open>Receiver\<close> is \<open>receiveFiles\<close>; \<open>ReceiverInvariant\<close>,
  \<open>ReceiverTasks\<close> and \<open>ReceiverProperties\<close> prove what holds in every run. \<open>AckWaiter\<close> and \<open>Sender\<close> are
  \<open>sendFiles\<close>; \<open>SenderFrames\<close> and \<open>SenderLog\<close> carry the proofs about what is sealed and sent,
  \<open>SenderProperties\<close>, \<open>SenderConversation\<close> and \<open>SenderTurns\<close> the results. \<open>SenderWitness\<close> and \<open>ReceiverWitness\<close>
  are concrete runs of both sides and \<open>WholeTransfer\<close> puts the two together.

  \<^bold>\<open>Concurrency.\<close>
  The program has one thread; other code runs at every \<open>await\<close>. The tasks of the receiver and the calls of
  the sender take from a schedule (\<open>rxEvents\<close>, \<open>sxEvents\<close>) the events that happen while they wait: messages,
  closed channels, timers, stream errors. The file system takes from \<open>ticks\<close> what other processes do before a
  call, whether it fails, and how many bytes it moves. The server takes from \<open>Env\<close> the outcome of each call
  into the WebSocket library. The theorems quantify over all schedules; when a schedule is used up, nothing
  interferes any more, nothing fails, and a pending wait of the sender ends with its timer.

  \<^bold>\<open>Bounds and fuel.\<close>
  \<open>send\<close> of the server recurs through clean-up on fuel, one unit for each session and one more: every nested
  clean-up deletes a session first, and \<open>every_event_completes\<close> shows that no reachable state runs out.
  \<open>readyLoop\<close> gets one turn more than the schedule has entries and uses up an entry in each; \<open>verified_turns\<close>
  of \<open>SenderTurns\<close> shows that more turns change nothing. \<open>JSON.parse\<close> gets twice the length of its text; each
  nested call reads a character first. \<open>followLinks\<close> follows 40 symbolic links, as the kernel does, and then
  fails with \<open>ELOOP\<close>; the 16 attempts of \<open>quarantineLoop\<close> and the attempts of \<open>reserveLoop\<close> are those of the code. The
  sampling loops of \<open>Wordlist\<close> are partial functions, proved to return on fair sources. All other recursion is
  on the data.

  \<^bold>\<open>Parameters.\<close>
  AES-GCM, HMAC, HKDF, the hash functions and CPace are the fields of a \<open>Crypto\<close> record, and what is relied on
  is stated by named predicates (\<open>aeadLaws\<close>, \<open>hashLaws\<close>, \<open>cpaceLaws\<close>), which \<open>plainCrypto\<close> satisfies. The
  text and value of non-integer numbers (\<open>NumberFormat\<close>), the WHATWG URL parser, \<open>net.BlockList\<close>, the BIP-39
  list, random draws, the text of a TURN credential and the clock are arguments.

  \<^bold>\<open>Not modelled.\<close>
  Values are finite trees, so the tests for cyclic values are left out, and so are the runtime self-check of the
  cryptographic library, printing of progress and prompts, the native WebRTC binding and the creation of peer
  connections, the signaling client of the command line, the HTTP handler and the static file server around
  the modelled decisions, and the browser client, which is bound to the DOM and shares the modelled modules
  of \<open>shared/\<close>. Scripts, tests and build files are not part of the program.
\<close>

end
